(* ===== verification/Prelude.thy ===== *)
theory Prelude
  imports Main "HOL-Library.AList"
begin

text \<open>
  Shared vocabulary of the development: the Go data types the registry is written in (maps,
  nilable slices, errors, times, HTTP answers), the part of the Go standard library it calls
  (\<open>strings\<close>, \<open>strconv\<close>, \<open>time.ParseDuration\<close>), and the generic lemmas the component theories use.

  A Go map is an association list with distinct keys. Go iterates over a map in an unspecified
  order; here that order is the order of the list, and since the theorems quantify over every
  list with distinct keys they hold for every iteration order. A nilable slice is an
  \<^typ>\<open>'a list option\<close>, \<^term>\<open>None\<close> being \<open>nil\<close>. A string is the list of its bytes.
\<close>

named_theorems gomap_simps \<open>lookup in updated Go maps\<close>
named_theorems mem_simps \<open>the in-memory store behind the Store interface\<close>
named_theorems wf_intros \<open>operations that keep the store well formed\<close>

section \<open>Errors, nilable values and HTTP answers\<close>

datatype go_error = Err string | ErrConflict

type_synonym 'a result = "go_error + 'a"
type_synonym 'a slice = "'a list option"
type_synonym time = int
type_synonym ('k, 'v) gomap = "('k \<times> 'v) list"

definition elems :: "'a slice \<Rightarrow> 'a list" where
  "elems xs = (case xs of None \<Rightarrow> [] | Some ys \<Rightarrow> ys)"

lemma elems_simps [simp]: "elems None = []" "elems (Some xs) = xs"
  by (simp_all add: elems_def)

text \<open>
  The answer of a handler: \<open>http.Error\<close> with its status and text, or a status with the value
  that is encoded as the body.
\<close>

datatype 'b http = HttpError nat string | HttpOK nat 'b

fun http_status :: "'b http \<Rightarrow> nat" where
  "http_status (HttpError n _) = n"
| "http_status (HttpOK n _) = n"

section \<open>Go maps\<close>

abbreviation gget :: "('k, 'v) gomap \<Rightarrow> 'k \<Rightarrow> 'v option" where
  "gget \<equiv> map_of"

abbreviation gput :: "'k \<Rightarrow> 'v \<Rightarrow> ('k, 'v) gomap \<Rightarrow> ('k, 'v) gomap" where
  "gput \<equiv> AList.update"

abbreviation gdel :: "'k \<Rightarrow> ('k, 'v) gomap \<Rightarrow> ('k, 'v) gomap" where
  "gdel \<equiv> AList.delete"

abbreviation gkeys :: "('k, 'v) gomap \<Rightarrow> 'k list" where
  "gkeys m \<equiv> map fst m"

abbreviation gvals :: "('k, 'v) gomap \<Rightarrow> 'v list" where
  "gvals m \<equiv> map snd m"

abbreviation gdistinct :: "('k, 'v) gomap \<Rightarrow> bool" where
  "gdistinct m \<equiv> distinct (gkeys m)"

lemma gget_gput [gomap_simps]: "gget (gput k v m) k' = (if k' = k then Some v else gget m k')"
  by (simp add: update_conv')

lemma gget_gdel [gomap_simps]: "gget (gdel k m) k' = (if k' = k then None else gget m k')"
  by (simp add: delete_conv')

lemma gdistinct_gput [wf_intros]: "gdistinct m \<Longrightarrow> gdistinct (gput k v m)"
  by (rule distinct_update)

lemma gdistinct_gdel [wf_intros]: "gdistinct m \<Longrightarrow> gdistinct (gdel k m)"
  by (rule distinct_delete)

lemma gget_in_set: "gget m k = Some v \<Longrightarrow> (k, v) \<in> set m"
  by (rule map_of_SomeD)

lemma in_set_gget: "gdistinct m \<Longrightarrow> (k, v) \<in> set m \<longleftrightarrow> gget m k = Some v"
  by (simp add: map_of_eq_Some_iff)

lemma gvals_gget: "gdistinct m \<Longrightarrow> v \<in> set (gvals m) \<longleftrightarrow> (\<exists>k. gget m k = Some v)"
  by (force simp: in_set_gget [symmetric])

lemma gput_same: "gget m k = Some v \<Longrightarrow> gput k v m = m"
  by (induction m) auto

lemma gput_new: "gget m k = None \<Longrightarrow> gput k v m = m @ [(k, v)]"
  by (induction m) (auto split: if_splits)

lemma gput_last: "k \<notin> set (gkeys m) \<Longrightarrow> gput k v (m @ [(k, w)]) = m @ [(k, v)]"
  by (induction m) auto

lemma gkeys_gput: "set (gkeys (gput k v m)) = insert k (set (gkeys m))"
  by (induction m) auto

lemma gkeys_gput_present: "k \<in> set (gkeys m) \<Longrightarrow> gkeys (gput k v m) = gkeys m"
  by (induction m) auto

text \<open>Any iteration order of the same map visits the same values.\<close>

lemma gvals_perm:
  assumes "gdistinct m" and "gdistinct m'" and "gget m = gget m'"
  shows "set (gvals m) = set (gvals m')"
  using assms by (auto simp: gvals_gget set_eq_iff simp del: set_map)

section \<open>Strings\<close>

text \<open>\<open>strings.HasPrefix\<close>, \<open>strings.TrimPrefix\<close>, \<open>strings.Contains\<close>.\<close>

definition has_prefix :: "string \<Rightarrow> string \<Rightarrow> bool" where
  "has_prefix s p = (take (length p) s = p)"

definition trim_prefix :: "string \<Rightarrow> string \<Rightarrow> string" where
  "trim_prefix s p = (if has_prefix s p then drop (length p) s else s)"

fun str_contains :: "string \<Rightarrow> string \<Rightarrow> bool" where
  "str_contains [] p = (p = [])"
| "str_contains (c # cs) p = (has_prefix (c # cs) p \<or> str_contains cs p)"

text \<open>\<open>strings.ReplaceAll\<close> for a non-empty pattern: leftmost, non-overlapping.\<close>

fun replace_all :: "string \<Rightarrow> string \<Rightarrow> string \<Rightarrow> string" where
  "replace_all [] old new = []"
| "replace_all (c # cs) old new =
     (if old \<noteq> [] \<and> has_prefix (c # cs) old
      then new @ replace_all (drop (length old - 1) cs) old new
      else c # replace_all cs old new)"

text \<open>\<open>strings.SplitN(s, sep, 2)[0]\<close> for a one-byte separator.\<close>

definition before :: "char \<Rightarrow> string \<Rightarrow> string" where
  "before sep s = takeWhile (\<lambda>c. c \<noteq> sep) s"

text \<open>\<open>strings.Split\<close> at a one-byte separator.\<close>

fun split_on :: "char \<Rightarrow> string \<Rightarrow> string list" where
  "split_on sep [] = [[]]"
| "split_on sep (c # cs) =
     (if c = sep then [] # split_on sep cs
      else (case split_on sep cs of [] \<Rightarrow> [[c]] | x # xs \<Rightarrow> (c # x) # xs))"

lemma split_on_not_Nil [simp]: "split_on sep s \<noteq> []"
  by (cases s) (auto split: list.splits)

lemma split_on_no_sep: "sep \<notin> set s \<Longrightarrow> split_on sep s = [s]"
  by (induction s) auto

lemma split_on_sep: "sep \<notin> set s \<Longrightarrow> split_on sep (s @ sep # t) = s # split_on sep t"
  by (induction s) auto

text \<open>\<open>strings.TrimSpace\<close> on ASCII text.\<close>

definition is_space :: "char \<Rightarrow> bool" where
  "is_space c = (c \<in> {CHR '' '', CHR 0x09, CHR 0x0A, CHR 0x0B, CHR 0x0C, CHR 0x0D})"

definition trim_space :: "string \<Rightarrow> string" where
  "trim_space s = rev (dropWhile is_space (rev (dropWhile is_space s)))"

text \<open>Byte classes.\<close>

definition in_range :: "char \<Rightarrow> char \<Rightarrow> char \<Rightarrow> bool" where
  "in_range lo hi c = ((of_char lo :: nat) \<le> of_char c \<and> (of_char c :: nat) \<le> of_char hi)"

definition is_lower :: "char \<Rightarrow> bool" where "is_lower c = in_range (CHR ''a'') (CHR ''z'') c"
definition is_upper :: "char \<Rightarrow> bool" where "is_upper c = in_range (CHR ''A'') (CHR ''Z'') c"
definition is_digit :: "char \<Rightarrow> bool" where "is_digit c = in_range (CHR ''0'') (CHR ''9'') c"

definition is_alnum :: "char \<Rightarrow> bool" where
  "is_alnum c = (is_lower c \<or> is_upper c \<or> is_digit c)"

text \<open>\<open>strings.EqualFold\<close> on ASCII text.\<close>

definition to_lower :: "char \<Rightarrow> char" where
  "to_lower c = (if is_upper c then char_of ((of_char c :: nat) + 32) else c)"

definition equal_fold :: "string \<Rightarrow> string \<Rightarrow> bool" where
  "equal_fold s t = (map to_lower s = map to_lower t)"

lemma equal_fold_refl [simp]: "equal_fold s s"
  by (simp add: equal_fold_def)

lemma has_prefix_self [simp]: "has_prefix (p @ s) p"
  by (simp add: has_prefix_def)

lemma before_no_sep: "sep \<notin> set s \<Longrightarrow> before sep (s @ sep # t) = s"
  by (induction s) (auto simp: before_def)

lemma append_sep_inject:
  fixes sep :: char
  assumes "sep \<notin> set a" and "sep \<notin> set a'"
  shows "a @ sep # b = a' @ sep # b' \<longleftrightarrow> a = a' \<and> b = b'"
proof
  assume eq: "a @ sep # b = a' @ sep # b'"
  have "a = before sep (a @ sep # b)" using assms(1) by (simp add: before_no_sep)
  also have "\<dots> = a'" using assms(2) by (simp add: eq before_no_sep)
  finally show "a = a' \<and> b = b'" using eq by simp
qed simp

section \<open>Decimal numbers\<close>

text \<open>\<open>%d\<close> of \<open>fmt.Sprintf\<close>: the decimal representation of a number.\<close>

definition digit_char :: "nat \<Rightarrow> char" where
  "digit_char d = char_of (48 + d)"

fun show_nat :: "nat \<Rightarrow> string" where
  "show_nat n = (if n < 10 then [digit_char n] else show_nat (n div 10) @ [digit_char (n mod 10)])"

declare show_nat.simps [simp del]

definition show_int :: "int \<Rightarrow> string" where
  "show_int i = (if i < 0 then CHR ''-'' # show_nat (nat (- i)) else show_nat (nat i))"

text \<open>\<open>%020d\<close>: padded with zeros on the left to twenty bytes.\<close>

definition pad20 :: "string \<Rightarrow> string" where
  "pad20 s = replicate (20 - length s) (CHR ''0'') @ s"

definition read_nat :: "string \<Rightarrow> nat" where
  "read_nat s = foldl (\<lambda>n c. 10 * n + (of_char c - 48)) 0 s"

lemma of_char_digit_char: "d < 10 \<Longrightarrow> (of_char (digit_char d) :: nat) = 48 + d"
  by (simp add: digit_char_def of_char_of)

lemma read_show_nat: "read_nat (show_nat n) = n"
proof (induction n rule: show_nat.induct)
  case (1 n)
  show ?case
  proof (cases "n < 10")
    case True
    then show ?thesis by (simp add: show_nat.simps [of n] read_nat_def of_char_digit_char)
  next
    case False
    with "1.IH" have "read_nat (show_nat (n div 10)) = n div 10" by simp
    with False show ?thesis
      by (simp add: show_nat.simps [of n] read_nat_def of_char_digit_char)
  qed
qed

lemma show_nat_inject [simp]: "show_nat m = show_nat n \<longleftrightarrow> m = n"
  by (metis read_show_nat)

lemma show_nat_digits: "c \<in> set (show_nat n) \<Longrightarrow> \<exists>d < 10. c = digit_char d"
proof (induction n rule: show_nat.induct)
  case (1 n)
  have "\<exists>d < 10. digit_char (n mod 10) = digit_char d"
    by (intro exI [of _ "n mod 10"]) simp
  with 1 show ?case
    by (cases "n < 10") (auto simp: show_nat.simps [of n])
qed

lemma digit_char_not_minus: "d < 10 \<Longrightarrow> digit_char d \<noteq> CHR ''-''"
  by (auto dest: arg_cong [where f = "of_char :: char \<Rightarrow> nat"] simp: of_char_digit_char)

lemma show_nat_no_minus: "CHR ''-'' \<notin> set (show_nat n)"
  using show_nat_digits digit_char_not_minus by metis

lemma show_int_inject [simp]: "show_int i = show_int j \<longleftrightarrow> i = j"
proof -
  have "CHR ''-'' # s \<noteq> show_nat n" "show_nat n \<noteq> CHR ''-'' # s" for s n
    using show_nat_no_minus [of n] by (metis list.set_intros(1))+
  then show ?thesis by (auto simp: show_int_def)
qed

end
