(* ===== verification/ObjectID.thy ===== *)
theory ObjectID
  imports Prelude
begin

text \<open>
  \<open>internal/spicedb/objectid.go\<close>: the encoding of user and organization ids into SpiceDB object
  ids. It is the identity on letters, digits, underscore and hyphen; every other byte becomes
  \<open>=\<close> and two upper-case hexadecimal digits.
\<close>

definition safeObjectIDByte :: "char \<Rightarrow> bool" where
  "safeObjectIDByte c = (is_alnum c \<or> c = CHR ''_'' \<or> c = CHR ''-'')"

definition isAllSafe :: "string \<Rightarrow> bool" where
  "isAllSafe s = list_all safeObjectIDByte s"

definition hexDigit :: "nat \<Rightarrow> char" where
  "hexDigit n = (if n < 10 then char_of (48 + n) else char_of (65 + (n - 10)))"

definition escapeByte :: "char \<Rightarrow> string" where
  "escapeByte c =
     (if safeObjectIDByte c then [c]
      else [CHR ''='', hexDigit (of_char c div 16), hexDigit (of_char c mod 16)])"

definition EncodeObjectID :: "string \<Rightarrow> string" where
  "EncodeObjectID raw = (if isAllSafe raw then raw else concat (map escapeByte raw))"

lemma EncodeObjectID_map: "EncodeObjectID raw = concat (map escapeByte raw)"
proof -
  have "isAllSafe raw \<Longrightarrow> concat (map escapeByte raw) = raw"
    by (induction raw) (auto simp: isAllSafe_def escapeByte_def)
  then show ?thesis by (simp add: EncodeObjectID_def)
qed

lemma of_char_hexDigit: "n < 16 \<Longrightarrow> (of_char (hexDigit n) :: nat) = (if n < 10 then 48 + n else 55 + n)"
  by (simp add: hexDigit_def)

lemma hexDigit_inject: "m < 16 \<Longrightarrow> n < 16 \<Longrightarrow> hexDigit m = hexDigit n \<longleftrightarrow> m = n"
  by (auto dest: arg_cong [where f = "of_char :: char \<Rightarrow> nat"] simp: of_char_hexDigit split: if_splits)

lemma of_char_div_16: "(of_char c :: nat) div 16 < 16"
  using nat_of_char_less_256 [of c] by (intro less_mult_imp_div_less) simp

lemma equals_not_safe: "\<not> safeObjectIDByte (CHR ''='')"
  by (simp add: safeObjectIDByte_def is_alnum_def is_lower_def is_upper_def is_digit_def in_range_def)

lemma escapeByte_append_inject:
  assumes "escapeByte c @ xs = escapeByte d @ ys"
  shows "c = d \<and> xs = ys"
proof (cases "safeObjectIDByte c"; cases "safeObjectIDByte d")
  assume "\<not> safeObjectIDByte c" "\<not> safeObjectIDByte d"
  then have "(of_char c :: nat) div 16 = of_char d div 16"
    "(of_char c :: nat) mod 16 = of_char d mod 16" "xs = ys"
    using assms by (auto simp: escapeByte_def hexDigit_inject of_char_div_16)
  then have "(of_char c :: nat) = of_char d" by (metis div_mult_mod_eq)
  then show ?thesis using \<open>xs = ys\<close> by simp
qed (use assms equals_not_safe in \<open>auto simp: escapeByte_def\<close>)

lemma escapeByte_nonempty: "escapeByte c \<noteq> []"
  by (simp add: escapeByte_def)

lemma concat_escape_inject: "concat (map escapeByte s) = concat (map escapeByte t) \<Longrightarrow> s = t"
proof (induction s arbitrary: t)
  case Nil
  then show ?case by (cases t) (auto simp: escapeByte_nonempty)
next
  case (Cons c s)
  then obtain d t' where t: "t = d # t'" by (cases t) (auto simp: escapeByte_nonempty)
  with Cons.prems have "escapeByte c @ concat (map escapeByte s) = escapeByte d @ concat (map escapeByte t')"
    by simp
  from escapeByte_append_inject [OF this] Cons.IH t show ?case by simp
qed

lemma EncodeObjectID_eq_iff: "EncodeObjectID s = EncodeObjectID t \<longleftrightarrow> s = t"
  using concat_escape_inject by (auto simp: EncodeObjectID_map)

text \<open>
  The encoding is injective: two ids that differ never share an object id, so a grant written
  for one user can never satisfy the check of another.
\<close>

theorem EncodeObjectID_injective: "inj EncodeObjectID"
  by (auto intro: injI simp: EncodeObjectID_eq_iff)

text \<open>The object-id grammar of SpiceDB named in the source, less the bytes the encoding never emits.\<close>

definition objectIDByte :: "char \<Rightarrow> bool" where
  "objectIDByte c = (is_alnum c \<or> c \<in> {CHR ''/'', CHR ''_'', CHR ''|'', CHR ''='', CHR ''+'', CHR ''-''})"

lemma hexDigit_alnum: "n < 16 \<Longrightarrow> is_alnum (hexDigit n)"
proof (cases "n < 10")
  case True
  then show ?thesis by (simp add: is_alnum_def is_digit_def in_range_def of_char_hexDigit)
next
  case False
  assume "n < 16"
  with False show ?thesis by (simp add: is_alnum_def is_upper_def in_range_def of_char_hexDigit)
qed

lemma objectIDByte_escape:
  "safeObjectIDByte c \<Longrightarrow> objectIDByte c" "objectIDByte (CHR ''='')"
  "n < 16 \<Longrightarrow> objectIDByte (hexDigit n)"
  by (auto simp only: objectIDByte_def safeObjectIDByte_def hexDigit_alnum insert_iff simp_thms)

lemma EncodeObjectID_bytes: "c \<in> set (EncodeObjectID raw) \<Longrightarrow> objectIDByte c"
  by (auto simp: EncodeObjectID_map escapeByte_def objectIDByte_escape of_char_div_16 split: if_splits)

lemma EncodeObjectID_no_at: "CHR ''@'' \<notin> set (EncodeObjectID raw)"
  using EncodeObjectID_bytes [of "CHR ''@''" raw]
  by (auto simp: objectIDByte_def is_alnum_def is_lower_def is_upper_def is_digit_def in_range_def)

text \<open>
  Every encoded id is made of bytes SpiceDB accepts, and an id of safe bytes is left as it is.
\<close>

theorem EncodeObjectID_charset:
  "list_all objectIDByte (EncodeObjectID raw) \<and> (isAllSafe raw \<longleftrightarrow> EncodeObjectID raw = raw)"
proof
  show "list_all objectIDByte (EncodeObjectID raw)"
    by (auto simp: list_all_iff dest: EncodeObjectID_bytes)
next
  have "\<not> isAllSafe raw \<Longrightarrow> length raw < length (concat (map escapeByte raw))"
  proof (induction raw)
    case (Cons c raw)
    have "length raw \<le> length (concat (map escapeByte raw))"
      by (induction raw) (auto simp: escapeByte_def)
    with Cons show ?case by (auto simp: isAllSafe_def escapeByte_def [of c])
  qed (simp add: isAllSafe_def)
  then show "isAllSafe raw \<longleftrightarrow> EncodeObjectID raw = raw"
    by (metis EncodeObjectID_def EncodeObjectID_map less_irrefl)
qed

end
