(* ===== verification/RegistryTypes.thy ===== *)
theory RegistryTypes
  imports Prelude
begin

text \<open>
  The data of the registry contract: \<open>internal/registry/types.go\<close> (organizations, templates,
  agent records, the policy types), the record types of \<open>internal/registry/consent.go\<close>, the
  lifecycle events of \<open>internal/events/types.go\<close> and the caller identity of
  \<open>internal/registrant/registrant.go\<close>. Field names carry a short prefix per struct because
  Isabelle record fields share one name space; otherwise they are the names of the source.
\<close>

section \<open>Organizations\<close>

record AttestationAnchor =
  ancType :: string
  ancAWSAccountID :: string
  ancRoleArnPattern :: string
  ancStatus :: string
  ancActivatedAt :: "time option"

record Substrate =
  subStatus :: string
  subCertFingerprint :: string
  subCertSerial :: string
  subIssuedAt :: time
  subActivatedAt :: "time option"

record Organization =
  orgOrgID :: string
  orgName :: string
  orgRemovalDisposition :: string
  orgDisabled :: bool
  orgAnchor :: "AttestationAnchor option"
  orgSubstrate :: "Substrate option"
  orgCreatedAt :: time

definition AnchorPending :: string where "AnchorPending = ''pending''"
definition AnchorActive :: string where "AnchorActive = ''active''"
definition SubstratePending :: string where "SubstratePending = ''pending''"
definition SubstrateActive :: string where "SubstrateActive = ''active''"
definition RemovalAutoRevoke :: string where "RemovalAutoRevoke = ''auto-revoke''"
definition RemovalOrphanToAdmin :: string where "RemovalOrphanToAdmin = ''orphan-to-admin''"

section \<open>Templates\<close>

definition TemplateStatusActive :: string where "TemplateStatusActive = ''active''"
definition TemplateStatusDisabled :: string where "TemplateStatusDisabled = ''disabled''"

record ChildSpawnPolicy =
  cspRequireUserConsent :: bool
  cspConsentTTL :: string

record DelegationPolicy =
  delAllowedChildTypes :: "string list"
  delGrantableScopes :: "string slice"
  delMaxDepth :: int
  delChildPolicies :: "(string, ChildSpawnPolicy) gomap"

record TemplateMeta =
  metaDisplayName :: string
  metaDescription :: string

record ResourceLimits =
  resCPULimit :: string
  resMemoryLimit :: string

record RuntimeSpec =
  rtImage :: string
  rtResources :: ResourceLimits
  rtEnvDefaults :: "(string, string) gomap"
  rtLifecycle :: string
  rtSupportsChat :: bool

record SpiceDBRelationTemplate =
  relResource :: string
  relRelation :: string
  relSubject :: string

record AuthZSpec =
  azSpiceDBRelations :: "SpiceDBRelationTemplate list"

record AgentTemplate =
  tplAgentType :: string
  tplVersion :: string
  tplStatus :: string
  tplMeta :: TemplateMeta
  tplRuntime :: RuntimeSpec
  tplAuthZ :: AuthZSpec
  tplDelegation :: DelegationPolicy
  tplRequiresTenant :: bool
  tplOrgID :: string
  tplOAuthScopes :: "string list"

record SpawnDecision =
  sdAllowed :: bool
  sdReason :: string
  sdConsentRequired :: bool

section \<open>Agent records\<close>

record AgentRecord =
  agAgentID :: string
  agAgentType :: string
  agTenantID :: string
  agUserID :: string
  agStatus :: string
  agLifecycle :: string
  agSupportsChat :: bool
  agDismissed :: bool
  agParentID :: string
  agOrgID :: string
  agPlacement :: string
  agConsentRequired :: bool

definition PlacementK8s :: string where "PlacementK8s = ''k8s''"
definition PlacementRemote :: string where "PlacementRemote = ''remote''"
definition PlacementSubstrate :: string where "PlacementSubstrate = ''substrate''"

definition ValidPlacement :: "string \<Rightarrow> bool" where
  "ValidPlacement p = (p \<in> {[], PlacementK8s, PlacementRemote, PlacementSubstrate})"

text \<open>The zero value of the struct, which a lookup of an unknown id yields.\<close>

definition zeroAgent :: AgentRecord where
  "zeroAgent = \<lparr>agAgentID = [], agAgentType = [], agTenantID = [], agUserID = [], agStatus = [],
     agLifecycle = [], agSupportsChat = False, agDismissed = False, agParentID = [], agOrgID = [],
     agPlacement = [], agConsentRequired = False\<rparr>"

lemma zeroAgent_simps [simp]:
  "agAgentID zeroAgent = []" "agStatus zeroAgent = []" "agOrgID zeroAgent = []"
  "agParentID zeroAgent = []" "agPlacement zeroAgent = []" "agUserID zeroAgent = []"
  "agAgentType zeroAgent = []"
  by (simp_all add: zeroAgent_def)

section \<open>Consent\<close>

record ConsentRecord =
  conID :: string
  conUserID :: string
  conParentType :: string
  conChildType :: string
  conScopes :: "string slice"
  conGrantedAt :: time
  conExpiresAt :: "time option"
  conRevoked :: bool

record ConsentDecision =
  cdGranted :: bool
  cdReason :: string

datatype ConsentRequestStatus = ConsentPending | ConsentApproved | ConsentDenied

fun statusString :: "ConsentRequestStatus \<Rightarrow> string" where
  "statusString ConsentPending = ''pending''"
| "statusString ConsentApproved = ''approved''"
| "statusString ConsentDenied = ''denied''"

record ConsentRequest =
  crID :: string
  crUserID :: string
  crParentType :: string
  crChildType :: string
  crAgentID :: string
  crScopes :: "string slice"
  crBindingMessage :: string
  crStatus :: ConsentRequestStatus
  crCreatedAt :: time
  crResolvedAt :: "time option"
  crExternalRef :: string

section \<open>Events and identities\<close>

record authzTuple =
  atResource :: string
  atRelation :: string
  atSubject :: string

text \<open>
  The payloads the registry writes: a JSON object of strings, the record that was registered, the
  tuples that were written, and the scope, audience, lifetime and token of an issued token. \<open>RawPayload\<close> is what
  another caller posted.
\<close>

datatype payload =
    ObjPayload "(string \<times> string) list"
  | RecordPayload AgentRecord
  | TuplesPayload "authzTuple list"
  | TokenPayload string string int string
  | RawPayload string

datatype Source = SourceOrchestrator | SourceOperator | SourceRegistry | SourceAgent | SourceOther string

record Event =
  evID :: string
  evTimestamp :: time
  evSource :: Source
  evType :: string
  evPayload :: payload

definition newEvent :: "Source \<Rightarrow> string \<Rightarrow> payload \<Rightarrow> Event" where
  "newEvent src ty p = \<lparr>evID = [], evTimestamp = 0, evSource = src, evType = ty, evPayload = p\<rparr>"

record Identity =
  idAgentID :: string
  idOrgID :: string
  idSubject :: string
  idIssuer :: string
  idPlatformSVID :: bool

end
