(* ===== verification/Consent.thy ===== *)
theory Consent
  imports RegistryTypes
begin

text \<open>
  The consent policy of \<open>internal/registry/consent.go\<close>: the identifier charset, the keys of the
  consent edge and of an open request, the scope subset test and the decision on a stored grant.
\<close>

section \<open>Definitions\<close>

text \<open>The regular expression \<open>^[A-Za-z0-9._:@-]+$\<close>.\<close>

definition userIDChar :: "char \<Rightarrow> bool" where
  "userIDChar c = (is_alnum c \<or> c \<in> {CHR ''.'', CHR ''_'', CHR '':'', CHR ''@'', CHR ''-''})"

definition ValidUserID :: "string \<Rightarrow> bool" where
  "ValidUserID s = (s \<noteq> [] \<and> list_all userIDChar s)"

definition ConsentEdgeKey :: "string \<Rightarrow> string \<Rightarrow> string \<Rightarrow> string" where
  "ConsentEdgeKey userID parentType childType = userID @ ''|'' @ parentType @ ''|'' @ childType"

definition OpenRequestKey :: "string \<Rightarrow> string \<Rightarrow> string \<Rightarrow> string \<Rightarrow> string" where
  "OpenRequestKey userID parentType childType agentID =
     (if agentID \<noteq> [] then ''agent:'' @ agentID
      else ConsentEdgeKey userID parentType childType)"

text \<open>The first requested scope outside the granted ones; the empty string stands for none.\<close>

fun firstMissing :: "string list \<Rightarrow> string list \<Rightarrow> string" where
  "firstMissing granted [] = []"
| "firstMissing granted (sc # scs) = (if sc \<notin> set granted then sc else firstMissing granted scs)"

definition FirstUncoveredScope :: "string slice \<Rightarrow> string slice \<Rightarrow> string" where
  "FirstUncoveredScope granted requested = firstMissing (elems granted) (elems requested)"

text \<open>\<open>%q\<close> of a scope: its text between double quotes (the scopes are printable ASCII).\<close>

definition quoted :: "string \<Rightarrow> string" where
  "quoted s = CHR 0x22 # s @ [CHR 0x22]"

definition EvaluateConsent :: "ConsentRecord \<Rightarrow> string slice \<Rightarrow> time \<Rightarrow> ConsentDecision" where
  "EvaluateConsent rec requestedScopes now =
     (if conRevoked rec then \<lparr>cdGranted = False, cdReason = ''consent revoked''\<rparr>
      else if (case conExpiresAt rec of None \<Rightarrow> False | Some e \<Rightarrow> now > e)
        then \<lparr>cdGranted = False, cdReason = ''consent expired''\<rparr>
      else let sc = FirstUncoveredScope (conScopes rec) requestedScopes
           in if sc \<noteq> [] then \<lparr>cdGranted = False,
                cdReason = ''scope '' @ quoted sc @ '' not previously granted''\<rparr>
              else \<lparr>cdGranted = True, cdReason = ''matched''\<rparr>)"

definition consentExpired :: "ConsentRecord \<Rightarrow> time \<Rightarrow> bool" where
  "consentExpired rec now = (case conExpiresAt rec of None \<Rightarrow> False | Some e \<Rightarrow> now > e)"

section \<open>The scope subset test\<close>

lemma firstMissing_covered: "set requested \<subseteq> set granted \<Longrightarrow> firstMissing granted requested = []"
  by (induction requested) auto

lemma firstMissing_empty_iff:
  "firstMissing granted requested = [] \<longleftrightarrow>
     set requested \<subseteq> set granted \<or>
     (\<exists>pre post. requested = pre @ [] # post \<and> set pre \<subseteq> set granted \<and> [] \<notin> set granted)"
proof (induction requested)
  case (Cons sc scs)
  show ?case
  proof (cases "sc \<in> set granted")
    case True
    have "(\<exists>pre post. sc # scs = pre @ [] # post \<and> set pre \<subseteq> set granted \<and> [] \<notin> set granted)
        \<longleftrightarrow> (\<exists>pre post. scs = pre @ [] # post \<and> set pre \<subseteq> set granted \<and> [] \<notin> set granted)"
      (is "?L \<longleftrightarrow> ?R")
    proof
      assume ?L
      then obtain pre post where p: "sc # scs = pre @ [] # post" "set pre \<subseteq> set granted"
        "[] \<notin> set granted" by blast
      then obtain pre' where "pre = sc # pre'" using True by (cases pre) auto
      with p show ?R by auto
    next
      assume ?R
      then obtain pre post where "scs = pre @ [] # post" "set pre \<subseteq> set granted"
        "[] \<notin> set granted" by blast
      with True show ?L by (intro exI [of _ "sc # pre"] exI [of _ post]) simp
    qed
    with Cons True show ?thesis by simp
  next
    case False
    show ?thesis
    proof (cases "sc = []")
      case True
      with False have "firstMissing granted (sc # scs) = []" by simp
      moreover have "\<exists>pre post. sc # scs = pre @ [] # post \<and> set pre \<subseteq> set granted \<and> [] \<notin> set granted"
        using True False by (intro exI [of _ "[]"] exI [of _ scs]) simp
      ultimately show ?thesis by blast
    next
      case nonempty: False
      have "\<not> (\<exists>pre post. sc # scs = pre @ [] # post \<and> set pre \<subseteq> set granted)"
        using False nonempty by (auto simp: Cons_eq_append_conv)
      with False nonempty show ?thesis by auto
    qed
  qed
qed simp

lemma firstMissing_sound:
  "firstMissing granted requested = sc \<Longrightarrow> sc \<noteq> [] \<Longrightarrow> sc \<in> set requested \<and> sc \<notin> set granted"
  by (induction requested) (auto split: if_splits)

text \<open>
  The scope test answers ``covered'' exactly when every requested scope was granted, provided
  no requested scope is the empty string; and when it names a scope, that scope was requested and
  was not granted.
\<close>

theorem FirstUncoveredScope_correct:
  assumes "[] \<notin> set (elems requested)"
  shows "(FirstUncoveredScope granted requested = [] \<longleftrightarrow>
            set (elems requested) \<subseteq> set (elems granted)) \<and>
         (FirstUncoveredScope granted requested \<noteq> [] \<longrightarrow>
            FirstUncoveredScope granted requested \<in> set (elems requested) - set (elems granted))"
proof -
  have "\<not> (\<exists>pre post. elems requested = pre @ [] # post)" using assms by auto
  then have "FirstUncoveredScope granted requested = [] \<longleftrightarrow>
      set (elems requested) \<subseteq> set (elems granted)"
    by (auto simp: FirstUncoveredScope_def firstMissing_empty_iff)
  moreover have "FirstUncoveredScope granted requested \<noteq> [] \<Longrightarrow>
      FirstUncoveredScope granted requested \<in> set (elems requested) - set (elems granted)"
    using firstMissing_sound by (auto simp: FirstUncoveredScope_def)
  ultimately show ?thesis by blast
qed

theorem FirstUncoveredScope_correct_witness:
  "FirstUncoveredScope (Some [''read'']) (Some [''read'', ''write'']) = ''write'' \<and>
   ''write'' \<in> set [''read'', ''write''] - set [''read'']"
proof -
  have "[] \<notin> set (elems (Some [''read'', ''write'']))" by simp
  from FirstUncoveredScope_correct [OF this, of "Some [''read'']"] show ?thesis
    by (simp add: FirstUncoveredScope_def)
qed

text \<open>
  The decision on a stored consent grants a spawn exactly when the consent is not revoked, has
  not expired and no requested scope is missing, where a missing empty scope string hides every
  scope that follows it: the code takes the empty answer of the scope test for ``all covered''.
\<close>

theorem EvaluateConsent_granted_iff:
  "cdGranted (EvaluateConsent rec req now) \<longleftrightarrow>
     \<not> conRevoked rec \<and> \<not> consentExpired rec now \<and>
     (set (elems req) \<subseteq> set (elems (conScopes rec)) \<or>
      (\<exists>pre post. elems req = pre @ [] # post \<and> set pre \<subseteq> set (elems (conScopes rec))
         \<and> [] \<notin> set (elems (conScopes rec))))"
  unfolding firstMissing_empty_iff [symmetric]
  by (simp add: EvaluateConsent_def Let_def FirstUncoveredScope_def consentExpired_def)

text \<open>
  Scope escalation past the stored grant. A consent that grants no scope at all covers a
  request for the two scopes ``empty string'' and \<open>s\<close>, whatever \<open>s\<close> is: the empty scope in front stops the test and
  its name is read as ``nothing uncovered''.
\<close>

theorem empty_scope_masks_escalation:
  assumes "\<not> conRevoked rec" and "conExpiresAt rec = None" and "conScopes rec = Some []"
  shows "cdGranted (EvaluateConsent rec (Some [[], s]) now)"
  using assms by (simp add: EvaluateConsent_def FirstUncoveredScope_def Let_def)

theorem empty_scope_masks_escalation_witness:
  "let rec = \<lparr>conID = ''consent-1'', conUserID = ''alice'', conParentType = ''p'',
         conChildType = ''c'', conScopes = Some [], conGrantedAt = 0, conExpiresAt = None,
         conRevoked = False\<rparr>
   in cdGranted (EvaluateConsent rec (Some [[], ''admin'']) 5) \<and>
      \<not> cdGranted (EvaluateConsent rec (Some [''admin'']) 5)"
  unfolding Let_def
  by (intro conjI empty_scope_masks_escalation) (simp_all add: EvaluateConsent_def FirstUncoveredScope_def)

section \<open>The keys\<close>

lemma ConsentEdgeKey_inject:
  assumes "CHR ''|'' \<notin> set u" "CHR ''|'' \<notin> set u'" "CHR ''|'' \<notin> set p" "CHR ''|'' \<notin> set p'"
  shows "ConsentEdgeKey u p c = ConsentEdgeKey u' p' c' \<longleftrightarrow> u = u' \<and> p = p' \<and> c = c'"
  using append_sep_inject [OF assms(1,2)] append_sep_inject [OF assms(3,4)]
  by (simp add: ConsentEdgeKey_def)

lemma ValidUserID_no_bar: "ValidUserID u \<Longrightarrow> CHR ''|'' \<notin> set u"
  by (auto simp: ValidUserID_def list_all_iff userIDChar_def is_alnum_def is_lower_def is_upper_def
      is_digit_def in_range_def)

text \<open>
  For users that pass the charset check and parent types without a bar, the serialised edge
  determines the user, the parent type and the child type: no consent of one edge can be read
  under another.
\<close>

theorem ConsentEdgeKey_injective:
  assumes "ValidUserID u" and "ValidUserID u'" and "CHR ''|'' \<notin> set p" and "CHR ''|'' \<notin> set p'"
  shows "ConsentEdgeKey u p c = ConsentEdgeKey u' p' c' \<longleftrightarrow> u = u' \<and> p = p' \<and> c = c'"
  using assms ConsentEdgeKey_inject ValidUserID_no_bar by blast

theorem ConsentEdgeKey_injective_witness:
  "ConsentEdgeKey ''alice@x.com'' ''planner'' ''a|b'' \<noteq> ConsentEdgeKey ''alice'' ''planner'' ''a|b''"
proof -
  have v: "ValidUserID ''alice@x.com''" "ValidUserID ''alice''" by code_simp+
  have "CHR ''|'' \<notin> set ''planner''" by simp
  from ConsentEdgeKey_injective [OF v this this] show ?thesis by simp
qed

text \<open>Outside these inputs the key is not injective: a bar in a type shifts the border between the two types.\<close>

lemma ConsentEdgeKey_collision: "ConsentEdgeKey u a (b @ ''|'' @ c) = ConsentEdgeKey u (a @ ''|'' @ b) c"
  by (simp add: ConsentEdgeKey_def)

end
