(* ===== verification/Schema.thy ===== *)
theory Schema
  imports RegistryTypes
begin

text \<open>
  \<open>internal/registry/schema.go\<close> and \<open>schemastate.go\<close>: the line-oriented reader of a SpiceDB
  schema, the check of a template's relations against it, and the schema state both store
  implementations embed. The regular expressions of the source are written out as the byte
  scans they denote (\<open>\s\<close> and \<open>\w\<close> are the ASCII classes of Go's RE2).
\<close>

section \<open>Definitions\<close>

text \<open>\<open>SchemaModel.definitions\<close>: object type to the relation and permission names declared on it.\<close>

type_synonym SchemaModel = "(string, string list) gomap"

definition reSpace :: "char \<Rightarrow> bool" where
  "reSpace c = (c \<in> {CHR '' '', CHR 0x09, CHR 0x0A, CHR 0x0C, CHR 0x0D})"

definition reWord :: "char \<Rightarrow> bool" where
  "reWord c = (is_alnum c \<or> c = CHR ''_'')"

text \<open>\<open>reLineComment.ReplaceAllString(raw, "")\<close>: everything from the first \<open>//\<close> on.\<close>

fun stripComment :: "string \<Rightarrow> string" where
  "stripComment [] = []"
| "stripComment [c] = [c]"
| "stripComment (c # d # cs) =
     (if c = CHR ''/'' \<and> d = CHR ''/'' then [] else c # stripComment (d # cs))"

text \<open>
  \<open>^kw\s+(\w+)\<close>: the word after the keyword, with the text that follows it. The greedy \<open>\w+\<close>
  takes the longest run, and no shorter run can satisfy what follows in the patterns of the source.
\<close>

definition kwName :: "string \<Rightarrow> string \<Rightarrow> (string \<times> string) option" where
  "kwName kw line =
     (if \<not> has_prefix line kw then None
      else let r = drop (length kw) line;
               r1 = dropWhile reSpace r;
               nm = takeWhile reWord r1
           in if length r1 = length r \<or> nm = [] then None
              else Some (nm, dropWhile reWord r1))"

definition reDefinition :: "string \<Rightarrow> string option" where
  "reDefinition line = map_option fst (kwName ''definition'' line)"

definition reCaveat :: "string \<Rightarrow> bool" where
  "reCaveat line = (kwName ''caveat'' line \<noteq> None)"

definition kwNameThen :: "string \<Rightarrow> char \<Rightarrow> string \<Rightarrow> string option" where
  "kwNameThen kw stop line =
     (case kwName kw line of
        None \<Rightarrow> None
      | Some (nm, rest) \<Rightarrow>
          (case dropWhile reSpace rest of [] \<Rightarrow> None | c # _ \<Rightarrow> if c = stop then Some nm else None))"

definition reRelation :: "string \<Rightarrow> string option" where
  "reRelation line = kwNameThen ''relation'' (CHR '':'') line"

definition rePermission :: "string \<Rightarrow> string option" where
  "rePermission line = kwNameThen ''permission'' (CHR ''='') line"

text \<open>The loop state of \<open>ParseSchema\<close>: model, current definition, inside a caveat, brace depth.\<close>

record parseState =
  psDefs :: SchemaModel
  psCurrent :: string
  psInCaveat :: bool
  psDepth :: int

definition addName :: "string \<Rightarrow> string \<Rightarrow> SchemaModel \<Rightarrow> SchemaModel" where
  "addName ty nm m =
     (let ns = (case gget m ty of None \<Rightarrow> [] | Some ns \<Rightarrow> ns)
      in gput ty (if nm \<in> set ns then ns else ns @ [nm]) m)"

definition classifyLine :: "string \<Rightarrow> parseState \<Rightarrow> parseState" where
  "classifyLine line ps =
     (case reDefinition line of
        Some nm \<Rightarrow> ps\<lparr>psCurrent := nm, psInCaveat := False,
                      psDefs := (if gget (psDefs ps) nm = None then gput nm [] (psDefs ps) else psDefs ps)\<rparr>
      | None \<Rightarrow>
          if reCaveat line then ps\<lparr>psCurrent := [], psInCaveat := True\<rparr>
          else if psCurrent ps \<noteq> [] \<and> \<not> psInCaveat ps then
            (case reRelation line of
               Some nm \<Rightarrow> ps\<lparr>psDefs := addName (psCurrent ps) nm (psDefs ps)\<rparr>
             | None \<Rightarrow>
                 (case rePermission line of
                    Some nm \<Rightarrow> ps\<lparr>psDefs := addName (psCurrent ps) nm (psDefs ps)\<rparr>
                  | None \<Rightarrow> ps))
          else ps)"

definition trackDepth :: "string \<Rightarrow> parseState \<Rightarrow> parseState" where
  "trackDepth line ps =
     (let d = psDepth ps + int (count_list line (CHR ''{'')) - int (count_list line (CHR ''}''))
      in if d \<le> 0 then ps\<lparr>psCurrent := [], psInCaveat := False, psDepth := 0\<rparr>
         else ps\<lparr>psDepth := d\<rparr>)"

definition parseLine :: "string \<Rightarrow> parseState \<Rightarrow> parseState" where
  "parseLine raw ps =
     (let line = trim_space (stripComment raw)
      in if line = [] then ps else trackDepth line (classifyLine line ps))"

text \<open>\<open>strings.Split(schema, "\n")\<close>\<close>

fun splitLines :: "string \<Rightarrow> string list" where
  "splitLines [] = [[]]"
| "splitLines (c # cs) =
     (if c = CHR 0x0A then [] # splitLines cs
      else case splitLines cs of [] \<Rightarrow> [[c]] | l # ls \<Rightarrow> (c # l) # ls)"

definition ParseSchema :: "string \<Rightarrow> SchemaModel result" where
  "ParseSchema schema =
     (let ps = fold parseLine (splitLines schema)
                 \<lparr>psDefs = [], psCurrent = [], psInCaveat = False, psDepth = 0\<rparr>
      in if psDefs ps = [] then Inl (Err ''schema declares no definitions'') else Inr (psDefs ps))"

definition objectType :: "string \<Rightarrow> string" where
  "objectType ref = before (CHR '':'') (trim_space ref)"

definition relErr :: "nat \<Rightarrow> string \<Rightarrow> go_error" where
  "relErr i msg = Err (''spiceDbRelations['' @ show_nat i @ '']: '' @ msg)"

definition dquoted :: "string \<Rightarrow> string" where
  "dquoted s = CHR 0x22 # s @ [CHR 0x22]"

fun validateFrom :: "SchemaModel \<Rightarrow> nat \<Rightarrow> SpiceDBRelationTemplate list \<Rightarrow> go_error option" where
  "validateFrom m i [] = None"
| "validateFrom m i (rel # rels) =
     (let resType = objectType (relResource rel); subType = objectType (relSubject rel)
      in case gget m resType of
           None \<Rightarrow> Some (relErr i (''unknown resource definition '' @ dquoted resType))
         | Some names \<Rightarrow>
             if relRelation rel \<notin> set names
             then Some (relErr i (''unknown relation '' @ dquoted (relRelation rel) @
                          '' on definition '' @ dquoted resType))
             else if gget m subType = None
             then Some (relErr i (''unknown subject definition '' @ dquoted subType))
             else validateFrom m (Suc i) rels)"

definition Validate :: "SchemaModel \<Rightarrow> AuthZSpec \<Rightarrow> go_error option" where
  "Validate m spec = validateFrom m 0 (azSpiceDBRelations spec)"

text \<open>\<open>schemastate.go\<close>: the active schema; no model disables validation.\<close>

record SchemaState =
  ssModel :: "SchemaModel option"
  ssText :: string
  ssVersion :: string
  ssSource :: string

definition SetSchema :: "string \<Rightarrow> string \<Rightarrow> string \<Rightarrow> SchemaState \<Rightarrow> SchemaState" where
  "SetSchema text version source s =
     s\<lparr>ssText := text, ssVersion := version, ssSource := source,
       ssModel := (case ParseSchema text of Inl _ \<Rightarrow> None | Inr m \<Rightarrow> Some m)\<rparr>"

definition schemaInfo :: "SchemaState \<Rightarrow> string \<times> string \<times> string" where
  "schemaInfo s = (ssText s, ssVersion s, ssSource s)"

definition ValidateTemplate :: "SchemaState \<Rightarrow> AgentTemplate \<Rightarrow> go_error option" where
  "ValidateTemplate s t =
     (case ssModel s of None \<Rightarrow> None | Some m \<Rightarrow> Validate m (tplAuthZ t))"

section \<open>Validation\<close>

definition relWellFormed :: "SchemaModel \<Rightarrow> SpiceDBRelationTemplate \<Rightarrow> bool" where
  "relWellFormed m rel =
     (case gget m (objectType (relResource rel)) of
        None \<Rightarrow> False
      | Some names \<Rightarrow> relRelation rel \<in> set names \<and> gget m (objectType (relSubject rel)) \<noteq> None)"

lemma validateFrom_None: "validateFrom m i rels = None \<longleftrightarrow> list_all (relWellFormed m) rels"
  by (induction m i rels rule: validateFrom.induct)
     (auto simp: relWellFormed_def Let_def split: option.splits)

text \<open>
  A template passes the check exactly when each of its relations names a declared resource
  type, a relation or permission declared on it and a declared subject type; with no parsed model
  every template passes.
\<close>

theorem ValidateTemplate_iff:
  "ValidateTemplate s t = None \<longleftrightarrow>
     ssModel s = None \<or>
     (\<exists>m. ssModel s = Some m \<and> list_all (relWellFormed m) (azSpiceDBRelations (tplAuthZ t)))"
  by (auto simp: ValidateTemplate_def Validate_def validateFrom_None split: option.splits)

section \<open>Reading back a rendered schema\<close>

text \<open>
  A schema in the layout of the embedded \<open>schema.zed\<close>: one block per definition, one relation per
  line.
\<close>

definition defLine :: "string \<Rightarrow> string" where
  "defLine n = ''definition '' @ n @ '' {''"

definition relLine :: "string \<Rightarrow> string" where
  "relLine r = ''    relation '' @ r @ '': user''"

definition renderDef :: "string \<times> string list \<Rightarrow> string list" where
  "renderDef d = defLine (fst d) # map relLine (snd d) @ [''}'']"

definition joinLines :: "string list \<Rightarrow> string" where
  "joinLines ls = concat (map (\<lambda>l. l @ [CHR 0x0A]) ls)"

definition renderSchema :: "SchemaModel \<Rightarrow> string" where
  "renderSchema m = joinLines (concat (map renderDef m))"

definition isName :: "string \<Rightarrow> bool" where
  "isName s = (s \<noteq> [] \<and> list_all reWord s)"

definition renderable :: "SchemaModel \<Rightarrow> bool" where
  "renderable m = (gdistinct m \<and> (\<forall>d \<in> set m. isName (fst d) \<and> list_all isName (snd d) \<and> distinct (snd d)))"

lemma reWord_not: "reWord c \<Longrightarrow> c \<notin> {CHR ''/'', CHR 0x0A, CHR ''{'', CHR ''}'', CHR '' '', CHR '':''}"
  by (auto simp: reWord_def is_alnum_def is_lower_def is_upper_def is_digit_def in_range_def)

lemma isName_notin:
  assumes "isName s"
  shows "CHR ''/'' \<notin> set s" "CHR 0x0A \<notin> set s" "CHR ''{'' \<notin> set s" "CHR ''}'' \<notin> set s"
  using assms reWord_not by (auto simp: isName_def list_all_iff)

lemma stripComment_id: "CHR ''/'' \<notin> set s \<Longrightarrow> stripComment s = s"
  by (induction s rule: stripComment.induct) auto

lemma splitLines_line: "CHR 0x0A \<notin> set l \<Longrightarrow> splitLines (l @ CHR 0x0A # s) = l # splitLines s"
  by (induction l) auto

lemma splitLines_join:
  "\<forall>l \<in> set ls. CHR 0x0A \<notin> set l \<Longrightarrow> splitLines (joinLines ls) = ls @ [[]]"
  by (induction ls) (auto simp: joinLines_def splitLines_line)

lemma trim_space_id: "s \<noteq> [] \<Longrightarrow> \<not> is_space (hd s) \<Longrightarrow> \<not> is_space (last s) \<Longrightarrow> trim_space s = s"
proof -
  assume "s \<noteq> []" "\<not> is_space (hd s)" "\<not> is_space (last s)"
  then have "dropWhile is_space s = s" "dropWhile is_space (rev s) = rev s"
    by (simp_all only: dropWhile_eq_self_iff hd_rev rev_is_Nil_conv simp_thms)
  then show ?thesis by (simp add: trim_space_def)
qed

lemma trim_space_lead: "is_space c \<Longrightarrow> trim_space (c # s) = trim_space s"
  by (simp add: trim_space_def)

lemma takeWhile_name: "isName n \<Longrightarrow> \<not> reWord c \<Longrightarrow> takeWhile reWord (n @ c # s) = n"
  by (induction n) (auto simp: isName_def list_all_iff takeWhile_append)

lemma dropWhile_name: "isName n \<Longrightarrow> \<not> reWord c \<Longrightarrow> dropWhile reWord (n @ c # s) = c # s"
  by (auto simp: isName_def list_all_iff dropWhile_append)

lemma name_hd_not_space: "isName n \<Longrightarrow> dropWhile reSpace (n @ s) = n @ s"
  by (cases n) (auto simp: isName_def reWord_def reSpace_def is_alnum_def is_lower_def is_upper_def
      is_digit_def in_range_def)

lemma kwName_match:
  assumes "isName n" and "\<not> reWord c"
  shows "kwName kw (kw @ CHR '' '' # n @ c # s) = Some (n, c # s)"
proof -
  have "n \<noteq> []" using assms(1) by (simp add: isName_def)
  moreover have "reSpace (CHR '' '')" by (simp add: reSpace_def)
  ultimately show ?thesis
    using name_hd_not_space [OF assms(1), of "c # s"]
    by (simp add: kwName_def takeWhile_name dropWhile_name assms)
qed

lemma sep_not_word: "\<not> reWord (CHR '' '')" "\<not> reWord (CHR '':'')"
  using reWord_not by blast+

lemma count_list_notin: "c \<notin> set s \<Longrightarrow> count_list s c = 0"
  by (simp add: count_list_0_iff)

text \<open>The three kinds of line.\<close>

lemma parse_def_line:
  fixes ps :: parseState
  assumes "isName n" and "gget (psDefs ps) n = None" and "psDepth ps = 0"
  shows "parseLine (defLine n) ps =
           \<lparr>psDefs = psDefs ps @ [(n, [])], psCurrent = n, psInCaveat = False, psDepth = 1\<rparr>"
proof -
  let ?l = "''definition '' @ n @ '' {''"
  have "stripComment ?l = ?l" using isName_notin [OF assms(1)] by (intro stripComment_id) auto
  moreover have "trim_space ?l = ?l" by (intro trim_space_id) (auto simp: is_space_def)
  moreover have "reDefinition ?l = Some n"
    using kwName_match [OF assms(1) sep_not_word(1), of "''definition''" "''{''"]
    by (simp add: reDefinition_def)
  moreover have "count_list ?l (CHR ''{'') = 1" "count_list ?l (CHR ''}'') = 0"
    using isName_notin [OF assms(1)] by (simp_all add: count_list_notin)
  ultimately show ?thesis
    using assms by (cases ps) (simp add: parseLine_def classifyLine_def trackDepth_def gput_new defLine_def)
qed

lemma parse_rel_line:
  fixes ps :: parseState
  assumes "isName r" "isName t" "psDefs ps = pre @ [(t, rs)]" "t \<notin> set (gkeys pre)" "r \<notin> set rs"
    "psCurrent ps = t" "\<not> psInCaveat ps" "psDepth ps = 1"
  shows "parseLine (relLine r) ps = ps\<lparr>psDefs := pre @ [(t, rs @ [r])]\<rparr>"
proof -
  let ?l = "''relation '' @ r @ '': user''"
  have "stripComment (''    '' @ ?l) = ''    '' @ ?l"
    using isName_notin [OF assms(1)] by (intro stripComment_id) auto
  moreover have "trim_space (''    '' @ ?l) = ?l"
  proof -
    have "trim_space ?l = ?l" by (intro trim_space_id) (auto simp: is_space_def)
    moreover have "is_space (CHR '' '')" by (simp add: is_space_def)
    ultimately show ?thesis by (simp add: trim_space_lead)
  qed
  moreover have "reDefinition ?l = None" "\<not> reCaveat ?l"
    by (simp_all add: reDefinition_def reCaveat_def kwName_def has_prefix_def)
  moreover have "reRelation ?l = Some r"
    using kwName_match [OF assms(1) sep_not_word(2), of "''relation''" "'' user''"]
    by (simp add: reRelation_def kwNameThen_def reSpace_def)
  moreover have "count_list ?l (CHR ''{'') = 0" "count_list ?l (CHR ''}'') = 0"
    using isName_notin [OF assms(1)] by (simp_all add: count_list_notin)
  moreover have "gget (pre @ [(t, rs)]) t = Some rs"
    using assms(4) by (simp add: map_add_Some_iff map_of_eq_None_iff)
  then have "addName t r (psDefs ps) = pre @ [(t, rs @ [r])]"
    using assms(3,4,5) by (simp add: addName_def gput_last)
  moreover have "t \<noteq> []" using assms(2) by (simp add: isName_def)
  ultimately show ?thesis
    using assms(3,6,7,8) by (cases ps) (simp add: parseLine_def classifyLine_def trackDepth_def relLine_def)
qed

lemma parse_close_line:
  fixes ps :: parseState
  assumes "psDepth ps = 1"
  shows "parseLine ''}'' ps = ps\<lparr>psCurrent := [], psInCaveat := False, psDepth := 0\<rparr>"
proof -
  have "trim_space ''}'' = ''}''" by (intro trim_space_id) (auto simp: is_space_def)
  then show ?thesis
    using assms
    by (cases ps) (simp add: parseLine_def classifyLine_def trackDepth_def reDefinition_def reCaveat_def
        reRelation_def rePermission_def kwNameThen_def kwName_def has_prefix_def Let_def)
qed

lemma parse_rel_lines:
  assumes "isName t" "t \<notin> set (gkeys pre)" "list_all isName rs" "distinct (done @ rs)"
  shows "fold parseLine (map relLine rs)
           \<lparr>psDefs = pre @ [(t, done)], psCurrent = t, psInCaveat = False, psDepth = 1\<rparr> =
         \<lparr>psDefs = pre @ [(t, done @ rs)], psCurrent = t, psInCaveat = False, psDepth = 1\<rparr>"
  using assms(3,4)
proof (induction rs arbitrary: "done")
  case (Cons r rs)
  then show ?case
    using parse_rel_line [of r t _ pre "done"] assms(1,2)
    by (simp add: Cons.IH [of "done @ [r]"])
qed simp

lemma parse_def:
  assumes "isName t" "t \<notin> set (gkeys pre)" "list_all isName rs" "distinct rs"
  shows "fold parseLine (renderDef (t, rs)) \<lparr>psDefs = pre, psCurrent = [], psInCaveat = False, psDepth = 0\<rparr> =
         \<lparr>psDefs = pre @ [(t, rs)], psCurrent = [], psInCaveat = False, psDepth = 0\<rparr>"
  using parse_rel_lines [OF assms(1-3), of "[]"] assms
  by (simp add: renderDef_def parse_def_line parse_close_line map_of_eq_None_iff)

lemma parse_defs:
  assumes "renderable (pre @ m)"
  shows "fold parseLine (concat (map renderDef m)) \<lparr>psDefs = pre, psCurrent = [], psInCaveat = False, psDepth = 0\<rparr> =
         \<lparr>psDefs = pre @ m, psCurrent = [], psInCaveat = False, psDepth = 0\<rparr>"
  using assms
proof (induction m arbitrary: pre)
  case (Cons d m)
  obtain t rs where d: "d = (t, rs)" by (cases d)
  with Cons.prems have "isName t" "t \<notin> set (gkeys pre)" "list_all isName rs" "distinct rs"
    by (auto simp: renderable_def)
  moreover from Cons have "fold parseLine (concat (map renderDef m))
      \<lparr>psDefs = pre @ [d], psCurrent = [], psInCaveat = False, psDepth = 0\<rparr> =
      \<lparr>psDefs = pre @ d # m, psCurrent = [], psInCaveat = False, psDepth = 0\<rparr>"
    by simp
  ultimately show ?case by (simp add: d parse_def)
qed simp

lemma renderDef_no_newline:
  "isName (fst d) \<Longrightarrow> list_all isName (snd d) \<Longrightarrow> l \<in> set (renderDef d) \<Longrightarrow> CHR 0x0A \<notin> set l"
  using isName_notin(2) by (auto simp: renderDef_def defLine_def relLine_def list_all_iff)

text \<open>
  The reader recovers a schema written in the platform's layout: for every non-empty set of
  definitions with distinct names made of word characters, reading the rendered text yields
  exactly the definitions and the relations declared on each.
\<close>

theorem ParseSchema_render:
  assumes "renderable m" and "m \<noteq> []"
  shows "ParseSchema (renderSchema m) = Inr m"
proof -
  have "\<forall>l \<in> set (concat (map renderDef m)). CHR 0x0A \<notin> set l"
    using assms(1) renderDef_no_newline by (fastforce simp: renderable_def)
  then have "splitLines (renderSchema m) = concat (map renderDef m) @ [[]]"
    by (simp add: renderSchema_def splitLines_join)
  moreover have "parseLine [] ps = ps" for ps by (simp add: parseLine_def trim_space_def)
  ultimately show ?thesis
    using parse_defs [of "[]" m] assms by (simp add: ParseSchema_def Let_def)
qed

theorem ParseSchema_render_witness:
  "ParseSchema (renderSchema [(''user'', []), (''organization'', [''member'', ''admin''])]) =
     Inr [(''user'', []), (''organization'', [''member'', ''admin''])]"
proof -
  have "renderable [(''user'', []), (''organization'', [''member'', ''admin''])]"
    by code_simp
  from ParseSchema_render [OF this] show ?thesis by simp
qed

end
