(* ===== verification/GoTime.thy ===== *)
theory GoTime
  imports Prelude
begin

text \<open>
  \<open>time.ParseDuration\<close> of the Go standard library, which reads a template's \<open>consentTTL\<close>. A
  duration is a signed 64-bit number of nanoseconds; each unit value and the running sum are
  checked against \<open>2 ^ 63\<close> as the library does. A fraction is converted in exact
  arithmetic (the library evaluates it in \<open>float64\<close>, which agrees whenever the fraction's
  denominator divides the unit).
\<close>

definition unitMap :: "(string \<times> int) list" where
  "unitMap = [(''ns'', 1), (''us'', 1000), ([CHR 0xC2, CHR 0xB5, CHR ''s''], 1000),
     ([CHR 0xCE, CHR 0xBC, CHR ''s''], 1000), (''ms'', 1000000), (''s'', 1000000000),
     (''m'', 60000000000), (''h'', 3600000000000)]"

definition digitVal :: "char \<Rightarrow> int" where
  "digitVal c = of_char c - 48"

definition durMax :: int where "durMax = 9223372036854775808"

text \<open>\<open>leadingInt\<close>: \<^term>\<open>None\<close> on overflow past \<open>2 ^ 63\<close>.\<close>

fun leadingInt :: "int \<Rightarrow> string \<Rightarrow> (int \<times> string) option" where
  "leadingInt x [] = Some (x, [])"
| "leadingInt x (c # cs) =
     (if \<not> is_digit c then Some (x, c # cs)
      else if x > durMax div 10 then None
      else if x * 10 + digitVal c > durMax then None
      else leadingInt (x * 10 + digitVal c) cs)"

text \<open>\<open>leadingFraction\<close>: digits past the overflow point are consumed and ignored.\<close>

fun leadingFraction :: "int \<Rightarrow> int \<Rightarrow> bool \<Rightarrow> string \<Rightarrow> int \<times> int \<times> string" where
  "leadingFraction x scale ovf [] = (x, scale, [])"
| "leadingFraction x scale ovf (c # cs) =
     (if \<not> is_digit c then (x, scale, c # cs)
      else if ovf then leadingFraction x scale ovf cs
      else if x > (durMax - 1) div 10 then leadingFraction x scale True cs
      else if x * 10 + digitVal c > durMax then leadingFraction x scale True cs
      else leadingFraction (x * 10 + digitVal c) (scale * 10) ovf cs)"

text \<open>The optional fraction: its digits, its scale, whether a digit was read, and the rest.\<close>

definition durFraction :: "string \<Rightarrow> int \<times> int \<times> bool \<times> string" where
  "durFraction s =
     (if s \<noteq> [] \<and> hd s = CHR ''.''
      then case leadingFraction 0 1 False (tl s) of
          (f, scale, r) \<Rightarrow> (f, scale, length r \<noteq> length (tl s), r)
      else (0, 1, False, s))"

definition unitChar :: "char \<Rightarrow> bool" where
  "unitChar c = (\<not> (c = CHR ''.'' \<or> is_digit c))"

definition unitValue :: "int \<Rightarrow> int \<Rightarrow> int \<Rightarrow> int \<Rightarrow> int option" where
  "unitValue v f scale unit =
     (if v > durMax div unit then None
      else let w = v * unit + (if f > 0 then f * unit div scale else 0)
           in if w > durMax then None else Some w)"

text \<open>One \<open>value unit\<close> segment: its nanoseconds and the rest of the text.\<close>

definition durSegment :: "string \<Rightarrow> (int \<times> string) option" where
  "durSegment s =
     (if s = [] \<or> \<not> (hd s = CHR ''.'' \<or> is_digit (hd s)) then None
      else case leadingInt 0 s of
        None \<Rightarrow> None
      | Some (v, s1) \<Rightarrow>
          (case durFraction s1 of
             (f, scale, post, s2) \<Rightarrow>
               if length s1 = length s \<and> \<not> post then None
               else if takeWhile unitChar s2 = [] then None
               else case map_of unitMap (takeWhile unitChar s2) of
                   None \<Rightarrow> None
                 | Some unit \<Rightarrow>
                     (case unitValue v f scale unit of
                        None \<Rightarrow> None
                      | Some w \<Rightarrow> Some (w, dropWhile unitChar s2))))"

text \<open>
  The loop over the segments. A segment that parses is not empty
  (\<open>durSegment_shorter\<close>), so the length of the text is enough fuel.
\<close>

fun durSegments :: "nat \<Rightarrow> int \<Rightarrow> string \<Rightarrow> int option" where
  "durSegments fuel d [] = Some d"
| "durSegments 0 d (c # cs) = None"
| "durSegments (Suc fuel) d (c # cs) =
     (case durSegment (c # cs) of
        None \<Rightarrow> None
      | Some (w, rest) \<Rightarrow> if d + w > durMax then None else durSegments fuel (d + w) rest)"

definition ParseDuration :: "string \<Rightarrow> int option" where
  "ParseDuration orig =
     (let neg = (orig \<noteq> [] \<and> hd orig = CHR ''-'');
          s = (if orig \<noteq> [] \<and> (hd orig = CHR ''-'' \<or> hd orig = CHR ''+'') then tl orig else orig)
      in if s = ''0'' then Some 0
         else if s = [] then None
         else case durSegments (length s) 0 s of
             None \<Rightarrow> None
           | Some d \<Rightarrow>
               if neg then Some (- d)
               else if d > durMax - 1 then None else Some d)"

lemma ParseDuration_720h: "ParseDuration ''720h'' = Some 2592000000000000"
  by code_simp

text \<open>The fuel is enough: a segment that parses leaves a strictly shorter text.\<close>

lemma leadingInt_length: "leadingInt x s = Some (v, r) \<Longrightarrow> length r \<le> length s"
  by (induction x s rule: leadingInt.induct) (auto split: if_splits)

lemma leadingFraction_length: "leadingFraction x sc ov s = (f, sc', r) \<Longrightarrow> length r \<le> length s"
  by (induction x sc ov s rule: leadingFraction.induct) (auto split: if_splits)

lemma durFraction_length: "durFraction s = (f, sc, post, r) \<Longrightarrow> length r \<le> length s"
  by (auto simp: durFraction_def split: if_splits prod.splits dest!: leadingFraction_length)

lemma length_dropWhile_less: "takeWhile q s \<noteq> [] \<Longrightarrow> length (dropWhile q s) < length s"
  by (cases s) (auto simp: le_imp_less_Suc length_dropWhile_le split: if_splits)

lemma durSegment_shorter: "durSegment s = Some (w, r) \<Longrightarrow> length r < length s"
  by (fastforce simp: durSegment_def split: if_splits option.splits prod.splits
      dest: leadingInt_length durFraction_length length_dropWhile_less)

lemma durSegments_fuel:
  "length s \<le> m \<Longrightarrow> length s \<le> n \<Longrightarrow> durSegments m d s = durSegments n d s"
proof (induction m d s arbitrary: n rule: durSegments.induct)
  case (3 m d c cs)
  then obtain n' where n: "n = Suc n'" by (cases n) auto
  show ?case
  proof (cases "durSegment (c # cs)")
    case (Some p)
    obtain w r where p: "p = (w, r)" by (cases p)
    have "length r < length (c # cs)" using durSegment_shorter Some p by blast
    then show ?thesis using 3 Some p n by auto
  qed (simp add: n)
qed auto

section \<open>\<open>time.RFC3339Nano\<close>\<close>

text \<open>
  \<open>Time.Format(time.RFC3339Nano)\<close> of an instant in UTC, from its nanoseconds since 1970: the civil
  date by the usual era arithmetic, the fraction without trailing zeros.
\<close>

definition civilDate :: "int \<Rightarrow> int \<times> int \<times> int" where
  "civilDate days =
     (let z = days + 719468; era = z div 146097; doe = z mod 146097;
          yoe = (doe - doe div 1460 + doe div 36524 - doe div 146096) div 365;
          doy = doe - (365 * yoe + yoe div 4 - yoe div 100);
          mp = (5 * doy + 2) div 153; d = doy - (153 * mp + 2) div 5 + 1;
          m = (if mp < 10 then mp + 3 else mp - 9)
      in (yoe + era * 400 + (if m \<le> 2 then 1 else 0), m, d))"

definition padZero :: "nat \<Rightarrow> int \<Rightarrow> string" where
  "padZero n i = replicate (n - length (show_int i)) (CHR ''0'') @ show_int i"

definition fracDigits :: "int \<Rightarrow> string" where
  "fracDigits nanos =
     (if nanos = 0 then [] else ''.'' @ rev (dropWhile (\<lambda>c. c = CHR ''0'') (rev (padZero 9 nanos))))"

definition formatRFC3339Nano :: "time \<Rightarrow> string" where
  "formatRFC3339Nano t =
     (let secs = t div 1000000000; (y, m, d) = civilDate (secs div 86400); sod = secs mod 86400
      in padZero 4 y @ ''-'' @ padZero 2 m @ ''-'' @ padZero 2 d @ ''T'' @ padZero 2 (sod div 3600) @ '':'' @
         padZero 2 (sod mod 3600 div 60) @ '':'' @ padZero 2 (sod mod 60) @ fracDigits (t mod 1000000000) @ ''Z'')"

end
