(* ===== verification/Store.thy ===== *)
theory Store
  imports Consent Schema GoTime
begin

text \<open>
  The persistence seam of the registry. \<open>Store\<close> is the Go interface of
  \<open>internal/registry/store.go\<close> as a record of operations over an abstract state: a read is a
  function of the state that may fail, a write returns its result (or error) with the state it
  leaves behind. \<open>store\<close> is the in-memory implementation of \<open>cmd/registry/main.go\<close>, and
  \<open>memStore\<close> the adapter of \<open>cmd/registry/store_adapter.go\<close> that presents it as a \<open>Store\<close>.
  \<open>time.Now()\<close> reads the next value of a clock that is part of the state, so nothing is assumed
  about time beyond what a theorem says.
\<close>

section \<open>The interface\<close>

record 's Store =
  PutTemplate :: "AgentTemplate \<Rightarrow> 's \<Rightarrow> go_error option \<times> 's"
  GetTemplate :: "string \<Rightarrow> 's \<Rightarrow> AgentTemplate option result"
  ListTemplateTypes :: "'s \<Rightarrow> string list result"
  ListTemplates :: "bool \<Rightarrow> 's \<Rightarrow> AgentTemplate list result"
  UpdateTemplateStatus :: "string \<Rightarrow> string \<Rightarrow> 's \<Rightarrow> AgentTemplate option result \<times> 's"
  DeleteTemplate :: "string \<Rightarrow> 's \<Rightarrow> bool result \<times> 's"
  ValidateTpl :: "AgentTemplate \<Rightarrow> 's \<Rightarrow> go_error option"
  SchemaOf :: "'s \<Rightarrow> string \<times> string \<times> string"
  RegisterAgent :: "AgentRecord \<Rightarrow> 's \<Rightarrow> go_error option \<times> 's"
  GetAgent :: "string \<Rightarrow> 's \<Rightarrow> AgentRecord result"
  ListAgents :: "'s \<Rightarrow> AgentRecord list result"
  DismissAgent :: "string \<Rightarrow> 's \<Rightarrow> bool result \<times> 's"
  UpdateAgentStatus :: "string \<Rightarrow> string \<Rightarrow> 's \<Rightarrow> bool result \<times> 's"
  ListChildren :: "string \<Rightarrow> 's \<Rightarrow> AgentRecord list result"
  PutOrg :: "Organization \<Rightarrow> 's \<Rightarrow> go_error option \<times> 's"
  GetOrg :: "string \<Rightarrow> 's \<Rightarrow> Organization option result"
  ListOrgs :: "'s \<Rightarrow> Organization list result"
  DeleteOrg :: "string \<Rightarrow> 's \<Rightarrow> bool result \<times> 's"
  AppendEvent :: "string \<Rightarrow> Event \<Rightarrow> 's \<Rightarrow> Event result \<times> 's"
  GetEvents :: "string \<Rightarrow> 's \<Rightarrow> Event list result"
  UpsertConsent :: "ConsentRecord \<Rightarrow> 's \<Rightarrow> ConsentRecord result \<times> 's"
  FindConsent :: "string \<Rightarrow> string \<Rightarrow> string \<Rightarrow> 's \<Rightarrow> ConsentRecord option result"
  ListConsents :: "string \<Rightarrow> 's \<Rightarrow> ConsentRecord list result"
  RevokeConsent :: "string \<Rightarrow> string \<Rightarrow> 's \<Rightarrow> bool result \<times> 's"
  ConsentExpiry :: "string \<Rightarrow> string \<Rightarrow> time \<Rightarrow> 's \<Rightarrow> time option result"
  CreateConsentRequest :: "ConsentRequest \<Rightarrow> 's \<Rightarrow> (ConsentRequest \<times> bool) result \<times> 's"
  CreateApprovedConsentRequest :: "ConsentRequest \<Rightarrow> 's \<Rightarrow> ConsentRequest result \<times> 's"
  GetConsentRequest :: "string \<Rightarrow> 's \<Rightarrow> ConsentRequest option result"
  ListConsentRequests :: "string \<Rightarrow> string \<Rightarrow> 's \<Rightarrow> ConsentRequest list result"
  ResolveConsentRequest ::
    "string \<Rightarrow> string \<Rightarrow> bool \<Rightarrow> string slice \<Rightarrow> 's \<Rightarrow> ConsentRequest option result \<times> 's"
  ApprovePendingConsentRequest :: "string \<Rightarrow> 's \<Rightarrow> ConsentRequest option result \<times> 's"

section \<open>The in-memory state\<close>

record store =
  stTemplates :: "(string, AgentTemplate) gomap"
  stAgents :: "(string, AgentRecord) gomap"
  stEvents :: "(string, Event list) gomap"
  stConsents :: "(string, ConsentRecord) gomap"
  stOrgs :: "(string, Organization) gomap"
  stConsentRequests :: "(string, ConsentRequest) gomap"
  stOpenRequests :: "(string, string) gomap"
  stSchema :: SchemaState
  stClock :: "nat \<Rightarrow> time"
  stRand :: "nat \<Rightarrow> string"
  stTicks :: nat

text \<open>\<open>newStore\<close>, over the embedded schema text and the clock and random source of the process.\<close>

definition newStore :: "string \<Rightarrow> (nat \<Rightarrow> time) \<Rightarrow> (nat \<Rightarrow> string) \<Rightarrow> store" where
  "newStore defaultSchema clock rand =
     \<lparr>stTemplates = [], stAgents = [], stEvents = [], stConsents = [], stOrgs = [],
      stConsentRequests = [], stOpenRequests = [],
      stSchema = SetSchema defaultSchema ''v2'' ''default''
        \<lparr>ssModel = None, ssText = [], ssVersion = [], ssSource = []\<rparr>,
      stClock = clock, stRand = rand, stTicks = 0\<rparr>"

definition timeNow :: "store \<Rightarrow> time \<times> store" where
  "timeNow s = (stClock s (stTicks s), s\<lparr>stTicks := Suc (stTicks s)\<rparr>)"

section \<open>Templates\<close>

definition putTemplate :: "AgentTemplate \<Rightarrow> store \<Rightarrow> store" where
  "putTemplate t s = s\<lparr>stTemplates := gput (tplAgentType t) t (stTemplates s)\<rparr>"

definition getTemplate :: "string \<Rightarrow> store \<Rightarrow> AgentTemplate option" where
  "getTemplate agentType s = gget (stTemplates s) agentType"

definition updateTemplateStatus :: "string \<Rightarrow> string \<Rightarrow> store \<Rightarrow> AgentTemplate option \<times> store" where
  "updateTemplateStatus agentType status s =
     (case gget (stTemplates s) agentType of
        None \<Rightarrow> (None, s)
      | Some t \<Rightarrow> let t' = t\<lparr>tplStatus := status\<rparr>
                  in (Some t', s\<lparr>stTemplates := gput agentType t' (stTemplates s)\<rparr>))"

definition deleteTemplate :: "string \<Rightarrow> store \<Rightarrow> bool \<times> store" where
  "deleteTemplate agentType s =
     (if gget (stTemplates s) agentType = None then (False, s)
      else (True, s\<lparr>stTemplates := gdel agentType (stTemplates s)\<rparr>))"

definition listTemplateTypes :: "store \<Rightarrow> string list" where
  "listTemplateTypes s =
     map fst (filter (\<lambda>(k, t). tplStatus t \<noteq> TemplateStatusDisabled) (stTemplates s))"

definition listTemplates :: "bool \<Rightarrow> store \<Rightarrow> AgentTemplate list" where
  "listTemplates includeDisabled s =
     filter (\<lambda>t. \<not> (\<not> includeDisabled \<and> tplStatus t = TemplateStatusDisabled)) (gvals (stTemplates s))"

section \<open>Agents and events\<close>

definition registerAgent :: "AgentRecord \<Rightarrow> store \<Rightarrow> store" where
  "registerAgent r s = s\<lparr>stAgents := gput (agAgentID r) r (stAgents s)\<rparr>"

definition getAgent :: "string \<Rightarrow> store \<Rightarrow> AgentRecord" where
  "getAgent oid s = (case gget (stAgents s) oid of None \<Rightarrow> zeroAgent | Some r \<Rightarrow> r)"

definition listAgents :: "store \<Rightarrow> AgentRecord list" where
  "listAgents s = filter (\<lambda>r. \<not> agDismissed r) (gvals (stAgents s))"

definition dismissAgent :: "string \<Rightarrow> store \<Rightarrow> bool \<times> store" where
  "dismissAgent oid s =
     (case gget (stAgents s) oid of
        None \<Rightarrow> (False, s)
      | Some r \<Rightarrow> (True, s\<lparr>stAgents := gput oid (r\<lparr>agDismissed := True\<rparr>) (stAgents s)\<rparr>))"

definition updateAgent :: "string \<Rightarrow> string \<Rightarrow> store \<Rightarrow> bool \<times> store" where
  "updateAgent oid status s =
     (case gget (stAgents s) oid of
        None \<Rightarrow> (False, s)
      | Some r \<Rightarrow> (True, s\<lparr>stAgents := gput oid (r\<lparr>agStatus := status\<rparr>) (stAgents s)\<rparr>))"

definition listChildren :: "string \<Rightarrow> store \<Rightarrow> AgentRecord list" where
  "listChildren parentID s = filter (\<lambda>r. agParentID r = parentID) (gvals (stAgents s))"

definition eventID :: "int \<Rightarrow> string \<Rightarrow> string" where
  "eventID nano suffix = pad20 (show_int nano) @ ''-'' @ suffix"

definition getEvents :: "string \<Rightarrow> store \<Rightarrow> Event list" where
  "getEvents agentID s = (case gget (stEvents s) agentID of None \<Rightarrow> [] | Some es \<Rightarrow> es)"

definition appendEvent :: "string \<Rightarrow> Event \<Rightarrow> store \<Rightarrow> Event \<times> store" where
  "appendEvent agentID e s =
     (let (now, s') = timeNow s;
          e' = e\<lparr>evID := eventID now (stRand s (stTicks s)), evTimestamp := now\<rparr>
      in (e', s'\<lparr>stEvents := gput agentID (getEvents agentID s' @ [e']) (stEvents s')\<rparr>))"

section \<open>Organizations\<close>

definition putOrg :: "Organization \<Rightarrow> store \<Rightarrow> store" where
  "putOrg org s = s\<lparr>stOrgs := gput (orgOrgID org) org (stOrgs s)\<rparr>"

definition getOrg :: "string \<Rightarrow> store \<Rightarrow> Organization option" where
  "getOrg oid s = gget (stOrgs s) oid"

definition listOrgs :: "store \<Rightarrow> Organization list" where
  "listOrgs s = gvals (stOrgs s)"

definition deleteOrg :: "string \<Rightarrow> store \<Rightarrow> bool \<times> store" where
  "deleteOrg oid s =
     (if gget (stOrgs s) oid = None then (False, s) else (True, s\<lparr>stOrgs := gdel oid (stOrgs s)\<rparr>))"

section \<open>Consents\<close>

definition recKey :: "ConsentRecord \<Rightarrow> string" where
  "recKey rec = ConsentEdgeKey (conUserID rec) (conParentType rec) (conChildType rec)"

definition reqEdge :: "ConsentRequest \<Rightarrow> string" where
  "reqEdge cr = ConsentEdgeKey (crUserID cr) (crParentType cr) (crChildType cr)"

definition reqOpenKey :: "ConsentRequest \<Rightarrow> string" where
  "reqOpenKey cr = OpenRequestKey (crUserID cr) (crParentType cr) (crChildType cr) (crAgentID cr)"

definition upsertConsentLocked :: "ConsentRecord \<Rightarrow> store \<Rightarrow> ConsentRecord \<times> store" where
  "upsertConsentLocked rec s =
     (case gget (stConsents s) (recKey rec) of
        Some existing \<Rightarrow>
          let rec' = rec\<lparr>conID := conID existing\<rparr>
          in (rec', s\<lparr>stConsents := gput (recKey rec) rec' (stConsents s)\<rparr>)
      | None \<Rightarrow>
          let (now, s') = timeNow s; rec' = rec\<lparr>conID := ''consent-'' @ show_int now\<rparr>
          in (rec', s'\<lparr>stConsents := gput (recKey rec) rec' (stConsents s')\<rparr>))"

definition upsertConsent :: "ConsentRecord \<Rightarrow> store \<Rightarrow> ConsentRecord \<times> store" where
  "upsertConsent rec s = upsertConsentLocked rec s"

definition findConsent :: "string \<Rightarrow> string \<Rightarrow> string \<Rightarrow> store \<Rightarrow> ConsentRecord option" where
  "findConsent userID parentType childType s =
     gget (stConsents s) (ConsentEdgeKey userID parentType childType)"

definition listConsents :: "string \<Rightarrow> store \<Rightarrow> ConsentRecord list" where
  "listConsents userID s = filter (\<lambda>rec. userID = [] \<or> conUserID rec = userID) (gvals (stConsents s))"

definition revokeConsent :: "string \<Rightarrow> string \<Rightarrow> store \<Rightarrow> bool \<times> store" where
  "revokeConsent oid userID s =
     (case find (\<lambda>(key, rec). conID rec = oid \<and> (userID = [] \<or> conUserID rec = userID)) (stConsents s) of
        None \<Rightarrow> (False, s)
      | Some (key, rec) \<Rightarrow>
          (True, s\<lparr>stConsents := gput key (rec\<lparr>conRevoked := True\<rparr>) (stConsents s)\<rparr>))"

definition consentExpiry :: "string \<Rightarrow> string \<Rightarrow> time \<Rightarrow> store \<Rightarrow> time option" where
  "consentExpiry parentType childType from s =
     (case getTemplate parentType s of
        None \<Rightarrow> None
      | Some tpl \<Rightarrow>
          (case gget (delChildPolicies (tplDelegation tpl)) childType of
             None \<Rightarrow> None
           | Some cp \<Rightarrow>
               if cspConsentTTL cp = [] then None
               else case ParseDuration (cspConsentTTL cp) of
                   None \<Rightarrow> None
                 | Some d \<Rightarrow> Some (from + d)))"

section \<open>Consent requests\<close>

definition nonNil :: "'a slice \<Rightarrow> 'a slice" where
  "nonNil xs = (case xs of None \<Rightarrow> Some [] | Some ys \<Rightarrow> Some ys)"

definition createConsentRequest :: "ConsentRequest \<Rightarrow> store \<Rightarrow> (ConsentRequest \<times> bool) \<times> store" where
  "createConsentRequest req s =
     (let key = reqOpenKey req;
          open = (case gget (stOpenRequests s) key of
                    None \<Rightarrow> None
                  | Some oid \<Rightarrow>
                      (case gget (stConsentRequests s) oid of
                         None \<Rightarrow> None
                       | Some existing \<Rightarrow> if crStatus existing = ConsentPending then Some existing else None))
      in case open of
           Some existing \<Rightarrow> ((existing, False), s)
         | None \<Rightarrow>
             let (nano, s1) = timeNow s; (created, s2) = timeNow s1;
                 req' = req\<lparr>crScopes := nonNil (crScopes req), crID := ''creq-'' @ show_int nano,
                           crStatus := ConsentPending, crCreatedAt := created\<rparr>
             in ((req', True),
                 s2\<lparr>stConsentRequests := gput (crID req') req' (stConsentRequests s2),
                    stOpenRequests := gput key (crID req') (stOpenRequests s2)\<rparr>))"

definition createApprovedConsentRequest :: "ConsentRequest \<Rightarrow> store \<Rightarrow> ConsentRequest \<times> store" where
  "createApprovedConsentRequest req s =
     (let (now, s1) = timeNow s;
          req' = req\<lparr>crScopes := nonNil (crScopes req), crID := ''creq-'' @ show_int now,
                    crStatus := ConsentApproved, crCreatedAt := now, crResolvedAt := Some now\<rparr>
      in (req', s1\<lparr>stConsentRequests := gput (crID req') req' (stConsentRequests s1)\<rparr>))"

definition getConsentRequest :: "string \<Rightarrow> store \<Rightarrow> ConsentRequest option" where
  "getConsentRequest oid s = gget (stConsentRequests s) oid"

text \<open>Store a request under its id with a final status and drop its open-request marker.\<close>

definition settleRequest ::
  "string \<Rightarrow> ConsentRequest \<Rightarrow> ConsentRequestStatus \<Rightarrow> time \<Rightarrow> store \<Rightarrow> store" where
  "settleRequest oid cr st now s =
     s\<lparr>stConsentRequests := gput oid (cr\<lparr>crStatus := st, crResolvedAt := Some now\<rparr>) (stConsentRequests s),
       stOpenRequests := gdel (reqOpenKey cr) (stOpenRequests s)\<rparr>"

definition approvePendingConsentRequest :: "string \<Rightarrow> store \<Rightarrow> ConsentRequest option \<times> store" where
  "approvePendingConsentRequest oid s =
     (case gget (stConsentRequests s) oid of
        None \<Rightarrow> (None, s)
      | Some cr \<Rightarrow>
          if crStatus cr \<noteq> ConsentPending then (Some cr, s)
          else let (now, s1) = timeNow s
               in (Some (cr\<lparr>crStatus := ConsentApproved, crResolvedAt := Some now\<rparr>),
                   settleRequest oid cr ConsentApproved now s1))"

definition listConsentRequests :: "string \<Rightarrow> string \<Rightarrow> store \<Rightarrow> ConsentRequest list" where
  "listConsentRequests userID status s =
     filter (\<lambda>cr. \<not> (userID \<noteq> [] \<and> crUserID cr \<noteq> userID) \<and>
                  \<not> (status \<noteq> [] \<and> statusString (crStatus cr) \<noteq> status)) (gvals (stConsentRequests s))"

text \<open>
  \<open>resolveConsentRequest\<close> in its two critical sections: \<open>resolvePrepare\<close> reads the request and
  derives the scopes and expiry before the write lock is taken, \<open>resolveLocked\<close> does the rest under
  the lock and reads the request again.
\<close>

definition resolvePrepare ::
  "string \<Rightarrow> string \<Rightarrow> bool \<Rightarrow> string slice \<Rightarrow> store \<Rightarrow> (time \<times> string slice \<times> time option) option \<times> store" where
  "resolvePrepare oid userID approve scopes s =
     (case getConsentRequest oid s of
        None \<Rightarrow> (None, s)
      | Some cr \<Rightarrow>
          if userID \<noteq> [] \<and> crUserID cr \<noteq> userID then (None, s)
          else let (now, s1) = timeNow s
               in (Some (now,
                         if approve \<and> scopes = None then crScopes cr else scopes,
                         if approve then consentExpiry (crParentType cr) (crChildType cr) now s1 else None),
                   s1))"

definition sweepOne ::
  "ConsentRecord \<Rightarrow> time \<Rightarrow> string \<Rightarrow> string \<Rightarrow> string \<times> ConsentRequest \<Rightarrow> store \<Rightarrow> store" where
  "sweepOne granted now oid key p s =
     (case p of (rid, other) \<Rightarrow>
        if rid = oid \<or> crStatus other \<noteq> ConsentPending then s
        else if reqEdge other \<noteq> key then s
        else if cdGranted (EvaluateConsent granted (crScopes other) now)
        then settleRequest rid other ConsentApproved now s
        else s)"

definition resolveLocked ::
  "string \<Rightarrow> bool \<Rightarrow> time \<Rightarrow> string slice \<Rightarrow> time option \<Rightarrow> store \<Rightarrow> ConsentRequest option \<times> store" where
  "resolveLocked oid approve now grantScopes expiry s =
     (case gget (stConsentRequests s) oid of
        None \<Rightarrow> (None, s)
      | Some cr \<Rightarrow>
          if crStatus cr \<noteq> ConsentPending then (Some cr, s)
          else if \<not> approve then
            (Some (cr\<lparr>crStatus := ConsentDenied, crResolvedAt := Some now\<rparr>),
             settleRequest oid cr ConsentDenied now s)
          else
            let cr' = cr\<lparr>crStatus := ConsentApproved, crResolvedAt := Some now\<rparr>;
                s1 = settleRequest oid cr ConsentApproved now s;
                (granted, s2) = upsertConsentLocked
                  \<lparr>conID = [], conUserID = crUserID cr, conParentType = crParentType cr,
                   conChildType = crChildType cr, conScopes = grantScopes, conGrantedAt = now,
                   conExpiresAt = expiry, conRevoked = False\<rparr> s1
            in (Some cr', fold (sweepOne granted now oid (reqEdge cr)) (stConsentRequests s2) s2))"

definition resolveConsentRequest ::
  "string \<Rightarrow> string \<Rightarrow> bool \<Rightarrow> string slice \<Rightarrow> store \<Rightarrow> ConsentRequest option \<times> store" where
  "resolveConsentRequest oid userID approve scopes s =
     (case resolvePrepare oid userID approve scopes s of
        (None, s1) \<Rightarrow> (None, s1)
      | (Some (now, grantScopes, expiry), s1) \<Rightarrow> resolveLocked oid approve now grantScopes expiry s1)"

section \<open>The adapter\<close>

text \<open>The in-memory implementation ignores the context and never fails.\<close>

definition okW :: "('s \<Rightarrow> 'a \<times> 's) \<Rightarrow> 's \<Rightarrow> 'a result \<times> 's" where
  "okW f s = (case f s of (a, s') \<Rightarrow> (Inr a, s'))"

definition memStore :: "store Store" where
  "memStore =
     \<lparr>PutTemplate = (\<lambda>t s. (None, putTemplate t s)),
      GetTemplate = (\<lambda>ty s. Inr (getTemplate ty s)),
      ListTemplateTypes = (\<lambda>s. Inr (listTemplateTypes s)),
      ListTemplates = (\<lambda>inc s. Inr (listTemplates inc s)),
      UpdateTemplateStatus = (\<lambda>ty st. okW (updateTemplateStatus ty st)),
      DeleteTemplate = (\<lambda>ty. okW (deleteTemplate ty)),
      ValidateTpl = (\<lambda>t s. ValidateTemplate (stSchema s) t),
      SchemaOf = (\<lambda>s. schemaInfo (stSchema s)),
      RegisterAgent = (\<lambda>r s. (None, registerAgent r s)),
      GetAgent = (\<lambda>oid s. Inr (getAgent oid s)),
      ListAgents = (\<lambda>s. Inr (listAgents s)),
      DismissAgent = (\<lambda>oid. okW (dismissAgent oid)),
      UpdateAgentStatus = (\<lambda>oid st. okW (updateAgent oid st)),
      ListChildren = (\<lambda>p s. Inr (listChildren p s)),
      PutOrg = (\<lambda>o' s. (None, putOrg o' s)),
      GetOrg = (\<lambda>oid s. Inr (getOrg oid s)),
      ListOrgs = (\<lambda>s. Inr (listOrgs s)),
      DeleteOrg = (\<lambda>oid. okW (deleteOrg oid)),
      AppendEvent = (\<lambda>oid e. okW (appendEvent oid e)),
      GetEvents = (\<lambda>oid s. Inr (getEvents oid s)),
      UpsertConsent = (\<lambda>rec. okW (upsertConsent rec)),
      FindConsent = (\<lambda>u p c s. Inr (findConsent u p c s)),
      ListConsents = (\<lambda>u s. Inr (listConsents u s)),
      RevokeConsent = (\<lambda>oid u. okW (revokeConsent oid u)),
      ConsentExpiry = (\<lambda>p c t s. Inr (consentExpiry p c t s)),
      CreateConsentRequest = (\<lambda>r. okW (createConsentRequest r)),
      CreateApprovedConsentRequest = (\<lambda>r. okW (createApprovedConsentRequest r)),
      GetConsentRequest = (\<lambda>oid s. Inr (getConsentRequest oid s)),
      ListConsentRequests = (\<lambda>u st s. Inr (listConsentRequests u st s)),
      ResolveConsentRequest = (\<lambda>oid u ap sc. okW (resolveConsentRequest oid u ap sc)),
      ApprovePendingConsentRequest = (\<lambda>oid. okW (approvePendingConsentRequest oid))\<rparr>"

lemma okW_simp [mem_simps]: "okW f s = (Inr (fst (f s)), snd (f s))"
  by (simp add: okW_def split: prod.splits)

lemma memStore_simps [mem_simps]:
  "PutTemplate memStore t s = (None, putTemplate t s)"
  "GetTemplate memStore ty s = Inr (getTemplate ty s)"
  "ListTemplateTypes memStore s = Inr (listTemplateTypes s)"
  "ListTemplates memStore inc s = Inr (listTemplates inc s)"
  "UpdateTemplateStatus memStore ty st s = okW (updateTemplateStatus ty st) s"
  "DeleteTemplate memStore ty s = okW (deleteTemplate ty) s"
  "ValidateTpl memStore t s = ValidateTemplate (stSchema s) t"
  "SchemaOf memStore s = schemaInfo (stSchema s)"
  "RegisterAgent memStore r s = (None, registerAgent r s)"
  "GetAgent memStore oid s = Inr (getAgent oid s)"
  "ListAgents memStore s = Inr (listAgents s)"
  "DismissAgent memStore oid s = okW (dismissAgent oid) s"
  "UpdateAgentStatus memStore oid st s = okW (updateAgent oid st) s"
  "ListChildren memStore p s = Inr (listChildren p s)"
  "PutOrg memStore org s = (None, putOrg org s)"
  "GetOrg memStore oid s = Inr (getOrg oid s)"
  "ListOrgs memStore s = Inr (listOrgs s)"
  "DeleteOrg memStore oid s = okW (deleteOrg oid) s"
  "AppendEvent memStore oid e s = okW (appendEvent oid e) s"
  "GetEvents memStore oid s = Inr (getEvents oid s)"
  "UpsertConsent memStore rec s = okW (upsertConsent rec) s"
  "FindConsent memStore u p c s = Inr (findConsent u p c s)"
  "ListConsents memStore u s = Inr (listConsents u s)"
  "RevokeConsent memStore oid u s = okW (revokeConsent oid u) s"
  "ConsentExpiry memStore p c from s = Inr (consentExpiry p c from s)"
  "CreateConsentRequest memStore cr s = okW (createConsentRequest cr) s"
  "CreateApprovedConsentRequest memStore cr s = okW (createApprovedConsentRequest cr) s"
  "GetConsentRequest memStore oid s = Inr (getConsentRequest oid s)"
  "ListConsentRequests memStore u st s = Inr (listConsentRequests u st s)"
  "ResolveConsentRequest memStore oid u ap sc s = okW (resolveConsentRequest oid u ap sc) s"
  "ApprovePendingConsentRequest memStore oid s = okW (approvePendingConsentRequest oid) s"
  by (simp_all add: memStore_def)

end
