(* ===== verification/Lineage.thy ===== *)
theory Lineage
  imports Store
begin

text \<open>
  Graph traversal over the agent records (\<open>cmd/registry/main.go\<close>): the descendant subtree a cascade
  works on, the depth of an agent in its lineage and the delegation chain. They are written on
  the two read primitives of the \<open>Store\<close> interface. The loops of the source stop only because of
  their cycle guards, so they are partial functions here, \<^term>\<open>None\<close> being a walk that does not
  end; that they end on every finite store is proved below.
\<close>

section \<open>Definitions\<close>

text \<open>
  The loop of \<open>subtree\<close>. The map \<open>seen\<close> of the source holds exactly the ids appended to \<open>out\<close>, so
  one list serves for both.
\<close>

partial_function (option) subtreeLoop ::
  "(string \<Rightarrow> AgentRecord list result) \<Rightarrow> string list \<Rightarrow> string list \<Rightarrow> string list result option" where
  "subtreeLoop children queue out =
     (case queue of
        [] \<Rightarrow> Some (Inr out)
      | cur # rest \<Rightarrow>
          if cur \<in> set out then subtreeLoop children rest out
          else (case children cur of
                  Inl e \<Rightarrow> Some (Inl e)
                | Inr cs \<Rightarrow> subtreeLoop children (rest @ map agAgentID cs) (out @ [cur])))"

text \<open>\<open>Inr None\<close> is the \<open>nil\<close> answer for an unknown id.\<close>

definition subtree :: "'s Store \<Rightarrow> string \<Rightarrow> 's \<Rightarrow> string list option result option" where
  "subtree S oid s =
     (case GetAgent S oid s of
        Inl e \<Rightarrow> Some (Inl e)
      | Inr root \<Rightarrow>
          if agAgentID root = [] then Some (Inr None)
          else map_option (map_sum (\<lambda>e. e) Some) (subtreeLoop (\<lambda>p. ListChildren S p s) [oid] []))"

partial_function (option) depthLoop ::
  "(string \<Rightarrow> AgentRecord result) \<Rightarrow> string \<Rightarrow> string list \<Rightarrow> nat \<Rightarrow> nat result option" where
  "depthLoop get cur seen d =
     (if cur = [] \<or> cur \<in> set seen then Some (Inr d)
      else (case get cur of
              Inl e \<Rightarrow> Some (Inl e)
            | Inr rec \<Rightarrow>
                if agAgentID rec = [] then Some (Inr d)
                else depthLoop get (agParentID rec) (cur # seen) (Suc d)))"

definition depth :: "'s Store \<Rightarrow> string \<Rightarrow> 's \<Rightarrow> nat result option" where
  "depth S oid s = depthLoop (\<lambda>i. GetAgent S i s) oid [] 0"

record chainNode =
  cnAgentID :: string
  cnAgentType :: string
  cnStatus :: string
  cnParentID :: string

definition chainNodeOf :: "AgentRecord \<Rightarrow> chainNode" where
  "chainNodeOf r = \<lparr>cnAgentID = agAgentID r, cnAgentType = agAgentType r, cnStatus = agStatus r,
     cnParentID = agParentID r\<rparr>"

text \<open>The loop of the chain handler, bounded by its counter; a read error ends the chain.\<close>

fun chainLoop :: "'s Store \<Rightarrow> 's \<Rightarrow> nat \<Rightarrow> AgentRecord \<Rightarrow> string list \<Rightarrow> chainNode list" where
  "chainLoop S s 0 cur seen = []"
| "chainLoop S s (Suc n) cur seen =
     (if agAgentID cur \<in> set seen then []
      else chainNodeOf cur #
        (if agParentID cur = [] then []
         else case GetAgent S (agParentID cur) s of
             Inl e \<Rightarrow> []
           | Inr parent \<Rightarrow>
               if agAgentID parent = [] then [] else chainLoop S s n parent (agAgentID cur # seen)))"

definition handleChain :: "'s Store \<Rightarrow> string \<Rightarrow> 's \<Rightarrow> chainNode list http" where
  "handleChain S oid s =
     (case GetAgent S oid s of
        Inl e \<Rightarrow> HttpError 500 ''internal error''
      | Inr rec \<Rightarrow>
          if agAgentID rec = [] then HttpError 404 ''not found''
          else HttpOK 200 (chainLoop S s 32 rec []))"

section \<open>The breadth-first walk\<close>

definition childIDs :: "(string \<Rightarrow> AgentRecord list result) \<Rightarrow> string \<Rightarrow> string set" where
  "childIDs children p = (case children p of Inl _ \<Rightarrow> {} | Inr cs \<Rightarrow> agAgentID ` set cs)"

definition childRel :: "(string \<Rightarrow> AgentRecord list result) \<Rightarrow> (string \<times> string) set" where
  "childRel children = {(p, c). c \<in> childIDs children p}"

lemma subtreeLoop_Nil [simp]: "subtreeLoop children [] out = Some (Inr out)"
  by (simp add: subtreeLoop.simps)

lemma subtreeLoop_Cons:
  "subtreeLoop children (cur # rest) out =
     (if cur \<in> set out then subtreeLoop children rest out
      else (case children cur of
              Inl e \<Rightarrow> Some (Inl e)
            | Inr cs \<Rightarrow> subtreeLoop children (rest @ map agAgentID cs) (out @ [cur])))"
  by (simp add: subtreeLoop.simps)

lemma subtree_SomeD:
  "subtree S oid s = Some (Inr (Some nodes)) \<Longrightarrow>
     subtreeLoop (\<lambda>p. ListChildren S p s) [oid] [] = Some (Inr nodes)"
  by (auto simp: subtree_def split: sum.splits if_splits)
     (metis map_sum.simps obj_sumE sum.inject(2) sum.distinct(1) option.inject)

text \<open>The walk ends when the ids it can meet are finitely many.\<close>

lemma subtreeLoop_ends:
  assumes "finite V" and "\<And>p cs. children p = Inr cs \<Longrightarrow> agAgentID ` set cs \<subseteq> V" and "set queue \<subseteq> V"
  shows "\<exists>r. subtreeLoop children queue out = Some r"
  using assms(3)
proof (induction "card (V - set out)" arbitrary: queue out rule: less_induct)
  case less
  show ?case
    using less.prems
  proof (induction queue)
    case (Cons cur rest)
    show ?case
    proof (cases "cur \<in> set out \<or> (\<exists>e. children cur = Inl e)")
      case True
      then show ?thesis using Cons by (auto simp: subtreeLoop_Cons)
    next
      case False
      then obtain cs where cs: "children cur = Inr cs" "cur \<notin> set out"
        by (cases "children cur") auto
      have "V - set (out @ [cur]) \<subset> V - set out" using cs(2) Cons.prems by auto
      then have "card (V - set (out @ [cur])) < card (V - set out)"
        using assms(1) by (intro psubset_card_mono) auto
      moreover have "set (rest @ map agAgentID cs) \<subseteq> V"
        using Cons.prems assms(2) [OF cs(1)] by auto
      ultimately obtain r where "subtreeLoop children (rest @ map agAgentID cs) (out @ [cur]) = Some r"
        using less.hyps by blast
      with cs show ?thesis by (simp add: subtreeLoop_Cons)
    qed
  qed simp
qed

text \<open>What a walk without read errors returns, by induction on the walk.\<close>

definition walked ::
  "(string \<Rightarrow> AgentRecord list result) \<Rightarrow> string list \<Rightarrow> string list \<Rightarrow> string list \<Rightarrow> bool" where
  "walked children queue out res \<longleftrightarrow>
     (\<exists>ext. res = out @ ext) \<and> (distinct out \<longrightarrow> distinct res) \<and> set queue \<subseteq> set res \<and>
     (\<forall>x \<in> set res - set out. \<exists>cs. children x = Inr cs \<and> agAgentID ` set cs \<subseteq> set res) \<and>
     set res \<subseteq> set out \<union> (childRel children)\<^sup>* `` set queue"

lemma walked_step:
  assumes "cur \<notin> set out" and cs: "children cur = Inr cs"
    and w: "walked children (rest @ map agAgentID cs) (out @ [cur]) res"
  shows "walked children (cur # rest) out res"
proof -
  have ids: "childIDs children cur = agAgentID ` set cs" by (simp add: childIDs_def cs)
  have step: "(childRel children)\<^sup>* `` set (rest @ map agAgentID cs) \<subseteq> (childRel children)\<^sup>* `` set (cur # rest)"
    using ids by (auto simp: childRel_def intro: converse_rtrancl_into_rtrancl)
  obtain ext where ext: "res = (out @ [cur]) @ ext" using w by (auto simp: walked_def)
  have sub: "set (rest @ map agAgentID cs) \<subseteq> set res" using w by (simp add: walked_def)
  have "distinct out \<longrightarrow> distinct res" using w assms(1) by (simp add: walked_def)
  moreover have "set (cur # rest) \<subseteq> set res" using ext sub by auto
  moreover have "\<exists>cs. children x = Inr cs \<and> agAgentID ` set cs \<subseteq> set res" if "x \<in> set res - set out" for x
  proof (cases "x = cur")
    case True
    then show ?thesis using sub cs by simp
  next
    case ne: False
    then have "x \<in> set res - set (out @ [cur])" using that by simp
    then show ?thesis using w unfolding walked_def by blast
  qed
  moreover have "set res \<subseteq> set out \<union> (childRel children)\<^sup>* `` set (cur # rest)"
  proof -
    have "set res \<subseteq> set (out @ [cur]) \<union> (childRel children)\<^sup>* `` set (rest @ map agAgentID cs)"
      using w by (simp add: walked_def)
    moreover have "cur \<in> (childRel children)\<^sup>* `` set (cur # rest)" by auto
    ultimately show ?thesis using step by auto
  qed
  moreover have "\<exists>ext. res = out @ ext" using ext by simp
  ultimately show ?thesis unfolding walked_def by blast
qed

lemma subtreeLoop_walked:
  assumes "subtreeLoop children queue out = Some (Inr res)"
  shows "walked children queue out res"
proof -
  have "\<forall>res. r = Inr res \<longrightarrow> walked children queue out res"
    if "subtreeLoop children queue out = Some r" for r
  proof (rule subtreeLoop.raw_induct [where P = "\<lambda>children queue out r. \<forall>res. r = Inr res \<longrightarrow> walked children queue out res", OF _ that],
      intro allI impI)
    fix f children queue out r res
    assume IH: "\<And>children queue out r. f children queue out = Some r \<Longrightarrow>
        \<forall>res. r = Inr res \<longrightarrow> walked children queue out res"
      and eq: "(case queue of [] \<Rightarrow> Some (Inr out)
          | cur # rest \<Rightarrow> if cur \<in> set out then f children rest out
             else (case children cur of Inl e \<Rightarrow> Some (Inl e)
                   | Inr cs \<Rightarrow> f children (rest @ map agAgentID cs) (out @ [cur]))) = Some r"
      and r: "r = Inr res"
    show "walked children queue out res"
    proof (cases queue)
      case Nil
      then show ?thesis using eq r by (auto simp: walked_def)
    next
      case (Cons cur rest)
      show ?thesis
      proof (cases "cur \<in> set out")
        case True
        then have "walked children rest out res" using IH eq r Cons by auto
        then show ?thesis using True Cons by (auto simp: walked_def)
      next
        case False
        then obtain cs where cs: "children cur = Inr cs"
          "f children (rest @ map agAgentID cs) (out @ [cur]) = Some (Inr res)"
          using eq r Cons by (auto split: sum.splits)
        then have "walked children (rest @ map agAgentID cs) (out @ [cur]) res" using IH by blast
        then show ?thesis using walked_step [of cur out children cs rest res] False cs(1) Cons by simp
      qed
    qed
  qed
  then show ?thesis using assms by blast
qed

lemma subtreeLoop_from_root:
  assumes "subtreeLoop children [root] [] = Some (Inr res)"
  shows "distinct res \<and> hd res = root \<and> set res = (childRel children)\<^sup>* `` {root}"
proof -
  have w: "walked children [root] [] res" by (rule subtreeLoop_walked [OF assms])
  obtain cs where "children root = Inr cs" "subtreeLoop children (map agAgentID cs) [root] = Some (Inr res)"
    using assms by (auto simp: subtreeLoop_Cons split: sum.splits)
  then have "\<exists>ext. res = [root] @ ext"
    using subtreeLoop_walked unfolding walked_def by blast
  moreover have "y \<in> set res" if "(root, y) \<in> (childRel children)\<^sup>*" for y
    using that
  proof induction
    case base
    then show ?case using w by (simp add: walked_def)
  next
    case (step x y)
    then obtain cs where "children x = Inr cs" "agAgentID ` set cs \<subseteq> set res"
      using w by (auto simp: walked_def)
    then show ?case using step.hyps(2) by (auto simp: childRel_def childIDs_def)
  qed
  ultimately show ?thesis using w by (auto simp: walked_def)
qed

text \<open>A failed walk failed on a read.\<close>

lemma subtreeLoop_error:
  assumes "subtreeLoop children queue out = Some (Inl e)"
  shows "\<exists>e p. children p = Inl e"
proof -
  have "\<forall>e. r = Inl e \<longrightarrow> (\<exists>e p. children p = Inl e)" if "subtreeLoop children queue out = Some r" for r
    by (rule subtreeLoop.raw_induct [where P = "\<lambda>children queue out r. \<forall>e. r = Inl e \<longrightarrow> (\<exists>e p. children p = Inl e)", OF _ that])
       (force split: list.splits sum.splits if_splits)
  then show ?thesis using assms by blast
qed

section \<open>Interface laws for the agent graph\<close>

text \<open>
  What the traversals rely on: a read that succeeds answers from the records of the state, children
  are found through \<open>ParentID\<close> (a store may leave out those of the empty id, as an index over
  non-empty parents does), and the records are finitely many and stored under their non-empty id.
\<close>

definition recordOrZero :: "AgentRecord option \<Rightarrow> AgentRecord" where
  "recordOrZero r = (case r of None \<Rightarrow> zeroAgent | Some a \<Rightarrow> a)"

definition descendants :: "(string \<Rightarrow> AgentRecord option) \<Rightarrow> string \<Rightarrow> string set" where
  "descendants agents root = {(p, c). \<exists>a. agents c = Some a \<and> agParentID a = p}\<^sup>* `` {root}"

locale agent_store =
  fixes S :: "'s Store"
    and agents :: "'s \<Rightarrow> string \<Rightarrow> AgentRecord option"
    and wf :: "'s \<Rightarrow> bool"
  assumes get_agent: "wf s \<Longrightarrow> GetAgent S oid s = Inr r \<Longrightarrow> r = recordOrZero (agents s oid)"
    and children_sound: "wf s \<Longrightarrow> ListChildren S p s = Inr cs \<Longrightarrow> c \<in> set cs \<Longrightarrow>
        \<exists>a. agents s (agAgentID c) = Some a \<and> agParentID a = p"
    and children_complete: "wf s \<Longrightarrow> ListChildren S p s = Inr cs \<Longrightarrow> p \<noteq> [] \<Longrightarrow>
        agents s i = Some a \<Longrightarrow> agParentID a = p \<Longrightarrow> i \<in> agAgentID ` set cs"
    and stored_id: "wf s \<Longrightarrow> agents s oid = Some a \<Longrightarrow> agAgentID a = oid \<and> oid \<noteq> []"
    and finite_agents: "wf s \<Longrightarrow> finite (dom (agents s))"
begin

lemma subtree_ends:
  assumes "wf s"
  shows "\<exists>r. subtree S oid s = Some r"
proof -
  have "agAgentID ` set cs \<subseteq> insert oid (dom (agents s))" if "ListChildren S p s = Inr cs" for p cs
    using children_sound [OF assms that] by auto
  then have "\<exists>r. subtreeLoop (\<lambda>p. ListChildren S p s) [oid] [] = Some r"
    using finite_agents [OF assms] by (intro subtreeLoop_ends [of "insert oid (dom (agents s))"]) auto
  then show ?thesis by (auto simp: subtree_def split: sum.splits)
qed

text \<open>
  A subtree that is returned is the set of descendants, without repetition and from the root on.
  A read error anywhere in the walk makes the whole answer an error: no partial subtree is returned.
\<close>

lemma subtree_descendants:
  assumes "wf s" and "subtree S oid s = Some (Inr (Some nodes))"
  shows "distinct nodes \<and> hd nodes = oid \<and> set nodes = descendants (agents s) oid"
proof -
  let ?ch = "\<lambda>p. ListChildren S p s"
  let ?R = "{(p, c). \<exists>a. agents s c = Some a \<and> agParentID a = p}"
  have loop: "subtreeLoop ?ch [oid] [] = Some (Inr nodes)" by (rule subtree_SomeD [OF assms(2)])
  have root: "distinct nodes" "hd nodes = oid" "set nodes = (childRel ?ch)\<^sup>* `` {oid}"
    using subtreeLoop_from_root [OF loop] by auto
  have root_id: "oid \<noteq> []"
    using assms(2) get_agent [OF assms(1), of oid] stored_id [OF assms(1), of oid]
    by (auto simp: subtree_def recordOrZero_def split: sum.splits if_splits option.splits)
  have "childRel ?ch \<subseteq> ?R"
    using children_sound [OF assms(1)] by (auto simp: childRel_def childIDs_def split: sum.splits)
  then have "set nodes \<subseteq> ?R\<^sup>* `` {oid}" using root(3) rtrancl_mono by blast
  moreover have "y \<in> set nodes" if "(oid, y) \<in> ?R\<^sup>*" for y
    using that
  proof induction
    case base
    then show ?case using root(3) by simp
  next
    case (step x y)
    then obtain cs where cs: "ListChildren S x s = Inr cs" "agAgentID ` set cs \<subseteq> set nodes"
      using subtreeLoop_walked [OF loop] by (auto simp: walked_def)
    have "x \<noteq> []" using step.hyps(1) root_id stored_id [OF assms(1)] by (cases rule: rtranclE) auto
    then show ?case using step.hyps(2) cs children_complete [OF assms(1) cs(1)] by blast
  qed
  ultimately show ?thesis using root by (auto simp: descendants_def)
qed

lemma agent_known:
  assumes "wf s" and "GetAgent S oid s = Inr r" and "agAgentID r \<noteq> []"
  shows "agents s oid = Some r"
  using get_agent [OF assms(1,2)] assms(3) by (cases "agents s oid") (auto simp: recordOrZero_def)

text \<open>The walk towards the root ends and counts no agent twice.\<close>

lemma depthLoop_bound:
  assumes "wf s" and "set seen \<subseteq> dom (agents s)" and "distinct seen"
  shows "\<exists>r. depthLoop (\<lambda>i. GetAgent S i s) cur seen d = Some r \<and>
           (\<forall>n. r = Inr n \<longrightarrow> n + length seen \<le> d + card (dom (agents s)))"
  using assms(2,3)
proof (induction "card (dom (agents s) - set seen)" arbitrary: cur seen d rule: less_induct)
  case less
  note fin = finite_agents [OF assms(1)]
  have len: "length seen \<le> card (dom (agents s))"
    using less.prems fin by (metis card_mono distinct_card)
  show ?case
  proof (cases "cur = [] \<or> cur \<in> set seen \<or> (\<forall>r. GetAgent S cur s = Inr r \<longrightarrow> agAgentID r = [])")
    case True
    then show ?thesis using len by (subst depthLoop.simps) (auto split: sum.splits)
  next
    case False
    then obtain r where r: "GetAgent S cur s = Inr r" "agAgentID r \<noteq> []" by blast
    have cur: "agents s cur = Some r" by (rule agent_known [OF assms(1) r])
    have "dom (agents s) - set (cur # seen) \<subset> dom (agents s) - set seen" using False cur by auto
    then have "card (dom (agents s) - set (cur # seen)) < card (dom (agents s) - set seen)"
      using fin by (intro psubset_card_mono) auto
    from less.hyps [OF this, of "agParentID r" "Suc d"] less.prems cur False obtain q where
      "depthLoop (\<lambda>i. GetAgent S i s) (agParentID r) (cur # seen) (Suc d) = Some q"
      "\<forall>n. q = Inr n \<longrightarrow> n + length (cur # seen) \<le> Suc d + card (dom (agents s))"
      by auto
    then show ?thesis using False r by (subst depthLoop.simps) auto
  qed
qed

lemma depth_bound:
  assumes "wf s"
  shows "\<exists>r. depth S oid s = Some r \<and> (\<forall>n. r = Inr n \<longrightarrow> n \<le> card (dom (agents s)))"
  using depthLoop_bound [OF assms, of "[]" oid 0] by (simp add: depth_def)

text \<open>The chain handler returns at most 32 nodes, each a different agent, from the agent upwards.\<close>

lemma chainLoop_ids:
  assumes "wf s"
  shows "agents s (agAgentID cur) = Some cur \<Longrightarrow>
    length (chainLoop S s n cur seen) \<le> n \<and>
    distinct (map cnAgentID (chainLoop S s n cur seen)) \<and>
    set (map cnAgentID (chainLoop S s n cur seen)) \<inter> set seen = {} \<and>
    set (map cnAgentID (chainLoop S s n cur seen)) \<subseteq> dom (agents s)"
proof (induction n arbitrary: cur seen)
  case (Suc n)
  show ?case
  proof (cases "GetAgent S (agParentID cur) s")
    case (Inr parent)
    have "agAgentID parent \<noteq> [] \<Longrightarrow> agents s (agAgentID parent) = Some parent"
      using agent_known [OF assms Inr] stored_id [OF assms] by metis
    then show ?thesis
      using Suc.prems Suc.IH [of parent "agAgentID cur # seen"] Inr
      by (auto simp: chainNodeOf_def)
  qed (use Suc.prems in \<open>auto simp: chainNodeOf_def\<close>)
qed simp

end

section \<open>The in-memory store provides the agent graph\<close>

definition agentsWf :: "store \<Rightarrow> bool" where
  "agentsWf s = (gdistinct (stAgents s) \<and> (\<forall>(k, r) \<in> set (stAgents s). agAgentID r = k \<and> k \<noteq> []))"

lemma agentsWf_id: "agentsWf s \<Longrightarrow> gget (stAgents s) oid = Some a \<Longrightarrow> agAgentID a = oid"
  by (auto simp: agentsWf_def dest: gget_in_set)

lemma agentsWf_nonempty: "agentsWf s \<Longrightarrow> gget (stAgents s) oid = Some a \<Longrightarrow> oid \<noteq> []"
  by (auto simp: agentsWf_def dest: gget_in_set)

lemma agentsWf_vals:
  assumes wf: "agentsWf s"
  shows "r \<in> set (gvals (stAgents s)) \<longleftrightarrow> gget (stAgents s) (agAgentID r) = Some r"
proof
  assume "r \<in> set (gvals (stAgents s))"
  then obtain k where "gget (stAgents s) k = Some r"
    using wf gvals_gget [of "stAgents s" r] unfolding agentsWf_def by blast
  then show "gget (stAgents s) (agAgentID r) = Some r" using agentsWf_id [OF wf] by simp
next
  assume "gget (stAgents s) (agAgentID r) = Some r"
  then show "r \<in> set (gvals (stAgents s))" by (force dest: gget_in_set)
qed

lemma agentsWf_put:
  "agentsWf s \<Longrightarrow> agAgentID r = oid \<Longrightarrow> oid \<noteq> [] \<Longrightarrow> agentsWf (s\<lparr>stAgents := gput oid r (stAgents s)\<rparr>)"
  unfolding agentsWf_def
proof (elim conjE, intro conjI)
  assume d: "gdistinct (stAgents s)" and ids: "\<forall>(k, r) \<in> set (stAgents s). agAgentID r = k \<and> k \<noteq> []"
    and r: "agAgentID r = oid" "oid \<noteq> []"
  show d': "gdistinct (stAgents (s\<lparr>stAgents := gput oid r (stAgents s)\<rparr>))"
    using d by (simp add: distinct_update)
  show "\<forall>(k, v) \<in> set (stAgents (s\<lparr>stAgents := gput oid r (stAgents s)\<rparr>)). agAgentID v = k \<and> k \<noteq> []"
  proof (intro ballI, clarify)
    fix k v assume "(k, v) \<in> set (stAgents (s\<lparr>stAgents := gput oid r (stAgents s)\<rparr>))"
    then have "(if k = oid then Some r else gget (stAgents s) k) = Some v"
      using in_set_gget [OF d'] by (simp add: gget_gput)
    then show "agAgentID v = k \<and> k \<noteq> []" using ids r by (auto split: if_splits dest: gget_in_set)
  qed
qed

interpretation mem: agent_store memStore "\<lambda>s. gget (stAgents s)" agentsWf
proof
  fix s p cs c assume wf: "agentsWf s" and "ListChildren memStore p s = Inr cs" and "c \<in> set cs"
  then show "\<exists>a. gget (stAgents s) (agAgentID c) = Some a \<and> agParentID a = p"
    using agentsWf_vals [OF wf, of c] by (auto simp: mem_simps listChildren_def simp del: set_map)
next
  fix s p cs i a assume wf: "agentsWf s" and "ListChildren memStore p s = Inr cs"
    and a: "gget (stAgents s) i = Some a" "agParentID a = p"
  then have "a \<in> set cs" and "agAgentID a = i"
    using agentsWf_vals [OF wf, of a] agentsWf_id [OF wf a(1)] by (auto simp: mem_simps listChildren_def simp del: set_map)
  then show "i \<in> agAgentID ` set cs" by blast
qed (auto simp: mem_simps getAgent_def recordOrZero_def agentsWf_id agentsWf_nonempty finite_dom_map_of)

text \<open>A store with two agents that are recorded as each other's parent, and a child of the second.\<close>

definition lineAgent :: "string \<Rightarrow> string \<Rightarrow> AgentRecord" where
  "lineAgent oid parent = zeroAgent\<lparr>agAgentID := oid, agAgentType := ''worker'', agStatus := ''active'', agParentID := parent\<rparr>"

lemma lineAgent_simps [simp]:
  "agAgentID (lineAgent oid p) = oid" "agParentID (lineAgent oid p) = p" "agStatus (lineAgent oid p) = ''active''"
  "agAgentType (lineAgent oid p) = ''worker''" "agOrgID (lineAgent oid p) = []" "agUserID (lineAgent oid p) = []"
  "agDismissed (lineAgent oid p) = False"
  by (simp_all add: lineAgent_def zeroAgent_def)

definition lineStore :: store where
  "lineStore = (newStore [] int (\<lambda>_. ''00000000''))
     \<lparr>stAgents := [(''a'', lineAgent ''a'' ''b''), (''b'', lineAgent ''b'' ''a''), (''c'', lineAgent ''c'' ''b'')]\<rparr>"

lemma lineStore_simps [simp]:
  "stAgents lineStore = [(''a'', lineAgent ''a'' ''b''), (''b'', lineAgent ''b'' ''a''), (''c'', lineAgent ''c'' ''b'')]"
  "stTemplates lineStore = []" "stOrgs lineStore = []"
  by (simp_all add: lineStore_def newStore_def)

lemma lineStore_wf: "agentsWf lineStore"
  by (simp add: agentsWf_def)

lemma subtree_not_nil:
  assumes "GetAgent S oid s = Inr r" and "agAgentID r \<noteq> []"
  shows "subtree S oid s \<noteq> Some (Inr None)"
proof
  assume "subtree S oid s = Some (Inr None)"
  then obtain z :: "string list result" where "map_sum (\<lambda>e. e) Some z = Inr None"
    using assms by (auto simp: subtree_def)
  then show False by (cases z) auto
qed

lemma subtree_no_error: "subtree memStore oid s \<noteq> Some (Inl e)"
proof
  assume err: "subtree memStore oid s = Some (Inl e)"
  then obtain e' where "subtreeLoop (\<lambda>p. ListChildren memStore p s) [oid] [] = Some (Inl e')"
    by (auto simp: subtree_def mem_simps split: if_splits) (metis map_sum.simps(2) obj_sumE sum.distinct(1))
  then have "\<exists>e p. ListChildren memStore p s = Inl e" by (rule subtreeLoop_error)
  then show False by (simp add: mem_simps)
qed

text \<open>
  C35: on the in-memory store the subtree walk ends for every agent, also when the recorded lineage
  has cycles, and returns the agent followed by every agent reachable through \<open>ParentID\<close> edges, each
  exactly once.
\<close>

theorem subtree_exact:
  assumes "agentsWf s" and "gget (stAgents s) oid = Some a" and "oid \<noteq> []"
  shows "\<exists>nodes. subtree memStore oid s = Some (Inr (Some nodes)) \<and> distinct nodes \<and> hd nodes = oid \<and>
           set nodes = descendants (gget (stAgents s)) oid"
proof -
  have id: "agAgentID a = oid" by (rule agentsWf_id [OF assms(1,2)])
  obtain r where "subtree memStore oid s = Some r" using mem.subtree_ends [OF assms(1)] by blast
  moreover from this have "\<exists>nodes. r = Inr (Some nodes)"
    using assms(2,3) id subtree_no_error [of oid s] subtree_not_nil [of memStore oid s a]
    by (cases r; cases "projr r") (auto simp: mem_simps getAgent_def)
  ultimately show ?thesis using mem.subtree_descendants [OF assms(1)] by blast
qed

theorem subtree_exact_witness:
  "agentsWf lineStore \<and> (\<exists>nodes. subtree memStore ''a'' lineStore = Some (Inr (Some nodes)) \<and> distinct nodes \<and>
     hd nodes = ''a'' \<and> set nodes = descendants (gget (stAgents lineStore)) ''a'')"
  using subtree_exact [of lineStore "''a''" "lineAgent ''a'' ''b''"] lineStore_wf by simp

text \<open>The walk towards the root from a fresh agent goes through its parent.\<close>

lemma depthLoop_fresh:
  assumes "depthLoop get cur seen d = Some (Inr n)"
    and other: "\<And>i. i \<noteq> c \<Longrightarrow> get' i = get i" and c: "get c = Inr zeroAgent"
    and "set seen' = insert c (set seen)"
  shows "depthLoop get' cur seen' (Suc d) = Some (Inr (Suc n))"
proof -
  let ?P = "\<lambda>g cur seen d (r :: nat result). \<forall>n seen'. r = Inr n \<longrightarrow> g = get \<longrightarrow> set seen' = insert c (set seen) \<longrightarrow>
    depthLoop get' cur seen' (Suc d) = Some (Inr (Suc n))"
  have "?P get cur seen d (Inr n)"
  proof (rule depthLoop.raw_induct [where P = ?P, OF _ assms(1)])
    fix loop g cur seen d and r :: "nat result"
    assume IH: "\<And>g cur seen d r. loop g cur seen d = Some r \<Longrightarrow> ?P g cur seen d r"
      and eq: "(if cur = [] \<or> cur \<in> set seen then Some (Inr d)
        else case g cur of Inl e \<Rightarrow> Some (Inl e)
          | Inr rec \<Rightarrow> if agAgentID rec = [] then Some (Inr d)
              else loop g (agParentID rec) (cur # seen) (Suc d)) = Some r"
    show "?P g cur seen d r"
    proof (intro allI impI)
      fix n seen'
      assume r: "r = Inr n" and g: "g = get" and seen': "set seen' = insert c (set seen)"
      show "depthLoop get' cur seen' (Suc d) = Some (Inr (Suc n))"
      proof (cases "cur = [] \<or> cur \<in> set seen'")
        case True
        then have "n = d" using eq r g c seen' by (auto split: if_splits)
        then show ?thesis using True by (subst depthLoop.simps) simp
      next
        case False
        then obtain rec where rec: "get cur = Inr rec" "get' cur = Inr rec"
          using eq r g seen' other by (cases "get cur") auto
        show ?thesis
        proof (cases "agAgentID rec = []")
          case True
          then show ?thesis using False rec eq r g seen' by (subst depthLoop.simps) auto
        next
          case step: False
          then have "loop get (agParentID rec) (cur # seen) (Suc d) = Some (Inr n)"
            using False rec eq r g seen' by auto
          from IH [OF this] have "depthLoop get' (agParentID rec) (cur # seen') (Suc (Suc d)) = Some (Inr (Suc n))"
            using seen' by (auto simp: insert_commute)
          then show ?thesis using False rec step by (subst depthLoop.simps) auto
        qed
      qed
    qed
  qed
  then show ?thesis using assms(4) by blast
qed

lemma depthLoop_error:
  "depthLoop get cur seen d = Some (Inl e) \<Longrightarrow> \<exists>i e. get i = Inl e"
proof -
  assume *: "depthLoop get cur seen d = Some (Inl e)"
  have "\<forall>e. r = Inl e \<longrightarrow> (\<exists>i e. get i = Inl e)" if "depthLoop get cur seen d = Some r" for r
    by (rule depthLoop.raw_induct [where P = "\<lambda>get cur seen d r. \<forall>e. r = Inl e \<longrightarrow> (\<exists>i e. get i = Inl e)", OF _ that])
       (force split: sum.splits if_splits)
  then show ?thesis using * by blast
qed

lemma depthLoop_grows: "depthLoop get cur seen d = Some (Inr n) \<Longrightarrow> d \<le> n"
proof -
  assume *: "depthLoop get cur seen d = Some (Inr n)"
  have "\<forall>n. r = Inr n \<longrightarrow> d \<le> n" if "depthLoop get cur seen d = Some r" for r
    by (rule depthLoop.raw_induct [where P = "\<lambda>get cur seen d r. \<forall>n. r = Inr n \<longrightarrow> d \<le> n", OF _ that])
       (force split: sum.splits if_splits)
  then show ?thesis using * by blast
qed

lemma depthLoop_registered:
  "depthLoop get cur [] 0 = Some (Inr 0) \<Longrightarrow> cur = [] \<or> (\<exists>r. get cur = Inr r \<and> agAgentID r = [])"
  by (subst (asm) depthLoop.simps) (auto dest: depthLoop_grows split: sum.splits if_splits)

lemma depth_fresh:
  assumes "gget (stAgents s) c = None" and "agAgentID r = c" and "c \<noteq> []"
    and "depth memStore (agParentID r) s = Some (Inr n)"
  shows "depth memStore c (registerAgent r s) = Some (Inr (Suc n))"
proof -
  let ?g = "\<lambda>i. GetAgent memStore i s" and ?g' = "\<lambda>i. GetAgent memStore i (registerAgent r s)"
  have "depthLoop ?g' (agParentID r) [c] (Suc 0) = Some (Inr (Suc n))"
    using assms(4) unfolding depth_def
    by (rule depthLoop_fresh [where c = c])
       (use assms(1,2) in \<open>auto simp: mem_simps getAgent_def registerAgent_def gomap_simps\<close>)
  then show ?thesis unfolding depth_def
    using assms(2,3)
    by (subst depthLoop.simps) (simp add: mem_simps getAgent_def registerAgent_def gomap_simps)
qed

end
