(* ===== verification/SpiceDB.thy ===== *)
theory SpiceDB
  imports Prelude
begin

text \<open>
  The authorization database behind \<open>internal/spicedb/client.go\<close>. \<open>SpiceDB\<close> is the Go interface
  \<open>Client\<close> as a record of operations over an abstract database state. The real client talks to a
  SpiceDB server, which is not part of this repository: it is a parameter of the model, with the
  laws of the locale \<open>spicedb_client\<close>. \<open>mockClient\<close> is the in-memory \<open>Mock\<close> of the same file;
  it satisfies the laws.
\<close>

section \<open>The interface\<close>

record 'd SpiceDB =
  WriteRelationship :: "string \<Rightarrow> string \<Rightarrow> string \<Rightarrow> 'd \<Rightarrow> go_error option \<times> 'd"
  DeleteRelationship :: "string \<Rightarrow> string \<Rightarrow> string \<Rightarrow> 'd \<Rightarrow> go_error option \<times> 'd"
  DeleteAgentRelationships :: "string \<Rightarrow> string list \<Rightarrow> 'd \<Rightarrow> go_error option \<times> 'd"
  DeleteResourceRelationships :: "string \<Rightarrow> 'd \<Rightarrow> go_error option \<times> 'd"
  CheckPermission :: "string \<Rightarrow> string \<Rightarrow> string \<Rightarrow> 'd \<Rightarrow> bool result"

text \<open>\<open>parseRef\<close>: \<open>strings.SplitN(s, ":", 2)\<close>, the whole text as the type when there is no colon.\<close>

definition parseRef :: "string \<Rightarrow> string \<times> string" where
  "parseRef s = (if CHR '':'' \<in> set s then (before (CHR '':'') s, drop (Suc (length (before (CHR '':'') s))) s)
                 else (s, []))"

section \<open>The in-memory client\<close>

text \<open>The keys of the tuple map, all of which map to true.\<close>

type_synonym Mock = "string list"

definition tupleKey :: "string \<Rightarrow> string \<Rightarrow> string \<Rightarrow> string" where
  "tupleKey resource relation subject = resource @ ''#'' @ relation @ ''@'' @ subject"

definition mockWrite :: "string \<Rightarrow> string \<Rightarrow> string \<Rightarrow> Mock \<Rightarrow> go_error option \<times> Mock" where
  "mockWrite resource relation subject m = (None, List.insert (tupleKey resource relation subject) m)"

definition mockDelete :: "string \<Rightarrow> string \<Rightarrow> string \<Rightarrow> Mock \<Rightarrow> go_error option \<times> Mock" where
  "mockDelete resource relation subject m = (None, removeAll (tupleKey resource relation subject) m)"

definition has_suffix :: "string \<Rightarrow> string \<Rightarrow> bool" where
  "has_suffix s suf = (length suf \<le> length s \<and> drop (length s - length suf) s = suf)"

definition mockDeleteAgent :: "string \<Rightarrow> string list \<Rightarrow> Mock \<Rightarrow> go_error option \<times> Mock" where
  "mockDeleteAgent agentID resourceTypes m =
     (if resourceTypes = [] then (None, m)
      else (None, filter (\<lambda>k. \<not> (has_suffix k (''@agent:'' @ agentID) \<and>
                             fst (parseRef (before (CHR ''#'') k)) \<in> set resourceTypes)) m))"

definition mockDeleteResource :: "string \<Rightarrow> Mock \<Rightarrow> go_error option \<times> Mock" where
  "mockDeleteResource resource m = (None, filter (\<lambda>k. \<not> has_prefix k (resource @ ''#'')) m)"

definition mockOrgOf :: "string \<Rightarrow> Mock \<Rightarrow> string" where
  "mockOrgOf agentResource m =
     (case find (\<lambda>k. has_prefix k (agentResource @ ''#org@'')) m of
        None \<Rightarrow> []
      | Some k \<Rightarrow> trim_prefix k (agentResource @ ''#org@''))"

definition mockCheck :: "string \<Rightarrow> string \<Rightarrow> string \<Rightarrow> Mock \<Rightarrow> bool result" where
  "mockCheck resource permission subject m =
     (if permission = ''view'' \<or> permission = ''manage'' then
        (if tupleKey resource ''owner'' subject \<in> set m then Inr True
         else let org = mockOrgOf resource m
              in if org = [] then Inr False else Inr (tupleKey org ''admin'' subject \<in> set m))
      else if permission = ''view_agents'' \<or> permission = ''admin_agents'' then
        (if tupleKey resource ''admin'' subject \<in> set m then Inr True
         else if permission = ''view_agents'' \<and> tupleKey resource ''member'' subject \<in> set m then Inr True
         else Inr False)
      else Inr (tupleKey resource ''agent'' subject \<in> set m \<and> tupleKey subject ''enabled'' subject \<in> set m))"

definition mockClient :: "Mock SpiceDB" where
  "mockClient = \<lparr>WriteRelationship = mockWrite, DeleteRelationship = mockDelete,
     DeleteAgentRelationships = mockDeleteAgent, DeleteResourceRelationships = mockDeleteResource,
     CheckPermission = mockCheck\<rparr>"

lemma mockClient_simps [mem_simps]:
  "WriteRelationship mockClient = mockWrite" "DeleteRelationship mockClient = mockDelete"
  "DeleteAgentRelationships mockClient = mockDeleteAgent"
  "DeleteResourceRelationships mockClient = mockDeleteResource"
  "CheckPermission mockClient = mockCheck"
  by (simp_all add: mockClient_def)

section \<open>The contract\<close>

text \<open>
  What the registry relies on. A write or delete that reports success has happened, and one that
  reports an error has either happened or left the tuples alone; deletes never add a tuple. An
  agent-runtime permission (\<open>work_on\<close>) is only granted to an agent whose \<open>enabled\<close> tuple is
  present, the extension contract of the schema.
\<close>

locale spicedb_client =
  fixes D :: "'d SpiceDB"
    and key :: "string \<Rightarrow> string \<Rightarrow> string \<Rightarrow> 'k"
    and tuples :: "'d \<Rightarrow> 'k set"
  assumes write_tuples: "WriteRelationship D r l u d = (e, d') \<Longrightarrow>
      tuples d' = insert (key r l u) (tuples d) \<or> (e \<noteq> None \<and> tuples d' = tuples d)"
    and delete_tuples: "DeleteRelationship D r l u d = (e, d') \<Longrightarrow>
      tuples d' = tuples d - {key r l u} \<or> (e \<noteq> None \<and> tuples d' = tuples d)"
    and delete_agent_tuples: "DeleteAgentRelationships D a ts d = (e, d') \<Longrightarrow> tuples d' \<subseteq> tuples d"
    and work_on_enabled: "CheckPermission D r ''work_on'' u d = Inr True \<Longrightarrow> key u ''enabled'' u \<in> tuples d"
begin

lemma delete_subset: "DeleteRelationship D r l u d = (e, d') \<Longrightarrow> tuples d' \<subseteq> tuples d"
  using delete_tuples by blast

lemma delete_ok: "DeleteRelationship D r l u d = (None, d') \<Longrightarrow> tuples d' = tuples d - {key r l u}"
  using delete_tuples by blast

lemma write_ok: "WriteRelationship D r l u d = (None, d') \<Longrightarrow> tuples d' = insert (key r l u) (tuples d)"
  using write_tuples by blast

lemma no_enabled_no_work: "key u ''enabled'' u \<notin> tuples d \<Longrightarrow> CheckPermission D r ''work_on'' u d \<noteq> Inr True"
  using work_on_enabled by blast

end

interpretation mock: spicedb_client mockClient tupleKey set
  by unfold_locales
     (auto simp: mem_simps mockWrite_def mockDelete_def mockDeleteAgent_def mockCheck_def split: if_splits)

text \<open>A client whose writes and deletes succeed, as the in-memory one does.\<close>

locale reliable_spicedb = spicedb_client D key tuples
  for D :: "'d SpiceDB" and key :: "string \<Rightarrow> string \<Rightarrow> string \<Rightarrow> 'k" and tuples :: "'d \<Rightarrow> 'k set" +
  assumes write_succeeds: "fst (WriteRelationship D r l u d) = None"
    and delete_succeeds: "fst (DeleteRelationship D r l u d) = None"
begin

lemma write_adds: "tuples (snd (WriteRelationship D r l u d)) = insert (key r l u) (tuples d)"
  using write_ok [of r l u d "snd (WriteRelationship D r l u d)"] write_succeeds [of r l u d]
  by (metis prod.collapse)

lemma delete_removes: "tuples (snd (DeleteRelationship D r l u d)) = tuples d - {key r l u}"
  using delete_ok [of r l u d "snd (DeleteRelationship D r l u d)"] delete_succeeds [of r l u d]
  by (metis prod.collapse)

lemma fold_delete:
  "tuples (fold (\<lambda>i d. snd (DeleteRelationship D (f i) l (g i) d)) is d) = tuples d - (\<lambda>i. key (f i) l (g i)) ` set is"
  by (induction "is" arbitrary: d) (auto simp: delete_removes)

lemma fold_write:
  "tuples (fold (\<lambda>i d. snd (WriteRelationship D (f i) l (g i) d)) is d) = tuples d \<union> (\<lambda>i. key (f i) l (g i)) ` set is"
  by (induction "is" arbitrary: d) (auto simp: write_adds)

end

interpretation mockr: reliable_spicedb mockClient tupleKey set
  by unfold_locales (simp_all add: mem_simps mockWrite_def mockDelete_def)

end
