(* ===== verification/World.thy ===== *)
theory World
  imports ObjectID Lineage SpiceDB
begin

text \<open>
  The state a registry handler works on, and the authorization helpers of \<open>cmd/registry/main.go\<close>
  that read it: the ownership check \<open>agentAllowed\<close>, the authority tuples written for an agent, the
  suspension check of an organization and the substitution of relation templates.

  A handler gets the \<open>Store\<close> and the \<open>SpiceDB\<close> client it was built with, the decoded request and
  the state, and returns its answer with the state it leaves behind. The request body arrives
  decoded: \<open>Inl\<close> is the error of the JSON decoder.
\<close>

section \<open>State\<close>

record ('s, 'd) world =
  wStore :: 's
  wSdb :: 'd

fun errString :: "go_error \<Rightarrow> string" where
  "errString (Err msg) = msg"
| "errString ErrConflict = ''conflict''"

definition internalError :: "'b http" where
  "internalError = HttpError 500 ''internal error''"

definition notFound :: "'b http" where
  "notFound = HttpError 404 ''not found''"

lemma http_status_simps [simp]: "http_status internalError = 500" "http_status notFound = 404"
  by (simp_all add: internalError_def notFound_def)

lemma http_error_distinct [simp]:
  "internalError \<noteq> HttpOK n b" "HttpOK n b \<noteq> internalError" "notFound \<noteq> HttpOK n b" "HttpOK n b \<noteq> notFound"
  by (simp_all add: internalError_def notFound_def)

section \<open>Authorization helpers\<close>

definition actionView :: string where "actionView = ''view''"
definition actionManage :: string where "actionManage = ''manage''"

definition agentRef :: "string \<Rightarrow> string" where "agentRef oid = ''agent:'' @ oid"
definition userRef :: "string \<Rightarrow> string" where "userRef u = ''user:'' @ EncodeObjectID u"
definition orgRef :: "string \<Rightarrow> string" where "orgRef org = ''organization:'' @ EncodeObjectID org"

text \<open>\<open>agentAllowed\<close>: the pair (allowed, exists). A failing permission check denies.\<close>

definition agentAllowed ::
  "'s Store \<Rightarrow> 'd SpiceDB \<Rightarrow> string \<Rightarrow> string \<Rightarrow> string \<Rightarrow> ('s, 'd, 'z) world_scheme \<Rightarrow> (bool \<times> bool) result" where
  "agentAllowed S D oid userId action w =
     (case GetAgent S oid (wStore w) of
        Inl e \<Rightarrow> Inl e
      | Inr rec \<Rightarrow>
          if agAgentID rec = [] then Inr (False, False)
          else if userId = [] then Inr (False, True)
          else if agOrgID rec = [] then Inr (agUserID rec = userId, True)
          else case CheckPermission D (agentRef oid) action (userRef userId) (wSdb w) of
              Inl cerr \<Rightarrow> Inr (False, True)
            | Inr ok \<Rightarrow> Inr (ok, True))"

definition orgIsDisabled :: "'s Store \<Rightarrow> string \<Rightarrow> 's \<Rightarrow> bool result" where
  "orgIsDisabled S orgID s =
     (if orgID = [] then Inr False
      else case GetOrg S orgID s of
          Inl e \<Rightarrow> Inl e
        | Inr None \<Rightarrow> Inr False
        | Inr (Some org) \<Rightarrow> Inr (orgDisabled org))"

text \<open>\<open>writeAuthorityTuples\<close>: the tuples that were written, a failed write left out.\<close>

definition writeTuple ::
  "'d SpiceDB \<Rightarrow> string \<Rightarrow> string \<Rightarrow> string \<Rightarrow> 'd \<Rightarrow> authzTuple list \<times> 'd" where
  "writeTuple D res rel sub d =
     (case WriteRelationship D res rel sub d of
        (None, d') \<Rightarrow> ([\<lparr>atResource = res, atRelation = rel, atSubject = sub\<rparr>], d')
      | (Some e, d') \<Rightarrow> ([], d'))"

definition writeAuthorityTuples ::
  "'d SpiceDB \<Rightarrow> string \<Rightarrow> string \<Rightarrow> string \<Rightarrow> 'd \<Rightarrow> authzTuple list \<times> 'd" where
  "writeAuthorityTuples D agentID userID orgID d =
     (let (ts1, d1) = (if userID \<noteq> [] then writeTuple D (agentRef agentID) ''owner'' (userRef userID) d else ([], d));
          (ts2, d2) = (if orgID \<noteq> [] then writeTuple D (agentRef agentID) ''org'' (orgRef orgID) d1 else ([], d1))
      in (ts1 @ ts2, d2))"

definition substitute :: "string \<Rightarrow> string \<Rightarrow> string \<Rightarrow> string" where
  "substitute tmpl agentID tenantID =
     replace_all (replace_all tmpl ''{{agent_id}}'' agentID) ''{{tenant_id}}'' tenantID"

definition referencesTenant :: "SpiceDBRelationTemplate \<Rightarrow> bool" where
  "referencesTenant rel = (str_contains (relResource rel) ''{{tenant_id}}'' \<or> str_contains (relSubject rel) ''{{tenant_id}}'')"

fun collectTypes :: "bool \<Rightarrow> SpiceDBRelationTemplate list \<Rightarrow> string list \<Rightarrow> string list" where
  "collectTypes hasTenant [] out = out"
| "collectTypes hasTenant (rel # rels) out =
     (let resType = before (CHR '':'') (relResource rel)
      in if \<not> hasTenant \<and> referencesTenant rel then collectTypes hasTenant rels out
         else if resType = [] \<or> resType \<in> set out then collectTypes hasTenant rels out
         else collectTypes hasTenant rels (out @ [resType]))"

definition relationResourceTypes :: "AgentTemplate \<Rightarrow> bool \<Rightarrow> string list" where
  "relationResourceTypes tpl hasTenant = collectTypes hasTenant (azSpiceDBRelations (tplAuthZ tpl)) []"

definition rejectInvalidUserID :: "string \<Rightarrow> bool" where
  "rejectInvalidUserID u = (u \<noteq> [] \<and> \<not> ValidUserID u)"

text \<open>
  The middleware around the whole mux: the values of the \<open>userId\<close> query parameter, in order. The
  wrapped handler reads the first.
\<close>

definition rejectDuplicateUserID :: "string list \<Rightarrow> (string \<Rightarrow> 'b http \<times> 'w) \<Rightarrow> 'w \<Rightarrow> 'b http \<times> 'w" where
  "rejectDuplicateUserID vals next w =
     (if length vals > 1 then (HttpError 400 ''duplicate userId query parameter'', w)
      else if length vals = 1 \<and> rejectInvalidUserID (hd vals) then (HttpError 400 ''invalid userId'', w)
      else next (case vals of [] \<Rightarrow> [] | v # _ \<Rightarrow> v))"

text \<open>The control-plane gate \<open>cp\<close>; \<open>authenticated\<close> is the verdict of the configured authenticator.\<close>

definition cp :: "bool \<Rightarrow> ('w \<Rightarrow> 'b http \<times> 'w) \<Rightarrow> 'w \<Rightarrow> 'b http \<times> 'w" where
  "cp authenticated h w = (if authenticated then h w else (HttpError 401 ''unauthorized'', w))"

lemma agentRef_inject [simp]: "agentRef a = agentRef b \<longleftrightarrow> a = b"
  by (simp add: agentRef_def)

end
