(* ===== verification/Revocation.thy ===== *)
theory Revocation
  imports World
begin

text \<open>
  Revocation and its reversal (\<open>cmd/registry/main.go\<close>): the per-agent steps \<open>revokeNode\<close> and
  \<open>resumeNode\<close>, the cascades over a subtree and over the roots of a scope, and the lifecycle handlers
  built on them. The cascades are related to the abstract operations \<open>revokeMap\<close> and \<open>resumeMap\<close> on
  the map of agent records.
\<close>

section \<open>Steps and loops\<close>

definition revocableStatus :: "string \<Rightarrow> bool" where
  "revocableStatus status = (status = ''active'' \<or> status = ''pending'')"

definition revokeNode ::
  "'s Store \<Rightarrow> 'd SpiceDB \<Rightarrow> string \<Rightarrow> ('s, 'd, 'z) world_scheme \<Rightarrow> bool result \<times> ('s, 'd, 'z) world_scheme" where
  "revokeNode S D oid w =
     (case GetAgent S oid (wStore w) of
        Inl e \<Rightarrow> (Inl e, w)
      | Inr rec \<Rightarrow>
          if \<not> revocableStatus (agStatus rec) then (Inr False, w)
          else case UpdateAgentStatus S oid ''revoked'' (wStore w) of
              (Inl e, s1) \<Rightarrow> (Inl e, w\<lparr>wStore := s1\<rparr>)
            | (Inr _, s1) \<Rightarrow>
                let (_, d1) = DeleteRelationship D (agentRef oid) ''enabled'' (agentRef oid) (wSdb w);
                    (_, s2) = AppendEvent S oid
                      (newEvent SourceRegistry ''agent_revoked'' (ObjPayload [(''agentId'', oid)])) s1
                in (Inr True, w\<lparr>wStore := s2, wSdb := d1\<rparr>))"

definition resumeNode ::
  "'s Store \<Rightarrow> 'd SpiceDB \<Rightarrow> string \<Rightarrow> ('s, 'd, 'z) world_scheme \<Rightarrow> bool result \<times> ('s, 'd, 'z) world_scheme" where
  "resumeNode S D oid w =
     (case GetAgent S oid (wStore w) of
        Inl e \<Rightarrow> (Inl e, w)
      | Inr rec \<Rightarrow>
          if agStatus rec \<noteq> ''revoked'' then (Inr False, w)
          else case UpdateAgentStatus S oid ''active'' (wStore w) of
              (Inl e, s1) \<Rightarrow> (Inl e, w\<lparr>wStore := s1\<rparr>)
            | (Inr _, s1) \<Rightarrow>
                let (_, d1) = WriteRelationship D (agentRef oid) ''enabled'' (agentRef oid) (wSdb w);
                    (_, s2) = AppendEvent S oid
                      (newEvent SourceRegistry ''agent_resumed'' (ObjPayload [(''agentId'', oid)])) s1
                in (Inr True, w\<lparr>wStore := s2, wSdb := d1\<rparr>))"

text \<open>The loop over the nodes of a subtree: the nodes the step acted on; the first error ends it.\<close>

fun nodeLoop :: "(string \<Rightarrow> 'w \<Rightarrow> bool result \<times> 'w) \<Rightarrow> string list \<Rightarrow> 'w \<Rightarrow> string list result \<times> 'w" where
  "nodeLoop step [] w = (Inr [], w)"
| "nodeLoop step (n # ns) w =
     (case step n w of
        (Inl e, w1) \<Rightarrow> (Inl e, w1)
      | (Inr ok, w1) \<Rightarrow>
          (case nodeLoop step ns w1 of
             (Inl e, w2) \<Rightarrow> (Inl e, w2)
           | (Inr acted, w2) \<Rightarrow> (Inr (if ok then n # acted else acted), w2)))"

fun cascadeOverRoots ::
  "'s Store \<Rightarrow> 'd SpiceDB \<Rightarrow> AgentRecord list \<Rightarrow> string list \<Rightarrow> ('s, 'd, 'z) world_scheme \<Rightarrow>
     (go_error option \<times> ('s, 'd, 'z) world_scheme) option" where
  "cascadeOverRoots S D [] scopeSet w = Some (None, w)"
| "cascadeOverRoots S D (a # roots) scopeSet w =
     (if agParentID a \<noteq> [] \<and> agParentID a \<in> set scopeSet then cascadeOverRoots S D roots scopeSet w
      else case subtree S (agAgentID a) (wStore w) of
          None \<Rightarrow> None
        | Some (Inl e) \<Rightarrow> Some (Some e, w)
        | Some (Inr nodes) \<Rightarrow>
            (case nodeLoop (revokeNode S D) (elems nodes) w of
               (Inl e, w1) \<Rightarrow> Some (Some e, w1)
             | (Inr _, w1) \<Rightarrow> cascadeOverRoots S D roots scopeSet w1))"

definition revokeCascadeRoots ::
  "'s Store \<Rightarrow> 'd SpiceDB \<Rightarrow> (AgentRecord \<Rightarrow> bool) \<Rightarrow> (AgentRecord \<Rightarrow> bool) \<Rightarrow> ('s, 'd, 'z) world_scheme \<Rightarrow>
     (go_error option \<times> ('s, 'd, 'z) world_scheme) option" where
  "revokeCascadeRoots S D scope root w =
     (case ListAgents S (wStore w) of
        Inl e \<Rightarrow> Some (Some e, w)
      | Inr agents \<Rightarrow> cascadeOverRoots S D (filter root agents) (map agAgentID (filter scope agents)) w)"

text \<open>The two best-effort loops of \<open>applyRemovalDisposition\<close>: owner tuples and audit events.\<close>

definition dropOwner ::
  "'d SpiceDB \<Rightarrow> string \<Rightarrow> AgentRecord \<Rightarrow> ('s, 'd, 'z) world_scheme \<Rightarrow> ('s, 'd, 'z) world_scheme" where
  "dropOwner D user a w =
     w\<lparr>wSdb := snd (DeleteRelationship D (agentRef (agAgentID a)) ''owner'' (userRef user) (wSdb w))\<rparr>"

definition noteOrphan ::
  "'s Store \<Rightarrow> string \<Rightarrow> string \<Rightarrow> AgentRecord \<Rightarrow> ('s, 'd, 'z) world_scheme \<Rightarrow> ('s, 'd, 'z) world_scheme" where
  "noteOrphan S org user a w =
     w\<lparr>wStore := snd (AppendEvent S (agAgentID a) (newEvent SourceRegistry ''agent_orphaned''
         (ObjPayload [(''agentId'', agAgentID a), (''orgId'', org), (''formerOwner'', user)])) (wStore w))\<rparr>"

definition applyRemovalDisposition ::
  "'s Store \<Rightarrow> 'd SpiceDB \<Rightarrow> string \<Rightarrow> string \<Rightarrow> string \<Rightarrow> ('s, 'd, 'z) world_scheme \<Rightarrow>
     (go_error option \<times> ('s, 'd, 'z) world_scheme) option" where
  "applyRemovalDisposition S D org user disposition w =
     (case ListAgents S (wStore w) of
        Inl e \<Rightarrow> Some (Some e, w)
      | Inr agents \<Rightarrow>
          let owned = filter (\<lambda>a. agOrgID a = org \<and> agUserID a = user) agents
          in if owned = [] then Some (None, w)
             else let w1 = fold (dropOwner D user) owned w
                  in if disposition = RemovalAutoRevoke
                     then cascadeOverRoots S D owned (map agAgentID owned) w1
                     else Some (None, fold (noteOrphan S org user) owned w1))"

section \<open>Handlers\<close>

text \<open>
  The guard the lifecycle handlers share: a store error is a 500, an unknown agent and a refused
  caller are the same 404.
\<close>

definition allowedOr404 ::
  "(bool \<times> bool) result \<Rightarrow> 'w \<Rightarrow> ('b http \<times> 'w) option \<Rightarrow> ('b http \<times> 'w) option" where
  "allowedOr404 verdict w body =
     (case verdict of
        Inl e \<Rightarrow> Some (internalError, w)
      | Inr (allowed, exists) \<Rightarrow> if \<not> exists \<or> \<not> allowed then Some (notFound, w) else body)"

definition overSubtree ::
  "'s Store \<Rightarrow> (string \<Rightarrow> ('s, 'd, 'z) world_scheme \<Rightarrow> bool result \<times> ('s, 'd, 'z) world_scheme) \<Rightarrow>
     string \<Rightarrow> ('s, 'd, 'z) world_scheme \<Rightarrow> (string list http \<times> ('s, 'd, 'z) world_scheme) option" where
  "overSubtree S step oid w =
     (case subtree S oid (wStore w) of
        None \<Rightarrow> None
      | Some (Inl e) \<Rightarrow> Some (internalError, w)
      | Some (Inr None) \<Rightarrow> Some (notFound, w)
      | Some (Inr (Some nodes)) \<Rightarrow>
          (case nodeLoop step nodes w of
             (Inl e, w1) \<Rightarrow> Some (internalError, w1)
           | (Inr acted, w1) \<Rightarrow> Some (HttpOK 200 acted, w1)))"

definition handleRevoke ::
  "'s Store \<Rightarrow> 'd SpiceDB \<Rightarrow> string \<Rightarrow> string \<Rightarrow> ('s, 'd, 'z) world_scheme \<Rightarrow>
     (string list http \<times> ('s, 'd, 'z) world_scheme) option" where
  "handleRevoke S D oid userId w =
     allowedOr404 (agentAllowed S D oid userId actionManage w) w (overSubtree S (revokeNode S D) oid w)"

definition handleResume ::
  "'s Store \<Rightarrow> 'd SpiceDB \<Rightarrow> string \<Rightarrow> string \<Rightarrow> ('s, 'd, 'z) world_scheme \<Rightarrow>
     (string list http \<times> ('s, 'd, 'z) world_scheme) option" where
  "handleResume S D oid userId w =
     allowedOr404 (agentAllowed S D oid userId actionManage w) w
       (case GetAgent S oid (wStore w) of
          Inl e \<Rightarrow> Some (internalError, w)
        | Inr rec \<Rightarrow>
            (case orgIsDisabled S (agOrgID rec) (wStore w) of
               Inl e \<Rightarrow> Some (internalError, w)
             | Inr disabled \<Rightarrow>
                 if disabled then Some (HttpError 403 ''organization is disabled'', w)
                 else overSubtree S (resumeNode S D) oid w))"

definition handleSubtree ::
  "'s Store \<Rightarrow> 'd SpiceDB \<Rightarrow> string \<Rightarrow> string \<Rightarrow> ('s, 'd, 'z) world_scheme \<Rightarrow>
     (string list http \<times> ('s, 'd, 'z) world_scheme) option" where
  "handleSubtree S D oid userId w =
     allowedOr404 (agentAllowed S D oid userId actionManage w) w
       (case subtree S oid (wStore w) of
          None \<Rightarrow> None
        | Some (Inl e) \<Rightarrow> Some (internalError, w)
        | Some (Inr None) \<Rightarrow> Some (notFound, w)
        | Some (Inr (Some nodes)) \<Rightarrow> Some (HttpOK 200 nodes, w))"

definition handleDismiss ::
  "'s Store \<Rightarrow> 'd SpiceDB \<Rightarrow> string \<Rightarrow> string \<Rightarrow> ('s, 'd, 'z) world_scheme \<Rightarrow>
     (string list http \<times> ('s, 'd, 'z) world_scheme) option" where
  "handleDismiss S D oid userId w =
     allowedOr404 (agentAllowed S D oid userId actionManage w) w
       (case DismissAgent S oid (wStore w) of
          (Inl e, s1) \<Rightarrow> Some (internalError, w\<lparr>wStore := s1\<rparr>)
        | (Inr ok, s1) \<Rightarrow> Some (if ok then HttpOK 204 [] else notFound, w\<lparr>wStore := s1\<rparr>))"

section \<open>Abstract operations\<close>

text \<open>
  Both steps move the records of a set of agents from the statuses that satisfy a guard to one
  target status.
\<close>

definition statusMap ::
  "(string \<Rightarrow> bool) \<Rightarrow> string \<Rightarrow> string set \<Rightarrow> (string \<rightharpoonup> AgentRecord) \<Rightarrow> string \<rightharpoonup> AgentRecord" where
  "statusMap g st A m =
     (\<lambda>i. case m i of None \<Rightarrow> None
                    | Some a \<Rightarrow> Some (if i \<in> A \<and> g (agStatus a) then a\<lparr>agStatus := st\<rparr> else a))"

definition revokeMap :: "string set \<Rightarrow> (string \<rightharpoonup> AgentRecord) \<Rightarrow> string \<rightharpoonup> AgentRecord" where
  "revokeMap = statusMap revocableStatus ''revoked''"

definition resumeMap :: "string set \<Rightarrow> (string \<rightharpoonup> AgentRecord) \<Rightarrow> string \<rightharpoonup> AgentRecord" where
  "resumeMap = statusMap (\<lambda>st. st = ''revoked'') ''active''"

definition setStatus :: "string \<Rightarrow> string \<Rightarrow> (string \<rightharpoonup> AgentRecord) \<Rightarrow> string \<rightharpoonup> AgentRecord" where
  "setStatus oid st m = (case m oid of None \<Rightarrow> m | Some a \<Rightarrow> m(oid \<mapsto> a\<lparr>agStatus := st\<rparr>))"

definition flipNode ::
  "'s Store \<Rightarrow> (string \<Rightarrow> bool) \<Rightarrow> string \<Rightarrow> (string \<Rightarrow> string \<Rightarrow> string \<Rightarrow> 'd \<Rightarrow> go_error option \<times> 'd) \<Rightarrow> string \<Rightarrow>
     string \<Rightarrow> ('s, 'd, 'z) world_scheme \<Rightarrow> bool result \<times> ('s, 'd, 'z) world_scheme" where
  "flipNode S g st tuple ty oid w =
     (case GetAgent S oid (wStore w) of
        Inl e \<Rightarrow> (Inl e, w)
      | Inr rec \<Rightarrow>
          if \<not> g (agStatus rec) then (Inr False, w)
          else case UpdateAgentStatus S oid st (wStore w) of
              (Inl e, s1) \<Rightarrow> (Inl e, w\<lparr>wStore := s1\<rparr>)
            | (Inr _, s1) \<Rightarrow>
                (Inr True, w\<lparr>wStore := snd (AppendEvent S oid (newEvent SourceRegistry ty (ObjPayload [(''agentId'', oid)])) s1),
                   wSdb := snd (tuple (agentRef oid) ''enabled'' (agentRef oid) (wSdb w))\<rparr>))"

lemma revokeNode_flip: "revokeNode S D = flipNode S revocableStatus ''revoked'' (DeleteRelationship D) ''agent_revoked''"
  by (simp add: fun_eq_iff revokeNode_def flipNode_def split: sum.splits prod.splits)

lemma resumeNode_flip: "resumeNode S D = flipNode S (\<lambda>st. st = ''revoked'') ''active'' (WriteRelationship D) ''agent_resumed''"
  by (simp add: fun_eq_iff resumeNode_def flipNode_def split: sum.splits prod.splits)

lemma not_revocable [simp]:
  "\<not> revocableStatus ''revoked''" "\<not> revocableStatus []" "revocableStatus ''active''" "revocableStatus ''pending''"
  by (simp_all add: revocableStatus_def)

lemma statusMap_empty [simp]: "statusMap g st {} m = m"
  by (auto simp: statusMap_def fun_eq_iff split: option.splits)

lemma statusMap_union: "\<not> g st \<Longrightarrow> statusMap g st A (statusMap g st B m) = statusMap g st (A \<union> B) m"
  by (auto simp: statusMap_def fun_eq_iff split: option.splits)

lemma statusMap_parent: "map_option agParentID (statusMap g st A m i) = map_option agParentID (m i)"
  by (auto simp: statusMap_def split: option.splits)

lemma setStatus_statusMap: "m oid = Some a \<Longrightarrow> g (agStatus a) \<Longrightarrow> setStatus oid st m = statusMap g st {oid} m"
  by (auto simp: setStatus_def statusMap_def fun_eq_iff split: option.splits)

lemma statusMap_miss: "(\<And>a. m oid = Some a \<Longrightarrow> \<not> g (agStatus a)) \<Longrightarrow> statusMap g st {oid} m = m"
  by (auto simp: statusMap_def fun_eq_iff split: option.splits)

lemma descendants_cong:
  assumes "\<And>i. map_option agParentID (m i) = map_option agParentID (m' i)"
  shows "descendants m = descendants m'"
proof -
  have "(\<exists>a. m c = Some a \<and> agParentID a = p) = (\<exists>a. m' c = Some a \<and> agParentID a = p)" for p c
    using assms [of c] by (cases "m c"; cases "m' c") auto
  then show ?thesis by (simp add: descendants_def fun_eq_iff)
qed

lemma descendants_statusMap [simp]: "descendants (statusMap g st A m) = descendants m"
  by (rule descendants_cong) (rule statusMap_parent)

lemma dom_statusMap [simp]: "dom (statusMap g st A m) = dom m"
  by (auto simp: statusMap_def dom_def split: option.splits)

text \<open>The subtrees a cascade over roots starts, those of the roots whose parent is out of scope.\<close>

definition cascadeSet :: "AgentRecord list \<Rightarrow> string list \<Rightarrow> (string \<rightharpoonup> AgentRecord) \<Rightarrow> string set" where
  "cascadeSet roots scopeSet m =
     (\<Union>a \<in> {a \<in> set roots. \<not> (agParentID a \<noteq> [] \<and> agParentID a \<in> set scopeSet)}. descendants m (agAgentID a))"

section \<open>Cascades refine the abstract operations\<close>

text \<open>
  What the cascades rely on beyond \<open>agent_store\<close>: a status write that reports success has
  happened, one that reports an error has happened or not, events do not touch the records, and the
  list of agents is the records that are not dismissed.
\<close>

locale lifecycle_store = agent_store S agents wf
  for S :: "'s Store" and agents :: "'s \<Rightarrow> string \<Rightarrow> AgentRecord option" and wf :: "'s \<Rightarrow> bool" +
  assumes update_status: "wf s \<Longrightarrow> UpdateAgentStatus S oid st s = (r, s') \<Longrightarrow>
      wf s' \<and> (agents s' = setStatus oid st (agents s) \<or> (\<exists>e. r = Inl e) \<and> agents s' = agents s)"
    and append_event: "wf s \<Longrightarrow> AppendEvent S oid ev s = (q, s') \<Longrightarrow> wf s' \<and> agents s' = agents s"
    and list_agents: "wf s \<Longrightarrow> ListAgents S s = Inr as \<Longrightarrow>
      a \<in> set as \<longleftrightarrow> agents s (agAgentID a) = Some a \<and> \<not> agDismissed a"
begin

lemma get_status:
  assumes "wf s" and "GetAgent S oid s = Inr r" and "agStatus r \<noteq> []"
  shows "agents s oid = Some r"
  using get_agent [OF assms(1,2)] assms(3) by (cases "agents s oid") (auto simp: recordOrZero_def)

lemma flipNode_refines:
  assumes "wf (wStore w)" and "flipNode S g st tuple ty oid w = (r, w')" and "\<not> g []"
  shows "wf (wStore w') \<and>
    (case r of
       Inl e \<Rightarrow> \<exists>A \<subseteq> {oid}. agents (wStore w') = statusMap g st A (agents (wStore w))
     | Inr ok \<Rightarrow> agents (wStore w') = statusMap g st {oid} (agents (wStore w)) \<and>
         ok = (\<exists>a. agents (wStore w) oid = Some a \<and> g (agStatus a)))"
proof (cases "GetAgent S oid (wStore w)")
  case (Inl e)
  then show ?thesis using assms by (auto simp: flipNode_def intro!: exI [of _ "{}"])
next
  case (Inr rec)
  show ?thesis
  proof (cases "g (agStatus rec)")
    case False
    then have none: "agents (wStore w) oid = Some a \<Longrightarrow> \<not> g (agStatus a)" for a
      using get_agent [OF assms(1) Inr] by (auto simp: recordOrZero_def)
    then show ?thesis
      using assms Inr False statusMap_miss [of "agents (wStore w)" oid g st] by (auto simp: flipNode_def)
  next
    case True
    then have rec: "agents (wStore w) oid = Some rec"
      using assms(3) by (intro get_status [OF assms(1) Inr]) auto
    obtain u s1 where u: "UpdateAgentStatus S oid st (wStore w) = (u, s1)" by force
    note upd = update_status [OF assms(1) u] setStatus_statusMap [of "agents (wStore w)" oid rec g st, OF rec True]
    show ?thesis
    proof (cases u)
      case (Inl e)
      then have "r = Inl e" "w' = w\<lparr>wStore := s1\<rparr>" using assms(2) Inr True u by (simp_all add: flipNode_def)
      moreover have "agents s1 = statusMap g st {oid} (agents (wStore w)) \<or> agents s1 = statusMap g st {} (agents (wStore w))"
        using upd by auto
      then have "\<exists>A \<subseteq> {oid}. agents s1 = statusMap g st A (agents (wStore w))" by blast
      ultimately show ?thesis using upd(1) by simp
    next
      case ok: (Inr b)
      obtain q s2 where q: "AppendEvent S oid (newEvent SourceRegistry ty (ObjPayload [(''agentId'', oid)])) s1 = (q, s2)"
        by force
      have "r = Inr True" "wStore w' = s2"
        using assms(2) Inr True u ok q by (auto simp: flipNode_def)
      then show ?thesis using append_event [OF _ q] upd rec True ok by auto
    qed
  qed
qed

lemma nodeLoop_refines:
  assumes "\<not> g []" and "\<not> g st"
  shows "wf (wStore w) \<Longrightarrow> nodeLoop (flipNode S g st tuple ty) ns w = (r, w') \<Longrightarrow> distinct ns \<Longrightarrow>
    wf (wStore w') \<and>
    (case r of
       Inl e \<Rightarrow> \<exists>A \<subseteq> set ns. agents (wStore w') = statusMap g st A (agents (wStore w))
     | Inr acted \<Rightarrow> agents (wStore w') = statusMap g st (set ns) (agents (wStore w)) \<and>
         acted = filter (\<lambda>i. \<exists>a. agents (wStore w) i = Some a \<and> g (agStatus a)) ns)"
proof (induction ns arbitrary: w r w')
  case (Cons n ns)
  obtain q w1 where q: "flipNode S g st tuple ty n w = (q, w1)" by force
  note step = flipNode_refines [OF Cons.prems(1) q assms(1)]
  show ?case
  proof (cases q)
    case (Inl e)
    then obtain A where A: "A \<subseteq> {n}" "agents (wStore w1) = statusMap g st A (agents (wStore w))"
      using step by auto
    have "r = Inl e" "w' = w1" using Cons.prems(2) q Inl by simp_all
    then show ?thesis using step A by (auto intro!: exI [of _ A])
  next
    case (Inr ok)
    obtain p w2 where p: "nodeLoop (flipNode S g st tuple ty) ns w1 = (p, w2)" by force
    have w1: "wf (wStore w1)" "agents (wStore w1) = statusMap g st {n} (agents (wStore w))"
      and ok: "ok = (\<exists>a. agents (wStore w) n = Some a \<and> g (agStatus a))" using step Inr by auto
    have same: "(\<exists>a. agents (wStore w1) i = Some a \<and> g (agStatus a)) =
        (\<exists>a. agents (wStore w) i = Some a \<and> g (agStatus a))" if "i \<in> set ns" for i
      using that Cons.prems(3) by (auto simp: w1(2) statusMap_def split: option.splits)
    have IH: "wf (wStore w2) \<and>
      (case p of
         Inl e \<Rightarrow> \<exists>A \<subseteq> set ns. agents (wStore w2) = statusMap g st A (agents (wStore w1))
       | Inr acted \<Rightarrow> agents (wStore w2) = statusMap g st (set ns) (agents (wStore w1)) \<and>
           acted = filter (\<lambda>i. \<exists>a. agents (wStore w1) i = Some a \<and> g (agStatus a)) ns)"
      using Cons.IH [OF w1(1) p] Cons.prems(3) by simp
    show ?thesis
    proof (cases p)
      case e: (Inl e)
      then obtain A where "A \<subseteq> set ns" "agents (wStore w2) = statusMap g st (A \<union> {n}) (agents (wStore w))"
        using IH assms(2) by (auto simp: w1(2) statusMap_union)
      then show ?thesis using IH e Cons.prems(2) q Inr p by (auto intro!: exI [of _ "A \<union> {n}"])
    next
      case acted: (Inr acted)
      then have "acted = filter (\<lambda>i. \<exists>a. agents (wStore w) i = Some a \<and> g (agStatus a)) ns"
        using IH filter_cong [OF refl same] by auto
      moreover have "agents (wStore w2) = statusMap g st (set (n # ns)) (agents (wStore w))"
        using IH acted assms(2) by (simp add: w1(2) statusMap_union)
      ultimately show ?thesis using IH acted Cons.prems(2) q Inr p ok by auto
    qed
  qed
qed auto

lemma subtree_nodes:
  assumes "wf s" and "subtree S oid s = Some (Inr no)" and "oid \<noteq> []" and "agents s oid \<noteq> None"
  shows "\<exists>nodes. no = Some nodes \<and> distinct nodes \<and> set nodes = descendants (agents s) oid"
proof -
  obtain r where r: "GetAgent S oid s = Inr r" using assms(2) by (auto simp: subtree_def split: sum.splits)
  then have "agAgentID r = oid"
    using assms(4) get_agent [OF assms(1) r] stored_id [OF assms(1)] by (auto simp: recordOrZero_def)
  then have "no \<noteq> None" using assms(2,3) r subtree_not_nil [of S oid s r] by auto
  then show ?thesis using subtree_descendants [OF assms(1)] assms(2) by (cases no) auto
qed

lemma overSubtree_refines:
  assumes "wf (wStore w)" and "\<not> g []" and "\<not> g st"
  shows "\<exists>ans w'. overSubtree S (flipNode S g st tuple ty) oid w = Some (ans, w') \<and> wf (wStore w') \<and>
    (\<exists>A \<subseteq> descendants (agents (wStore w)) oid. agents (wStore w') = statusMap g st A (agents (wStore w))) \<and>
    (\<forall>n acted. ans = HttpOK n acted \<longrightarrow> n = 200 \<and>
       agents (wStore w') = statusMap g st (descendants (agents (wStore w)) oid) (agents (wStore w)) \<and>
       distinct acted \<and>
       set acted = {i \<in> descendants (agents (wStore w)) oid. \<exists>a. agents (wStore w) i = Some a \<and> g (agStatus a)})"
proof -
  obtain q where q: "subtree S oid (wStore w) = Some q" using subtree_ends [OF assms(1)] by blast
  consider (err) e where "q = Inl e" | (none) "q = Inr None" | (nodes) nodes where "q = Inr (Some nodes)"
    by (cases q) auto
  then show ?thesis
  proof cases
    case err
    then show ?thesis using q assms(1) by (auto simp: overSubtree_def intro!: exI [of _ "{}"])
  next
    case none
    then show ?thesis using q assms(1) by (auto simp: overSubtree_def intro!: exI [of _ "{}"])
  next
    case nodes
    note tree = subtree_descendants [OF assms(1) q [unfolded nodes]]
    obtain r w' where loop: "nodeLoop (flipNode S g st tuple ty) nodes w = (r, w')" by force
    note loop' = nodeLoop_refines [OF assms(2,3,1) loop]
    then show ?thesis using q nodes tree loop by (cases r) (auto simp: overSubtree_def)
  qed
qed

text \<open>The cascade below one root: its subtree is revoked, or part of it when a node fails.\<close>

lemma root_refines:
  assumes "wf (wStore w)" and "oid \<noteq> []" and "agents (wStore w) oid \<noteq> None"
    and "subtree S oid (wStore w) = Some (Inr no)" and "nodeLoop (revokeNode S D) (elems no) w = (r, w1)"
  shows "wf (wStore w1) \<and>
    (case r of
       Inl e \<Rightarrow> \<exists>A \<subseteq> descendants (agents (wStore w)) oid. agents (wStore w1) = revokeMap A (agents (wStore w))
     | Inr acted \<Rightarrow> agents (wStore w1) = revokeMap (descendants (agents (wStore w)) oid) (agents (wStore w)))"
proof -
  obtain nodes where nodes: "no = Some nodes" "distinct nodes" "set nodes = descendants (agents (wStore w)) oid"
    using subtree_nodes [OF assms(1,4)] assms(2,3) by auto
  then show ?thesis
    using nodeLoop_refines [of revocableStatus "''revoked''", OF _ _ assms(1) assms(5) [unfolded revokeNode_flip]]
    by (auto simp: revokeMap_def split: sum.splits)
qed

lemma revokeMap_union: "revokeMap A (revokeMap B m) = revokeMap (A \<union> B) m"
  by (simp add: revokeMap_def statusMap_union)

lemma cascadeSet_revokeMap [simp]: "cascadeSet roots sc (revokeMap A m) = cascadeSet roots sc m"
  by (simp add: cascadeSet_def revokeMap_def)

lemma cascadeSet_Cons:
  "cascadeSet (a # roots) sc m =
     (if agParentID a \<noteq> [] \<and> agParentID a \<in> set sc then {} else descendants m (agAgentID a)) \<union> cascadeSet roots sc m"
  by (auto simp: cascadeSet_def)

lemma cascadeOverRoots_refines:
  "wf (wStore w) \<Longrightarrow> (\<And>a. a \<in> set roots \<Longrightarrow> agAgentID a \<noteq> [] \<and> agents (wStore w) (agAgentID a) \<noteq> None) \<Longrightarrow>
   \<exists>e w'. cascadeOverRoots S D roots scopeSet w = Some (e, w') \<and> wf (wStore w') \<and>
     (\<exists>A \<subseteq> cascadeSet roots scopeSet (agents (wStore w)). agents (wStore w') = revokeMap A (agents (wStore w))) \<and>
     (e = None \<longrightarrow> agents (wStore w') = revokeMap (cascadeSet roots scopeSet (agents (wStore w))) (agents (wStore w)))"
proof (induction roots arbitrary: w)
  case Nil
  then show ?case by (simp add: cascadeSet_def revokeMap_def)
next
  case (Cons a roots)
  let ?m = "agents (wStore w)" and ?D = "descendants (agents (wStore w)) (agAgentID a)"
  show ?case
  proof (cases "agParentID a \<noteq> [] \<and> agParentID a \<in> set scopeSet")
    case True
    then show ?thesis using Cons.IH [OF Cons.prems(1)] Cons.prems(2) by (simp add: cascadeSet_Cons)
  next
    case False
    have cs: "cascadeSet (a # roots) scopeSet ?m = ?D \<union> cascadeSet roots scopeSet ?m" using False by (auto simp: cascadeSet_Cons)
    obtain q where q: "subtree S (agAgentID a) (wStore w) = Some q" using subtree_ends [OF Cons.prems(1)] by blast
    show ?thesis
    proof (cases q)
      case (Inl e)
      then show ?thesis using q Cons.prems(1) False by (auto simp: revokeMap_def intro!: exI [of _ "{}"])
    next
      case (Inr no)
      obtain r w1 where loop: "nodeLoop (revokeNode S D) (elems no) w = (r, w1)" by force
      have root: "wf (wStore w1)" "case r of Inl e \<Rightarrow> \<exists>A \<subseteq> ?D. agents (wStore w1) = revokeMap A ?m
          | Inr acted \<Rightarrow> agents (wStore w1) = revokeMap ?D ?m"
        using root_refines [OF Cons.prems(1) _ _ q [unfolded Inr] loop] Cons.prems(2) [of a] by auto
      show ?thesis
      proof (cases r)
        case e: (Inl e)
        then have "cascadeOverRoots S D (a # roots) scopeSet w = Some (Some e, w1)" using q Inr loop False by auto
        then show ?thesis using root e cs by auto
      next
        case (Inr acted)
        then have m1: "agents (wStore w1) = revokeMap ?D ?m" using root by simp
        have "agents (wStore w1) (agAgentID b) \<noteq> None" if "b \<in> set roots" for b
          using Cons.prems(2) [of b] that by (auto simp: m1 revokeMap_def statusMap_def split: option.splits)
        then obtain e w' A where IH: "cascadeOverRoots S D roots scopeSet w1 = Some (e, w')" "wf (wStore w')"
            "A \<subseteq> cascadeSet roots scopeSet ?m" "agents (wStore w') = revokeMap (A \<union> ?D) ?m"
            "e = None \<longrightarrow> agents (wStore w') = revokeMap (cascadeSet roots scopeSet ?m \<union> ?D) ?m"
          using Cons.IH [OF root(1)] Cons.prems(2) unfolding m1 cascadeSet_revokeMap revokeMap_union by auto
        moreover have "cascadeOverRoots S D (a # roots) scopeSet w = Some (e, w')"
          using IH(1) q \<open>q = Inr no\<close> loop Inr False by auto
        moreover have "A \<union> ?D \<subseteq> ?D \<union> cascadeSet roots scopeSet ?m" using IH(3) by blast
        ultimately show ?thesis unfolding cs by (metis Un_commute)
      qed
    qed
  qed
qed

end

section \<open>The in-memory store\<close>

lemma updateAgent_setStatus: "gget (stAgents (snd (updateAgent oid st s))) = setStatus oid st (gget (stAgents s))"
  by (auto simp: updateAgent_def setStatus_def gomap_simps fun_eq_iff split: option.splits)

lemma updateAgent_wf: "agentsWf s \<Longrightarrow> agentsWf (snd (updateAgent oid st s))"
  by (auto simp: updateAgent_def agentsWf_id split: option.splits intro!: agentsWf_put dest: agentsWf_nonempty)

lemma appendEvent_agents [simp]: "stAgents (snd (appendEvent oid e s)) = stAgents s"
  by (simp add: appendEvent_def timeNow_def Let_def)

lemma agentsWf_cong: "stAgents s' = stAgents s \<Longrightarrow> agentsWf s' = agentsWf s"
  by (simp add: agentsWf_def)

lemma listAgents_iff: "agentsWf s \<Longrightarrow> a \<in> set (listAgents s) \<longleftrightarrow> gget (stAgents s) (agAgentID a) = Some a \<and> \<not> agDismissed a"
  using agentsWf_vals [of s a] by (simp add: listAgents_def del: set_map)

interpretation life: lifecycle_store memStore "\<lambda>s. gget (stAgents s)" agentsWf
proof unfold_locales
  fix s :: store and oid st r s'
  assume "agentsWf s" and "UpdateAgentStatus memStore oid st s = (r, s')"
  then show "agentsWf s' \<and> (gget (stAgents s') = setStatus oid st (gget (stAgents s)) \<or>
      (\<exists>e. r = Inl e) \<and> gget (stAgents s') = gget (stAgents s))"
    using updateAgent_setStatus [of oid st s] updateAgent_wf [of s oid st] by (auto simp: mem_simps)
next
  fix s :: store and oid ev q s'
  assume "agentsWf s" and "AppendEvent memStore oid ev s = (q, s')"
  then show "agentsWf s' \<and> gget (stAgents s') = gget (stAgents s)"
    by (auto simp: mem_simps agentsWf_cong [OF appendEvent_agents])
qed (auto simp: mem_simps listAgents_iff)

text \<open>The in-memory store never fails.\<close>

lemma mem_nodeLoop: "\<exists>acted w'. nodeLoop (flipNode memStore g st tuple ty) ns w = (Inr acted, w')"
proof (induction ns arbitrary: w)
  case (Cons n ns)
  obtain ok w1 where "flipNode memStore g st tuple ty n w = (Inr ok, w1)"
    by (cases "g (agStatus (getAgent n (wStore w)))") (auto simp: flipNode_def mem_simps)
  then show ?case using Cons.IH [of w1] by auto
qed simp

lemma mem_subtree:
  assumes "agentsWf s" and "gget (stAgents s) oid = Some a" and "oid \<noteq> []"
  shows "\<exists>nodes. subtree memStore oid s = Some (Inr (Some nodes))"
proof -
  obtain q where q: "subtree memStore oid s = Some q" using mem.subtree_ends [OF assms(1)] by blast
  then obtain no where "q = Inr no" using subtree_no_error [of oid s] by (cases q) auto
  then show ?thesis using life.subtree_nodes [OF assms(1)] q assms(2,3) by fastforce
qed

lemma mem_overSubtree:
  assumes "agentsWf (wStore w)" and "gget (stAgents (wStore w)) oid = Some a" and "oid \<noteq> []"
  shows "\<exists>acted w'. overSubtree memStore (flipNode memStore g st tuple ty) oid w = Some (HttpOK 200 acted, w')"
proof -
  obtain nodes where "subtree memStore oid (wStore w) = Some (Inr (Some nodes))" using mem_subtree [OF assms] by blast
  moreover obtain acted w' where "nodeLoop (flipNode memStore g st tuple ty) nodes w = (Inr acted, w')"
    using mem_nodeLoop by blast
  ultimately show ?thesis by (simp add: overSubtree_def)
qed

section \<open>Properties\<close>

lemma manage_known:
  assumes "agentsWf (wStore w)" and "agentAllowed memStore D oid u act w = Inr (True, True)"
  shows "\<exists>a. gget (stAgents (wStore w)) oid = Some a \<and> agAgentID a = oid \<and> oid \<noteq> []"
proof -
  have "agAgentID (getAgent oid (wStore w)) \<noteq> []"
    using assms(2) by (auto simp: agentAllowed_def mem_simps split: if_splits)
  then show ?thesis
    using agentsWf_id [OF assms(1)] by (auto simp: getAgent_def split: option.splits)
qed

lemma mem_overSubtree_effect:
  assumes "agentsWf (wStore w)" and "agentAllowed memStore D oid u act w = Inr (True, True)"
    and "\<not> g []" and "\<not> g st"
  shows "\<exists>acted w'. overSubtree memStore (flipNode memStore g st tuple ty) oid w = Some (HttpOK 200 acted, w') \<and>
    agentsWf (wStore w') \<and>
    gget (stAgents (wStore w')) =
      statusMap g st (descendants (gget (stAgents (wStore w))) oid) (gget (stAgents (wStore w))) \<and>
    distinct acted \<and>
    set acted = {i \<in> descendants (gget (stAgents (wStore w))) oid. \<exists>a. gget (stAgents (wStore w)) i = Some a \<and> g (agStatus a)}"
proof -
  obtain a where "gget (stAgents (wStore w)) oid = Some a" "oid \<noteq> []" using manage_known [OF assms(1,2)] by blast
  then obtain acted w' where "overSubtree memStore (flipNode memStore g st tuple ty) oid w = Some (HttpOK 200 acted, w')"
    using mem_overSubtree [OF assms(1)] by blast
  then show ?thesis
    using life.overSubtree_refines [OF assms(1,3,4), of tuple ty oid] by auto
qed

lemma mem_revoke:
  assumes "agentsWf (wStore w)" and "agentAllowed memStore D oid u actionManage w = Inr (True, True)"
  shows "\<exists>revoked w'. handleRevoke memStore D oid u w = Some (HttpOK 200 revoked, w') \<and> agentsWf (wStore w') \<and>
    gget (stAgents (wStore w')) =
      revokeMap (descendants (gget (stAgents (wStore w))) oid) (gget (stAgents (wStore w))) \<and>
    distinct revoked \<and>
    set revoked = {i \<in> descendants (gget (stAgents (wStore w))) oid.
      \<exists>a. gget (stAgents (wStore w)) i = Some a \<and> revocableStatus (agStatus a)}"
  using mem_overSubtree_effect [OF assms not_revocable(2,1), of "DeleteRelationship D" "''agent_revoked''"] assms(2)
  by (auto simp: handleRevoke_def allowedOr404_def revokeNode_flip revokeMap_def)

lemma status_same: "agStatus a = st \<Longrightarrow> a\<lparr>agStatus := st\<rparr> = (a :: AgentRecord)"
  by (cases a) simp

lemma resumeMap_revokeMap:
  "m i = Some a \<Longrightarrow> resumeMap A (revokeMap A m) i = Some
     (if i \<in> A \<and> (agStatus a = ''pending'' \<or> agStatus a = ''revoked'') then a\<lparr>agStatus := ''active''\<rparr> else a)"
  by (cases "i \<in> A"; cases "agStatus a = ''active''"; cases "agStatus a = ''pending''"; cases "agStatus a = ''revoked''")
     (simp_all add: revokeMap_def resumeMap_def statusMap_def revocableStatus_def status_same)

text \<open>The cascades write one \<open>enabled\<close> tuple per agent they act on.\<close>

lemma nodeLoop_sdb:
  "nodeLoop (flipNode S g st tuple ty) ns w = (Inr acted, w') \<Longrightarrow>
     wSdb w' = fold (\<lambda>i d. snd (tuple (agentRef i) ''enabled'' (agentRef i) d)) acted (wSdb w)"
proof (induction ns arbitrary: w acted)
  case (Cons n ns)
  obtain ok w1 where 1: "flipNode S g st tuple ty n w = (Inr ok, w1)"
    using Cons.prems by (auto split: prod.splits sum.splits)
  then have "wSdb w1 = (if ok then snd (tuple (agentRef n) ''enabled'' (agentRef n) (wSdb w)) else wSdb w)"
    by (auto simp: flipNode_def split: sum.splits if_splits prod.splits)
  moreover obtain rest where "nodeLoop (flipNode S g st tuple ty) ns w1 = (Inr rest, w')"
      "acted = (if ok then n # rest else rest)"
    using Cons.prems 1 by (auto split: prod.splits sum.splits)
  ultimately show ?case using Cons.IH by auto
qed simp

lemma overSubtree_sdb:
  "overSubtree S (flipNode S g st tuple ty) oid w = Some (HttpOK n acted, w') \<Longrightarrow>
     wSdb w' = fold (\<lambda>i d. snd (tuple (agentRef i) ''enabled'' (agentRef i) d)) acted (wSdb w)"
  by (auto simp: overSubtree_def dest: nodeLoop_sdb split: option.splits sum.splits prod.splits)

lemma nodeLoop_templates:
  "nodeLoop (flipNode memStore g st tuple ty) ns w = (r, w') \<Longrightarrow> stTemplates (wStore w') = stTemplates (wStore w)"
proof (induction ns arbitrary: w r)
  case (Cons n ns)
  obtain q w1 where 1: "flipNode memStore g st tuple ty n w = (q, w1)" by force
  then have "stTemplates (wStore w1) = stTemplates (wStore w)"
    by (auto simp: flipNode_def mem_simps updateAgent_def appendEvent_def timeNow_def Let_def split: if_splits option.splits)
  then show ?case using Cons.prems 1 Cons.IH by (auto split: sum.splits prod.splits)
qed simp

lemma revoke_templates:
  "handleRevoke memStore D oid u w = Some (resp, w') \<Longrightarrow> stTemplates (wStore w') = stTemplates (wStore w)"
  by (auto simp: handleRevoke_def allowedOr404_def overSubtree_def revokeNode_flip dest: nodeLoop_templates
           split: sum.splits prod.splits if_splits option.splits)

definition enabledKey :: "string \<Rightarrow> string" where
  "enabledKey i = tupleKey (agentRef i) ''enabled'' (agentRef i)"

lemma enabledKey_inject: "enabledKey i = enabledKey j \<longleftrightarrow> i = j"
proof
  assume eq: "enabledKey i = enabledKey j"
  then have "length (enabledKey i) = length (enabledKey j)" by simp
  then have "length i = length j" by (simp add: enabledKey_def tupleKey_def agentRef_def)
  then show "i = j" using eq by (simp add: enabledKey_def tupleKey_def agentRef_def)
qed simp

lemma revoke_tuples:
  assumes "handleRevoke memStore mockClient oid u w = Some (HttpOK n revoked, w')"
  shows "set (wSdb w') = set (wSdb w) - enabledKey ` set revoked"
proof -
  have "wSdb w' = fold (\<lambda>i d. snd (DeleteRelationship mockClient (agentRef i) ''enabled'' (agentRef i) d)) revoked (wSdb w)"
    using assms by (auto simp: handleRevoke_def allowedOr404_def revokeNode_flip intro: overSubtree_sdb
                         split: sum.splits if_splits prod.splits)
  then show ?thesis by (simp add: mockr.fold_delete enabledKey_def)
qed

text \<open>A world with the two-level chain of \<open>lineStore\<close>-style agents owned by one user.\<close>

definition ownedAgent :: "string \<Rightarrow> string \<Rightarrow> string \<Rightarrow> AgentRecord" where
  "ownedAgent oid parent st = (lineAgent oid parent)\<lparr>agUserID := ''alice'', agStatus := st\<rparr>"

definition familyWorld :: "(store, Mock) world" where
  "familyWorld = \<lparr>wStore = lineStore\<lparr>stAgents :=
       [(''r'', ownedAgent ''r'' [] ''active''), (''m'', ownedAgent ''m'' ''r'' ''pending''),
        (''x'', ownedAgent ''x'' ''m'' ''completed''), (''y'', ownedAgent ''y'' [] ''active'')]\<rparr>,
     wSdb = [tupleKey (agentRef ''r'') ''enabled'' (agentRef ''r''), tupleKey (agentRef ''y'') ''enabled'' (agentRef ''y''),
             tupleKey ''doc:1'' ''agent'' (agentRef ''r'')]\<rparr>"

lemma ownedAgent_simps [simp]:
  "agAgentID (ownedAgent i p st) = i" "agParentID (ownedAgent i p st) = p" "agStatus (ownedAgent i p st) = st"
  "agUserID (ownedAgent i p st) = ''alice''" "agOrgID (ownedAgent i p st) = []" "agDismissed (ownedAgent i p st) = False"
  by (simp_all add: ownedAgent_def)

lemma familyWorld_simps [simp]:
  "stAgents (wStore familyWorld) =
     [(''r'', ownedAgent ''r'' [] ''active''), (''m'', ownedAgent ''m'' ''r'' ''pending''),
      (''x'', ownedAgent ''x'' ''m'' ''completed''), (''y'', ownedAgent ''y'' [] ''active'')]"
  by (simp add: familyWorld_def)

lemma familyWorld_wf: "agentsWf (wStore familyWorld)"
  by (simp add: agentsWf_def)

lemma familyWorld_allowed: "agentAllowed memStore D ''r'' ''alice'' actionManage familyWorld = Inr (True, True)"
  by (simp add: agentAllowed_def mem_simps getAgent_def)

text \<open>
  C1: a revoke by a caller with manage authority is exact. The handler answers with the list of
  agents it revoked; afterwards every active or pending agent of the subtree is \<open>revoked\<close>, and no
  other field and no other record has changed (ancestors, siblings and agents that already exited keep
  their status); the answer lists each agent revoked once. This holds whatever the SpiceDB client
  does.
\<close>

theorem revoke_cascade_exact:
  assumes "agentsWf (wStore w)" and "agentAllowed memStore D oid u actionManage w = Inr (True, True)"
  shows "\<exists>revoked w'. handleRevoke memStore D oid u w = Some (HttpOK 200 revoked, w') \<and>
    gget (stAgents (wStore w')) =
      revokeMap (descendants (gget (stAgents (wStore w))) oid) (gget (stAgents (wStore w))) \<and>
    distinct revoked \<and>
    set revoked = {i \<in> descendants (gget (stAgents (wStore w))) oid.
      \<exists>a. gget (stAgents (wStore w)) i = Some a \<and> revocableStatus (agStatus a)}"
  using mem_revoke [OF assms] by blast

theorem revoke_cascade_exact_witness:
  "agentAllowed memStore mockClient ''r'' ''alice'' actionManage familyWorld = Inr (True, True) \<and>
   (\<exists>revoked w'. handleRevoke memStore mockClient ''r'' ''alice'' familyWorld = Some (HttpOK 200 revoked, w') \<and> distinct revoked)"
  using revoke_cascade_exact [OF familyWorld_wf familyWorld_allowed [of mockClient]] familyWorld_allowed by blast

text \<open>
  C30: revocation severs authority at once. With the in-memory SpiceDB, after a revoke exactly the
  \<open>enabled\<close> tuples of the agents it lists are gone, and none of these agents passes a \<open>work_on\<close>
  check on any resource.
\<close>

theorem revoke_severs_authority:
  assumes "handleRevoke memStore mockClient oid u w = Some (HttpOK 200 revoked, w')"
  shows "set (wSdb w') = set (wSdb w) - enabledKey ` set revoked \<and>
    (\<forall>i. enabledKey i \<in> set (wSdb w') \<longleftrightarrow> enabledKey i \<in> set (wSdb w) \<and> i \<notin> set revoked) \<and>
    (\<forall>i resource. i \<in> set revoked \<longrightarrow> CheckPermission mockClient resource ''work_on'' (agentRef i) (wSdb w') \<noteq> Inr True)"
proof -
  note set = revoke_tuples [OF assms]
  show ?thesis
    using set mock.no_enabled_no_work by (auto simp: enabledKey_inject enabledKey_def [symmetric])
qed

theorem revoke_severs_authority_witness:
  "\<exists>revoked w'. handleRevoke memStore mockClient ''r'' ''alice'' familyWorld = Some (HttpOK 200 revoked, w') \<and>
     ''r'' \<in> set revoked \<and> CheckPermission mockClient ''doc:1'' ''work_on'' (agentRef ''r'') (wSdb familyWorld) = Inr True \<and>
     CheckPermission mockClient ''doc:1'' ''work_on'' (agentRef ''r'') (wSdb w') \<noteq> Inr True"
proof -
  obtain revoked w' where r: "handleRevoke memStore mockClient ''r'' ''alice'' familyWorld = Some (HttpOK 200 revoked, w')"
    and mem: "set revoked = {i \<in> descendants (gget (stAgents (wStore familyWorld))) ''r''.
      \<exists>a. gget (stAgents (wStore familyWorld)) i = Some a \<and> revocableStatus (agStatus a)}"
    using mem_overSubtree_effect [OF familyWorld_wf familyWorld_allowed [of mockClient] not_revocable(2,1),
        of "DeleteRelationship mockClient" "''agent_revoked''"] familyWorld_allowed [of mockClient]
    by (auto simp: handleRevoke_def allowedOr404_def revokeNode_flip)
  have "''r'' \<in> set revoked" unfolding mem by (simp add: descendants_def)
  moreover have "CheckPermission mockClient ''doc:1'' ''work_on'' (agentRef ''r'') (wSdb familyWorld) = Inr True"
    by (simp add: mem_simps mockCheck_def familyWorld_def)
  ultimately show ?thesis using revoke_severs_authority [OF r] r by blast
qed

text \<open>
  C32: resume undoes revoke. When the same caller resumes right after a revoke and the organization
  is not suspended, every agent of the subtree that was active has its old record back, one that was
  pending is active, and so is one that somebody had revoked before; agents that had already exited stay as they were, and nothing outside the
  subtree changed; the \<open>enabled\<close> tuple of every resumed agent is there again.
\<close>

theorem resume_undoes_revoke:
  assumes "agentsWf (wStore w)" and "agentAllowed memStore mockClient oid u actionManage w = Inr (True, True)"
    and "handleRevoke memStore mockClient oid u w = Some (HttpOK 200 revoked, w1)"
    and "agentAllowed memStore mockClient oid u actionManage w1 = Inr (True, True)"
    and "orgIsDisabled memStore (agOrgID (getAgent oid (wStore w1))) (wStore w1) = Inr False"
  shows "\<exists>resumed w2. handleResume memStore mockClient oid u w1 = Some (HttpOK 200 resumed, w2) \<and>
    (\<forall>i a. gget (stAgents (wStore w)) i = Some a \<longrightarrow>
       gget (stAgents (wStore w2)) i = Some
         (if i \<in> descendants (gget (stAgents (wStore w))) oid \<and> (agStatus a = ''pending'' \<or> agStatus a = ''revoked'')
          then a\<lparr>agStatus := ''active''\<rparr> else a)) \<and>
    set revoked \<subseteq> set resumed \<and> enabledKey ` set resumed \<subseteq> set (wSdb w2)"
proof -
  let ?m = "gget (stAgents (wStore w))" and ?m1 = "gget (stAgents (wStore w1))"
  let ?D = "descendants ?m oid"
  have w1: "agentsWf (wStore w1)" "?m1 = revokeMap ?D ?m"
    "set revoked = {i \<in> ?D. \<exists>a. ?m i = Some a \<and> revocableStatus (agStatus a)}"
    using mem_overSubtree_effect [OF assms(1,2) not_revocable(2,1), of "DeleteRelationship mockClient" "''agent_revoked''"]
      assms(2,3)
    by (auto simp: handleRevoke_def allowedOr404_def revokeNode_flip revokeMap_def)
  obtain resumed w2 where ov:
      "overSubtree memStore (flipNode memStore (\<lambda>st. st = ''revoked'') ''active'' (WriteRelationship mockClient) ''agent_resumed'') oid w1
        = Some (HttpOK 200 resumed, w2)"
    and m2: "gget (stAgents (wStore w2)) = resumeMap (descendants ?m1 oid) ?m1"
    and res: "set resumed = {i \<in> descendants ?m1 oid. \<exists>a. ?m1 i = Some a \<and> agStatus a = ''revoked''}"
    using mem_overSubtree_effect [OF w1(1) assms(4), of "\<lambda>st. st = ''revoked''" "''active''"
        "WriteRelationship mockClient" "''agent_resumed''"]
    by (auto simp: resumeMap_def)
  have D: "descendants ?m1 oid = ?D" by (simp add: w1(2) revokeMap_def)
  have "handleResume memStore mockClient oid u w1 = Some (HttpOK 200 resumed, w2)"
    using assms(4,5) ov by (simp add: handleResume_def allowedOr404_def mem_simps resumeNode_flip)
  moreover have "enabledKey ` set resumed \<subseteq> set (wSdb w2)"
    unfolding overSubtree_sdb [OF ov] mockr.fold_write by (auto simp: enabledKey_def)
  moreover have "set revoked \<subseteq> set resumed"
    unfolding res D w1(3) by (auto simp: w1(2) revokeMap_def statusMap_def)
  moreover have "gget (stAgents (wStore w2)) i = Some
      (if i \<in> ?D \<and> (agStatus a = ''pending'' \<or> agStatus a = ''revoked'') then a\<lparr>agStatus := ''active''\<rparr> else a)"
    if "?m i = Some a" for i a
    unfolding m2 D unfolding w1(2) using that by (rule resumeMap_revokeMap)
  ultimately show ?thesis by blast
qed

theorem resume_undoes_revoke_witness:
  "\<exists>revoked w1 resumed w2. handleRevoke memStore mockClient ''r'' ''alice'' familyWorld = Some (HttpOK 200 revoked, w1) \<and>
     handleResume memStore mockClient ''r'' ''alice'' w1 = Some (HttpOK 200 resumed, w2) \<and>
     gget (stAgents (wStore w2)) ''r'' = Some (ownedAgent ''r'' [] ''active'')"
proof -
  obtain revoked w1 where r: "handleRevoke memStore mockClient ''r'' ''alice'' familyWorld = Some (HttpOK 200 revoked, w1)"
    and m1: "gget (stAgents (wStore w1)) =
      revokeMap (descendants (gget (stAgents (wStore familyWorld))) ''r'') (gget (stAgents (wStore familyWorld)))"
    using mem_overSubtree_effect [OF familyWorld_wf familyWorld_allowed [of mockClient] not_revocable(2,1),
        of "DeleteRelationship mockClient" "''agent_revoked''"] familyWorld_allowed [of mockClient]
    by (auto simp: handleRevoke_def allowedOr404_def revokeNode_flip revokeMap_def)
  have get: "getAgent ''r'' (wStore w1) = (ownedAgent ''r'' [] ''active'')\<lparr>agStatus := ''revoked''\<rparr>"
    by (simp add: getAgent_def m1 revokeMap_def statusMap_def descendants_def)
  have "agentAllowed memStore mockClient ''r'' ''alice'' actionManage w1 = Inr (True, True)"
    by (simp add: agentAllowed_def mem_simps get)
  moreover have "orgIsDisabled memStore (agOrgID (getAgent ''r'' (wStore w1))) (wStore w1) = Inr False"
    by (simp add: orgIsDisabled_def get)
  ultimately show ?thesis
    using resume_undoes_revoke [OF familyWorld_wf familyWorld_allowed r] r by fastforce
qed

text \<open>
  A caller without manage authority changes nothing. For every store and every SpiceDB client,
  when the ownership check does not yield an allowed, existing agent, the revoke, resume, subtree and dismiss
  handlers answer with an error (404, or 500 on a store error) and leave the state untouched; the
  answer to a refused caller is the one for an unknown agent.
\<close>

theorem refused_caller_changes_nothing:
  assumes "agentAllowed S D oid u actionManage w \<noteq> Inr (True, True)"
  shows "\<exists>err. err \<in> {internalError, notFound} \<and>
    handleRevoke S D oid u w = Some (err, w) \<and> handleResume S D oid u w = Some (err, w) \<and>
    handleSubtree S D oid u w = Some (err, w) \<and> handleDismiss S D oid u w = Some (err, w) \<and>
    (\<forall>allowed exists. agentAllowed S D oid u actionManage w = Inr (allowed, exists) \<longrightarrow> err = notFound)"
proof (cases "agentAllowed S D oid u actionManage w")
  case (Inl e)
  then show ?thesis
    by (simp add: handleRevoke_def handleResume_def handleSubtree_def handleDismiss_def allowedOr404_def)
next
  case (Inr v)
  moreover obtain allowed exists where "v = (allowed, exists)" by force
  ultimately show ?thesis using assms
    by (cases allowed; cases exists)
       (simp_all add: handleRevoke_def handleResume_def handleSubtree_def handleDismiss_def allowedOr404_def)
qed

theorem refused_caller_changes_nothing_witness:
  "agentAllowed memStore mockClient ''r'' ''mallory'' actionManage familyWorld \<noteq> Inr (True, True) \<and>
   handleRevoke memStore mockClient ''r'' ''mallory'' familyWorld = Some (notFound, familyWorld)"
proof -
  have v: "agentAllowed memStore mockClient ''r'' ''mallory'' actionManage familyWorld = Inr (False, True)"
    by (simp add: agentAllowed_def mem_simps getAgent_def)
  then show ?thesis
    using refused_caller_changes_nothing [of memStore mockClient "''r''" "''mallory''" familyWorld] by auto
qed

text \<open>
  Suspension cannot be undone by an owner. While the record of an agent's organization is
  disabled, resuming the agent is refused with 403 and nothing changes, for every store and client.
\<close>

theorem resume_refused_while_suspended:
  assumes "GetAgent S oid (wStore w) = Inr a" and "agOrgID a \<noteq> []"
    and "GetOrg S (agOrgID a) (wStore w) = Inr (Some org)" and "orgDisabled org"
  shows "\<exists>err. handleResume S D oid u w = Some (err, w) \<and> http_status err \<in> {403, 404} \<and>
    (agentAllowed S D oid u actionManage w = Inr (True, True) \<longrightarrow> err = HttpError 403 ''organization is disabled'')"
proof -
  have "\<exists>v. agentAllowed S D oid u actionManage w = Inr v"
    using assms(1) by (auto simp: agentAllowed_def split: sum.splits)
  then obtain v where v: "agentAllowed S D oid u actionManage w = Inr v" by blast
  then show ?thesis using assms
    by (cases v) (auto simp: handleResume_def allowedOr404_def orgIsDisabled_def)
qed

definition suspendedWorld :: "(store, Mock) world" where
  "suspendedWorld = \<lparr>wStore = lineStore\<lparr>stAgents := [(''r'', (ownedAgent ''r'' [] ''revoked'')\<lparr>agOrgID := ''acme''\<rparr>)],
       stOrgs := [(''acme'', \<lparr>orgOrgID = ''acme'', orgName = ''Acme'', orgRemovalDisposition = [], orgDisabled = True,
         orgAnchor = None, orgSubstrate = None, orgCreatedAt = 0\<rparr>)]\<rparr>,
     wSdb = [tupleKey (agentRef ''r'') ''owner'' (userRef ''alice'')]\<rparr>"

theorem resume_refused_while_suspended_witness:
  "handleResume memStore mockClient ''r'' ''alice'' suspendedWorld =
     Some (HttpError 403 ''organization is disabled'', suspendedWorld)"
proof -
  have get: "GetAgent memStore ''r'' (wStore suspendedWorld) = Inr ((ownedAgent ''r'' [] ''revoked'')\<lparr>agOrgID := ''acme''\<rparr>)"
    by (simp add: suspendedWorld_def mem_simps getAgent_def)
  have "agentAllowed memStore mockClient ''r'' ''alice'' actionManage suspendedWorld = Inr (True, True)"
    using get by (simp add: agentAllowed_def mockClient_simps mockCheck_def suspendedWorld_def actionManage_def)
  then show ?thesis
    using resume_refused_while_suspended [OF get, of _ mockClient "''alice''"]
    by (auto simp: suspendedWorld_def mem_simps getOrg_def)
qed

end
