(* ===== verification/SpawnPolicy.thy ===== *)
theory SpawnPolicy
  imports Lineage
begin

text \<open>
  The two policy decisions of the registry (\<open>cmd/registry/main.go\<close>): the delegation policy that
  Keycloak asks for at token-exchange time, decided from template names alone, and the spawn policy the
  orchestrator asks for before it starts a child of a running agent.
\<close>

section \<open>Handlers\<close>

record DelegationDecision =
  ddAllowed :: bool
  ddGrantableScopes :: "string slice"
  ddMaxDepth :: int

definition handleDelegationPolicy :: "'s Store \<Rightarrow> string \<Rightarrow> string \<Rightarrow> 's \<Rightarrow> DelegationDecision http" where
  "handleDelegationPolicy S parentType childType s =
     (let deny = \<lparr>ddAllowed = False, ddGrantableScopes = Some [], ddMaxDepth = 0\<rparr>
      in case GetTemplate S parentType s of
           Inl e \<Rightarrow> HttpError 500 ''internal error''
         | Inr None \<Rightarrow> HttpOK 200 deny
         | Inr (Some tpl) \<Rightarrow>
             let pol = tplDelegation tpl
             in if childType \<in> set (delAllowedChildTypes pol)
                then HttpOK 200 \<lparr>ddAllowed = True, ddGrantableScopes = nonNil (delGrantableScopes pol),
                       ddMaxDepth = delMaxDepth pol\<rparr>
                else HttpOK 200 deny)"

text \<open>
  The child's position is one below the parent's. The answer is \<^term>\<open>None\<close> where the walk of
  \<open>depth\<close> would not end.
\<close>

definition handleSpawnPolicy :: "'s Store \<Rightarrow> string \<Rightarrow> string \<Rightarrow> 's \<Rightarrow> SpawnDecision http option" where
  "handleSpawnPolicy S parentID childType s =
     (let deny = (\<lambda>reason. Some (HttpOK 200 \<lparr>sdAllowed = False, sdReason = reason, sdConsentRequired = False\<rparr>))
      in case GetAgent S parentID s of
           Inl e \<Rightarrow> Some (HttpError 500 ''internal error'')
         | Inr rec \<Rightarrow>
             if agAgentID rec = [] then deny ''unknown parent''
             else case GetTemplate S (agAgentType rec) s of
                 Inl e \<Rightarrow> Some (HttpError 500 ''internal error'')
               | Inr None \<Rightarrow> deny ''parent template not found''
               | Inr (Some tpl) \<Rightarrow>
                   let pol = tplDelegation tpl;
                       allow = Some (HttpOK 200 \<lparr>sdAllowed = True, sdReason = [],
                         sdConsentRequired = (case gget (delChildPolicies pol) childType of
                            None \<Rightarrow> False | Some cp \<Rightarrow> cspRequireUserConsent cp)\<rparr>)
                   in if childType \<notin> set (delAllowedChildTypes pol)
                      then deny (agAgentType rec @ '' may not spawn '' @ childType)
                      else if delMaxDepth pol > 0 then
                        (case depth S parentID s of
                           None \<Rightarrow> None
                         | Some (Inl e) \<Rightarrow> Some (HttpError 500 ''internal error'')
                         | Some (Inr parentDepth) \<Rightarrow>
                             if int parentDepth + 1 > delMaxDepth pol
                             then deny (''max delegation depth '' @ show_int (delMaxDepth pol) @ '' reached'')
                             else allow)
                      else allow)"

section \<open>Properties\<close>

text \<open>Fixtures: a template that may spawn itself three levels deep, with a consent gate.\<close>

definition workerTemplate :: AgentTemplate where
  "workerTemplate =
     \<lparr>tplAgentType = ''worker'', tplVersion = ''v1'', tplStatus = TemplateStatusActive,
      tplMeta = \<lparr>metaDisplayName = [], metaDescription = []\<rparr>,
      tplRuntime = \<lparr>rtImage = ''img'', rtResources = \<lparr>resCPULimit = [], resMemoryLimit = []\<rparr>,
        rtEnvDefaults = [], rtLifecycle = ''task'', rtSupportsChat = False\<rparr>,
      tplAuthZ = \<lparr>azSpiceDBRelations = []\<rparr>,
      tplDelegation = \<lparr>delAllowedChildTypes = [''worker''], delGrantableScopes = None, delMaxDepth = 3,
        delChildPolicies = [(''worker'', \<lparr>cspRequireUserConsent = True, cspConsentTTL = ''24h''\<rparr>)]\<rparr>,
      tplRequiresTenant = False, tplOrgID = [], tplOAuthScopes = []\<rparr>"

definition chainStore :: store where
  "chainStore = lineStore\<lparr>stTemplates := [(''worker'', workerTemplate)],
     stAgents := [(''r'', lineAgent ''r'' []), (''m'', lineAgent ''m'' ''r'')]\<rparr>"

lemma chainStore_simps [simp]:
  "stAgents chainStore = [(''r'', lineAgent ''r'' []), (''m'', lineAgent ''m'' ''r'')]"
  "stTemplates chainStore = [(''worker'', workerTemplate)]"
  by (simp_all add: chainStore_def)

lemma chainStore_wf: "agentsWf chainStore"
  by (simp add: agentsWf_def)

lemma chainStore_depth: "depth memStore ''m'' chainStore = Some (Inr 2)"
  by (simp add: depth_def depthLoop.simps mem_simps getAgent_def)

lemma mem_spawnPolicy:
  assumes "agentsWf s"
  shows "\<exists>d. handleSpawnPolicy memStore p ct s = Some (HttpOK 200 d) \<and>
     (sdAllowed d \<longleftrightarrow> (\<exists>a tpl n. gget (stAgents s) p = Some a \<and> p \<noteq> [] \<and>
        gget (stTemplates s) (agAgentType a) = Some tpl \<and>
        ct \<in> set (delAllowedChildTypes (tplDelegation tpl)) \<and>
        depth memStore p s = Some (Inr n) \<and>
        (delMaxDepth (tplDelegation tpl) > 0 \<longrightarrow> int n < delMaxDepth (tplDelegation tpl)))) \<and>
     (sdConsentRequired d \<longrightarrow> sdAllowed d \<and> (\<exists>a tpl cp. gget (stAgents s) p = Some a \<and>
        gget (stTemplates s) (agAgentType a) = Some tpl \<and>
        gget (delChildPolicies (tplDelegation tpl)) ct = Some cp \<and> cspRequireUserConsent cp))"
proof -
  obtain q where q: "depth memStore p s = Some q" using mem.depth_bound [OF assms] by blast
  have "\<exists>n. q = Inr n" using q unfolding depth_def by (cases q) (auto dest: depthLoop_error simp: mem_simps)
  then obtain n where n: "depth memStore p s = Some (Inr n)" using q by blast
  show ?thesis
  proof (cases "gget (stAgents s) p")
    case None
    then show ?thesis by (simp add: handleSpawnPolicy_def mem_simps getAgent_def)
  next
    case (Some a)
    have id: "agAgentID a = p" by (rule agentsWf_id [OF assms Some])
    show ?thesis
      using Some n
      by (cases "gget (stTemplates s) (agAgentType a)")
         (auto simp: handleSpawnPolicy_def mem_simps getAgent_def getTemplate_def id Let_def split: option.splits)
  qed
qed

text \<open>
  The spawn policy denies by default. On the in-memory store the handler always answers, and it
  allows a spawn exactly when the parent is a registered agent whose template exists, lists the child
  type and, if it sets a positive depth limit, leaves room for one more level; the consent gate it
  reports is the one of the template.
\<close>

theorem spawn_policy_allows_iff:
  assumes "agentsWf s"
  shows "\<exists>d. handleSpawnPolicy memStore p ct s = Some (HttpOK 200 d) \<and>
     (sdAllowed d \<longleftrightarrow> (\<exists>a tpl n. gget (stAgents s) p = Some a \<and> p \<noteq> [] \<and>
        gget (stTemplates s) (agAgentType a) = Some tpl \<and>
        ct \<in> set (delAllowedChildTypes (tplDelegation tpl)) \<and>
        depth memStore p s = Some (Inr n) \<and>
        (delMaxDepth (tplDelegation tpl) > 0 \<longrightarrow> int n < delMaxDepth (tplDelegation tpl)))) \<and>
     (sdConsentRequired d \<longrightarrow> sdAllowed d \<and> (\<exists>a tpl cp. gget (stAgents s) p = Some a \<and>
        gget (stTemplates s) (agAgentType a) = Some tpl \<and>
        gget (delChildPolicies (tplDelegation tpl)) ct = Some cp \<and> cspRequireUserConsent cp))"
  by (rule mem_spawnPolicy [OF assms])

theorem spawn_policy_allows_iff_witness:
  "agentsWf chainStore \<and> (\<exists>d. handleSpawnPolicy memStore ''m'' ''worker'' chainStore = Some (HttpOK 200 d) \<and> sdAllowed d)"
  using spawn_policy_allows_iff [OF chainStore_wf, of "''m''" "''worker''"] chainStore_depth
  by (auto simp: workerTemplate_def chainStore_wf)

text \<open>
  C34: the depth cap is effective. When the handler allowed the spawn and the child is then
  registered under that parent with an id that was free, the child's own depth is at most the
  limit of the parent's template.
\<close>

theorem spawn_depth_capped:
  assumes "agentsWf s"
    and "handleSpawnPolicy memStore p ct s = Some (HttpOK 200 d)" and "sdAllowed d"
    and "gget (stAgents s) p = Some a" and "gget (stTemplates s) (agAgentType a) = Some tpl"
    and "delMaxDepth (tplDelegation tpl) > 0"
    and "gget (stAgents s) (agAgentID child) = None" and "agAgentID child \<noteq> []" and "agParentID child = p"
  shows "\<exists>n. depth memStore (agAgentID child) (registerAgent child s) = Some (Inr n) \<and>
     2 \<le> n \<and> int n \<le> delMaxDepth (tplDelegation tpl)"
proof -
  have id: "agAgentID a = p" by (rule agentsWf_id [OF assms(1,4)])
  then have pne: "p \<noteq> []" using assms(2,3,4)
    by (auto simp: handleSpawnPolicy_def mem_simps getAgent_def Let_def)
  obtain n where n: "depth memStore p s = Some (Inr n)" "int n < delMaxDepth (tplDelegation tpl)"
    using assms(2-6) id
    by (auto simp: handleSpawnPolicy_def mem_simps getAgent_def getTemplate_def Let_def
             split: if_splits option.splits sum.splits)
  have "n \<noteq> 0" using n(1) assms(4) id pne depthLoop_registered [of "\<lambda>i. GetAgent memStore i s" p]
    by (auto simp: depth_def mem_simps getAgent_def)
  moreover have "depth memStore (agAgentID child) (registerAgent child s) = Some (Inr (Suc n))"
    by (rule depth_fresh) (use assms n in auto)
  ultimately show ?thesis using n(2) by (intro exI [of _ "Suc n"]) auto
qed

theorem spawn_depth_capped_witness:
  "\<exists>d n. handleSpawnPolicy memStore ''m'' ''worker'' chainStore = Some (HttpOK 200 d) \<and> sdAllowed d \<and>
     depth memStore ''x'' (registerAgent (lineAgent ''x'' ''m'') chainStore) = Some (Inr n) \<and> int n \<le> 3"
proof -
  define d where "d = \<lparr>sdAllowed = True, sdReason = [], sdConsentRequired = True\<rparr>"
  have h: "handleSpawnPolicy memStore ''m'' ''worker'' chainStore = Some (HttpOK 200 d)"
    using chainStore_depth
    by (simp add: handleSpawnPolicy_def mem_simps getAgent_def getTemplate_def workerTemplate_def d_def)
  show ?thesis
    using spawn_depth_capped [OF chainStore_wf h, where child = "lineAgent ''x'' ''m''" and tpl = workerTemplate]
      chainStore_depth h
    by (auto simp: d_def workerTemplate_def)
qed

end
