(* ===== verification/Agents.thy ===== *)
theory Agents
  imports Revocation SpawnPolicy
begin

text \<open>
  The agent records' handlers of \<open>cmd/registry/main.go\<close>: preregistration by the orchestrator, the
  self-registration of a sidecar, the status update, the event log and the reads. \<open>verified\<close> is the
  verdict of the configured \<open>registrant.Verifier\<close> on the request and \<open>cpOK\<close> that of the control-plane
  authenticator; both depend on the request's credentials only.
\<close>

section \<open>Handlers\<close>

definition validAgentIDByte :: "char \<Rightarrow> bool" where
  "validAgentIDByte c = (is_alnum c \<or> c \<in> {CHR ''.'', CHR ''_'', CHR ''-''})"

definition validAgentID :: "string \<Rightarrow> bool" where
  "validAgentID s = (s \<noteq> [] \<and> list_all validAgentIDByte s)"

text \<open>An audit event whose write error is ignored.\<close>

definition audit ::
  "'s Store \<Rightarrow> string \<Rightarrow> Event \<Rightarrow> ('s, 'd, 'z) world_scheme \<Rightarrow> ('s, 'd, 'z) world_scheme" where
  "audit S oid e w = w\<lparr>wStore := snd (AppendEvent S oid e (wStore w))\<rparr>"

definition handlePreregister ::
  "'s Store \<Rightarrow> 'd SpiceDB \<Rightarrow> AgentRecord result \<Rightarrow> ('s, 'd, 'z) world_scheme \<Rightarrow>
     unit http \<times> ('s, 'd, 'z) world_scheme" where
  "handlePreregister S D body w =
     (case body of
        Inl e \<Rightarrow> (HttpError 400 (errString e), w)
      | Inr rec \<Rightarrow>
          if agAgentID rec = [] then (HttpError 400 ''agentId required'', w)
          else if rejectInvalidUserID (agUserID rec) then (HttpError 400 ''invalid userId'', w)
          else if agOrgID rec \<noteq> [] \<and> \<not> validAgentID (agOrgID rec) then (HttpError 400 ''invalid orgId'', w)
          else case orgIsDisabled S (agOrgID rec) (wStore w) of
              Inl e \<Rightarrow> (internalError, w)
            | Inr disabled \<Rightarrow>
                if disabled then (HttpError 403 ''organization is disabled'', w)
                else if \<not> ValidPlacement (agPlacement rec) then (HttpError 400 ''invalid placement'', w)
                else case RegisterAgent S (rec\<lparr>agStatus := ''pending''\<rparr>) (wStore w) of
                    (Some e, s1) \<Rightarrow> (internalError, w\<lparr>wStore := s1\<rparr>)
                  | (None, s1) \<Rightarrow>
                      let (tuples, d1) = writeAuthorityTuples D (agAgentID rec) (agUserID rec) (agOrgID rec) (wSdb w);
                          w1 = audit S (agAgentID rec) (newEvent SourceOrchestrator ''workload_spawning''
                                 (ObjPayload [(''agentId'', agAgentID rec), (''agentType'', agAgentType rec)]))
                                 (w\<lparr>wStore := s1, wSdb := d1\<rparr>);
                          w2 = (if tuples \<noteq> []
                                then audit S (agAgentID rec) (newEvent SourceRegistry ''spicedb_relations_written''
                                       (TuplesPayload tuples)) w1
                                else w1)
                      in (HttpOK 201 (), w2))"

record registerReq =
  rqAgentType :: string
  rqTenantID :: string
  rqUserID :: string
  rqParentID :: string

text \<open>The template relations of a registering agent; a tuple is listed also when its write failed.\<close>

fun writeRelations ::
  "'d SpiceDB \<Rightarrow> string \<Rightarrow> string \<Rightarrow> SpiceDBRelationTemplate list \<Rightarrow> 'd \<Rightarrow> authzTuple list \<times> 'd" where
  "writeRelations D agentID tenantID [] d = ([], d)"
| "writeRelations D agentID tenantID (rel # rels) d =
     (if tenantID = [] \<and> referencesTenant rel then writeRelations D agentID tenantID rels d
      else let res = substitute (relResource rel) agentID tenantID;
               sub = substitute (relSubject rel) agentID tenantID;
               d1 = snd (WriteRelationship D res (relRelation rel) sub d);
               (ts, d2) = writeRelations D agentID tenantID rels d1
           in (\<lparr>atResource = res, atRelation = relRelation rel, atSubject = sub\<rparr> # ts, d2))"

text \<open>The record a registration writes, from the request, the template and the stored record.\<close>

definition registeredRecord :: "string \<Rightarrow> registerReq \<Rightarrow> AgentTemplate \<Rightarrow> AgentRecord \<Rightarrow> AgentRecord" where
  "registeredRecord agentID req tpl existing =
     \<lparr>agAgentID = agentID, agAgentType = rqAgentType req, agTenantID = rqTenantID req,
      agUserID = (if agAgentID existing \<noteq> [] then agUserID existing else rqUserID req),
      agStatus = ''active'', agLifecycle = rtLifecycle (tplRuntime tpl),
      agSupportsChat = rtSupportsChat (tplRuntime tpl), agDismissed = False,
      agParentID = (if agAgentID existing \<noteq> [] then agParentID existing else rqParentID req),
      agOrgID = agOrgID existing, agPlacement = agPlacement existing, agConsentRequired = False\<rparr>"

text \<open>The writes of a registration that was admitted.\<close>

definition registerWrites ::
  "'s Store \<Rightarrow> 'd SpiceDB \<Rightarrow> AgentTemplate \<Rightarrow> string \<Rightarrow> AgentRecord \<Rightarrow> ('s, 'd, 'z) world_scheme \<Rightarrow>
     AgentRecord http \<times> ('s, 'd, 'z) world_scheme" where
  "registerWrites S D tpl tenantID rec w =
     (case RegisterAgent S rec (wStore w) of
        (Some e, s1) \<Rightarrow> (internalError, w\<lparr>wStore := s1\<rparr>)
      | (None, s1) \<Rightarrow>
          let oid = agAgentID rec;
              w1 = audit S oid (newEvent SourceRegistry ''registry_record_created'' (RecordPayload rec)) (w\<lparr>wStore := s1\<rparr>);
              (ts1, d1) = writeRelations D oid tenantID (azSpiceDBRelations (tplAuthZ tpl)) (wSdb w1);
              d2 = snd (WriteRelationship D (agentRef oid) ''enabled'' (agentRef oid) d1);
              ts2 = [\<lparr>atResource = agentRef oid, atRelation = ''enabled'', atSubject = agentRef oid\<rparr>];
              (ts3, d3) = writeAuthorityTuples D oid (agUserID rec) (agOrgID rec) d2
          in (HttpOK 201 rec,
              audit S oid (newEvent SourceRegistry ''spicedb_relations_written'' (TuplesPayload (ts1 @ ts2 @ ts3)))
                (w1\<lparr>wSdb := d3\<rparr>)))"

definition handleSelfRegister ::
  "'s Store \<Rightarrow> 'd SpiceDB \<Rightarrow> Identity result \<Rightarrow> registerReq result \<Rightarrow> ('s, 'd, 'z) world_scheme \<Rightarrow>
     AgentRecord http \<times> ('s, 'd, 'z) world_scheme" where
  "handleSelfRegister S D verified body w =
     (case verified of
        Inl e \<Rightarrow> (HttpError 401 ''unauthorized'', w)
      | Inr identity \<Rightarrow>
          let agentID = idAgentID identity
          in if agentID = [] then (HttpError 500 ''registrant verifier returned empty agentID'', w)
             else if \<not> validAgentID agentID then (HttpError 400 ''invalid agent id'', w)
             else case body of
                 Inl e \<Rightarrow> (HttpError 400 (errString e), w)
               | Inr req \<Rightarrow>
                   if rejectInvalidUserID (rqUserID req) then (HttpError 400 ''invalid userId'', w)
                   else case GetTemplate S (rqAgentType req) (wStore w) of
                       Inl e \<Rightarrow> (internalError, w)
                     | Inr None \<Rightarrow> (HttpError 400 ''unknown agent type'', w)
                     | Inr (Some tpl) \<Rightarrow>
                         (case GetAgent S agentID (wStore w) of
                            Inl e \<Rightarrow> (internalError, w)
                          | Inr existing \<Rightarrow>
                              if agAgentID existing \<noteq> [] \<and> agStatus existing \<in> {''completed'', ''failed'', ''revoked''}
                              then (HttpError 409 (''agent '' @ agentID @ '' is '' @ agStatus existing @
                                      ''; re-registration refused''), w)
                              else case orgIsDisabled S (agOrgID existing) (wStore w) of
                                  Inl e \<Rightarrow> (internalError, w)
                                | Inr disabled \<Rightarrow>
                                    if disabled then (HttpError 403 ''organization is disabled'', w)
                                    else registerWrites S D tpl (rqTenantID req)
                                           (registeredRecord agentID req tpl existing) w))"

definition handleListAgents :: "'s Store \<Rightarrow> 's \<Rightarrow> AgentRecord list http" where
  "handleListAgents S s = (case ListAgents S s of Inl e \<Rightarrow> internalError | Inr as \<Rightarrow> HttpOK 200 as)"

definition handleGetAgent :: "'s Store \<Rightarrow> string \<Rightarrow> 's \<Rightarrow> AgentRecord http" where
  "handleGetAgent S oid s =
     (case GetAgent S oid s of
        Inl e \<Rightarrow> internalError
      | Inr rec \<Rightarrow> if agAgentID rec = [] then notFound else HttpOK 200 rec)"

definition handleGetEvents :: "'s Store \<Rightarrow> string \<Rightarrow> 's \<Rightarrow> Event list http" where
  "handleGetEvents S oid s = (case GetEvents S oid s of Inl e \<Rightarrow> internalError | Inr es \<Rightarrow> HttpOK 200 es)"

definition handlePostEvent ::
  "'s Store \<Rightarrow> bool \<Rightarrow> Identity result \<Rightarrow> string \<Rightarrow> Event result \<Rightarrow> ('s, 'd, 'z) world_scheme \<Rightarrow>
     Event http \<times> ('s, 'd, 'z) world_scheme" where
  "handlePostEvent S cpOK verified agentID body w =
     (let post = (case body of
                    Inl e \<Rightarrow> (HttpError 400 (errString e), w)
                  | Inr ev \<Rightarrow>
                      (case AppendEvent S agentID ev (wStore w) of
                         (Inl e, s1) \<Rightarrow> (internalError, w\<lparr>wStore := s1\<rparr>)
                       | (Inr stored, s1) \<Rightarrow> (HttpOK 201 stored, w\<lparr>wStore := s1\<rparr>)))
      in if cpOK then post
         else case verified of
             Inl e \<Rightarrow> (HttpError 401 ''unauthorized'', w)
           | Inr ident \<Rightarrow>
               if idAgentID ident = agentID then post
               else case GetAgent S (idAgentID ident) (wStore w) of
                   Inl e \<Rightarrow> (internalError, w)
                 | Inr caller \<Rightarrow> if agParentID caller \<noteq> agentID then (HttpError 401 ''unauthorized'', w) else post)"

text \<open>The irreversible cleanup of an agent that has completed or failed.\<close>

definition terminalCleanup ::
  "'s Store \<Rightarrow> 'd SpiceDB \<Rightarrow> string \<Rightarrow> ('s, 'd, 'z) world_scheme \<Rightarrow> unit http \<times> ('s, 'd, 'z) world_scheme" where
  "terminalCleanup S D agentID w =
     (case GetAgent S agentID (wStore w) of
        Inl e \<Rightarrow> (internalError, w)
      | Inr rec \<Rightarrow>
          (case GetTemplate S (agAgentType rec) (wStore w) of
             Inl e \<Rightarrow> (internalError, w)
           | Inr tpl \<Rightarrow>
               let resTypes = (case tpl of None \<Rightarrow> [] | Some t \<Rightarrow> relationResourceTypes t (agTenantID rec \<noteq> []));
                   d1 = snd (DeleteAgentRelationships D agentID resTypes (wSdb w));
                   d2 = snd (DeleteRelationship D (agentRef agentID) ''enabled'' (agentRef agentID) d1)
               in (HttpOK 200 (), w\<lparr>wSdb := d2\<rparr>)))"

definition handlePatchAgent ::
  "'s Store \<Rightarrow> 'd SpiceDB \<Rightarrow> bool \<Rightarrow> Identity result \<Rightarrow> string \<Rightarrow> string result \<Rightarrow> ('s, 'd, 'z) world_scheme \<Rightarrow>
     unit http \<times> ('s, 'd, 'z) world_scheme" where
  "handlePatchAgent S D cpOK verified agentID body w =
     (if \<not> cpOK \<and> (case verified of Inl e \<Rightarrow> True | Inr ident \<Rightarrow> idAgentID ident \<noteq> agentID)
      then (HttpError 401 ''unauthorized'', w)
      else case body of
          Inl e \<Rightarrow> (HttpError 400 (errString e), w)
        | Inr status \<Rightarrow>
            (case UpdateAgentStatus S agentID status (wStore w) of
               (Inl e, s1) \<Rightarrow> (internalError, w\<lparr>wStore := s1\<rparr>)
             | (Inr ok, s1) \<Rightarrow>
                 let w1 = w\<lparr>wStore := s1\<rparr>
                 in if \<not> ok then (notFound, w1)
                    else if status = ''completed'' \<or> status = ''failed'' then terminalCleanup S D agentID w1
                    else (HttpOK 200 (), w1)))"

section \<open>Frames\<close>

lemma appendEvent_frame [simp]:
  "stTemplates (snd (appendEvent oid e s)) = stTemplates s" "stOrgs (snd (appendEvent oid e s)) = stOrgs s"
  "stConsents (snd (appendEvent oid e s)) = stConsents s"
  "stConsentRequests (snd (appendEvent oid e s)) = stConsentRequests s"
  by (simp_all add: appendEvent_def timeNow_def Let_def)

lemma audit_frame [simp]:
  "wSdb (audit S oid e w) = wSdb w"
  "stAgents (wStore (audit memStore oid e w)) = stAgents (wStore w)"
  "stTemplates (wStore (audit memStore oid e w)) = stTemplates (wStore w)"
  "stOrgs (wStore (audit memStore oid e w)) = stOrgs (wStore w)"
  by (simp_all add: audit_def mem_simps)

lemma getAgent_audit [simp]: "getAgent i (wStore (audit memStore oid e w)) = getAgent i (wStore w)"
  by (simp add: getAgent_def)

lemma registerAgent_frame [simp]:
  "stAgents (registerAgent r s) = gput (agAgentID r) r (stAgents s)"
  "stTemplates (registerAgent r s) = stTemplates s" "stOrgs (registerAgent r s) = stOrgs s"
  by (simp_all add: registerAgent_def)

section \<open>Tuples written for an agent\<close>

lemma mock_writeTuple:
  "set (snd (writeTuple mockClient r l u d)) = insert (tupleKey r l u) (set d)"
  "fst (writeTuple mockClient r l u d) = [\<lparr>atResource = r, atRelation = l, atSubject = u\<rparr>]"
  by (simp_all add: writeTuple_def mem_simps mockWrite_def)

lemma mock_authority:
  "set (snd (writeAuthorityTuples mockClient oid u org d)) =
     set d \<union> (if u \<noteq> [] then {tupleKey (agentRef oid) ''owner'' (userRef u)} else {})
           \<union> (if org \<noteq> [] then {tupleKey (agentRef oid) ''org'' (orgRef org)} else {})"
  by (auto simp: writeAuthorityTuples_def mock_writeTuple Let_def split: prod.splits if_splits)
     (metis mock_writeTuple(1) insert_iff snd_conv)+

lemma mock_relations: "set d \<subseteq> set (snd (writeRelations mockClient oid ten rels d))"
proof (induction rels arbitrary: d)
  case (Cons rel rels)
  show ?case
    using Cons.IH mockr.write_adds
    by (auto simp: Let_def split: prod.splits) (metis (no_types, lifting) insertCI snd_conv subset_iff)+
qed simp

lemma mock_relations_written:
  "rel \<in> set rels \<Longrightarrow> ten \<noteq> [] \<or> \<not> referencesTenant rel \<Longrightarrow>
     tupleKey (substitute (relResource rel) oid ten) (relRelation rel) (substitute (relSubject rel) oid ten)
       \<in> set (snd (writeRelations mockClient oid ten rels d))"
proof (induction rels arbitrary: d)
  case (Cons r rels)
  show ?case
  proof (cases "ten = [] \<and> referencesTenant r")
    case True
    then show ?thesis using Cons by auto
  next
    case False
    let ?d1 = "snd (WriteRelationship mockClient (substitute (relResource r) oid ten) (relRelation r)
                 (substitute (relSubject r) oid ten) d)"
    have "snd (writeRelations mockClient oid ten (r # rels) d) = snd (writeRelations mockClient oid ten rels ?d1)"
      using False by (auto simp: Let_def split: prod.splits)
    moreover have "set ?d1 \<subseteq> set (snd (writeRelations mockClient oid ten rels ?d1))" by (rule mock_relations)
    ultimately show ?thesis using Cons by (auto simp: mockr.write_adds)
  qed
qed simp

lemma registerWrites_sdb:
  "registerWrites memStore D tpl ten rec w = (HttpOK n r, w') \<Longrightarrow>
     wSdb w' = snd (writeAuthorityTuples D (agAgentID rec) (agUserID rec) (agOrgID rec)
       (snd (WriteRelationship D (agentRef (agAgentID rec)) ''enabled'' (agentRef (agAgentID rec))
         (snd (writeRelations D (agAgentID rec) ten (azSpiceDBRelations (tplAuthZ tpl)) (wSdb w))))))"
  by (auto simp: registerWrites_def mem_simps Let_def split: prod.splits)

lemma terminalCleanup_mem:
  "terminalCleanup memStore mockClient oid w = (HttpOK n x, w') \<Longrightarrow>
     \<exists>ts. wStore w' = wStore w \<and>
       wSdb w' = snd (mockDelete (agentRef oid) ''enabled'' (agentRef oid) (snd (mockDeleteAgent oid ts (wSdb w))))"
  by (auto simp: terminalCleanup_def mem_simps Let_def)

section \<open>Properties\<close>

lemma orgOf_owner:
  "tupleKey r ''owner'' u \<in> set d \<Longrightarrow> CheckPermission mockClient r actionManage u d = Inr True"
  by (simp add: mem_simps mockCheck_def actionManage_def)

lemma preregister_mem:
  assumes "handlePreregister memStore D (Inr rec) w = (HttpOK n (), w')"
  shows "n = 201 \<and> stAgents (wStore w') = gput (agAgentID rec) (rec\<lparr>agStatus := ''pending''\<rparr>) (stAgents (wStore w)) \<and>
    stTemplates (wStore w') = stTemplates (wStore w) \<and>
    wSdb w' = snd (writeAuthorityTuples D (agAgentID rec) (agUserID rec) (agOrgID rec) (wSdb w)) \<and>
    agAgentID rec \<noteq> [] \<and> orgIsDisabled memStore (agOrgID rec) (wStore w) = Inr False"
proof -
  obtain tuples d1 where t: "writeAuthorityTuples D (agAgentID rec) (agUserID rec) (agOrgID rec) (wSdb w) = (tuples, d1)"
    by force
  have guards: "agAgentID rec \<noteq> []" "orgIsDisabled memStore (agOrgID rec) (wStore w) = Inr False"
    using assms by (auto simp: handlePreregister_def split: if_splits sum.splits)
  then show ?thesis using assms t by (auto simp: handlePreregister_def mem_simps Let_def split: if_splits)
qed

lemma preregister_manage:
  assumes "handlePreregister memStore mockClient (Inr rec) w = (HttpOK n (), w')" and "agUserID rec \<noteq> []"
  shows "agentAllowed memStore mockClient (agAgentID rec) (agUserID rec) actionManage w' = Inr (True, True)"
proof -
  note p = preregister_mem [OF assms(1)]
  have "CheckPermission mockClient (agentRef (agAgentID rec)) actionManage (userRef (agUserID rec)) (wSdb w') = Inr True"
    using mock_authority [of "agAgentID rec" "agUserID rec" "agOrgID rec" "wSdb w"] assms(2) p by (intro orgOf_owner) simp
  then show ?thesis using p assms(2) by (auto simp: agentAllowed_def mem_simps getAgent_def gomap_simps)
qed

text \<open>
  An owner can manage an agent from the moment it is preregistered. When the handler answers 201,
  the record is stored as \<open>pending\<close> with the fields of the request, no other record changed, and, with the
  in-memory SpiceDB, the named user passes the manage check, for an agent of an organization as for
  one without.
\<close>

theorem preregister_owner_manages:
  assumes "handlePreregister memStore mockClient (Inr rec) w = (HttpOK n (), w')"
  shows "n = 201 \<and> gget (stAgents (wStore w')) = (gget (stAgents (wStore w)))(agAgentID rec \<mapsto> rec\<lparr>agStatus := ''pending''\<rparr>) \<and>
    (agUserID rec \<noteq> [] \<longrightarrow> agentAllowed memStore mockClient (agAgentID rec) (agUserID rec) actionManage w' = Inr (True, True)) \<and>
    orgIsDisabled memStore (agOrgID rec) (wStore w) = Inr False"
  using preregister_mem [OF assms] preregister_manage [OF assms] by (auto simp: gomap_simps fun_eq_iff)

definition preRecord :: AgentRecord where
  "preRecord = (lineAgent ''w1'' [])\<lparr>agUserID := ''alice'', agOrgID := ''acme'', agConsentRequired := True\<rparr>"

definition emptyWorld :: "(store, Mock) world" where
  "emptyWorld = \<lparr>wStore = lineStore\<lparr>stAgents := [], stTemplates := [(''worker'', workerTemplate)]\<rparr>, wSdb = []\<rparr>"

lemma emptyWorld_simps [simp]:
  "stAgents (wStore emptyWorld) = []" "stTemplates (wStore emptyWorld) = [(''worker'', workerTemplate)]"
  "stOrgs (wStore emptyWorld) = []" "wSdb emptyWorld = []"
  by (simp_all add: emptyWorld_def)

lemma preRecord_simps [simp]:
  "agAgentID preRecord = ''w1''" "agUserID preRecord = ''alice''" "agOrgID preRecord = ''acme''"
  "agPlacement preRecord = []" "agConsentRequired preRecord"
  by (simp_all add: preRecord_def lineAgent_def zeroAgent_def)

lemma demo_valid [simp]: "validAgentID ''w1''" "validAgentID ''acme''" "\<not> rejectInvalidUserID ''alice''" "\<not> rejectInvalidUserID []"
  by (simp_all add: validAgentID_def validAgentIDByte_def is_alnum_def is_lower_def is_upper_def is_digit_def in_range_def
        rejectInvalidUserID_def ValidUserID_def userIDChar_def)

lemma emptyWorld_preregister:
  "\<exists>w'. handlePreregister memStore mockClient (Inr preRecord) emptyWorld = (HttpOK 201 (), w')"
  by (auto simp: handlePreregister_def mem_simps orgIsDisabled_def getOrg_def ValidPlacement_def Let_def split: prod.splits)

theorem preregister_owner_manages_witness:
  "\<exists>w'. handlePreregister memStore mockClient (Inr preRecord) emptyWorld = (HttpOK 201 (), w') \<and>
     agentAllowed memStore mockClient ''w1'' ''alice'' actionManage w' = Inr (True, True)"
  using emptyWorld_preregister preregister_owner_manages [of preRecord emptyWorld] by fastforce

lemma selfRegister_admitted:
  assumes "handleSelfRegister memStore D verified body w = (HttpOK n rec, w')"
  shows "\<exists>ident req tpl. verified = Inr ident \<and> body = Inr req \<and> validAgentID (idAgentID ident) \<and>
    gget (stTemplates (wStore w)) (rqAgentType req) = Some tpl \<and>
    (let existing = getAgent (idAgentID ident) (wStore w) in
       \<not> (agAgentID existing \<noteq> [] \<and> agStatus existing \<in> {''completed'', ''failed'', ''revoked''}) \<and>
       orgIsDisabled memStore (agOrgID existing) (wStore w) = Inr False \<and>
       registerWrites memStore D tpl (rqTenantID req) (registeredRecord (idAgentID ident) req tpl existing) w = (HttpOK n rec, w'))"
  using assms
  by (auto simp: handleSelfRegister_def mem_simps getTemplate_def Let_def split: sum.splits if_splits option.splits)

lemma registerWrites_mem:
  "registerWrites memStore D tpl ten rec w = (HttpOK n r, w') \<Longrightarrow>
     n = 201 \<and> r = rec \<and> stAgents (wStore w') = gput (agAgentID rec) rec (stAgents (wStore w))"
  by (auto simp: registerWrites_def mem_simps Let_def split: prod.splits)

lemma registeredRecord_simps [simp]:
  "agAgentID (registeredRecord oid req tpl a) = oid" "agStatus (registeredRecord oid req tpl a) = ''active''"
  "agOrgID (registeredRecord oid req tpl a) = agOrgID a" "agPlacement (registeredRecord oid req tpl a) = agPlacement a"
  "agConsentRequired (registeredRecord oid req tpl a) = False" "agDismissed (registeredRecord oid req tpl a) = False"
  "agUserID (registeredRecord oid req tpl a) = (if agAgentID a \<noteq> [] then agUserID a else rqUserID req)"
  "agParentID (registeredRecord oid req tpl a) = (if agAgentID a \<noteq> [] then agParentID a else rqParentID req)"
  by (simp_all add: registeredRecord_def)

text \<open>
  C2: a sidecar proves its own id and nothing else. When a self-registration is accepted, the record
  written is the one of the verified identity, it is the only record that changes, and if the agent was
  already recorded its parent, owner, organization and placement are those of the stored record, whatever
  the request says; an agent that was completed, failed or revoked is not accepted, nor one of a suspended
  organization, and an unrecorded agent gets no organization. This holds for every SpiceDB client.
\<close>

theorem self_register_keeps_identity:
  assumes "agentsWf (wStore w)" and "handleSelfRegister memStore D verified body w = (HttpOK n rec, w')"
  shows "n = 201 \<and> (\<exists>ident. verified = Inr ident \<and> agAgentID rec = idAgentID ident) \<and> validAgentID (agAgentID rec) \<and>
    gget (stAgents (wStore w')) = (gget (stAgents (wStore w)))(agAgentID rec \<mapsto> rec) \<and> agStatus rec = ''active'' \<and>
    orgIsDisabled memStore (agOrgID rec) (wStore w) = Inr False \<and>
    (case gget (stAgents (wStore w)) (agAgentID rec) of
       None \<Rightarrow> agOrgID rec = [] \<and> agPlacement rec = []
     | Some a \<Rightarrow> agStatus a \<notin> {''completed'', ''failed'', ''revoked''} \<and> agParentID rec = agParentID a \<and>
         agUserID rec = agUserID a \<and> agOrgID rec = agOrgID a \<and> agPlacement rec = agPlacement a)"
proof -
  obtain ident req tpl where v: "verified = Inr ident" "body = Inr req" "validAgentID (idAgentID ident)"
    and adm: "\<not> (agAgentID (getAgent (idAgentID ident) (wStore w)) \<noteq> [] \<and>
         agStatus (getAgent (idAgentID ident) (wStore w)) \<in> {''completed'', ''failed'', ''revoked''})"
       "orgIsDisabled memStore (agOrgID (getAgent (idAgentID ident) (wStore w))) (wStore w) = Inr False"
       "registerWrites memStore D tpl (rqTenantID req)
          (registeredRecord (idAgentID ident) req tpl (getAgent (idAgentID ident) (wStore w))) w = (HttpOK n rec, w')"
    using selfRegister_admitted [OF assms(2)] unfolding Let_def by blast
  note wr = registerWrites_mem [OF adm(3)]
  then have id: "agAgentID rec = idAgentID ident" by auto
  show ?thesis
  proof (cases "gget (stAgents (wStore w)) (idAgentID ident)")
    case None
    then have "getAgent (idAgentID ident) (wStore w) = zeroAgent" by (simp add: getAgent_def)
    then show ?thesis using wr v adm id None by (auto simp: gomap_simps fun_eq_iff)
  next
    case (Some a)
    then have a: "getAgent (idAgentID ident) (wStore w) = a" "agAgentID a = idAgentID ident"
      using agentsWf_id [OF assms(1)] by (simp_all add: getAgent_def)
    moreover have "idAgentID ident \<noteq> []" using v(3) by (simp add: validAgentID_def)
    ultimately show ?thesis using wr v adm id Some by (auto simp: gomap_simps fun_eq_iff)
  qed
qed

definition selfIdent :: Identity where
  "selfIdent = \<lparr>idAgentID = ''w1'', idOrgID = [], idSubject = ''spiffe://td/agent/w1'', idIssuer = ''spiffe-svid'', idPlatformSVID = False\<rparr>"

definition selfReq :: registerReq where
  "selfReq = \<lparr>rqAgentType = ''worker'', rqTenantID = [], rqUserID = ''mallory'', rqParentID = ''victim''\<rparr>"

definition preWorld :: "(store, Mock) world" where
  "preWorld = emptyWorld\<lparr>wStore := (wStore emptyWorld)\<lparr>stAgents := [(''w1'', preRecord\<lparr>agStatus := ''pending''\<rparr>)]\<rparr>\<rparr>"

lemma preWorld_simps [simp]:
  "stAgents (wStore preWorld) = [(''w1'', preRecord\<lparr>agStatus := ''pending''\<rparr>)]"
  "stTemplates (wStore preWorld) = [(''worker'', workerTemplate)]" "stOrgs (wStore preWorld) = []" "wSdb preWorld = []"
  by (simp_all add: preWorld_def)

lemma selfReq_valid [simp]: "rqAgentType selfReq = ''worker''" "\<not> rejectInvalidUserID (rqUserID selfReq)" "idAgentID selfIdent = ''w1''"
  by (simp_all add: selfReq_def selfIdent_def rejectInvalidUserID_def ValidUserID_def userIDChar_def is_alnum_def is_lower_def in_range_def)

lemma preWorld_wf: "agentsWf (wStore preWorld)"
  by (simp add: agentsWf_def)

lemma preWorld_register:
  "\<exists>rec w'. handleSelfRegister memStore mockClient (Inr selfIdent) (Inr selfReq) preWorld = (HttpOK 201 rec, w') \<and> agAgentID rec = ''w1''"
  by (auto simp: handleSelfRegister_def mem_simps getTemplate_def getAgent_def orgIsDisabled_def getOrg_def registerWrites_def
        Let_def split: prod.splits)

theorem self_register_keeps_identity_witness:
  "\<exists>rec w'. handleSelfRegister memStore mockClient (Inr selfIdent) (Inr selfReq) preWorld = (HttpOK 201 rec, w') \<and>
     agUserID rec = ''alice'' \<and> agParentID rec \<noteq> ''victim'' \<and> agOrgID rec = ''acme''"
proof -
  obtain rec w' where r: "handleSelfRegister memStore mockClient (Inr selfIdent) (Inr selfReq) preWorld = (HttpOK 201 rec, w')"
      "agAgentID rec = ''w1''"
    using preWorld_register by blast
  show ?thesis
    using self_register_keeps_identity [OF preWorld_wf r(1)] r by (auto simp: preRecord_def)
qed

text \<open>
  An accepted registration leaves the agent's authority in place. With the in-memory SpiceDB, the
  \<open>enabled\<close> tuple, the owner and organization tuples of the stored record and every template relation
  that applies (those that name a tenant only if the agent has one) are written with the placeholders
  substituted, and no tuple is removed.
\<close>

theorem self_register_writes_authority:
  assumes "handleSelfRegister memStore mockClient (Inr ident) (Inr req) w = (HttpOK n rec, w')"
    and "gget (stTemplates (wStore w)) (rqAgentType req) = Some tpl"
  shows "set (wSdb w) \<subseteq> set (wSdb w') \<and> enabledKey (agAgentID rec) \<in> set (wSdb w') \<and>
    (agUserID rec \<noteq> [] \<longrightarrow> tupleKey (agentRef (agAgentID rec)) ''owner'' (userRef (agUserID rec)) \<in> set (wSdb w')) \<and>
    (agOrgID rec \<noteq> [] \<longrightarrow> tupleKey (agentRef (agAgentID rec)) ''org'' (orgRef (agOrgID rec)) \<in> set (wSdb w')) \<and>
    (\<forall>rel \<in> set (azSpiceDBRelations (tplAuthZ tpl)). rqTenantID req \<noteq> [] \<or> \<not> referencesTenant rel \<longrightarrow>
       tupleKey (substitute (relResource rel) (agAgentID rec) (rqTenantID req)) (relRelation rel)
         (substitute (relSubject rel) (agAgentID rec) (rqTenantID req)) \<in> set (wSdb w'))"
proof -
  obtain existing where "registerWrites memStore mockClient tpl (rqTenantID req)
      (registeredRecord (idAgentID ident) req tpl existing) w = (HttpOK n rec, w')"
    using selfRegister_admitted [OF assms(1)] assms(2) by (auto simp: Let_def)
  note wr = registerWrites_sdb [OF this] registerWrites_mem [OF this]
  show ?thesis
    using wr mock_relations_written [of _ "azSpiceDBRelations (tplAuthZ tpl)" "rqTenantID req" "agAgentID rec" "wSdb w"]
      mock_relations [of "wSdb w" "agAgentID rec" "rqTenantID req" "azSpiceDBRelations (tplAuthZ tpl)"]
    by (auto simp: mock_authority mockr.write_adds enabledKey_def)
qed

theorem self_register_writes_authority_witness:
  "\<exists>rec w'. handleSelfRegister memStore mockClient (Inr selfIdent) (Inr selfReq) preWorld = (HttpOK 201 rec, w') \<and>
     enabledKey ''w1'' \<in> set (wSdb w')"
proof -
  obtain rec w' where r: "handleSelfRegister memStore mockClient (Inr selfIdent) (Inr selfReq) preWorld = (HttpOK 201 rec, w')"
      "agAgentID rec = ''w1''"
    using preWorld_register by blast
  show ?thesis using self_register_writes_authority [OF r(1), of workerTemplate] r by auto
qed

lemma ended_not_registered:
  assumes "agentsWf (wStore w)" and "validAgentID (idAgentID ident)" and "\<not> rejectInvalidUserID (rqUserID req)"
    and "gget (stTemplates (wStore w)) (rqAgentType req) \<noteq> None" and "gget (stAgents (wStore w)) (idAgentID ident) = Some a"
    and "agStatus a \<in> {''completed'', ''failed'', ''revoked''}"
  shows "\<exists>msg. handleSelfRegister memStore D (Inr ident) (Inr req) w = (HttpError 409 msg, w)"
  using assms by (auto simp: handleSelfRegister_def mem_simps getTemplate_def getAgent_def validAgentID_def Let_def agentsWf_id)

text \<open>
  A refused registration has no effect, and a finished or revoked agent is refused. On the
  in-memory store every error answer of preregistration and of self-registration leaves the whole state
  as it was, and a valid self-registration of an agent whose record is completed, failed or revoked is
  answered 409.
\<close>

theorem register_refusals:
  "(\<forall>pre n msg w'. handlePreregister memStore D pre w = (HttpError n msg, w') \<longrightarrow> w' = w) \<and>
   (\<forall>verified body n msg w'. handleSelfRegister memStore D verified body w = (HttpError n msg, w') \<longrightarrow> w' = w) \<and>
   (\<forall>ident req a. agentsWf (wStore w) \<and> validAgentID (idAgentID ident) \<and> \<not> rejectInvalidUserID (rqUserID req) \<and>
      gget (stTemplates (wStore w)) (rqAgentType req) \<noteq> None \<and> gget (stAgents (wStore w)) (idAgentID ident) = Some a \<and>
      agStatus a \<in> {''completed'', ''failed'', ''revoked''} \<longrightarrow>
      http_status (fst (handleSelfRegister memStore D (Inr ident) (Inr req) w)) = 409)"
proof (intro conjI allI impI)
  show "handlePreregister memStore D pre w = (HttpError n msg, w') \<Longrightarrow> w' = w" for pre n msg w'
    by (auto simp: handlePreregister_def mem_simps Let_def split: sum.splits if_splits prod.splits)
  show "handleSelfRegister memStore D verified body w = (HttpError n msg, w') \<Longrightarrow> w' = w" for verified body n msg w'
    by (auto simp: handleSelfRegister_def registerWrites_def mem_simps Let_def
             split: sum.splits if_splits prod.splits option.splits)
  show "http_status (fst (handleSelfRegister memStore D (Inr ident) (Inr req) w)) = 409"
    if "agentsWf (wStore w) \<and> validAgentID (idAgentID ident) \<and> \<not> rejectInvalidUserID (rqUserID req) \<and>
      gget (stTemplates (wStore w)) (rqAgentType req) \<noteq> None \<and> gget (stAgents (wStore w)) (idAgentID ident) = Some a \<and>
      agStatus a \<in> {''completed'', ''failed'', ''revoked''}" for ident req a
    using that ended_not_registered [of w ident req a D] by auto
qed

definition revokedWorld :: "(store, Mock) world" where
  "revokedWorld = preWorld\<lparr>wStore := (wStore preWorld)\<lparr>stAgents := [(''w1'', preRecord\<lparr>agStatus := ''revoked''\<rparr>)]\<rparr>\<rparr>"

lemma revokedWorld_simps [simp]:
  "stAgents (wStore revokedWorld) = [(''w1'', preRecord\<lparr>agStatus := ''revoked''\<rparr>)]"
  "stTemplates (wStore revokedWorld) = [(''worker'', workerTemplate)]" "stOrgs (wStore revokedWorld) = []" "wSdb revokedWorld = []"
  by (simp_all add: revokedWorld_def)

lemma revokedWorld_wf: "agentsWf (wStore revokedWorld)"
  by (simp add: agentsWf_def)

theorem register_refusals_witness:
  "http_status (fst (handleSelfRegister memStore mockClient (Inr selfIdent) (Inr selfReq) revokedWorld)) = 409"
proof -
  have "agentsWf (wStore revokedWorld) \<and> validAgentID (idAgentID selfIdent) \<and> \<not> rejectInvalidUserID (rqUserID selfReq) \<and>
      gget (stTemplates (wStore revokedWorld)) (rqAgentType selfReq) \<noteq> None \<and>
      gget (stAgents (wStore revokedWorld)) (idAgentID selfIdent) = Some (preRecord\<lparr>agStatus := ''revoked''\<rparr>) \<and>
      agStatus (preRecord\<lparr>agStatus := ''revoked''\<rparr>) \<in> {''completed'', ''failed'', ''revoked''}"
    using revokedWorld_wf by simp
  then show ?thesis using register_refusals [of mockClient revokedWorld] by blast
qed

text \<open>
  Self-registration loses the consent gate of a preregistered agent. Whatever the stored record
  says, the record written has \<open>ConsentRequired\<close> (and \<open>Dismissed\<close>) unset, although the
  field's documentation calls it the durable copy of the spawn decision.
\<close>

theorem consent_gate_lost_on_registration:
  assumes "handleSelfRegister memStore D verified body w = (HttpOK n rec, w')"
  shows "\<exists>r. gget (stAgents (wStore w')) (agAgentID rec) = Some r \<and> \<not> agConsentRequired r \<and> \<not> agDismissed r"
proof -
  obtain tpl ten oid req existing where
    "registerWrites memStore D tpl ten (registeredRecord oid req tpl existing) w = (HttpOK n rec, w')"
    using selfRegister_admitted [OF assms] by (auto simp: Let_def)
  from registerWrites_mem [OF this] show ?thesis by (auto simp: gomap_simps)
qed

theorem consent_gate_lost_on_registration_witness:
  "\<exists>rec w' r. handleSelfRegister memStore mockClient (Inr selfIdent) (Inr selfReq) preWorld = (HttpOK 201 rec, w') \<and>
     (\<exists>a. gget (stAgents (wStore preWorld)) ''w1'' = Some a \<and> agConsentRequired a) \<and>
     gget (stAgents (wStore w')) ''w1'' = Some r \<and> \<not> agConsentRequired r"
proof -
  obtain rec w' where r: "handleSelfRegister memStore mockClient (Inr selfIdent) (Inr selfReq) preWorld = (HttpOK 201 rec, w')"
      "agAgentID rec = ''w1''"
    using preWorld_register by blast
  show ?thesis using consent_gate_lost_on_registration [OF r(1)] r by auto
qed

text \<open>
  C40: a revoked agent can lift its own revocation. A revoked agent that still holds its credential
  may set its own status to \<open>active\<close> through the status endpoint, which does not look at the current status,
  and then register again: afterwards its record is active and, with the in-memory SpiceDB, its
  \<open>enabled\<close> tuple is back, without any resume by a human.
\<close>

theorem revoked_agent_reactivates_itself:
  assumes "agentsWf (wStore w)" and "gget (stAgents (wStore w)) oid = Some a" and "agStatus a = ''revoked''"
    and "idAgentID ident = oid" and "validAgentID oid"
    and "gget (stTemplates (wStore w)) (rqAgentType req) = Some tpl" and "\<not> rejectInvalidUserID (rqUserID req)"
    and "orgIsDisabled memStore (agOrgID a) (wStore w) = Inr False"
  shows "\<exists>w1 rec w2. handlePatchAgent memStore mockClient False (Inr ident) oid (Inr ''active'') w = (HttpOK 200 (), w1) \<and>
    handleSelfRegister memStore mockClient (Inr ident) (Inr req) w1 = (HttpOK 201 rec, w2) \<and>
    agStatus (getAgent oid (wStore w2)) = ''active'' \<and> enabledKey oid \<in> set (wSdb w2)"
proof -
  define w1 where "w1 = w\<lparr>wStore := snd (updateAgent oid ''active'' (wStore w))\<rparr>"
  have patch: "handlePatchAgent memStore mockClient False (Inr ident) oid (Inr ''active'') w = (HttpOK 200 (), w1)"
    using assms(2,4) by (simp add: handlePatchAgent_def mem_simps updateAgent_def w1_def Let_def)
  have s1: "wStore w1 = (wStore w)\<lparr>stAgents := gput oid (a\<lparr>agStatus := ''active''\<rparr>) (stAgents (wStore w))\<rparr>"
    using assms(2) by (simp add: w1_def updateAgent_def)
  have id: "agAgentID a = oid" by (rule agentsWf_id [OF assms(1,2)])
  have "fst (handleSelfRegister memStore mockClient (Inr ident) (Inr req) w1) =
      HttpOK 201 (registeredRecord oid req tpl (a\<lparr>agStatus := ''active''\<rparr>))"
    using assms(4-8) id
    by (auto simp: handleSelfRegister_def mem_simps s1 getTemplate_def getAgent_def gomap_simps validAgentID_def
          orgIsDisabled_def getOrg_def registerWrites_def Let_def split: prod.splits if_splits option.splits)
  then obtain rec w2 where reg: "handleSelfRegister memStore mockClient (Inr ident) (Inr req) w1 = (HttpOK 201 rec, w2)"
      and rec: "rec = registeredRecord oid req tpl (a\<lparr>agStatus := ''active''\<rparr>)"
    by (metis prod.collapse)
  from selfRegister_admitted [OF reg] obtain tpl' existing where
      wr: "registerWrites memStore mockClient tpl' (rqTenantID req) (registeredRecord oid req tpl' existing) w1 = (HttpOK 201 rec, w2)"
    using assms(4) by (auto simp: Let_def)
  have "agStatus (getAgent oid (wStore w2)) = ''active''"
    using registerWrites_mem [OF wr] by (auto simp: getAgent_def gomap_simps rec)
  moreover have "enabledKey oid \<in> set (wSdb w2)"
    using registerWrites_sdb [OF wr] by (simp add: mock_authority mockr.write_adds enabledKey_def)
  ultimately show ?thesis using patch reg by blast
qed

theorem revoked_agent_reactivates_itself_witness:
  "\<exists>w1 rec w2. handlePatchAgent memStore mockClient False (Inr selfIdent) ''w1'' (Inr ''active'') revokedWorld = (HttpOK 200 (), w1) \<and>
    handleSelfRegister memStore mockClient (Inr selfIdent) (Inr selfReq) w1 = (HttpOK 201 rec, w2) \<and>
    enabledKey ''w1'' \<in> set (wSdb w2)"
proof -
  have g: "gget (stAgents (wStore revokedWorld)) ''w1'' = Some (preRecord\<lparr>agStatus := ''revoked''\<rparr>)" by simp
  show ?thesis
    using revoked_agent_reactivates_itself [OF revokedWorld_wf g, of selfIdent selfReq workerTemplate]
    by (auto simp: orgIsDisabled_def mem_simps getOrg_def)
qed

lemma has_suffix_at:
  assumes "has_suffix (pre @ CHR ''@'' # sub) (CHR ''@'' # t)" and "CHR ''@'' \<notin> set sub" and "CHR ''@'' \<notin> set t"
  shows "sub = t"
proof -
  have "pre @ CHR ''@'' # sub = take (length (pre @ CHR ''@'' # sub) - Suc (length t)) (pre @ CHR ''@'' # sub) @ CHR ''@'' # t"
    using assms(1) unfolding has_suffix_def by (metis append_take_drop_id length_Cons)
  then have "rev sub @ CHR ''@'' # rev pre =
      rev t @ CHR ''@'' # rev (take (length (pre @ CHR ''@'' # sub) - Suc (length t)) (pre @ CHR ''@'' # sub))"
    by (metis append_Cons append_assoc append_Nil rev.simps(2) rev_append)
  then show ?thesis using append_sep_inject [of "CHR ''@''" "rev sub" "rev t"] assms(2,3) by simp
qed

lemma validAgentID_no_at: "validAgentID oid \<Longrightarrow> CHR ''@'' \<notin> set oid"
  by (auto simp: validAgentID_def validAgentIDByte_def is_alnum_def is_lower_def is_upper_def is_digit_def in_range_def list_all_iff)

lemma cleanup_keeps:
  assumes "validAgentID oid" and "CHR ''@'' \<notin> set sub" and "sub \<noteq> agentRef oid" and "hd rel \<noteq> CHR ''e''" and "rel \<noteq> []"
  shows "tupleKey (agentRef oid) rel sub \<in> set d \<Longrightarrow>
    tupleKey (agentRef oid) rel sub \<in> set (snd (mockDelete (agentRef oid) ''enabled'' (agentRef oid) (snd (mockDeleteAgent oid ts d))))"
proof -
  assume in_d: "tupleKey (agentRef oid) rel sub \<in> set d"
  have "\<not> has_suffix (tupleKey (agentRef oid) rel sub) (''@agent:'' @ oid)"
    using has_suffix_at [of "agentRef oid @ ''#'' @ rel" sub "agentRef oid"] assms(1-3) validAgentID_no_at [OF assms(1)]
    by (auto simp: tupleKey_def agentRef_def)
  moreover have "tupleKey (agentRef oid) rel sub \<noteq> tupleKey (agentRef oid) ''enabled'' (agentRef oid)"
    using assms(4,5) by (cases rel) (auto simp: tupleKey_def)
  ultimately show ?thesis using in_d by (simp add: mockDelete_def mockDeleteAgent_def)
qed

text \<open>
  The status endpoint. For every store and SpiceDB client, a request that is neither from the
  control plane nor from the agent itself is answered 401 and changes nothing; on the in-memory store and
  SpiceDB, setting \<open>completed\<close> or \<open>failed\<close> sets that status on that agent only, drops its \<open>enabled\<close> tuple so
  that no \<open>work_on\<close> check passes, adds no tuple, and keeps the agent's owner and organization tuples.
\<close>

theorem patch_status_gate_and_cleanup:
  "(\<forall>S D verified body v. \<not> (\<exists>ident. verified = Inr ident \<and> idAgentID ident = oid) \<longrightarrow>
      handlePatchAgent S D False verified oid body v = (HttpError 401 ''unauthorized'', v)) \<and>
   (\<forall>cpOK verified st n w'. validAgentID oid \<and> st \<in> {''completed'', ''failed''} \<and>
      handlePatchAgent memStore mockClient cpOK verified oid (Inr st) w = (HttpOK n (), w') \<longrightarrow>
      gget (stAgents (wStore w')) = setStatus oid st (gget (stAgents (wStore w))) \<and>
      set (wSdb w') \<subseteq> set (wSdb w) \<and> enabledKey oid \<notin> set (wSdb w') \<and>
      (\<forall>resource. CheckPermission mockClient resource ''work_on'' (agentRef oid) (wSdb w') \<noteq> Inr True) \<and>
      (\<forall>u. tupleKey (agentRef oid) ''owner'' (userRef u) \<in> set (wSdb w) \<longrightarrow> tupleKey (agentRef oid) ''owner'' (userRef u) \<in> set (wSdb w')) \<and>
      (\<forall>org. tupleKey (agentRef oid) ''org'' (orgRef org) \<in> set (wSdb w) \<longrightarrow> tupleKey (agentRef oid) ''org'' (orgRef org) \<in> set (wSdb w')))"
proof (intro conjI allI impI)
  show "\<not> (\<exists>ident. verified = Inr ident \<and> idAgentID ident = oid) \<Longrightarrow>
      handlePatchAgent S D False verified oid body v = (HttpError 401 ''unauthorized'', v)" for S D verified body v
    by (auto simp: handlePatchAgent_def split: sum.splits)
next
  fix cpOK verified st n w'
  assume h: "validAgentID oid \<and> st \<in> {''completed'', ''failed''} \<and>
      handlePatchAgent memStore mockClient cpOK verified oid (Inr st) w = (HttpOK n (), w')"
  then have "terminalCleanup memStore mockClient oid (w\<lparr>wStore := snd (updateAgent oid st (wStore w))\<rparr>) = (HttpOK n (), w')"
    by (auto simp: handlePatchAgent_def memStore_simps okW_simp Let_def split: if_splits)
  from terminalCleanup_mem [OF this] obtain ts where
      store: "wStore w' = snd (updateAgent oid st (wStore w))"
      and sdb: "wSdb w' = snd (mockDelete (agentRef oid) ''enabled'' (agentRef oid) (snd (mockDeleteAgent oid ts (wSdb w))))"
    by auto
  show "gget (stAgents (wStore w')) = setStatus oid st (gget (stAgents (wStore w)))"
    by (simp add: store updateAgent_setStatus)
  show "set (wSdb w') \<subseteq> set (wSdb w)" by (auto simp: sdb mockDelete_def mockDeleteAgent_def)
  show none: "enabledKey oid \<notin> set (wSdb w')" by (simp add: sdb mockDelete_def enabledKey_def)
  show "CheckPermission mockClient resource ''work_on'' (agentRef oid) (wSdb w') \<noteq> Inr True" for resource
    using mock.no_enabled_no_work none by (simp add: enabledKey_def)
  show "tupleKey (agentRef oid) ''owner'' (userRef u) \<in> set (wSdb w')"
    if "tupleKey (agentRef oid) ''owner'' (userRef u) \<in> set (wSdb w)" for u
    unfolding sdb
    by (rule cleanup_keeps [OF _ _ _ _ _ that])
       (use h EncodeObjectID_no_at in \<open>auto simp: userRef_def agentRef_def\<close>)
  show "tupleKey (agentRef oid) ''org'' (orgRef org) \<in> set (wSdb w')"
    if "tupleKey (agentRef oid) ''org'' (orgRef org) \<in> set (wSdb w)" for org
    unfolding sdb
    by (rule cleanup_keeps [OF _ _ _ _ _ that])
       (use h EncodeObjectID_no_at in \<open>auto simp: orgRef_def agentRef_def\<close>)
qed

definition runningWorld :: "(store, Mock) world" where
  "runningWorld = preWorld\<lparr>wSdb := [enabledKey ''w1'', tupleKey (agentRef ''w1'') ''owner'' (userRef ''alice'')]\<rparr>"

theorem patch_status_gate_and_cleanup_witness:
  "\<exists>w'. handlePatchAgent memStore mockClient True (Inl ErrConflict) ''w1'' (Inr ''completed'') runningWorld = (HttpOK 200 (), w') \<and>
     enabledKey ''w1'' \<notin> set (wSdb w') \<and> tupleKey (agentRef ''w1'') ''owner'' (userRef ''alice'') \<in> set (wSdb w')"
proof -
  obtain w' where h: "handlePatchAgent memStore mockClient True (Inl ErrConflict) ''w1'' (Inr ''completed'') runningWorld = (HttpOK 200 (), w')"
    by (auto simp: handlePatchAgent_def terminalCleanup_def memStore_simps okW_simp Let_def updateAgent_def runningWorld_def)
  moreover have "tupleKey (agentRef ''w1'') ''owner'' (userRef ''alice'') \<in> set (wSdb runningWorld)"
    by (simp add: runningWorld_def)
  moreover have "validAgentID ''w1'' \<and> ''completed'' \<in> {''completed'', ''failed''}" by simp
  ultimately show ?thesis
    using conjunct2 [OF patch_status_gate_and_cleanup [of "''w1''" runningWorld]] by blast
qed

text \<open>
  The event log is append-only and guarded. An event is stored only for a control-plane caller, the
  agent itself or a direct child of it; on the in-memory store an accepted post adds one event
  at the end of that agent's log and changes nothing else, and a refused one changes nothing.
\<close>

theorem event_post_guarded:
  assumes "handlePostEvent memStore cpOK verified oid (Inr e) w = (ans, w')"
  shows "(\<exists>n msg. ans = HttpError n msg \<and> w' = w) \<or>
    (\<exists>stored. ans = HttpOK 201 stored \<and> evType stored = evType e \<and> evSource stored = evSource e \<and> evPayload stored = evPayload e \<and>
       (\<forall>i. getEvents i (wStore w') = getEvents i (wStore w) @ (if i = oid then [stored] else [])) \<and>
       stAgents (wStore w') = stAgents (wStore w) \<and> stOrgs (wStore w') = stOrgs (wStore w) \<and> wSdb w' = wSdb w \<and>
       (cpOK \<or> (\<exists>ident. verified = Inr ident \<and>
          (idAgentID ident = oid \<or> agParentID (getAgent (idAgentID ident) (wStore w)) = oid))))"
proof -
  obtain stored s1 where ap: "appendEvent oid e (wStore w) = (stored, s1)" by force
  have "evType stored = evType e \<and> evSource stored = evSource e \<and> evPayload stored = evPayload e \<and>
      (\<forall>i. getEvents i s1 = getEvents i (wStore w) @ (if i = oid then [stored] else []))"
    using ap by (auto simp: appendEvent_def timeNow_def Let_def getEvents_def gomap_simps)
  moreover have "stAgents s1 = stAgents (wStore w)" "stOrgs s1 = stOrgs (wStore w)"
    using appendEvent_agents [of oid e "wStore w"] appendEvent_frame(2) [of oid e "wStore w"] ap by simp_all
  ultimately show ?thesis
    using assms ap
    by (auto simp: handlePostEvent_def memStore_simps okW_simp Let_def split: sum.splits if_splits)
qed

theorem event_post_guarded_witness:
  "\<exists>stored w'. handlePostEvent memStore False (Inr selfIdent) ''w1'' (Inr (newEvent SourceAgent ''started'' (RawPayload []))) preWorld
      = (HttpOK 201 stored, w') \<and> getEvents ''w1'' (wStore w') = getEvents ''w1'' (wStore preWorld) @ [stored]"
proof -
  let ?r = "handlePostEvent memStore False (Inr selfIdent) ''w1'' (Inr (newEvent SourceAgent ''started'' (RawPayload []))) preWorld"
  obtain stored w' where r: "?r = (HttpOK 201 stored, w')"
    by (auto simp: handlePostEvent_def memStore_simps okW_simp)
  show ?thesis using event_post_guarded [OF r] r by auto
qed

end
