(* ===== verification/Directory.thy ===== *)
theory Directory
  imports World
begin

text \<open>
  The port to the identity backend, \<open>internal/orgdirectory/directory.go\<close>: \<open>Directory\<close> is the Go interface as a
  record of operations over an abstract state. The registry only calls it; the Keycloak server behind
  the shipped adapter is not part of this repository, so the directory is a parameter of every
  definition that uses it. \<open>disabledDirectory\<close> is the implementation of \<open>cmd/registry/main.go\<close> for a
  deployment without an organization directory.
\<close>

record Member =
  memUserID :: string
  memUsername :: string
  memEmail :: string
  memRole :: string
  memEnabled :: bool

record User =
  usrUsername :: string
  usrEmail :: string
  usrFirstName :: string
  usrLastName :: string
  usrEnabled :: bool
  usrDisabledByOrg :: string

text \<open>A field that is \<^term>\<open>None\<close> is left unchanged.\<close>

record UserUpdate =
  uuEmail :: "string option"
  uuFirstName :: "string option"
  uuLastName :: "string option"

definition RoleMember :: string where "RoleMember = ''member''"
definition RoleAdmin :: string where "RoleAdmin = ''admin''"

definition ValidRole :: "string \<Rightarrow> bool" where
  "ValidRole r = (r = RoleMember \<or> r = RoleAdmin)"

record 'g Directory =
  dirCreateOrg :: "string \<Rightarrow> string \<Rightarrow> 'g \<Rightarrow> go_error option \<times> 'g"
  dirDeleteOrg :: "string \<Rightarrow> 'g \<Rightarrow> go_error option \<times> 'g"
  dirAddMember :: "string \<Rightarrow> string \<Rightarrow> 'g \<Rightarrow> go_error option \<times> 'g"
  dirRemoveMember :: "string \<Rightarrow> string \<Rightarrow> 'g \<Rightarrow> go_error option \<times> 'g"
  dirSetRole :: "string \<Rightarrow> string \<Rightarrow> string \<Rightarrow> 'g \<Rightarrow> go_error option \<times> 'g"
  dirListMembers :: "string \<Rightarrow> 'g \<Rightarrow> Member list result"
  dirListUserOrgs :: "string \<Rightarrow> 'g \<Rightarrow> string list result"
  dirRegisterOrgRedirectURIs :: "string \<Rightarrow> string \<Rightarrow> 'g \<Rightarrow> go_error option \<times> 'g"
  dirRemoveOrgRedirectURIs :: "string \<Rightarrow> string \<Rightarrow> 'g \<Rightarrow> go_error option \<times> 'g"
  dirListUsers :: "'g \<Rightarrow> User list result"
  dirDisableUser :: "string \<Rightarrow> string \<Rightarrow> 'g \<Rightarrow> go_error option \<times> 'g"
  dirEnableUser :: "string \<Rightarrow> string \<Rightarrow> 'g \<Rightarrow> bool result \<times> 'g"
  dirDeleteUser :: "string \<Rightarrow> 'g \<Rightarrow> go_error option \<times> 'g"
  dirUpdateUser :: "string \<Rightarrow> UserUpdate \<Rightarrow> 'g \<Rightarrow> go_error option \<times> 'g"

definition errOrgDirectoryDisabled :: go_error where
  "errOrgDirectoryDisabled = Err ''org directory not configured (ORG_ADMIN_CLIENT_SECRET unset)''"

definition disabledDirectory :: "'g Directory" where
  "disabledDirectory =
     \<lparr>dirCreateOrg = (\<lambda>_ _ g. (Some errOrgDirectoryDisabled, g)),
      dirDeleteOrg = (\<lambda>_ g. (Some errOrgDirectoryDisabled, g)),
      dirAddMember = (\<lambda>_ _ g. (Some errOrgDirectoryDisabled, g)),
      dirRemoveMember = (\<lambda>_ _ g. (Some errOrgDirectoryDisabled, g)),
      dirSetRole = (\<lambda>_ _ _ g. (Some errOrgDirectoryDisabled, g)),
      dirListMembers = (\<lambda>_ _. Inl errOrgDirectoryDisabled),
      dirListUserOrgs = (\<lambda>_ _. Inl errOrgDirectoryDisabled),
      dirRegisterOrgRedirectURIs = (\<lambda>_ _ g. (Some errOrgDirectoryDisabled, g)),
      dirRemoveOrgRedirectURIs = (\<lambda>_ _ g. (Some errOrgDirectoryDisabled, g)),
      dirListUsers = (\<lambda>_. Inl errOrgDirectoryDisabled),
      dirDisableUser = (\<lambda>_ _ g. (Some errOrgDirectoryDisabled, g)),
      dirEnableUser = (\<lambda>_ _ g. (Inl errOrgDirectoryDisabled, g)),
      dirDeleteUser = (\<lambda>_ g. (Some errOrgDirectoryDisabled, g)),
      dirUpdateUser = (\<lambda>_ _ g. (Some errOrgDirectoryDisabled, g))\<rparr>"

text \<open>The state of a handler that also uses the directory.\<close>

record ('s, 'd, 'g) orgWorld = "('s, 'd) world" +
  wDir :: 'g

text \<open>A directory operation on the state, with its error.\<close>

definition onDir :: "('g \<Rightarrow> 'r \<times> 'g) \<Rightarrow> ('s, 'd, 'g) orgWorld \<Rightarrow> 'r \<times> ('s, 'd, 'g) orgWorld" where
  "onDir f w = (case f (wDir w) of (r, g) \<Rightarrow> (r, w\<lparr>wDir := g\<rparr>))"

lemma onDir_simps [simp]:
  "wStore (snd (onDir f w)) = wStore w" "wSdb (snd (onDir f w)) = wSdb w"
  "fst (onDir f w) = fst (f (wDir w))" "wDir (snd (onDir f w)) = snd (f (wDir w))"
  by (simp_all add: onDir_def split: prod.splits)

lemma onDir_frame: "onDir f w = (r, w') \<Longrightarrow> wStore w' = wStore w \<and> wSdb w' = wSdb w"
  by (metis onDir_simps(1,2) snd_conv)

text \<open>A directory that accepts every change and reports no members, used to run examples.\<close>

definition openDirectory :: "unit Directory" where
  "openDirectory =
     \<lparr>dirCreateOrg = (\<lambda>_ _ g. (None, g)), dirDeleteOrg = (\<lambda>_ g. (None, g)), dirAddMember = (\<lambda>_ _ g. (None, g)),
      dirRemoveMember = (\<lambda>_ _ g. (None, g)), dirSetRole = (\<lambda>_ _ _ g. (None, g)), dirListMembers = (\<lambda>_ _. Inr []),
      dirListUserOrgs = (\<lambda>_ _. Inr []), dirRegisterOrgRedirectURIs = (\<lambda>_ _ g. (None, g)),
      dirRemoveOrgRedirectURIs = (\<lambda>_ _ g. (None, g)), dirListUsers = (\<lambda>_. Inr []),
      dirDisableUser = (\<lambda>_ _ g. (None, g)), dirEnableUser = (\<lambda>_ _ g. (Inr False, g)),
      dirDeleteUser = (\<lambda>_ g. (None, g)), dirUpdateUser = (\<lambda>_ _ g. (None, g))\<rparr>"

lemma openDirectory_simps [simp]:
  "dirCreateOrg openDirectory a b g = (None, g)" "dirDeleteOrg openDirectory a g = (None, g)"
  "dirAddMember openDirectory a b g = (None, g)" "dirRemoveMember openDirectory a b g = (None, g)"
  "dirListMembers openDirectory a g = Inr []" "dirListUserOrgs openDirectory a g = Inr []"
  "dirDisableUser openDirectory a b g = (None, g)" "dirEnableUser openDirectory a b g = (Inr False, g)"
  "dirDeleteUser openDirectory a g = (None, g)"
  by (simp_all add: openDirectory_def)

end
