(* ===== verification/Templates.thy ===== *)
theory Templates
  imports World
begin

text \<open>
  Template management (\<open>cmd/registry/main.go\<close>): create, enable or disable, delete, fetch and list. Templates
  share one name space across organizations; the \<open>orgId\<close> query parameter, set by the
  orchestrator from the caller's token, scopes a request to one organization, and is empty for a realm
  administrator. Every handler here is behind the control-plane gate except the schema and the two
  public list views.
\<close>

section \<open>Handlers\<close>

definition orgIDByte :: "char \<Rightarrow> bool" where
  "orgIDByte c = (is_lower c \<or> is_digit c)"

definition validOrgID :: "string \<Rightarrow> bool" where
  "validOrgID s = (s \<noteq> [] \<and> length s \<le> 63 \<and> orgIDByte (hd s) \<and> orgIDByte (last s) \<and>
     list_all (\<lambda>c. orgIDByte c \<or> c = CHR ''-'') s)"

definition validAgentType :: "string \<Rightarrow> bool" where
  "validAgentType agentType = (agentType \<noteq> [] \<and> CHR ''/'' \<notin> set agentType)"

text \<open>\<open>Some\<close> is the answer that ends the request.\<close>

definition templateInScope :: "'s Store \<Rightarrow> string \<Rightarrow> string \<Rightarrow> 's \<Rightarrow> 'b http option" where
  "templateInScope S agentType scopeOrg s =
     (case GetTemplate S agentType s of
        Inl e \<Rightarrow> Some internalError
      | Inr None \<Rightarrow> Some notFound
      | Inr (Some t) \<Rightarrow> if tplOrgID t \<noteq> scopeOrg then Some notFound else None)"

definition filterTemplatesVisible :: "AgentTemplate list \<Rightarrow> string \<Rightarrow> AgentTemplate list" where
  "filterTemplatesVisible tpls org = filter (\<lambda>t. tplOrgID t = [] \<or> tplOrgID t = org) tpls"

definition filterTemplatesOwnOrg :: "AgentTemplate list \<Rightarrow> string \<Rightarrow> AgentTemplate list" where
  "filterTemplatesOwnOrg tpls org = filter (\<lambda>t. tplOrgID t = org) tpls"

text \<open>The statuses a template may be created with.\<close>

definition creatableStatus :: "string \<Rightarrow> bool" where
  "creatableStatus st = (st \<in> {[], TemplateStatusActive, TemplateStatusDisabled, ''deprecated''})"

text \<open>The part of the create handler after the scope of the template is settled.\<close>

definition storeTemplate :: "'s Store \<Rightarrow> AgentTemplate \<Rightarrow> 's \<Rightarrow> unit http \<times> 's" where
  "storeTemplate S t s =
     (if \<not> creatableStatus (tplStatus t)
      then (HttpError 400 ''invalid status'', s)
      else case ValidateTpl S t s of
          Some e \<Rightarrow> (HttpError 400 (errString e), s)
        | None \<Rightarrow>
            (case PutTemplate S t s of
               (Some e, s1) \<Rightarrow> (internalError, s1)
             | (None, s1) \<Rightarrow> (HttpOK 201 (), s1)))"

definition handlePostTemplate ::
  "'s Store \<Rightarrow> string \<Rightarrow> AgentTemplate result \<Rightarrow> 's \<Rightarrow> unit http \<times> 's" where
  "handlePostTemplate S orgId body s =
     (case body of
        Inl e \<Rightarrow> (HttpError 400 (errString e), s)
      | Inr t0 \<Rightarrow>
          let t = t0\<lparr>tplOrgID := orgId\<rparr>
          in if orgId \<noteq> [] \<and> \<not> validOrgID orgId then (HttpError 400 ''invalid orgId'', s)
             else case GetTemplate S (tplAgentType t) s of
                 Inl e \<Rightarrow> (internalError, s)
               | Inr None \<Rightarrow> storeTemplate S t s
               | Inr (Some existing) \<Rightarrow>
                   if orgId = [] then storeTemplate S (t\<lparr>tplOrgID := tplOrgID existing\<rparr>) s
                   else if tplOrgID existing \<noteq> orgId then (HttpError 409 ''agent type already exists'', s)
                   else storeTemplate S t s)"

definition handlePatchTemplate ::
  "'s Store \<Rightarrow> string \<Rightarrow> string \<Rightarrow> string result \<Rightarrow> 's \<Rightarrow> AgentTemplate http \<times> 's" where
  "handlePatchTemplate S agentType scopeOrg body s =
     (if \<not> validAgentType agentType then (HttpError 400 ''invalid agent type'', s)
      else case body of
          Inl e \<Rightarrow> (HttpError 400 (errString e), s)
        | Inr status \<Rightarrow>
            if status \<noteq> TemplateStatusActive \<and> status \<noteq> TemplateStatusDisabled then (HttpError 400 ''invalid status'', s)
            else case (if scopeOrg \<noteq> [] then templateInScope S agentType scopeOrg s else None) of
                Some err \<Rightarrow> (err, s)
              | None \<Rightarrow>
                  (case UpdateTemplateStatus S agentType status s of
                     (Inl e, s1) \<Rightarrow> (internalError, s1)
                   | (Inr None, s1) \<Rightarrow> (notFound, s1)
                   | (Inr (Some t), s1) \<Rightarrow> (HttpOK 200 t, s1)))"

definition handleDeleteTemplate :: "'s Store \<Rightarrow> string \<Rightarrow> string \<Rightarrow> 's \<Rightarrow> unit http \<times> 's" where
  "handleDeleteTemplate S agentType scopeOrg s =
     (if \<not> validAgentType agentType then (HttpError 400 ''invalid agent type'', s)
      else case GetTemplate S agentType s of
          Inl e \<Rightarrow> (internalError, s)
        | Inr None \<Rightarrow> (notFound, s)
        | Inr (Some t) \<Rightarrow>
            if scopeOrg \<noteq> [] \<and> tplOrgID t \<noteq> scopeOrg then (notFound, s)
            else if tplStatus t \<noteq> TemplateStatusDisabled
            then (HttpError 409 ''template must be disabled before deletion'', s)
            else case DeleteTemplate S agentType s of
                (Inl e, s1) \<Rightarrow> (internalError, s1)
              | (Inr _, s1) \<Rightarrow> (HttpOK 204 (), s1))"

definition handleGetSchema :: "'s Store \<Rightarrow> 's \<Rightarrow> (string \<times> string \<times> string) http" where
  "handleGetSchema S s = HttpOK 200 (SchemaOf S s)"

definition handleGetTemplate :: "'s Store \<Rightarrow> string \<Rightarrow> 's \<Rightarrow> AgentTemplate http" where
  "handleGetTemplate S agentType s =
     (case GetTemplate S agentType s of
        Inl e \<Rightarrow> internalError
      | Inr None \<Rightarrow> notFound
      | Inr (Some t) \<Rightarrow> HttpOK 200 t)"

text \<open>The three views of the list: full records, the spawn dialog's pairs, the bare names.\<close>

datatype templateList =
    FullView "AgentTemplate list"
  | SpawnView "(string \<times> bool) list"
  | NameView "string list"

definition handleListTemplates :: "'s Store \<Rightarrow> bool \<Rightarrow> string \<Rightarrow> string \<Rightarrow> 's \<Rightarrow> templateList http" where
  "handleListTemplates S cpOK detail orgId s =
     (if equal_fold detail ''full'' then
        (if \<not> cpOK then HttpError 401 ''unauthorized''
         else case ListTemplates S True s of
             Inl e \<Rightarrow> internalError
           | Inr tpls \<Rightarrow> HttpOK 200 (FullView (if orgId \<noteq> [] then filterTemplatesOwnOrg tpls orgId else tpls)))
      else case ListTemplates S False s of
          Inl e \<Rightarrow> internalError
        | Inr tpls \<Rightarrow>
            let vis = filterTemplatesVisible tpls orgId
            in if equal_fold detail ''spawn'' then HttpOK 200 (SpawnView (map (\<lambda>t. (tplAgentType t, tplRequiresTenant t)) vis))
               else HttpOK 200 (NameView (map tplAgentType vis)))"

section \<open>Requests of one caller\<close>

text \<open>A step is any template request with the given scope, accepted or not.\<close>

inductive templateStep :: "string \<Rightarrow> store \<Rightarrow> store \<Rightarrow> bool" for scope where
  post: "handlePostTemplate memStore scope body s = (ans, s') \<Longrightarrow> templateStep scope s s'"
| patch: "handlePatchTemplate memStore ty scope body s = (ans', s') \<Longrightarrow> templateStep scope s s'"
| delete: "handleDeleteTemplate memStore ty scope s = (ans, s') \<Longrightarrow> templateStep scope s s'"

lemma storeTemplate_effect: "storeTemplate memStore t s = (ans, s') \<Longrightarrow> s' = s \<or> s' = putTemplate t s"
  by (cases "creatableStatus (tplStatus t)"; cases "ValidateTpl memStore t s")
     (simp_all add: storeTemplate_def memStore_simps(1))

lemma post_effect:
  assumes "handlePostTemplate memStore org body s = (ans, s')"
  shows "s' = s \<or> (\<exists>t. s' = putTemplate t s \<and>
     (case gget (stTemplates s) (tplAgentType t) of
        None \<Rightarrow> tplOrgID t = org
      | Some old \<Rightarrow> tplOrgID t = tplOrgID old \<and> (org = [] \<or> tplOrgID old = org)))"
proof (cases body)
  case (Inr t0)
  show ?thesis
  proof (cases "gget (stTemplates s) (tplAgentType t0)")
    case None
    then have "s' = s \<or> storeTemplate memStore (t0\<lparr>tplOrgID := org\<rparr>) s = (ans, s')"
      using assms Inr by (simp add: handlePostTemplate_def memStore_simps getTemplate_def Let_def split: if_splits)
    then have "s' = s \<or> s' = putTemplate (t0\<lparr>tplOrgID := org\<rparr>) s" using storeTemplate_effect by blast
    then show ?thesis using None by (elim disjE) (simp_all, intro disjI2 exI conjI, rule refl, simp)
  next
    case (Some old)
    then have "s' = s \<or> storeTemplate memStore (t0\<lparr>tplOrgID := tplOrgID old\<rparr>) s = (ans, s') \<and> (org = [] \<or> tplOrgID old = org)"
      using assms Inr by (simp add: handlePostTemplate_def memStore_simps getTemplate_def Let_def split: if_splits)
    then have "s' = s \<or> s' = putTemplate (t0\<lparr>tplOrgID := tplOrgID old\<rparr>) s \<and> (org = [] \<or> tplOrgID old = org)"
      using storeTemplate_effect by blast
    then show ?thesis using Some by (elim disjE conjE) (simp_all, (intro disjI2 exI conjI, rule refl, simp)+)
  qed
qed (use assms in \<open>simp add: handlePostTemplate_def\<close>)

lemma patch_effect:
  assumes "handlePatchTemplate memStore ty org body s = (ans, s')"
  shows "s' = s \<or> (\<exists>t st. gget (stTemplates s) ty = Some t \<and> (org = [] \<or> tplOrgID t = org) \<and>
     s' = s\<lparr>stTemplates := gput ty (t\<lparr>tplStatus := st\<rparr>) (stTemplates s)\<rparr>)"
proof (cases "s' = s")
  case False
  then obtain st where "body = Inr st" using assms by (cases body) (auto simp: handlePatchTemplate_def split: if_splits)
  then have scope: "org \<noteq> [] \<Longrightarrow> templateInScope memStore ty org s = (None :: AgentTemplate http option)"
    and upd: "s' = snd (updateTemplateStatus ty st s)"
    using assms False
    by (auto simp: handlePatchTemplate_def memStore_simps okW_simp split: if_splits option.splits)
  obtain t where t: "gget (stTemplates s) ty = Some t"
    using upd False by (cases "gget (stTemplates s) ty") (auto simp: updateTemplateStatus_def)
  moreover have "org = [] \<or> tplOrgID t = org"
    using scope t by (cases "org = []") (auto simp: templateInScope_def memStore_simps getTemplate_def split: if_splits)
  moreover have "s' = s\<lparr>stTemplates := gput ty (t\<lparr>tplStatus := st\<rparr>) (stTemplates s)\<rparr>"
    using upd t by (simp add: updateTemplateStatus_def Let_def)
  ultimately show ?thesis by blast
qed simp

lemma delete_effect:
  assumes "handleDeleteTemplate memStore ty org s = (ans, s')"
  shows "s' = s \<or> (\<exists>t. gget (stTemplates s) ty = Some t \<and> (org = [] \<or> tplOrgID t = org) \<and>
     tplStatus t = TemplateStatusDisabled \<and> s' = s\<lparr>stTemplates := gdel ty (stTemplates s)\<rparr>)"
proof (cases "gget (stTemplates s) ty")
  case None
  then show ?thesis using assms by (simp add: handleDeleteTemplate_def memStore_simps getTemplate_def split: if_splits)
next
  case (Some t)
  then show ?thesis using assms
    by (cases "org \<noteq> [] \<and> tplOrgID t \<noteq> org"; cases "tplStatus t = TemplateStatusDisabled")
       (simp_all add: handleDeleteTemplate_def memStore_simps okW_simp getTemplate_def deleteTemplate_def split: if_splits)
qed

definition tplScope :: "store \<Rightarrow> string \<Rightarrow> string option" where
  "tplScope s ty = map_option tplOrgID (gget (stTemplates s) ty)"

text \<open>What a step does to one name: nothing, an edit in place, a deletion or a creation.\<close>

lemma templateStep_cases:
  assumes "templateStep org s s'"
  shows "gget (stTemplates s') ty = gget (stTemplates s) ty \<or>
    (\<exists>t t'. gget (stTemplates s) ty = Some t \<and> gget (stTemplates s') ty = Some t' \<and> tplOrgID t' = tplOrgID t \<and> (org = [] \<or> tplOrgID t = org)) \<or>
    (\<exists>t. gget (stTemplates s) ty = Some t \<and> gget (stTemplates s') ty = None \<and> tplStatus t = TemplateStatusDisabled \<and> (org = [] \<or> tplOrgID t = org)) \<or>
    (\<exists>t'. gget (stTemplates s) ty = None \<and> gget (stTemplates s') ty = Some t' \<and> tplOrgID t' = org)"
  using assms
proof cases
  case post
  from post_effect [OF post] show ?thesis
  proof (elim disjE exE conjE)
    fix t assume "s' = putTemplate t s" and "case gget (stTemplates s) (tplAgentType t) of
        None \<Rightarrow> tplOrgID t = org
      | Some old \<Rightarrow> tplOrgID t = tplOrgID old \<and> (org = [] \<or> tplOrgID old = org)"
    then show ?thesis
      by (cases "ty = tplAgentType t"; cases "gget (stTemplates s) ty") (simp_all add: putTemplate_def gomap_simps)
  qed simp
next
  case (patch ty')
  from patch_effect [OF patch] show ?thesis
    by (elim disjE exE conjE; cases "ty = ty'") (simp_all add: gomap_simps)
next
  case (delete ty')
  from delete_effect [OF delete] show ?thesis
    by (elim disjE exE conjE; cases "ty = ty'") (simp_all add: gomap_simps)
qed

text \<open>
  C5: an organization's administrator cannot touch templates of others. However many template requests
  scoped to an organization are made, every template that is global or of another
  organization is exactly what it was, and every template that appears under a new name belongs to that
  organization.
\<close>

theorem scoped_requests_isolated:
  assumes "(templateStep org)\<^sup>*\<^sup>* s s'" and "org \<noteq> []"
  shows "(\<forall>ty t. gget (stTemplates s) ty = Some t \<and> tplOrgID t \<noteq> org \<longrightarrow> gget (stTemplates s') ty = Some t) \<and>
    (\<forall>ty t'. gget (stTemplates s') ty = Some t' \<and> tplOrgID t' \<noteq> org \<longrightarrow> gget (stTemplates s) ty = Some t')"
  using assms(1)
proof induction
  case (step s1 s2)
  have "(gget (stTemplates s2) ty = Some t \<and> tplOrgID t \<noteq> org) = (gget (stTemplates s1) ty = Some t \<and> tplOrgID t \<noteq> org)" for ty t
    using templateStep_cases [OF step.hyps(2), of ty] assms(2) by auto
  then show ?case using step.IH by blast
qed simp

text \<open>Fixtures: a global template and one of the organization \<open>acme\<close>.\<close>

definition demoTemplate :: "string \<Rightarrow> string \<Rightarrow> AgentTemplate" where
  "demoTemplate ty org =
     \<lparr>tplAgentType = ty, tplVersion = ''v1'', tplStatus = TemplateStatusActive,
      tplMeta = \<lparr>metaDisplayName = [], metaDescription = []\<rparr>,
      tplRuntime = \<lparr>rtImage = ''img'', rtResources = \<lparr>resCPULimit = [], resMemoryLimit = []\<rparr>,
        rtEnvDefaults = [], rtLifecycle = ''task'', rtSupportsChat = False\<rparr>,
      tplAuthZ = \<lparr>azSpiceDBRelations = []\<rparr>,
      tplDelegation = \<lparr>delAllowedChildTypes = [], delGrantableScopes = None, delMaxDepth = 0, delChildPolicies = []\<rparr>,
      tplRequiresTenant = False, tplOrgID = org, tplOAuthScopes = []\<rparr>"

definition catalogStore :: store where
  "catalogStore = lineStore\<lparr>stTemplates := [(''g'', demoTemplate ''g'' []), (''a'', demoTemplate ''a'' ''acme'')]\<rparr>"

lemma catalogStore_simps [simp]:
  "stTemplates catalogStore = [(''g'', demoTemplate ''g'' []), (''a'', demoTemplate ''a'' ''acme'')]"
  "tplOrgID (demoTemplate ty org) = org" "tplAgentType (demoTemplate ty org) = ty"
  by (simp_all add: catalogStore_def demoTemplate_def)

lemma catalog_steal: "templateStep ''acme'' catalogStore (snd (handlePostTemplate memStore ''acme'' (Inr (demoTemplate ''g'' ''acme'')) catalogStore))"
  by (rule templateStep.post [OF surjective_pairing])

theorem scoped_requests_isolated_witness:
  "gget (stTemplates (snd (handlePostTemplate memStore ''acme'' (Inr (demoTemplate ''g'' ''acme'')) catalogStore))) ''g'' =
     Some (demoTemplate ''g'' [])"
  using scoped_requests_isolated [OF r_into_rtranclp, OF catalog_steal] by simp

text \<open>
  No request moves a template between organizations or removes one that is in use. Whatever the
  scope of the caller, a template that still exists after any request has the organization it
  had, and a template can only disappear when it was disabled and the caller was a realm administrator or
  of its organization.
\<close>

theorem template_scope_and_deletion:
  assumes "templateStep org s s'" and "gget (stTemplates s) ty = Some t"
  shows "case gget (stTemplates s') ty of
      None \<Rightarrow> tplStatus t = TemplateStatusDisabled \<and> (org = [] \<or> tplOrgID t = org)
    | Some t' \<Rightarrow> tplOrgID t' = tplOrgID t"
  using templateStep_cases [OF assms(1), of ty] assms(2) by auto

theorem template_scope_and_deletion_witness:
  "tplScope (snd (handlePostTemplate memStore ''acme'' (Inr (demoTemplate ''g'' ''acme'')) catalogStore)) ''g'' = Some [] \<or>
   tplScope (snd (handlePostTemplate memStore ''acme'' (Inr (demoTemplate ''g'' ''acme'')) catalogStore)) ''g'' = None"
  using template_scope_and_deletion [OF catalog_steal, of "''g''" "demoTemplate ''g'' []"]
  by (auto simp: tplScope_def split: option.splits)

text \<open>
  The public list shows what a caller may spawn and no more. Without control-plane
  authentication and whatever the detail parameter, the answer is either 401 or built from exactly the
  templates that are not disabled and are global or of the caller's organization.
\<close>

theorem public_template_list:
  "handleListTemplates memStore False detail org s =
     (if equal_fold detail ''full'' then HttpError 401 ''unauthorized''
      else let vis = filter (\<lambda>t. tplStatus t \<noteq> TemplateStatusDisabled \<and> (tplOrgID t = [] \<or> tplOrgID t = org)) (gvals (stTemplates s))
           in if equal_fold detail ''spawn'' then HttpOK 200 (SpawnView (map (\<lambda>t. (tplAgentType t, tplRequiresTenant t)) vis))
              else HttpOK 200 (NameView (map tplAgentType vis)))"
  by (simp add: handleListTemplates_def mem_simps listTemplates_def filterTemplatesVisible_def conj_commute Let_def)

end
