(* ===== verification/Orgs.thy ===== *)
theory Orgs
  imports Directory Revocation Templates
begin

text \<open>
  Organization onboarding, suspension, deletion and membership (\<open>cmd/registry/orgs.go\<close>). Every mutation
  writes the identity directory, the store and the SpiceDB membership tuples, in the order of the source,
  with the unwinding of a failed creation. A handler that runs a revoke cascade returns \<^term>\<open>None\<close>
  where the cascade would not end.
\<close>

section \<open>Helpers\<close>

definition reservedOrgIDs :: "string list" where
  "reservedOrgIDs = [''www'', ''api'', ''auth'', ''admin'', ''mobile'', ''docs'']"

definition orgTuple :: "string \<Rightarrow> string \<Rightarrow> string \<Rightarrow> string \<times> string \<times> string" where
  "orgTuple orgID role userID = (orgRef orgID, role, userRef userID)"

definition writeOrgTuple ::
  "'d SpiceDB \<Rightarrow> string \<Rightarrow> string \<Rightarrow> string \<Rightarrow> ('s, 'd, 'z) world_scheme \<Rightarrow> go_error option \<times> ('s, 'd, 'z) world_scheme" where
  "writeOrgTuple D orgID role user w =
     (case orgTuple orgID role user of (res, rel, sub) \<Rightarrow>
        (case WriteRelationship D res rel sub (wSdb w) of (e, d) \<Rightarrow> (e, w\<lparr>wSdb := d\<rparr>)))"

definition deleteOrgTuple ::
  "'d SpiceDB \<Rightarrow> string \<Rightarrow> string \<Rightarrow> string \<Rightarrow> ('s, 'd, 'z) world_scheme \<Rightarrow> go_error option \<times> ('s, 'd, 'z) world_scheme" where
  "deleteOrgTuple D orgID role user w =
     (case orgTuple orgID role user of (res, rel, sub) \<Rightarrow>
        (case DeleteRelationship D res rel sub (wSdb w) of (e, d) \<Rightarrow> (e, w\<lparr>wSdb := d\<rparr>)))"

definition requireOrg :: "'s Store \<Rightarrow> string \<Rightarrow> 's \<Rightarrow> 'b http option" where
  "requireOrg S oid s =
     (case GetOrg S oid s of
        Inl e \<Rightarrow> Some internalError
      | Inr None \<Rightarrow> Some notFound
      | Inr (Some _) \<Rightarrow> None)"

definition isMasterAdmin :: "string \<Rightarrow> string \<Rightarrow> bool" where
  "isMasterAdmin masterAdmin username = (masterAdmin \<noteq> [] \<and> equal_fold masterAdmin username)"

text \<open>A loop over members that stops at the first directory error.\<close>

fun eachMember ::
  "(Member \<Rightarrow> ('s, 'd, 'g) orgWorld \<Rightarrow> go_error option \<times> ('s, 'd, 'g) orgWorld) \<Rightarrow> Member list \<Rightarrow>
     ('s, 'd, 'g) orgWorld \<Rightarrow> go_error option \<times> ('s, 'd, 'g) orgWorld" where
  "eachMember f [] w = (None, w)"
| "eachMember f (m # ms) w = (case f m w of (Some e, w1) \<Rightarrow> (Some e, w1) | (None, w1) \<Rightarrow> eachMember f ms w1)"

text \<open>Here an error is passed on without the words \<open>fmt.Errorf\<close> puts before it: the handlers only log it.\<close>

definition disableOrgMembers ::
  "'g Directory \<Rightarrow> string \<Rightarrow> string \<Rightarrow> ('s, 'd, 'g) orgWorld \<Rightarrow> go_error option \<times> ('s, 'd, 'g) orgWorld" where
  "disableOrgMembers G oid masterAdmin w =
     (case dirListMembers G oid (wDir w) of
        Inl e \<Rightarrow> (Some e, w)
      | Inr members \<Rightarrow>
          eachMember (\<lambda>m w. if isMasterAdmin masterAdmin (memUserID m) then (None, w)
                           else onDir (dirDisableUser G (memUserID m) oid) w) members w)"

definition enableOrgMembers ::
  "'g Directory \<Rightarrow> string \<Rightarrow> ('s, 'd, 'g) orgWorld \<Rightarrow> go_error option \<times> ('s, 'd, 'g) orgWorld" where
  "enableOrgMembers G oid w =
     (case dirListMembers G oid (wDir w) of
        Inl e \<Rightarrow> (Some e, w)
      | Inr members \<Rightarrow>
          eachMember (\<lambda>m w. case onDir (dirEnableUser G (memUserID m) oid) w of
                             (Inl e, w1) \<Rightarrow> (Some e, w1)
                           | (Inr _, w1) \<Rightarrow> (None, w1)) members w)"

definition suspendOrgAgents ::
  "'s Store \<Rightarrow> 'd SpiceDB \<Rightarrow> string \<Rightarrow> ('s, 'd, 'z) world_scheme \<Rightarrow> (go_error option \<times> ('s, 'd, 'z) world_scheme) option" where
  "suspendOrgAgents S D orgID w = revokeCascadeRoots S D (\<lambda>a. agOrgID a = orgID) (\<lambda>a. agOrgID a = orgID) w"

section \<open>Creation\<close>

record orgCreateReq =
  ocOrgID :: string
  ocName :: string
  ocAdminUser :: string

text \<open>The id of the new organization: the one asked for, checked, or a fresh one.\<close>

definition chooseOrgID :: "string \<Rightarrow> orgCreateReq \<Rightarrow> 'b http + string" where
  "chooseOrgID guid req =
     (if ocOrgID req = [] then
        (if trim_space (ocName req) = [] then Inl (HttpError 400 ''organization name is required'') else Inr guid)
      else if \<not> validOrgID (ocOrgID req) then Inl (HttpError 400 ''invalid orgId'')
      else if ocOrgID req \<in> set reservedOrgIDs then Inl (HttpError 400 ''orgId is reserved'')
      else Inr (ocOrgID req))"

text \<open>The guards of the self-serve path; \<^term>\<open>None\<close> lets the request pass.\<close>

definition selfServeGuard ::
  "'s Store \<Rightarrow> 'g Directory \<Rightarrow> nat \<Rightarrow> bool \<Rightarrow> string \<Rightarrow> ('s, 'd, 'g) orgWorld \<Rightarrow> 'b http option" where
  "selfServeGuard S G maxOrgs existed adminUser w =
     (case (if maxOrgs > 0 then ListOrgs S (wStore w) else Inr []) of
        Inl e \<Rightarrow> Some internalError
      | Inr orgs \<Rightarrow>
          if maxOrgs > 0 \<and> length orgs \<ge> maxOrgs then Some (HttpError 403 ''organization creation is currently at capacity'')
          else if existed then Some (HttpError 409 ''that organization ID is already taken'')
          else case dirListUserOrgs G adminUser (wDir w) of
              Inl e \<Rightarrow> Some (HttpError 500 ''org create failed'')
            | Inr userOrgs \<Rightarrow>
                if userOrgs \<noteq> [] then Some (HttpError 409 ''you already belong to an organization'') else None)"

definition unwindCreate ::
  "'s Store \<Rightarrow> 'd SpiceDB \<Rightarrow> 'g Directory \<Rightarrow> bool \<Rightarrow> string \<Rightarrow> string \<Rightarrow> ('s, 'd, 'g) orgWorld \<Rightarrow> ('s, 'd, 'g) orgWorld" where
  "unwindCreate S D G existed oid adminUser w =
     (let w1 = snd (deleteOrgTuple D oid RoleAdmin adminUser w);
          w2 = snd (onDir (dirRemoveMember G oid adminUser) w1)
      in if existed then w2
         else let w3 = w2\<lparr>wStore := snd (DeleteOrg S oid (wStore w2))\<rparr>
              in snd (onDir (dirDeleteOrg G oid) w3))"

definition redirectURI :: "string \<Rightarrow> string \<Rightarrow> string" where
  "redirectURI oid apex = ''https://'' @ oid @ ''.'' @ apex @ ''/callback''"

definition postLogoutURI :: "string \<Rightarrow> string \<Rightarrow> string" where
  "postLogoutURI oid apex = ''https://'' @ oid @ ''.'' @ apex @ ''/''"

text \<open>The stored record: a repeated create keeps four fields of the record it replaces.\<close>

definition createdOrg :: "string \<Rightarrow> string \<Rightarrow> time \<Rightarrow> Organization option \<Rightarrow> Organization" where
  "createdOrg oid name now prev =
     (let org = \<lparr>orgOrgID = oid, orgName = name, orgRemovalDisposition = [], orgDisabled = False, orgAnchor = None,
                 orgSubstrate = None, orgCreatedAt = now\<rparr>
      in case prev of
           None \<Rightarrow> org
         | Some p \<Rightarrow> org\<lparr>orgCreatedAt := orgCreatedAt p, orgRemovalDisposition := orgRemovalDisposition p,
                        orgAnchor := orgAnchor p, orgDisabled := orgDisabled p\<rparr>)"

text \<open>Steps 3 and 4 of a creation, after the record is stored.\<close>

definition wireAdmin ::
  "'s Store \<Rightarrow> 'd SpiceDB \<Rightarrow> 'g Directory \<Rightarrow> string \<Rightarrow> bool \<Rightarrow> Organization \<Rightarrow> string \<Rightarrow> ('s, 'd, 'g) orgWorld \<Rightarrow>
     Organization http \<times> ('s, 'd, 'g) orgWorld" where
  "wireAdmin S D G apexDomain existed org adminUser w =
     (let oid = orgOrgID org;
          fail = (\<lambda>w. (HttpError 500 ''org create failed'', unwindCreate S D G existed oid adminUser w));
          (tupleErr, w1) = writeOrgTuple D oid RoleAdmin adminUser w;
          (memberErr, w2) = (if tupleErr = None then onDir (dirAddMember G oid adminUser) w1 else (None, w1))
      in if tupleErr \<noteq> None \<or> memberErr \<noteq> None then fail w2
         else let (uriErr, w3) = (if apexDomain = [] then (None, w2)
                                  else onDir (dirRegisterOrgRedirectURIs G (redirectURI oid apexDomain) (postLogoutURI oid apexDomain)) w2)
              in if uriErr \<noteq> None
                 then fail (snd (onDir (dirRemoveOrgRedirectURIs G (redirectURI oid apexDomain) (postLogoutURI oid apexDomain)) w3))
                 else (HttpOK (if existed then 200 else 201) org, w3))"

definition handleCreateOrg ::
  "'s Store \<Rightarrow> 'd SpiceDB \<Rightarrow> 'g Directory \<Rightarrow> string \<Rightarrow> nat \<Rightarrow> string \<Rightarrow> time \<Rightarrow> bool \<Rightarrow> orgCreateReq result \<Rightarrow>
     ('s, 'd, 'g) orgWorld \<Rightarrow> Organization http \<times> ('s, 'd, 'g) orgWorld" where
  "handleCreateOrg S D G apexDomain maxOrgs guid now selfServe body w =
     (case body of
        Inl e \<Rightarrow> (HttpError 400 (errString e), w)
      | Inr req \<Rightarrow>
          (case chooseOrgID guid req of
             Inl err \<Rightarrow> (err, w)
           | Inr oid \<Rightarrow>
               let name = trim_space (ocName req); adminUser = ocAdminUser req
               in if \<not> ValidUserID adminUser then (HttpError 400 ''invalid adminUser'', w)
                  else case GetOrg S oid (wStore w) of
                      Inl e \<Rightarrow> (internalError, w)
                    | Inr prev \<Rightarrow>
                        (case (if selfServe then selfServeGuard S G maxOrgs (prev \<noteq> None) adminUser w else None) of
                           Some err \<Rightarrow> (err, w)
                         | None \<Rightarrow>
                             (case onDir (dirCreateOrg G oid name) w of
                                (Some e, w1) \<Rightarrow>
                                  (if e = ErrConflict
                                   then HttpError 409 (''An organization named '' @ dquoted name @ '' already exists.'')
                                   else HttpError 500 ''org create failed'', w1)
                              | (None, w1) \<Rightarrow>
                                  let org = createdOrg oid name now prev
                                  in case PutOrg S org (wStore w1) of
                                       (Some e, s2) \<Rightarrow>
                                         let w2 = w1\<lparr>wStore := s2\<rparr>
                                         in (internalError, if prev = None then snd (onDir (dirDeleteOrg G oid) w2) else w2)
                                     | (None, s2) \<Rightarrow>
                                         wireAdmin S D G apexDomain (prev \<noteq> None) org adminUser (w1\<lparr>wStore := s2\<rparr>)))))"

section \<open>Records and settings\<close>

fun knownOrgs :: "'s Store \<Rightarrow> 's \<Rightarrow> string list \<Rightarrow> Organization list result" where
  "knownOrgs S s [] = Inr []"
| "knownOrgs S s (a # as) =
     (case GetOrg S a s of
        Inl e \<Rightarrow> Inl e
      | Inr found \<Rightarrow>
          (case knownOrgs S s as of
             Inl e \<Rightarrow> Inl e
           | Inr orgs \<Rightarrow> Inr (case found of None \<Rightarrow> orgs | Some org \<Rightarrow> org # orgs)))"

definition handleListOrgs :: "'s Store \<Rightarrow> 'g Directory \<Rightarrow> string \<Rightarrow> ('s, 'd, 'g) orgWorld \<Rightarrow> Organization list http" where
  "handleListOrgs S G member w =
     (if member \<noteq> [] then
        (if \<not> ValidUserID member then HttpError 400 ''invalid member''
         else case dirListUserOrgs G member (wDir w) of
             Inl e \<Rightarrow> HttpError 500 ''org list failed''
           | Inr aliases \<Rightarrow>
               (case knownOrgs S (wStore w) aliases of Inl e \<Rightarrow> internalError | Inr orgs \<Rightarrow> HttpOK 200 orgs))
      else case ListOrgs S (wStore w) of Inl e \<Rightarrow> internalError | Inr orgs \<Rightarrow> HttpOK 200 orgs)"

definition handleGetOrg :: "'s Store \<Rightarrow> string \<Rightarrow> 's \<Rightarrow> Organization http" where
  "handleGetOrg S oid s =
     (case GetOrg S oid s of Inl e \<Rightarrow> internalError | Inr None \<Rightarrow> notFound | Inr (Some org) \<Rightarrow> HttpOK 200 org)"

text \<open>The read-modify-write of an organization record that the settings, anchor and substrate handlers share.\<close>

definition editOrg ::
  "'s Store \<Rightarrow> string \<Rightarrow> (Organization \<Rightarrow> Organization) \<Rightarrow> (Organization \<Rightarrow> 'b http) \<Rightarrow> ('s, 'd, 'z) world_scheme \<Rightarrow>
     'b http \<times> ('s, 'd, 'z) world_scheme" where
  "editOrg S oid f answer w =
     (case GetOrg S oid (wStore w) of
        Inl e \<Rightarrow> (internalError, w)
      | Inr None \<Rightarrow> (notFound, w)
      | Inr (Some org) \<Rightarrow>
          (case PutOrg S (f org) (wStore w) of
             (Some e, s1) \<Rightarrow> (internalError, w\<lparr>wStore := s1\<rparr>)
           | (None, s1) \<Rightarrow> (answer (f org), w\<lparr>wStore := s1\<rparr>)))"

definition handlePatchOrg ::
  "'s Store \<Rightarrow> string \<Rightarrow> string result \<Rightarrow> ('s, 'd, 'z) world_scheme \<Rightarrow> Organization http \<times> ('s, 'd, 'z) world_scheme" where
  "handlePatchOrg S oid body w =
     (case body of
        Inl e \<Rightarrow> (HttpError 400 (errString e), w)
      | Inr disposition \<Rightarrow>
          if disposition \<noteq> [] \<and> disposition \<noteq> RemovalAutoRevoke \<and> disposition \<noteq> RemovalOrphanToAdmin
          then (HttpError 400 ''invalid removalDisposition'', w)
          else editOrg S oid (\<lambda>org. org\<lparr>orgRemovalDisposition := disposition\<rparr>) (HttpOK 200) w)"

section \<open>Suspension and deletion\<close>

definition handleDisableOrg ::
  "'s Store \<Rightarrow> 'd SpiceDB \<Rightarrow> 'g Directory \<Rightarrow> string \<Rightarrow> string \<Rightarrow> ('s, 'd, 'g) orgWorld \<Rightarrow>
     (Organization http \<times> ('s, 'd, 'g) orgWorld) option" where
  "handleDisableOrg S D G masterAdmin oid w =
     (case GetOrg S oid (wStore w) of
        Inl e \<Rightarrow> Some (internalError, w)
      | Inr None \<Rightarrow> Some (notFound, w)
      | Inr (Some org0) \<Rightarrow>
          let org = org0\<lparr>orgDisabled := True\<rparr>
          in case PutOrg S org (wStore w) of
               (Some e, s1) \<Rightarrow> Some (internalError, w\<lparr>wStore := s1\<rparr>)
             | (None, s1) \<Rightarrow>
                 (case disableOrgMembers G oid masterAdmin (w\<lparr>wStore := s1\<rparr>) of
                    (Some e, w2) \<Rightarrow> Some (HttpError 500 ''org disable failed'', w2)
                  | (None, w2) \<Rightarrow>
                      (case suspendOrgAgents S D oid w2 of
                         None \<Rightarrow> None
                       | Some (Some e, w3) \<Rightarrow> Some (HttpError 500 ''org disable failed'', w3)
                       | Some (None, w3) \<Rightarrow> Some (HttpOK 200 org, w3))))"

definition handleEnableOrg ::
  "'s Store \<Rightarrow> 'g Directory \<Rightarrow> string \<Rightarrow> ('s, 'd, 'g) orgWorld \<Rightarrow> Organization http \<times> ('s, 'd, 'g) orgWorld" where
  "handleEnableOrg S G oid w =
     (case GetOrg S oid (wStore w) of
        Inl e \<Rightarrow> (internalError, w)
      | Inr None \<Rightarrow> (notFound, w)
      | Inr (Some org0) \<Rightarrow>
          (case enableOrgMembers G oid w of
             (Some e, w1) \<Rightarrow> (HttpError 500 ''org enable failed'', w1)
           | (None, w1) \<Rightarrow>
               let org = org0\<lparr>orgDisabled := False\<rparr>
               in case PutOrg S org (wStore w1) of
                    (Some e, s2) \<Rightarrow> (internalError, w1\<lparr>wStore := s2\<rparr>)
                  | (None, s2) \<Rightarrow> (HttpOK 200 org, w1\<lparr>wStore := s2\<rparr>)))"

definition dropMemberTuples ::
  "'d SpiceDB \<Rightarrow> string \<Rightarrow> string \<Rightarrow> ('s, 'd, 'z) world_scheme \<Rightarrow> ('s, 'd, 'z) world_scheme" where
  "dropMemberTuples D oid user w = fold (\<lambda>role w. snd (deleteOrgTuple D oid role user w)) [RoleMember, RoleAdmin] w"

definition handleDeleteOrg ::
  "'s Store \<Rightarrow> 'd SpiceDB \<Rightarrow> 'g Directory \<Rightarrow> string \<Rightarrow> string \<Rightarrow> ('s, 'd, 'g) orgWorld \<Rightarrow>
     unit http \<times> ('s, 'd, 'g) orgWorld" where
  "handleDeleteOrg S D G apexDomain oid w =
     (case requireOrg S oid (wStore w) of
        Some err \<Rightarrow> (err, w)
      | None \<Rightarrow>
          (case enableOrgMembers G oid w of
             (Some e, w1) \<Rightarrow> (HttpError 500 ''org delete failed'', w1)
           | (None, w1) \<Rightarrow>
               (case dirListMembers G oid (wDir w1) of
                  Inl e \<Rightarrow> (HttpError 500 ''org delete failed'', w1)
                | Inr members \<Rightarrow>
                    let w2 = fold (\<lambda>m. dropMemberTuples D oid (memUserID m)) members w1;
                        w3 = (if apexDomain = [] then w2
                              else snd (onDir (dirRemoveOrgRedirectURIs G (redirectURI oid apexDomain) (postLogoutURI oid apexDomain)) w2))
                    in case onDir (dirDeleteOrg G oid) w3 of
                         (Some e, w4) \<Rightarrow> (HttpError 500 ''org delete failed'', w4)
                       | (None, w4) \<Rightarrow>
                           (case DeleteOrg S oid (wStore w4) of
                              (Inl e, s5) \<Rightarrow> (internalError, w4\<lparr>wStore := s5\<rparr>)
                            | (Inr _, s5) \<Rightarrow> (HttpOK 204 (), w4\<lparr>wStore := s5\<rparr>)))))"

section \<open>Membership\<close>

record memberView =
  mvUserID :: string
  mvUsername :: string
  mvEmail :: string
  mvRole :: string

definition handleListMembers ::
  "'s Store \<Rightarrow> 'd SpiceDB \<Rightarrow> 'g Directory \<Rightarrow> string \<Rightarrow> ('s, 'd, 'g) orgWorld \<Rightarrow> memberView list http" where
  "handleListMembers S D G oid w =
     (case requireOrg S oid (wStore w) of
        Some err \<Rightarrow> err
      | None \<Rightarrow>
          (case dirListMembers G oid (wDir w) of
             Inl e \<Rightarrow> HttpError 500 ''member list failed''
           | Inr members \<Rightarrow>
               HttpOK 200 (map (\<lambda>m. \<lparr>mvUserID = memUserID m, mvUsername = memUsername m, mvEmail = memEmail m,
                 mvRole = (case CheckPermission D (orgRef oid) ''admin_agents'' (userRef (memUserID m)) (wSdb w) of
                             Inr True \<Rightarrow> RoleAdmin | _ \<Rightarrow> RoleMember)\<rparr>) members)))"

record addMemberReq =
  amUser :: string
  amRole :: string

definition handleAddMember ::
  "'s Store \<Rightarrow> 'd SpiceDB \<Rightarrow> 'g Directory \<Rightarrow> string \<Rightarrow> addMemberReq result \<Rightarrow> ('s, 'd, 'g) orgWorld \<Rightarrow>
     unit http \<times> ('s, 'd, 'g) orgWorld" where
  "handleAddMember S D G oid body w =
     (case body of
        Inl e \<Rightarrow> (HttpError 400 (errString e), w)
      | Inr req \<Rightarrow>
          let user = amUser req; role = (if amRole req = [] then RoleMember else amRole req)
          in if \<not> ValidUserID user then (HttpError 400 ''invalid user'', w)
             else if \<not> ValidRole role then (HttpError 400 ''invalid role'', w)
             else case GetOrg S oid (wStore w) of
                 Inl e \<Rightarrow> (internalError, w)
               | Inr None \<Rightarrow> (notFound, w)
               | Inr (Some org) \<Rightarrow>
                   if orgDisabled org then (HttpError 409 ''organization is disabled'', w)
                   else case onDir (dirAddMember G oid user) w of
                       (Some e, w1) \<Rightarrow> (HttpError 500 ''add member failed'', w1)
                     | (None, w1) \<Rightarrow>
                         (case writeOrgTuple D oid role user w1 of
                            (Some e, w2) \<Rightarrow> (HttpError 500 ''add member failed'', snd (onDir (dirRemoveMember G oid user) w2))
                          | (None, w2) \<Rightarrow> (HttpOK 201 (), w2)))"

definition handleSetRole ::
  "'s Store \<Rightarrow> 'd SpiceDB \<Rightarrow> 'g Directory \<Rightarrow> string \<Rightarrow> string \<Rightarrow> string result \<Rightarrow> ('s, 'd, 'g) orgWorld \<Rightarrow>
     unit http \<times> ('s, 'd, 'g) orgWorld" where
  "handleSetRole S D G oid user body w =
     (case body of
        Inl e \<Rightarrow> (HttpError 400 (errString e), w)
      | Inr role \<Rightarrow>
          if \<not> ValidRole role then (HttpError 400 ''invalid role'', w)
          else if \<not> ValidUserID user then (HttpError 400 ''invalid user'', w)
          else case requireOrg S oid (wStore w) of
              Some err \<Rightarrow> (err, w)
            | None \<Rightarrow>
                (case dirListUserOrgs G user (wDir w) of
                   Inl e \<Rightarrow> (HttpError 500 ''set role failed'', w)
                 | Inr userOrgs \<Rightarrow>
                     if oid \<notin> set userOrgs then (notFound, w)
                     else case onDir (dirSetRole G oid user role) w of
                         (Some e, w1) \<Rightarrow> (HttpError 500 ''set role failed'', w1)
                       | (None, w1) \<Rightarrow>
                           let other = (if role = RoleMember then RoleAdmin else RoleMember)
                           in case writeOrgTuple D oid role user w1 of
                                (Some e, w2) \<Rightarrow> (HttpError 500 ''set role failed'', w2)
                              | (None, w2) \<Rightarrow> (HttpOK 204 (), snd (deleteOrgTuple D oid other user w2))))"

definition removeMemberFromOrg ::
  "'s Store \<Rightarrow> 'd SpiceDB \<Rightarrow> 'g Directory \<Rightarrow> string \<Rightarrow> string \<Rightarrow> ('s, 'd, 'g) orgWorld \<Rightarrow>
     (go_error option \<times> ('s, 'd, 'g) orgWorld) option" where
  "removeMemberFromOrg S D G oid user w =
     (let w1 = dropMemberTuples D oid user w
      in case onDir (dirRemoveMember G oid user) w1 of
           (Some e, w2) \<Rightarrow> Some (Some (Err (''keycloak RemoveMember: '' @ errString e)), w2)
         | (None, w2) \<Rightarrow>
             (case GetOrg S oid (wStore w2) of
                Inl e \<Rightarrow> Some (Some (Err (''load org for disposition: '' @ errString e)), w2)
              | Inr found \<Rightarrow>
                  let disposition = (case found of
                                       None \<Rightarrow> RemovalOrphanToAdmin
                                     | Some org \<Rightarrow> if orgRemovalDisposition org \<noteq> [] then orgRemovalDisposition org
                                                   else RemovalOrphanToAdmin)
                  in case applyRemovalDisposition S D oid user disposition w2 of
                       None \<Rightarrow> None
                     | Some (Some e, w3) \<Rightarrow> Some (Some (Err (''apply disposition '' @ disposition @ '': '' @ errString e)), w3)
                     | Some (None, w3) \<Rightarrow>
                         if (case found of None \<Rightarrow> False | Some org \<Rightarrow> orgDisabled org)
                         then case onDir (dirEnableUser G user oid) w3 of
                             (Inl e, w4) \<Rightarrow>
                               Some (Some (Err (''clear org lock on removed member '' @ user @ '': '' @ errString e)), w4)
                           | (Inr _, w4) \<Rightarrow> Some (None, w4)
                         else Some (None, w3)))"

definition handleRemoveMember ::
  "'s Store \<Rightarrow> 'd SpiceDB \<Rightarrow> 'g Directory \<Rightarrow> string \<Rightarrow> string \<Rightarrow> ('s, 'd, 'g) orgWorld \<Rightarrow>
     (unit http \<times> ('s, 'd, 'g) orgWorld) option" where
  "handleRemoveMember S D G oid user w =
     (if \<not> ValidUserID user then Some (HttpError 400 ''invalid user'', w)
      else case requireOrg S oid (wStore w) of
          Some err \<Rightarrow> Some (err, w)
        | None \<Rightarrow>
            (case removeMemberFromOrg S D G oid user w of
               None \<Rightarrow> None
             | Some (Some e, w1) \<Rightarrow> Some (HttpError 500 ''remove member failed'', w1)
             | Some (None, w1) \<Rightarrow> Some (HttpOK 204 (), w1)))"

section \<open>Cascades over a scope\<close>

definition parentRel :: "(string \<rightharpoonup> AgentRecord) \<Rightarrow> (string \<times> string) set" where
  "parentRel m = {(p, c). p \<noteq> [] \<and> (\<exists>a. m c = Some a \<and> agParentID a = p)}"

lemma parentRel_finite: "finite (dom m) \<Longrightarrow> finite (parentRel m)"
proof -
  assume "finite (dom m)"
  moreover have "parentRel m \<subseteq> (\<lambda>c. (agParentID (the (m c)), c)) ` dom m" by (force simp: parentRel_def)
  ultimately show ?thesis by (meson finite_imageI finite_subset)
qed

lemma parentRel_descendants: "p \<in> descendants m r \<Longrightarrow> (p, c) \<in> parentRel m \<Longrightarrow> c \<in> descendants m r"
  by (auto simp: parentRel_def descendants_def intro: rtrancl_into_rtrancl)

text \<open>
  When the recorded lineage has no cycle, the cascades over the roots of a scope reach every agent
  of the scope.
\<close>

lemma cascadeSet_covers:
  assumes "acyclic (parentRel m)" and "finite (dom m)"
    and "\<And>a. a \<in> set as \<Longrightarrow> m (agAgentID a) = Some a"
    and "a \<in> set as" and "scope a"
  shows "agAgentID a \<in> cascadeSet (filter scope as) (map agAgentID (filter scope as)) m"
proof -
  have "wf (parentRel m)" using finite_acyclic_wf [OF parentRel_finite [OF assms(2)] assms(1)] .
  then have "\<forall>a \<in> set as. agAgentID a = i \<longrightarrow> scope a \<longrightarrow>
      i \<in> cascadeSet (filter scope as) (map agAgentID (filter scope as)) m" for i
  proof (induction i rule: wf_induct_rule)
    case (less i)
    show ?case
    proof (intro ballI impI)
      fix a assume a: "a \<in> set as" "agAgentID a = i" "scope a"
      show "i \<in> cascadeSet (filter scope as) (map agAgentID (filter scope as)) m"
      proof (cases "agParentID a \<noteq> [] \<and> agParentID a \<in> set (map agAgentID (filter scope as))")
        case True
        then obtain b where b: "b \<in> set as" "scope b" "agAgentID b = agParentID a" by auto
        have edge: "(agParentID a, i) \<in> parentRel m" using True a assms(3) by (auto simp: parentRel_def)
        with less.IH [OF edge] b have "agParentID a \<in> cascadeSet (filter scope as) (map agAgentID (filter scope as)) m" by auto
        then show ?thesis using parentRel_descendants [OF _ edge] by (auto simp: cascadeSet_def)
      next
        case False
        then show ?thesis using a by (auto simp: cascadeSet_def descendants_def)
      qed
    qed
  qed
  then show ?thesis using assms(4,5) by blast
qed

lemma cascadeOverRoots_start:
  "\<not> (agParentID a \<noteq> [] \<and> agParentID a \<in> set sc) \<Longrightarrow> subtree S (agAgentID a) (wStore w) = Some (Inr no) \<Longrightarrow>
   nodeLoop (revokeNode S D) (elems no) w = (Inr acted, w1) \<Longrightarrow>
   cascadeOverRoots S D (a # roots) sc w = cascadeOverRoots S D roots sc w1"
  by (simp only: cascadeOverRoots.simps if_False option.case sum.case prod.case)

lemma mem_cascadeOverRoots_ok:
  "agentsWf (wStore w) \<Longrightarrow> (\<And>a. a \<in> set roots \<Longrightarrow> agAgentID a \<noteq> [] \<and> gget (stAgents (wStore w)) (agAgentID a) \<noteq> None) \<Longrightarrow>
   \<exists>w'. cascadeOverRoots memStore D roots sc w = Some (None, w')"
proof (induction roots arbitrary: w)
  case (Cons a roots)
  show ?case
  proof (cases "agParentID a \<noteq> [] \<and> agParentID a \<in> set sc")
    case True
    then show ?thesis using Cons by auto
  next
    case False
    obtain r where r: "gget (stAgents (wStore w)) (agAgentID a) = Some r" "agAgentID a \<noteq> []"
      using Cons.prems(2) [of a] by auto
    obtain nodes where nodes: "subtree memStore (agAgentID a) (wStore w) = Some (Inr (Some nodes))"
      using mem_subtree [OF Cons.prems(1) r] by blast
    obtain acted w1 where loop: "nodeLoop (revokeNode memStore D) nodes w = (Inr acted, w1)"
      using mem_nodeLoop unfolding revokeNode_flip by blast
    have d: "distinct nodes" using mem.subtree_descendants [OF Cons.prems(1) nodes] by blast
    have w1: "agentsWf (wStore w1)" "gget (stAgents (wStore w1)) = revokeMap (set nodes) (gget (stAgents (wStore w)))"
      using life.nodeLoop_refines [of revocableStatus "''revoked''", OF _ _ Cons.prems(1) loop [unfolded revokeNode_flip] d]
      by (simp_all add: revokeMap_def)
    have "agAgentID b \<noteq> [] \<and> gget (stAgents (wStore w1)) (agAgentID b) \<noteq> None" if "b \<in> set roots" for b
      using Cons.prems(2) [of b] that by (auto simp: w1(2) revokeMap_def statusMap_def split: option.splits)
    then show ?thesis using Cons.IH [OF w1(1)] cascadeOverRoots_start [OF False nodes, of D acted w1] loop by simp
  qed
qed simp

text \<open>What a cascade over a scope does on the in-memory store, for every SpiceDB client.\<close>

lemma mem_revokeCascadeRoots:
  assumes "agentsWf (wStore w)" and "gget (stAgents (wStore w)) [] = None"
  shows "\<exists>w'. revokeCascadeRoots memStore D scope root w = Some (None, w') \<and> agentsWf (wStore w') \<and>
    gget (stAgents (wStore w')) =
      revokeMap (cascadeSet (filter root (listAgents (wStore w))) (map agAgentID (filter scope (listAgents (wStore w))))
        (gget (stAgents (wStore w)))) (gget (stAgents (wStore w)))"
proof -
  have known: "agAgentID a \<noteq> [] \<and> gget (stAgents (wStore w)) (agAgentID a) \<noteq> None"
    if "a \<in> set (filter root (listAgents (wStore w)))" for a
    using that assms(2) listAgents_iff [OF assms(1), of a] by (cases "agAgentID a") auto
  obtain w' where "cascadeOverRoots memStore D (filter root (listAgents (wStore w)))
      (map agAgentID (filter scope (listAgents (wStore w)))) w = Some (None, w')"
    using mem_cascadeOverRoots_ok [OF assms(1) known] by blast
  note run = this
  then have "agentsWf (wStore w') \<and> gget (stAgents (wStore w')) =
      revokeMap (cascadeSet (filter root (listAgents (wStore w))) (map agAgentID (filter scope (listAgents (wStore w))))
        (gget (stAgents (wStore w)))) (gget (stAgents (wStore w)))"
    using life.cascadeOverRoots_refines [OF assms(1), of "filter root (listAgents (wStore w))" D
        "map agAgentID (filter scope (listAgents (wStore w)))"] known
    by auto
  then show ?thesis using run by (simp add: revokeCascadeRoots_def memStore_simps)
qed

section \<open>Properties of suspension\<close>

lemma eachMember_frame:
  assumes "\<And>m w. wStore (snd (f m w)) = wStore w \<and> wSdb (snd (f m w)) = wSdb w"
  shows "wStore (snd (eachMember f ms w)) = wStore w \<and> wSdb (snd (eachMember f ms w)) = wSdb w"
proof (induction ms arbitrary: w)
  case (Cons m ms)
  obtain e w1 where "f m w = (e, w1)" by force
  then show ?case using assms [of m w] Cons.IH [of w1] by (cases e) simp_all
qed simp

lemma disableOrgMembers_frame:
  "wStore (snd (disableOrgMembers G oid ma w)) = wStore w \<and> wSdb (snd (disableOrgMembers G oid ma w)) = wSdb w"
proof (cases "dirListMembers G oid (wDir w)")
  case (Inr ms)
  then show ?thesis unfolding disableOrgMembers_def by simp (rule eachMember_frame, simp)
qed (simp add: disableOrgMembers_def)

lemma nodeLoop_orgs: "stOrgs (wStore (snd (nodeLoop (flipNode memStore g st tuple ty) ns w))) = stOrgs (wStore w)"
proof (induction ns arbitrary: w)
  case (Cons n ns)
  have step: "stOrgs (wStore (snd (flipNode memStore g st tuple ty n w))) = stOrgs (wStore w)"
    by (cases "g (agStatus (getAgent n (wStore w)))")
       (simp_all add: flipNode_def memStore_simps okW_simp appendEvent_def timeNow_def updateAgent_def Let_def split: option.splits)
  obtain ok w1 where 1: "flipNode memStore g st tuple ty n w = (ok, w1)" by force
  obtain acted w2 where 2: "nodeLoop (flipNode memStore g st tuple ty) ns w1 = (acted, w2)" by force
  show ?case using 1 2 step Cons.IH [of w1] by (cases ok; cases acted) simp_all
qed simp

lemma cascade_starts:
  assumes "cascadeOverRoots memStore D (a # roots) sc w = Some (e, w')" and "\<not> (agParentID a \<noteq> [] \<and> agParentID a \<in> set sc)"
  shows "\<exists>no. subtree memStore (agAgentID a) (wStore w) = Some (Inr no)"
proof (cases "subtree memStore (agAgentID a) (wStore w)")
  case None
  then show ?thesis using assms by (simp only: cascadeOverRoots.simps if_False option.case) simp
next
  case (Some r)
  then show ?thesis using subtree_no_error [of "agAgentID a" "wStore w"] by (cases r) auto
qed

lemma cascade_orgs: "cascadeOverRoots memStore D roots sc w = Some (e, w') \<Longrightarrow> stOrgs (wStore w') = stOrgs (wStore w)"
proof (induction roots arbitrary: w)
  case (Cons a roots)
  show ?case
  proof (cases "agParentID a \<noteq> [] \<and> agParentID a \<in> set sc")
    case True
    then show ?thesis using Cons by simp
  next
    case False
    obtain no where no: "subtree memStore (agAgentID a) (wStore w) = Some (Inr no)"
      using cascade_starts [OF Cons.prems False] by blast
    obtain acted w1 where loop: "nodeLoop (revokeNode memStore D) (elems no) w = (Inr acted, w1)"
      using mem_nodeLoop unfolding revokeNode_flip by blast
    then have "stOrgs (wStore w1) = stOrgs (wStore w)"
      using nodeLoop_orgs unfolding revokeNode_flip by (metis snd_conv)
    then show ?thesis using Cons.IH [of w1] Cons.prems cascadeOverRoots_start [OF False no loop] by simp
  qed
qed simp

definition withDisabledOrg :: "'s Store \<Rightarrow> Organization \<Rightarrow> ('s, 'd, 'g) orgWorld \<Rightarrow> ('s, 'd, 'g) orgWorld" where
  "withDisabledOrg S org w = w\<lparr>wStore := snd (PutOrg S (org\<lparr>orgDisabled := True\<rparr>) (wStore w))\<rparr>"

lemma mem_disableOrg:
  assumes "agentsWf (wStore w)" and "gget (stAgents (wStore w)) [] = None"
    and "gget (stOrgs (wStore w)) oid = Some org" and "orgOrgID org = oid"
    and "fst (disableOrgMembers G oid ma (withDisabledOrg memStore org w)) = None"
  shows "\<exists>w'. handleDisableOrg memStore D G ma oid w = Some (HttpOK 200 (org\<lparr>orgDisabled := True\<rparr>), w') \<and>
    gget (stOrgs (wStore w')) oid = Some (org\<lparr>orgDisabled := True\<rparr>) \<and>
    gget (stAgents (wStore w')) =
      revokeMap (cascadeSet (filter (\<lambda>a. agOrgID a = oid) (listAgents (wStore w)))
        (map agAgentID (filter (\<lambda>a. agOrgID a = oid) (listAgents (wStore w)))) (gget (stAgents (wStore w))))
        (gget (stAgents (wStore w)))"
proof -
  let ?w1 = "withDisabledOrg memStore org w"
  obtain w2 where dm: "disableOrgMembers G oid ma ?w1 = (None, w2)" using assms(5) by (metis prod.collapse)
  then have st: "wStore w2 = wStore ?w1" using disableOrgMembers_frame by (metis snd_conv)
  have s1: "stAgents (wStore w2) = stAgents (wStore w)" "stOrgs (wStore w2) = gput oid (org\<lparr>orgDisabled := True\<rparr>) (stOrgs (wStore w))"
    using assms(4) by (simp_all add: st withDisabledOrg_def memStore_simps putOrg_def)
  have ls: "listAgents (wStore w2) = listAgents (wStore w)" by (simp add: listAgents_def s1)
  obtain w' where w': "suspendOrgAgents memStore D oid w2 = Some (None, w')"
      and m': "gget (stAgents (wStore w')) =
        revokeMap (cascadeSet (filter (\<lambda>a. agOrgID a = oid) (listAgents (wStore w)))
          (map agAgentID (filter (\<lambda>a. agOrgID a = oid) (listAgents (wStore w)))) (gget (stAgents (wStore w))))
          (gget (stAgents (wStore w)))"
    using mem_revokeCascadeRoots [of w2 D "\<lambda>a. agOrgID a = oid" "\<lambda>a. agOrgID a = oid"] assms(1,2)
      agentsWf_cong [OF s1(1)] unfolding suspendOrgAgents_def ls s1 by auto
  have "stOrgs (wStore w') = stOrgs (wStore w2)"
    using w' cascade_orgs by (auto simp: suspendOrgAgents_def revokeCascadeRoots_def memStore_simps)
  moreover have "handleDisableOrg memStore D G ma oid w = Some (HttpOK 200 (org\<lparr>orgDisabled := True\<rparr>), w')"
    using assms(3) dm w' by (simp add: handleDisableOrg_def memStore_simps getOrg_def withDisabledOrg_def Let_def)
  ultimately show ?thesis using m' by (auto simp: s1 gomap_simps)
qed

text \<open>
  C6: suspending an organization stops every listed agent of it. When the organization exists, the directory
  accepts the member lockouts and the lineage has no cycle, the handler answers 200, the record is marked disabled,
  and afterwards no agent of the organization that is not dismissed is active or pending. This holds for every directory
  and every SpiceDB client.
\<close>

theorem suspension_revokes_org_agents:
  assumes "agentsWf (wStore w)" and "gget (stAgents (wStore w)) [] = None" and "acyclic (parentRel (gget (stAgents (wStore w))))"
    and "gget (stOrgs (wStore w)) oid = Some org" and "orgOrgID org = oid"
    and "fst (disableOrgMembers G oid ma (withDisabledOrg memStore org w)) = None"
  shows "\<exists>w'. handleDisableOrg memStore D G ma oid w = Some (HttpOK 200 (org\<lparr>orgDisabled := True\<rparr>), w') \<and>
    orgIsDisabled memStore oid (wStore w') = Inr (oid \<noteq> []) \<and>
    (\<forall>i a. gget (stAgents (wStore w)) i = Some a \<and> agOrgID a = oid \<and> \<not> agDismissed a \<longrightarrow>
       (\<exists>a'. gget (stAgents (wStore w')) i = Some a' \<and> \<not> revocableStatus (agStatus a')))"
proof -
  let ?m = "gget (stAgents (wStore w))" and ?f = "filter (\<lambda>a. agOrgID a = oid) (listAgents (wStore w))"
  obtain w' where h: "handleDisableOrg memStore D G ma oid w = Some (HttpOK 200 (org\<lparr>orgDisabled := True\<rparr>), w')"
      and o: "gget (stOrgs (wStore w')) oid = Some (org\<lparr>orgDisabled := True\<rparr>)"
      and m': "gget (stAgents (wStore w')) = revokeMap (cascadeSet ?f (map agAgentID ?f) ?m) ?m"
    using mem_disableOrg [OF assms(1,2,4,5,6)] by blast
  have "\<exists>a'. gget (stAgents (wStore w')) i = Some a' \<and> \<not> revocableStatus (agStatus a')"
    if a: "?m i = Some a" "agOrgID a = oid" "\<not> agDismissed a" for i a
  proof -
    have id: "agAgentID a = i" by (rule agentsWf_id [OF assms(1) a(1)])
    then have "a \<in> set (listAgents (wStore w))" using listAgents_iff [OF assms(1)] a by simp
    then have "i \<in> cascadeSet ?f (map agAgentID ?f) ?m"
      using cascadeSet_covers [OF assms(3) finite_dom_map_of, of "listAgents (wStore w)" a "\<lambda>a. agOrgID a = oid"]
        listAgents_iff [OF assms(1)] a(2) id by auto
    then show ?thesis using a(1) by (auto simp: m' revokeMap_def statusMap_def)
  qed
  then show ?thesis using h o by (auto simp: orgIsDisabled_def memStore_simps getOrg_def)
qed

definition acme :: Organization where
  "acme = \<lparr>orgOrgID = ''acme'', orgName = ''Acme'', orgRemovalDisposition = [], orgDisabled = False, orgAnchor = None,
     orgSubstrate = Some \<lparr>subStatus = SubstrateActive, subCertFingerprint = ''fp'', subCertSerial = ''1'', subIssuedAt = 0,
       subActivatedAt = None\<rparr>, orgCreatedAt = 0\<rparr>"

definition orgAgent :: "string \<Rightarrow> string \<Rightarrow> bool \<Rightarrow> AgentRecord" where
  "orgAgent oid parent gone = (lineAgent oid parent)\<lparr>agUserID := ''alice'', agOrgID := ''acme'', agDismissed := gone\<rparr>"

lemma orgAgent_simps [simp]:
  "agAgentID (orgAgent i p g) = i" "agParentID (orgAgent i p g) = p" "agOrgID (orgAgent i p g) = ''acme''"
  "agStatus (orgAgent i p g) = ''active''" "agDismissed (orgAgent i p g) = g" "agUserID (orgAgent i p g) = ''alice''"
  "orgOrgID acme = ''acme''"
  by (simp_all add: orgAgent_def acme_def)

definition acmeWorld :: "(store, Mock, unit) orgWorld" where
  "acmeWorld = \<lparr>wStore = lineStore\<lparr>stAgents := [(''r'', orgAgent ''r'' [] False), (''c'', orgAgent ''c'' ''r'' False),
       (''z'', orgAgent ''z'' [] True)], stOrgs := [(''acme'', acme)]\<rparr>,
     wSdb = [tupleKey (orgRef ''acme'') RoleAdmin (userRef ''alice''), tupleKey (agentRef ''r'') ''owner'' (userRef ''alice'')], wDir = ()\<rparr>"

lemma acmeWorld_simps [simp]:
  "stAgents (wStore acmeWorld) = [(''r'', orgAgent ''r'' [] False), (''c'', orgAgent ''c'' ''r'' False), (''z'', orgAgent ''z'' [] True)]"
  "stOrgs (wStore acmeWorld) = [(''acme'', acme)]" "wDir acmeWorld = ()"
  by (simp_all add: acmeWorld_def)

lemma acmeWorld_wf: "agentsWf (wStore acmeWorld)" "gget (stAgents (wStore acmeWorld)) [] = None"
    "gget (stOrgs (wStore acmeWorld)) ''acme'' = Some acme"
  by (simp_all add: agentsWf_def)

lemma acmeWorld_acyclic: "acyclic (parentRel (gget (stAgents (wStore acmeWorld))))"
proof (rule acyclic_subset)
  show "parentRel (gget (stAgents (wStore acmeWorld))) \<subseteq> {(''r'', ''c'')}" by (auto simp: parentRel_def split: if_splits)
  show "acyclic {(''r'', ''c'')}" by (simp add: acyclic_def trancl_insert)
qed

lemma acmeWorld_members: "fst (disableOrgMembers openDirectory ''acme'' ''root'' (withDisabledOrg memStore acme acmeWorld)) = None"
  by (simp add: disableOrgMembers_def withDisabledOrg_def)

theorem suspension_revokes_org_agents_witness:
  "\<exists>w' a'. handleDisableOrg memStore mockClient openDirectory ''root'' ''acme'' acmeWorld =
       Some (HttpOK 200 (acme\<lparr>orgDisabled := True\<rparr>), w') \<and>
     gget (stAgents (wStore w')) ''c'' = Some a' \<and> \<not> revocableStatus (agStatus a')"
proof -
  have "gget (stAgents (wStore acmeWorld)) ''c'' = Some (orgAgent ''c'' ''r'' False) \<and> agOrgID (orgAgent ''c'' ''r'' False) = ''acme'' \<and>
      \<not> agDismissed (orgAgent ''c'' ''r'' False)" by simp
  then show ?thesis
    using suspension_revokes_org_agents [OF acmeWorld_wf(1,2) acmeWorld_acyclic acmeWorld_wf(3) orgAgent_simps(7) acmeWorld_members,
        of mockClient] by blast
qed

text \<open>
  A dismissed agent escapes the suspension of its organization. The cascade starts from the list of
  agents, which leaves dismissed ones out, so a dismissed agent that is not below a listed agent of the
  organization keeps its record, active status included.
\<close>

theorem dismissed_agent_escapes_suspension:
  assumes "agentsWf (wStore w)" and "gget (stAgents (wStore w)) [] = None"
    and "gget (stOrgs (wStore w)) oid = Some org" and "orgOrgID org = oid"
    and "fst (disableOrgMembers G oid ma (withDisabledOrg memStore org w)) = None"
    and "gget (stAgents (wStore w)) i = Some a" and "agDismissed a"
    and "\<forall>r b. gget (stAgents (wStore w)) r = Some b \<and> \<not> agDismissed b \<longrightarrow> i \<notin> descendants (gget (stAgents (wStore w))) r"
  shows "\<exists>w'. handleDisableOrg memStore D G ma oid w = Some (HttpOK 200 (org\<lparr>orgDisabled := True\<rparr>), w') \<and>
    gget (stAgents (wStore w')) i = Some a"
proof -
  let ?m = "gget (stAgents (wStore w))" and ?f = "filter (\<lambda>a. agOrgID a = oid) (listAgents (wStore w))"
  obtain w' where h: "handleDisableOrg memStore D G ma oid w = Some (HttpOK 200 (org\<lparr>orgDisabled := True\<rparr>), w')"
      and m': "gget (stAgents (wStore w')) = revokeMap (cascadeSet ?f (map agAgentID ?f) ?m) ?m"
    using mem_disableOrg [OF assms(1-5)] by blast
  have "i \<notin> cascadeSet ?f (map agAgentID ?f) ?m"
    using assms(8) listAgents_iff [OF assms(1)] by (auto simp: cascadeSet_def)
  then have "gget (stAgents (wStore w')) i = Some a" using assms(6) by (simp add: m' revokeMap_def statusMap_def)
  then show ?thesis using h by blast
qed

lemma acmeWorld_z: "(r, ''z'') \<in> {(p, c). \<exists>a. gget (stAgents (wStore acmeWorld)) c = Some a \<and> agParentID a = p}\<^sup>* \<Longrightarrow> r = ''z'' \<or> r = []"
proof (induction rule: converse_rtrancl_induct)
  case (step y z)
  then show ?case by (auto split: if_splits)
qed simp

theorem dismissed_agent_escapes_suspension_witness:
  "\<exists>w' a. handleDisableOrg memStore mockClient openDirectory ''root'' ''acme'' acmeWorld =
       Some (HttpOK 200 (acme\<lparr>orgDisabled := True\<rparr>), w') \<and>
     gget (stAgents (wStore w')) ''z'' = Some a \<and> agOrgID a = ''acme'' \<and> agStatus a = ''active''"
proof -
  have z: "gget (stAgents (wStore acmeWorld)) ''z'' = Some (orgAgent ''z'' [] True)" by simp
  have "\<forall>r b. gget (stAgents (wStore acmeWorld)) r = Some b \<and> \<not> agDismissed b \<longrightarrow>
      ''z'' \<notin> descendants (gget (stAgents (wStore acmeWorld))) r"
    using acmeWorld_z by (fastforce simp: descendants_def split: if_splits)
  then show ?thesis
    using dismissed_agent_escapes_suspension [OF acmeWorld_wf orgAgent_simps(7) acmeWorld_members z, of mockClient] by auto
qed

section \<open>Properties of creation\<close>

lemma writeOrgTuple_simps [simp]:
  "wStore (snd (writeOrgTuple D oid role u w)) = wStore w" "wStore (snd (deleteOrgTuple D oid role u w)) = wStore w"
  by (simp_all add: writeOrgTuple_def deleteOrgTuple_def orgTuple_def split: prod.splits)

lemma mock_orgTuple:
  "fst (writeOrgTuple mockClient oid role u w) = None"
  "set (wSdb (snd (writeOrgTuple mockClient oid role u w))) = insert (tupleKey (orgRef oid) role (userRef u)) (set (wSdb w))"
  "set (wSdb (snd (deleteOrgTuple mockClient oid role u w))) = set (wSdb w) - {tupleKey (orgRef oid) role (userRef u)}"
  by (simp_all add: writeOrgTuple_def deleteOrgTuple_def orgTuple_def mem_simps mockWrite_def mockDelete_def split: prod.splits)

lemma unwindCreate_mem:
  "stOrgs (wStore (unwindCreate memStore D G existed oid u w)) = (if existed then stOrgs (wStore w) else gdel oid (stOrgs (wStore w)))"
  "stAgents (wStore (unwindCreate memStore D G existed oid u w)) = stAgents (wStore w)"
  by (simp_all add: unwindCreate_def memStore_simps okW_simp deleteOrg_def Let_def delete_idem map_of_eq_None_iff)

lemma unwindCreate_mock:
  "set (wSdb (unwindCreate S mockClient G existed oid u w)) = set (wSdb w) - {tupleKey (orgRef oid) RoleAdmin (userRef u)}"
  by (simp add: unwindCreate_def Let_def mock_orgTuple)

text \<open>Steps 3 and 4 either succeed with the tuple written or unwind.\<close>

lemma wireAdmin_mem:
  assumes "wireAdmin memStore mockClient G apex existed org u w = (ans, w')"
  shows "(ans = HttpOK (if existed then 200 else 201) org \<and> wStore w' = wStore w \<and>
      set (wSdb w') = insert (tupleKey (orgRef (orgOrgID org)) RoleAdmin (userRef u)) (set (wSdb w))) \<or>
    (ans = HttpError 500 ''org create failed'' \<and> stAgents (wStore w') = stAgents (wStore w) \<and>
      stOrgs (wStore w') = (if existed then stOrgs (wStore w) else gdel (orgOrgID org) (stOrgs (wStore w))) \<and>
      set (wSdb w') = set (wSdb w) - {tupleKey (orgRef (orgOrgID org)) RoleAdmin (userRef u)})"
proof -
  obtain w1 where w1: "writeOrgTuple mockClient (orgOrgID org) RoleAdmin u w = (None, w1)"
    using mock_orgTuple(1) by (metis prod.collapse)
  obtain memberErr w2 where w2: "onDir (dirAddMember G (orgOrgID org) u) w1 = (memberErr, w2)" by force
  obtain uriErr w3 where w3: "(if apex = [] then (None, w2) else onDir (dirRegisterOrgRedirectURIs G
      (redirectURI (orgOrgID org) apex) (postLogoutURI (orgOrgID org) apex)) w2) = (uriErr, w3)" by force
  have "wStore w3 = wStore w2 \<and> wSdb w3 = wSdb w2"
    using w3 by (cases "apex = []") (auto dest: onDir_frame)
  then have fr: "wStore w3 = wStore w" "wSdb w3 = wSdb w1" "wStore w2 = wStore w" "wSdb w2 = wSdb w1"
    using w1 onDir_frame [OF w2] writeOrgTuple_simps(1) [of mockClient "orgOrgID org" RoleAdmin u w] by simp_all
  have key: "set (wSdb w1) = insert (tupleKey (orgRef (orgOrgID org)) RoleAdmin (userRef u)) (set (wSdb w))"
    using mock_orgTuple(2) [of "orgOrgID org" RoleAdmin u w] w1 by simp
  consider (memErr) "memberErr \<noteq> None" | (uriErr) "memberErr = None" "uriErr \<noteq> None" | (ok) "memberErr = None" "uriErr = None" by blast
  then show ?thesis
  proof cases
    case memErr
    then have "(ans, w') = (HttpError 500 ''org create failed'', unwindCreate memStore mockClient G existed (orgOrgID org) u w2)"
      using assms w1 w2 by (simp add: wireAdmin_def Let_def)
    then show ?thesis by (simp add: unwindCreate_mem unwindCreate_mock fr key)
  next
    case uriErr
    then have "(ans, w') = (HttpError 500 ''org create failed'', unwindCreate memStore mockClient G existed (orgOrgID org) u
        (snd (onDir (dirRemoveOrgRedirectURIs G (redirectURI (orgOrgID org) apex) (postLogoutURI (orgOrgID org) apex)) w3)))"
      using assms w1 w2 w3 by (simp add: wireAdmin_def Let_def)
    then show ?thesis by (simp add: unwindCreate_mem unwindCreate_mock fr key)
  next
    case ok
    then have "(ans, w') = (HttpOK (if existed then 200 else 201) org, w3)"
      using assms w1 w2 w3 by (simp add: wireAdmin_def Let_def)
    then show ?thesis by (simp add: fr key)
  qed
qed

lemma wireAdmin_ok:
  assumes "wireAdmin S D G apex existed org u w = (HttpOK n org', w')"
  shows "org' = org \<and> wStore w' = wStore w"
proof -
  obtain te w1 where w1: "writeOrgTuple D (orgOrgID org) RoleAdmin u w = (te, w1)" by force
  obtain me w2 where w2: "(if te = None then onDir (dirAddMember G (orgOrgID org) u) w1 else (None, w1)) = (me, w2)" by force
  obtain ue w3 where w3: "(if apex = [] then (None, w2) else onDir (dirRegisterOrgRedirectURIs G
      (redirectURI (orgOrgID org) apex) (postLogoutURI (orgOrgID org) apex)) w2) = (ue, w3)" by force
  have "te = None \<and> me = None \<and> ue = None \<and> org' = org \<and> w' = w3"
    using assms w1 w2 w3 by (cases te; cases me; cases ue) (simp_all add: wireAdmin_def Let_def)
  moreover have "wStore w3 = wStore w2" using w3 by (cases "apex = []") (auto dest: onDir_frame)
  moreover have "wStore w2 = wStore w1" using w2 by (cases "te = None") (auto dest: onDir_frame)
  moreover have "wStore w1 = wStore w" using w1 writeOrgTuple_simps(1) by (metis snd_conv)
  ultimately show ?thesis by simp
qed

lemma createdOrg_id [simp]: "orgOrgID (createdOrg oid name now prev) = oid"
  by (simp add: createdOrg_def Let_def split: option.splits)

text \<open>Where a creation on the in-memory store can go.\<close>

lemma handleCreateOrg_cases:
  assumes "handleCreateOrg memStore D G apex maxOrgs guid now selfServe (Inr req) w = (ans, w')"
    and "chooseOrgID guid req = (Inr oid :: Organization http + string)"
  shows "(\<exists>n msg. ans = HttpError n msg \<and> wStore w' = wStore w \<and> wSdb w' = wSdb w) \<or>
    (\<exists>w1. wStore w1 = wStore w \<and> wSdb w1 = wSdb w \<and>
       (selfServe \<longrightarrow> gget (stOrgs (wStore w)) oid = None) \<and>
       wireAdmin memStore D G apex (gget (stOrgs (wStore w)) oid \<noteq> None)
         (createdOrg oid (trim_space (ocName req)) now (gget (stOrgs (wStore w)) oid)) (ocAdminUser req)
         (w1\<lparr>wStore := putOrg (createdOrg oid (trim_space (ocName req)) now (gget (stOrgs (wStore w)) oid)) (wStore w)\<rparr>) = (ans, w'))"
proof (cases "ValidUserID (ocAdminUser req)")
  case False
  then have "ans = HttpError 400 ''invalid adminUser'' \<and> w' = w" using assms by (simp add: handleCreateOrg_def)
  then show ?thesis by simp
next
  case True
  define prev where "prev = gget (stOrgs (wStore w)) oid"
  define grd where "grd = (if selfServe then selfServeGuard memStore G maxOrgs (prev \<noteq> None) (ocAdminUser req) w else (None :: Organization http option))"
  obtain e w1 where w1: "onDir (dirCreateOrg G oid (trim_space (ocName req))) w = (e, w1)" by force
  have fr: "wStore w1 = wStore w" "wSdb w1 = wSdb w" using onDir_frame [OF w1] by simp_all
  have run: "(ans, w') = (case grd of Some err \<Rightarrow> (err, w) | None \<Rightarrow>
      (case e of Some e \<Rightarrow> (if e = ErrConflict then HttpError 409 (''An organization named '' @ dquoted (trim_space (ocName req)) @ '' already exists.'')
                            else HttpError 500 ''org create failed'', w1)
       | None \<Rightarrow> wireAdmin memStore D G apex (prev \<noteq> None) (createdOrg oid (trim_space (ocName req)) now prev) (ocAdminUser req)
           (w1\<lparr>wStore := putOrg (createdOrg oid (trim_space (ocName req)) now prev) (wStore w)\<rparr>)))"
    using assms True w1 fr
    by (cases e; cases grd)
       (simp_all add: handleCreateOrg_def memStore_simps getOrg_def grd_def [symmetric] prev_def [symmetric] Let_def)
  show ?thesis
  proof (cases grd)
    case (Some err)
    then have "\<exists>n msg. err = HttpError n msg"
      by (auto simp: grd_def selfServeGuard_def internalError_def split: if_splits sum.splits)
    then show ?thesis using run Some by auto
  next
    case None
    then have "selfServe \<Longrightarrow> prev = None"
      by (auto simp: grd_def selfServeGuard_def split: if_splits sum.splits)
    then show ?thesis using run None fr by (cases e) (auto simp: prev_def)
  qed
qed

text \<open>
  Creating an organization is all or nothing, and a self-serve request never adopts an existing one.
  For every directory, on the in-memory store and SpiceDB, creating an organization that was not recorded either
  answers 201 with its record stored and the first administrator's tuple written, or answers an error with the records and tuples
  as they were but for that one tuple, which is absent; a self-serve request for a recorded organization is refused
  without touching record or tuples.
\<close>

theorem org_create_all_or_nothing:
  assumes "handleCreateOrg memStore mockClient G apex maxOrgs guid now selfServe (Inr req) w = (ans, w')"
    and "chooseOrgID guid req = (Inr oid :: Organization http + string)"
  shows "(gget (stOrgs (wStore w)) oid = None \<longrightarrow>
      (\<exists>org. ans = HttpOK 201 org \<and> gget (stOrgs (wStore w')) = (gget (stOrgs (wStore w)))(oid \<mapsto> org) \<and>
         set (wSdb w') = insert (tupleKey (orgRef oid) RoleAdmin (userRef (ocAdminUser req))) (set (wSdb w))) \<or>
      (\<exists>n msg. ans = HttpError n msg \<and> gget (stOrgs (wStore w')) = gget (stOrgs (wStore w)) \<and>
         (set (wSdb w') = set (wSdb w) \<or>
          set (wSdb w') = set (wSdb w) - {tupleKey (orgRef oid) RoleAdmin (userRef (ocAdminUser req))}))) \<and>
    (selfServe \<and> gget (stOrgs (wStore w)) oid \<noteq> None \<longrightarrow>
      (\<exists>n msg. ans = HttpError n msg \<and> wStore w' = wStore w \<and> wSdb w' = wSdb w))"
  using handleCreateOrg_cases [OF assms]
proof (elim disjE exE conjE)
  fix w1 assume fr: "wStore w1 = wStore w" "wSdb w1 = wSdb w" and ss: "selfServe \<longrightarrow> gget (stOrgs (wStore w)) oid = None"
    and wire: "wireAdmin memStore mockClient G apex (gget (stOrgs (wStore w)) oid \<noteq> None)
       (createdOrg oid (trim_space (ocName req)) now (gget (stOrgs (wStore w)) oid)) (ocAdminUser req)
       (w1\<lparr>wStore := putOrg (createdOrg oid (trim_space (ocName req)) now (gget (stOrgs (wStore w)) oid)) (wStore w)\<rparr>) = (ans, w')"
  show ?thesis
  proof (cases "gget (stOrgs (wStore w)) oid")
    case None
    then show ?thesis using wireAdmin_mem [OF wire] fr ss by (auto simp: putOrg_def gomap_simps fun_eq_iff)
  next
    case (Some p)
    then show ?thesis using ss by simp
  qed
qed simp

definition initech :: orgCreateReq where
  "initech = \<lparr>ocOrgID = ''initech'', ocName = ''Initech'', ocAdminUser = ''bob''\<rparr>"

lemma initech_id: "chooseOrgID guid initech = (Inr ''initech'' :: Organization http + string)"
  by (simp add: chooseOrgID_def initech_def validOrgID_def orgIDByte_def is_lower_def is_digit_def in_range_def reservedOrgIDs_def)

theorem org_create_all_or_nothing_witness:
  "\<exists>ans w'. handleCreateOrg memStore mockClient openDirectory [] 0 ''g'' 7 False (Inr initech) acmeWorld = (ans, w') \<and>
     ((\<exists>org. ans = HttpOK 201 org \<and> gget (stOrgs (wStore w')) ''initech'' = Some org) \<or>
      (\<exists>n msg. ans = HttpError n msg \<and> gget (stOrgs (wStore w')) ''initech'' = None))"
proof -
  obtain ans w' where h: "handleCreateOrg memStore mockClient openDirectory [] 0 ''g'' 7 False (Inr initech) acmeWorld = (ans, w')" by force
  show ?thesis using org_create_all_or_nothing [OF h initech_id] h by auto
qed

text \<open>
  Repeating the creation of an organization forgets its substrate. The handler's record keeps the creation
  time, removal disposition, anchor and suspension of the record it replaces, but not the substrate, so after an
  answered repeat the organization's substrate registration is gone. This holds for every directory and SpiceDB client.
\<close>

theorem repeated_create_drops_substrate:
  assumes "handleCreateOrg memStore D G apex maxOrgs guid now selfServe (Inr req) w = (HttpOK n org, w')"
    and "chooseOrgID guid req = (Inr oid :: Organization http + string)" and "gget (stOrgs (wStore w)) oid = Some prev"
  shows "gget (stOrgs (wStore w')) oid = Some org \<and> orgSubstrate org = None \<and> orgAnchor org = orgAnchor prev \<and>
    orgDisabled org = orgDisabled prev \<and> orgRemovalDisposition org = orgRemovalDisposition prev \<and> orgCreatedAt org = orgCreatedAt prev"
proof -
  obtain w1 where fr: "wStore w1 = wStore w" and
    wire: "wireAdmin memStore D G apex True (createdOrg oid (trim_space (ocName req)) now (Some prev)) (ocAdminUser req)
       (w1\<lparr>wStore := putOrg (createdOrg oid (trim_space (ocName req)) now (Some prev)) (wStore w)\<rparr>) = (HttpOK n org, w')"
    using handleCreateOrg_cases [OF assms(1,2)] assms(3) by auto
  have "org = createdOrg oid (trim_space (ocName req)) now (Some prev) \<and>
      wStore w' = putOrg (createdOrg oid (trim_space (ocName req)) now (Some prev)) (wStore w)"
    using wireAdmin_ok [OF wire] by simp
  then show ?thesis by (simp add: putOrg_def gomap_simps createdOrg_def Let_def)
qed

definition acmeAgain :: orgCreateReq where
  "acmeAgain = \<lparr>ocOrgID = ''acme'', ocName = ''Acme'', ocAdminUser = ''bob''\<rparr>"

lemma acmeAgain_id: "chooseOrgID guid acmeAgain = (Inr ''acme'' :: Organization http + string)"
  by (simp add: chooseOrgID_def acmeAgain_def validOrgID_def orgIDByte_def is_lower_def is_digit_def in_range_def reservedOrgIDs_def)

lemma acmeAgain_ok:
  "\<exists>org w'. handleCreateOrg memStore mockClient openDirectory [] 0 ''g'' 7 False (Inr acmeAgain) acmeWorld = (HttpOK 200 org, w')"
proof -
  have "ValidUserID ''bob''"
    by (simp add: ValidUserID_def userIDChar_def is_alnum_def is_lower_def in_range_def)
  then show ?thesis
    using acmeAgain_id [of "''g''"]
    by (simp add: handleCreateOrg_def memStore_simps getOrg_def onDir_def Let_def acmeAgain_def wireAdmin_def
        writeOrgTuple_def orgTuple_def mem_simps mockWrite_def)
qed

theorem repeated_create_drops_substrate_witness:
  "\<exists>org w'. handleCreateOrg memStore mockClient openDirectory [] 0 ''g'' 7 False (Inr acmeAgain) acmeWorld = (HttpOK 200 org, w') \<and>
     orgSubstrate acme \<noteq> None \<and> (\<exists>o2. gget (stOrgs (wStore w')) ''acme'' = Some o2 \<and> orgSubstrate o2 = None)"
proof -
  obtain org w' where h: "handleCreateOrg memStore mockClient openDirectory [] 0 ''g'' 7 False (Inr acmeAgain) acmeWorld = (HttpOK 200 org, w')"
    using acmeAgain_ok by blast
  show ?thesis using repeated_create_drops_substrate [OF h acmeAgain_id acmeWorld_wf(3)] h by (simp add: acme_def)
qed

section \<open>Properties of membership\<close>

lemma cascade_sdb_subset:
  "cascadeOverRoots memStore mockClient roots sc w = Some (e, w') \<Longrightarrow> set (wSdb w') \<subseteq> set (wSdb w)"
proof (induction roots arbitrary: w)
  case (Cons a roots)
  show ?case
  proof (cases "agParentID a \<noteq> [] \<and> agParentID a \<in> set sc")
    case True
    then show ?thesis using Cons by simp
  next
    case False
    obtain no where no: "subtree memStore (agAgentID a) (wStore w) = Some (Inr no)"
      using cascade_starts [OF Cons.prems False] by blast
    obtain acted w1 where loop: "nodeLoop (revokeNode memStore mockClient) (elems no) w = (Inr acted, w1)"
      using mem_nodeLoop unfolding revokeNode_flip by blast
    then have "set (wSdb w1) \<subseteq> set (wSdb w)"
      using nodeLoop_sdb [OF loop [unfolded revokeNode_flip]] by (auto simp: mockr.fold_delete)
    then show ?thesis using Cons.IH [of w1] Cons.prems cascadeOverRoots_start [OF False no loop] by auto
  qed
qed simp

lemma dropOwner_fold:
  "wStore (fold (dropOwner D user) owned w) = wStore w"
  "set (wSdb (fold (dropOwner mockClient user) owned v)) =
     set (wSdb v) - (\<lambda>a. tupleKey (agentRef (agAgentID a)) ''owner'' (userRef user)) ` set owned"
proof -
  show "wStore (fold (dropOwner D user) owned w) = wStore w"
    by (induction owned arbitrary: w) (simp_all add: dropOwner_def)
  show "set (wSdb (fold (dropOwner mockClient user) owned v)) =
     set (wSdb v) - (\<lambda>a. tupleKey (agentRef (agAgentID a)) ''owner'' (userRef user)) ` set owned"
    by (induction owned arbitrary: v) (auto simp: dropOwner_def mockr.delete_removes)
qed

lemma noteOrphan_fold: "wSdb (fold (noteOrphan S org user) owned w) = wSdb w"
  by (induction owned arbitrary: w) (simp_all add: noteOrphan_def)

lemma applyRemovalDisposition_sdb:
  assumes "applyRemovalDisposition memStore mockClient org user disp w = Some (e, w')"
  shows "set (wSdb w') \<subseteq> set (wSdb w) - {tupleKey (agentRef (agAgentID a)) ''owner'' (userRef user) | a.
    a \<in> set (listAgents (wStore w)) \<and> agOrgID a = org \<and> agUserID a = user}"
proof -
  let ?owned = "filter (\<lambda>a. agOrgID a = org \<and> agUserID a = user) (listAgents (wStore w))"
  let ?w1 = "fold (dropOwner mockClient user) ?owned w"
  have "wSdb w' = wSdb w \<and> ?owned = [] \<or> set (wSdb w') \<subseteq> set (wSdb ?w1)"
    using assms
    by (cases "?owned = []"; cases "disp = RemovalAutoRevoke")
       (auto simp: applyRemovalDisposition_def memStore_simps Let_def noteOrphan_fold dest: cascade_sdb_subset [THEN subsetD])
  then show ?thesis unfolding dropOwner_fold(2) by (auto simp: filter_empty_conv)
qed

lemma dropMemberTuples_mock:
  "wStore (dropMemberTuples D oid user w) = wStore w"
  "set (wSdb (dropMemberTuples mockClient oid user v)) = set (wSdb v) -
     {tupleKey (orgRef oid) RoleMember (userRef user), tupleKey (orgRef oid) RoleAdmin (userRef user)}"
  by (auto simp: dropMemberTuples_def mock_orgTuple)

text \<open>
  A removed member keeps no authority over the organization. For every directory, on the in-memory store and
  SpiceDB, after an answered removal the member's two role tuples and the owner tuples of their listed agents of that
  organization are gone, and no tuple was added.
\<close>

theorem member_removal_drops_authority:
  assumes "handleRemoveMember memStore mockClient G oid user w = Some (HttpOK n (), w')"
  shows "set (wSdb w') \<subseteq> set (wSdb w) \<and>
    tupleKey (orgRef oid) RoleMember (userRef user) \<notin> set (wSdb w') \<and>
    tupleKey (orgRef oid) RoleAdmin (userRef user) \<notin> set (wSdb w') \<and>
    (\<forall>a \<in> set (listAgents (wStore w)). agOrgID a = oid \<and> agUserID a = user \<longrightarrow>
       tupleKey (agentRef (agAgentID a)) ''owner'' (userRef user) \<notin> set (wSdb w'))"
proof -
  let ?w1 = "dropMemberTuples mockClient oid user w"
  have rm: "removeMemberFromOrg memStore mockClient G oid user w = Some (None, w')"
    using assms by (auto simp: handleRemoveMember_def requireOrg_def memStore_simps split: if_splits option.splits)
  obtain e2 w2 where w2: "onDir (dirRemoveMember G oid user) ?w1 = (e2, w2)" by force
  have fr: "wStore w2 = wStore w" "wSdb w2 = wSdb ?w1" using onDir_frame [OF w2] by (simp_all add: dropMemberTuples_mock)
  have e2: "e2 = None" using rm w2 by (cases e2) (simp_all add: removeMemberFromOrg_def Let_def)
  obtain disp e3 w3 where ap: "applyRemovalDisposition memStore mockClient oid user disp w2 = Some (e3, w3)" and "wSdb w' = wSdb w3"
    using rm w2 e2
    by (auto simp: removeMemberFromOrg_def memStore_simps Let_def dest!: onDir_frame
        split: option.splits prod.splits sum.splits if_splits)
  then show ?thesis
    using applyRemovalDisposition_sdb [OF ap] dropMemberTuples_mock(2) [of oid user w] fr by auto
qed

theorem member_removal_drops_authority_witness:
  "\<exists>w'. handleRemoveMember memStore mockClient openDirectory ''acme'' ''alice'' acmeWorld = Some (HttpOK 204 (), w') \<and>
     tupleKey (orgRef ''acme'') RoleAdmin (userRef ''alice'') \<in> set (wSdb acmeWorld) \<and>
     tupleKey (orgRef ''acme'') RoleAdmin (userRef ''alice'') \<notin> set (wSdb w') \<and>
     tupleKey (agentRef ''r'') ''owner'' (userRef ''alice'') \<notin> set (wSdb w')"
proof -
  have "ValidUserID ''alice''" by (simp add: ValidUserID_def userIDChar_def is_alnum_def is_lower_def in_range_def)
  then obtain w' where h: "handleRemoveMember memStore mockClient openDirectory ''acme'' ''alice'' acmeWorld = Some (HttpOK 204 (), w')"
    by (simp add: handleRemoveMember_def requireOrg_def removeMemberFromOrg_def memStore_simps getOrg_def onDir_def Let_def
        dropMemberTuples_mock applyRemovalDisposition_def listAgents_def acme_def RemovalOrphanToAdmin_def RemovalAutoRevoke_def)
  have "orgAgent ''r'' [] False \<in> set (listAgents (wStore acmeWorld))" by (simp add: listAgents_def)
  then show ?thesis
    using member_removal_drops_authority [OF h] h by (fastforce simp: acmeWorld_def)
qed

end
