(* ===== verification/Users.thy ===== *)
theory Users
  imports Orgs
begin

text \<open>
  The master administrator's user lifecycle (\<open>cmd/registry/users.go\<close>): profile edits, disabling with the optional
  suspension of the user's agents, enabling, and deletion, which revokes the user's agents without an organization, purges
  their consents and removes them from every organization before the identity is deleted.
\<close>

section \<open>Helpers\<close>

text \<open>\<open>len([]rune(s))\<close> of a valid UTF-8 text: the bytes that are not continuation bytes.\<close>

definition runeCount :: "string \<Rightarrow> nat" where
  "runeCount s = length (filter (\<lambda>c. \<not> (128 \<le> (of_char c :: nat) \<and> (of_char c :: nat) < 192)) s)"

definition tooLong :: "string option \<Rightarrow> nat \<Rightarrow> bool" where
  "tooLong s limit = (case s of None \<Rightarrow> False | Some t \<Rightarrow> runeCount t > limit)"

definition revokeOwnedRoots ::
  "'s Store \<Rightarrow> 'd SpiceDB \<Rightarrow> string \<Rightarrow> (AgentRecord \<Rightarrow> bool) \<Rightarrow> ('s, 'd, 'z) world_scheme \<Rightarrow>
     (go_error option \<times> ('s, 'd, 'z) world_scheme) option" where
  "revokeOwnedRoots S D user include w =
     revokeCascadeRoots S D (\<lambda>a. agUserID a = user) (\<lambda>a. agUserID a = user \<and> include a) w"

definition suspendUserAgents ::
  "'s Store \<Rightarrow> 'd SpiceDB \<Rightarrow> string \<Rightarrow> ('s, 'd, 'z) world_scheme \<Rightarrow> (go_error option \<times> ('s, 'd, 'z) world_scheme) option" where
  "suspendUserAgents S D user w = revokeOwnedRoots S D user (\<lambda>_. True) w"

fun revokeConsents :: "'s Store \<Rightarrow> string \<Rightarrow> ConsentRecord list \<Rightarrow> 's \<Rightarrow> go_error option \<times> 's" where
  "revokeConsents S user [] s = (None, s)"
| "revokeConsents S user (rec # recs) s =
     (case RevokeConsent S (conID rec) user s of
        (Inl e, s1) \<Rightarrow> (Some e, s1)
      | (Inr _, s1) \<Rightarrow> revokeConsents S user recs s1)"

definition purgeUserConsents :: "'s Store \<Rightarrow> string \<Rightarrow> 's \<Rightarrow> go_error option \<times> 's" where
  "purgeUserConsents S user s =
     (case ListConsents S user s of
        Inl e \<Rightarrow> (Some e, s)
      | Inr consents \<Rightarrow> revokeConsents S user consents s)"

section \<open>Handlers\<close>

definition handleListUsers :: "'g Directory \<Rightarrow> ('s, 'd, 'g) orgWorld \<Rightarrow> User list http" where
  "handleListUsers G w = (case dirListUsers G (wDir w) of Inl e \<Rightarrow> HttpError 500 ''user list failed'' | Inr us \<Rightarrow> HttpOK 200 us)"

text \<open>\<open>parseAddress\<close> is \<open>mail.ParseAddress\<close>: the display name and the address of a text.\<close>

definition handlePatchUser ::
  "(string \<Rightarrow> (string \<times> string) result) \<Rightarrow> 'g Directory \<Rightarrow> string \<Rightarrow> UserUpdate result \<Rightarrow> ('s, 'd, 'g) orgWorld \<Rightarrow>
     unit http \<times> ('s, 'd, 'g) orgWorld" where
  "handlePatchUser parseAddress G username body w =
     (if \<not> ValidUserID username then (HttpError 400 ''invalid user'', w)
      else case body of
          Inl e \<Rightarrow> (HttpError 400 ''invalid body'', w)
        | Inr upd \<Rightarrow>
            if uuEmail upd = None \<and> uuFirstName upd = None \<and> uuLastName upd = None
            then (HttpError 400 ''no fields to update'', w)
            else if tooLong (uuEmail upd) 255 \<or> tooLong (uuFirstName upd) 255 \<or> tooLong (uuLastName upd) 255
            then (HttpError 400 ''field too long'', w)
            else if (case uuEmail upd of
                       None \<Rightarrow> False
                     | Some email \<Rightarrow> email \<noteq> [] \<and>
                         (case parseAddress email of Inl e \<Rightarrow> True | Inr (name, addr) \<Rightarrow> name \<noteq> [] \<or> addr \<noteq> email))
            then (HttpError 400 ''invalid email'', w)
            else case onDir (dirUpdateUser G username upd) w of
                (None, w1) \<Rightarrow> (HttpOK 204 (), w1)
              | (Some e, w1) \<Rightarrow>
                  (if e = ErrConflict then HttpError 409 ''email already in use'' else HttpError 500 ''update failed'', w1))"

text \<open>The body is optional: \<open>Inr None\<close> is an empty one.\<close>

definition handleDisableUser ::
  "'s Store \<Rightarrow> 'd SpiceDB \<Rightarrow> 'g Directory \<Rightarrow> string \<Rightarrow> string \<Rightarrow> bool option result \<Rightarrow> ('s, 'd, 'g) orgWorld \<Rightarrow>
     (unit http \<times> ('s, 'd, 'g) orgWorld) option" where
  "handleDisableUser S D G masterAdmin username body w =
     (if \<not> ValidUserID username then Some (HttpError 400 ''invalid user'', w)
      else if isMasterAdmin masterAdmin username
      then Some (HttpError 403 ''the master-admin account cannot be disabled'', w)
      else case body of
          Inl e \<Rightarrow> Some (HttpError 400 ''invalid body'', w)
        | Inr suspend \<Rightarrow>
            (case onDir (dirDisableUser G username []) w of
               (Some e, w1) \<Rightarrow> Some (HttpError 500 ''disable failed'', w1)
             | (None, w1) \<Rightarrow>
                 if suspend = Some True
                 then (case suspendUserAgents S D username w1 of
                         None \<Rightarrow> None
                       | Some (Some e, w2) \<Rightarrow> Some (HttpError 500 ''disable failed'', w2)
                       | Some (None, w2) \<Rightarrow> Some (HttpOK 204 (), w2))
                 else Some (HttpOK 204 (), w1)))"

definition handleEnableUser :: "'g Directory \<Rightarrow> string \<Rightarrow> ('s, 'd, 'g) orgWorld \<Rightarrow> unit http \<times> ('s, 'd, 'g) orgWorld" where
  "handleEnableUser G username w =
     (if \<not> ValidUserID username then (HttpError 400 ''invalid user'', w)
      else case onDir (dirEnableUser G username []) w of
          (Inl e, w1) \<Rightarrow> (HttpError 500 ''enable failed'', w1)
        | (Inr _, w1) \<Rightarrow> (HttpOK 204 (), w1))"

fun removeFromOrgs ::
  "'s Store \<Rightarrow> 'd SpiceDB \<Rightarrow> 'g Directory \<Rightarrow> string \<Rightarrow> string list \<Rightarrow> ('s, 'd, 'g) orgWorld \<Rightarrow>
     (go_error option \<times> ('s, 'd, 'g) orgWorld) option" where
  "removeFromOrgs S D G user [] w = Some (None, w)"
| "removeFromOrgs S D G user (org # orgs) w =
     (case removeMemberFromOrg S D G org user w of
        None \<Rightarrow> None
      | Some (Some e, w1) \<Rightarrow> Some (Some e, w1)
      | Some (None, w1) \<Rightarrow> removeFromOrgs S D G user orgs w1)"

definition handleDeleteUser ::
  "'s Store \<Rightarrow> 'd SpiceDB \<Rightarrow> 'g Directory \<Rightarrow> string \<Rightarrow> string \<Rightarrow> ('s, 'd, 'g) orgWorld \<Rightarrow>
     (unit http \<times> ('s, 'd, 'g) orgWorld) option" where
  "handleDeleteUser S D G masterAdmin username w =
     (let fail = HttpError 500 ''delete failed''
      in if \<not> ValidUserID username then Some (HttpError 400 ''invalid user'', w)
         else if isMasterAdmin masterAdmin username
         then Some (HttpError 403 ''the master-admin account cannot be deleted'', w)
         else case revokeOwnedRoots S D username (\<lambda>a. agOrgID a = []) w of
             None \<Rightarrow> None
           | Some (Some e, w1) \<Rightarrow> Some (fail, w1)
           | Some (None, w1) \<Rightarrow>
               (case purgeUserConsents S username (wStore w1) of
                  (Some e, s2) \<Rightarrow> Some (fail, w1\<lparr>wStore := s2\<rparr>)
                | (None, s2) \<Rightarrow>
                    let w2 = w1\<lparr>wStore := s2\<rparr>
                    in case dirListUserOrgs G username (wDir w2) of
                         Inl e \<Rightarrow> Some (fail, w2)
                       | Inr orgs \<Rightarrow>
                           (case removeFromOrgs S D G username orgs w2 of
                              None \<Rightarrow> None
                            | Some (Some e, w3) \<Rightarrow> Some (fail, w3)
                            | Some (None, w3) \<Rightarrow>
                                (case onDir (dirDeleteUser G username) w3 of
                                   (Some e, w4) \<Rightarrow> Some (fail, w4)
                                 | (None, w4) \<Rightarrow> Some (HttpOK 204 (), w4)))))"

section \<open>Purging consents\<close>

definition uniqueIDs :: "store \<Rightarrow> bool" where
  "uniqueIDs s = (gdistinct (stConsents s) \<and>
     (\<forall>(k, r) \<in> set (stConsents s). \<forall>(k', r') \<in> set (stConsents s). conID r = conID r' \<longrightarrow> k = k'))"

definition revokeIf :: "(ConsentRecord \<Rightarrow> bool) \<Rightarrow> ConsentRecord \<Rightarrow> ConsentRecord" where
  "revokeIf P r = (if P r then r\<lparr>conRevoked := True\<rparr> else r)"

lemma revokeIf_simps [simp]:
  "conID (revokeIf P r) = conID r" "conUserID (revokeIf P r) = conUserID r" "conRevoked (revokeIf P r) = (P r \<or> conRevoked r)"
  by (simp_all add: revokeIf_def)

lemma uniqueIDs_gget:
  "uniqueIDs s \<longleftrightarrow> gdistinct (stConsents s) \<and>
     (\<forall>k k' r r'. gget (stConsents s) k = Some r \<and> gget (stConsents s) k' = Some r' \<and> conID r = conID r' \<longrightarrow> k = k')"
proof (cases "gdistinct (stConsents s)")
  case True
  have "(k, r) \<in> set (stConsents s) \<longleftrightarrow> gget (stConsents s) k = Some r" for k r
    using gget_in_set [of "stConsents s" k r] in_set_gget [OF True, of k r] by blast
  then show ?thesis unfolding uniqueIDs_def split_beta Ball_def split_paired_All fst_conv snd_conv by (simp only:) blast
next
  case False
  then show ?thesis by (simp add: uniqueIDs_def)
qed

lemma uniqueIDsD:
  "uniqueIDs s \<Longrightarrow> gget (stConsents s) k = Some r \<Longrightarrow> gget (stConsents s) k' = Some r' \<Longrightarrow> conID r = conID r' \<Longrightarrow> k = k'"
  unfolding uniqueIDs_gget by blast

text \<open>With distinct ids a revoke changes the one record it names.\<close>

lemma revokeConsent_gget:
  assumes "uniqueIDs s"
  shows "gget (stConsents (snd (revokeConsent oid u s))) k =
    map_option (revokeIf (\<lambda>r. conID r = oid \<and> (u = [] \<or> conUserID r = u))) (gget (stConsents s) k)"
proof -
  let ?P = "\<lambda>r. conID r = oid \<and> (u = [] \<or> conUserID r = u)" and ?m = "stConsents s"
  have d: "gdistinct ?m" using assms by (simp add: uniqueIDs_def)
  show ?thesis
  proof (cases "find (\<lambda>(key, rec). ?P rec) ?m")
    case None
    then have "gget ?m k = Some r \<Longrightarrow> \<not> ?P r" for r using gget_in_set [of ?m k r] by (auto simp: find_None_iff)
    then have "map_option (revokeIf ?P) (gget ?m k) = gget ?m k" by (cases "gget ?m k") (auto simp: revokeIf_def)
    then show ?thesis using None by (simp add: revokeConsent_def)
  next
    case (Some p)
    obtain key rec where p: "p = (key, rec)" by force
    have "(key, rec) \<in> set ?m" and P: "?P rec" using Some p by (auto simp: find_Some_iff dest: nth_mem)
    then have kr: "gget ?m key = Some rec" using in_set_gget [OF d] by blast
    have "\<not> ?P r" if "k \<noteq> key" "gget ?m k = Some r" for r using uniqueIDsD [OF assms that(2) kr] P that(1) by argo
    then have "k \<noteq> key \<Longrightarrow> map_option (revokeIf ?P) (gget ?m k) = gget ?m k"
      by (cases "gget ?m k") (auto simp: revokeIf_def)
    then show ?thesis using Some p kr P by (cases "k = key") (simp_all add: revokeConsent_def gomap_simps revokeIf_def)
  qed
qed

lemma revokeConsent_distinct: "gdistinct (stConsents s) \<Longrightarrow> gdistinct (stConsents (snd (revokeConsent oid u s)))"
  by (auto simp: revokeConsent_def distinct_update split: option.splits prod.splits)

lemma revokeConsent_unique:
  assumes "uniqueIDs s"
  shows "uniqueIDs (snd (revokeConsent oid u s))"
proof -
  have "gdistinct (stConsents (snd (revokeConsent oid u s)))"
    using assms by (intro revokeConsent_distinct) (simp add: uniqueIDs_def)
  moreover have "k = k'" if h: "gget (stConsents (snd (revokeConsent oid u s))) k = Some r"
      "gget (stConsents (snd (revokeConsent oid u s))) k' = Some r'" "conID r = conID r'" for k k' r r'
  proof -
    obtain r0 r0' where r0: "gget (stConsents s) k = Some r0" "gget (stConsents s) k' = Some r0'"
        "conID r0 = conID r" "conID r0' = conID r'"
      using h(1,2) unfolding revokeConsent_gget [OF assms] map_option_eq_Some by force
    show ?thesis using uniqueIDsD [OF assms r0(1,2)] r0(3,4) h(3) by simp
  qed
  ultimately show ?thesis unfolding uniqueIDs_gget by blast
qed

lemma revokeConsent_frame:
  "stAgents (snd (revokeConsent oid u s)) = stAgents s" "stOrgs (snd (revokeConsent oid u s)) = stOrgs s"
  by (auto simp: revokeConsent_def split: option.splits prod.splits)

lemma revokeConsents_mem:
  "uniqueIDs s \<Longrightarrow> \<exists>s'. revokeConsents memStore u recs s = (None, s') \<and> stAgents s' = stAgents s \<and> stOrgs s' = stOrgs s \<and>
     (\<forall>k. gget (stConsents s') k =
        map_option (revokeIf (\<lambda>r. \<exists>rec \<in> set recs. conID r = conID rec \<and> (u = [] \<or> conUserID r = u))) (gget (stConsents s) k))"
proof (induction recs arbitrary: s)
  case Nil
  have "map_option (revokeIf (\<lambda>r. False)) x = x" for x by (cases x) (simp_all add: revokeIf_def)
  then show ?case by simp
next
  case (Cons rec recs)
  let ?s1 = "snd (revokeConsent (conID rec) u s)"
  obtain s' where s': "revokeConsents memStore u recs ?s1 = (None, s')" "stAgents s' = stAgents ?s1" "stOrgs s' = stOrgs ?s1"
     "\<forall>k. gget (stConsents s') k =
        map_option (revokeIf (\<lambda>r. \<exists>rec \<in> set recs. conID r = conID rec \<and> (u = [] \<or> conUserID r = u))) (gget (stConsents ?s1) k)"
    using Cons.IH [OF revokeConsent_unique [OF Cons.prems]] by blast
  have "gget (stConsents s') k =
      map_option (revokeIf (\<lambda>r. \<exists>rec \<in> set (rec # recs). conID r = conID rec \<and> (u = [] \<or> conUserID r = u))) (gget (stConsents s) k)" for k
    unfolding s'(4) [rule_format] revokeConsent_gget [OF Cons.prems]
    by (cases "gget (stConsents s) k") (auto simp: revokeIf_def)
  then show ?case using s' by (simp add: memStore_simps okW_simp revokeConsent_frame)
qed

text \<open>
  Deleting a user leaves no consent behind. On the in-memory store, when no two consents share an id, purging a
  user's consents revokes every consent of that user and changes no other consent, so that afterwards no
  check for an edge of that user is granted.
\<close>

theorem purge_revokes_all_consents:
  assumes "uniqueIDs s" and "user \<noteq> []" and "purgeUserConsents memStore user s = (e, s')"
  shows "e = None \<and>
    (\<forall>k r. gget (stConsents s) k = Some r \<longrightarrow>
       gget (stConsents s') k = Some (if conUserID r = user then r\<lparr>conRevoked := True\<rparr> else r)) \<and>
    (\<forall>r scopes now. (\<exists>k. gget (stConsents s') k = Some r) \<and> conUserID r = user \<longrightarrow> \<not> cdGranted (EvaluateConsent r scopes now))"
proof -
  let ?recs = "listConsents user s"
  have "revokeConsents memStore user ?recs s = (e, s')" using assms(3) by (simp add: purgeUserConsents_def memStore_simps)
  then have e: "e = None" and g: "\<And>k. gget (stConsents s') k = map_option (revokeIf (\<lambda>r. \<exists>rec \<in> set ?recs. conID r = conID rec \<and>
      (user = [] \<or> conUserID r = user))) (gget (stConsents s) k)"
    using revokeConsents_mem [OF assms(1), of user ?recs] by auto
  have "(\<exists>rec \<in> set ?recs. conID r = conID rec \<and> (user = [] \<or> conUserID r = user)) = (conUserID r = user)"
    if "gget (stConsents s) k = Some r" for k r
    using assms(2) gget_in_set [OF that] by (force simp: listConsents_def)
  then have eff: "gget (stConsents s') k = Some (if conUserID r = user then r\<lparr>conRevoked := True\<rparr> else r)"
    if "gget (stConsents s) k = Some r" for k r
    using that by (simp add: g revokeIf_def)
  moreover have "\<not> cdGranted (EvaluateConsent r scopes now)"
    if h: "gget (stConsents s') k = Some r" "conUserID r = user" for k r scopes now
  proof -
    obtain r0 where "gget (stConsents s) k = Some r0" using h(1) unfolding g map_option_eq_Some by blast
    then have "conRevoked r" using eff [of k r0] h by (auto split: if_splits)
    then show ?thesis by (simp add: EvaluateConsent_def)
  qed
  ultimately show ?thesis using e by blast
qed

definition twoConsents :: store where
  "twoConsents = lineStore\<lparr>stConsents :=
     [(ConsentEdgeKey ''alice'' ''p'' ''c'', \<lparr>conID = ''consent-1'', conUserID = ''alice'', conParentType = ''p'', conChildType = ''c'',
        conScopes = Some [], conGrantedAt = 0, conExpiresAt = None, conRevoked = False\<rparr>),
      (ConsentEdgeKey ''bob'' ''p'' ''c'', \<lparr>conID = ''consent-2'', conUserID = ''bob'', conParentType = ''p'', conChildType = ''c'',
        conScopes = Some [], conGrantedAt = 0, conExpiresAt = None, conRevoked = False\<rparr>)]\<rparr>"

theorem purge_revokes_all_consents_witness:
  "\<exists>s' r. purgeUserConsents memStore ''alice'' twoConsents = (None, s') \<and>
     gget (stConsents s') (ConsentEdgeKey ''alice'' ''p'' ''c'') = Some r \<and> \<not> cdGranted (EvaluateConsent r (Some []) 1)"
proof -
  have u: "uniqueIDs twoConsents" by (simp add: uniqueIDs_def twoConsents_def ConsentEdgeKey_def)
  obtain e s' where h: "purgeUserConsents memStore ''alice'' twoConsents = (e, s')" by force
  have g: "\<exists>r. gget (stConsents twoConsents) (ConsentEdgeKey ''alice'' ''p'' ''c'') = Some r \<and> conUserID r = ''alice''"
    by (simp add: twoConsents_def)
  note t = purge_revokes_all_consents [OF u _ h]
  then obtain r where "gget (stConsents s') (ConsentEdgeKey ''alice'' ''p'' ''c'') = Some r" "conUserID r = ''alice''"
    using g by fastforce
  then show ?thesis using t h by blast
qed

section \<open>Agents of a deleted user\<close>

text \<open>
  Deleting a user revokes their agents without an organization, except one whose parent is an agent of the same user in
  an organization: the parent counts as covering it, but the cascade never starts at the parent.
\<close>

lemma orgless_child_escapes_user_delete:
  assumes "agentsWf (wStore w)" and "gget (stAgents (wStore w)) [] = None"
    and "\<forall>r b. gget (stAgents (wStore w)) r = Some b \<and> \<not> agDismissed b \<and> agUserID b = user \<and> agOrgID b = [] \<and>
        i \<in> descendants (gget (stAgents (wStore w))) r \<longrightarrow>
        agParentID b \<noteq> [] \<and> (\<exists>p. gget (stAgents (wStore w)) (agParentID b) = Some p \<and> \<not> agDismissed p \<and> agUserID p = user)"
  shows "\<exists>w'. revokeOwnedRoots memStore D user (\<lambda>a. agOrgID a = []) w = Some (None, w') \<and>
    gget (stAgents (wStore w')) i = gget (stAgents (wStore w)) i"
proof -
  let ?m = "gget (stAgents (wStore w))" and ?l = "listAgents (wStore w)"
  let ?C = "cascadeSet (filter (\<lambda>a. agUserID a = user \<and> agOrgID a = []) ?l) (map agAgentID (filter (\<lambda>a. agUserID a = user) ?l)) ?m"
  obtain w' where w': "revokeOwnedRoots memStore D user (\<lambda>a. agOrgID a = []) w = Some (None, w')"
      "gget (stAgents (wStore w')) = revokeMap ?C ?m"
    using mem_revokeCascadeRoots [OF assms(1,2)] unfolding revokeOwnedRoots_def by blast
  have "i \<notin> ?C"
  proof
    assume "i \<in> ?C"
    then obtain b where b: "b \<in> set ?l" "agUserID b = user" "agOrgID b = []" "i \<in> descendants ?m (agAgentID b)"
      "\<not> (agParentID b \<noteq> [] \<and> agParentID b \<in> set (map agAgentID (filter (\<lambda>a. agUserID a = user) ?l)))"
      by (auto simp: cascadeSet_def)
    then obtain p where "?m (agParentID b) = Some p" "\<not> agDismissed p" "agUserID p = user" "agParentID b \<noteq> []"
      using assms(3) listAgents_iff [OF assms(1), of b] by blast
    moreover from this have "agAgentID p = agParentID b" using agentsWf_id [OF assms(1)] by simp
    ultimately have "p \<in> set ?l" using listAgents_iff [OF assms(1), of p] by simp
    then show False using b(5) \<open>agAgentID p = agParentID b\<close> \<open>agUserID p = user\<close> \<open>agParentID b \<noteq> []\<close> by force
  qed
  then show ?thesis using w' by (auto simp: revokeMap_def statusMap_def split: option.splits)
qed

end
