(* ===== verification/AwsVerify.thy ===== *)
theory AwsVerify
  imports Prelude
begin

text \<open>
  Proof of control of an AWS account (\<open>internal/attestor/aws_verify.go\<close>): the replay of a presigned
  \<open>GetCallerIdentity\<close> request with its guard against requests to other hosts, the reading of the attested
  account and role, and the glob match of a role ARN.

  The decoders (\<open>encoding/base64\<close>, \<open>encoding/json\<close>, \<open>net/url\<close>, \<open>encoding/xml\<close>) and the answer of the STS service are the
  fields of \<open>stsEnv\<close>; what STS answers depends on the time of the request. Error texts are only logged, so
  they are kept short here.
\<close>

section \<open>Requests and the outside world\<close>

record presignedRequest =
  prMethod :: string
  prURL :: string
  prHeaders :: "(string, string list) gomap"

record URL =
  urlScheme :: string
  urlHost :: string
  urlHostname :: string

record CallerIdentity =
  ciAccount :: string
  ciArn :: string

record getCallerIdentityResponse =
  gciArn :: string
  gciAccount :: string

record stsEnv =
  base64Decode :: "string \<Rightarrow> string result"
  unmarshalPresigned :: "string \<Rightarrow> presignedRequest result"
  urlParse :: "string \<Rightarrow> URL result"
  newRequest :: "string \<Rightarrow> string \<Rightarrow> unit result"
  httpDo :: "time \<Rightarrow> presignedRequest \<Rightarrow> (nat \<times> string) result"
  unmarshalXML :: "string \<Rightarrow> getCallerIdentityResponse result"

section \<open>Strings\<close>

text \<open>What follows the first occurrence of a marker (\<open>strings.Index\<close> and the slice after it).\<close>

fun after_marker :: "string \<Rightarrow> string \<Rightarrow> string option" where
  "after_marker marker [] = (if marker = [] then Some [] else None)"
| "after_marker marker (c # cs) =
     (if has_prefix (c # cs) marker then Some (drop (length marker) (c # cs)) else after_marker marker cs)"

section \<open>The trusted endpoint\<close>

text \<open>The host pattern of STS: \<open>sts\<close>, an optional region, \<open>amazonaws.com\<close>.\<close>

definition regionByte :: "char \<Rightarrow> bool" where
  "regionByte c = (is_lower c \<or> is_digit c \<or> c = CHR ''-'')"

definition stsHostPattern :: "string \<Rightarrow> bool" where
  "stsHostPattern h =
     (h = ''sts.amazonaws.com'' \<or>
      (has_prefix h ''sts.'' \<and>
       (let m = drop 4 h; region = takeWhile regionByte m
        in region \<noteq> [] \<and> drop (length region) m = ''.amazonaws.com'')))"

definition matchTrustedEndpoint :: "stsEnv \<Rightarrow> URL \<Rightarrow> string \<Rightarrow> go_error option" where
  "matchTrustedEndpoint env u trusted =
     (case urlParse env trusted of
        Inl e \<Rightarrow> Some (Err ''invalid STS_TRUSTED_ENDPOINT'')
      | Inr t \<Rightarrow>
          if urlScheme t = [] \<or> urlHost t = [] then Some (Err ''invalid STS_TRUSTED_ENDPOINT'')
          else if \<not> equal_fold (urlScheme u) (urlScheme t) \<or> \<not> equal_fold (urlHost u) (urlHost t)
          then Some (Err ''presigned URL is not the trusted STS endpoint'')
          else None)"

definition validateStsURLWith :: "stsEnv \<Rightarrow> string \<Rightarrow> string \<Rightarrow> go_error option" where
  "validateStsURLWith env raw trusted =
     (case urlParse env raw of
        Inl e \<Rightarrow> Some (Err ''parse presigned URL'')
      | Inr u \<Rightarrow>
          if \<not> str_contains raw ''Action=GetCallerIdentity''
          then Some (Err ''presigned request is not a GetCallerIdentity call'')
          else if trusted \<noteq> [] then matchTrustedEndpoint env u trusted
          else if urlScheme u \<noteq> ''https'' then Some (Err ''presigned URL must be https'')
          else if \<not> stsHostPattern (urlHostname u) then Some (Err ''presigned URL host is not an AWS STS endpoint'')
          else None)"

section \<open>Replay\<close>

definition AccountFromArn :: "string \<Rightarrow> string" where
  "AccountFromArn arn = (let parts = split_on (CHR '':'') arn in if length parts < 6 then [] else parts ! 4)"

definition replayCallerIdentity :: "stsEnv \<Rightarrow> time \<Rightarrow> presignedRequest \<Rightarrow> CallerIdentity result" where
  "replayCallerIdentity env now pr =
     (case newRequest env (prMethod pr) (prURL pr) of
        Inl e \<Rightarrow> Inl (Err ''build STS request'')
      | Inr _ \<Rightarrow>
          (case httpDo env now pr of
             Inl e \<Rightarrow> Inl (Err ''call STS GetCallerIdentity'')
           | Inr (status, body) \<Rightarrow>
               if status \<noteq> 200 then Inl (Err ''STS GetCallerIdentity returned an error status'')
               else (case unmarshalXML env body of
                       Inl e \<Rightarrow> Inl (Err ''parse STS response'')
                     | Inr out \<Rightarrow>
                         if gciArn out = [] then Inl (Err ''STS response missing Arn'')
                         else Inr \<lparr>ciAccount = (if gciAccount out = [] then AccountFromArn (gciArn out) else gciAccount out),
                                   ciArn = gciArn out\<rparr>)))"

definition decodePresigned :: "stsEnv \<Rightarrow> string \<Rightarrow> presignedRequest result" where
  "decodePresigned env credential =
     (case base64Decode env credential of
        Inl e \<Rightarrow> Inl (Err ''base64-decode credential'')
      | Inr b \<Rightarrow> (case unmarshalPresigned env b of
                    Inl e \<Rightarrow> Inl (Err ''unmarshal presigned request'')
                  | Inr pr \<Rightarrow> Inr pr))"

definition VerifyCallerIdentity :: "stsEnv \<Rightarrow> string \<Rightarrow> time \<Rightarrow> string \<Rightarrow> CallerIdentity result" where
  "VerifyCallerIdentity env trusted now credential =
     (case decodePresigned env credential of
        Inl e \<Rightarrow> Inl e
      | Inr pr \<Rightarrow>
          (case validateStsURLWith env (prURL pr) trusted of
             Some e \<Rightarrow> Inl e
           | None \<Rightarrow> replayCallerIdentity env now pr))"

text \<open>A verified identity is one that the trusted endpoint answered with status 200 to a \<open>GetCallerIdentity\<close> request.\<close>

definition trustedURL :: "stsEnv \<Rightarrow> string \<Rightarrow> URL \<Rightarrow> bool" where
  "trustedURL env trusted u =
     (if trusted = [] then urlScheme u = ''https'' \<and> stsHostPattern (urlHostname u)
      else case urlParse env trusted of
             Inl e \<Rightarrow> False
           | Inr t \<Rightarrow> urlHost t \<noteq> [] \<and> equal_fold (urlScheme u) (urlScheme t) \<and> equal_fold (urlHost u) (urlHost t))"

lemma VerifyCallerIdentity_trusted:
  assumes "VerifyCallerIdentity env trusted now cred = Inr ident"
  shows "\<exists>pr u body. decodePresigned env cred = Inr pr \<and> urlParse env (prURL pr) = Inr u \<and> trustedURL env trusted u \<and>
    httpDo env now pr = Inr (200, body) \<and> ciArn ident \<noteq> []"
proof -
  obtain pr where pr: "decodePresigned env cred = Inr pr" "validateStsURLWith env (prURL pr) trusted = None"
      "replayCallerIdentity env now pr = Inr ident"
    using assms by (auto simp: VerifyCallerIdentity_def split: sum.splits option.splits)
  obtain u where "urlParse env (prURL pr) = Inr u" "trustedURL env trusted u"
    using pr(2) by (auto simp: validateStsURLWith_def trustedURL_def matchTrustedEndpoint_def
        split: sum.splits if_splits)
  moreover obtain body where "httpDo env now pr = Inr (200, body)" "ciArn ident \<noteq> []"
    using pr(3) by (auto simp: replayCallerIdentity_def split: sum.splits prod.splits if_splits)
  ultimately show ?thesis using pr(1) by blast
qed

lemma stsHostPattern_suffix: "stsHostPattern h \<Longrightarrow> \<exists>p. h = p @ ''.amazonaws.com''"
proof -
  assume h: "stsHostPattern h"
  show ?thesis
  proof (cases "h = ''sts.amazonaws.com''")
    case True
    then have "h = ''sts'' @ ''.amazonaws.com''" by simp
    then show ?thesis by blast
  next
    case False
    let ?m = "drop 4 h"
    have "h = take 4 h @ takeWhile regionByte ?m @ drop (length (takeWhile regionByte ?m)) ?m"
      by (metis append_take_drop_id takeWhile_eq_take)
    moreover have "drop (length (takeWhile regionByte ?m)) ?m = ''.amazonaws.com''"
      using h False by (simp add: stsHostPattern_def Let_def)
    ultimately have "h = (take 4 h @ takeWhile regionByte ?m) @ ''.amazonaws.com''" by (metis append.assoc)
    then show ?thesis by blast
  qed
qed

section \<open>The session name\<close>

definition SessionNameFromArn :: "string \<Rightarrow> string result" where
  "SessionNameFromArn arn =
     (case after_marker '':assumed-role/'' arn of
        None \<Rightarrow> Inl (Err ''ARN is not an assumed-role ARN'')
      | Some rest \<Rightarrow>
          (case dropWhile (\<lambda>c. c \<noteq> CHR ''/'') rest of
             [] \<Rightarrow> Inl (Err ''ARN has no session name'')
           | slash # name \<Rightarrow> if name = [] then Inl (Err ''ARN has no session name'') else Inr name))"

lemma after_marker_split: "after_marker marker s = Some rest \<Longrightarrow> \<exists>p. s = p @ marker @ rest"
proof (induction s)
  case Nil
  then show ?case by (simp split: if_splits)
next
  case (Cons c s)
  show ?case
  proof (cases "has_prefix (c # s) marker")
    case True
    then have "c # s = [] @ marker @ rest" using Cons.prems append_take_drop_id [of "length marker" "c # s"]
      by (simp add: has_prefix_def)
    then show ?thesis by blast
  next
    case False
    then obtain p where "s = p @ marker @ rest" using Cons by auto
    then have "c # s = (c # p) @ marker @ rest" by simp
    then show ?thesis by blast
  qed
qed

lemma SessionNameFromArn_split:
  assumes "SessionNameFromArn arn = Inr name"
  shows "name \<noteq> [] \<and> (\<exists>p role. arn = p @ '':assumed-role/'' @ role @ CHR ''/'' # name \<and> CHR ''/'' \<notin> set role)"
proof -
  let ?P = "\<lambda>c. c \<noteq> CHR ''/''"
  obtain rest slash where r: "after_marker '':assumed-role/'' arn = Some rest" "dropWhile ?P rest = slash # name" "name \<noteq> []"
    using assms by (auto simp: SessionNameFromArn_def split: option.splits list.splits if_splits)
  have "slash = CHR ''/''" using hd_dropWhile [of ?P rest] r(2) by simp
  then have "rest = takeWhile ?P rest @ CHR ''/'' # name" using takeWhile_dropWhile_id [of ?P rest] r(2) by simp
  moreover have "CHR ''/'' \<notin> set (takeWhile ?P rest)" by (auto dest: set_takeWhileD)
  ultimately show ?thesis using after_marker_split [OF r(1)] r(3) by metis
qed

section \<open>Glob match of a role ARN\<close>

text \<open>\<open>.*\<close> followed by a match: any run of bytes without a newline.\<close>

fun skipThen :: "(string \<Rightarrow> bool) \<Rightarrow> string \<Rightarrow> bool" where
  "skipThen P [] = P []"
| "skipThen P (c # cs) = (P (c # cs) \<or> (c \<noteq> CHR 0x0A \<and> skipThen P cs))"

text \<open>The anchored expression built from the literal segments of the pattern, with \<open>.*\<close> between them.\<close>

fun matchSegs :: "string list \<Rightarrow> string \<Rightarrow> bool" where
  "matchSegs [] s = (s = [])"
| "matchSegs [seg] s = (s = seg)"
| "matchSegs (seg # seg' # segs) s =
     (has_prefix s seg \<and> skipThen (matchSegs (seg' # segs)) (drop (length seg) s))"

text \<open>
  Both texts are valid UTF-8 (they come out of the JSON and the XML decoder), so that the expression compiles and
  matching runes is matching bytes.
\<close>

definition MatchRoleArnPattern :: "string \<Rightarrow> string \<Rightarrow> bool" where
  "MatchRoleArnPattern pattern arn =
     (if pattern = [] \<or> arn = [] then False else matchSegs (split_on (CHR ''*'') pattern) arn)"

text \<open>The language of a glob: an asterisk stands for any run without a newline, every other byte for itself.\<close>

inductive globLang :: "string \<Rightarrow> string \<Rightarrow> bool" where
  globNil: "globLang [] []"
| globStar: "globLang p s \<Longrightarrow> CHR 0x0A \<notin> set a \<Longrightarrow> globLang (CHR ''*'' # p) (a @ s)"
| globByte: "c \<noteq> CHR ''*'' \<Longrightarrow> globLang p s \<Longrightarrow> globLang (c # p) (c # s)"

inductive_cases globLang_NilE: "globLang [] s"
inductive_cases globLang_ConsE: "globLang (c # p) s"

inductive_simps globLang_Nil: "globLang [] s"
inductive_simps globLang_Cons: "globLang (c # p) s"

lemma skipThen_iff: "skipThen P s \<longleftrightarrow> (\<exists>a b. s = a @ b \<and> CHR 0x0A \<notin> set a \<and> P b)"
proof (induction s)
  case Nil
  then show ?case by simp
next
  case (Cons c s)
  show ?case
  proof
    assume "skipThen P (c # s)"
    then consider "P (c # s)" | "c \<noteq> CHR 0x0A" "skipThen P s" by auto
    then show "\<exists>a b. c # s = a @ b \<and> CHR 0x0A \<notin> set a \<and> P b"
    proof cases
      case 1
      then show ?thesis by (metis append_Nil empty_iff empty_set)
    next
      case 2
      then obtain a b where "s = a @ b" "CHR 0x0A \<notin> set a" "P b" using Cons.IH by blast
      then have "c # s = (c # a) @ b \<and> CHR 0x0A \<notin> set (c # a) \<and> P b" using 2 by simp
      then show ?thesis by blast
    qed
  next
    assume "\<exists>a b. c # s = a @ b \<and> CHR 0x0A \<notin> set a \<and> P b"
    then obtain a b where ab: "c # s = a @ b" "CHR 0x0A \<notin> set a" "P b" by blast
    show "skipThen P (c # s)"
    proof (cases a)
      case Nil
      then have "P (c # s)" using ab by simp
      then show ?thesis by simp
    next
      case (Cons c' a')
      then have "skipThen P s" using ab Cons.IH by auto
      then show ?thesis using ab Cons by auto
    qed
  qed
qed

lemma matchSegs_byte: "matchSegs ((c # x) # xs) s \<longleftrightarrow> (\<exists>s'. s = c # s' \<and> matchSegs (x # xs) s')"
  by (cases xs; cases s) (auto simp: has_prefix_def)

lemma matchSegs_star: "segs \<noteq> [] \<Longrightarrow> matchSegs ([] # segs) s = skipThen (matchSegs segs) s"
  by (cases segs) (auto simp: has_prefix_def)

lemma matchSegs_globLang: "matchSegs (split_on (CHR ''*'') p) s \<longleftrightarrow> globLang p s"
proof (induction p arbitrary: s)
  case Nil
  then show ?case by (simp add: globLang_Nil)
next
  case (Cons c p)
  show ?case
  proof (cases "c = CHR ''*''")
    case True
    then have "matchSegs (split_on (CHR ''*'') (c # p)) s = skipThen (matchSegs (split_on (CHR ''*'') p)) s"
      by (simp add: matchSegs_star)
    also have "\<dots> \<longleftrightarrow> (\<exists>a b. s = a @ b \<and> CHR 0x0A \<notin> set a \<and> globLang p b)" by (simp add: skipThen_iff Cons.IH)
    finally show ?thesis using True by (auto simp: globLang_Cons)
  next
    case False
    then show ?thesis using Cons.IH
      by (cases "split_on (CHR ''*'') p") (auto simp: matchSegs_byte globLang_Cons)
  qed
qed

lemma MatchRoleArnPattern_iff: "MatchRoleArnPattern p arn \<longleftrightarrow> p \<noteq> [] \<and> arn \<noteq> [] \<and> globLang p arn"
  by (simp add: MatchRoleArnPattern_def matchSegs_globLang)

lemma globLang_literal: "CHR ''*'' \<notin> set p \<Longrightarrow> globLang p s \<longleftrightarrow> s = p"
  by (induction p arbitrary: s) (auto simp: globLang_Nil globLang_Cons)

end
