(* ===== verification/Anchors.thy ===== *)
theory Anchors
  imports Orgs AwsVerify
begin

text \<open>
  The attestation anchor and the substrate record of an organization (\<open>cmd/registry/anchor.go\<close>,
  \<open>cmd/registry/substrate.go\<close>): registration, which always lands pending, activation, which for an anchor needs a
  proof of control of the AWS account, and removal. The routes that write an organization record form a
  transition system, whose invariant is that an active anchor was proved.
\<close>

section \<open>Anchors\<close>

definition awsAccountID :: "string \<Rightarrow> bool" where
  "awsAccountID s = (length s = 12 \<and> list_all is_digit s)"

record anchorReq =
  arType :: string
  arAWSAccountID :: string
  arRoleArnPattern :: string

definition handlePutAnchor ::
  "'s Store \<Rightarrow> string \<Rightarrow> anchorReq result \<Rightarrow> ('s, 'd, 'z) world_scheme \<Rightarrow> Organization http \<times> ('s, 'd, 'z) world_scheme" where
  "handlePutAnchor S oid body w =
     (case body of
        Inl e \<Rightarrow> (HttpError 400 (errString e), w)
      | Inr b \<Rightarrow>
          if arType b \<noteq> ''sts'' then (HttpError 400 ''unsupported anchor type'', w)
          else if \<not> awsAccountID (arAWSAccountID b) then (HttpError 400 ''invalid awsAccountId'', w)
          else if \<not> has_prefix (arRoleArnPattern b) ''arn:'' then (HttpError 400 ''invalid roleArnPattern'', w)
          else editOrg S oid
                 (\<lambda>org. org\<lparr>orgAnchor := Some \<lparr>ancType = ''sts'', ancAWSAccountID = arAWSAccountID b,
                    ancRoleArnPattern = arRoleArnPattern b, ancStatus = AnchorPending, ancActivatedAt = None\<rparr>\<rparr>)
                 (HttpOK 200) w)"

definition handleDeleteAnchor ::
  "'s Store \<Rightarrow> string \<Rightarrow> ('s, 'd, 'z) world_scheme \<Rightarrow> unit http \<times> ('s, 'd, 'z) world_scheme" where
  "handleDeleteAnchor S oid w = editOrg S oid (\<lambda>org. org\<lparr>orgAnchor := None\<rparr>) (\<lambda>_. HttpOK 204 ()) w"

definition errAnchorProof :: "string \<Rightarrow> go_error" where
  "errAnchorProof reason = Err (''anchor proof failed: '' @ reason)"

text \<open>
  \<open>activateAnchor\<close>: on failure the status to send with the error that is only logged. The source reads the organization, calls STS and writes
  the whole organization back without a lock; here this is one step, so an edit by another request during the call to STS is not followed.
\<close>

definition activateAnchor ::
  "stsEnv \<Rightarrow> string \<Rightarrow> 's Store \<Rightarrow> time \<Rightarrow> string \<Rightarrow> string \<Rightarrow> ('s, 'd, 'z) world_scheme \<Rightarrow>
     ((nat \<times> go_error) + Organization) \<times> ('s, 'd, 'z) world_scheme" where
  "activateAnchor env trusted S now oid credential w =
     (case GetOrg S oid (wStore w) of
        Inl e \<Rightarrow> (Inl (500, e), w)
      | Inr None \<Rightarrow> (Inl (400, errAnchorProof ''org not found''), w)
      | Inr (Some org) \<Rightarrow>
          (case orgAnchor org of
             None \<Rightarrow> (Inl (400, errAnchorProof ''org has no sts anchor''), w)
           | Some a \<Rightarrow>
               if ancType a \<noteq> ''sts'' then (Inl (400, errAnchorProof ''org has no sts anchor''), w)
               else if credential = [] then (Inl (400, errAnchorProof ''missing credential''), w)
               else (case VerifyCallerIdentity env trusted now credential of
                       Inl e \<Rightarrow> (Inl (400, e), w)
                     | Inr ident \<Rightarrow>
                         if ciAccount ident \<noteq> ancAWSAccountID a then (Inl (400, errAnchorProof ''account mismatch''), w)
                         else if \<not> MatchRoleArnPattern (ancRoleArnPattern a) (ciArn ident)
                         then (Inl (400, errAnchorProof ''role ARN does not match pattern''), w)
                         else let org' = org\<lparr>orgAnchor := Some (a\<lparr>ancStatus := AnchorActive, ancActivatedAt := Some now\<rparr>)\<rparr>
                              in case PutOrg S org' (wStore w) of
                                   (Some e, s1) \<Rightarrow> (Inl (500, e), w\<lparr>wStore := s1\<rparr>)
                                 | (None, s1) \<Rightarrow> (Inr org', w\<lparr>wStore := s1\<rparr>))))"

definition handleActivateAnchor ::
  "stsEnv \<Rightarrow> string \<Rightarrow> 's Store \<Rightarrow> time \<Rightarrow> string \<Rightarrow> string result \<Rightarrow> ('s, 'd, 'z) world_scheme \<Rightarrow>
     Organization http \<times> ('s, 'd, 'z) world_scheme" where
  "handleActivateAnchor env trusted S now oid body w =
     (case body of
        Inl e \<Rightarrow> (HttpError 400 ''activation failed'', w)
      | Inr credential \<Rightarrow>
          (case activateAnchor env trusted S now oid credential w of
             (Inl (status, e), w1) \<Rightarrow> (HttpError status ''activation failed'', w1)
           | (Inr org, w1) \<Rightarrow> (HttpOK 200 org, w1)))"

lemma handleActivateAnchor_state:
  "snd (handleActivateAnchor env trusted S now oid (Inl e) w) = w"
  "snd (handleActivateAnchor env trusted S now oid (Inr cred) w) = snd (activateAnchor env trusted S now oid cred w)"
  by (simp_all add: handleActivateAnchor_def split: prod.splits sum.splits)

section \<open>Substrates\<close>

record substrateReq =
  srCertFingerprint :: string
  srCertSerial :: string

definition handlePutSubstrate ::
  "'s Store \<Rightarrow> time \<Rightarrow> string \<Rightarrow> substrateReq result \<Rightarrow> ('s, 'd, 'z) world_scheme \<Rightarrow>
     Organization http \<times> ('s, 'd, 'z) world_scheme" where
  "handlePutSubstrate S now oid body w =
     (case body of
        Inl e \<Rightarrow> (HttpError 400 (errString e), w)
      | Inr b \<Rightarrow>
          if srCertFingerprint b = [] then (HttpError 400 ''certFingerprint is required'', w)
          else editOrg S oid
                 (\<lambda>org. org\<lparr>orgSubstrate := Some \<lparr>subStatus = SubstratePending, subCertFingerprint = srCertFingerprint b,
                    subCertSerial = srCertSerial b, subIssuedAt = now, subActivatedAt = None\<rparr>\<rparr>)
                 (HttpOK 200) w)"

definition handleActivateSubstrate ::
  "'s Store \<Rightarrow> time \<Rightarrow> string \<Rightarrow> ('s, 'd, 'z) world_scheme \<Rightarrow> Substrate http \<times> ('s, 'd, 'z) world_scheme" where
  "handleActivateSubstrate S now oid w =
     (case GetOrg S oid (wStore w) of
        Inl e \<Rightarrow> (internalError, w)
      | Inr None \<Rightarrow> (notFound, w)
      | Inr (Some org) \<Rightarrow>
          (case orgSubstrate org of
             None \<Rightarrow> (notFound, w)
           | Some sub \<Rightarrow>
               if subStatus sub \<noteq> SubstrateActive
               then let sub' = sub\<lparr>subStatus := SubstrateActive, subActivatedAt := Some now\<rparr>
                    in case PutOrg S (org\<lparr>orgSubstrate := Some sub'\<rparr>) (wStore w) of
                         (Some e, s1) \<Rightarrow> (internalError, w\<lparr>wStore := s1\<rparr>)
                       | (None, s1) \<Rightarrow> (HttpOK 200 sub', w\<lparr>wStore := s1\<rparr>)
               else (HttpOK 200 sub, w)))"

definition handleDeleteSubstrate ::
  "'s Store \<Rightarrow> string \<Rightarrow> ('s, 'd, 'z) world_scheme \<Rightarrow> unit http \<times> ('s, 'd, 'z) world_scheme" where
  "handleDeleteSubstrate S oid w = editOrg S oid (\<lambda>org. org\<lparr>orgSubstrate := None\<rparr>) (\<lambda>_. HttpOK 204 ()) w"

section \<open>The organization records as a transition system\<close>

text \<open>The requests of the settings, anchor and substrate routes, and the world each leaves behind.\<close>

datatype orgRequest =
    PatchOrgReq string "string result"
  | PutAnchorReq string "anchorReq result"
  | DeleteAnchorReq string
  | ActivateAnchorReq time string "string result"
  | PutSubstrateReq time string "substrateReq result"
  | ActivateSubstrateReq time string
  | DeleteSubstrateReq string

fun serveOrg :: "stsEnv \<Rightarrow> string \<Rightarrow> 's Store \<Rightarrow> orgRequest \<Rightarrow> ('s, 'd, 'z) world_scheme \<Rightarrow> ('s, 'd, 'z) world_scheme" where
  "serveOrg env trusted S (PatchOrgReq oid body) w = snd (handlePatchOrg S oid body w)"
| "serveOrg env trusted S (PutAnchorReq oid body) w = snd (handlePutAnchor S oid body w)"
| "serveOrg env trusted S (DeleteAnchorReq oid) w = snd (handleDeleteAnchor S oid w)"
| "serveOrg env trusted S (ActivateAnchorReq now oid body) w = snd (handleActivateAnchor env trusted S now oid body w)"
| "serveOrg env trusted S (PutSubstrateReq now oid body) w = snd (handlePutSubstrate S now oid body w)"
| "serveOrg env trusted S (ActivateSubstrateReq now oid) w = snd (handleActivateSubstrate S now oid w)"
| "serveOrg env trusted S (DeleteSubstrateReq oid) w = snd (handleDeleteSubstrate S oid w)"

inductive orgReach ::
  "stsEnv \<Rightarrow> string \<Rightarrow> 's Store \<Rightarrow> ('s, 'd, 'z) world_scheme \<Rightarrow> ('s, 'd, 'z) world_scheme \<Rightarrow> bool"
  for env trusted S w0 where
  reachStart: "orgReach env trusted S w0 w0"
| reachServe: "orgReach env trusted S w0 w \<Longrightarrow> orgReach env trusted S w0 (serveOrg env trusted S req w)"

text \<open>What an active anchor has behind it: a credential that STS attested for its account and role.\<close>

definition anchorProved :: "stsEnv \<Rightarrow> string \<Rightarrow> Organization \<Rightarrow> bool" where
  "anchorProved env trusted org =
     (\<forall>a. orgAnchor org = Some a \<longrightarrow>
        ancType a = ''sts'' \<and> awsAccountID (ancAWSAccountID a) \<and> has_prefix (ancRoleArnPattern a) ''arn:'' \<and>
        (ancStatus a = AnchorActive \<longrightarrow>
           (\<exists>now cred ident. ancActivatedAt a = Some now \<and> VerifyCallerIdentity env trusted now cred = Inr ident \<and>
              ciAccount ident = ancAWSAccountID a \<and> globLang (ancRoleArnPattern a) (ciArn ident))))"

lemma anchorProved_simps [simp]:
  "anchorProved env trusted (org\<lparr>orgRemovalDisposition := d\<rparr>) = anchorProved env trusted org"
  "anchorProved env trusted (org\<lparr>orgSubstrate := s\<rparr>) = anchorProved env trusted org"
  "anchorProved env trusted (org\<lparr>orgAnchor := None\<rparr>)"
  "anchorProved env trusted (org\<lparr>orgAnchor := Some \<lparr>ancType = ''sts'', ancAWSAccountID = acc, ancRoleArnPattern = p,
     ancStatus = AnchorPending, ancActivatedAt = at\<rparr>\<rparr>) = (awsAccountID acc \<and> has_prefix p ''arn:'')"
  by (simp_all add: anchorProved_def AnchorPending_def AnchorActive_def)

text \<open>
  The interface the routes rely on: an organization record that was put is the one that is read back, and no other
  record changes.
\<close>

locale org_store =
  fixes S :: "'s Store" and orgs :: "'s \<Rightarrow> string \<Rightarrow> Organization option"
  assumes get_org: "GetOrg S oid s = Inr (orgs s oid)"
    and put_org: "PutOrg S org s = (e, s') \<Longrightarrow> e = None \<and> orgs s' = (orgs s)(orgOrgID org \<mapsto> org)"
begin

definition allOrgs :: "(Organization \<Rightarrow> bool) \<Rightarrow> ('s, 'd, 'z) world_scheme \<Rightarrow> bool" where
  "allOrgs P w = (\<forall>oid org. orgs (wStore w) oid = Some org \<longrightarrow> orgOrgID org = oid \<and> P org)"

lemma put_keeps:
  assumes "allOrgs P w" and "P org"
  shows "\<exists>s1. PutOrg S org (wStore w) = (None, s1) \<and> allOrgs P (w\<lparr>wStore := s1\<rparr>)"
  using assms put_org [of org "wStore w"] by (cases "PutOrg S org (wStore w)") (auto simp: allOrgs_def)

lemma edit_keeps:
  assumes "allOrgs P w" and "\<And>org. orgs (wStore w) oid = Some org \<Longrightarrow> P org \<Longrightarrow> P (f org)"
  shows "allOrgs P (snd (editOrg S oid f answer w))"
proof (cases "orgs (wStore w) oid")
  case None
  then show ?thesis using assms(1) by (simp add: editOrg_def get_org)
next
  case (Some org)
  then have "P (f org)" using assms by (simp add: allOrgs_def)
  then obtain s1 where "PutOrg S (f org) (wStore w) = (None, s1)" "allOrgs P (w\<lparr>wStore := s1\<rparr>)"
    using put_keeps [OF assms(1)] by blast
  then show ?thesis using Some by (simp add: editOrg_def get_org)
qed

lemma activate_keeps:
  assumes "allOrgs (anchorProved env trusted) w"
  shows "allOrgs (anchorProved env trusted) (snd (activateAnchor env trusted S now oid cred w))"
proof (cases "\<exists>org a ident. orgs (wStore w) oid = Some org \<and> orgAnchor org = Some a \<and> ancType a = ''sts'' \<and> cred \<noteq> [] \<and>
    VerifyCallerIdentity env trusted now cred = Inr ident \<and> ciAccount ident = ancAWSAccountID a \<and>
    MatchRoleArnPattern (ancRoleArnPattern a) (ciArn ident)")
  case True
  then obtain org a ident where h: "orgs (wStore w) oid = Some org" "orgAnchor org = Some a" "ancType a = ''sts''" "cred \<noteq> []"
    "VerifyCallerIdentity env trusted now cred = Inr ident" "ciAccount ident = ancAWSAccountID a"
    "MatchRoleArnPattern (ancRoleArnPattern a) (ciArn ident)" by blast
  let ?org = "org\<lparr>orgAnchor := Some (a\<lparr>ancStatus := AnchorActive, ancActivatedAt := Some now\<rparr>)\<rparr>"
  have "anchorProved env trusted org" using assms h(1) by (simp add: allOrgs_def)
  then have "anchorProved env trusted ?org" using h by (auto simp: anchorProved_def MatchRoleArnPattern_iff)
  then obtain s1 where "PutOrg S ?org (wStore w) = (None, s1)" "allOrgs (anchorProved env trusted) (w\<lparr>wStore := s1\<rparr>)"
    using put_keeps [OF assms] by blast
  then show ?thesis using h by (simp add: activateAnchor_def get_org Let_def)
next
  case False
  then have "snd (activateAnchor env trusted S now oid cred w) = w"
    by (auto simp: activateAnchor_def get_org split: option.splits sum.splits)
  then show ?thesis using assms by simp
qed

lemma activate_substrate_keeps:
  assumes "allOrgs (anchorProved env trusted) w"
  shows "allOrgs (anchorProved env trusted) (snd (handleActivateSubstrate S now oid w))"
proof (cases "\<exists>org sub. orgs (wStore w) oid = Some org \<and> orgSubstrate org = Some sub \<and> subStatus sub \<noteq> SubstrateActive")
  case True
  then obtain org sub where h: "orgs (wStore w) oid = Some org" "orgSubstrate org = Some sub" "subStatus sub \<noteq> SubstrateActive"
    by blast
  let ?org = "org\<lparr>orgSubstrate := Some (sub\<lparr>subStatus := SubstrateActive, subActivatedAt := Some now\<rparr>)\<rparr>"
  have "anchorProved env trusted ?org" using assms h(1) by (simp add: allOrgs_def anchorProved_def)
  then obtain s1 where "PutOrg S ?org (wStore w) = (None, s1)" "allOrgs (anchorProved env trusted) (w\<lparr>wStore := s1\<rparr>)"
    using put_keeps [OF assms] by blast
  then show ?thesis using h by (simp add: handleActivateSubstrate_def get_org Let_def)
next
  case False
  then have "snd (handleActivateSubstrate S now oid w) = w"
    by (auto simp: handleActivateSubstrate_def get_org split: option.splits)
  then show ?thesis using assms by simp
qed

lemma serve_keeps:
  assumes "allOrgs (anchorProved env trusted) w"
  shows "allOrgs (anchorProved env trusted) (serveOrg env trusted S req w)"
proof (cases req)
  case (PatchOrgReq oid body)
  then show ?thesis using assms by (cases body) (simp_all add: handlePatchOrg_def edit_keeps)
next
  case (PutAnchorReq oid body)
  then show ?thesis using assms by (cases body) (simp_all add: handlePutAnchor_def edit_keeps)
next
  case (DeleteAnchorReq oid)
  then show ?thesis using assms by (simp add: handleDeleteAnchor_def edit_keeps)
next
  case (ActivateAnchorReq now oid body)
  then show ?thesis using assms activate_keeps [OF assms, of now oid]
    by (cases body) (simp_all add: handleActivateAnchor_state)
next
  case (PutSubstrateReq now oid body)
  then show ?thesis using assms by (cases body) (simp_all add: handlePutSubstrate_def edit_keeps)
next
  case (ActivateSubstrateReq now oid)
  then show ?thesis using activate_substrate_keeps [OF assms] by simp
next
  case (DeleteSubstrateReq oid)
  then show ?thesis using assms by (simp add: handleDeleteSubstrate_def edit_keeps)
qed

lemma reach_keeps:
  "orgReach env trusted S w0 w \<Longrightarrow> allOrgs (anchorProved env trusted) w0 \<Longrightarrow> allOrgs (anchorProved env trusted) w"
  by (induction rule: orgReach.induct) (auto intro: serve_keeps)

end

interpretation morg: org_store memStore "\<lambda>s. gget (stOrgs s)"
  by unfold_locales (auto simp: memStore_simps getOrg_def putOrg_def gomap_simps fun_eq_iff)

lemma activation_failure_is_uniform:
  "handleActivateAnchor env trusted memStore now oid body w = (resp, w') \<Longrightarrow>
     (\<exists>org. resp = HttpOK 200 org) \<or> (resp = HttpError 400 ''activation failed'' \<and> w' = w)"
  by (auto simp: handleActivateAnchor_def activateAnchor_def memStore_simps Let_def split: sum.splits option.splits if_splits)

text \<open>
  C36: proof of control. Start from organizations without an anchor and serve any sequence of settings, anchor and
  substrate requests on the in-memory store. An anchor that is then active is an STS anchor with a twelve-digit account
  and an ARN pattern, and at its activation time a presented request whose URL names the trusted STS endpoint and no other host was answered with
  status 200, attesting exactly the account of the anchor and a role in the language of its pattern.
  In particular a re-registration, which may change the account or the pattern, never leaves an anchor active.
\<close>

theorem active_anchor_was_proved:
  assumes "orgReach env trusted memStore w0 w"
    and "\<forall>i org. gget (stOrgs (wStore w0)) i = Some org \<longrightarrow> orgOrgID org = i \<and> orgAnchor org = None"
    and "gget (stOrgs (wStore w)) oid = Some org" and "orgAnchor org = Some a" and "ancStatus a = AnchorActive"
  shows "ancType a = ''sts'' \<and> awsAccountID (ancAWSAccountID a) \<and> has_prefix (ancRoleArnPattern a) ''arn:'' \<and>
    (\<exists>now cred ident pr u body. ancActivatedAt a = Some now \<and> VerifyCallerIdentity env trusted now cred = Inr ident \<and>
       ciAccount ident = ancAWSAccountID a \<and> globLang (ancRoleArnPattern a) (ciArn ident) \<and>
       decodePresigned env cred = Inr pr \<and> urlParse env (prURL pr) = Inr u \<and> trustedURL env trusted u \<and>
       httpDo env now pr = Inr (200, body))"
proof -
  have "morg.allOrgs (anchorProved env trusted) w0" using assms(2) by (simp add: morg.allOrgs_def anchorProved_def)
  then have p: "anchorProved env trusted org" using morg.reach_keeps [OF assms(1)] assms(3) by (simp add: morg.allOrgs_def)
  then obtain now cred ident where "ancActivatedAt a = Some now" "VerifyCallerIdentity env trusted now cred = Inr ident"
      "ciAccount ident = ancAWSAccountID a" "globLang (ancRoleArnPattern a) (ciArn ident)"
    using assms(4,5) by (auto simp: anchorProved_def)
  moreover from this obtain pr u body where "decodePresigned env cred = Inr pr" "urlParse env (prURL pr) = Inr u"
      "trustedURL env trusted u" "httpDo env now pr = Inr (200, body)"
    using VerifyCallerIdentity_trusted by blast
  ultimately show ?thesis using p assms(4) unfolding anchorProved_def by blast
qed

text \<open>A request that STS answers for account 123456789012 and one organization without an anchor.\<close>

definition exampleEnv :: stsEnv where
  "exampleEnv = \<lparr>base64Decode = Inr,
     unmarshalPresigned = (\<lambda>s. Inr \<lparr>prMethod = ''GET'', prURL = ''https://sts.amazonaws.com/?Action=GetCallerIdentity'', prHeaders = []\<rparr>),
     urlParse = (\<lambda>s. Inr \<lparr>urlScheme = ''https'', urlHost = ''sts.amazonaws.com'', urlHostname = ''sts.amazonaws.com''\<rparr>),
     newRequest = (\<lambda>m u. Inr ()), httpDo = (\<lambda>now pr. Inr (200, ''xml'')),
     unmarshalXML = (\<lambda>s. Inr \<lparr>gciArn = ''arn:aws:sts::123456789012:assumed-role/agents/a1'', gciAccount = ''123456789012''\<rparr>)\<rparr>"

definition anchorWorld :: "(store, unit) world" where
  "anchorWorld = \<lparr>wStore = lineStore\<lparr>stOrgs := [(''acme'', \<lparr>orgOrgID = ''acme'', orgName = ''Acme'', orgRemovalDisposition = [],
     orgDisabled = False, orgAnchor = None, orgSubstrate = None, orgCreatedAt = 0\<rparr>)]\<rparr>, wSdb = ()\<rparr>"

definition provenWorld :: "(store, unit) world" where
  "provenWorld = serveOrg exampleEnv [] memStore (ActivateAnchorReq 7 ''acme'' (Inr ''cred''))
     (serveOrg exampleEnv [] memStore (PutAnchorReq ''acme'' (Inr \<lparr>arType = ''sts'', arAWSAccountID = ''123456789012'',
        arRoleArnPattern = ''arn:aws:sts::123456789012:assumed-role/agents/*''\<rparr>)) anchorWorld)"

theorem active_anchor_was_proved_witness:
  "\<exists>org a cred ident. gget (stOrgs (wStore provenWorld)) ''acme'' = Some org \<and> orgAnchor org = Some a \<and>
     ancStatus a = AnchorActive \<and> VerifyCallerIdentity exampleEnv [] 7 cred = Inr ident \<and> ciAccount ident = ''123456789012''"
proof -
  have reach: "orgReach exampleEnv [] memStore anchorWorld provenWorld"
    unfolding provenWorld_def by (intro orgReach.intros)
  have start: "\<forall>i org. gget (stOrgs (wStore anchorWorld)) i = Some org \<longrightarrow> orgOrgID org = i \<and> orgAnchor org = None"
    by (simp add: anchorWorld_def)
  have "case gget (stOrgs (wStore provenWorld)) ''acme'' of None \<Rightarrow> False | Some org \<Rightarrow>
      (case orgAnchor org of None \<Rightarrow> False | Some a \<Rightarrow>
         ancStatus a = AnchorActive \<and> ancAWSAccountID a = ''123456789012'' \<and> ancActivatedAt a = Some 7)" by code_simp
  then obtain org a where oa: "gget (stOrgs (wStore provenWorld)) ''acme'' = Some org" "orgAnchor org = Some a"
      "ancStatus a = AnchorActive" "ancAWSAccountID a = ''123456789012''" "ancActivatedAt a = Some 7"
    by (auto split: option.splits)
  from active_anchor_was_proved [OF reach start oa(1,2,3)] oa show ?thesis by fastforce
qed

end
