(* ===== verification/DynamoDB.thy ===== *)
theory DynamoDB
  imports RegistryTypes
begin

text \<open>
  The database side of \<open>internal/registry/dynamostore/store.go\<close>: the attribute values, items,
  conditions and updates the store sends to DynamoDB, and the programs that send them.

  DynamoDB and its client library are not part of the repository. A store operation is therefore a
  \<open>prog\<close>: a tree whose nodes are the calls it makes, in order, each with a continuation for every
  answer. One and the same program is run against a service (\<open>run\<close>, with the client as a parameter)
  and interleaved with others call by call, as the replicas of the registry do.
\<close>

section \<open>Attribute values, items and keys\<close>

text \<open>
  An \<open>AVTime\<close> is a string attribute holding the RFC 3339 form of an instant; the four nested values
  are map attributes holding a marshalled struct.
\<close>

datatype AttributeValue =
    AVS string
  | AVBool bool
  | AVNull
  | AVStrs "string list"
  | AVTime time
  | AVTpl AgentTemplate
  | AVAgent AgentRecord
  | AVEvent Event
  | AVOrg Organization

type_synonym item = "(string, AttributeValue) gomap"
type_synonym dkey = "string \<times> string"
type_synonym table = "dkey \<Rightarrow> item option"

definition strOf :: "string \<Rightarrow> item \<Rightarrow> string" where
  "strOf n it = (case gget it n of Some (AVS s) \<Rightarrow> s | _ \<Rightarrow> [])"

definition boolOf :: "string \<Rightarrow> item \<Rightarrow> bool" where
  "boolOf n it = (case gget it n of Some (AVBool b) \<Rightarrow> b | _ \<Rightarrow> False)"

definition strsOf :: "string \<Rightarrow> item \<Rightarrow> string slice" where
  "strsOf n it = (case gget it n of Some (AVStrs ss) \<Rightarrow> Some ss | _ \<Rightarrow> None)"

definition timeOf :: "string \<Rightarrow> item \<Rightarrow> time" where
  "timeOf n it = (case gget it n of Some (AVTime t) \<Rightarrow> t | _ \<Rightarrow> 0)"

definition timePtrOf :: "string \<Rightarrow> item \<Rightarrow> time option" where
  "timePtrOf n it = (case gget it n of Some (AVTime t) \<Rightarrow> Some t | _ \<Rightarrow> None)"

text \<open>An attribute of a kind the field cannot hold makes \<open>unmarshal\<close> fail; a missing one is the zero value.\<close>

fun isStrAV :: "AttributeValue \<Rightarrow> bool" where
  "isStrAV (AVS _) = True" | "isStrAV AVNull = True" | "isStrAV _ = False"

fun isBoolAV :: "AttributeValue \<Rightarrow> bool" where
  "isBoolAV (AVBool _) = True" | "isBoolAV AVNull = True" | "isBoolAV _ = False"

fun isStrsAV :: "AttributeValue \<Rightarrow> bool" where
  "isStrsAV (AVStrs _) = True" | "isStrsAV AVNull = True" | "isStrsAV _ = False"

fun isTimeAV :: "AttributeValue \<Rightarrow> bool" where
  "isTimeAV (AVTime _) = True" | "isTimeAV AVNull = True" | "isTimeAV _ = False"

definition fieldOk :: "(AttributeValue \<Rightarrow> bool) \<Rightarrow> item \<Rightarrow> string \<Rightarrow> bool" where
  "fieldOk kind it n = (case gget it n of None \<Rightarrow> True | Some v \<Rightarrow> kind v)"

definition itemKey :: "item \<Rightarrow> dkey" where
  "itemKey it = (strOf ''pk'' it, strOf ''sk'' it)"

lemmas attr_defs = strOf_def boolOf_def strsOf_def timeOf_def timePtrOf_def fieldOk_def

section \<open>Conditions and updates\<close>

datatype condition =
    CTrue
  | CExists string
  | CNotExists string
  | CEq string AttributeValue
  | CAnd condition condition

fun evalCond :: "condition \<Rightarrow> item option \<Rightarrow> bool" where
  "evalCond CTrue io = True"
| "evalCond (CExists n) io = (case io of None \<Rightarrow> False | Some it \<Rightarrow> gget it n \<noteq> None)"
| "evalCond (CNotExists n) io = (case io of None \<Rightarrow> True | Some it \<Rightarrow> gget it n = None)"
| "evalCond (CEq n v) io = (case io of None \<Rightarrow> False | Some it \<Rightarrow> gget it n = Some v)"
| "evalCond (CAnd c d) io = (evalCond c io \<and> evalCond d io)"

text \<open>
  \<open>SET a = v\<close>, \<open>SET a.f = v\<close>, \<open>SET a = if_not_exists(a, v)\<close>, \<open>REMOVE a\<close>. A document path that does
  not exist in the item is a validation error.
\<close>

datatype action =
    SetAttr string AttributeValue
  | SetPath string string AttributeValue
  | SetIfNotExists string AttributeValue
  | RemoveAttr string

fun setNested :: "string \<Rightarrow> AttributeValue \<Rightarrow> AttributeValue \<Rightarrow> AttributeValue option" where
  "setNested f (AVS s) (AVAgent r) = (if f = ''status'' then Some (AVAgent (r\<lparr>agStatus := s\<rparr>)) else None)"
| "setNested f (AVBool b) (AVAgent r) =
     (if f = ''dismissed'' then Some (AVAgent (r\<lparr>agDismissed := b\<rparr>)) else None)"
| "setNested f (AVS s) (AVTpl t) = (if f = ''status'' then Some (AVTpl (t\<lparr>tplStatus := s\<rparr>)) else None)"
| "setNested f v w = None"

fun applyAction :: "action \<Rightarrow> item \<Rightarrow> item option" where
  "applyAction (SetAttr n v) it = Some (gput n v it)"
| "applyAction (SetPath n f v) it =
     (case gget it n of
        None \<Rightarrow> None
      | Some w \<Rightarrow> (case setNested f v w of None \<Rightarrow> None | Some w' \<Rightarrow> Some (gput n w' it)))"
| "applyAction (SetIfNotExists n v) it = Some (if gget it n = None then gput n v it else it)"
| "applyAction (RemoveAttr n) it = Some (gdel n it)"

fun applyUpdate :: "action list \<Rightarrow> item \<Rightarrow> item option" where
  "applyUpdate [] it = Some it"
| "applyUpdate (a # as) it = (case applyAction a it of None \<Rightarrow> None | Some it' \<Rightarrow> applyUpdate as it')"

text \<open>An update of a key that is not in the table starts from an item with the key attributes only.\<close>

definition updateItem :: "dkey \<Rightarrow> action list \<Rightarrow> item option \<Rightarrow> item option" where
  "updateItem k u io =
     applyUpdate u (case io of None \<Rightarrow> [(''pk'', AVS (fst k)), (''sk'', AVS (snd k))] | Some it \<Rightarrow> it)"

section \<open>Queries\<close>

datatype indexName = BaseTable | GSI1 | GSI2

fun pkAttr :: "indexName \<Rightarrow> string" where
  "pkAttr BaseTable = ''pk''" | "pkAttr GSI1 = ''gsi1pk''" | "pkAttr GSI2 = ''gsi2pk''"

fun skAttr :: "indexName \<Rightarrow> string" where
  "skAttr BaseTable = ''sk''" | "skAttr GSI1 = ''gsi1sk''" | "skAttr GSI2 = ''gsi2sk''"

record QueryInput =
  qIndex :: indexName
  qPK :: string
  qPrefix :: "string option"

definition matchesQuery :: "QueryInput \<Rightarrow> item \<Rightarrow> bool" where
  "matchesQuery q it = (gget it (pkAttr (qIndex q)) = Some (AVS (qPK q)) \<and>
     (case qPrefix q of
        None \<Rightarrow> True
      | Some p \<Rightarrow> (case gget it (skAttr (qIndex q)) of Some (AVS s) \<Rightarrow> has_prefix s p | _ \<Rightarrow> False)))"

section \<open>Errors\<close>

text \<open>A cancelled transaction carries one reason per item; the code of a reason may be absent.\<close>

datatype aws_error =
    ConditionalCheckFailedException
  | TransactionCanceledException "string option list"
  | AwsError string

fun awsErr :: "aws_error \<Rightarrow> go_error" where
  "awsErr ConditionalCheckFailedException = Err ''ConditionalCheckFailedException''"
| "awsErr (TransactionCanceledException _) = Err ''TransactionCanceledException''"
| "awsErr (AwsError msg) = Err msg"

type_synonym 'a awsres = "aws_error + 'a"

definition isCondFailed :: "aws_error \<Rightarrow> bool" where
  "isCondFailed err = (err = ConditionalCheckFailedException)"

fun txnCancelHas :: "aws_error \<Rightarrow> string \<Rightarrow> bool" where
  "txnCancelHas (TransactionCanceledException reasons) code = (Some code \<in> set reasons)"
| "txnCancelHas _ code = False"

definition isTxnCondFailed :: "aws_error \<Rightarrow> bool" where
  "isTxnCondFailed err = txnCancelHas err ''ConditionalCheckFailed''"

definition isTxnConflict :: "aws_error \<Rightarrow> bool" where
  "isTxnConflict err = txnCancelHas err ''TransactionConflict''"

section \<open>Programs\<close>

datatype TransactWriteItem =
    TPut item condition
  | TUpdate dkey condition "action list"

text \<open>
  \<open>GetItem\<close> carries its \<open>ConsistentRead\<close> flag; \<open>UpdateItem\<close> answers the attributes after the update
  and \<open>DeleteItem\<close> those before it. \<open>QueryPages\<close> answers the pages of a query in order, an error
  ending the sequence. A \<open>Sleep\<close> is in milliseconds.
\<close>

datatype 'a prog =
    Ret 'a
  | GetItem bool dkey "item option awsres \<Rightarrow> 'a prog"
  | PutItem item "aws_error option \<Rightarrow> 'a prog"
  | UpdateItem dkey condition "action list" "item awsres \<Rightarrow> 'a prog"
  | DeleteItem dkey condition "item option awsres \<Rightarrow> 'a prog"
  | QueryPages QueryInput "item list awsres list \<Rightarrow> 'a prog"
  | TransactWriteItems "TransactWriteItem list" "aws_error option \<Rightarrow> 'a prog"
  | TimeNow "time \<Rightarrow> 'a prog"
  | RandHex nat "string \<Rightarrow> 'a prog"
  | Sleep nat "'a prog"

primrec bindP :: "'a prog \<Rightarrow> ('a \<Rightarrow> 'b prog) \<Rightarrow> 'b prog" where
  "bindP (Ret a) f = f a"
| "bindP (GetItem c k g) f = GetItem c k (\<lambda>r. bindP (g r) f)"
| "bindP (PutItem it g) f = PutItem it (\<lambda>r. bindP (g r) f)"
| "bindP (UpdateItem k c u g) f = UpdateItem k c u (\<lambda>r. bindP (g r) f)"
| "bindP (DeleteItem k c g) f = DeleteItem k c (\<lambda>r. bindP (g r) f)"
| "bindP (QueryPages q g) f = QueryPages q (\<lambda>r. bindP (g r) f)"
| "bindP (TransactWriteItems ws g) f = TransactWriteItems ws (\<lambda>r. bindP (g r) f)"
| "bindP (TimeNow g) f = TimeNow (\<lambda>r. bindP (g r) f)"
| "bindP (RandHex n g) f = RandHex n (\<lambda>r. bindP (g r) f)"
| "bindP (Sleep n p) f = Sleep n (bindP p f)"

text \<open>
  The client a process runs its programs with: the DynamoDB operations, the clock and the random
  source, over an abstract state. Sleeping gives the service time to move.
\<close>

record 'd DynamoClient =
  cGetItem :: "bool \<Rightarrow> dkey \<Rightarrow> 'd \<Rightarrow> item option awsres"
  cPutItem :: "item \<Rightarrow> 'd \<Rightarrow> aws_error option \<times> 'd"
  cUpdateItem :: "dkey \<Rightarrow> condition \<Rightarrow> action list \<Rightarrow> 'd \<Rightarrow> item awsres \<times> 'd"
  cDeleteItem :: "dkey \<Rightarrow> condition \<Rightarrow> 'd \<Rightarrow> item option awsres \<times> 'd"
  cQuery :: "QueryInput \<Rightarrow> 'd \<Rightarrow> item list awsres list"
  cTransact :: "TransactWriteItem list \<Rightarrow> 'd \<Rightarrow> aws_error option \<times> 'd"
  cNow :: "'d \<Rightarrow> time \<times> 'd"
  cRand :: "nat \<Rightarrow> 'd \<Rightarrow> string \<times> 'd"
  cSleep :: "nat \<Rightarrow> 'd \<Rightarrow> 'd"

primrec run :: "'d DynamoClient \<Rightarrow> 'a prog \<Rightarrow> 'd \<Rightarrow> 'a \<times> 'd" where
  "run C (Ret a) d = (a, d)"
| "run C (GetItem c k g) d = run C (g (cGetItem C c k d)) d"
| "run C (PutItem it g) d = (case cPutItem C it d of (r, d') \<Rightarrow> run C (g r) d')"
| "run C (UpdateItem k c u g) d = (case cUpdateItem C k c u d of (r, d') \<Rightarrow> run C (g r) d')"
| "run C (DeleteItem k c g) d = (case cDeleteItem C k c d of (r, d') \<Rightarrow> run C (g r) d')"
| "run C (QueryPages q g) d = run C (g (cQuery C q d)) d"
| "run C (TransactWriteItems ws g) d = (case cTransact C ws d of (r, d') \<Rightarrow> run C (g r) d')"
| "run C (TimeNow g) d = (case cNow C d of (t, d') \<Rightarrow> run C (g t) d')"
| "run C (RandHex n g) d = (case cRand C n d of (x, d') \<Rightarrow> run C (g x) d')"
| "run C (Sleep n p) d = run C p (cSleep C n d)"

lemma run_bindP: "run C (bindP p f) d = (case run C p d of (a, d') \<Rightarrow> run C (f a) d')"
  by (induction p arbitrary: d) (simp_all split: prod.splits)

lemma bindP_assoc: "bindP (bindP p f) g = bindP p (\<lambda>a. bindP (f a) g)"
  by (induction p) simp_all

text \<open>\<open>queryAll\<close>: the pages in one list, or the first error.\<close>

fun drainPages :: "item list awsres list \<Rightarrow> item list awsres" where
  "drainPages [] = Inr []"
| "drainPages (Inl e # ps) = Inl e"
| "drainPages (Inr items # ps) = (case drainPages ps of Inl e \<Rightarrow> Inl e | Inr rest \<Rightarrow> Inr (items @ rest))"

definition queryAll :: "QueryInput \<Rightarrow> (item list awsres) prog" where
  "queryAll q = QueryPages q (\<lambda>pages. Ret (drainPages pages))"

text \<open>
  \<open>retryOnTxnConflict\<close>, the number of attempts left as its recursion argument, the error of the
  last attempt as accumulator.
\<close>

definition txnConflictBudget :: nat where "txnConflictBudget = 5"

primrec retryLoop :: "nat \<Rightarrow> aws_error option prog \<Rightarrow> aws_error option \<Rightarrow> aws_error option prog" where
  "retryLoop 0 fn err = Ret err"
| "retryLoop (Suc n) fn err =
     bindP fn (\<lambda>e. case e of
         None \<Rightarrow> Ret None
       | Some x \<Rightarrow> if \<not> isTxnConflict x then Ret (Some x)
                    else Sleep ((txnConflictBudget - n) * 20) (retryLoop n fn (Some x)))"

definition retryOnTxnConflict :: "aws_error option prog \<Rightarrow> aws_error option prog" where
  "retryOnTxnConflict fn = retryLoop txnConflictBudget fn None"

section \<open>What a service does to a table\<close>

text \<open>
  The documented effect of the write calls on the table: a condition is evaluated on the item
  under the key, a failed condition changes nothing, a transaction evaluates every condition first
  and applies all of its writes or none.
\<close>

fun twKey :: "TransactWriteItem \<Rightarrow> dkey" where
  "twKey (TPut it c) = itemKey it"
| "twKey (TUpdate k c u) = k"

fun twCond :: "TransactWriteItem \<Rightarrow> condition" where
  "twCond (TPut it c) = c"
| "twCond (TUpdate k c u) = c"

fun twItem :: "TransactWriteItem \<Rightarrow> table \<Rightarrow> item option" where
  "twItem (TPut it c) T = Some it"
| "twItem (TUpdate k c u) T = updateItem k u (T k)"

definition txnHolds :: "TransactWriteItem list \<Rightarrow> table \<Rightarrow> bool" where
  "txnHolds ws T = (\<forall>w \<in> set ws. evalCond (twCond w) (T (twKey w)))"

definition txnApply :: "TransactWriteItem list \<Rightarrow> table \<Rightarrow> table" where
  "txnApply ws T = fold (\<lambda>w T'. T'(twKey w := twItem w T)) ws T"

end
