(* ===== verification/DynamoStore.thy ===== *)
theory DynamoStore
  imports DynamoDB Store
begin

text \<open>
  The durable store of \<open>internal/registry/dynamostore/store.go\<close>: one table, every operation of the
  \<open>Store\<close> contract as a program of DynamoDB calls, in the order and with the conditions of the
  source. A name that the in-memory store or the contract already has carries the suffix \<open>_ddb\<close>.

  Marshalling a struct of the registry never fails, so its error branch is left out; unmarshalling
  fails on an attribute of the wrong kind. The test-only hook \<open>afterPivot\<close> is nil.
\<close>

section \<open>Keys\<close>

definition skMeta :: string where "skMeta = ''META''"
definition gsi1Template :: string where "gsi1Template = ''TPL''"
definition gsi1Agent :: string where "gsi1Agent = ''AG''"
definition gsi1Consent :: string where "gsi1Consent = ''CON''"
definition gsi1Creq :: string where "gsi1Creq = ''CREQ''"
definition gsi1Org :: string where "gsi1Org = ''ORG''"

definition tplPK :: "string \<Rightarrow> string" where "tplPK agentType = ''TPL#'' @ agentType"
definition agPK :: "string \<Rightarrow> string" where "agPK agentID = ''AG#'' @ agentID"
definition conPK :: "string \<Rightarrow> string" where "conPK edge = ''CON#'' @ edge"
definition creqPK :: "string \<Rightarrow> string" where "creqPK oid = ''CREQ#'' @ oid"
definition openPK :: "string \<Rightarrow> string" where "openPK key = ''OPEN#'' @ key"
definition orgPK :: "string \<Rightarrow> string" where "orgPK oid = ''ORG#'' @ oid"

definition genID :: "string \<Rightarrow> string prog" where
  "genID prefix = TimeNow (\<lambda>nano. RandHex 4 (\<lambda>r. Ret (prefix @ ''-'' @ show_int nano @ ''-'' @ r)))"

section \<open>Item shapes\<close>

definition templateItem :: "AgentTemplate \<Rightarrow> item" where
  "templateItem t = [(''pk'', AVS (tplPK (tplAgentType t))), (''sk'', AVS skMeta),
     (''gsi1pk'', AVS gsi1Template), (''gsi1sk'', AVS (tplAgentType t)), (''tpl'', AVTpl t)]"

text \<open>The sparse second index: only an agent with a parent carries \<open>gsi2pk\<close>.\<close>

definition agentItem :: "AgentRecord \<Rightarrow> item" where
  "agentItem r = [(''pk'', AVS (agPK (agAgentID r))), (''sk'', AVS skMeta),
     (''gsi1pk'', AVS gsi1Agent), (''gsi1sk'', AVS (agAgentID r)), (''agent'', AVAgent r)] @
     (if agParentID r \<noteq> [] then [(''gsi2pk'', AVS (''PARENT#'' @ agParentID r))] else [])"

definition eventItem :: "string \<Rightarrow> string \<Rightarrow> Event \<Rightarrow> item" where
  "eventItem agentID sk e = [(''pk'', AVS (agPK agentID)), (''sk'', AVS sk), (''event'', AVEvent e)]"

definition orgItem :: "Organization \<Rightarrow> item" where
  "orgItem org = [(''pk'', AVS (orgPK (orgOrgID org))), (''sk'', AVS skMeta),
     (''gsi1pk'', AVS gsi1Org), (''gsi1sk'', AVS (orgOrgID org)), (''org'', AVOrg org)]"

definition unmarshalErr :: go_error where "unmarshalErr = Err ''unmarshal failed''"

definition zeroTemplate :: AgentTemplate where
  "zeroTemplate = \<lparr>tplAgentType = [], tplVersion = [], tplStatus = [],
     tplMeta = \<lparr>metaDisplayName = [], metaDescription = []\<rparr>,
     tplRuntime = \<lparr>rtImage = [], rtResources = \<lparr>resCPULimit = [], resMemoryLimit = []\<rparr>, rtEnvDefaults = [],
       rtLifecycle = [], rtSupportsChat = False\<rparr>,
     tplAuthZ = \<lparr>azSpiceDBRelations = []\<rparr>,
     tplDelegation = \<lparr>delAllowedChildTypes = [], delGrantableScopes = None, delMaxDepth = 0, delChildPolicies = []\<rparr>,
     tplRequiresTenant = False, tplOrgID = [], tplOAuthScopes = []\<rparr>"

definition zeroOrg :: Organization where
  "zeroOrg = \<lparr>orgOrgID = [], orgName = [], orgRemovalDisposition = [], orgDisabled = False,
     orgAnchor = None, orgSubstrate = None, orgCreatedAt = 0\<rparr>"

definition unmarshalTemplate :: "item \<Rightarrow> AgentTemplate result" where
  "unmarshalTemplate it = (case gget it ''tpl'' of
     None \<Rightarrow> Inr zeroTemplate | Some (AVTpl t) \<Rightarrow> Inr t | Some _ \<Rightarrow> Inl unmarshalErr)"

definition unmarshalAgent :: "item \<Rightarrow> AgentRecord result" where
  "unmarshalAgent it = (case gget it ''agent'' of
     None \<Rightarrow> Inr zeroAgent | Some (AVAgent r) \<Rightarrow> Inr r | Some _ \<Rightarrow> Inl unmarshalErr)"

definition unmarshalEvent :: "item \<Rightarrow> Event result" where
  "unmarshalEvent it = (case gget it ''event'' of
     None \<Rightarrow> Inr (newEvent (SourceOther []) [] (RawPayload [])) | Some (AVEvent e) \<Rightarrow> Inr e | Some _ \<Rightarrow> Inl unmarshalErr)"

definition unmarshalOrg :: "item \<Rightarrow> Organization result" where
  "unmarshalOrg it = (case gget it ''org'' of
     None \<Rightarrow> Inr zeroOrg | Some (AVOrg org) \<Rightarrow> Inr org | Some _ \<Rightarrow> Inl unmarshalErr)"

definition unmarshalConsent :: "item \<Rightarrow> ConsentRecord result" where
  "unmarshalConsent it =
     (if list_all (fieldOk isStrAV it) [''id'', ''userId'', ''parentType'', ''childType''] \<and>
         fieldOk isStrsAV it ''scopes'' \<and> list_all (fieldOk isTimeAV it) [''grantedAt'', ''expiresAt''] \<and>
         fieldOk isBoolAV it ''revoked''
      then Inr \<lparr>conID = strOf ''id'' it, conUserID = strOf ''userId'' it, conParentType = strOf ''parentType'' it,
        conChildType = strOf ''childType'' it, conScopes = strsOf ''scopes'' it, conGrantedAt = timeOf ''grantedAt'' it,
        conExpiresAt = timePtrOf ''expiresAt'' it, conRevoked = boolOf ''revoked'' it\<rparr>
      else Inl unmarshalErr)"

text \<open>The three statuses are the only ones the store writes.\<close>

definition parseStatus :: "string \<Rightarrow> ConsentRequestStatus option" where
  "parseStatus st = (if st = ''pending'' then Some ConsentPending else if st = ''approved'' then Some ConsentApproved
     else if st = ''denied'' then Some ConsentDenied else None)"

definition unmarshalRequest :: "item \<Rightarrow> ConsentRequest result" where
  "unmarshalRequest it =
     (if list_all (fieldOk isStrAV it)
           [''id'', ''userId'', ''parentType'', ''childType'', ''agentId'', ''bindingMessage'', ''status'', ''externalRef''] \<and>
         fieldOk isStrsAV it ''scopes'' \<and> list_all (fieldOk isTimeAV it) [''createdAt'', ''resolvedAt'']
      then case parseStatus (strOf ''status'' it) of
          None \<Rightarrow> Inl unmarshalErr
        | Some st \<Rightarrow>
            Inr \<lparr>crID = strOf ''id'' it, crUserID = strOf ''userId'' it, crParentType = strOf ''parentType'' it,
              crChildType = strOf ''childType'' it, crAgentID = strOf ''agentId'' it, crScopes = strsOf ''scopes'' it,
              crBindingMessage = strOf ''bindingMessage'' it, crStatus = st, crCreatedAt = timeOf ''createdAt'' it,
              crResolvedAt = timePtrOf ''resolvedAt'' it, crExternalRef = strOf ''externalRef'' it\<rparr>
      else Inl unmarshalErr)"

fun strsAV :: "string slice \<Rightarrow> AttributeValue" where
  "strsAV None = AVNull"
| "strsAV (Some ss) = AVStrs ss"

definition omitEmpty :: "string \<Rightarrow> string \<Rightarrow> item" where
  "omitEmpty n s = (if s = [] then [] else [(n, AVS s)])"

definition creqItem :: "ConsentRequest \<Rightarrow> item" where
  "creqItem cr =
     [(''pk'', AVS (creqPK (crID cr))), (''sk'', AVS skMeta), (''gsi1pk'', AVS gsi1Creq),
      (''gsi1sk'', AVS (crUserID cr @ ''#'' @ formatRFC3339Nano (crCreatedAt cr) @ ''#'' @ crID cr)),
      (''gsi2pk'', AVS (''EDGE#'' @ ConsentEdgeKey (crUserID cr) (crParentType cr) (crChildType cr))),
      (''id'', AVS (crID cr)), (''userId'', AVS (crUserID cr)), (''parentType'', AVS (crParentType cr)),
      (''childType'', AVS (crChildType cr))] @ omitEmpty ''agentId'' (crAgentID cr) @
     [(''scopes'', strsAV (crScopes cr))] @ omitEmpty ''bindingMessage'' (crBindingMessage cr) @
     [(''status'', AVS (statusString (crStatus cr))), (''createdAt'', AVTime (crCreatedAt cr))] @
     (case crResolvedAt cr of None \<Rightarrow> [] | Some t \<Rightarrow> [(''resolvedAt'', AVTime t)]) @
     omitEmpty ''externalRef'' (crExternalRef cr)"

text \<open>The loop that unmarshals the items of a query into a list, keeping what \<open>keep\<close> accepts.\<close>

fun decodeAll :: "(item \<Rightarrow> 'a result) \<Rightarrow> ('a \<Rightarrow> bool) \<Rightarrow> item list \<Rightarrow> 'a list result" where
  "decodeAll dec keep [] = Inr []"
| "decodeAll dec keep (m # ms) =
     (case dec m of
        Inl e \<Rightarrow> Inl e
      | Inr x \<Rightarrow> (case decodeAll dec keep ms of
                    Inl e \<Rightarrow> Inl e
                  | Inr xs \<Rightarrow> Inr (if keep x then x # xs else xs)))"

definition queryDecode :: "QueryInput \<Rightarrow> (item \<Rightarrow> 'a result) \<Rightarrow> ('a \<Rightarrow> bool) \<Rightarrow> ('a list result) prog" where
  "queryDecode q dec keep = bindP (queryAll q) (\<lambda>r. case r of
       Inl err \<Rightarrow> Ret (Inl (awsErr err))
     | Inr items \<Rightarrow> Ret (decodeAll dec keep items))"

text \<open>A point read: the decoded item, or \<^term>\<open>None\<close> when there is none.\<close>

definition getDecode :: "bool \<Rightarrow> dkey \<Rightarrow> (item \<Rightarrow> 'a result) \<Rightarrow> ('a option result) prog" where
  "getDecode consistent k dec = GetItem consistent k (\<lambda>r. case r of
       Inl err \<Rightarrow> Ret (Inl (awsErr err))
     | Inr None \<Rightarrow> Ret (Inr None)
     | Inr (Some it) \<Rightarrow> (case dec it of Inl e \<Rightarrow> Ret (Inl e) | Inr x \<Rightarrow> Ret (Inr (Some x))))"

definition putPlain :: "item \<Rightarrow> (go_error option) prog" where
  "putPlain it = PutItem it (\<lambda>err. Ret (map_option awsErr err))"

text \<open>Delete an item and report whether there was one, from the returned \<open>ALL_OLD\<close> attributes.\<close>

definition deleteFound :: "dkey \<Rightarrow> (bool result) prog" where
  "deleteFound k = DeleteItem k CTrue (\<lambda>r. case r of
       Inl err \<Rightarrow> Ret (Inl (awsErr err))
     | Inr old \<Rightarrow> Ret (Inr (old \<noteq> None)))"

section \<open>Templates\<close>

definition PutTemplate_ddb :: "AgentTemplate \<Rightarrow> (go_error option) prog" where
  "PutTemplate_ddb t = putPlain (templateItem t)"

definition GetTemplate_ddb :: "string \<Rightarrow> (AgentTemplate option result) prog" where
  "GetTemplate_ddb agentType = getDecode False (tplPK agentType, skMeta) unmarshalTemplate"

definition listTemplateItems :: "(AgentTemplate list result) prog" where
  "listTemplateItems =
     queryDecode \<lparr>qIndex = GSI1, qPK = gsi1Template, qPrefix = None\<rparr> unmarshalTemplate (\<lambda>t. True)"

definition ListTemplateTypes_ddb :: "(string list result) prog" where
  "ListTemplateTypes_ddb = bindP listTemplateItems (\<lambda>r. case r of
       Inl e \<Rightarrow> Ret (Inl e)
     | Inr tpls \<Rightarrow> Ret (Inr (map tplAgentType (filter (\<lambda>t. tplStatus t \<noteq> TemplateStatusDisabled) tpls))))"

definition ListTemplates_ddb :: "bool \<Rightarrow> (AgentTemplate list result) prog" where
  "ListTemplates_ddb includeDisabled = bindP listTemplateItems (\<lambda>r. case r of
       Inl e \<Rightarrow> Ret (Inl e)
     | Inr tpls \<Rightarrow>
         Ret (Inr (filter (\<lambda>t. \<not> (\<not> includeDisabled \<and> tplStatus t = TemplateStatusDisabled)) tpls)))"

definition UpdateTemplateStatus_ddb :: "string \<Rightarrow> string \<Rightarrow> (AgentTemplate option result) prog" where
  "UpdateTemplateStatus_ddb agentType status =
     UpdateItem (tplPK agentType, skMeta) (CExists ''pk'') [SetPath ''tpl'' ''status'' (AVS status)] (\<lambda>r. case r of
         Inl err \<Rightarrow> if isCondFailed err then Ret (Inr None) else Ret (Inl (awsErr err))
       | Inr it \<Rightarrow> (case unmarshalTemplate it of Inl e \<Rightarrow> Ret (Inl e) | Inr t \<Rightarrow> Ret (Inr (Some t))))"

definition DeleteTemplate_ddb :: "string \<Rightarrow> (bool result) prog" where
  "DeleteTemplate_ddb agentType = deleteFound (tplPK agentType, skMeta)"

section \<open>Agents\<close>

definition RegisterAgent_ddb :: "AgentRecord \<Rightarrow> (go_error option) prog" where
  "RegisterAgent_ddb r = putPlain (agentItem r)"

definition GetAgent_ddb :: "string \<Rightarrow> (AgentRecord result) prog" where
  "GetAgent_ddb oid = bindP (getDecode False (agPK oid, skMeta) unmarshalAgent) (\<lambda>r. case r of
       Inl e \<Rightarrow> Ret (Inl e)
     | Inr None \<Rightarrow> Ret (Inr zeroAgent)
     | Inr (Some a) \<Rightarrow> Ret (Inr a))"

definition ListAgents_ddb :: "(AgentRecord list result) prog" where
  "ListAgents_ddb =
     queryDecode \<lparr>qIndex = GSI1, qPK = gsi1Agent, qPrefix = None\<rparr> unmarshalAgent (\<lambda>a. \<not> agDismissed a)"

definition condSet :: "string \<Rightarrow> action list \<Rightarrow> (bool result) prog" where
  "condSet oid expr = UpdateItem (agPK oid, skMeta) (CExists ''pk'') expr (\<lambda>r. case r of
       Inl err \<Rightarrow> if isCondFailed err then Ret (Inr False) else Ret (Inl (awsErr err))
     | Inr _ \<Rightarrow> Ret (Inr True))"

definition DismissAgent_ddb :: "string \<Rightarrow> (bool result) prog" where
  "DismissAgent_ddb oid = condSet oid [SetPath ''agent'' ''dismissed'' (AVBool True)]"

definition UpdateAgentStatus_ddb :: "string \<Rightarrow> string \<Rightarrow> (bool result) prog" where
  "UpdateAgentStatus_ddb oid status = condSet oid [SetPath ''agent'' ''status'' (AVS status)]"

definition ListChildren_ddb :: "string \<Rightarrow> (AgentRecord list result) prog" where
  "ListChildren_ddb parentID =
     queryDecode \<lparr>qIndex = GSI2, qPK = ''PARENT#'' @ parentID, qPrefix = None\<rparr> unmarshalAgent (\<lambda>a. True)"

section \<open>Organizations\<close>

definition PutOrg_ddb :: "Organization \<Rightarrow> (go_error option) prog" where
  "PutOrg_ddb org = putPlain (orgItem org)"

definition GetOrg_ddb :: "string \<Rightarrow> (Organization option result) prog" where
  "GetOrg_ddb oid = getDecode True (orgPK oid, skMeta) unmarshalOrg"

definition ListOrgs_ddb :: "(Organization list result) prog" where
  "ListOrgs_ddb = queryDecode \<lparr>qIndex = GSI1, qPK = gsi1Org, qPrefix = None\<rparr> unmarshalOrg (\<lambda>x. True)"

definition DeleteOrg_ddb :: "string \<Rightarrow> (bool result) prog" where
  "DeleteOrg_ddb oid = deleteFound (orgPK oid, skMeta)"

section \<open>Events\<close>

definition AppendEvent_ddb :: "string \<Rightarrow> Event \<Rightarrow> (Event result) prog" where
  "AppendEvent_ddb agentID e = TimeNow (\<lambda>now. RandHex 4 (\<lambda>suffix.
     let e' = e\<lparr>evID := eventID now suffix, evTimestamp := now\<rparr>;
         sk = ''EV#'' @ pad20 (show_int now) @ ''#'' @ suffix
     in PutItem (eventItem agentID sk e') (\<lambda>err. case err of
            Some x \<Rightarrow> Ret (Inl (awsErr x))
          | None \<Rightarrow> Ret (Inr e'))))"

definition GetEvents_ddb :: "string \<Rightarrow> (Event list result) prog" where
  "GetEvents_ddb agentID =
     queryDecode \<lparr>qIndex = BaseTable, qPK = agPK agentID, qPrefix = Some ''EV#''\<rparr> unmarshalEvent (\<lambda>e. True)"

section \<open>Consents\<close>

definition expiryAction :: "time option \<Rightarrow> action" where
  "expiryAction ea = (case ea of Some t \<Rightarrow> SetAttr ''expiresAt'' (AVTime t) | None \<Rightarrow> RemoveAttr ''expiresAt'')"

definition upsertActions :: "string \<Rightarrow> ConsentRecord \<Rightarrow> action list" where
  "upsertActions cand rec =
     [SetIfNotExists ''id'' (AVS cand), SetIfNotExists ''gsi2pk'' (AVS (''CONID#'' @ cand)),
      SetAttr ''gsi1pk'' (AVS gsi1Consent), SetAttr ''gsi1sk'' (AVS (recKey rec)),
      SetAttr ''userId'' (AVS (conUserID rec)), SetAttr ''parentType'' (AVS (conParentType rec)),
      SetAttr ''childType'' (AVS (conChildType rec)), SetAttr ''scopes'' (AVStrs (elems (conScopes rec))),
      SetAttr ''grantedAt'' (AVTime (conGrantedAt rec)), SetAttr ''revoked'' (AVBool False),
      expiryAction (conExpiresAt rec)]"

definition consentUpsertUpdate :: "ConsentRecord \<Rightarrow> (string \<times> action list) prog" where
  "consentUpsertUpdate rec = bindP (genID ''consent'') (\<lambda>cand. Ret (recKey rec, upsertActions cand rec))"

definition UpsertConsent_ddb :: "ConsentRecord \<Rightarrow> (ConsentRecord result) prog" where
  "UpsertConsent_ddb rec = bindP (consentUpsertUpdate rec) (\<lambda>(edge, expr).
     UpdateItem (conPK edge, skMeta) CTrue expr (\<lambda>r. case r of
         Inl err \<Rightarrow> Ret (Inl (awsErr err))
       | Inr it \<Rightarrow> Ret (unmarshalConsent it)))"

definition FindConsent_ddb :: "string \<Rightarrow> string \<Rightarrow> string \<Rightarrow> (ConsentRecord option result) prog" where
  "FindConsent_ddb userID parentType childType =
     getDecode True (conPK (ConsentEdgeKey userID parentType childType), skMeta) unmarshalConsent"

definition ListConsents_ddb :: "string \<Rightarrow> (ConsentRecord list result) prog" where
  "ListConsents_ddb userID =
     queryDecode \<lparr>qIndex = GSI1, qPK = gsi1Consent,
       qPrefix = (if userID \<noteq> [] then Some (userID @ ''|'') else None)\<rparr> unmarshalConsent (\<lambda>x. True)"

text \<open>The lookup by id, repeated while the index answers nothing; the argument is the attempts left.\<close>

primrec findConsentRows :: "string \<Rightarrow> nat \<Rightarrow> (item list awsres) prog" where
  "findConsentRows oid 0 = Ret (Inr [])"
| "findConsentRows oid (Suc n) =
     bindP (queryAll \<lparr>qIndex = GSI2, qPK = ''CONID#'' @ oid, qPrefix = None\<rparr>) (\<lambda>r. case r of
         Inl err \<Rightarrow> Ret (Inl err)
       | Inr items \<Rightarrow>
           if items \<noteq> [] then Ret (Inr items)
           else if n > 0 then Sleep 100 (findConsentRows oid n) else findConsentRows oid n)"

definition RevokeConsent_ddb :: "string \<Rightarrow> string \<Rightarrow> (bool result) prog" where
  "RevokeConsent_ddb oid userID = bindP (findConsentRows oid 4) (\<lambda>r. case r of
       Inl err \<Rightarrow> Ret (Inl (awsErr err))
     | Inr [] \<Rightarrow> Ret (Inr False)
     | Inr (it # _) \<Rightarrow>
         (case unmarshalConsent it of
            Inl e \<Rightarrow> Ret (Inl e)
          | Inr row \<Rightarrow>
              if userID \<noteq> [] \<and> conUserID row \<noteq> userID then Ret (Inr False)
              else UpdateItem (itemKey it) CTrue [SetAttr ''revoked'' (AVBool True)] (\<lambda>u. case u of
                  Inl err \<Rightarrow> Ret (Inl (awsErr err))
                | Inr _ \<Rightarrow> Ret (Inr True))))"

text \<open>The policy part of \<open>ConsentExpiry\<close>, on the template of the parent.\<close>

definition templateExpiry :: "AgentTemplate \<Rightarrow> string \<Rightarrow> time \<Rightarrow> time option" where
  "templateExpiry tpl childType from =
     (case gget (delChildPolicies (tplDelegation tpl)) childType of
        None \<Rightarrow> None
      | Some cp \<Rightarrow>
          if cspConsentTTL cp = [] then None
          else case ParseDuration (cspConsentTTL cp) of None \<Rightarrow> None | Some d \<Rightarrow> Some (from + d))"

definition ConsentExpiry_ddb :: "string \<Rightarrow> string \<Rightarrow> time \<Rightarrow> (time option result) prog" where
  "ConsentExpiry_ddb parentType childType from = bindP (GetTemplate_ddb parentType) (\<lambda>r. case r of
       Inl e \<Rightarrow> Ret (Inl e)
     | Inr None \<Rightarrow> Ret (Inr None)
     | Inr (Some tpl) \<Rightarrow> Ret (Inr (templateExpiry tpl childType from)))"

section \<open>Consent requests\<close>

definition getConsentRequest_ddb :: "string \<Rightarrow> bool \<Rightarrow> (ConsentRequest option result) prog" where
  "getConsentRequest_ddb oid consistent = getDecode consistent (creqPK oid, skMeta) unmarshalRequest"

definition GetConsentRequest_ddb :: "string \<Rightarrow> (ConsentRequest option result) prog" where
  "GetConsentRequest_ddb oid = getConsentRequest_ddb oid False"

text \<open>\<open>readOpenRequest\<close>: the request a marker points at, with the id the marker holds.\<close>

definition readOpenRequest :: "string \<Rightarrow> ((ConsentRequest option \<times> string) result) prog" where
  "readOpenRequest key = GetItem True (openPK key, skMeta) (\<lambda>r. case r of
       Inl err \<Rightarrow> Ret (Inl (awsErr err))
     | Inr None \<Rightarrow> Ret (Inr (None, []))
     | Inr (Some mk) \<Rightarrow>
         if \<not> fieldOk isStrAV mk ''requestId'' then Ret (Inl unmarshalErr)
         else bindP (getConsentRequest_ddb (strOf ''requestId'' mk) True) (\<lambda>c. case c of
             Inl e \<Rightarrow> Ret (Inl e)
           | Inr cr \<Rightarrow> Ret (Inr (cr, strOf ''requestId'' mk))))"

definition deleteOpenMarkerIf :: "string \<Rightarrow> string \<Rightarrow> (go_error option) prog" where
  "deleteOpenMarkerIf key expectID =
     DeleteItem (openPK key, skMeta) (CEq ''requestId'' (AVS expectID)) (\<lambda>r. case r of
         Inl err \<Rightarrow> if isCondFailed err then Ret None else Ret (Some (awsErr err))
       | Inr _ \<Rightarrow> Ret None)"

definition freeOpenMarker :: "string \<Rightarrow> string \<Rightarrow> unit prog" where
  "freeOpenMarker key expectID = bindP (deleteOpenMarkerIf key expectID) (\<lambda>e. Ret ())"

definition openItem :: "string \<Rightarrow> string \<Rightarrow> item" where
  "openItem key rid = [(''pk'', AVS (openPK key)), (''sk'', AVS skMeta), (''requestId'', AVS rid)]"

text \<open>
  One attempt of \<open>CreateConsentRequest\<close>. When the slot is taken: a pending request is the answer,
  a stale marker is removed if it still holds the same id, and \<open>again\<close> is the next attempt.
\<close>

definition clearStale ::
  "string \<Rightarrow> string \<Rightarrow> ((ConsentRequest \<times> bool) result) prog \<Rightarrow> ((ConsentRequest \<times> bool) result) prog" where
  "clearStale key markerReqID again =
     bindP (deleteOpenMarkerIf key markerReqID) (\<lambda>e. case e of Some x \<Rightarrow> Ret (Inl x) | None \<Rightarrow> again)"

definition slotTaken ::
  "string \<Rightarrow> ((ConsentRequest \<times> bool) result) prog \<Rightarrow> ((ConsentRequest \<times> bool) result) prog" where
  "slotTaken key again = bindP (readOpenRequest key) (\<lambda>r. case r of
       Inl e \<Rightarrow> Ret (Inl e)
     | Inr (Some existing, markerReqID) \<Rightarrow>
         if crStatus existing = ConsentPending then Ret (Inr (existing, False)) else clearStale key markerReqID again
     | Inr (None, markerReqID) \<Rightarrow> clearStale key markerReqID again)"

definition createOutcome ::
  "string \<Rightarrow> ConsentRequest \<Rightarrow> nat \<Rightarrow> ((ConsentRequest \<times> bool) result) prog \<Rightarrow> aws_error option \<Rightarrow>
     ((ConsentRequest \<times> bool) result) prog" where
  "createOutcome key fresh backoff again err = (case err of
       None \<Rightarrow> Ret (Inr (fresh, True))
     | Some x \<Rightarrow>
         if isTxnCondFailed x then slotTaken key again
         else if isTxnConflict x then Sleep backoff again
         else Ret (Inl (awsErr x)))"

definition freshRequest :: "string \<Rightarrow> time \<Rightarrow> ConsentRequest \<Rightarrow> ConsentRequest" where
  "freshRequest oid created req =
     req\<lparr>crScopes := nonNil (crScopes req), crID := oid, crStatus := ConsentPending, crCreatedAt := created\<rparr>"

definition createWrites :: "string \<Rightarrow> ConsentRequest \<Rightarrow> TransactWriteItem list" where
  "createWrites key fresh = [TPut (openItem key (crID fresh)) (CNotExists ''pk''), TPut (creqItem fresh) CTrue]"

primrec createLoop :: "string \<Rightarrow> ConsentRequest \<Rightarrow> nat \<Rightarrow> ((ConsentRequest \<times> bool) result) prog" where
  "createLoop key req 0 = Ret (Inl (Err ''create consent request: persistent contention''))"
| "createLoop key req (Suc n) = bindP (genID ''creq'') (\<lambda>oid. TimeNow (\<lambda>created.
     TransactWriteItems (createWrites key (freshRequest oid created req))
       (createOutcome key (freshRequest oid created req) ((txnConflictBudget - n) * 20) (createLoop key req n))))"

definition CreateConsentRequest_ddb :: "ConsentRequest \<Rightarrow> ((ConsentRequest \<times> bool) result) prog" where
  "CreateConsentRequest_ddb req = createLoop (reqOpenKey req) req txnConflictBudget"

definition CreateApprovedConsentRequest_ddb :: "ConsentRequest \<Rightarrow> (ConsentRequest result) prog" where
  "CreateApprovedConsentRequest_ddb req = TimeNow (\<lambda>now. bindP (genID ''creq'') (\<lambda>oid.
     let req' = req\<lparr>crScopes := nonNil (crScopes req), crID := oid, crStatus := ConsentApproved,
                   crCreatedAt := now, crResolvedAt := Some now\<rparr>
     in PutItem (creqItem req') (\<lambda>err. case err of
            Some x \<Rightarrow> Ret (Inl (awsErr x))
          | None \<Rightarrow> Ret (Inr req'))))"

definition ListConsentRequests_ddb :: "string \<Rightarrow> string \<Rightarrow> (ConsentRequest list result) prog" where
  "ListConsentRequests_ddb userID status =
     queryDecode \<lparr>qIndex = GSI1, qPK = gsi1Creq, qPrefix = (if userID \<noteq> [] then Some (userID @ ''#'') else None)\<rparr>
       unmarshalRequest (\<lambda>cr. \<not> (status \<noteq> [] \<and> statusString (crStatus cr) \<noteq> status))"

definition requestsByEdge :: "string \<Rightarrow> (ConsentRequest list result) prog" where
  "requestsByEdge edge =
     queryDecode \<lparr>qIndex = GSI2, qPK = ''EDGE#'' @ edge, qPrefix = None\<rparr> unmarshalRequest (\<lambda>cr. True)"

definition resolveRecover :: "string \<Rightarrow> (ConsentRequest option result) prog" where
  "resolveRecover oid = bindP (getConsentRequest_ddb oid True) (\<lambda>r. case r of
       Inl e \<Rightarrow> Ret (Inl e)
     | Inr None \<Rightarrow> Ret (Inr None)
     | Inr (Some cur) \<Rightarrow> if crStatus cur \<noteq> ConsentPending then Ret (Inr (Some cur)) else Ret (Inr None))"

text \<open>The pivot: \<open>SET status, resolvedAt\<close> on a request that is still pending.\<close>

definition pivotActions :: "ConsentRequestStatus \<Rightarrow> time \<Rightarrow> action list" where
  "pivotActions st now = [SetAttr ''status'' (AVS (statusString st)), SetAttr ''resolvedAt'' (AVTime now)]"

definition stillPending :: condition where
  "stillPending = CEq ''status'' (AVS (statusString ConsentPending))"

definition pivotCond :: "string \<Rightarrow> condition" where
  "pivotCond userID = (if userID \<noteq> [] then CAnd stillPending (CEq ''userId'' (AVS userID)) else stillPending)"

definition sweepFlip :: "time \<Rightarrow> ConsentRequest \<Rightarrow> unit prog" where
  "sweepFlip now other =
     UpdateItem (creqPK (crID other), skMeta) stillPending (pivotActions ConsentApproved now) (\<lambda>r. case r of
         Inl err \<Rightarrow> Ret ()
       | Inr _ \<Rightarrow> freeOpenMarker (reqOpenKey other) (crID other))"

primrec sweepLoop :: "string \<Rightarrow> ConsentRecord \<Rightarrow> time \<Rightarrow> ConsentRequest list \<Rightarrow> unit prog" where
  "sweepLoop resolvedID granted now [] = Ret ()"
| "sweepLoop resolvedID granted now (other # others) =
     (if crID other = resolvedID \<or> crStatus other \<noteq> ConsentPending then sweepLoop resolvedID granted now others
      else if \<not> cdGranted (EvaluateConsent granted (crScopes other) now) then sweepLoop resolvedID granted now others
      else bindP (sweepFlip now other) (\<lambda>_. sweepLoop resolvedID granted now others))"

definition sweep :: "string \<Rightarrow> ConsentRecord \<Rightarrow> time \<Rightarrow> unit prog" where
  "sweep resolvedID granted now = bindP (requestsByEdge (recKey granted)) (\<lambda>r. case r of
       Inl e \<Rightarrow> Ret ()
     | Inr others \<Rightarrow> sweepLoop resolvedID granted now others)"

definition denyPivot :: "string \<Rightarrow> string \<Rightarrow> time \<Rightarrow> ConsentRequest \<Rightarrow> (ConsentRequest option result) prog" where
  "denyPivot oid userID now cr =
     UpdateItem (creqPK oid, skMeta) (pivotCond userID) (pivotActions ConsentDenied now) (\<lambda>r. case r of
         Inl err \<Rightarrow> if isCondFailed err then resolveRecover oid else Ret (Inl (awsErr err))
       | Inr _ \<Rightarrow> bindP (freeOpenMarker (reqOpenKey cr) oid) (\<lambda>_.
           Ret (Inr (Some (cr\<lparr>crStatus := ConsentDenied, crResolvedAt := Some now\<rparr>)))))"

definition grantOf :: "ConsentRequest \<Rightarrow> string slice \<Rightarrow> time \<Rightarrow> time option \<Rightarrow> ConsentRecord" where
  "grantOf cr scopes now expiry =
     \<lparr>conID = [], conUserID = crUserID cr, conParentType = crParentType cr, conChildType = crChildType cr,
      conScopes = scopes, conGrantedAt = now, conExpiresAt = expiry, conRevoked = False\<rparr>"

definition approvePivot ::
  "string \<Rightarrow> string \<Rightarrow> time \<Rightarrow> ConsentRequest \<Rightarrow> ConsentRecord \<Rightarrow> (ConsentRequest option result) prog" where
  "approvePivot oid userID now cr grantRec = bindP (consentUpsertUpdate grantRec) (\<lambda>(gEdge, gExpr).
     bindP (retryOnTxnConflict (TransactWriteItems
         [TUpdate (creqPK oid, skMeta) (pivotCond userID) (pivotActions ConsentApproved now),
          TUpdate (conPK gEdge, skMeta) CTrue gExpr] Ret)) (\<lambda>err. case err of
         Some x \<Rightarrow> if isTxnCondFailed x \<or> isCondFailed x then resolveRecover oid else Ret (Inl (awsErr x))
       | None \<Rightarrow> bindP (freeOpenMarker (reqOpenKey cr) oid) (\<lambda>_.
           bindP (sweep oid grantRec now) (\<lambda>_.
             Ret (Inr (Some (cr\<lparr>crStatus := ConsentApproved, crResolvedAt := Some now\<rparr>)))))))"

definition ResolveConsentRequest_ddb ::
  "string \<Rightarrow> string \<Rightarrow> bool \<Rightarrow> string slice \<Rightarrow> (ConsentRequest option result) prog" where
  "ResolveConsentRequest_ddb oid userID approve scopes = bindP (GetConsentRequest_ddb oid) (\<lambda>r. case r of
       Inl e \<Rightarrow> Ret (Inl e)
     | Inr None \<Rightarrow> Ret (Inr None)
     | Inr (Some cr) \<Rightarrow>
         if userID \<noteq> [] \<and> crUserID cr \<noteq> userID then Ret (Inr None)
         else TimeNow (\<lambda>now.
           if \<not> approve then denyPivot oid userID now cr
           else bindP (ConsentExpiry_ddb (crParentType cr) (crChildType cr) now) (\<lambda>x. case x of
               Inl e \<Rightarrow> Ret (Inl e)
             | Inr expiry \<Rightarrow>
                 approvePivot oid userID now cr
                   (grantOf cr (if scopes = None then crScopes cr else scopes) now expiry))))"

definition ApprovePendingConsentRequest_ddb :: "string \<Rightarrow> (ConsentRequest option result) prog" where
  "ApprovePendingConsentRequest_ddb oid = bindP (GetConsentRequest_ddb oid) (\<lambda>r. case r of
       Inl e \<Rightarrow> Ret (Inl e)
     | Inr None \<Rightarrow> Ret (Inr None)
     | Inr (Some cr) \<Rightarrow>
         if crStatus cr \<noteq> ConsentPending then Ret (Inr (Some cr))
         else TimeNow (\<lambda>now.
           UpdateItem (creqPK oid, skMeta) stillPending (pivotActions ConsentApproved now) (\<lambda>u. case u of
               Inl err \<Rightarrow> if isCondFailed err then resolveRecover oid else Ret (Inl (awsErr err))
             | Inr _ \<Rightarrow> bindP (freeOpenMarker (reqOpenKey cr) oid) (\<lambda>_.
                 Ret (Inr (Some (cr\<lparr>crStatus := ConsentApproved, crResolvedAt := Some now\<rparr>)))))))"

section \<open>The store\<close>

text \<open>
  The state of the process: the schema configuration it keeps in memory and its client's state. A
  read of the contract does not change the state, so it runs the program and keeps the answer.
\<close>

record 'd dynamo =
  dySchema :: SchemaState
  dyClient :: 'd

definition rd :: "'d DynamoClient \<Rightarrow> 'a prog \<Rightarrow> 'd dynamo \<Rightarrow> 'a" where
  "rd C p s = fst (run C p (dyClient s))"

definition wr :: "'d DynamoClient \<Rightarrow> 'a prog \<Rightarrow> 'd dynamo \<Rightarrow> 'a \<times> 'd dynamo" where
  "wr C p s = (case run C p (dyClient s) of (a, d) \<Rightarrow> (a, s\<lparr>dyClient := d\<rparr>))"

definition dynamoStore :: "'d DynamoClient \<Rightarrow> 'd dynamo Store" where
  "dynamoStore C =
     \<lparr>PutTemplate = (\<lambda>t. wr C (PutTemplate_ddb t)),
      GetTemplate = (\<lambda>ty. rd C (GetTemplate_ddb ty)),
      ListTemplateTypes = rd C ListTemplateTypes_ddb,
      ListTemplates = (\<lambda>inc. rd C (ListTemplates_ddb inc)),
      UpdateTemplateStatus = (\<lambda>ty st. wr C (UpdateTemplateStatus_ddb ty st)),
      DeleteTemplate = (\<lambda>ty. wr C (DeleteTemplate_ddb ty)),
      ValidateTpl = (\<lambda>t s. ValidateTemplate (dySchema s) t),
      SchemaOf = (\<lambda>s. schemaInfo (dySchema s)),
      RegisterAgent = (\<lambda>r. wr C (RegisterAgent_ddb r)),
      GetAgent = (\<lambda>oid. rd C (GetAgent_ddb oid)),
      ListAgents = rd C ListAgents_ddb,
      DismissAgent = (\<lambda>oid. wr C (DismissAgent_ddb oid)),
      UpdateAgentStatus = (\<lambda>oid st. wr C (UpdateAgentStatus_ddb oid st)),
      ListChildren = (\<lambda>p. rd C (ListChildren_ddb p)),
      PutOrg = (\<lambda>o'. wr C (PutOrg_ddb o')),
      GetOrg = (\<lambda>oid. rd C (GetOrg_ddb oid)),
      ListOrgs = rd C ListOrgs_ddb,
      DeleteOrg = (\<lambda>oid. wr C (DeleteOrg_ddb oid)),
      AppendEvent = (\<lambda>oid e. wr C (AppendEvent_ddb oid e)),
      GetEvents = (\<lambda>oid. rd C (GetEvents_ddb oid)),
      UpsertConsent = (\<lambda>rec. wr C (UpsertConsent_ddb rec)),
      FindConsent = (\<lambda>u p c. rd C (FindConsent_ddb u p c)),
      ListConsents = (\<lambda>u. rd C (ListConsents_ddb u)),
      RevokeConsent = (\<lambda>oid u. wr C (RevokeConsent_ddb oid u)),
      ConsentExpiry = (\<lambda>p c t. rd C (ConsentExpiry_ddb p c t)),
      CreateConsentRequest = (\<lambda>r. wr C (CreateConsentRequest_ddb r)),
      CreateApprovedConsentRequest = (\<lambda>r. wr C (CreateApprovedConsentRequest_ddb r)),
      GetConsentRequest = (\<lambda>oid. rd C (GetConsentRequest_ddb oid)),
      ListConsentRequests = (\<lambda>u st. rd C (ListConsentRequests_ddb u st)),
      ResolveConsentRequest = (\<lambda>oid u ap sc. wr C (ResolveConsentRequest_ddb oid u ap sc)),
      ApprovePendingConsentRequest = (\<lambda>oid. wr C (ApprovePendingConsentRequest_ddb oid))\<rparr>"

end
