(* ===== verification/DynamoTable.thy ===== *)
theory DynamoTable
  imports DynamoStore
begin

text \<open>
  What the table of the durable store holds, and what its items mean. Every item of a well-formed
  table represents one entity of the registry; the marshalled form of an entity decodes to it
  again. The views of a table are the maps of the \<open>Store\<close> contract: templates, agents,
  organizations, grants by edge, requests by id, open markers by key.

  \<open>dynamo_service\<close> is an idealised table at rest, without faults, stale reads or other writers; \<open>tableClient\<close>
  is a table with these semantics.
\<close>

named_theorems ddb_keys \<open>the key builders\<close>

declare skMeta_def [ddb_keys] tplPK_def [ddb_keys] agPK_def [ddb_keys] conPK_def [ddb_keys]
  creqPK_def [ddb_keys] openPK_def [ddb_keys] orgPK_def [ddb_keys] gsi1Template_def [ddb_keys]
  gsi1Agent_def [ddb_keys] gsi1Consent_def [ddb_keys] gsi1Creq_def [ddb_keys] gsi1Org_def [ddb_keys]

section \<open>Entities and their items\<close>

datatype entity =
    ETpl AgentTemplate
  | EAgent AgentRecord
  | EEvent string string Event
  | EOrg Organization
  | EConsent ConsentRecord
  | ERequest ConsentRequest
  | EOpen string string

definition consentItem :: "ConsentRecord \<Rightarrow> item" where
  "consentItem rec =
     [(''pk'', AVS (conPK (recKey rec))), (''sk'', AVS skMeta), (''id'', AVS (conID rec)),
      (''gsi2pk'', AVS (''CONID#'' @ conID rec)), (''gsi1pk'', AVS gsi1Consent), (''gsi1sk'', AVS (recKey rec)),
      (''userId'', AVS (conUserID rec)), (''parentType'', AVS (conParentType rec)), (''childType'', AVS (conChildType rec)),
      (''scopes'', strsAV (conScopes rec)), (''grantedAt'', AVTime (conGrantedAt rec)), (''revoked'', AVBool (conRevoked rec))] @
     (case conExpiresAt rec of None \<Rightarrow> [] | Some t \<Rightarrow> [(''expiresAt'', AVTime t)])"

fun entItem :: "entity \<Rightarrow> item" where
  "entItem (ETpl t) = templateItem t"
| "entItem (EAgent r) = agentItem r"
| "entItem (EEvent a x e) = eventItem a (''EV#'' @ x) e"
| "entItem (EOrg org) = orgItem org"
| "entItem (EConsent rec) = consentItem rec"
| "entItem (ERequest cr) = creqItem cr"
| "entItem (EOpen key rid) = openItem key rid"

fun entKey :: "entity \<Rightarrow> dkey" where
  "entKey (ETpl t) = (tplPK (tplAgentType t), skMeta)"
| "entKey (EAgent r) = (agPK (agAgentID r), skMeta)"
| "entKey (EEvent a x e) = (agPK a, ''EV#'' @ x)"
| "entKey (EOrg org) = (orgPK (orgOrgID org), skMeta)"
| "entKey (EConsent rec) = (conPK (recKey rec), skMeta)"
| "entKey (ERequest cr) = (creqPK (crID cr), skMeta)"
| "entKey (EOpen key rid) = (openPK key, skMeta)"

text \<open>An item represents an entity when it has exactly the attributes of its marshalled form.\<close>

definition represents :: "item \<Rightarrow> entity \<Rightarrow> bool" where
  "represents it e = (gget it = gget (entItem e))"

definition wfTable :: "table \<Rightarrow> bool" where
  "wfTable T = (finite (dom T) \<and> (\<forall>k it. T k = Some it \<longrightarrow> (\<exists>e. entKey e = k \<and> represents it e)))"

lemma entKey_inject_kind [simp]:
  "entKey e = (tplPK ty, skMeta) \<longleftrightarrow> (\<exists>t. e = ETpl t \<and> tplAgentType t = ty)"
  "entKey e = (agPK i, skMeta) \<longleftrightarrow> (\<exists>r. e = EAgent r \<and> agAgentID r = i)"
  "entKey e = (orgPK i, skMeta) \<longleftrightarrow> (\<exists>org. e = EOrg org \<and> orgOrgID org = i)"
  "entKey e = (conPK edge, skMeta) \<longleftrightarrow> (\<exists>rec. e = EConsent rec \<and> recKey rec = edge)"
  "entKey e = (creqPK i, skMeta) \<longleftrightarrow> (\<exists>cr. e = ERequest cr \<and> crID cr = i)"
  "entKey e = (openPK key, skMeta) \<longleftrightarrow> (\<exists>rid. e = EOpen key rid)"
  by (cases e; simp add: ddb_keys; fail)+

section \<open>Round trips\<close>

lemma gget_omitEmpty: "gget (omitEmpty n s @ rest) m = (if m = n \<and> s \<noteq> [] then Some (AVS s) else gget rest m)"
  by (simp add: omitEmpty_def)

lemma gget_strsAV [simp]:
  "(case strsAV sc of AVStrs ss \<Rightarrow> Some ss | _ \<Rightarrow> None) = sc" "isStrsAV (strsAV sc)"
  by (cases sc; simp)+

lemma parseStatus_statusString [simp]: "parseStatus (statusString st) = Some st"
  by (cases st) (simp_all add: parseStatus_def)

lemma gget_creqItem:
  "gget (creqItem cr) n =
     (if n = ''pk'' then Some (AVS (creqPK (crID cr))) else if n = ''sk'' then Some (AVS skMeta)
      else if n = ''gsi1pk'' then Some (AVS gsi1Creq)
      else if n = ''gsi1sk'' then Some (AVS (crUserID cr @ ''#'' @ formatRFC3339Nano (crCreatedAt cr) @ ''#'' @ crID cr))
      else if n = ''gsi2pk'' then Some (AVS (''EDGE#'' @ reqEdge cr))
      else if n = ''id'' then Some (AVS (crID cr)) else if n = ''userId'' then Some (AVS (crUserID cr))
      else if n = ''parentType'' then Some (AVS (crParentType cr)) else if n = ''childType'' then Some (AVS (crChildType cr))
      else if n = ''agentId'' then (if crAgentID cr = [] then None else Some (AVS (crAgentID cr)))
      else if n = ''scopes'' then Some (strsAV (crScopes cr))
      else if n = ''bindingMessage'' then (if crBindingMessage cr = [] then None else Some (AVS (crBindingMessage cr)))
      else if n = ''status'' then Some (AVS (statusString (crStatus cr)))
      else if n = ''createdAt'' then Some (AVTime (crCreatedAt cr))
      else if n = ''resolvedAt'' then map_option AVTime (crResolvedAt cr)
      else if n = ''externalRef'' then (if crExternalRef cr = [] then None else Some (AVS (crExternalRef cr)))
      else None)"
  by (simp add: creqItem_def omitEmpty_def reqEdge_def split: option.split)

lemma gget_consentItem:
  "gget (consentItem rec) n =
     (if n = ''pk'' then Some (AVS (conPK (recKey rec))) else if n = ''sk'' then Some (AVS skMeta)
      else if n = ''id'' then Some (AVS (conID rec)) else if n = ''gsi2pk'' then Some (AVS (''CONID#'' @ conID rec))
      else if n = ''gsi1pk'' then Some (AVS gsi1Consent) else if n = ''gsi1sk'' then Some (AVS (recKey rec))
      else if n = ''userId'' then Some (AVS (conUserID rec)) else if n = ''parentType'' then Some (AVS (conParentType rec))
      else if n = ''childType'' then Some (AVS (conChildType rec)) else if n = ''scopes'' then Some (strsAV (conScopes rec))
      else if n = ''grantedAt'' then Some (AVTime (conGrantedAt rec)) else if n = ''revoked'' then Some (AVBool (conRevoked rec))
      else if n = ''expiresAt'' then map_option AVTime (conExpiresAt rec)
      else None)"
  by (simp add: consentItem_def split: option.split)

lemma unmarshal_creqItem: "unmarshalRequest (creqItem cr) = Inr cr"
  by (cases "crResolvedAt cr") (simp_all add: unmarshalRequest_def attr_defs gget_creqItem)

lemma unmarshal_consentItem: "unmarshalConsent (consentItem rec) = Inr rec"
  by (cases "conExpiresAt rec") (simp_all add: unmarshalConsent_def attr_defs gget_consentItem)

lemma unmarshal_items:
  "unmarshalTemplate (templateItem t) = Inr t" "unmarshalAgent (agentItem r) = Inr r"
  "unmarshalEvent (eventItem a sk e) = Inr e" "unmarshalOrg (orgItem org) = Inr org"
  by (simp_all add: unmarshalTemplate_def templateItem_def unmarshalAgent_def agentItem_def unmarshalEvent_def
      eventItem_def unmarshalOrg_def orgItem_def)

text \<open>Decoding reads the attributes only.\<close>

lemma attr_cong:
  assumes "gget it = gget it'"
  shows "strOf n it = strOf n it'" "boolOf n it = boolOf n it'" "strsOf n it = strsOf n it'"
    "timeOf n it = timeOf n it'" "timePtrOf n it = timePtrOf n it'" "fieldOk kind it n = fieldOk kind it' n"
  using assms by (simp_all add: attr_defs)

lemma unmarshal_cong:
  assumes "gget it = gget it'"
  shows "unmarshalTemplate it = unmarshalTemplate it'" "unmarshalAgent it = unmarshalAgent it'"
    "unmarshalEvent it = unmarshalEvent it'" "unmarshalOrg it = unmarshalOrg it'"
    "unmarshalConsent it = unmarshalConsent it'" "unmarshalRequest it = unmarshalRequest it'"
    "matchesQuery q it = matchesQuery q it'" "itemKey it = itemKey it'"
  using assms attr_cong [OF assms]
  by (simp_all add: unmarshalTemplate_def unmarshalAgent_def unmarshalEvent_def unmarshalOrg_def unmarshalConsent_def
      unmarshalRequest_def itemKey_def split: option.split)
     (cases "qPrefix q"; simp add: matchesQuery_def)

lemma decode_item:
  "gget it = gget (templateItem t) \<Longrightarrow> unmarshalTemplate it = Inr t"
  "gget it = gget (agentItem r) \<Longrightarrow> unmarshalAgent it = Inr r"
  "gget it = gget (eventItem a sk e) \<Longrightarrow> unmarshalEvent it = Inr e"
  "gget it = gget (orgItem org) \<Longrightarrow> unmarshalOrg it = Inr org"
  "gget it = gget (consentItem rec) \<Longrightarrow> unmarshalConsent it = Inr rec"
  "gget it = gget (creqItem cr) \<Longrightarrow> unmarshalRequest it = Inr cr"
  using unmarshal_cong(1) unmarshal_cong(2) unmarshal_cong(3) unmarshal_cong(4) unmarshal_cong(5) unmarshal_cong(6)
    unmarshal_items unmarshal_consentItem unmarshal_creqItem by metis+

lemma decode_open: "gget it = gget (openItem key rid) \<Longrightarrow> strOf ''requestId'' it = rid"
  by (simp add: strOf_def openItem_def)

section \<open>Views\<close>

definition viewAt :: "(item \<Rightarrow> 'a result) \<Rightarrow> (string \<Rightarrow> string) \<Rightarrow> table \<Rightarrow> string \<Rightarrow> 'a option" where
  "viewAt dec pk T x =
     (case T (pk x, skMeta) of
        None \<Rightarrow> None
      | Some it \<Rightarrow> (case dec it of Inl _ \<Rightarrow> None | Inr a \<Rightarrow> Some a))"

definition tplView :: "table \<Rightarrow> string \<rightharpoonup> AgentTemplate" where "tplView = viewAt unmarshalTemplate tplPK"
definition agentView :: "table \<Rightarrow> string \<rightharpoonup> AgentRecord" where "agentView = viewAt unmarshalAgent agPK"
definition orgView :: "table \<Rightarrow> string \<rightharpoonup> Organization" where "orgView = viewAt unmarshalOrg orgPK"
definition consentView :: "table \<Rightarrow> string \<rightharpoonup> ConsentRecord" where "consentView = viewAt unmarshalConsent conPK"
definition requestView :: "table \<Rightarrow> string \<rightharpoonup> ConsentRequest" where "requestView = viewAt unmarshalRequest creqPK"

definition openView :: "table \<Rightarrow> string \<rightharpoonup> string" where
  "openView T key = map_option (strOf ''requestId'') (T (openPK key, skMeta))"

lemmas view_defs = tplView_def agentView_def orgView_def consentView_def requestView_def

text \<open>In a well-formed table the item under a key of a kind is the item of a value of that kind.\<close>

lemma wfTable_item:
  assumes "wfTable T"
  shows "T (tplPK ty, skMeta) = Some it \<Longrightarrow> \<exists>t. tplAgentType t = ty \<and> gget it = gget (templateItem t)"
    and "T (agPK i, skMeta) = Some it \<Longrightarrow> \<exists>r. agAgentID r = i \<and> gget it = gget (agentItem r)"
    and "T (orgPK i, skMeta) = Some it \<Longrightarrow> \<exists>org. orgOrgID org = i \<and> gget it = gget (orgItem org)"
    and "T (conPK edge, skMeta) = Some it \<Longrightarrow> \<exists>rec. recKey rec = edge \<and> gget it = gget (consentItem rec)"
    and "T (creqPK i, skMeta) = Some it \<Longrightarrow> \<exists>cr. crID cr = i \<and> gget it = gget (creqItem cr)"
    and "T (openPK key, skMeta) = Some it \<Longrightarrow> \<exists>rid. gget it = gget (openItem key rid)"
  using assms unfolding wfTable_def represents_def by fastforce+

lemma viewAt_iff:
  assumes "\<And>it. T (pk x, skMeta) = Some it \<Longrightarrow> \<exists>a. key a = x \<and> gget it = gget (mk a)"
    and "\<And>it a. gget it = gget (mk a) \<Longrightarrow> dec it = Inr a"
  shows "viewAt dec pk T x = Some a \<longleftrightarrow> key a = x \<and> (\<exists>it. T (pk x, skMeta) = Some it \<and> gget it = gget (mk a))"
proof (cases "T (pk x, skMeta)")
  case (Some it)
  then obtain b where b: "key b = x" "gget it = gget (mk b)" using assms(1) by blast
  then have "dec it = Inr b" using assms(2) by blast
  moreover have "gget it = gget (mk a) \<longleftrightarrow> a = b" using assms(2) b(2) by (metis sum.inject(2))
  ultimately show ?thesis using Some b by (auto simp: viewAt_def)
qed (simp add: viewAt_def)

text \<open>So the views are exactly the entities: a value is in the view when an item under its key represents it.\<close>

lemma view_iff:
  assumes "wfTable T"
  shows "tplView T ty = Some t \<longleftrightarrow> tplAgentType t = ty \<and> (\<exists>it. T (tplPK ty, skMeta) = Some it \<and> gget it = gget (templateItem t))"
    and "agentView T i = Some r \<longleftrightarrow> agAgentID r = i \<and> (\<exists>it. T (agPK i, skMeta) = Some it \<and> gget it = gget (agentItem r))"
    and "orgView T i = Some org \<longleftrightarrow> orgOrgID org = i \<and> (\<exists>it. T (orgPK i, skMeta) = Some it \<and> gget it = gget (orgItem org))"
    and "consentView T edge = Some rec \<longleftrightarrow> recKey rec = edge \<and> (\<exists>it. T (conPK edge, skMeta) = Some it \<and> gget it = gget (consentItem rec))"
    and "requestView T i = Some cr \<longleftrightarrow> crID cr = i \<and> (\<exists>it. T (creqPK i, skMeta) = Some it \<and> gget it = gget (creqItem cr))"
    and "openView T key = Some rid \<longleftrightarrow> (\<exists>it. T (openPK key, skMeta) = Some it \<and> gget it = gget (openItem key rid))"
proof -
  note item = wfTable_item [OF assms]
  show "tplView T ty = Some t \<longleftrightarrow> tplAgentType t = ty \<and> (\<exists>it. T (tplPK ty, skMeta) = Some it \<and> gget it = gget (templateItem t))"
    unfolding tplView_def by (rule viewAt_iff [OF item(1) decode_item(1)])
  show "agentView T i = Some r \<longleftrightarrow> agAgentID r = i \<and> (\<exists>it. T (agPK i, skMeta) = Some it \<and> gget it = gget (agentItem r))"
    unfolding agentView_def by (rule viewAt_iff [OF item(2) decode_item(2)])
  show "orgView T i = Some org \<longleftrightarrow> orgOrgID org = i \<and> (\<exists>it. T (orgPK i, skMeta) = Some it \<and> gget it = gget (orgItem org))"
    unfolding orgView_def by (rule viewAt_iff [OF item(3) decode_item(4)])
  show "consentView T edge = Some rec \<longleftrightarrow> recKey rec = edge \<and> (\<exists>it. T (conPK edge, skMeta) = Some it \<and> gget it = gget (consentItem rec))"
    unfolding consentView_def by (rule viewAt_iff [OF item(4) decode_item(5)])
  show "requestView T i = Some cr \<longleftrightarrow> crID cr = i \<and> (\<exists>it. T (creqPK i, skMeta) = Some it \<and> gget it = gget (creqItem cr))"
    unfolding requestView_def by (rule viewAt_iff [OF item(5) decode_item(6)])
  show "openView T key = Some rid \<longleftrightarrow> (\<exists>it. T (openPK key, skMeta) = Some it \<and> gget it = gget (openItem key rid))"
    using item(6) decode_open by (fastforce simp: openView_def)
qed

text \<open>An entity is stored when the item under its key represents it.\<close>

definition stored :: "table \<Rightarrow> entity \<Rightarrow> bool" where
  "stored T e = (\<exists>it. T (entKey e) = Some it \<and> represents it e)"

lemma stored_view:
  assumes "wfTable T"
  shows "stored T (ETpl t) \<longleftrightarrow> tplView T (tplAgentType t) = Some t" "stored T (EAgent r) \<longleftrightarrow> agentView T (agAgentID r) = Some r"
    "stored T (EOrg org) \<longleftrightarrow> orgView T (orgOrgID org) = Some org" "stored T (EConsent rec) \<longleftrightarrow> consentView T (recKey rec) = Some rec"
    "stored T (ERequest cr) \<longleftrightarrow> requestView T (crID cr) = Some cr"
  by (simp_all add: stored_def represents_def view_iff [OF assms])

section \<open>Writes and the views\<close>

lemma itemKey_entItem: "itemKey (entItem e) = entKey e"
  by (cases e) (simp_all add: itemKey_def strOf_def templateItem_def agentItem_def eventItem_def orgItem_def
      gget_consentItem gget_creqItem openItem_def)

lemma represents_key: "represents it e \<Longrightarrow> itemKey it = entKey e"
  using unmarshal_cong(8) itemKey_entItem unfolding represents_def by metis

lemma represents_self [simp]: "represents (entItem e) e"
  by (simp add: represents_def)

lemma wfTable_put: "wfTable T \<Longrightarrow> represents it e \<Longrightarrow> entKey e = k \<Longrightarrow> wfTable (T(k \<mapsto> it))"
  by (auto simp: wfTable_def)

lemma wfTable_del: "wfTable T \<Longrightarrow> wfTable (T(k := None))"
  by (auto simp: wfTable_def dom_def elim: finite_subset [rotated])

lemma key_simps [simp]:
  "tplPK a = tplPK b \<longleftrightarrow> a = b" "agPK a = agPK b \<longleftrightarrow> a = b" "orgPK a = orgPK b \<longleftrightarrow> a = b"
  "conPK a = conPK b \<longleftrightarrow> a = b" "creqPK a = creqPK b \<longleftrightarrow> a = b" "openPK a = openPK b \<longleftrightarrow> a = b"
  "tplPK a \<noteq> agPK b" "tplPK a \<noteq> orgPK b" "tplPK a \<noteq> conPK b" "tplPK a \<noteq> creqPK b" "tplPK a \<noteq> openPK b"
  "agPK a \<noteq> tplPK b" "agPK a \<noteq> orgPK b" "agPK a \<noteq> conPK b" "agPK a \<noteq> creqPK b" "agPK a \<noteq> openPK b"
  "orgPK a \<noteq> agPK b" "orgPK a \<noteq> tplPK b" "orgPK a \<noteq> conPK b" "orgPK a \<noteq> creqPK b" "orgPK a \<noteq> openPK b"
  "conPK a \<noteq> agPK b" "conPK a \<noteq> orgPK b" "conPK a \<noteq> tplPK b" "conPK a \<noteq> creqPK b" "conPK a \<noteq> openPK b"
  "creqPK a \<noteq> agPK b" "creqPK a \<noteq> orgPK b" "creqPK a \<noteq> conPK b" "creqPK a \<noteq> tplPK b" "creqPK a \<noteq> openPK b"
  "openPK a \<noteq> agPK b" "openPK a \<noteq> orgPK b" "openPK a \<noteq> conPK b" "openPK a \<noteq> creqPK b" "openPK a \<noteq> tplPK b"
  "skMeta \<noteq> CHR ''E'' # x" "CHR ''E'' # x \<noteq> skMeta"
  by (simp_all add: ddb_keys)

text \<open>A write to one item changes one entry of one view.\<close>

lemma view_upd:
  "tplView (T(k := io)) ty = (if k = (tplPK ty, skMeta) then viewAt unmarshalTemplate tplPK (\<lambda>_. io) ty else tplView T ty)"
  "agentView (T(k := io)) i = (if k = (agPK i, skMeta) then viewAt unmarshalAgent agPK (\<lambda>_. io) i else agentView T i)"
  "orgView (T(k := io)) i = (if k = (orgPK i, skMeta) then viewAt unmarshalOrg orgPK (\<lambda>_. io) i else orgView T i)"
  "consentView (T(k := io)) edge = (if k = (conPK edge, skMeta) then viewAt unmarshalConsent conPK (\<lambda>_. io) edge else consentView T edge)"
  "requestView (T(k := io)) i = (if k = (creqPK i, skMeta) then viewAt unmarshalRequest creqPK (\<lambda>_. io) i else requestView T i)"
  "openView (T(k := io)) key = (if k = (openPK key, skMeta) then map_option (strOf ''requestId'') io else openView T key)"
  by (auto simp: view_defs viewAt_def openView_def)

lemma view_put:
  assumes "represents it e"
  shows "tplView (T(entKey e \<mapsto> it)) = (case e of ETpl t \<Rightarrow> (tplView T)(tplAgentType t \<mapsto> t) | _ \<Rightarrow> tplView T)"
    and "agentView (T(entKey e \<mapsto> it)) = (case e of EAgent r \<Rightarrow> (agentView T)(agAgentID r \<mapsto> r) | _ \<Rightarrow> agentView T)"
    and "orgView (T(entKey e \<mapsto> it)) = (case e of EOrg org \<Rightarrow> (orgView T)(orgOrgID org \<mapsto> org) | _ \<Rightarrow> orgView T)"
    and "consentView (T(entKey e \<mapsto> it)) = (case e of EConsent rec \<Rightarrow> (consentView T)(recKey rec \<mapsto> rec) | _ \<Rightarrow> consentView T)"
    and "requestView (T(entKey e \<mapsto> it)) = (case e of ERequest cr \<Rightarrow> (requestView T)(crID cr \<mapsto> cr) | _ \<Rightarrow> requestView T)"
    and "openView (T(entKey e \<mapsto> it)) = (case e of EOpen key rid \<Rightarrow> (openView T)(key \<mapsto> rid) | _ \<Rightarrow> openView T)"
proof -
  have rep: "gget it = gget (entItem e)" using assms by (simp add: represents_def)
  show "tplView (T(entKey e \<mapsto> it)) = (case e of ETpl t \<Rightarrow> (tplView T)(tplAgentType t \<mapsto> t) | _ \<Rightarrow> tplView T)"
    using rep by (cases e) (auto intro!: ext simp: view_upd viewAt_def dest: decode_item(1))
  show "agentView (T(entKey e \<mapsto> it)) = (case e of EAgent r \<Rightarrow> (agentView T)(agAgentID r \<mapsto> r) | _ \<Rightarrow> agentView T)"
    using rep by (cases e) (auto intro!: ext simp: view_upd viewAt_def dest: decode_item(2))
  show "orgView (T(entKey e \<mapsto> it)) = (case e of EOrg org \<Rightarrow> (orgView T)(orgOrgID org \<mapsto> org) | _ \<Rightarrow> orgView T)"
    using rep by (cases e) (auto intro!: ext simp: view_upd viewAt_def dest: decode_item(4))
  show "consentView (T(entKey e \<mapsto> it)) = (case e of EConsent rec \<Rightarrow> (consentView T)(recKey rec \<mapsto> rec) | _ \<Rightarrow> consentView T)"
    using rep by (cases e) (auto intro!: ext simp: view_upd viewAt_def dest: decode_item(5))
  show "requestView (T(entKey e \<mapsto> it)) = (case e of ERequest cr \<Rightarrow> (requestView T)(crID cr \<mapsto> cr) | _ \<Rightarrow> requestView T)"
    using rep by (cases e) (auto intro!: ext simp: view_upd viewAt_def dest: decode_item(6))
  show "openView (T(entKey e \<mapsto> it)) = (case e of EOpen key rid \<Rightarrow> (openView T)(key \<mapsto> rid) | _ \<Rightarrow> openView T)"
    using rep by (cases e) (auto intro!: ext simp: view_upd dest: decode_open)
qed

lemma view_del:
  "tplView (T((tplPK x, skMeta) := None)) = (tplView T)(x := None)"
  "orgView (T((orgPK x, skMeta) := None)) = (orgView T)(x := None)"
  "openView (T((openPK x, skMeta) := None)) = (openView T)(x := None)"
  "requestView (T((openPK x, skMeta) := None)) = requestView T"
  "consentView (T((openPK x, skMeta) := None)) = consentView T"
  by (auto simp: fun_eq_iff view_upd viewAt_def)

section \<open>The service\<close>

text \<open>
  An idealised table: no call fails, reads see the last write, an index query sees every item the table holds, and no other process writes in between.
  A failed condition changes nothing, and a transaction whose conditions hold applies all its writes. DynamoDB promises less: index reads
  are always eventually consistent, so a query may miss an item just written. What is proved in this locale is the functional behaviour of the
  programs on a table that has come to rest; the theory \<open>DynamoReplicas\<close> drops these assumptions.
\<close>

locale dynamo_service =
  fixes C :: "'d DynamoClient" and tbl :: "'d \<Rightarrow> table"
  assumes get: "cGetItem C cr k d = Inr (tbl d k)"
    and put: "fst (cPutItem C it d) = None \<and> tbl (snd (cPutItem C it d)) = (tbl d)(itemKey it \<mapsto> it)"
    and update: "evalCond c (tbl d k) \<Longrightarrow> updateItem k u (tbl d k) = Some it \<Longrightarrow>
      fst (cUpdateItem C k c u d) = Inr it \<and> tbl (snd (cUpdateItem C k c u d)) = (tbl d)(k \<mapsto> it)"
    and update_failed: "\<not> evalCond c (tbl d k) \<Longrightarrow>
      fst (cUpdateItem C k c u d) = Inl ConditionalCheckFailedException \<and> tbl (snd (cUpdateItem C k c u d)) = tbl d"
    and delete: "evalCond c (tbl d k) \<Longrightarrow>
      fst (cDeleteItem C k c d) = Inr (tbl d k) \<and> tbl (snd (cDeleteItem C k c d)) = (tbl d)(k := None)"
    and delete_failed: "\<not> evalCond c (tbl d k) \<Longrightarrow>
      fst (cDeleteItem C k c d) = Inl ConditionalCheckFailedException \<and> tbl (snd (cDeleteItem C k c d)) = tbl d"
    and query: "\<exists>items. drainPages (cQuery C q d) = Inr items \<and>
      set items = {it. \<exists>k. tbl d k = Some it \<and> matchesQuery q it}"
    and transact: "txnHolds ws (tbl d) \<Longrightarrow> distinct (map twKey ws) \<Longrightarrow> \<forall>w \<in> set ws. twItem w (tbl d) \<noteq> None \<Longrightarrow>
      fst (cTransact C ws d) = None \<and> tbl (snd (cTransact C ws d)) = txnApply ws (tbl d)"
    and transact_failed: "\<not> txnHolds ws (tbl d) \<Longrightarrow>
      (\<exists>reasons. fst (cTransact C ws d) = Some (TransactionCanceledException reasons) \<and>
         Some ''ConditionalCheckFailed'' \<in> set reasons) \<and> tbl (snd (cTransact C ws d)) = tbl d"
    and now: "tbl (snd (cNow C d)) = tbl d"
    and rand: "tbl (snd (cRand C n d)) = tbl d"
    and sleep: "tbl (cSleep C n d) = tbl d"
begin

lemma run_getDecode:
  "run C (getDecode c k dec) d =
     ((case tbl d k of None \<Rightarrow> Inr None | Some it \<Rightarrow> (case dec it of Inl e \<Rightarrow> Inl e | Inr x \<Rightarrow> Inr (Some x))), d)"
  by (simp add: getDecode_def get split: option.split sum.split)

lemma run_view:
  assumes "\<And>it. tbl d (pk x, skMeta) = Some it \<Longrightarrow> \<exists>a. dec it = Inr a"
  shows "run C (getDecode c (pk x, skMeta) dec) d = (Inr (viewAt dec pk (tbl d) x), d)"
  using assms by (fastforce simp: run_getDecode viewAt_def split: option.split sum.split)

lemma run_queryDecode:
  assumes "\<And>it k. tbl d k = Some it \<Longrightarrow> matchesQuery q it \<Longrightarrow> \<exists>x. dec it = Inr x"
  shows "\<exists>xs. run C (queryDecode q dec keep) d = (Inr xs, d) \<and>
    set xs = {x. keep x \<and> (\<exists>k it. tbl d k = Some it \<and> matchesQuery q it \<and> dec it = Inr x)}"
proof -
  obtain items where items: "drainPages (cQuery C q d) = Inr items"
      "set items = {it. \<exists>k. tbl d k = Some it \<and> matchesQuery q it}" using query by blast
  have "\<exists>xs. decodeAll dec keep ms = Inr xs \<and> set xs = {x. keep x \<and> (\<exists>it \<in> set ms. dec it = Inr x)}"
    if "\<forall>it \<in> set ms. \<exists>x. dec it = Inr x" for ms
    using that
  proof (induction ms)
    case (Cons m ms)
    then obtain x xs where "dec m = Inr x" "decodeAll dec keep ms = Inr xs"
        "set xs = {x. keep x \<and> (\<exists>it \<in> set ms. dec it = Inr x)}" by auto
    then show ?case by (cases "keep x") auto
  qed simp
  moreover have "\<forall>it \<in> set items. \<exists>x. dec it = Inr x" using assms items(2) by blast
  ultimately obtain xs where "decodeAll dec keep items = Inr xs" "set xs = {x. keep x \<and> (\<exists>it \<in> set items. dec it = Inr x)}"
    by blast
  then show ?thesis using items by (auto simp: queryDecode_def queryAll_def run_bindP)
qed

text \<open>A query whose matches are entities of one kind answers the stored ones, each filter applied.\<close>

lemma run_entityQuery:
  assumes wf: "wfTable (tbl d)" and dec: "\<And>it a. represents it (mk a) \<Longrightarrow> dec it = Inr a"
    and q: "\<And>it e. represents it e \<Longrightarrow> matchesQuery q it \<longleftrightarrow> (\<exists>a. e = mk a \<and> P a)"
  shows "\<exists>xs. run C (queryDecode q dec keep) d = (Inr xs, d) \<and> (\<forall>a. a \<in> set xs \<longleftrightarrow> keep a \<and> P a \<and> stored (tbl d) (mk a))"
proof -
  have found: "\<exists>a. entKey (mk a) = k \<and> represents it (mk a) \<and> P a" if "tbl d k = Some it" "matchesQuery q it" for k it
    using wf q that unfolding wfTable_def by blast
  then have "\<exists>x. dec it = Inr x" if "tbl d k = Some it" "matchesQuery q it" for k it using dec that by blast
  then obtain xs where xs: "run C (queryDecode q dec keep) d = (Inr xs, d)"
      "set xs = {x. keep x \<and> (\<exists>k it. tbl d k = Some it \<and> matchesQuery q it \<and> dec it = Inr x)}"
    using run_queryDecode [of d q dec keep] by blast
  have "(\<exists>k it. tbl d k = Some it \<and> matchesQuery q it \<and> dec it = Inr a) \<longleftrightarrow> P a \<and> stored (tbl d) (mk a)" for a
  proof
    assume "\<exists>k it. tbl d k = Some it \<and> matchesQuery q it \<and> dec it = Inr a"
    then obtain k it where it: "tbl d k = Some it" "matchesQuery q it" "dec it = Inr a" by blast
    then obtain b where b: "entKey (mk b) = k" "represents it (mk b)" "P b" using found by blast
    then have "b = a" using dec [OF b(2)] it(3) by simp
    then show "P a \<and> stored (tbl d) (mk a)" using b it(1) by (auto simp: stored_def)
  next
    assume "P a \<and> stored (tbl d) (mk a)"
    then obtain it where it: "tbl d (entKey (mk a)) = Some it" "represents it (mk a)" "P a" by (auto simp: stored_def)
    then have "matchesQuery q it" using q [OF it(2)] by blast
    then show "\<exists>k it. tbl d k = Some it \<and> matchesQuery q it \<and> dec it = Inr a" using it dec by blast
  qed
  then show ?thesis using xs by blast
qed

lemma run_putPlain:
  "\<exists>d'. run C (putPlain it) d = (None, d') \<and> tbl d' = (tbl d)(itemKey it \<mapsto> it)"
  using put [of it d] by (cases "cPutItem C it d") (simp add: putPlain_def)

lemma run_deleteFound:
  "\<exists>d'. run C (deleteFound k) d = (Inr (tbl d k \<noteq> None), d') \<and> tbl d' = (tbl d)(k := None)"
  using delete [of CTrue d k] by (cases "cDeleteItem C k CTrue d") (simp add: deleteFound_def)

lemma run_genID: "\<exists>oid d'. run C (genID p) d = (oid, d') \<and> tbl d' = tbl d"
proof -
  obtain nano d1 where "cNow C d = (nano, d1)" "tbl d1 = tbl d" using now [of d] by (cases "cNow C d") auto
  moreover obtain r d2 where "cRand C 4 d1 = (r, d2)" "tbl d2 = tbl d1" using rand [of 4 d1] by (cases "cRand C 4 d1") auto
  ultimately show ?thesis by (simp add: genID_def)
qed

end

section \<open>A table with these semantics\<close>

text \<open>The clock and the random source are read in order; a query answers in the order of the sort key.\<close>

record tableState =
  tsItems :: "(dkey, item) gomap"
  tsClock :: "nat \<Rightarrow> time"
  tsRand :: "nat \<Rightarrow> string"
  tsTicks :: nat

fun bytesLe :: "string \<Rightarrow> string \<Rightarrow> bool" where
  "bytesLe [] t = True"
| "bytesLe (c # s) [] = False"
| "bytesLe (c # s) (d # t) = ((of_char c :: nat) < of_char d \<or> (c = d \<and> bytesLe s t))"

fun insertBySk :: "string \<Rightarrow> item \<Rightarrow> item list \<Rightarrow> item list" where
  "insertBySk a it [] = [it]"
| "insertBySk a it (x # xs) =
     (if bytesLe (strOf a it) (strOf a x) then it # x # xs else x # insertBySk a it xs)"

definition tcQuery :: "QueryInput \<Rightarrow> tableState \<Rightarrow> item list awsres list" where
  "tcQuery q d = [Inr (foldr (insertBySk (skAttr (qIndex q)))
     (map snd (filter (\<lambda>(k, it). gget (tsItems d) k = Some it \<and> matchesQuery q it) (tsItems d))) [])]"

definition tcUpdate ::
  "dkey \<Rightarrow> condition \<Rightarrow> action list \<Rightarrow> tableState \<Rightarrow> item awsres \<times> tableState" where
  "tcUpdate k c u d =
     (if \<not> evalCond c (gget (tsItems d) k) then (Inl ConditionalCheckFailedException, d)
      else case updateItem k u (gget (tsItems d) k) of
          None \<Rightarrow> (Inl (AwsError ''ValidationException''), d)
        | Some it \<Rightarrow> (Inr it, d\<lparr>tsItems := gput k it (tsItems d)\<rparr>))"

definition tcDelete :: "dkey \<Rightarrow> condition \<Rightarrow> tableState \<Rightarrow> item option awsres \<times> tableState" where
  "tcDelete k c d =
     (if \<not> evalCond c (gget (tsItems d) k) then (Inl ConditionalCheckFailedException, d)
      else (Inr (gget (tsItems d) k), d\<lparr>tsItems := gdel k (tsItems d)\<rparr>))"

definition tcReason :: "table \<Rightarrow> TransactWriteItem \<Rightarrow> string option" where
  "tcReason T w = (if evalCond (twCond w) (T (twKey w)) then Some ''None'' else Some ''ConditionalCheckFailed'')"

definition tcTransact :: "TransactWriteItem list \<Rightarrow> tableState \<Rightarrow> aws_error option \<times> tableState" where
  "tcTransact ws d =
     (let T = gget (tsItems d)
      in if \<not> list_all (\<lambda>w. evalCond (twCond w) (T (twKey w))) ws
         then (Some (TransactionCanceledException (map (tcReason T) ws)), d)
         else if list_ex (\<lambda>w. twItem w T = None) ws then (Some (AwsError ''ValidationException''), d)
         else (None, d\<lparr>tsItems := fold (\<lambda>w m. case twItem w T of None \<Rightarrow> m | Some it \<Rightarrow> gput (twKey w) it m) ws (tsItems d)\<rparr>))"

definition tableClient :: "tableState DynamoClient" where
  "tableClient =
     \<lparr>cGetItem = (\<lambda>cr k d. Inr (gget (tsItems d) k)),
      cPutItem = (\<lambda>it d. (None, d\<lparr>tsItems := gput (itemKey it) it (tsItems d)\<rparr>)),
      cUpdateItem = tcUpdate, cDeleteItem = tcDelete, cQuery = tcQuery, cTransact = tcTransact,
      cNow = (\<lambda>d. (tsClock d (tsTicks d), d\<lparr>tsTicks := Suc (tsTicks d)\<rparr>)),
      cRand = (\<lambda>n d. (tsRand d (tsTicks d), d)),
      cSleep = (\<lambda>n d. d)\<rparr>"

lemma set_insertBySk: "set (insertBySk a it xs) = insert it (set xs)"
  by (induction xs) auto

lemma set_foldr_insertBySk: "set (foldr (insertBySk a) xs []) = set xs"
  by (induction xs) (simp_all add: set_insertBySk)

lemma fold_txn:
  assumes "\<forall>w \<in> set ws. twItem w T \<noteq> None" and "gget m = T'"
  shows "gget (fold (\<lambda>w m. case twItem w T of None \<Rightarrow> m | Some it \<Rightarrow> gput (twKey w) it m) ws m) =
    fold (\<lambda>w T'. T'(twKey w := twItem w T)) ws T'"
  using assms
proof (induction ws arbitrary: m T')
  case (Cons w ws)
  then obtain it where it: "twItem w T = Some it" by auto
  have "gget (gput (twKey w) it m) = T'(twKey w \<mapsto> it)" using Cons.prems(2) by (simp add: fun_eq_iff gget_gput)
  then show ?case using Cons.IH Cons.prems(1) it by (simp add: fun_upd_def cong: if_cong)
qed simp

interpretation tab: dynamo_service tableClient "\<lambda>d. gget (tsItems d)"
proof
  fix q and d :: tableState
  show "\<exists>items. drainPages (cQuery tableClient q d) = Inr items \<and>
    set items = {it. \<exists>k. gget (tsItems d) k = Some it \<and> matchesQuery q it}"
    by (force simp: tableClient_def tcQuery_def set_foldr_insertBySk dest: gget_in_set)
next
  fix ws and d :: tableState
  assume "txnHolds ws (gget (tsItems d))" and items: "\<forall>w \<in> set ws. twItem w (gget (tsItems d)) \<noteq> None"
  then have holds: "list_all (\<lambda>w. evalCond (twCond w) (gget (tsItems d) (twKey w))) ws"
    "\<not> list_ex (\<lambda>w. twItem w (gget (tsItems d)) = None) ws"
    by (auto simp: txnHolds_def list_all_iff list_ex_iff)
  then show "fst (cTransact tableClient ws d) = None \<and>
    gget (tsItems (snd (cTransact tableClient ws d))) = txnApply ws (gget (tsItems d))"
    by (simp add: tableClient_def tcTransact_def txnApply_def fold_txn [OF items refl])
next
  fix ws and d :: tableState
  assume "\<not> txnHolds ws (gget (tsItems d))"
  then obtain w where w: "w \<in> set ws" "\<not> evalCond (twCond w) (gget (tsItems d) (twKey w))" by (auto simp: txnHolds_def)
  then have "\<not> list_all (\<lambda>w. evalCond (twCond w) (gget (tsItems d) (twKey w))) ws" by (auto simp: list_all_iff)
  moreover have "Some ''ConditionalCheckFailed'' \<in> set (map (tcReason (gget (tsItems d))) ws)"
    using w by (force simp: tcReason_def)
  ultimately show "(\<exists>reasons. fst (cTransact tableClient ws d) = Some (TransactionCanceledException reasons) \<and>
      Some ''ConditionalCheckFailed'' \<in> set reasons) \<and> gget (tsItems (snd (cTransact tableClient ws d))) = gget (tsItems d)"
    by (simp add: tableClient_def tcTransact_def)
qed (auto simp: tableClient_def tcUpdate_def tcDelete_def gget_gput gget_gdel fun_eq_iff)

end
