(* ===== verification/Broker.thy ===== *)
theory Broker
  imports Store
begin

text \<open>
  The consent broker: the lifecycle of consent requests and grants in the in-memory store as a
  state machine. A step is one critical section of the store, so every interleaving of concurrent
  requests is a sequence of steps; in particular the write section of \<open>resolveConsentRequest\<close>
  is a step of its own, with whatever values its caller derived earlier.
\<close>

section \<open>The step relation\<close>

text \<open>The fields of the store the broker reads and writes.\<close>

definition sameBroker :: "store \<Rightarrow> store \<Rightarrow> bool" where
  "sameBroker s t = (stConsents t = stConsents s \<and> stConsentRequests t = stConsentRequests s \<and>
     stOpenRequests t = stOpenRequests s \<and> stClock t = stClock s \<and> stTicks s \<le> stTicks t)"

inductive brokerStep :: "store \<Rightarrow> store \<Rightarrow> bool" where
  create: "crResolvedAt req = None \<Longrightarrow> brokerStep s (snd (createConsentRequest req s))"
| createApproved: "brokerStep s (snd (createApprovedConsentRequest req s))"
| approvePending: "brokerStep s (snd (approvePendingConsentRequest oid s))"
| resolve: "brokerStep s (snd (resolveLocked oid approve now scopes expiry s))"
| upsert: "brokerStep s (snd (upsertConsent rec s))"
| revoke: "brokerStep s (snd (revokeConsent oid userID s))"
| other: "sameBroker s t \<Longrightarrow> brokerStep s t"

inductive brokerReach :: "store \<Rightarrow> store \<Rightarrow> bool" for s0 where
  start: "brokerReach s0 s0"
| step: "brokerReach s0 s \<Longrightarrow> brokerStep s t \<Longrightarrow> brokerReach s0 t"

text \<open>
  The invariant: requests are stored under their own id, which was minted from a clock reading of
  the past; the open-request index and the pending requests agree; a request carries a resolution
  time exactly when it is resolved.
\<close>

definition mintedID :: "store \<Rightarrow> string \<Rightarrow> bool" where
  "mintedID s oid = (\<exists>i < stTicks s. oid = ''creq-'' @ show_int (stClock s i))"

definition brokerInv :: "store \<Rightarrow> bool" where
  "brokerInv s \<longleftrightarrow>
     gdistinct (stConsentRequests s) \<and> gdistinct (stOpenRequests s) \<and> gdistinct (stConsents s) \<and>
     (\<forall>oid cr. gget (stConsentRequests s) oid = Some cr \<longrightarrow> crID cr = oid \<and> mintedID s oid \<and>
        (crStatus cr = ConsentPending \<longleftrightarrow> crResolvedAt cr = None)) \<and>
     (\<forall>key oid. gget (stOpenRequests s) key = Some oid \<longleftrightarrow>
        (\<exists>cr. gget (stConsentRequests s) oid = Some cr \<and> crStatus cr = ConsentPending \<and> reqOpenKey cr = key))"

section \<open>Elementary effects\<close>

lemma timeNow_simps [simp]:
  "fst (timeNow s) = stClock s (stTicks s)"
  "snd (timeNow s) = s\<lparr>stTicks := Suc (stTicks s)\<rparr>"
  by (simp_all add: timeNow_def)

lemma reqOpenKey_update [simp]:
  "reqOpenKey (cr\<lparr>crStatus := st\<rparr>) = reqOpenKey cr"
  "reqOpenKey (cr\<lparr>crResolvedAt := ra\<rparr>) = reqOpenKey cr"
  "reqOpenKey (cr\<lparr>crID := i\<rparr>) = reqOpenKey cr"
  "reqOpenKey (cr\<lparr>crScopes := sc\<rparr>) = reqOpenKey cr"
  "reqOpenKey (cr\<lparr>crCreatedAt := t\<rparr>) = reqOpenKey cr"
  by (simp_all add: reqOpenKey_def)

lemma recKey_update [simp]:
  "recKey (rec\<lparr>conID := i\<rparr>) = recKey rec"
  "recKey (rec\<lparr>conRevoked := b\<rparr>) = recKey rec"
  by (simp_all add: recKey_def)

lemma settleRequest_simps [simp]:
  "stConsents (settleRequest oid cr st now s) = stConsents s"
  "stClock (settleRequest oid cr st now s) = stClock s"
  "stTicks (settleRequest oid cr st now s) = stTicks s"
  "stConsentRequests (settleRequest oid cr st now s) =
     gput oid (cr\<lparr>crStatus := st, crResolvedAt := Some now\<rparr>) (stConsentRequests s)"
  "stOpenRequests (settleRequest oid cr st now s) = gdel (reqOpenKey cr) (stOpenRequests s)"
  "stTemplates (settleRequest oid cr st now s) = stTemplates s"
  by (simp_all add: settleRequest_def)

lemma upsertConsentLocked_frame [simp]:
  "stConsentRequests (snd (upsertConsentLocked rec s)) = stConsentRequests s"
  "stOpenRequests (snd (upsertConsentLocked rec s)) = stOpenRequests s"
  "stClock (snd (upsertConsentLocked rec s)) = stClock s"
  "stTicks s \<le> stTicks (snd (upsertConsentLocked rec s))"
  by (simp_all add: upsertConsentLocked_def Let_def timeNow_def split: option.splits)

lemma upsertConsentLocked_consents:
  "stConsents (snd (upsertConsentLocked rec s)) =
     gput (recKey rec) (fst (upsertConsentLocked rec s)) (stConsents s)"
  by (simp add: upsertConsentLocked_def Let_def timeNow_def split: option.splits)

lemma upsertConsentLocked_fields:
  "fst (upsertConsentLocked rec s) = rec\<lparr>conID := conID (fst (upsertConsentLocked rec s))\<rparr>"
  by (cases rec) (simp add: upsertConsentLocked_def Let_def timeNow_def split: option.splits)

lemma sweepOne_cases:
  "sweepOne granted now oid key (rid, cr) s = s \<or>
   (rid \<noteq> oid \<and> crStatus cr = ConsentPending \<and> reqEdge cr = key \<and>
    cdGranted (EvaluateConsent granted (crScopes cr) now) \<and>
    sweepOne granted now oid key (rid, cr) s = settleRequest rid cr ConsentApproved now s)"
  by (simp add: sweepOne_def)

lemma sweep_frame [simp]:
  "stConsents (fold (sweepOne granted now oid key) ps s) = stConsents s"
  "stClock (fold (sweepOne granted now oid key) ps s) = stClock s"
  "stTicks (fold (sweepOne granted now oid key) ps s) = stTicks s"
  "stTemplates (fold (sweepOne granted now oid key) ps s) = stTemplates s"
  by (induction ps arbitrary: s) (auto simp: sweepOne_def split: prod.splits)

text \<open>The sweep settles exactly the pending requests of the edge that the grant covers.\<close>

definition swept :: "ConsentRecord \<Rightarrow> time \<Rightarrow> string \<Rightarrow> string \<Rightarrow> ConsentRequest \<Rightarrow> bool" where
  "swept granted now key rid cr = (crStatus cr = ConsentPending \<and> reqEdge cr = key \<and>
     cdGranted (EvaluateConsent granted (crScopes cr) now))"

lemma sweep_requests:
  assumes "gdistinct ps"
  shows "gget (stConsentRequests (fold (sweepOne granted now oid key) ps s)) rid =
           (case gget ps rid of
              Some cr \<Rightarrow> if rid \<noteq> oid \<and> swept granted now key rid cr
                then Some (cr\<lparr>crStatus := ConsentApproved, crResolvedAt := Some now\<rparr>)
                else gget (stConsentRequests s) rid
            | None \<Rightarrow> gget (stConsentRequests s) rid)"
  using assms
proof (induction ps arbitrary: s)
  case (Cons p ps)
  obtain r cr where p: "p = (r, cr)" by (cases p)
  let ?s = "sweepOne granted now oid key (r, cr) s"
  have IH: "gget (stConsentRequests (fold (sweepOne granted now oid key) ps ?s)) rid =
      (case gget ps rid of
         Some cr \<Rightarrow> if rid \<noteq> oid \<and> swept granted now key rid cr
           then Some (cr\<lparr>crStatus := ConsentApproved, crResolvedAt := Some now\<rparr>)
           else gget (stConsentRequests ?s) rid
       | None \<Rightarrow> gget (stConsentRequests ?s) rid)"
    using Cons by simp
  have own: "gget (stConsentRequests ?s) rid =
      (if rid = r \<and> r \<noteq> oid \<and> swept granted now key r cr
       then Some (cr\<lparr>crStatus := ConsentApproved, crResolvedAt := Some now\<rparr>)
       else gget (stConsentRequests s) rid)"
    by (simp add: sweepOne_def swept_def gget_gput)
  have "rid = r \<Longrightarrow> gget ps rid = None"
    using Cons.prems p by (simp add: map_of_eq_None_iff)
  with IH own show ?case by (auto simp: p split: option.splits)
qed simp

text \<open>The approve branch of the write section: the request is settled, then the grant is upserted.\<close>

definition approveGrant ::
  "string \<Rightarrow> ConsentRequest \<Rightarrow> time \<Rightarrow> string slice \<Rightarrow> time option \<Rightarrow> store \<Rightarrow> ConsentRecord \<times> store" where
  "approveGrant oid cr now scopes expiry s =
     upsertConsentLocked
       \<lparr>conID = [], conUserID = crUserID cr, conParentType = crParentType cr,
        conChildType = crChildType cr, conScopes = scopes, conGrantedAt = now,
        conExpiresAt = expiry, conRevoked = False\<rparr>
       (settleRequest oid cr ConsentApproved now s)"

lemma resolveLocked_approve:
  assumes "gget (stConsentRequests s) oid = Some cr" and "crStatus cr = ConsentPending"
  shows "resolveLocked oid True now scopes expiry s =
           (let (granted, s2) = approveGrant oid cr now scopes expiry s
            in (Some (cr\<lparr>crStatus := ConsentApproved, crResolvedAt := Some now\<rparr>),
                fold (sweepOne granted now oid (reqEdge cr)) (stConsentRequests s2) s2))"
  using assms by (simp add: resolveLocked_def approveGrant_def Let_def)

section \<open>The invariant is kept\<close>

lemma brokerInvD:
  assumes "brokerInv s"
  shows "gdistinct (stConsentRequests s)" "gdistinct (stOpenRequests s)" "gdistinct (stConsents s)"
    "gget (stConsentRequests s) oid = Some cr \<Longrightarrow> crID cr = oid"
    "gget (stConsentRequests s) oid = Some cr \<Longrightarrow> mintedID s oid"
    "gget (stOpenRequests s) key = Some oid \<longleftrightarrow>
        (\<exists>cr. gget (stConsentRequests s) oid = Some cr \<and> crStatus cr = ConsentPending \<and> reqOpenKey cr = key)"
  using assms unfolding brokerInv_def by blast+

text \<open>A pending request is the only one with its open key.\<close>

lemma pending_unique:
  assumes "brokerInv s"
    and "gget (stConsentRequests s) i = Some a" and "crStatus a = ConsentPending"
    and "gget (stConsentRequests s) j = Some b" and "crStatus b = ConsentPending"
    and "reqOpenKey a = reqOpenKey b"
  shows "i = j"
proof -
  have "gget (stOpenRequests s) (reqOpenKey a) = Some i"
    using assms(1-3) brokerInvD(6) by blast
  moreover have "gget (stOpenRequests s) (reqOpenKey a) = Some j"
    using assms(1,4,5,6) brokerInvD(6) by metis
  ultimately show ?thesis by simp
qed

lemma settle_brokerInv:
  assumes inv: "brokerInv s" and cr: "gget (stConsentRequests s) oid = Some cr"
    and pend: "crStatus cr = ConsentPending" and st: "st \<noteq> ConsentPending"
  shows "brokerInv (settleRequest oid cr st now s)"
proof -
  let ?t = "settleRequest oid cr st now s"
  have ids: "crID cr = oid" using inv cr brokerInvD(4) by blast
  have open_iff: "gget (stOpenRequests ?t) key = Some rid \<longleftrightarrow>
      (\<exists>c. gget (stConsentRequests ?t) rid = Some c \<and> crStatus c = ConsentPending \<and> reqOpenKey c = key)"
    for key rid
  proof (cases "key = reqOpenKey cr")
    case True
    have "\<not> (\<exists>c. gget (stConsentRequests ?t) rid = Some c \<and> crStatus c = ConsentPending \<and> reqOpenKey c = key)"
    proof
      assume "\<exists>c. gget (stConsentRequests ?t) rid = Some c \<and> crStatus c = ConsentPending \<and> reqOpenKey c = key"
      then obtain c where c: "gget (stConsentRequests ?t) rid = Some c" "crStatus c = ConsentPending"
        "reqOpenKey c = key" by blast
      then have "rid \<noteq> oid" using st by (auto simp: gget_gput)
      with c have "gget (stConsentRequests s) rid = Some c" by (simp add: gget_gput)
      then show False using pending_unique [OF inv cr pend] c True \<open>rid \<noteq> oid\<close> by metis
    qed
    then show ?thesis using True by (simp add: gget_gdel)
  next
    case False
    then show ?thesis
      using st cr by (auto simp: gget_gdel gget_gput brokerInvD(6) [OF inv])
  qed
  show ?thesis
    unfolding brokerInv_def
    using inv ids st cr open_iff
    by (auto simp: gget_gput mintedID_def wf_intros brokerInv_def distinct_update distinct_delete
        simp del: settleRequest_simps(5))
       (auto simp: distinct_delete)
qed

lemma sameBroker_brokerInv: "brokerInv s \<Longrightarrow> sameBroker s t \<Longrightarrow> brokerInv t"
  by (auto simp: brokerInv_def sameBroker_def mintedID_def) (meson order_less_le_trans)

lemma consents_brokerInv:
  "brokerInv s \<Longrightarrow> gdistinct cs \<Longrightarrow> brokerInv (s\<lparr>stConsents := cs\<rparr>)"
  by (simp add: brokerInv_def mintedID_def)

text \<open>A request stored under a freshly minted id.\<close>

lemma fresh_notin:
  assumes "brokerInv s" and "inj (stClock s)" and "stTicks s \<le> n"
  shows "gget (stConsentRequests s) (''creq-'' @ show_int (stClock s n)) = None"
proof (rule ccontr)
  assume "\<not> ?thesis"
  then have "mintedID s (''creq-'' @ show_int (stClock s n))"
    using assms(1) brokerInvD(5) by blast
  then obtain i where "i < stTicks s" "stClock s n = stClock s i"
    by (auto simp: mintedID_def)
  with assms(2,3) show False by (auto dest: injD)
qed

lemma sweep_brokerInv:
  assumes "brokerInv s" and "gdistinct ps"
    and "\<And>rid cr. (rid, cr) \<in> set ps \<Longrightarrow> gget (stConsentRequests s) rid = Some cr"
  shows "brokerInv (fold (sweepOne granted now oid key) ps s)"
  using assms
proof (induction ps arbitrary: s)
  case (Cons p ps)
  obtain r cr where p: "p = (r, cr)" by (cases p)
  let ?s = "sweepOne granted now oid key (r, cr) s"
  have "brokerInv ?s"
    using sweepOne_cases [of granted now oid key r cr s] Cons.prems(1) Cons.prems(3) [of r cr]
      settle_brokerInv p by auto
  moreover have "gget (stConsentRequests ?s) rid = Some c" if "(rid, c) \<in> set ps" for rid c
  proof -
    have "rid \<noteq> r" using that Cons.prems(2) p by force
    then show ?thesis using that Cons.prems(3) [of rid c] by (simp add: sweepOne_def gget_gput)
  qed
  ultimately show ?case using Cons.IH [of ?s] Cons.prems(2) p by simp
qed simp

lemma upsert_brokerInv: "brokerInv s \<Longrightarrow> brokerInv (snd (upsertConsentLocked rec s))"
proof -
  assume inv: "brokerInv s"
  let ?t = "snd (upsertConsentLocked rec s)"
  have "sameBroker s (?t\<lparr>stConsents := stConsents s\<rparr>)" by (simp add: sameBroker_def)
  with inv have "brokerInv (?t\<lparr>stConsents := stConsents s\<rparr>)" by (rule sameBroker_brokerInv)
  moreover have "gdistinct (stConsents ?t)"
    using inv by (simp add: upsertConsentLocked_consents distinct_update brokerInvD(3))
  ultimately have "brokerInv ((?t\<lparr>stConsents := stConsents s\<rparr>)\<lparr>stConsents := stConsents ?t\<rparr>)"
    by (rule consents_brokerInv)
  then show ?thesis by simp
qed

lemma revoke_brokerInv: "brokerInv s \<Longrightarrow> brokerInv (snd (revokeConsent oid u s))"
  by (auto simp: revokeConsent_def consents_brokerInv distinct_update brokerInvD(3)
      split: option.splits prod.splits)

lemma create_brokerInv:
  assumes inv: "brokerInv s" and inj: "inj (stClock s)" and ra: "crResolvedAt req = None"
  shows "brokerInv (snd (createConsentRequest req s))"
proof (cases "\<exists>oid cr. gget (stOpenRequests s) (reqOpenKey req) = Some oid")
  case True
  then obtain oid cr where "gget (stOpenRequests s) (reqOpenKey req) = Some oid"
    "gget (stConsentRequests s) oid = Some cr" "crStatus cr = ConsentPending"
    using brokerInvD(6) [OF inv] by blast
  then show ?thesis using inv by (simp add: createConsentRequest_def Let_def)
next
  case False
  define i where "i = ''creq-'' @ show_int (stClock s (stTicks s))"
  define r where "r = req\<lparr>crScopes := nonNil (crScopes req), crID := i, crStatus := ConsentPending,
      crCreatedAt := stClock s (Suc (stTicks s))\<rparr>"
  let ?t = "s\<lparr>stTicks := Suc (Suc (stTicks s)), stConsentRequests := gput i r (stConsentRequests s),
      stOpenRequests := gput (reqOpenKey req) i (stOpenRequests s)\<rparr>"
  have t: "snd (createConsentRequest req s) = ?t"
    using False by (simp add: createConsentRequest_def timeNow_def i_def r_def Let_def)
  have fresh: "gget (stConsentRequests s) i = None"
    using fresh_notin [OF inv inj, of "stTicks s"] by (simp add: i_def)
  have r: "crID r = i" "crStatus r = ConsentPending" "crResolvedAt r = None" "reqOpenKey r = reqOpenKey req"
    by (simp_all add: r_def ra)
  have minted: "mintedID ?t i" by (auto simp: mintedID_def i_def intro!: exI [of _ "stTicks s"])
  have minted': "mintedID s oid \<Longrightarrow> mintedID ?t oid" for oid by (auto simp: mintedID_def less_Suc_eq)
  have "gget (stOpenRequests ?t) key = Some oid \<longleftrightarrow>
      (\<exists>cr. gget (stConsentRequests ?t) oid = Some cr \<and> crStatus cr = ConsentPending \<and> reqOpenKey cr = key)"
    for key oid
    using fresh r False
    by (auto simp: gget_gput brokerInvD(6) [OF inv])
  then show ?thesis
    unfolding t brokerInv_def using inv r minted minted'
    by (auto simp: gget_gput distinct_update brokerInv_def)
qed

lemma createApproved_brokerInv:
  assumes inv: "brokerInv s" and inj: "inj (stClock s)"
  shows "brokerInv (snd (createApprovedConsentRequest req s))"
proof -
  define i where "i = ''creq-'' @ show_int (stClock s (stTicks s))"
  define r where "r = req\<lparr>crScopes := nonNil (crScopes req), crID := i, crStatus := ConsentApproved,
      crCreatedAt := stClock s (stTicks s), crResolvedAt := Some (stClock s (stTicks s))\<rparr>"
  let ?t = "s\<lparr>stTicks := Suc (stTicks s), stConsentRequests := gput i r (stConsentRequests s)\<rparr>"
  have t: "snd (createApprovedConsentRequest req s) = ?t"
    by (simp add: createApprovedConsentRequest_def timeNow_def i_def r_def Let_def)
  have fresh: "gget (stConsentRequests s) i = None"
    using fresh_notin [OF inv inj, of "stTicks s"] by (simp add: i_def)
  have r: "crID r = i" "crStatus r = ConsentApproved" "crResolvedAt r \<noteq> None"
    by (simp_all add: r_def)
  have minted: "mintedID ?t i" by (auto simp: mintedID_def i_def intro!: exI [of _ "stTicks s"])
  have minted': "mintedID s oid \<Longrightarrow> mintedID ?t oid" for oid by (auto simp: mintedID_def less_Suc_eq)
  have "gget (stOpenRequests ?t) key = Some oid \<longleftrightarrow>
      (\<exists>cr. gget (stConsentRequests ?t) oid = Some cr \<and> crStatus cr = ConsentPending \<and> reqOpenKey cr = key)"
    for key oid
    using fresh r by (auto simp: gget_gput brokerInvD(6) [OF inv])
  then show ?thesis
    unfolding t brokerInv_def using inv r minted minted'
    by (auto simp: gget_gput distinct_update brokerInv_def)
qed

lemma approvePending_brokerInv:
  assumes "brokerInv s" shows "brokerInv (snd (approvePendingConsentRequest oid s))"
proof -
  have "brokerInv (snd (timeNow s))"
    using assms sameBroker_brokerInv [of s] by (simp add: sameBroker_def)
  then show ?thesis
    using assms settle_brokerInv [of "snd (timeNow s)" oid]
    by (auto simp: approvePendingConsentRequest_def timeNow_def split: option.splits)
qed

lemma resolveLocked_brokerInv:
  assumes inv: "brokerInv s"
  shows "brokerInv (snd (resolveLocked oid approve now scopes expiry s))"
proof (cases "\<exists>cr. gget (stConsentRequests s) oid = Some cr \<and> crStatus cr = ConsentPending")
  case False
  then show ?thesis using inv by (auto simp: resolveLocked_def split: option.splits)
next
  case True
  then obtain cr where cr: "gget (stConsentRequests s) oid = Some cr" "crStatus cr = ConsentPending"
    by blast
  show ?thesis
  proof (cases approve)
    case False
    then show ?thesis using inv cr settle_brokerInv by (simp add: resolveLocked_def)
  next
    case True
    have sweep: "brokerInv (fold (sweepOne g now oid key) (stConsentRequests t) t)" if "brokerInv t" for g key t
      by (rule sweep_brokerInv [OF that brokerInvD(1) [OF that]])
         (rule in_set_gget [OF brokerInvD(1) [OF that], THEN iffD1])
    have "brokerInv (settleRequest oid cr ConsentApproved now s)"
      using inv cr settle_brokerInv by simp
    then have "brokerInv (snd (approveGrant oid cr now scopes expiry s))"
      unfolding approveGrant_def by (rule upsert_brokerInv)
    then show ?thesis using True by (simp add: resolveLocked_approve [OF cr] sweep Let_def split_beta)
  qed
qed

lemma brokerStep_inv:
  "brokerStep s t \<Longrightarrow> brokerInv s \<Longrightarrow> inj (stClock s) \<Longrightarrow> brokerInv t"
  by (induction rule: brokerStep.induct)
     (auto simp: upsertConsent_def intro: create_brokerInv createApproved_brokerInv
       approvePending_brokerInv resolveLocked_brokerInv upsert_brokerInv revoke_brokerInv
       sameBroker_brokerInv)

lemma brokerStep_clock: "brokerStep s t \<Longrightarrow> stClock t = stClock s"
  by (induction rule: brokerStep.induct)
     (auto simp: createConsentRequest_def createApprovedConsentRequest_def upsertConsent_def
       approvePendingConsentRequest_def resolveLocked_def revokeConsent_def sameBroker_def
       timeNow_def Let_def split_beta split: option.splits)

lemma brokerReach_inv:
  assumes "brokerReach s0 s" and "brokerInv s0" and "inj (stClock s0)"
  shows "brokerInv s \<and> stClock s = stClock s0"
  using assms
  by (induction rule: brokerReach.induct) (auto dest: brokerStep_inv brokerStep_clock)

lemma newStore_brokerInv: "brokerInv (newStore schema clock rand)"
  by (simp add: brokerInv_def newStore_def)

text \<open>A concrete run for the witnesses: one pending request, then its denial.\<close>

definition demoRequest :: "string \<Rightarrow> string \<Rightarrow> ConsentRequest" where
  "demoRequest user agent = \<lparr>crID = [], crUserID = user, crParentType = ''planner'', crChildType = ''flights'',
     crAgentID = agent, crScopes = Some [''search''], crBindingMessage = [], crStatus = ConsentPending,
     crCreatedAt = 0, crResolvedAt = None, crExternalRef = []\<rparr>"

definition demoStore :: store where
  "demoStore = newStore [] int (\<lambda>_. ''00000000'')"

definition demoPending :: store where
  "demoPending = snd (createConsentRequest (demoRequest ''alice'' ''a1'') demoStore)"

definition demoDenied :: store where
  "demoDenied = snd (resolveLocked ''creq-0'' False 9 None None demoPending)"

lemma demoPending_reach: "brokerReach (newStore [] int (\<lambda>_. ''00000000'')) demoPending"
  unfolding demoPending_def demoStore_def
  by (rule brokerReach.step [OF brokerReach.start], rule brokerStep.create) (simp add: demoRequest_def)

lemma demoDenied_reach: "brokerReach (newStore [] int (\<lambda>_. ''00000000'')) demoDenied"
  unfolding demoDenied_def
  by (rule brokerReach.step [OF demoPending_reach], rule brokerStep.resolve)

lemma show_int_0: "show_int 0 = ''0''"
  by code_simp

lemma demoPending_requests:
  "stConsentRequests demoPending =
     [(''creq-0'', (demoRequest ''alice'' ''a1'')\<lparr>crID := ''creq-0'', crCreatedAt := 1\<rparr>)]"
  by (simp add: demoPending_def demoStore_def demoRequest_def newStore_def Let_def
      createConsentRequest_def timeNow_def nonNil_def show_int_0)

lemma demoDenied_request:
  "gget (stConsentRequests demoDenied) ''creq-0'' =
     Some ((demoRequest ''alice'' ''a1'')\<lparr>crID := ''creq-0'', crStatus := ConsentDenied, crCreatedAt := 1,
       crResolvedAt := Some 9\<rparr>)"
  by (simp add: demoDenied_def demoPending_requests resolveLocked_def demoRequest_def)

text \<open>
  C3: from an empty store, under a clock that never repeats a reading, every interleaving of the
  broker's operations keeps the open-request index exact: a key is indexed if and only if a pending
  request has it, so at most one request is pending per open key, and a request is resolved if and
  only if it carries a resolution time.
\<close>

theorem broker_invariant:
  assumes "inj clock" and "brokerReach (newStore schema clock rand) s"
  shows "brokerInv s \<and>
    (\<forall>i j a b. gget (stConsentRequests s) i = Some a \<and> gget (stConsentRequests s) j = Some b \<and>
       crStatus a = ConsentPending \<and> crStatus b = ConsentPending \<and> reqOpenKey a = reqOpenKey b \<longrightarrow> i = j)"
proof -
  have "inj (stClock (newStore schema clock rand))" using assms(1) by (simp add: newStore_def)
  then have "brokerInv s"
    using brokerReach_inv [OF assms(2) newStore_brokerInv] by blast
  then show ?thesis using pending_unique by blast
qed

theorem broker_invariant_witness:
  "inj (int :: nat \<Rightarrow> int) \<and> brokerReach (newStore [] int (\<lambda>_. ''00000000'')) demoDenied \<and> brokerInv demoDenied"
proof -
  have i: "inj (int :: nat \<Rightarrow> int)" by (rule inj_of_nat)
  show ?thesis using i demoDenied_reach broker_invariant [OF i demoDenied_reach] by blast
qed

section \<open>Resolved requests are final\<close>

lemma sweepOne_final:
  assumes "gget (stConsentRequests s) oid = Some cr" and "crStatus cr \<noteq> ConsentPending"
    and "gdistinct (stConsentRequests s)"
  shows "gget (stConsentRequests (fold (sweepOne g now i key) (stConsentRequests s) s)) oid = Some cr"
  using assms sweep_requests [OF assms(3), of g now i key s oid] by (simp add: swept_def)

lemma resolveLocked_final:
  assumes inv: "brokerInv s" and cr: "gget (stConsentRequests s) oid = Some cr" "crStatus cr \<noteq> ConsentPending"
  shows "gget (stConsentRequests (snd (resolveLocked i approve now scopes expiry s))) oid = Some cr"
proof (cases "\<exists>c. gget (stConsentRequests s) i = Some c \<and> crStatus c = ConsentPending")
  case False
  then show ?thesis using cr by (auto simp: resolveLocked_def split: option.splits)
next
  case True
  then obtain c where c: "gget (stConsentRequests s) i = Some c" "crStatus c = ConsentPending" by blast
  then have ne: "oid \<noteq> i" using cr by auto
  let ?t = "snd (approveGrant i c now scopes expiry s)"
  have t: "gget (stConsentRequests ?t) oid = Some cr" "gdistinct (stConsentRequests ?t)"
    using cr ne brokerInvD(1) [OF inv] by (simp_all add: approveGrant_def gget_gput distinct_update)
  show ?thesis
  proof (cases approve)
    case True
    then show ?thesis using sweepOne_final [OF t(1) cr(2) t(2)]
      by (simp add: resolveLocked_approve [OF c] Let_def split_beta)
  next
    case False
    then show ?thesis using c cr ne by (simp add: resolveLocked_def gget_gput)
  qed
qed

lemma brokerStep_final:
  assumes "brokerStep s t" and inv: "brokerInv s" and inj: "inj (stClock s)"
    and cr: "gget (stConsentRequests s) oid = Some cr" "crStatus cr \<noteq> ConsentPending"
  shows "gget (stConsentRequests t) oid = Some cr"
proof -
  have ne: "oid \<noteq> ''creq-'' @ show_int (stClock s (stTicks s))"
    using fresh_notin [OF inv inj, of "stTicks s"] cr by auto
  from assms(1) show ?thesis
  proof cases
    case (resolve i approve now scopes expiry)
    then show ?thesis using resolveLocked_final [OF inv cr] by simp
  next
    case (revoke i userID)
    then show ?thesis using cr by (simp add: revokeConsent_def split: option.splits prod.splits)
  qed (use cr ne in \<open>auto simp: createConsentRequest_def createApprovedConsentRequest_def Let_def
        timeNow_def approvePendingConsentRequest_def upsertConsent_def sameBroker_def gget_gput
        split: option.splits\<close>)
qed

text \<open>
  A decision is final. Once a request is approved or denied, no later operation of the broker,
  in any interleaving, changes the stored request.
\<close>

theorem resolved_request_final:
  assumes "inj clock" and "brokerReach (newStore schema clock rand) s" and "brokerReach s t"
    and "gget (stConsentRequests s) oid = Some cr" and "crStatus cr \<noteq> ConsentPending"
  shows "gget (stConsentRequests t) oid = Some cr"
proof -
  have s: "brokerInv s" "inj (stClock s)"
    using brokerReach_inv [OF assms(2) newStore_brokerInv] assms(1) by (auto simp: newStore_def)
  from assms(3) show ?thesis
  proof (induction rule: brokerReach.induct)
    case start
    show ?case by (rule assms(4))
  next
    case (step u v)
    have "brokerInv u" "inj (stClock u)" using brokerReach_inv [OF step.hyps(1) s] s(2) by auto
    then show ?case using brokerStep_final [OF step.hyps(2)] step.IH assms(5) by blast
  qed
qed

theorem resolved_request_final_witness:
  "let t = snd (resolveLocked ''creq-0'' True 12 None None demoDenied)
   in gget (stConsentRequests t) ''creq-0'' =
      Some ((demoRequest ''alice'' ''a1'')\<lparr>crID := ''creq-0'', crStatus := ConsentDenied, crCreatedAt := 1,
        crResolvedAt := Some 9\<rparr>)"
proof -
  have r: "brokerReach demoDenied (snd (resolveLocked ''creq-0'' True 12 None None demoDenied))"
    by (rule brokerReach.step [OF brokerReach.start], rule brokerStep.resolve)
  show ?thesis
    unfolding Let_def
    by (rule resolved_request_final [OF inj_of_nat demoDenied_reach r demoDenied_request])
       (simp add: demoRequest_def)
qed

section \<open>Resolving a request\<close>

lemma approveGrant_effect:
  assumes "approveGrant oid cr now scopes expiry s = (g, s2)"
  shows "stConsents s2 = gput (reqEdge cr) g (stConsents s)"
    "conUserID g = crUserID cr" "conParentType g = crParentType cr" "conChildType g = crChildType cr"
    "conScopes g = scopes" "conGrantedAt g = now" "conExpiresAt g = expiry" "\<not> conRevoked g"
    "stConsentRequests s2 = gput oid (cr\<lparr>crStatus := ConsentApproved, crResolvedAt := Some now\<rparr>) (stConsentRequests s)"
proof -
  let ?rec = "\<lparr>conID = [], conUserID = crUserID cr, conParentType = crParentType cr,
        conChildType = crChildType cr, conScopes = scopes, conGrantedAt = now,
        conExpiresAt = expiry, conRevoked = False\<rparr>"
  let ?u = "upsertConsentLocked ?rec (settleRequest oid cr ConsentApproved now s)"
  have u: "g = fst ?u" "s2 = snd ?u" using assms by (simp_all add: approveGrant_def)
  have g: "g = ?rec\<lparr>conID := conID g\<rparr>" unfolding u by (rule upsertConsentLocked_fields)
  show "stConsents s2 = gput (reqEdge cr) g (stConsents s)"
    by (simp add: u upsertConsentLocked_consents recKey_def reqEdge_def)
  show "conUserID g = crUserID cr" "conParentType g = crParentType cr" "conChildType g = crChildType cr"
    "conScopes g = scopes" "conGrantedAt g = now" "conExpiresAt g = expiry" "\<not> conRevoked g"
    by (subst g, simp)+
  show "stConsentRequests s2 = gput oid (cr\<lparr>crStatus := ConsentApproved, crResolvedAt := Some now\<rparr>) (stConsentRequests s)"
    by (simp add: u)
qed

text \<open>What an approval does, with the grant it records.\<close>

lemma resolve_approve_effect:
  assumes "gdistinct (stConsentRequests s)"
    and cr: "getConsentRequest oid s = Some cr" "crStatus cr = ConsentPending"
    and user: "userID = [] \<or> crUserID cr = userID"
    and now: "now = stClock s (stTicks s)" and sc: "sc = (if scopes = None then crScopes cr else scopes)"
    and ex: "ex = consentExpiry (crParentType cr) (crChildType cr) now s"
  shows "\<exists>g s2 t. approveGrant oid cr now sc ex (s\<lparr>stTicks := Suc (stTicks s)\<rparr>) = (g, s2) \<and>
    resolveConsentRequest oid userID True scopes s = (Some (cr\<lparr>crStatus := ConsentApproved, crResolvedAt := Some now\<rparr>), t) \<and>
    stConsents t = gput (reqEdge cr) g (stConsents s) \<and> stTemplates t = stTemplates s \<and>
    (\<forall>rid. gget (stConsentRequests t) rid =
      (if rid = oid then Some (cr\<lparr>crStatus := ConsentApproved, crResolvedAt := Some now\<rparr>)
       else map_option (\<lambda>c. if crStatus c = ConsentPending \<and> reqEdge c = reqEdge cr \<and>
          cdGranted (EvaluateConsent g (crScopes c) now)
          then c\<lparr>crStatus := ConsentApproved, crResolvedAt := Some now\<rparr> else c) (gget (stConsentRequests s) rid)))"
proof -
  let ?s1 = "s\<lparr>stTicks := Suc (stTicks s)\<rparr>"
  have "consentExpiry p c n ?s1 = consentExpiry p c n s" for p c n by (simp add: consentExpiry_def getTemplate_def)
  then have prep: "resolvePrepare oid userID True scopes s = (Some (now, sc, ex), ?s1)"
    using cr user by (auto simp: resolvePrepare_def timeNow_def now sc ex)
  have cr1: "gget (stConsentRequests ?s1) oid = Some cr" using cr by (simp add: getConsentRequest_def)
  obtain g s2 where ag: "approveGrant oid cr now sc ex ?s1 = (g, s2)" by fastforce
  note eff = approveGrant_effect [OF ag]
  let ?t = "fold (sweepOne g now oid (reqEdge cr)) (stConsentRequests s2) s2"
  have res: "resolveConsentRequest oid userID True scopes s =
      (Some (cr\<lparr>crStatus := ConsentApproved, crResolvedAt := Some now\<rparr>), ?t)"
    using prep by (simp add: resolveConsentRequest_def resolveLocked_approve [OF cr1 cr(2)] ag)
  have dist: "gdistinct (stConsentRequests s2)" using assms(1) by (simp add: eff(9) distinct_update)
  have "gget (stConsentRequests ?t) rid =
      (if rid = oid then Some (cr\<lparr>crStatus := ConsentApproved, crResolvedAt := Some now\<rparr>)
       else map_option (\<lambda>c. if crStatus c = ConsentPending \<and> reqEdge c = reqEdge cr \<and>
          cdGranted (EvaluateConsent g (crScopes c) now)
          then c\<lparr>crStatus := ConsentApproved, crResolvedAt := Some now\<rparr> else c) (gget (stConsentRequests s) rid))"
    for rid
    using sweep_requests [OF dist, of g now oid "reqEdge cr" s2 rid]
    by (auto simp: eff(9) gget_gput swept_def split: option.splits)
  moreover have "stTemplates s2 = stTemplates s"
    using ag by (auto simp: approveGrant_def upsertConsentLocked_def settleRequest_def Let_def timeNow_def split: option.splits)
  ultimately show ?thesis using ag res eff(1) by simp
qed

text \<open>
  Approving a pending request records a live grant for its edge with the chosen scopes (the
  requested ones when none are given) and the template's expiry, leaves every other grant alone,
  approves the request and every other pending request of the same edge that the grant covers, and
  changes no other request.
\<close>

theorem approve_grants_and_sweeps:
  assumes "gdistinct (stConsentRequests s)"
    and cr: "getConsentRequest oid s = Some cr" "crStatus cr = ConsentPending"
    and user: "userID = [] \<or> crUserID cr = userID"
  shows "let now = stClock s (stTicks s); done = (\<lambda>c. c\<lparr>crStatus := ConsentApproved, crResolvedAt := Some now\<rparr>);
             (res, t) = resolveConsentRequest oid userID True scopes s
         in res = Some (done cr) \<and>
            (\<exists>g. gget (stConsents t) (reqEdge cr) = Some g \<and> \<not> conRevoked g \<and>
               conScopes g = (if scopes = None then crScopes cr else scopes) \<and>
               conExpiresAt g = consentExpiry (crParentType cr) (crChildType cr) now s \<and>
               (\<forall>rid. gget (stConsentRequests t) rid =
                  (if rid = oid then Some (done cr)
                   else map_option (\<lambda>c. if crStatus c = ConsentPending \<and> reqEdge c = reqEdge cr \<and>
                          cdGranted (EvaluateConsent g (crScopes c) now) then done c else c)
                        (gget (stConsentRequests s) rid)))) \<and>
            (\<forall>key. key \<noteq> reqEdge cr \<longrightarrow> gget (stConsents t) key = gget (stConsents s) key)"
proof -
  obtain g s2 t where ag: "approveGrant oid cr (stClock s (stTicks s)) (if scopes = None then crScopes cr else scopes)
      (consentExpiry (crParentType cr) (crChildType cr) (stClock s (stTicks s)) s) (s\<lparr>stTicks := Suc (stTicks s)\<rparr>) = (g, s2)"
    and res: "resolveConsentRequest oid userID True scopes s =
      (Some (cr\<lparr>crStatus := ConsentApproved, crResolvedAt := Some (stClock s (stTicks s))\<rparr>), t)"
    and eff: "stConsents t = gput (reqEdge cr) g (stConsents s)"
      "\<And>rid. gget (stConsentRequests t) rid =
        (if rid = oid then Some (cr\<lparr>crStatus := ConsentApproved, crResolvedAt := Some (stClock s (stTicks s))\<rparr>)
         else map_option (\<lambda>c. if crStatus c = ConsentPending \<and> reqEdge c = reqEdge cr \<and>
            cdGranted (EvaluateConsent g (crScopes c) (stClock s (stTicks s)))
            then c\<lparr>crStatus := ConsentApproved, crResolvedAt := Some (stClock s (stTicks s))\<rparr> else c)
          (gget (stConsentRequests s) rid))"
    using resolve_approve_effect [OF assms refl refl refl] by blast
  show ?thesis
    unfolding res Let_def prod.case using eff(2)
    by (auto simp: eff(1) approveGrant_effect [OF ag] gget_gput intro!: exI [of _ g])
qed

theorem approve_grants_and_sweeps_witness:
  "let (res, t) = resolveConsentRequest ''creq-0'' ''alice'' True None demoPending
   in res \<noteq> None \<and> (\<exists>g. gget (stConsents t) ''alice|planner|flights'' = Some g \<and> \<not> conRevoked g)"
proof -
  have d: "gdistinct (stConsentRequests demoPending)" by (simp add: demoPending_requests)
  have r: "getConsentRequest ''creq-0'' demoPending = Some
      ((demoRequest ''alice'' ''a1'')\<lparr>crID := ''creq-0'', crCreatedAt := 1\<rparr>)"
    by (simp add: getConsentRequest_def demoPending_requests)
  show ?thesis
    using approve_grants_and_sweeps [OF d r, of "''alice''" None]
    by (auto simp: Let_def demoRequest_def reqEdge_def ConsentEdgeKey_def split_beta)
qed

text \<open>
  A caller who names a user that does not own the request gets ``not found'' and changes
  nothing, and a denial writes no grant and touches no other request.
\<close>

theorem resolve_scoped_and_deny:
  "(\<forall>cr. getConsentRequest oid s = Some cr \<and> userID \<noteq> [] \<and> crUserID cr \<noteq> userID \<longrightarrow>
      resolveConsentRequest oid userID approve scopes s = (None, s)) \<and>
   (let t = snd (resolveConsentRequest oid userID False scopes s)
    in stConsents t = stConsents s \<and>
       (\<forall>rid. rid \<noteq> oid \<longrightarrow> gget (stConsentRequests t) rid = gget (stConsentRequests s) rid))"
  by (auto simp: resolveConsentRequest_def resolvePrepare_def resolveLocked_def timeNow_def gget_gput
      Let_def split: option.splits)

theorem resolve_scoped_and_deny_witness:
  "resolveConsentRequest ''creq-0'' ''mallory'' True None demoPending = (None, demoPending)"
  using resolve_scoped_and_deny [of "''creq-0''" demoPending "''mallory''" True None]
  by (simp add: getConsentRequest_def demoPending_requests demoRequest_def)

section \<open>Request ids and the clock\<close>

text \<open>
  Two consent requests created on the same clock reading share an id. The second create
  overwrites the first: the first request is gone from the store, and its id, which the first
  user's driver polls and approves, now names the second user's request.
\<close>

theorem same_nanosecond_overwrites:
  assumes "gget (stOpenRequests s) (reqOpenKey a) = None"
    and "gget (stOpenRequests s) (reqOpenKey b) = None" and "reqOpenKey a \<noteq> reqOpenKey b"
    and "stClock s (stTicks s) = stClock s (stTicks s + 2)"
  shows "let ((ra, _), s1) = createConsentRequest a s; ((rb, _), s2) = createConsentRequest b s1
         in crID ra = crID rb \<and> getConsentRequest (crID ra) s2 = Some rb \<and> crUserID rb = crUserID b"
  using assms
  by (auto simp: createConsentRequest_def Let_def timeNow_def getConsentRequest_def gget_gput
      numeral_2_eq_2)

theorem same_nanosecond_overwrites_witness:
  "let s = newStore [] (\<lambda>_. 5) (\<lambda>_. []); a = demoRequest ''alice'' ''a1''; b = demoRequest ''bob'' ''b1'';
       ((ra, _), s1) = createConsentRequest a s; ((rb, _), s2) = createConsentRequest b s1
   in crUserID ra = ''alice'' \<and> getConsentRequest (crID ra) s2 = Some rb \<and> crUserID rb = ''bob''"
proof -
  have o: "gget (stOpenRequests (newStore [] (\<lambda>_. 5) (\<lambda>_. []))) k = None" for k
    by (simp add: newStore_def)
  have k: "reqOpenKey (demoRequest ''alice'' ''a1'') \<noteq> reqOpenKey (demoRequest ''bob'' ''b1'')"
    by (simp add: reqOpenKey_def OpenRequestKey_def demoRequest_def)
  have "crUserID (fst (fst (createConsentRequest (demoRequest ''alice'' ''a1'') (newStore [] (\<lambda>_. 5) (\<lambda>_. []))))) = ''alice''"
    by (simp add: createConsentRequest_def newStore_def timeNow_def demoRequest_def Let_def)
  moreover have c: "stClock (newStore [] (\<lambda>_. 5) (\<lambda>_. [])) (stTicks (newStore [] (\<lambda>_. 5) (\<lambda>_. []))) =
      stClock (newStore [] (\<lambda>_. 5) (\<lambda>_. [])) (stTicks (newStore [] (\<lambda>_. 5) (\<lambda>_. [])) + 2)"
    by (simp add: newStore_def)
  moreover have "crUserID (demoRequest ''bob'' ''b1'') = ''bob''" by (simp add: demoRequest_def)
  ultimately show ?thesis
    using same_nanosecond_overwrites [OF o o k c] unfolding Let_def split_beta by (elim conjE) (intro conjI, assumption+, simp)
qed

end
