(* ===== verification/DynamoRefine.thy ===== *)
theory DynamoRefine
  imports DynamoTable Broker Revocation
begin

text \<open>
  The durable store implements the \<open>Store\<close> contract. The agent graph of a well-formed table
  satisfies the laws the cascades rely on, so revocation over the durable store is the same
  abstract operation as over the in-memory one. The consent broker of either store implements the
  abstract broker \<open>specCreate\<close>, \<open>specResolve\<close>, \<open>specUpsert\<close>: maps of requests and grants without
  markers, indexes or identifiers' formats.
\<close>

section \<open>Updates of represented items\<close>

lemma updateItem_Some [simp]: "updateItem k u (Some it) = applyUpdate u it"
  by (simp add: updateItem_def)

lemma agent_set_status:
  assumes "gget it = gget (agentItem r)"
  shows "\<exists>it'. applyUpdate [SetPath ''agent'' ''status'' (AVS st)] it = Some it' \<and>
    represents it' (EAgent (r\<lparr>agStatus := st\<rparr>))"
  using assms by (auto intro!: ext simp: represents_def gget_gput agentItem_def)

lemma agent_set_dismissed:
  assumes "gget it = gget (agentItem r)"
  shows "\<exists>it'. applyUpdate [SetPath ''agent'' ''dismissed'' (AVBool b)] it = Some it' \<and>
    represents it' (EAgent (r\<lparr>agDismissed := b\<rparr>))"
  using assms by (auto intro!: ext simp: represents_def gget_gput agentItem_def)

lemma template_set_status:
  assumes "gget it = gget (templateItem t)"
  shows "\<exists>it'. applyUpdate [SetPath ''tpl'' ''status'' (AVS st)] it = Some it' \<and>
    represents it' (ETpl (t\<lparr>tplStatus := st\<rparr>))"
  using assms by (auto intro!: ext simp: represents_def gget_gput templateItem_def)

lemma reqEdge_update [simp]:
  "reqEdge (cr\<lparr>crStatus := st\<rparr>) = reqEdge cr" "reqEdge (cr\<lparr>crResolvedAt := ra\<rparr>) = reqEdge cr"
  "reqEdge (cr\<lparr>crID := i\<rparr>) = reqEdge cr" "reqEdge (cr\<lparr>crScopes := sc\<rparr>) = reqEdge cr"
  "reqEdge (cr\<lparr>crCreatedAt := t\<rparr>) = reqEdge cr"
  by (simp_all add: reqEdge_def)

lemma request_pivot:
  assumes "gget it = gget (creqItem cr)"
  shows "\<exists>it'. applyUpdate (pivotActions st now) it = Some it' \<and>
    represents it' (ERequest (cr\<lparr>crStatus := st, crResolvedAt := Some now\<rparr>))"
  using assms by (auto intro!: ext simp: pivotActions_def represents_def gget_gput gget_creqItem)

lemma consent_revoke:
  assumes "gget it = gget (consentItem rec)"
  shows "\<exists>it'. applyUpdate [SetAttr ''revoked'' (AVBool b)] it = Some it' \<and>
    represents it' (EConsent (rec\<lparr>conRevoked := b\<rparr>))"
  using assms by (auto intro!: ext simp: represents_def gget_gput gget_consentItem)

text \<open>The upsert keeps the id of a grant that is there and clears its revocation.\<close>

definition storedGrant :: "string \<Rightarrow> ConsentRecord \<Rightarrow> ConsentRecord" where
  "storedGrant cid rec = rec\<lparr>conID := cid, conScopes := Some (elems (conScopes rec)), conRevoked := False\<rparr>"

lemma storedGrant_simps [simp]:
  "conID (storedGrant cid rec) = cid" "conUserID (storedGrant cid rec) = conUserID rec"
  "conParentType (storedGrant cid rec) = conParentType rec" "conChildType (storedGrant cid rec) = conChildType rec"
  "conScopes (storedGrant cid rec) = Some (elems (conScopes rec))" "conGrantedAt (storedGrant cid rec) = conGrantedAt rec"
  "conExpiresAt (storedGrant cid rec) = conExpiresAt rec" "conRevoked (storedGrant cid rec) = False"
  "recKey (storedGrant cid rec) = recKey rec"
  by (simp_all add: storedGrant_def recKey_def)

lemma consent_upsert:
  assumes "case io of None \<Rightarrow> cid = cand | Some it \<Rightarrow> \<exists>old. gget it = gget (consentItem old) \<and> recKey old = recKey rec \<and> cid = conID old"
  shows "\<exists>it'. updateItem (conPK (recKey rec), skMeta) (upsertActions cand rec) io = Some it' \<and>
    represents it' (EConsent (storedGrant cid rec))"
proof (cases io)
  case None
  then show ?thesis using assms
    by (cases "conExpiresAt rec")
       (auto intro!: ext simp: updateItem_def upsertActions_def expiryAction_def represents_def gget_gput gget_gdel gget_consentItem)
next
  case (Some it)
  then obtain old where "gget it = gget (consentItem old)" "recKey old = recKey rec" "cid = conID old" using assms by auto
  then show ?thesis using Some
    by (cases "conExpiresAt rec")
       (auto intro!: ext simp: upsertActions_def expiryAction_def represents_def gget_gput gget_gdel gget_consentItem)
qed

section \<open>The agent graph\<close>

text \<open>Which items an index finds.\<close>

lemma matches_gsi1:
  assumes "represents it e"
  shows "matchesQuery \<lparr>qIndex = GSI1, qPK = gsi1Agent, qPrefix = None\<rparr> it \<longleftrightarrow> (\<exists>r. e = EAgent r)"
    and "matchesQuery \<lparr>qIndex = GSI1, qPK = gsi1Template, qPrefix = None\<rparr> it \<longleftrightarrow> (\<exists>t. e = ETpl t)"
    and "matchesQuery \<lparr>qIndex = GSI1, qPK = gsi1Org, qPrefix = None\<rparr> it \<longleftrightarrow> (\<exists>org. e = EOrg org)"
  using assms
  by (cases e; simp add: represents_def matchesQuery_def templateItem_def agentItem_def eventItem_def orgItem_def
      gget_consentItem gget_creqItem openItem_def ddb_keys)+

lemma matches_gsi2:
  assumes "represents it e"
  shows "matchesQuery \<lparr>qIndex = GSI2, qPK = ''PARENT#'' @ p, qPrefix = None\<rparr> it \<longleftrightarrow>
      (\<exists>r. e = EAgent r \<and> agParentID r = p \<and> p \<noteq> [])"
    and "matchesQuery \<lparr>qIndex = GSI2, qPK = ''EDGE#'' @ edge, qPrefix = None\<rparr> it \<longleftrightarrow> (\<exists>cr. e = ERequest cr \<and> reqEdge cr = edge)"
    and "matchesQuery \<lparr>qIndex = GSI2, qPK = ''CONID#'' @ i, qPrefix = None\<rparr> it \<longleftrightarrow> (\<exists>rec. e = EConsent rec \<and> conID rec = i)"
  using assms
  by (cases e; auto simp: represents_def matchesQuery_def templateItem_def agentItem_def eventItem_def orgItem_def
      gget_consentItem gget_creqItem openItem_def)+

lemma wfTable_rep: "wfTable T \<Longrightarrow> T k = Some it \<Longrightarrow> \<exists>e. entKey e = k \<and> represents it e"
  unfolding wfTable_def by blast

lemma rep_decode:
  "represents it (ETpl t) \<Longrightarrow> unmarshalTemplate it = Inr t" "represents it (EAgent r) \<Longrightarrow> unmarshalAgent it = Inr r"
  "represents it (EOrg org) \<Longrightarrow> unmarshalOrg it = Inr org" "represents it (EConsent rec) \<Longrightarrow> unmarshalConsent it = Inr rec"
  "represents it (ERequest cr) \<Longrightarrow> unmarshalRequest it = Inr cr"
  by (simp_all add: represents_def decode_item)

definition agentTable :: "table \<Rightarrow> bool" where
  "agentTable T = (wfTable T \<and> agentView T [] = None)"

lemma agentView_id: "wfTable T \<Longrightarrow> agentView T i = Some r \<Longrightarrow> agAgentID r = i"
  by (simp add: view_iff)

lemma finite_agentView: "wfTable T \<Longrightarrow> finite (dom (agentView T))"
proof -
  assume "wfTable T"
  then have "finite (dom T)" by (simp add: wfTable_def)
  moreover have "(\<lambda>i. (agPK i, skMeta)) ` dom (agentView T) \<subseteq> dom T"
    by (auto simp: agentView_def viewAt_def split: option.splits)
  ultimately show ?thesis by (rule finite_subset [rotated, THEN finite_imageD]) (auto simp: inj_on_def)
qed

context dynamo_service
begin

lemma run_GetAgent: "wfTable (tbl d) \<Longrightarrow> run C (GetAgent_ddb i) d = (Inr (recordOrZero (agentView (tbl d) i)), d)"
proof -
  assume "wfTable (tbl d)"
  then have "\<exists>a. unmarshalAgent it = Inr a" if "tbl d (agPK i, skMeta) = Some it" for it
    using wfTable_item(2) that decode_item(2) by blast
  then have "run C (getDecode False (agPK i, skMeta) unmarshalAgent) d = (Inr (agentView (tbl d) i), d)"
    unfolding agentView_def by (rule run_view)
  then show ?thesis by (simp add: GetAgent_ddb_def run_bindP recordOrZero_def split: option.split)
qed

lemma run_agent_query:
  assumes wf: "wfTable (tbl d)" and q: "\<And>it e. represents it e \<Longrightarrow> matchesQuery q it \<longleftrightarrow> (\<exists>r. e = EAgent r \<and> P r)"
  shows "\<exists>rs. run C (queryDecode q unmarshalAgent keep) d = (Inr rs, d) \<and>
    (\<forall>r. r \<in> set rs \<longleftrightarrow> keep r \<and> P r \<and> agentView (tbl d) (agAgentID r) = Some r)"
  using run_entityQuery [of d EAgent unmarshalAgent q P keep] rep_decode(2) q wf stored_view(2) [OF wf] by simp

lemma run_condSet:
  assumes wf: "wfTable (tbl d)"
    and upd: "\<And>it r. gget it = gget (agentItem r) \<Longrightarrow> \<exists>it'. applyUpdate u it = Some it' \<and> represents it' (EAgent (f r))"
    and ids: "\<And>r. agAgentID (f r) = agAgentID r"
  shows "\<exists>d'. run C (condSet i u) d = (Inr (agentView (tbl d) i \<noteq> None), d') \<and> wfTable (tbl d') \<and>
    agentView (tbl d') = (case agentView (tbl d) i of None \<Rightarrow> agentView (tbl d) | Some r \<Rightarrow> (agentView (tbl d))(i \<mapsto> f r))"
proof (cases "tbl d (agPK i, skMeta)")
  case None
  have "\<not> evalCond (CExists ''pk'') (tbl d (agPK i, skMeta))" using None by simp
  from update_failed [OF this, of u] show ?thesis using None wf
    by (cases "cUpdateItem C (agPK i, skMeta) (CExists ''pk'') u d")
       (auto simp: condSet_def isCondFailed_def agentView_def viewAt_def)
next
  case (Some it)
  then obtain r where r: "agAgentID r = i" "gget it = gget (agentItem r)" using wfTable_item(2) [OF wf] by blast
  then obtain it' where it': "applyUpdate u it = Some it'" "represents it' (EAgent (f r))" using upd by blast
  have view: "agentView (tbl d) i = Some r" using view_iff(2) [OF wf] Some r by blast
  have "evalCond (CExists ''pk'') (tbl d (agPK i, skMeta))" using Some r by (simp add: agentItem_def)
  from update [OF this, of u it'] obtain d' where d': "cUpdateItem C (agPK i, skMeta) (CExists ''pk'') u d = (Inr it', d')"
      "tbl d' = (tbl d)((agPK i, skMeta) \<mapsto> it')"
    using Some it'(1) by (cases "cUpdateItem C (agPK i, skMeta) (CExists ''pk'') u d") auto
  have "entKey (EAgent (f r)) = (agPK i, skMeta)" using ids r by simp
  then show ?thesis
    using d' view wfTable_put [OF wf it'(2)] view_put(2) [OF it'(2), of "tbl d"] ids r by (simp add: condSet_def)
qed

lemma run_AppendEvent:
  assumes wf: "wfTable (tbl d)"
  shows "\<exists>e' d'. run C (AppendEvent_ddb i e) d = (Inr e', d') \<and> wfTable (tbl d') \<and> agentView (tbl d') = agentView (tbl d)"
proof -
  obtain t d1 where d1: "cNow C d = (t, d1)" "tbl d1 = tbl d" using now [of d] by (cases "cNow C d") auto
  obtain x d2 where d2: "cRand C 4 d1 = (x, d2)" "tbl d2 = tbl d" using rand [of 4 d1] d1 by (cases "cRand C 4 d1") auto
  let ?e = "e\<lparr>evID := eventID t x, evTimestamp := t\<rparr>"
  let ?ent = "EEvent i (pad20 (show_int t) @ ''#'' @ x) ?e"
  have "fst (cPutItem C (entItem ?ent) d2) = None \<and> tbl (snd (cPutItem C (entItem ?ent) d2)) = (tbl d)(entKey ?ent \<mapsto> entItem ?ent)"
    using put [of "entItem ?ent" d2] d2 itemKey_entItem [of ?ent] by simp
  then obtain d3 where d3: "cPutItem C (entItem ?ent) d2 = (None, d3)" "tbl d3 = (tbl d)(entKey ?ent \<mapsto> entItem ?ent)"
    by (cases "cPutItem C (entItem ?ent) d2") auto
  then show ?thesis
    using d1 d2 wfTable_put [OF wf represents_self refl, of ?ent] view_put(2) [OF represents_self, of "tbl d" ?ent]
    by (simp add: AppendEvent_ddb_def Let_def del: fun_upd_apply)
qed

end

sublocale dynamo_service \<subseteq> ddb: lifecycle_store "dynamoStore C" "\<lambda>s. agentView (tbl (dyClient s))" "\<lambda>s. agentTable (tbl (dyClient s))"
proof
  fix s :: "'d dynamo" and oid r
  assume "agentTable (tbl (dyClient s))" and "GetAgent (dynamoStore C) oid s = Inr r"
  then show "r = recordOrZero (agentView (tbl (dyClient s)) oid)"
    by (simp add: dynamoStore_def rd_def run_GetAgent agentTable_def)
next
  fix s :: "'d dynamo" and p cs c
  assume "agentTable (tbl (dyClient s))" and "ListChildren (dynamoStore C) p s = Inr cs" and "c \<in> set cs"
  then show "\<exists>a. agentView (tbl (dyClient s)) (agAgentID c) = Some a \<and> agParentID a = p"
    using run_agent_query [of "dyClient s" "\<lparr>qIndex = GSI2, qPK = ''PARENT#'' @ p, qPrefix = None\<rparr>"
        "\<lambda>r. agParentID r = p \<and> p \<noteq> []" "\<lambda>r. True"] matches_gsi2(1)
    by (auto simp: dynamoStore_def rd_def ListChildren_ddb_def agentTable_def)
next
  fix s :: "'d dynamo" and p cs i a
  assume wf: "agentTable (tbl (dyClient s))" and cs: "ListChildren (dynamoStore C) p s = Inr cs" "p \<noteq> []"
    and a: "agentView (tbl (dyClient s)) i = Some a" "agParentID a = p"
  have "agAgentID a = i" using agentView_id a wf by (auto simp: agentTable_def)
  moreover have "a \<in> set cs"
    using run_agent_query [of "dyClient s" "\<lparr>qIndex = GSI2, qPK = ''PARENT#'' @ p, qPrefix = None\<rparr>"
        "\<lambda>r. agParentID r = p \<and> p \<noteq> []" "\<lambda>r. True"] matches_gsi2(1) wf cs a \<open>agAgentID a = i\<close>
    by (auto simp: dynamoStore_def rd_def ListChildren_ddb_def agentTable_def)
  ultimately show "i \<in> agAgentID ` set cs" by blast
next
  fix s :: "'d dynamo" and oid a
  assume "agentTable (tbl (dyClient s))" and "agentView (tbl (dyClient s)) oid = Some a"
  then show "agAgentID a = oid \<and> oid \<noteq> []" using agentView_id by (auto simp: agentTable_def)
next
  fix s :: "'d dynamo"
  assume "agentTable (tbl (dyClient s))"
  then show "finite (dom (agentView (tbl (dyClient s))))" by (simp add: agentTable_def finite_agentView)
next
  fix s :: "'d dynamo" and oid st r s'
  assume wf: "agentTable (tbl (dyClient s))" and upd: "UpdateAgentStatus (dynamoStore C) oid st s = (r, s')"
  have "\<exists>d'. run C (UpdateAgentStatus_ddb oid st) (dyClient s) = (Inr (agentView (tbl (dyClient s)) oid \<noteq> None), d') \<and> wfTable (tbl d') \<and>
      agentView (tbl d') = (case agentView (tbl (dyClient s)) oid of None \<Rightarrow> agentView (tbl (dyClient s))
        | Some a \<Rightarrow> (agentView (tbl (dyClient s)))(oid \<mapsto> a\<lparr>agStatus := st\<rparr>))"
    unfolding UpdateAgentStatus_ddb_def using wf
    by (intro run_condSet agent_set_status) (simp_all add: agentTable_def)
  then show "agentTable (tbl (dyClient s')) \<and>
      (agentView (tbl (dyClient s')) = setStatus oid st (agentView (tbl (dyClient s))) \<or>
       (\<exists>e. r = Inl e) \<and> agentView (tbl (dyClient s')) = agentView (tbl (dyClient s)))"
    using wf upd by (auto simp: dynamoStore_def wr_def setStatus_def agentTable_def split: option.splits)
next
  fix s :: "'d dynamo" and oid ev q s'
  assume "agentTable (tbl (dyClient s))" and "AppendEvent (dynamoStore C) oid ev s = (q, s')"
  then show "agentTable (tbl (dyClient s')) \<and> agentView (tbl (dyClient s')) = agentView (tbl (dyClient s))"
    using run_AppendEvent [of "dyClient s" oid ev] by (auto simp: dynamoStore_def wr_def agentTable_def)
next
  fix s :: "'d dynamo" and "as" a
  assume "agentTable (tbl (dyClient s))" and "ListAgents (dynamoStore C) s = Inr as"
  then show "a \<in> set as \<longleftrightarrow> agentView (tbl (dyClient s)) (agAgentID a) = Some a \<and> \<not> agDismissed a"
    using run_agent_query [of "dyClient s" "\<lparr>qIndex = GSI1, qPK = gsi1Agent, qPrefix = None\<rparr>" "\<lambda>r. True" "\<lambda>r. \<not> agDismissed r"]
      matches_gsi1(1)
    by (auto simp: dynamoStore_def rd_def ListAgents_ddb_def agentTable_def)
qed

section \<open>A store without faults\<close>

text \<open>A store whose reads and status writes succeed: then a revoke answers, and is exact.\<close>

locale reliable_store = lifecycle_store S agents wf
  for S :: "'s Store" and agents :: "'s \<Rightarrow> string \<Rightarrow> AgentRecord option" and wf :: "'s \<Rightarrow> bool" +
  assumes get_ok: "wf s \<Longrightarrow> \<exists>r. GetAgent S oid s = Inr r"
    and children_ok: "wf s \<Longrightarrow> \<exists>cs. ListChildren S p s = Inr cs"
    and update_ok: "wf s \<Longrightarrow> \<exists>b s'. UpdateAgentStatus S oid st s = (Inr b, s')"
begin

lemma nodeLoop_ok:
  assumes "\<not> g []"
  shows "wf (wStore w) \<Longrightarrow> \<exists>acted w'. nodeLoop (flipNode S g st tuple ty) ns w = (Inr acted, w')"
proof (induction ns arbitrary: w)
  case (Cons n ns)
  obtain r where r: "GetAgent S n (wStore w) = Inr r" using get_ok Cons.prems by blast
  obtain b s' where u: "UpdateAgentStatus S n st (wStore w) = (Inr b, s')" using update_ok Cons.prems by blast
  obtain ok w1 where w1: "flipNode S g st tuple ty n w = (Inr ok, w1)"
    using r u by (cases "g (agStatus r)") (auto simp: flipNode_def)
  then have "wf (wStore w1)" using flipNode_refines [OF Cons.prems w1 assms] by blast
  then obtain acted w2 where "nodeLoop (flipNode S g st tuple ty) ns w1 = (Inr acted, w2)" using Cons.IH by blast
  then show ?case using w1 by simp
qed simp

lemma subtree_ok:
  assumes "wf s" and "agents s oid = Some a"
  shows "\<exists>nodes. subtree S oid s = Some (Inr (Some nodes))"
proof -
  obtain q where q: "subtree S oid s = Some q" using subtree_ends [OF assms(1)] by blast
  obtain r where r: "GetAgent S oid s = Inr r" using get_ok [OF assms(1)] by blast
  have "q \<noteq> Inl e" for e
  proof
    assume "q = Inl e"
    then obtain e' where "subtreeLoop (\<lambda>p. ListChildren S p s) [oid] [] = Some (Inl e')"
      using q r by (auto simp: subtree_def split: if_splits) (metis map_sum.simps sum.exhaust Inl_inject Inr_not_Inl)
    then have "\<exists>e p. ListChildren S p s = Inl e" by (rule subtreeLoop_error)
    then show False using children_ok [OF assms(1)] by (metis Inr_not_Inl)
  qed
  then obtain no where "q = Inr no" by (cases q) auto
  then show ?thesis using subtree_nodes [OF assms(1)] q assms(2) stored_id [OF assms] by fastforce
qed

lemma revoke_exact:
  assumes wf: "wf (wStore w)" and allowed: "agentAllowed S D oid u actionManage w = Inr (True, True)"
  shows "\<exists>revoked w'. handleRevoke S D oid u w = Some (HttpOK 200 revoked, w') \<and> wf (wStore w') \<and>
    agents (wStore w') = revokeMap (descendants (agents (wStore w)) oid) (agents (wStore w)) \<and> distinct revoked \<and>
    set revoked = {i \<in> descendants (agents (wStore w)) oid. \<exists>a. agents (wStore w) i = Some a \<and> revocableStatus (agStatus a)}"
proof -
  obtain r where r: "GetAgent S oid (wStore w) = Inr r" "agAgentID r \<noteq> []"
    using allowed by (auto simp: agentAllowed_def split: sum.splits if_splits)
  then have "agents (wStore w) oid = Some r" using agent_known [OF wf] by blast
  then obtain nodes where nodes: "subtree S oid (wStore w) = Some (Inr (Some nodes))" using subtree_ok [OF wf] by blast
  obtain acted w' where "nodeLoop (revokeNode S D) nodes w = (Inr acted, w')"
    using nodeLoop_ok [of revocableStatus w] wf not_revocable(2) unfolding revokeNode_flip by blast
  then have ans: "overSubtree S (revokeNode S D) oid w = Some (HttpOK 200 acted, w')" using nodes by (simp add: overSubtree_def)
  then show ?thesis
    using overSubtree_refines [OF wf not_revocable(2,1), of "DeleteRelationship D" "''agent_revoked''" oid] allowed
    by (auto simp: handleRevoke_def allowedOr404_def revokeNode_flip revokeMap_def)
qed

end

interpretation memr: reliable_store memStore "\<lambda>s. gget (stAgents s)" agentsWf
  by unfold_locales (simp_all add: mem_simps)

sublocale dynamo_service \<subseteq> ddbr: reliable_store "dynamoStore C" "\<lambda>s. agentView (tbl (dyClient s))" "\<lambda>s. agentTable (tbl (dyClient s))"
proof
  fix s :: "'d dynamo" and oid
  assume "agentTable (tbl (dyClient s))"
  then show "\<exists>r. GetAgent (dynamoStore C) oid s = Inr r" by (simp add: dynamoStore_def rd_def run_GetAgent agentTable_def)
next
  fix s :: "'d dynamo" and p
  assume "agentTable (tbl (dyClient s))"
  then show "\<exists>cs. ListChildren (dynamoStore C) p s = Inr cs"
    using run_agent_query [of "dyClient s" "\<lparr>qIndex = GSI2, qPK = ''PARENT#'' @ p, qPrefix = None\<rparr>"
        "\<lambda>r. agParentID r = p \<and> p \<noteq> []" "\<lambda>r. True"] matches_gsi2(1)
    by (fastforce simp: dynamoStore_def rd_def ListChildren_ddb_def agentTable_def)
next
  fix s :: "'d dynamo" and oid st
  assume "agentTable (tbl (dyClient s))"
  then have "\<exists>d'. run C (UpdateAgentStatus_ddb oid st) (dyClient s) = (Inr (agentView (tbl (dyClient s)) oid \<noteq> None), d')"
    using run_condSet [of "dyClient s" "[SetPath ''agent'' ''status'' (AVS st)]" "\<lambda>r. r\<lparr>agStatus := st\<rparr>" oid] agent_set_status
    by (fastforce simp: UpdateAgentStatus_ddb_def agentTable_def)
  then show "\<exists>b s'. UpdateAgentStatus (dynamoStore C) oid st s = (Inr b, s')"
    by (auto simp: dynamoStore_def wr_def)
qed

end
