(* ===== verification/DynamoBroker.thy ===== *)
theory DynamoBroker
  imports DynamoRefine
begin

text \<open>
  The consent broker, abstractly and in its two implementations. The abstract broker has three maps
  (templates by type, requests by id, grants by edge) and relations for the operations, which leave
  the identifiers and the clock open. The durable store implements it over markers, conditional
  writes and transactions, the in-memory store over its maps under one lock.
\<close>

section \<open>The abstract broker\<close>

record broker =
  bkTemplates :: "string \<rightharpoonup> AgentTemplate"
  bkRequests :: "string \<rightharpoonup> ConsentRequest"
  bkConsents :: "string \<rightharpoonup> ConsentRecord"

definition pendingOn :: "broker \<Rightarrow> string \<Rightarrow> ConsentRequest \<Rightarrow> bool" where
  "pendingOn R key cr \<longleftrightarrow> bkRequests R (crID cr) = Some cr \<and> crStatus cr = ConsentPending \<and> reqOpenKey cr = key"

definition settled :: "ConsentRequestStatus \<Rightarrow> time \<Rightarrow> ConsentRequest \<Rightarrow> ConsentRequest" where
  "settled st now cr = cr\<lparr>crStatus := st, crResolvedAt := Some now\<rparr>"

text \<open>The pending request of the slot if there is one, otherwise a new one.\<close>

definition specCreate :: "ConsentRequest \<Rightarrow> broker \<Rightarrow> ConsentRequest \<times> bool \<Rightarrow> broker \<Rightarrow> bool" where
  "specCreate req R res R' \<longleftrightarrow>
     (\<exists>cr. pendingOn R (reqOpenKey req) cr \<and> res = (cr, False) \<and> R' = R) \<or>
     ((\<nexists>cr. pendingOn R (reqOpenKey req) cr) \<and>
      (\<exists>oid created. res = (freshRequest oid created req, True) \<and>
         R' = R\<lparr>bkRequests := (bkRequests R)(oid \<mapsto> freshRequest oid created req)\<rparr>))"

definition specExpiry :: "broker \<Rightarrow> string \<Rightarrow> string \<Rightarrow> time \<Rightarrow> time option" where
  "specExpiry R parentType childType from =
     (case bkTemplates R parentType of None \<Rightarrow> None | Some tpl \<Rightarrow> templateExpiry tpl childType from)"

text \<open>A grant for an edge keeps the id of the grant it replaces.\<close>

definition specUpsert :: "ConsentRecord \<Rightarrow> broker \<Rightarrow> ConsentRecord \<Rightarrow> broker \<Rightarrow> bool" where
  "specUpsert rec R res R' \<longleftrightarrow>
     (\<exists>cid. res = storedGrant (case bkConsents R (recKey rec) of None \<Rightarrow> cid | Some old \<Rightarrow> conID old) rec) \<and>
     R' = R\<lparr>bkConsents := (bkConsents R)(recKey rec \<mapsto> res)\<rparr>"

text \<open>Approval: the request itself and every pending request of its edge that the grant covers.\<close>

definition approveAll ::
  "string \<Rightarrow> ConsentRecord \<Rightarrow> time \<Rightarrow> (string \<rightharpoonup> ConsentRequest) \<Rightarrow> string \<rightharpoonup> ConsentRequest" where
  "approveAll oid granted now m =
     (\<lambda>rid. case m rid of
        None \<Rightarrow> None
      | Some cr \<Rightarrow>
          Some (if rid = oid \<or> (crStatus cr = ConsentPending \<and> reqEdge cr = recKey granted \<and>
                   cdGranted (EvaluateConsent granted (crScopes cr) now))
                then settled ConsentApproved now cr else cr))"

definition specResolve ::
  "string \<Rightarrow> string \<Rightarrow> bool \<Rightarrow> string slice \<Rightarrow> broker \<Rightarrow> ConsentRequest option \<Rightarrow> broker \<Rightarrow> bool" where
  "specResolve oid userID approve scopes R res R' \<longleftrightarrow>
     (case bkRequests R oid of
        None \<Rightarrow> res = None \<and> R' = R
      | Some cr \<Rightarrow>
          if userID \<noteq> [] \<and> crUserID cr \<noteq> userID then res = None \<and> R' = R
          else if crStatus cr \<noteq> ConsentPending then res = Some cr \<and> R' = R
          else if \<not> approve then
            (\<exists>now. res = Some (settled ConsentDenied now cr) \<and>
               R' = R\<lparr>bkRequests := (bkRequests R)(oid \<mapsto> settled ConsentDenied now cr)\<rparr>)
          else (\<exists>now granted R1.
            specUpsert (grantOf cr (if scopes = None then crScopes cr else scopes) now
              (specExpiry R (crParentType cr) (crChildType cr) now)) R granted R1 \<and>
            res = Some (settled ConsentApproved now cr) \<and>
            R' = R1\<lparr>bkRequests := approveAll oid granted now (bkRequests R)\<rparr>))"

definition specApprovePending :: "string \<Rightarrow> broker \<Rightarrow> ConsentRequest option \<Rightarrow> broker \<Rightarrow> bool" where
  "specApprovePending oid R res R' \<longleftrightarrow>
     (case bkRequests R oid of
        None \<Rightarrow> res = None \<and> R' = R
      | Some cr \<Rightarrow>
          if crStatus cr \<noteq> ConsentPending then res = Some cr \<and> R' = R
          else (\<exists>now. res = Some (settled ConsentApproved now cr) \<and>
                  R' = R\<lparr>bkRequests := (bkRequests R)(oid \<mapsto> settled ConsentApproved now cr)\<rparr>))"

lemma specResolve_approveI:
  assumes "bkRequests R oid = Some cr" and "crStatus cr = ConsentPending" and "u = [] \<or> crUserID cr = u"
    and "specUpsert (grantOf cr (if scopes = None then crScopes cr else scopes) now
      (specExpiry R (crParentType cr) (crChildType cr) now)) R granted R1"
    and "R' = R1\<lparr>bkRequests := approveAll oid granted now (bkRequests R)\<rparr>"
  shows "specResolve oid u True scopes R (Some (settled ConsentApproved now cr)) R'"
proof -
  have "\<not> (u \<noteq> [] \<and> crUserID cr \<noteq> u)" using assms(3) by blast
  then have "specResolve oid u True scopes R res R' \<longleftrightarrow> (\<exists>now granted R1.
      specUpsert (grantOf cr (if scopes = None then crScopes cr else scopes) now
        (specExpiry R (crParentType cr) (crChildType cr) now)) R granted R1 \<and>
      res = Some (settled ConsentApproved now cr) \<and> R' = R1\<lparr>bkRequests := approveAll oid granted now (bkRequests R)\<rparr>)" for res
    unfolding specResolve_def assms(1) option.case by (simp only: assms(2) if_False if_True simp_thms)
  then show ?thesis using assms(4,5) by blast
qed

lemma settled_simps [simp]:
  "crID (settled st now cr) = crID cr" "crStatus (settled st now cr) = st" "crScopes (settled st now cr) = crScopes cr"
  "reqOpenKey (settled st now cr) = reqOpenKey cr" "reqEdge (settled st now cr) = reqEdge cr"
  by (simp_all add: settled_def)

lemma freshRequest_simps [simp]:
  "crID (freshRequest oid t req) = oid" "crStatus (freshRequest oid t req) = ConsentPending"
  "reqOpenKey (freshRequest oid t req) = reqOpenKey req" "crScopes (freshRequest oid t req) = nonNil (crScopes req)"
  by (simp_all add: freshRequest_def)

section \<open>The table as an abstract broker\<close>

definition absTable :: "table \<Rightarrow> broker" where
  "absTable T = \<lparr>bkTemplates = tplView T, bkRequests = requestView T, bkConsents = consentView T\<rparr>"

lemma absTable_simps [simp]:
  "bkTemplates (absTable T) = tplView T" "bkRequests (absTable T) = requestView T" "bkConsents (absTable T) = consentView T"
  by (simp_all add: absTable_def)

text \<open>
  The invariant of the table: every pending request owns the marker of its slot, so a slot has at
  most one, and every marker points at a request of its slot. A marker may be stale, pointing at a
  request that is resolved.
\<close>

definition ownsMarkers :: "table \<Rightarrow> bool" where
  "ownsMarkers T \<longleftrightarrow> (\<forall>rid cr. requestView T rid = Some cr \<and> crStatus cr = ConsentPending \<longrightarrow>
     openView T (reqOpenKey cr) = Some rid) \<and>
   (\<forall>key rid. openView T key = Some rid \<longrightarrow> (\<exists>cr. requestView T rid = Some cr \<and> reqOpenKey cr = key))"

definition dynInv :: "table \<Rightarrow> bool" where
  "dynInv T \<longleftrightarrow> wfTable T \<and> ownsMarkers T \<and> (\<forall>rid cr. requestView T rid = Some cr \<longrightarrow> crScopes cr \<noteq> None)"

lemma dynInvD:
  assumes "dynInv T"
  shows "wfTable T"
    and "requestView T rid = Some cr \<Longrightarrow> crStatus cr = ConsentPending \<Longrightarrow> openView T (reqOpenKey cr) = Some rid"
    and "requestView T rid = Some cr \<Longrightarrow> crScopes cr \<noteq> None"
    and "requestView T rid = Some cr \<Longrightarrow> crID cr = rid"
    and "openView T key = Some rid \<Longrightarrow> \<exists>cr. requestView T rid = Some cr \<and> reqOpenKey cr = key"
  using assms view_iff(5) [of T rid cr] by (auto simp: dynInv_def ownsMarkers_def)

lemma requestView_id: "wfTable T \<Longrightarrow> requestView T rid = Some cr \<Longrightarrow> crID cr = rid"
  by (simp add: view_iff)

text \<open>The writes of the broker and the views.\<close>

lemma put_request:
  assumes "represents it (ERequest cr)" and "crID cr = rid"
  shows "tplView (T((creqPK rid, skMeta) \<mapsto> it)) = tplView T"
    "requestView (T((creqPK rid, skMeta) \<mapsto> it)) = (requestView T)(rid \<mapsto> cr)"
    "consentView (T((creqPK rid, skMeta) \<mapsto> it)) = consentView T"
    "openView (T((creqPK rid, skMeta) \<mapsto> it)) = openView T"
    "wfTable T \<Longrightarrow> wfTable (T((creqPK rid, skMeta) \<mapsto> it))"
  using view_put [OF assms(1), of T] wfTable_put [OF _ assms(1)] assms(2) by simp_all

lemma put_consent:
  assumes "represents it (EConsent rec)" and "recKey rec = edge"
  shows "tplView (T((conPK edge, skMeta) \<mapsto> it)) = tplView T"
    "requestView (T((conPK edge, skMeta) \<mapsto> it)) = requestView T"
    "consentView (T((conPK edge, skMeta) \<mapsto> it)) = (consentView T)(edge \<mapsto> rec)"
    "openView (T((conPK edge, skMeta) \<mapsto> it)) = openView T"
    "wfTable T \<Longrightarrow> wfTable (T((conPK edge, skMeta) \<mapsto> it))"
  using view_put [OF assms(1), of T] wfTable_put [OF _ assms(1)] assms(2) by simp_all

lemma put_open:
  "tplView (T((openPK key, skMeta) \<mapsto> openItem key rid)) = tplView T"
  "requestView (T((openPK key, skMeta) \<mapsto> openItem key rid)) = requestView T"
  "consentView (T((openPK key, skMeta) \<mapsto> openItem key rid)) = consentView T"
  "openView (T((openPK key, skMeta) \<mapsto> openItem key rid)) = (openView T)(key \<mapsto> rid)"
  "wfTable T \<Longrightarrow> wfTable (T((openPK key, skMeta) \<mapsto> openItem key rid))"
  using view_put [OF represents_self, of T "EOpen key rid"] wfTable_put [OF _ represents_self, of T "EOpen key rid"] by simp_all

lemma del_open:
  "tplView (T((openPK key, skMeta) := None)) = tplView T"
  "requestView (T((openPK key, skMeta) := None)) = requestView T"
  "consentView (T((openPK key, skMeta) := None)) = consentView T"
  "openView (T((openPK key, skMeta) := None)) = (openView T)(key := None)"
  by (auto intro!: ext simp: view_upd)

text \<open>Settling a request, dropping the marker of a request that is not pending, and writing a grant keep the invariant.\<close>

lemma settle_inv:
  assumes "dynInv T" and "requestView T rid = Some cr" and "represents it (ERequest (settled st now cr))" and "st \<noteq> ConsentPending"
  shows "dynInv (T((creqPK rid, skMeta) \<mapsto> it))"
proof -
  have id: "crID (settled st now cr) = rid" using dynInvD(4) [OF assms(1,2)] by simp
  show ?thesis
    using assms dynInvD(3) [OF assms(1,2)] unfolding dynInv_def ownsMarkers_def
    by (auto simp: put_request [OF assms(3) id]) fastforce
qed

lemma free_inv:
  assumes "dynInv T" and "openView T key = Some rid" and "\<And>cr. requestView T rid = Some cr \<Longrightarrow> crStatus cr \<noteq> ConsentPending"
  shows "dynInv (T((openPK key, skMeta) := None))"
  using assms wfTable_del [of T] unfolding dynInv_def ownsMarkers_def by (auto simp: del_open)

lemma grant_inv:
  assumes "dynInv T" and "represents it (EConsent rec)" and "recKey rec = edge"
  shows "dynInv (T((conPK edge, skMeta) \<mapsto> it))"
  using assms unfolding dynInv_def ownsMarkers_def by (auto simp: put_consent [OF assms(2,3)])

lemma create_inv:
  assumes "dynInv T" and "openView T (reqOpenKey req) = None" and "requestView T oid = None"
  shows "dynInv (T((openPK (reqOpenKey req), skMeta) \<mapsto> openItem (reqOpenKey req) oid,
    (creqPK oid, skMeta) \<mapsto> creqItem (freshRequest oid created req)))"
proof -
  have rep: "represents (creqItem (freshRequest oid created req)) (ERequest (freshRequest oid created req))"
    by (simp add: represents_def)
  have id: "crID (freshRequest oid created req) = oid" by simp
  have "requestView T rid = Some cr \<Longrightarrow> crStatus cr = ConsentPending \<Longrightarrow> reqOpenKey cr \<noteq> reqOpenKey req" for rid cr
    using dynInvD(2) [OF assms(1)] assms(2) by force
  then show ?thesis
    using assms unfolding dynInv_def ownsMarkers_def
    by (auto simp: put_request [OF rep id] put_open nonNil_def split: option.splits) force+
qed

section \<open>The operations on a service without faults\<close>

lemma statusString_inject [simp]: "statusString a = statusString b \<longleftrightarrow> a = b"
  by (cases a; cases b) simp_all

lemma statusString_pending [simp]: "statusString st = ''pending'' \<longleftrightarrow> st = ConsentPending"
  by (cases st) simp_all

lemma evalCond_pivot:
  assumes "wfTable T"
  shows "evalCond (pivotCond userID) (T (creqPK rid, skMeta)) \<longleftrightarrow>
    (\<exists>cr. requestView T rid = Some cr \<and> crStatus cr = ConsentPending \<and> (userID = [] \<or> crUserID cr = userID))"
proof (cases "T (creqPK rid, skMeta)")
  case None
  then show ?thesis by (simp add: pivotCond_def stillPending_def requestView_def viewAt_def)
next
  case (Some it)
  then obtain cr where cr: "crID cr = rid" "gget it = gget (creqItem cr)" using wfTable_item(5) [OF assms] by blast
  then have "requestView T rid = Some cr" using view_iff(5) [OF assms] Some by blast
  moreover have "ConsentPending = crStatus cr \<longleftrightarrow> crStatus cr = ConsentPending" by auto
  ultimately show ?thesis using Some cr by (auto simp: pivotCond_def stillPending_def gget_creqItem)
qed

lemma pivotCond_Nil: "pivotCond [] = stillPending"
  by (simp add: pivotCond_def)

lemma evalCond_marker:
  assumes "wfTable T"
  shows "evalCond (CEq ''requestId'' (AVS rid)) (T (openPK key, skMeta)) \<longleftrightarrow> openView T key = Some rid"
proof (cases "T (openPK key, skMeta)")
  case (Some it)
  then obtain r where r: "gget it = gget (openItem key r)" using wfTable_item(6) [OF assms] by blast
  then have "openView T key = Some r" using view_iff(6) [OF assms] Some by blast
  then show ?thesis using Some r by (auto simp: openItem_def)
qed (simp add: openView_def)

text \<open>Freeing a marker removes it when it still points at the request.\<close>

definition freed :: "string \<Rightarrow> string \<Rightarrow> table \<Rightarrow> table" where
  "freed key rid T = (if openView T key = Some rid then T((openPK key, skMeta) := None) else T)"

lemma freed_views:
  "tplView (freed key rid T) = tplView T" "requestView (freed key rid T) = requestView T"
  "consentView (freed key rid T) = consentView T"
  by (simp_all add: freed_def del_open)

lemma freed_inv:
  "dynInv T \<Longrightarrow> (\<And>cr. requestView T rid = Some cr \<Longrightarrow> crStatus cr \<noteq> ConsentPending) \<Longrightarrow> dynInv (freed key rid T)"
  using free_inv [of T key rid] by (simp add: freed_def)

lemma freed_none:
  "wfTable T \<Longrightarrow> openView T key = Some rid \<Longrightarrow> openView (freed key rid T) key = None"
  by (simp add: freed_def del_open)

text \<open>The effect of a sweep over a list of requests.\<close>

definition sweepMap ::
  "string \<Rightarrow> ConsentRecord \<Rightarrow> time \<Rightarrow> ConsentRequest list \<Rightarrow> (string \<rightharpoonup> ConsentRequest) \<Rightarrow> string \<rightharpoonup> ConsentRequest" where
  "sweepMap oid granted now others m =
     (\<lambda>rid. case m rid of
        None \<Rightarrow> None
      | Some cr \<Rightarrow>
          Some (if cr \<in> set others \<and> rid \<noteq> oid \<and> crStatus cr = ConsentPending \<and>
                   cdGranted (EvaluateConsent granted (crScopes cr) now)
                then settled ConsentApproved now cr else cr))"

context dynamo_service
begin

lemma run_request:
  assumes "wfTable (tbl d)"
  shows "run C (getConsentRequest_ddb rid c) d = (Inr (requestView (tbl d) rid), d)"
  unfolding getConsentRequest_ddb_def requestView_def
  by (rule run_view) (use wfTable_item(5) [OF assms] decode_item(6) in blast)

lemma run_template:
  assumes "wfTable (tbl d)"
  shows "run C (GetTemplate_ddb ty) d = (Inr (tplView (tbl d) ty), d)"
  unfolding GetTemplate_ddb_def tplView_def
  by (rule run_view) (use wfTable_item(1) [OF assms] decode_item(1) in blast)

lemma run_consent:
  assumes "wfTable (tbl d)"
  shows "run C (FindConsent_ddb u p c) d = (Inr (consentView (tbl d) (ConsentEdgeKey u p c)), d)"
  unfolding FindConsent_ddb_def consentView_def
  by (rule run_view) (use wfTable_item(4) [OF assms] decode_item(5) in blast)

lemma run_expiry:
  "wfTable (tbl d) \<Longrightarrow> run C (ConsentExpiry_ddb p c t) d = (Inr (specExpiry (absTable (tbl d)) p c t), d)"
  by (simp add: ConsentExpiry_ddb_def run_bindP run_template specExpiry_def split: option.split)

lemma run_readOpen:
  assumes "wfTable (tbl d)"
  shows "run C (readOpenRequest key) d =
    (Inr (case openView (tbl d) key of None \<Rightarrow> (None, []) | Some rid \<Rightarrow> (requestView (tbl d) rid, rid)), d)"
proof (cases "tbl d (openPK key, skMeta)")
  case None
  then show ?thesis by (simp add: readOpenRequest_def get openView_def)
next
  case (Some it)
  then obtain r where r: "gget it = gget (openItem key r)" using wfTable_item(6) [OF assms] by blast
  then have "openView (tbl d) key = Some r" "fieldOk isStrAV it ''requestId''" "strOf ''requestId'' it = r"
    using view_iff(6) [OF assms] Some decode_open by (auto simp: fieldOk_def openItem_def)
  then show ?thesis using Some by (simp add: readOpenRequest_def get run_bindP run_request [OF assms])
qed

lemma run_deleteMarker:
  assumes "wfTable (tbl d)"
  shows "\<exists>d'. run C (deleteOpenMarkerIf key rid) d = (None, d') \<and> tbl d' = freed key rid (tbl d)"
proof -
  let ?c = "CEq ''requestId'' (AVS rid)" and ?k = "(openPK key, skMeta)"
  note cond = evalCond_marker [OF assms, of rid key]
  obtain r d' where run: "cDeleteItem C ?k ?c d = (r, d')" by (cases "cDeleteItem C ?k ?c d")
  show ?thesis
  proof (cases "evalCond ?c (tbl d ?k)")
    case True
    then have "r = Inr (tbl d ?k)" "tbl d' = (tbl d)(?k := None)" using delete [OF True] run by auto
    then show ?thesis using run cond True by (simp add: deleteOpenMarkerIf_def freed_def)
  next
    case False
    then have "r = Inl ConditionalCheckFailedException" "tbl d' = tbl d" using delete_failed [OF False] run by auto
    then show ?thesis using run cond False by (simp add: deleteOpenMarkerIf_def freed_def isCondFailed_def)
  qed
qed

lemma run_freeMarker:
  "wfTable (tbl d) \<Longrightarrow> \<exists>d'. run C (freeOpenMarker key rid) d = ((), d') \<and> tbl d' = freed key rid (tbl d)"
  using run_deleteMarker [of d key rid] by (fastforce simp: freeOpenMarker_def run_bindP)

text \<open>One attempt of a create.\<close>

lemma run_create_free:
  assumes wf: "wfTable (tbl d)" and free: "openView (tbl d) (reqOpenKey req) = None"
  shows "\<exists>oid created d'. run C (createLoop (reqOpenKey req) req (Suc n)) d = (Inr (freshRequest oid created req, True), d') \<and>
    tbl d' = (tbl d)((openPK (reqOpenKey req), skMeta) \<mapsto> openItem (reqOpenKey req) oid,
      (creqPK oid, skMeta) \<mapsto> creqItem (freshRequest oid created req))"
proof -
  let ?key = "reqOpenKey req"
  obtain oid d1 where d1: "run C (genID ''creq'') d = (oid, d1)" "tbl d1 = tbl d" using run_genID by blast
  obtain t d2 where d2: "cNow C d1 = (t, d2)" "tbl d2 = tbl d" using now [of d1] d1 by (cases "cNow C d1") auto
  let ?cr = "freshRequest oid t req"
  let ?ws = "[TPut (openItem ?key oid) (CNotExists ''pk''), TPut (creqItem ?cr) CTrue]"
  have keys: "itemKey (openItem ?key oid) = (openPK ?key, skMeta)" "itemKey (creqItem ?cr) = (creqPK oid, skMeta)"
    using itemKey_entItem [of "EOpen ?key oid"] itemKey_entItem [of "ERequest ?cr"] by simp_all
  have "tbl d (openPK ?key, skMeta) = None" using free by (simp add: openView_def)
  then have "txnHolds ?ws (tbl d2)" "distinct (map twKey ?ws)" "\<forall>w \<in> set ?ws. twItem w (tbl d2) \<noteq> None"
    using d2(2) by (simp_all add: txnHolds_def keys)
  then have "fst (cTransact C ?ws d2) = None \<and> tbl (snd (cTransact C ?ws d2)) = txnApply ?ws (tbl d2)" by (rule transact)
  then obtain d3 where d3: "cTransact C ?ws d2 = (None, d3)"
      "tbl d3 = (tbl d)((openPK ?key, skMeta) \<mapsto> openItem ?key oid, (creqPK oid, skMeta) \<mapsto> creqItem ?cr)"
    using d2(2) by (cases "cTransact C ?ws d2") (simp add: txnApply_def keys)
  show ?thesis
    using d1 d2 d3 by (simp add: run_bindP createWrites_def createOutcome_def del: fun_upd_apply) blast
qed

lemma run_create_taken:
  assumes wf: "wfTable (tbl d)" and taken: "openView (tbl d) (reqOpenKey req) = Some rid"
  shows "\<exists>d1. tbl d1 = tbl d \<and> run C (createLoop (reqOpenKey req) req (Suc n)) d =
    (case requestView (tbl d) rid of
       Some cr \<Rightarrow> if crStatus cr = ConsentPending then (Inr (cr, False), d1)
         else run C (clearStale (reqOpenKey req) rid (createLoop (reqOpenKey req) req n)) d1
     | None \<Rightarrow> run C (clearStale (reqOpenKey req) rid (createLoop (reqOpenKey req) req n)) d1)"
proof -
  let ?key = "reqOpenKey req"
  obtain oid d1 where d1: "run C (genID ''creq'') d = (oid, d1)" "tbl d1 = tbl d" using run_genID by blast
  obtain t d2 where d2: "cNow C d1 = (t, d2)" "tbl d2 = tbl d" using now [of d1] d1 by (cases "cNow C d1") auto
  let ?cr = "freshRequest oid t req"
  let ?ws = "[TPut (openItem ?key oid) (CNotExists ''pk''), TPut (creqItem ?cr) CTrue]"
  obtain it where it: "tbl d (openPK ?key, skMeta) = Some it" "gget it = gget (openItem ?key rid)"
    using taken view_iff(6) [OF wf] by blast
  have "itemKey (openItem ?key oid) = (openPK ?key, skMeta)" using itemKey_entItem [of "EOpen ?key oid"] by simp
  then have "\<not> txnHolds ?ws (tbl d2)" using it d2(2) by (simp add: txnHolds_def openItem_def)
  from transact_failed [OF this] obtain rs d3 where d3: "cTransact C ?ws d2 = (Some (TransactionCanceledException rs), d3)"
      "Some ''ConditionalCheckFailed'' \<in> set rs" "tbl d3 = tbl d"
    using d2(2) by (cases "cTransact C ?ws d2") auto
  have wf3: "wfTable (tbl d3)" using wf d3(3) by simp
  have ro: "run C (readOpenRequest ?key) d3 = (Inr (requestView (tbl d) rid, rid), d3)"
    using run_readOpen [OF wf3, of ?key] d3(3) taken by simp
  have "run C (createLoop ?key req (Suc n)) d = run C (slotTaken ?key (createLoop ?key req n)) d3"
    using d1 d2 d3(1,2) by (simp add: run_bindP createWrites_def createOutcome_def isTxnCondFailed_def)
  then show ?thesis
    using d3(3) by (intro exI [of _ d3]) (simp add: slotTaken_def run_bindP ro split: option.split)
qed

lemma run_create:
  assumes inv: "dynInv (tbl d)"
  shows "\<exists>res d'. run C (CreateConsentRequest_ddb req) d = (Inr res, d') \<and>
    specCreate req (absTable (tbl d)) res (absTable (tbl d')) \<and>
    (snd res \<and> requestView (tbl d) (crID (fst res)) \<noteq> None \<or> dynInv (tbl d'))"
proof -
  let ?key = "reqOpenKey req"
  note wf = dynInvD(1) [OF inv]
  have created: "\<exists>res d'. run C (createLoop ?key req (Suc n)) d1 = (Inr res, d') \<and>
      specCreate req (absTable (tbl d)) res (absTable (tbl d')) \<and>
      (snd res \<and> requestView (tbl d) (crID (fst res)) \<noteq> None \<or> dynInv (tbl d'))"
    if d1: "dynInv (tbl d1)" "openView (tbl d1) ?key = None" and same: "absTable (tbl d1) = absTable (tbl d)"
      and none: "\<nexists>cr. pendingOn (absTable (tbl d)) ?key cr" for d1 n
  proof -
    obtain oid t d' where run: "run C (createLoop ?key req (Suc n)) d1 = (Inr (freshRequest oid t req, True), d')"
      "tbl d' = (tbl d1)((openPK ?key, skMeta) \<mapsto> openItem ?key oid, (creqPK oid, skMeta) \<mapsto> creqItem (freshRequest oid t req))"
      using run_create_free [OF dynInvD(1) [OF d1(1)] d1(2)] by blast
    have rep: "represents (creqItem (freshRequest oid t req)) (ERequest (freshRequest oid t req))" by (simp add: represents_def)
    have views: "requestView (tbl d1) = requestView (tbl d)" "consentView (tbl d1) = consentView (tbl d)" "tplView (tbl d1) = tplView (tbl d)"
      using same by (simp_all add: absTable_def)
    have "absTable (tbl d') = (absTable (tbl d))\<lparr>bkRequests := (requestView (tbl d))(oid \<mapsto> freshRequest oid t req)\<rparr>"
      unfolding absTable_def run(2) by (simp add: put_request [OF rep] put_open views)
    then have "specCreate req (absTable (tbl d)) (freshRequest oid t req, True) (absTable (tbl d'))"
      using none by (auto simp: specCreate_def)
    moreover have "requestView (tbl d) oid = None \<Longrightarrow> dynInv (tbl d')"
      using create_inv [OF d1] views run(2) by simp
    ultimately show ?thesis using run(1) by fastforce
  qed
  show ?thesis
  proof (cases "openView (tbl d) ?key")
    case None
    have "\<not> pendingOn (absTable (tbl d)) ?key cr" for cr
      using dynInvD(2) [OF inv, of "crID cr" cr] None by (auto simp: pendingOn_def)
    then show ?thesis using created [OF inv None refl, of 4] by (simp add: CreateConsentRequest_ddb_def txnConflictBudget_def)
  next
    case (Some rid)
    then obtain cr where cr: "requestView (tbl d) rid = Some cr" "reqOpenKey cr = ?key" using dynInvD(5) [OF inv] by blast
    show ?thesis
    proof (cases "crStatus cr = ConsentPending")
      case True
      then obtain d1 where d1: "tbl d1 = tbl d" "run C (createLoop ?key req (Suc 4)) d = (Inr (cr, False), d1)"
        using run_create_taken [OF wf Some, of 4] cr by auto
      have "pendingOn (absTable (tbl d)) ?key cr" using cr True dynInvD(4) [OF inv cr(1)] by (simp add: pendingOn_def)
      then have "specCreate req (absTable (tbl d)) (cr, False) (absTable (tbl d1))" using d1(1) by (auto simp: specCreate_def)
      moreover have "dynInv (tbl d1)" using inv d1(1) by simp
      ultimately show ?thesis using d1(2) by (auto simp: CreateConsentRequest_ddb_def txnConflictBudget_def)
    next
      case False
      then obtain d1 where d1: "tbl d1 = tbl d" "run C (createLoop ?key req (Suc 4)) d =
          run C (clearStale ?key rid (createLoop ?key req 4)) d1"
        using run_create_taken [OF wf Some, of 4] cr by auto
      obtain d2 where d2: "run C (deleteOpenMarkerIf ?key rid) d1 = (None, d2)" "tbl d2 = freed ?key rid (tbl d)"
        using run_deleteMarker [of d1 ?key rid] d1(1) wf by auto
      have "\<not> pendingOn (absTable (tbl d)) ?key c" for c
        using dynInvD(2) [OF inv, of "crID c" c] Some cr False by (auto simp: pendingOn_def)
      moreover have "dynInv (tbl d2)" using freed_inv [OF inv, of rid ?key] cr False d2(2) by simp
      moreover have "openView (tbl d2) ?key = None" using freed_none [OF wf Some] d2(2) by simp
      moreover have "absTable (tbl d2) = absTable (tbl d)" by (simp add: absTable_def d2(2) freed_views)
      ultimately show ?thesis using created [of d2 3] d1(2) d2(1)
        by (simp add: CreateConsentRequest_ddb_def clearStale_def txnConflictBudget_def run_bindP numeral_eq_Suc)
    qed
  qed
qed

text \<open>Grants: the upsert as a single update or as part of a transaction.\<close>

lemma upsert_item:
  assumes "wfTable T"
  shows "\<exists>it cid. updateItem (conPK (recKey rec), skMeta) (upsertActions cand rec) (T (conPK (recKey rec), skMeta)) = Some it \<and>
    represents it (EConsent (storedGrant cid rec)) \<and>
    cid = (case consentView T (recKey rec) of None \<Rightarrow> cand | Some old \<Rightarrow> conID old)"
proof (cases "T (conPK (recKey rec), skMeta)")
  case None
  then show ?thesis using consent_upsert [where io = None and cid = cand and cand = cand and rec = rec] by (auto simp: consentView_def viewAt_def)
next
  case (Some it)
  then obtain old where old: "recKey old = recKey rec" "gget it = gget (consentItem old)" using wfTable_item(4) [OF assms] by blast
  then have "consentView T (recKey rec) = Some old" using view_iff(4) [OF assms] Some by blast
  then show ?thesis using consent_upsert [where io = "Some it" and cid = "conID old" and cand = cand and rec = rec] Some old by auto
qed

lemma run_upsertUpdate:
  "\<exists>cand d'. run C (consentUpsertUpdate rec) d = ((recKey rec, upsertActions cand rec), d') \<and> tbl d' = tbl d"
  using run_genID [of "''consent''" d] by (auto simp: consentUpsertUpdate_def run_bindP)

lemma run_upsert:
  assumes inv: "dynInv (tbl d)"
  shows "\<exists>g d'. run C (UpsertConsent_ddb rec) d = (Inr g, d') \<and> specUpsert rec (absTable (tbl d)) g (absTable (tbl d')) \<and> dynInv (tbl d')"
proof -
  note wf = dynInvD(1) [OF inv]
  obtain cand d1 where d1: "run C (consentUpsertUpdate rec) d = ((recKey rec, upsertActions cand rec), d1)" "tbl d1 = tbl d"
    using run_upsertUpdate by blast
  obtain it cid where it: "updateItem (conPK (recKey rec), skMeta) (upsertActions cand rec) (tbl d (conPK (recKey rec), skMeta)) = Some it"
      "represents it (EConsent (storedGrant cid rec))" "cid = (case consentView (tbl d) (recKey rec) of None \<Rightarrow> cand | Some old \<Rightarrow> conID old)"
    using upsert_item [OF wf] by blast
  have "fst (cUpdateItem C (conPK (recKey rec), skMeta) CTrue (upsertActions cand rec) d1) = Inr it \<and>
      tbl (snd (cUpdateItem C (conPK (recKey rec), skMeta) CTrue (upsertActions cand rec) d1)) = (tbl d)((conPK (recKey rec), skMeta) \<mapsto> it)"
    using update [of CTrue d1 "(conPK (recKey rec), skMeta)" "upsertActions cand rec" it] it(1) d1(2) by simp
  then obtain d2 where d2: "cUpdateItem C (conPK (recKey rec), skMeta) CTrue (upsertActions cand rec) d1 = (Inr it, d2)"
      "tbl d2 = (tbl d)((conPK (recKey rec), skMeta) \<mapsto> it)" by (metis prod.collapse)
  have key: "recKey (storedGrant cid rec) = recKey rec" by simp
  have "absTable (tbl d2) = (absTable (tbl d))\<lparr>bkConsents := (consentView (tbl d))(recKey rec \<mapsto> storedGrant cid rec)\<rparr>"
    by (simp add: absTable_def d2(2) put_consent [OF it(2) key])
  then have "specUpsert rec (absTable (tbl d)) (storedGrant cid rec) (absTable (tbl d2))"
    using it(3) by (auto simp: specUpsert_def)
  moreover have "dynInv (tbl d2)" using grant_inv [OF inv it(2) key] d2(2) by simp
  ultimately show ?thesis using d1(1) d2(1) rep_decode(4) [OF it(2)] by (auto simp: UpsertConsent_ddb_def run_bindP)
qed

text \<open>The pivot of a request, when its condition holds and when it does not.\<close>

lemma pivot_item:
  assumes "wfTable T" and "requestView T rid = Some cr"
  shows "\<exists>it. updateItem (creqPK rid, skMeta) (pivotActions st now) (T (creqPK rid, skMeta)) = Some it \<and>
    represents it (ERequest (settled st now cr))"
proof -
  obtain it where it: "T (creqPK rid, skMeta) = Some it" "gget it = gget (creqItem cr)" using assms view_iff(5) by blast
  then show ?thesis using request_pivot [OF it(2), of st now] by (simp add: settled_def)
qed

lemma run_pivot:
  assumes wf: "wfTable (tbl d)" and cr: "requestView (tbl d) rid = Some cr" "crStatus cr = ConsentPending" "u = [] \<or> crUserID cr = u"
  shows "\<exists>it d'. cUpdateItem C (creqPK rid, skMeta) (pivotCond u) (pivotActions st now) d = (Inr it, d') \<and>
    represents it (ERequest (settled st now cr)) \<and> tbl d' = (tbl d)((creqPK rid, skMeta) \<mapsto> it)"
proof -
  have c: "evalCond (pivotCond u) (tbl d (creqPK rid, skMeta))" using evalCond_pivot [OF wf] cr by blast
  obtain it where it: "updateItem (creqPK rid, skMeta) (pivotActions st now) (tbl d (creqPK rid, skMeta)) = Some it"
      "represents it (ERequest (settled st now cr))" using pivot_item [OF wf cr(1)] by blast
  have "fst (cUpdateItem C (creqPK rid, skMeta) (pivotCond u) (pivotActions st now) d) = Inr it \<and>
    tbl (snd (cUpdateItem C (creqPK rid, skMeta) (pivotCond u) (pivotActions st now) d)) = (tbl d)((creqPK rid, skMeta) \<mapsto> it)"
    using update [OF c it(1)] .
  then show ?thesis using it(2) by (metis prod.collapse)
qed

lemma run_pivot_failed:
  assumes wf: "wfTable (tbl d)" and cr: "requestView (tbl d) rid = Some cr" "crStatus cr \<noteq> ConsentPending"
  shows "\<exists>d'. cUpdateItem C (creqPK rid, skMeta) (pivotCond u) acts d = (Inl ConditionalCheckFailedException, d') \<and> tbl d' = tbl d"
proof -
  have "\<not> evalCond (pivotCond u) (tbl d (creqPK rid, skMeta))" using evalCond_pivot [OF wf] cr by auto
  from update_failed [OF this, of acts] show ?thesis by (metis prod.collapse)
qed

lemma run_recover:
  "wfTable (tbl d) \<Longrightarrow> requestView (tbl d) rid = Some cr \<Longrightarrow> crStatus cr \<noteq> ConsentPending \<Longrightarrow>
   run C (resolveRecover rid) d = (Inr (Some cr), d)"
  by (simp add: resolveRecover_def run_bindP run_request)

text \<open>A request that was settled and whose marker was freed.\<close>

lemma settled_free:
  assumes inv: "dynInv T" and cr: "requestView T rid = Some cr"
    and it: "represents it (ERequest (settled st now cr))" and st: "st \<noteq> ConsentPending"
    and T': "T' = freed key rid (T((creqPK rid, skMeta) \<mapsto> it))"
  shows "dynInv T' \<and> requestView T' = (requestView T)(rid \<mapsto> settled st now cr) \<and>
    consentView T' = consentView T \<and> tplView T' = tplView T"
proof -
  have id: "crID (settled st now cr) = rid" using dynInvD(4) [OF inv cr] by simp
  have "dynInv (T((creqPK rid, skMeta) \<mapsto> it))" by (rule settle_inv [OF inv cr it st])
  then have "dynInv T'" unfolding T' by (rule freed_inv) (use st in \<open>auto simp: put_request [OF it id]\<close>)
  then show ?thesis by (simp add: T' freed_views put_request [OF it id])
qed

lemma run_approvePending:
  assumes inv: "dynInv (tbl d)"
  shows "\<exists>res d'. run C (ApprovePendingConsentRequest_ddb oid) d = (Inr res, d') \<and>
    specApprovePending oid (absTable (tbl d)) res (absTable (tbl d')) \<and> dynInv (tbl d')"
proof (cases "requestView (tbl d) oid")
  case None
  then show ?thesis using inv
    by (simp add: ApprovePendingConsentRequest_ddb_def GetConsentRequest_ddb_def run_bindP run_request dynInvD(1) specApprovePending_def)
next
  case (Some cr)
  note wf = dynInvD(1) [OF inv]
  show ?thesis
  proof (cases "crStatus cr = ConsentPending")
    case False
    then show ?thesis using inv Some wf
      by (simp add: ApprovePendingConsentRequest_ddb_def GetConsentRequest_ddb_def run_bindP run_request specApprovePending_def)
  next
    case True
    obtain t d1 where d1: "cNow C d = (t, d1)" "tbl d1 = tbl d" using now [of d] by (cases "cNow C d") auto
    obtain it d2 where d2: "cUpdateItem C (creqPK oid, skMeta) stillPending (pivotActions ConsentApproved t) d1 = (Inr it, d2)"
        "represents it (ERequest (settled ConsentApproved t cr))" "tbl d2 = (tbl d)((creqPK oid, skMeta) \<mapsto> it)"
      using run_pivot [of d1 oid cr "[]" ConsentApproved t] wf Some True d1(2) by (auto simp: pivotCond_Nil)
    have "wfTable (tbl d2)" using put_request(5) [OF d2(2) _ wf, of oid] dynInvD(4) [OF inv Some] d2(3) by simp
    then obtain d3 where d3: "run C (freeOpenMarker (reqOpenKey cr) oid) d2 = ((), d3)"
        "tbl d3 = freed (reqOpenKey cr) oid (tbl d2)" using run_freeMarker by blast
    note fin = settled_free [OF inv Some d2(2) _ d3(2) [unfolded d2(3)]]
    then have "specApprovePending oid (absTable (tbl d)) (Some (settled ConsentApproved t cr)) (absTable (tbl d3))"
      using Some True by (auto simp: specApprovePending_def absTable_def)
    then show ?thesis using fin d1(1) d2(1) d3(1) Some True wf
      by (auto simp: ApprovePendingConsentRequest_ddb_def GetConsentRequest_ddb_def run_bindP run_request settled_def)
  qed
qed

text \<open>The sweep settles the requests of its list that the grant covers and that are still pending.\<close>

lemma run_sweepFlip:
  assumes inv: "dynInv (tbl d)" and cur: "requestView (tbl d) (crID other) = Some cr" "cr = other \<or> crStatus cr \<noteq> ConsentPending"
  shows "\<exists>d'. run C (sweepFlip now other) d = ((), d') \<and> dynInv (tbl d') \<and>
    consentView (tbl d') = consentView (tbl d) \<and> tplView (tbl d') = tplView (tbl d) \<and>
    requestView (tbl d') = (requestView (tbl d))(crID other \<mapsto> if crStatus cr = ConsentPending then settled ConsentApproved now cr else cr)"
proof (cases "crStatus cr = ConsentPending")
  case True
  note wf = dynInvD(1) [OF inv]
  obtain it d1 where d1: "cUpdateItem C (creqPK (crID other), skMeta) stillPending (pivotActions ConsentApproved now) d = (Inr it, d1)"
      "represents it (ERequest (settled ConsentApproved now cr))" "tbl d1 = (tbl d)((creqPK (crID other), skMeta) \<mapsto> it)"
    using run_pivot [OF wf cur(1) True, of "[]" ConsentApproved now] by (auto simp: pivotCond_Nil)
  have "wfTable (tbl d1)" using put_request(5) [OF d1(2) _ wf, of "crID other"] dynInvD(4) [OF inv cur(1)] d1(3) by simp
  then obtain d2 where d2: "run C (freeOpenMarker (reqOpenKey other) (crID other)) d1 = ((), d2)"
      "tbl d2 = freed (reqOpenKey other) (crID other) (tbl d1)" using run_freeMarker by blast
  note fin = settled_free [OF inv cur(1) d1(2) _ d2(2) [unfolded d1(3)]]
  show ?thesis using fin True d1(1) d2(1) by (simp add: sweepFlip_def)
next
  case False
  then obtain d1 where "cUpdateItem C (creqPK (crID other), skMeta) stillPending (pivotActions ConsentApproved now) d =
      (Inl ConditionalCheckFailedException, d1)" "tbl d1 = tbl d"
    using run_pivot_failed [OF dynInvD(1) [OF inv] cur(1) False, of "[]"] by (auto simp: pivotCond_Nil)
  then show ?thesis using inv cur False by (auto simp: sweepFlip_def fun_upd_idem)
qed

lemma run_sweepLoop:
  assumes "dynInv (tbl d)"
    and "\<forall>other \<in> set others. \<exists>cr. requestView (tbl d) (crID other) = Some cr \<and> (cr = other \<or> crStatus cr \<noteq> ConsentPending)"
  shows "\<exists>d'. run C (sweepLoop oid granted now others) d = ((), d') \<and> dynInv (tbl d') \<and>
    consentView (tbl d') = consentView (tbl d) \<and> tplView (tbl d') = tplView (tbl d) \<and>
    requestView (tbl d') = sweepMap oid granted now others (requestView (tbl d))"
  using assms
proof (induction others arbitrary: d)
  case Nil
  then show ?case by (auto intro!: ext simp: sweepMap_def split: option.split)
next
  case (Cons other others)
  obtain cr where cr: "requestView (tbl d) (crID other) = Some cr" "cr = other \<or> crStatus cr \<noteq> ConsentPending" using Cons.prems by auto
  have idv: "requestView (tbl d) rid = Some c \<Longrightarrow> crID c = rid" for rid c using dynInvD(4) [OF Cons.prems(1)] by blast
  show ?case
  proof (cases "crID other = oid \<or> crStatus other \<noteq> ConsentPending \<or> \<not> cdGranted (EvaluateConsent granted (crScopes other) now)")
    case True
    then have "sweepMap oid granted now (other # others) m = sweepMap oid granted now others m" if "\<forall>rid c. m rid = Some c \<longrightarrow> crID c = rid" for m
      using that by (intro ext) (auto simp: sweepMap_def split: option.split)
    then show ?thesis using Cons.IH [OF Cons.prems(1)] Cons.prems(2) True idv by auto
  next
    case False
    obtain d1 where d1: "run C (sweepFlip now other) d = ((), d1)" "dynInv (tbl d1)"
        "consentView (tbl d1) = consentView (tbl d)" "tplView (tbl d1) = tplView (tbl d)"
        "requestView (tbl d1) = (requestView (tbl d))(crID other \<mapsto> if crStatus cr = ConsentPending then settled ConsentApproved now cr else cr)"
      using run_sweepFlip [OF Cons.prems(1) cr] by blast
    have "\<forall>o' \<in> set others. \<exists>c. requestView (tbl d1) (crID o') = Some c \<and> (c = o' \<or> crStatus c \<noteq> ConsentPending)"
      using Cons.prems(2) by (auto simp: d1(5))
    then obtain d2 where d2: "run C (sweepLoop oid granted now others) d1 = ((), d2)" "dynInv (tbl d2)"
        "consentView (tbl d2) = consentView (tbl d1)" "tplView (tbl d2) = tplView (tbl d1)"
        "requestView (tbl d2) = sweepMap oid granted now others (requestView (tbl d1))"
      using Cons.IH [OF d1(2)] by blast
    have "sweepMap oid granted now others (requestView (tbl d1)) = sweepMap oid granted now (other # others) (requestView (tbl d))"
    proof
      fix rid
      show "sweepMap oid granted now others (requestView (tbl d1)) rid = sweepMap oid granted now (other # others) (requestView (tbl d)) rid"
        using cr False idv by (cases "rid = crID other") (auto simp: sweepMap_def d1(5) split: option.split)
    qed
    then show ?thesis using d1 d2 False by (simp add: run_bindP)
  qed
qed

lemma run_edgeQuery:
  assumes wf: "wfTable (tbl d)"
  shows "\<exists>rs. run C (requestsByEdge edge) d = (Inr rs, d) \<and>
    (\<forall>cr. cr \<in> set rs \<longleftrightarrow> reqEdge cr = edge \<and> requestView (tbl d) (crID cr) = Some cr)"
  using run_entityQuery [of d ERequest unmarshalRequest "\<lparr>qIndex = GSI2, qPK = ''EDGE#'' @ edge, qPrefix = None\<rparr>"
      "\<lambda>cr. reqEdge cr = edge" "\<lambda>cr. True", OF wf rep_decode(5) matches_gsi2(2)] stored_view(5) [OF wf]
  by (simp add: requestsByEdge_def)

lemma run_sweep:
  assumes inv: "dynInv (tbl d)" and oid: "requestView (tbl d) oid = Some (settled ConsentApproved now cr)"
  shows "\<exists>d'. run C (sweep oid granted now) d = ((), d') \<and> dynInv (tbl d') \<and>
    consentView (tbl d') = consentView (tbl d) \<and> tplView (tbl d') = tplView (tbl d) \<and>
    requestView (tbl d') = approveAll oid granted now ((requestView (tbl d))(oid \<mapsto> cr))"
proof -
  obtain rs where rs: "run C (requestsByEdge (recKey granted)) d = (Inr rs, d)"
      "\<forall>c. c \<in> set rs \<longleftrightarrow> reqEdge c = recKey granted \<and> requestView (tbl d) (crID c) = Some c"
    using run_edgeQuery [OF dynInvD(1) [OF inv]] by blast
  then obtain d' where d': "run C (sweepLoop oid granted now rs) d = ((), d')" "dynInv (tbl d')"
      "consentView (tbl d') = consentView (tbl d)" "tplView (tbl d') = tplView (tbl d)"
      "requestView (tbl d') = sweepMap oid granted now rs (requestView (tbl d))"
    using run_sweepLoop [OF inv, of rs oid granted now] by blast
  have "sweepMap oid granted now rs (requestView (tbl d)) rid = approveAll oid granted now ((requestView (tbl d))(oid \<mapsto> cr)) rid" for rid
    using oid rs(2) dynInvD(4) [OF inv, of rid]
    by (cases "requestView (tbl d) rid") (auto simp: sweepMap_def approveAll_def)
  then show ?thesis using d' rs(1) by (auto simp: sweep_def run_bindP)
qed

text \<open>The two branches of a resolve on a request the caller may resolve.\<close>

lemma run_deny:
  assumes inv: "dynInv (tbl d)" and cr: "requestView (tbl d) oid = Some cr" and u: "u = [] \<or> crUserID cr = u"
  shows "\<exists>res d'. run C (denyPivot oid u t cr) d = (Inr res, d') \<and> dynInv (tbl d') \<and>
    (if crStatus cr \<noteq> ConsentPending then res = Some cr \<and> absTable (tbl d') = absTable (tbl d)
     else res = Some (settled ConsentDenied t cr) \<and>
       absTable (tbl d') = (absTable (tbl d))\<lparr>bkRequests := (requestView (tbl d))(oid \<mapsto> settled ConsentDenied t cr)\<rparr>)"
proof (cases "crStatus cr = ConsentPending")
  case False
  note wf = dynInvD(1) [OF inv]
  obtain d1 where d1: "cUpdateItem C (creqPK oid, skMeta) (pivotCond u) (pivotActions ConsentDenied t) d =
      (Inl ConditionalCheckFailedException, d1)" "tbl d1 = tbl d" using run_pivot_failed [OF wf cr False] by blast
  then have "run C (resolveRecover oid) d1 = (Inr (Some cr), d1)" using run_recover [of d1 oid cr] wf cr False by simp
  then show ?thesis using d1 inv False by (simp add: denyPivot_def isCondFailed_def)
next
  case True
  note wf = dynInvD(1) [OF inv]
  obtain it d1 where d1: "cUpdateItem C (creqPK oid, skMeta) (pivotCond u) (pivotActions ConsentDenied t) d = (Inr it, d1)"
      "represents it (ERequest (settled ConsentDenied t cr))" "tbl d1 = (tbl d)((creqPK oid, skMeta) \<mapsto> it)"
    using run_pivot [OF wf cr True u] by blast
  have "wfTable (tbl d1)" using put_request(5) [OF d1(2) _ wf, of oid] dynInvD(4) [OF inv cr] d1(3) by simp
  then obtain d2 where d2: "run C (freeOpenMarker (reqOpenKey cr) oid) d1 = ((), d2)"
      "tbl d2 = freed (reqOpenKey cr) oid (tbl d1)" using run_freeMarker by blast
  note fin = settled_free [OF inv cr d1(2) _ d2(2) [unfolded d1(3)]]
  show ?thesis using fin True d1(1) d2(1)
    by (simp add: denyPivot_def run_bindP absTable_def settled_def [symmetric])
qed

lemma run_retry_once:
  assumes "cTransact C ws d = (r, d')" and "\<forall>x. r = Some x \<longrightarrow> \<not> isTxnConflict x"
  shows "run C (retryOnTxnConflict (TransactWriteItems ws Ret)) d = (r, d')"
  using assms by (cases r) (simp_all add: retryOnTxnConflict_def txnConflictBudget_def numeral_eq_Suc)

text \<open>A transaction whose condition fails is reported as such, also when it is retried as a conflict.\<close>

lemma run_retry_failed:
  assumes "\<not> txnHolds ws (tbl d)"
  shows "\<exists>x d'. run C (retryLoop (Suc n) (TransactWriteItems ws Ret) e) d = (Some x, d') \<and> isTxnCondFailed x \<and> tbl d' = tbl d"
  using assms
proof (induction n arbitrary: d e)
  case 0
  from transact_failed [OF 0] obtain rs d1 where "cTransact C ws d = (Some (TransactionCanceledException rs), d1)"
      "Some ''ConditionalCheckFailed'' \<in> set rs" "tbl d1 = tbl d" by (cases "cTransact C ws d") auto
  then show ?case by (simp add: isTxnCondFailed_def sleep)
next
  case (Suc n)
  from transact_failed [OF Suc.prems] obtain rs d1 where d1: "cTransact C ws d = (Some (TransactionCanceledException rs), d1)"
      "Some ''ConditionalCheckFailed'' \<in> set rs" "tbl d1 = tbl d" by (cases "cTransact C ws d") auto
  let ?x = "TransactionCanceledException rs"
  show ?case
  proof (cases "isTxnConflict ?x")
    case True
    let ?d = "cSleep C ((txnConflictBudget - Suc n) * 20) d1"
    have "\<not> txnHolds ws (tbl ?d)" using Suc.prems d1(3) by (simp add: sleep)
    then show ?thesis using Suc.IH [of ?d "Some ?x"] d1 True by (simp add: sleep)
  qed (use d1 in \<open>simp add: isTxnCondFailed_def\<close>)
qed

lemma run_approve_failed:
  assumes inv: "dynInv (tbl d)" and cr: "requestView (tbl d) oid = Some cr" "crStatus cr \<noteq> ConsentPending"
  shows "\<exists>d'. run C (approvePivot oid u t cr g) d = (Inr (Some cr), d') \<and> tbl d' = tbl d"
proof -
  note wf = dynInvD(1) [OF inv]
  obtain cand d1 where d1: "run C (consentUpsertUpdate g) d = ((recKey g, upsertActions cand g), d1)" "tbl d1 = tbl d"
    using run_upsertUpdate by blast
  let ?ws = "[TUpdate (creqPK oid, skMeta) (pivotCond u) (pivotActions ConsentApproved t), TUpdate (conPK (recKey g), skMeta) CTrue (upsertActions cand g)]"
  have "\<not> txnHolds ?ws (tbl d1)" using evalCond_pivot [OF wf, of u oid] cr d1(2) by (auto simp: txnHolds_def)
  then obtain x d2 where "run C (retryOnTxnConflict (TransactWriteItems ?ws Ret)) d1 = (Some x, d2)" "isTxnCondFailed x" "tbl d2 = tbl d"
    using run_retry_failed [of ?ws d1 4 None] d1(2) by (auto simp: retryOnTxnConflict_def txnConflictBudget_def)
  then show ?thesis using d1(1) run_recover [of d2 oid cr] wf cr by (simp add: approvePivot_def run_bindP)
qed

lemma run_approve:
  assumes inv: "dynInv (tbl d)" and cr: "requestView (tbl d) oid = Some cr" "crStatus cr = ConsentPending" and u: "u = [] \<or> crUserID cr = u"
    and g: "g = grantOf cr sc t ex" "sc \<noteq> None"
  shows "\<exists>d' granted R1. run C (approvePivot oid u t cr g) d = (Inr (Some (settled ConsentApproved t cr)), d') \<and> dynInv (tbl d') \<and>
    specUpsert g (absTable (tbl d)) granted R1 \<and>
    absTable (tbl d') = R1\<lparr>bkRequests := approveAll oid granted t (requestView (tbl d))\<rparr>"
proof -
  note wf = dynInvD(1) [OF inv]
  have key: "recKey g = reqEdge cr" by (simp add: g grantOf_def recKey_def reqEdge_def)
  obtain cand d1 where d1: "run C (consentUpsertUpdate g) d = ((recKey g, upsertActions cand g), d1)" "tbl d1 = tbl d"
    using run_upsertUpdate by blast
  let ?k1 = "(creqPK oid, skMeta)" and ?k2 = "(conPK (recKey g), skMeta)"
  let ?ws = "[TUpdate ?k1 (pivotCond u) (pivotActions ConsentApproved t), TUpdate ?k2 CTrue (upsertActions cand g)]"
  obtain it1 where it1: "updateItem ?k1 (pivotActions ConsentApproved t) (tbl d ?k1) = Some it1"
      "represents it1 (ERequest (settled ConsentApproved t cr))" using pivot_item [OF wf cr(1)] by blast
  obtain it2 cid where it2: "updateItem ?k2 (upsertActions cand g) (tbl d ?k2) = Some it2"
      "represents it2 (EConsent (storedGrant cid g))" "cid = (case consentView (tbl d) (recKey g) of None \<Rightarrow> cand | Some old \<Rightarrow> conID old)"
    using upsert_item [OF wf] by blast
  have "txnHolds ?ws (tbl d1)" using evalCond_pivot [OF wf, of u oid] cr u d1(2) by (auto simp: txnHolds_def)
  then have "fst (cTransact C ?ws d1) = None \<and> tbl (snd (cTransact C ?ws d1)) = txnApply ?ws (tbl d1)"
    by (rule transact) (simp_all add: d1(2) it1(1) it2(1))
  then obtain d2 where d2: "cTransact C ?ws d1 = (None, d2)" "tbl d2 = (tbl d)(?k1 \<mapsto> it1, ?k2 \<mapsto> it2)"
    using d1(2) it1(1) it2(1) by (cases "cTransact C ?ws d1") (simp add: txnApply_def)
  have id: "crID (settled ConsentApproved t cr) = oid" "recKey (storedGrant cid g) = recKey g" using dynInvD(4) [OF inv cr(1)] by simp_all
  have inv2: "dynInv (tbl d2)"
    unfolding d2(2) by (rule grant_inv [OF settle_inv [OF inv cr(1) it1(2)] it2(2) id(2)]) simp
  have v2: "requestView (tbl d2) = (requestView (tbl d))(oid \<mapsto> settled ConsentApproved t cr)"
      "consentView (tbl d2) = (consentView (tbl d))(recKey g \<mapsto> storedGrant cid g)" "tplView (tbl d2) = tplView (tbl d)"
    by (simp_all add: d2(2) put_consent [OF it2(2) id(2)] put_request [OF it1(2) id(1)])
  obtain d3 where d3: "run C (freeOpenMarker (reqOpenKey cr) oid) d2 = ((), d3)" "tbl d3 = freed (reqOpenKey cr) oid (tbl d2)"
    using run_freeMarker [OF dynInvD(1) [OF inv2]] by blast
  have inv3: "dynInv (tbl d3)" unfolding d3(2) by (rule freed_inv [OF inv2]) (simp add: v2(1))
  have v3: "requestView (tbl d3) = requestView (tbl d2)" "consentView (tbl d3) = consentView (tbl d2)" "tplView (tbl d3) = tplView (tbl d2)"
    by (simp_all add: d3(2) freed_views)
  have "requestView (tbl d3) oid = Some (settled ConsentApproved t cr)" by (simp add: v3 v2)
  then obtain d4 where d4: "run C (sweep oid g t) d3 = ((), d4)" "dynInv (tbl d4)" "consentView (tbl d4) = consentView (tbl d3)"
      "tplView (tbl d4) = tplView (tbl d3)" "requestView (tbl d4) = approveAll oid g t ((requestView (tbl d3))(oid \<mapsto> cr))"
    using run_sweep [OF inv3] by blast
  have "EvaluateConsent g = EvaluateConsent (storedGrant cid g)"
    using g by (intro ext) (auto simp: EvaluateConsent_def grantOf_def)
  then have swept: "requestView (tbl d4) = approveAll oid (storedGrant cid g) t (requestView (tbl d))"
    using cr(1) by (auto intro!: ext simp: d4(5) v3 v2 approveAll_def split: option.split)
  define R1 where "R1 = (absTable (tbl d))\<lparr>bkConsents := (consentView (tbl d))(recKey g \<mapsto> storedGrant cid g)\<rparr>"
  have "specUpsert g (absTable (tbl d)) (storedGrant cid g) R1" using it2(3) by (auto simp: specUpsert_def R1_def)
  moreover have "absTable (tbl d4) = R1\<lparr>bkRequests := approveAll oid (storedGrant cid g) t (requestView (tbl d))\<rparr>"
    by (simp add: R1_def absTable_def swept d4 v3 v2)
  moreover have "run C (approvePivot oid u t cr g) d = (Inr (Some (settled ConsentApproved t cr)), d4)"
    using d1(1) run_retry_once [OF d2(1)] d3(1) d4(1) by (simp add: approvePivot_def run_bindP settled_def)
  ultimately show ?thesis using d4(2) by blast
qed

lemma run_resolve:
  assumes inv: "dynInv (tbl d)"
  shows "\<exists>res d'. run C (ResolveConsentRequest_ddb oid u approve scopes) d = (Inr res, d') \<and>
    specResolve oid u approve scopes (absTable (tbl d)) res (absTable (tbl d')) \<and> dynInv (tbl d')"
proof (cases "requestView (tbl d) oid")
  case None
  then show ?thesis using inv dynInvD(1) [OF inv]
    by (simp add: ResolveConsentRequest_ddb_def GetConsentRequest_ddb_def run_bindP run_request specResolve_def)
next
  case (Some cr)
  note wf = dynInvD(1) [OF inv]
  show ?thesis
  proof (cases "u \<noteq> [] \<and> crUserID cr \<noteq> u")
    case True
    then show ?thesis using inv wf Some
      by (simp add: ResolveConsentRequest_ddb_def GetConsentRequest_ddb_def run_bindP run_request specResolve_def)
  next
    case False
    then have u: "u = [] \<or> crUserID cr = u" by blast
    obtain t d1 where d1: "cNow C d = (t, d1)" "tbl d1 = tbl d" using now [of d] by (cases "cNow C d") auto
    have inv1: "dynInv (tbl d1)" "requestView (tbl d1) oid = Some cr" using inv Some d1(2) by simp_all
    let ?g = "grantOf cr (if scopes = None then crScopes cr else scopes) t (specExpiry (absTable (tbl d)) (crParentType cr) (crChildType cr) t)"
    have run: "run C (ResolveConsentRequest_ddb oid u approve scopes) d =
        (if \<not> approve then run C (denyPivot oid u t cr) d1 else run C (approvePivot oid u t cr ?g) d1)"
      using wf Some u d1
      by (auto simp: ResolveConsentRequest_ddb_def GetConsentRequest_ddb_def run_bindP run_request run_expiry)
    consider "\<not> approve" | "approve" "crStatus cr \<noteq> ConsentPending" | "approve" "crStatus cr = ConsentPending" by blast
    then show ?thesis
    proof cases
      case 1
      then show ?thesis using run_deny [OF inv1 u, of t] run Some False d1(2)
        by (fastforce simp: specResolve_def split: if_splits)
    next
      case 2
      then show ?thesis using run_approve_failed [OF inv1 2(2), of u t ?g] run Some False inv d1(2)
        by (auto simp: specResolve_def)
    next
      case 3
      have sc: "(if scopes = None then crScopes cr else scopes) \<noteq> None" using dynInvD(3) [OF inv Some] by simp
      have "\<exists>d' granted R1. run C (approvePivot oid u t cr ?g) d1 = (Inr (Some (settled ConsentApproved t cr)), d') \<and>
          dynInv (tbl d') \<and> specUpsert ?g (absTable (tbl d)) granted R1 \<and>
          absTable (tbl d') = R1\<lparr>bkRequests := approveAll oid granted t (requestView (tbl d))\<rparr>"
        by (rule run_approve [OF inv1 3(2) u refl sc, unfolded d1(2)])
      then obtain d' granted R1 where "run C (approvePivot oid u t cr ?g) d1 = (Inr (Some (settled ConsentApproved t cr)), d')"
          "dynInv (tbl d')" "specUpsert ?g (absTable (tbl d)) granted R1"
          "absTable (tbl d') = R1\<lparr>bkRequests := approveAll oid granted t (requestView (tbl d))\<rparr>"
        by blast
      moreover have "specResolve oid u True scopes (absTable (tbl d)) (Some (settled ConsentApproved t cr)) (absTable (tbl d'))"
        by (rule specResolve_approveI [OF _ 3(2) u calculation(3)]) (simp_all add: Some calculation(4))
      ultimately show ?thesis using run 3(1) by auto
    qed
  qed
qed

end

section \<open>The in-memory store as an abstract broker\<close>

definition absMem :: "store \<Rightarrow> broker" where
  "absMem s = \<lparr>bkTemplates = gget (stTemplates s), bkRequests = gget (stConsentRequests s), bkConsents = gget (stConsents s)\<rparr>"


lemma absMem_simps [simp]:
  "bkTemplates (absMem s) = gget (stTemplates s)" "bkRequests (absMem s) = gget (stConsentRequests s)"
  "bkConsents (absMem s) = gget (stConsents s)"
  by (simp_all add: absMem_def)







section \<open>Properties\<close>

context dynamo_service
begin

lemmas durable_revoke = ddbr.revoke_exact

end

text \<open>A table with one agent tree and one pending request, as the store writes them.\<close>

definition demoWaiting :: ConsentRequest where
  "demoWaiting = freshRequest ''creq-1-00'' 1 (demoRequest ''alice'' ''a1'')"

definition demoTable :: tableState where
  "demoTable = \<lparr>tsItems =
     [((openPK (reqOpenKey demoWaiting), skMeta), openItem (reqOpenKey demoWaiting) ''creq-1-00''),
      ((creqPK ''creq-1-00'', skMeta), creqItem demoWaiting)],
     tsClock = int, tsRand = (\<lambda>_. ''00''), tsTicks = 5\<rparr>"

lemma demoTable_items:
  "gget (tsItems demoTable) = Map.empty((openPK (reqOpenKey demoWaiting), skMeta) \<mapsto> openItem (reqOpenKey demoWaiting) ''creq-1-00'',
     (creqPK ''creq-1-00'', skMeta) \<mapsto> creqItem demoWaiting)"
  by (auto simp: demoTable_def fun_eq_iff)

lemma empty_dynInv: "dynInv Map.empty"
  by (simp add: dynInv_def ownsMarkers_def wfTable_def view_defs viewAt_def openView_def)

lemma demoTable_inv: "dynInv (gget (tsItems demoTable))"
  unfolding demoTable_items demoWaiting_def freshRequest_simps
  by (rule create_inv [OF empty_dynInv]) (simp_all add: openView_def requestView_def viewAt_def)

text \<open>
  The durable store implements the abstract consent broker. Over an idealised table (fresh reads, a caught-up index, no faults and no
  other writer) in the invariant, creating, resolving, status-only approving and granting
  answer and change the requests and grants exactly as the broker specifies, whatever stale markers
  the table holds, and keep the invariant (a create keeps it unless the generated id is already taken).
\<close>

theorem durable_broker_refines:
  assumes "dynamo_service C tbl" and "dynInv (tbl d)"
  shows "(\<exists>res d'. run C (CreateConsentRequest_ddb req) d = (Inr res, d') \<and>
      specCreate req (absTable (tbl d)) res (absTable (tbl d')) \<and>
      (snd res \<and> requestView (tbl d) (crID (fst res)) \<noteq> None \<or> dynInv (tbl d'))) \<and>
    (\<exists>res d'. run C (ResolveConsentRequest_ddb oid userID approve scopes) d = (Inr res, d') \<and>
      specResolve oid userID approve scopes (absTable (tbl d)) res (absTable (tbl d')) \<and> dynInv (tbl d')) \<and>
    (\<exists>res d'. run C (ApprovePendingConsentRequest_ddb oid) d = (Inr res, d') \<and>
      specApprovePending oid (absTable (tbl d)) res (absTable (tbl d')) \<and> dynInv (tbl d')) \<and>
    (\<exists>g d'. run C (UpsertConsent_ddb rec) d = (Inr g, d') \<and>
      specUpsert rec (absTable (tbl d)) g (absTable (tbl d')) \<and> dynInv (tbl d'))"
  using dynamo_service.run_create [OF assms] dynamo_service.run_resolve [OF assms]
    dynamo_service.run_approvePending [OF assms] dynamo_service.run_upsert [OF assms] by blast

theorem durable_broker_refines_witness:
  "requestView (gget (tsItems demoTable)) ''creq-1-00'' = Some demoWaiting \<and>
   (\<exists>res d'. run tableClient (ResolveConsentRequest_ddb ''creq-1-00'' ''alice'' True None) demoTable = (Inr res, d') \<and>
      specResolve ''creq-1-00'' ''alice'' True None (absTable (gget (tsItems demoTable))) res (absTable (gget (tsItems d'))) \<and>
      dynInv (gget (tsItems d')))"
proof -
  have "requestView (gget (tsItems demoTable)) ''creq-1-00'' = Some demoWaiting"
    by (simp add: demoTable_items view_upd viewAt_def unmarshal_creqItem)
  then show ?thesis
    using durable_broker_refines [OF tab.dynamo_service_axioms demoTable_inv] by blast
qed



text \<open>
  Revocation over the durable store is the same operation on an idealised table (fresh reads, a caught-up index, no faults and no other
  writer): a revoke by a caller with manage authority answers, revokes exactly the active and
  pending agents of the subtree and changes no other record, whatever the SpiceDB client does. The index of DynamoDB may lag, and then a child that was
  just registered can be missing from the walk.
\<close>

theorem durable_revoke_cascade:
  assumes "dynamo_service C tbl" and "agentTable (tbl (dyClient (wStore w)))"
    and "agentAllowed (dynamoStore C) D oid u actionManage w = Inr (True, True)"
  shows "\<exists>revoked w'. handleRevoke (dynamoStore C) D oid u w = Some (HttpOK 200 revoked, w') \<and>
    agentTable (tbl (dyClient (wStore w'))) \<and>
    agentView (tbl (dyClient (wStore w'))) =
      revokeMap (descendants (agentView (tbl (dyClient (wStore w)))) oid) (agentView (tbl (dyClient (wStore w)))) \<and>
    distinct revoked \<and>
    set revoked = {i \<in> descendants (agentView (tbl (dyClient (wStore w)))) oid.
      \<exists>a. agentView (tbl (dyClient (wStore w))) i = Some a \<and> revocableStatus (agStatus a)}"
  using dynamo_service.durable_revoke [OF assms] .

definition durableFamily :: "(tableState dynamo, Mock) world" where
  "durableFamily = \<lparr>wStore = \<lparr>dySchema = \<lparr>ssModel = None, ssText = [], ssVersion = [], ssSource = []\<rparr>,
     dyClient = \<lparr>tsItems = [((agPK ''r'', skMeta), agentItem (ownedAgent ''r'' [] ''active'')),
       ((agPK ''c'', skMeta), agentItem (ownedAgent ''c'' ''r'' ''pending''))],
       tsClock = int, tsRand = (\<lambda>_. ''00''), tsTicks = 0\<rparr>\<rparr>, wSdb = []\<rparr>"

lemma durableFamily_items:
  "gget (tsItems (dyClient (wStore durableFamily))) =
     Map.empty(entKey (EAgent (ownedAgent ''r'' [] ''active'')) \<mapsto> agentItem (ownedAgent ''r'' [] ''active''),
       entKey (EAgent (ownedAgent ''c'' ''r'' ''pending'')) \<mapsto> agentItem (ownedAgent ''c'' ''r'' ''pending''))"
  by (auto simp: durableFamily_def fun_eq_iff)

lemma durableFamily_table: "agentTable (gget (tsItems (dyClient (wStore durableFamily))))"
proof -
  have rep: "represents (agentItem r) (EAgent r)" for r by (simp add: represents_def)
  have "wfTable Map.empty" by (simp add: wfTable_def)
  then show ?thesis
    unfolding agentTable_def durableFamily_items
    by (simp add: wfTable_put [OF wfTable_put [OF _ rep refl] rep refl] view_put(2) [OF rep] del: entKey.simps)
       (simp add: agentView_def viewAt_def)
qed

lemma durableFamily_allowed:
  "agentAllowed (dynamoStore tableClient) mockClient ''r'' ''alice'' actionManage durableFamily = Inr (True, True)"
proof -
  have "agentView (gget (tsItems (dyClient (wStore durableFamily)))) ''r'' = Some (ownedAgent ''r'' [] ''active'')"
    unfolding durableFamily_items by (simp add: view_put(2) represents_def del: entKey.simps)
  then have "GetAgent (dynamoStore tableClient) ''r'' (wStore durableFamily) = Inr (ownedAgent ''r'' [] ''active'')"
    using tab.run_GetAgent [of "dyClient (wStore durableFamily)" "''r''"] durableFamily_table
    by (simp add: dynamoStore_def rd_def agentTable_def recordOrZero_def)
  then show ?thesis by (simp add: agentAllowed_def)
qed

theorem durable_revoke_cascade_witness:
  "agentAllowed (dynamoStore tableClient) mockClient ''r'' ''alice'' actionManage durableFamily = Inr (True, True) \<and>
   (\<exists>revoked w'. handleRevoke (dynamoStore tableClient) mockClient ''r'' ''alice'' durableFamily = Some (HttpOK 200 revoked, w') \<and>
      distinct revoked)"
  using durable_revoke_cascade [OF tab.dynamo_service_axioms durableFamily_table durableFamily_allowed] durableFamily_allowed
  by blast

end
