(* ===== verification/DynamoRace.thy ===== *)
theory DynamoRace
  imports DynamoBroker
begin

text \<open>
  The durable store under concurrency and faults. Replicas of the registry run store operations at
  the same time against one table; their calls interleave in any order, eventually consistent reads
  and index queries answer from any earlier state of the table, and a write that reports an error
  may or may not have happened. In every such run the table keeps its invariant: at most one request
  is pending per slot and it owns the marker, resolved requests never change, and an approved
  request has a grant on its edge.

  The proof is a rely-guarantee argument: \<open>evolves\<close> is what every operation relies on and
  guarantees, \<open>safe\<close> is defined over the program of an operation, call by call.
\<close>

section \<open>Runs\<close>

text \<open>The outcome of a call on a table: the answer and the table after it.\<close>

inductive putOut :: "item \<Rightarrow> table \<Rightarrow> aws_error option \<Rightarrow> table \<Rightarrow> bool" where
  ok: "putOut it T r (T(itemKey it \<mapsto> it))"
| lost: "putOut it T (Some e) T"

inductive updateOut :: "dkey \<Rightarrow> condition \<Rightarrow> action list \<Rightarrow> table \<Rightarrow> item awsres \<Rightarrow> table \<Rightarrow> bool" where
  ok: "evalCond c (T k) \<Longrightarrow> updateItem k u (T k) = Some it \<Longrightarrow> updateOut k c u T (Inr it) (T(k \<mapsto> it))"
| okErr: "evalCond c (T k) \<Longrightarrow> updateItem k u (T k) = Some it \<Longrightarrow> updateOut k c u T (Inl e) (T(k \<mapsto> it))"
| lost: "updateOut k c u T (Inl e) T"

inductive deleteOut :: "dkey \<Rightarrow> condition \<Rightarrow> table \<Rightarrow> item option awsres \<Rightarrow> table \<Rightarrow> bool" where
  ok: "evalCond c (T k) \<Longrightarrow> deleteOut k c T (Inr (T k)) (T(k := None))"
| okErr: "evalCond c (T k) \<Longrightarrow> deleteOut k c T (Inl e) (T(k := None))"
| lost: "deleteOut k c T (Inl e) T"

inductive transactOut :: "TransactWriteItem list \<Rightarrow> table \<Rightarrow> aws_error option \<Rightarrow> table \<Rightarrow> bool" where
  ok: "txnHolds ws T \<Longrightarrow> \<forall>w \<in> set ws. twItem w T \<noteq> None \<Longrightarrow> transactOut ws T r (txnApply ws T)"
| lost: "transactOut ws T (Some e) T"

text \<open>The ids the store generates for requests are not in use: the random suffix never repeats.\<close>

definition unusedID :: "item \<Rightarrow> table \<Rightarrow> bool" where
  "unusedID it T \<longleftrightarrow> (\<forall>rid. itemKey it = (creqPK rid, skMeta) \<longrightarrow> T (creqPK rid, skMeta) = None \<and> rid \<noteq> [])"

fun unusedIDs :: "TransactWriteItem list \<Rightarrow> table \<Rightarrow> bool" where
  "unusedIDs [] T = True"
| "unusedIDs (TPut it c # ws) T = (unusedID it T \<and> unusedIDs ws T)"
| "unusedIDs (TUpdate k c u # ws) T = unusedIDs ws T"

text \<open>
  A configuration has the earlier states of the table, the table, and the programs still running. A
  strongly consistent read answers from the table, any other read from one of the states so far.
\<close>

type_synonym config = "table set \<times> table \<times> unit prog list"

definition pagesFrom :: "table set \<Rightarrow> QueryInput \<Rightarrow> item list awsres list \<Rightarrow> bool" where
  "pagesFrom H q pages \<longleftrightarrow> (\<forall>items it. Inr items \<in> set pages \<and> it \<in> set items \<longrightarrow>
     matchesQuery q it \<and> (\<exists>T \<in> H. \<exists>k. T k = Some it))"

inductive raceStep :: "(table \<Rightarrow> unit prog \<Rightarrow> bool) \<Rightarrow> config \<Rightarrow> config \<Rightarrow> bool" for ops where
  start: "ops T p \<Longrightarrow> raceStep ops (H, T, ts) (H, T, p # ts)"
| getErr: "i < length ts \<Longrightarrow> ts ! i = GetItem c k g \<Longrightarrow> raceStep ops (H, T, ts) (H, T, ts[i := g (Inl e)])"
| get: "i < length ts \<Longrightarrow> ts ! i = GetItem c k g \<Longrightarrow> T0 \<in> (if c then {T} else insert T H) \<Longrightarrow>
    raceStep ops (H, T, ts) (H, T, ts[i := g (Inr (T0 k))])"
| put: "i < length ts \<Longrightarrow> ts ! i = PutItem it g \<Longrightarrow> unusedID it T \<Longrightarrow> putOut it T r T' \<Longrightarrow>
    raceStep ops (H, T, ts) (insert T H, T', ts[i := g r])"
| update: "i < length ts \<Longrightarrow> ts ! i = UpdateItem k c u g \<Longrightarrow> updateOut k c u T r' T' \<Longrightarrow>
    raceStep ops (H, T, ts) (insert T H, T', ts[i := g r'])"
| delete: "i < length ts \<Longrightarrow> ts ! i = DeleteItem k c g \<Longrightarrow> deleteOut k c T ro T' \<Longrightarrow>
    raceStep ops (H, T, ts) (insert T H, T', ts[i := g ro])"
| query: "i < length ts \<Longrightarrow> ts ! i = QueryPages q g \<Longrightarrow> pagesFrom (insert T H) q pages \<Longrightarrow>
    raceStep ops (H, T, ts) (H, T, ts[i := g pages])"
| transact: "i < length ts \<Longrightarrow> ts ! i = TransactWriteItems ws g \<Longrightarrow> unusedIDs ws T \<Longrightarrow> transactOut ws T r T' \<Longrightarrow>
    raceStep ops (H, T, ts) (insert T H, T', ts[i := g r])"
| now: "i < length ts \<Longrightarrow> ts ! i = TimeNow g \<Longrightarrow> raceStep ops (H, T, ts) (H, T, ts[i := g t])"
| rand: "i < length ts \<Longrightarrow> ts ! i = RandHex n g \<Longrightarrow> raceStep ops (H, T, ts) (H, T, ts[i := g x])"
| sleep: "i < length ts \<Longrightarrow> ts ! i = Sleep n p \<Longrightarrow> raceStep ops (H, T, ts) (H, T, ts[i := p])"

inductive raceReach :: "(table \<Rightarrow> unit prog \<Rightarrow> bool) \<Rightarrow> config \<Rightarrow> bool" for ops where
  start: "raceReach ops ({}, Map.empty, [])"
| step: "raceReach ops c \<Longrightarrow> raceStep ops c c' \<Longrightarrow> raceReach ops c'"

section \<open>Rely and guarantee\<close>

definition raceInv :: "table \<Rightarrow> bool" where
  "raceInv T \<longleftrightarrow> dynInv T \<and> requestView T [] = None \<and>
     (\<forall>rid cr. requestView T rid = Some cr \<and> crStatus cr = ConsentApproved \<longrightarrow> consentView T (reqEdge cr) \<noteq> None)"

definition requestStep :: "ConsentRequest \<Rightarrow> ConsentRequest \<Rightarrow> bool" where
  "requestStep cr cr' \<longleftrightarrow> cr' = cr \<or>
     crStatus cr = ConsentPending \<and> (\<exists>st now. st \<noteq> ConsentPending \<and> cr' = settled st now cr)"

definition evolves :: "table \<Rightarrow> table \<Rightarrow> bool" where
  "evolves T T' \<longleftrightarrow>
     (\<forall>rid cr. requestView T rid = Some cr \<longrightarrow> (\<exists>cr'. requestView T' rid = Some cr' \<and> requestStep cr cr')) \<and>
     (\<forall>edge. consentView T edge \<noteq> None \<longrightarrow> consentView T' edge \<noteq> None)"

lemma requestStep_trans: "requestStep a b \<Longrightarrow> requestStep b c \<Longrightarrow> requestStep a c"
  by (auto simp: requestStep_def)

lemma requestStep_key:
  "requestStep a b \<Longrightarrow> reqOpenKey b = reqOpenKey a \<and> reqEdge b = reqEdge a \<and> crID b = crID a \<and>
     crUserID b = crUserID a \<and> crScopes b = crScopes a"
  by (auto simp: requestStep_def settled_def)

lemma requestStep_final: "requestStep a b \<Longrightarrow> crStatus a \<noteq> ConsentPending \<Longrightarrow> b = a"
  by (auto simp: requestStep_def)

lemma evolves_refl [simp]: "evolves T T"
  by (auto simp: evolves_def requestStep_def)

lemma evolves_trans: "evolves T T' \<Longrightarrow> evolves T' T'' \<Longrightarrow> evolves T T''"
proof -
  assume a: "evolves T T'" and b: "evolves T' T''"
  have "\<exists>cr'. requestView T'' rid = Some cr' \<and> requestStep cr cr'" if cr: "requestView T rid = Some cr" for rid cr
  proof -
    obtain c1 where c1: "requestView T' rid = Some c1" "requestStep cr c1" using a cr unfolding evolves_def by blast
    then obtain c2 where "requestView T'' rid = Some c2" "requestStep c1 c2" using b unfolding evolves_def by blast
    then show ?thesis using requestStep_trans [OF c1(2)] by blast
  qed
  moreover have "consentView T'' edge \<noteq> None" if "consentView T edge \<noteq> None" for edge
    using a b that unfolding evolves_def by blast
  ultimately show ?thesis unfolding evolves_def by blast
qed

lemma evolves_request:
  "evolves T T' \<Longrightarrow> requestView T rid = Some cr \<Longrightarrow> \<exists>cr'. requestView T' rid = Some cr' \<and> requestStep cr cr'"
  by (simp add: evolves_def)

lemma evolves_consent: "evolves T T' \<Longrightarrow> consentView T edge \<noteq> None \<Longrightarrow> consentView T' edge \<noteq> None"
  unfolding evolves_def by blast

definition later :: "table \<Rightarrow> table \<Rightarrow> bool" where
  "later T T' \<longleftrightarrow> evolves T T' \<and> raceInv T'"

text \<open>
  A program is safe from a table when each of its calls, whenever it happens and whatever it answers,
  keeps the invariant and the guarantee, and its result satisfies the postcondition.
\<close>

definition whenever :: "table \<Rightarrow> (table \<Rightarrow> bool) \<Rightarrow> bool" where
  "whenever T \<Phi> \<longleftrightarrow> (\<forall>T'. later T T' \<longrightarrow> \<Phi> T')"

primrec safe :: "'a prog \<Rightarrow> ('a \<Rightarrow> table \<Rightarrow> bool) \<Rightarrow> table \<Rightarrow> bool" where
  "safe (Ret a) Q T = whenever T (Q a)"
| "safe (GetItem c k g) Q T = whenever T (\<lambda>T'. (\<forall>e. safe (g (Inl e)) Q T') \<and>
     (\<forall>T0. (if c then T0 = T' else raceInv T0 \<and> evolves T0 T') \<longrightarrow> safe (g (Inr (T0 k))) Q T'))"
| "safe (PutItem it g) Q T = whenever T (\<lambda>T'. unusedID it T' \<longrightarrow>
     (\<forall>r T2. putOut it T' r T2 \<longrightarrow> later T' T2 \<and> safe (g r) Q T2))"
| "safe (UpdateItem k c u g) Q T = whenever T (\<lambda>T'.
     \<forall>r T2. updateOut k c u T' r T2 \<longrightarrow> later T' T2 \<and> safe (g r) Q T2)"
| "safe (DeleteItem k c g) Q T = whenever T (\<lambda>T'.
     \<forall>r T2. deleteOut k c T' r T2 \<longrightarrow> later T' T2 \<and> safe (g r) Q T2)"
| "safe (QueryPages q g) Q T = whenever T (\<lambda>T'.
     \<forall>pages. pagesFrom {T0. raceInv T0 \<and> evolves T0 T'} q pages \<longrightarrow> safe (g pages) Q T')"
| "safe (TransactWriteItems ws g) Q T = whenever T (\<lambda>T'. unusedIDs ws T' \<longrightarrow>
     (\<forall>r T2. transactOut ws T' r T2 \<longrightarrow> later T' T2 \<and> safe (g r) Q T2))"
| "safe (TimeNow g) Q T = whenever T (\<lambda>T'. \<forall>t. safe (g t) Q T')"
| "safe (RandHex n g) Q T = whenever T (\<lambda>T'. \<forall>x. safe (g x) Q T')"
| "safe (Sleep n p) Q T = whenever T (safe p Q)"

lemma wheneverI: "(\<And>T'. later T T' \<Longrightarrow> \<Phi> T') \<Longrightarrow> whenever T \<Phi>"
  by (simp add: whenever_def)

lemma wheneverD: "whenever T \<Phi> \<Longrightarrow> later T T' \<Longrightarrow> \<Phi> T'"
  by (simp add: whenever_def)

lemma later_trans: "later T T' \<Longrightarrow> later T' T'' \<Longrightarrow> later T T''"
  unfolding later_def using evolves_trans by blast

lemma later_self: "later T T' \<Longrightarrow> later T' T'"
  by (simp add: later_def)

lemma whenever_later: "whenever T \<Phi> \<Longrightarrow> later T T' \<Longrightarrow> whenever T' \<Phi>"
  unfolding whenever_def using later_trans by blast

lemma whenever_whenever: "(\<And>T'. later T T' \<Longrightarrow> whenever T' \<Phi>) \<Longrightarrow> whenever T \<Phi>"
  unfolding whenever_def using later_self by blast

lemma safe_later: "safe p Q T \<Longrightarrow> later T T' \<Longrightarrow> safe p Q T'"
  by (cases p; simp only: safe.simps; erule (1) whenever_later)

lemma safe_laterI: "(\<And>T'. later T T' \<Longrightarrow> safe p Q T') \<Longrightarrow> safe p Q T"
  by (cases p; simp only: safe.simps; rule whenever_whenever; blast)

lemma safe_bindP: "safe p (\<lambda>a T. safe (f a) Q T) T \<Longrightarrow> safe (bindP p f) Q T"
proof (induction p arbitrary: T)
  case (Ret a)
  then show ?case by (auto intro: safe_laterI dest: wheneverD)
qed (simp_all add: whenever_def)

lemma safe_mono:
  assumes "safe p Q T" and "\<And>a T'. Q a T' \<Longrightarrow> Q' a T'"
  shows "safe p Q' T"
  using assms(1)
proof (induction p arbitrary: T)
  case (Ret a)
  then show ?case using assms(2) by (simp add: whenever_def)
qed (simp_all add: whenever_def)

lemma safe_track:
  assumes "safe p Q T" and "later T0 T"
  shows "safe p (\<lambda>a T'. Q a T' \<and> later T0 T') T"
  using assms
proof (induction p arbitrary: T)
  case (PutItem it g)
  show ?case unfolding safe.simps
  proof (intro wheneverI allI impI conjI)
    fix T' r T2 assume l: "later T T'" "unusedID it T'" "putOut it T' r T2"
    have "later T' T2" "safe (g r) Q T2" using wheneverD [OF PutItem.prems(1) [unfolded safe.simps] l(1)] l(2,3) by blast+
    then show "later T' T2" "safe (g r) (\<lambda>a T'. Q a T' \<and> later T0 T') T2"
      using PutItem.IH later_trans [OF later_trans [OF PutItem.prems(2) l(1)]] by blast+
  qed
next
  case (UpdateItem k c u g)
  show ?case unfolding safe.simps
  proof (intro wheneverI allI impI conjI)
    fix T' r T2 assume l: "later T T'" "updateOut k c u T' r T2"
    have "later T' T2" "safe (g r) Q T2" using wheneverD [OF UpdateItem.prems(1) [unfolded safe.simps] l(1)] l(2) by blast+
    then show "later T' T2" "safe (g r) (\<lambda>a T'. Q a T' \<and> later T0 T') T2"
      using UpdateItem.IH later_trans [OF later_trans [OF UpdateItem.prems(2) l(1)]] by blast+
  qed
next
  case (DeleteItem k c g)
  show ?case unfolding safe.simps
  proof (intro wheneverI allI impI conjI)
    fix T' r T2 assume l: "later T T'" "deleteOut k c T' r T2"
    have "later T' T2" "safe (g r) Q T2" using wheneverD [OF DeleteItem.prems(1) [unfolded safe.simps] l(1)] l(2) by blast+
    then show "later T' T2" "safe (g r) (\<lambda>a T'. Q a T' \<and> later T0 T') T2"
      using DeleteItem.IH later_trans [OF later_trans [OF DeleteItem.prems(2) l(1)]] by blast+
  qed
next
  case (TransactWriteItems ws g)
  show ?case unfolding safe.simps
  proof (intro wheneverI allI impI conjI)
    fix T' r T2 assume l: "later T T'" "unusedIDs ws T'" "transactOut ws T' r T2"
    have "later T' T2" "safe (g r) Q T2" using wheneverD [OF TransactWriteItems.prems(1) [unfolded safe.simps] l(1)] l(2,3) by blast+
    then show "later T' T2" "safe (g r) (\<lambda>a T'. Q a T' \<and> later T0 T') T2"
      using TransactWriteItems.IH later_trans [OF later_trans [OF TransactWriteItems.prems(2) l(1)]] by blast+
  qed
next
  case (GetItem c k g)
  have l: "later T0 T'" if "later T T'" for T' using later_trans [OF GetItem.prems(2) that] .
  then show ?case using GetItem.prems(1) GetItem.IH by (simp add: whenever_def)
next
  case (QueryPages q g)
  have l: "later T0 T'" if "later T T'" for T' using later_trans [OF QueryPages.prems(2) that] .
  then show ?case using QueryPages.prems(1) QueryPages.IH by (simp add: whenever_def)
next
  case (TimeNow g)
  have l: "later T0 T'" if "later T T'" for T' using later_trans [OF TimeNow.prems(2) that] .
  then show ?case using TimeNow.prems(1) TimeNow.IH by (simp add: whenever_def)
next
  case (RandHex n g)
  have l: "later T0 T'" if "later T T'" for T' using later_trans [OF RandHex.prems(2) that] .
  then show ?case using RandHex.prems(1) RandHex.IH by (simp add: whenever_def)
next
  case (Sleep n p)
  have l: "later T0 T'" if "later T T'" for T' using later_trans [OF Sleep.prems(2) that] .
  then show ?case using Sleep.prems(1) Sleep.IH by (simp add: whenever_def)
next
  case (Ret a)
  have l: "later T0 T'" if "later T T'" for T' using later_trans [OF Ret.prems(2) that] .
  then show ?case using Ret.prems(1) by (simp add: whenever_def)
qed

text \<open>Programs that are safe keep the invariant, whatever the interleaving.\<close>

abbreviation safeThread :: "table \<Rightarrow> unit prog \<Rightarrow> bool" where
  "safeThread T p \<equiv> safe p (\<lambda>_ _. True) T"

definition raceOk :: "config \<Rightarrow> bool" where
  "raceOk = (\<lambda>(H, T, ts). raceInv T \<and> (\<forall>T0 \<in> H. raceInv T0 \<and> evolves T0 T) \<and> (\<forall>p \<in> set ts. safeThread T p))"

lemma raceOk_thread: "raceOk (H, T, ts) \<Longrightarrow> i < length ts \<Longrightarrow> ts ! i = p \<Longrightarrow> later T T \<and> safeThread T p"
  using nth_mem [of i ts] unfolding raceOk_def later_def by auto

lemma raceOk_write:
  assumes ok: "raceOk (H, T, ts)" and i: "i < length ts" "later T T'" "safeThread T' p"
  shows "raceOk (insert T H, T', ts[i := p])"
proof -
  have "safeThread T' q" if "q \<in> set (ts[i := p])" for q
  proof -
    have "q = p \<or> q \<in> set ts" using that set_update_subset_insert [of ts i p] by blast
    then show ?thesis using i(3) ok safe_later [OF _ i(2)] by (auto simp: raceOk_def)
  qed
  moreover have "evolves T0 T'" if "T0 \<in> H" for T0
    using ok i(2) evolves_trans that unfolding raceOk_def later_def by blast
  ultimately show ?thesis using ok i(2) unfolding raceOk_def later_def by auto
qed

lemma raceOk_read:
  assumes ok: "raceOk (H, T, ts)" and i: "i < length ts" "safeThread T p"
  shows "raceOk (H, T, ts[i := p])"
  using assms set_update_subset_insert [of ts i p] by (auto simp: raceOk_def)

lemma raceStep_ok:
  assumes sound: "\<And>T p. raceInv T \<Longrightarrow> ops T p \<Longrightarrow> safeThread T p" and step: "raceStep ops c c'" and ok: "raceOk c"
  shows "raceOk c'"
  using step ok
proof (cases rule: raceStep.cases)
  case (start T p H ts)
  then show ?thesis using ok sound by (auto simp: raceOk_def)
next
  case (getErr i ts cr k g H T e)
  have T: "later T T" "safeThread T (GetItem cr k g)" using raceOk_thread ok getErr by blast+
  then have "safeThread T (g (Inl e))" using wheneverD [OF T(2) [unfolded safe.simps] T(1)] by blast
  then show ?thesis using raceOk_read ok getErr by simp
next
  case (get i ts cr k g T0 T H)
  have T: "later T T" "safeThread T (GetItem cr k g)" using raceOk_thread ok get by blast+
  have "if cr then T0 = T else raceInv T0 \<and> evolves T0 T" using get ok by (auto simp: raceOk_def)
  then have "safeThread T (g (Inr (T0 k)))" using wheneverD [OF T(2) [unfolded safe.simps] T(1)] by blast
  then show ?thesis using raceOk_read ok get by simp
next
  case (put i ts it g T r T' H)
  have T: "later T T" "safeThread T (PutItem it g)" using raceOk_thread ok put by blast+
  have "later T T' \<and> safeThread T' (g r)" using wheneverD [OF T(2) [unfolded safe.simps] T(1)] put by blast
  then show ?thesis using raceOk_write ok put by simp
next
  case (update i ts k cd u g T r T' H)
  have T: "later T T" "safeThread T (UpdateItem k cd u g)" using raceOk_thread ok update by blast+
  have "later T T' \<and> safeThread T' (g r)" using wheneverD [OF T(2) [unfolded safe.simps] T(1)] update by blast
  then show ?thesis using raceOk_write ok update by simp
next
  case (delete i ts k cd g T r T' H)
  have T: "later T T" "safeThread T (DeleteItem k cd g)" using raceOk_thread ok delete by blast+
  have "later T T' \<and> safeThread T' (g r)" using wheneverD [OF T(2) [unfolded safe.simps] T(1)] delete by blast
  then show ?thesis using raceOk_write ok delete by simp
next
  case (query i ts q g T H pages)
  have T: "later T T" "safeThread T (QueryPages q g)" using raceOk_thread ok query by blast+
  have "insert T H \<subseteq> {T0. raceInv T0 \<and> evolves T0 T}" using ok query by (auto simp: raceOk_def)
  then have "pagesFrom {T0. raceInv T0 \<and> evolves T0 T} q pages" using query(5) unfolding pagesFrom_def by blast
  then have "safeThread T (g pages)" using wheneverD [OF T(2) [unfolded safe.simps] T(1)] by blast
  then show ?thesis using raceOk_read ok query by simp
next
  case (transact i ts ws g T r T' H)
  have T: "later T T" "safeThread T (TransactWriteItems ws g)" using raceOk_thread ok transact by blast+
  have "later T T' \<and> safeThread T' (g r)" using wheneverD [OF T(2) [unfolded safe.simps] T(1)] transact by blast
  then show ?thesis using raceOk_write ok transact by simp
next
  case (now i ts g H T t)
  have T: "later T T" "safeThread T (TimeNow g)" using raceOk_thread ok now by blast+
  then show ?thesis using raceOk_read ok now wheneverD [OF T(2) [unfolded safe.simps] T(1)] by simp
next
  case (rand i ts n g H T x)
  have T: "later T T" "safeThread T (RandHex n g)" using raceOk_thread ok rand by blast+
  then show ?thesis using raceOk_read ok rand wheneverD [OF T(2) [unfolded safe.simps] T(1)] by simp
next
  case (sleep i ts n p H T)
  have T: "later T T" "safeThread T (Sleep n p)" using raceOk_thread ok sleep by blast+
  then show ?thesis using raceOk_read ok sleep wheneverD [OF T(2) [unfolded safe.simps] T(1)] by simp
qed

lemma empty_raceInv: "raceInv Map.empty"
  by (simp add: raceInv_def empty_dynInv) (simp add: view_defs viewAt_def)

lemma raceReach_ok:
  assumes "\<And>T p. raceInv T \<Longrightarrow> ops T p \<Longrightarrow> safeThread T p" and "raceReach ops c"
  shows "raceOk c"
  using assms(2)
proof induction
  case start
  show ?case using empty_raceInv by (simp add: raceOk_def)
next
  case (step c c')
  then show ?case using raceStep_ok [OF assms(1)] by blast
qed

section \<open>The writes of the store\<close>

lemma raceInvD:
  assumes "raceInv T"
  shows "dynInv T" "wfTable T" "requestView T [] = None"
    "requestView T rid = Some cr \<Longrightarrow> crStatus cr = ConsentApproved \<Longrightarrow> consentView T (reqEdge cr) \<noteq> None"
  using assms dynInvD(1) by (auto simp: raceInv_def)

lemma later_refl: "raceInv T \<Longrightarrow> later T T"
  by (simp add: later_def)

lemma later_inv: "later T T' \<Longrightarrow> raceInv T'"
  by (simp add: later_def)

lemma later_frame:
  assumes "raceInv T" and "wfTable T'" and "requestView T' = requestView T" and "consentView T' = consentView T"
    and "openView T' = openView T"
  shows "later T T'"
  using assms unfolding later_def raceInv_def dynInv_def ownsMarkers_def evolves_def requestStep_def by auto

lemma later_settle:
  assumes inv: "raceInv T" and cr: "requestView T rid = Some cr" "crStatus cr = ConsentPending"
    and it: "represents it (ERequest (settled st now cr))" and st: "st \<noteq> ConsentPending"
    and grant: "st = ConsentApproved \<Longrightarrow> consentView T (reqEdge cr) \<noteq> None"
  shows "later T (T((creqPK rid, skMeta) \<mapsto> it))"
proof -
  note d = raceInvD(1) [OF inv]
  have id: "crID (settled st now cr) = rid" using dynInvD(4) [OF d cr(1)] by simp
  note put = put_request [OF it id]
  have "rid \<noteq> []" using cr(1) raceInvD(3) [OF inv] by auto
  moreover have "requestStep cr (settled st now cr)" using cr(2) st by (auto simp: requestStep_def)
  moreover have "dynInv (T((creqPK rid, skMeta) \<mapsto> it))" by (rule settle_inv [OF d cr(1) it st])
  ultimately show ?thesis
    using inv cr grant by (auto simp: later_def raceInv_def evolves_def put requestStep_def)
qed

lemma later_free:
  assumes inv: "raceInv T" and o: "openView T key = Some rid" and np: "\<And>cr. requestView T rid = Some cr \<Longrightarrow> crStatus cr \<noteq> ConsentPending"
  shows "later T (T((openPK key, skMeta) := None))"
proof -
  have "dynInv (T((openPK key, skMeta) := None))" by (rule free_inv [OF raceInvD(1) [OF inv] o np])
  then show ?thesis using inv by (auto simp: later_def raceInv_def evolves_def del_open requestStep_def)
qed

lemma later_grant:
  assumes inv: "raceInv T" and it: "represents it (EConsent rec)" "recKey rec = edge"
  shows "later T (T((conPK edge, skMeta) \<mapsto> it))"
proof -
  have "dynInv (T((conPK edge, skMeta) \<mapsto> it))" by (rule grant_inv [OF raceInvD(1) [OF inv] it])
  then show ?thesis using inv by (auto simp: later_def raceInv_def evolves_def put_consent [OF it] requestStep_def)
qed

lemma later_create:
  assumes inv: "raceInv T" and free: "T (openPK (reqOpenKey req), skMeta) = None" and new: "T (creqPK oid, skMeta) = None" "oid \<noteq> []"
  shows "later T (T((openPK (reqOpenKey req), skMeta) \<mapsto> openItem (reqOpenKey req) oid,
    (creqPK oid, skMeta) \<mapsto> creqItem (freshRequest oid created req)))"
proof -
  have rep: "represents (creqItem (freshRequest oid created req)) (ERequest (freshRequest oid created req))" by (simp add: represents_def)
  have none: "requestView T oid = None" using new by (simp add: requestView_def viewAt_def)
  have "dynInv (T((openPK (reqOpenKey req), skMeta) \<mapsto> openItem (reqOpenKey req) oid,
      (creqPK oid, skMeta) \<mapsto> creqItem (freshRequest oid created req)))"
    by (rule create_inv [OF raceInvD(1) [OF inv] _ none]) (simp add: openView_def free)
  then show ?thesis using inv none new(2)
    by (auto simp: later_def raceInv_def evolves_def put_request [OF rep] put_open requestStep_def)
qed

lemma later_approved:
  assumes inv: "raceInv T" and new: "T (creqPK (crID cr), skMeta) = None" "crID cr \<noteq> []"
    and cr: "crStatus cr = ConsentApproved" "crScopes cr \<noteq> None" and grant: "consentView T (reqEdge cr) \<noteq> None"
  shows "later T (T((creqPK (crID cr), skMeta) \<mapsto> creqItem cr))"
proof -
  have rep: "represents (creqItem cr) (ERequest cr)" by (simp add: represents_def)
  have none: "requestView T (crID cr) = None" using new by (simp add: requestView_def viewAt_def)
  note put = put_request [OF rep refl]
  have "openView T key \<noteq> Some (crID cr)" for key using dynInvD(5) [OF raceInvD(1) [OF inv], of key "crID cr"] none by auto
  then have "dynInv (T((creqPK (crID cr), skMeta) \<mapsto> creqItem cr))"
    using raceInvD(1) [OF inv] cr unfolding dynInv_def ownsMarkers_def by (auto simp: put)
  then show ?thesis using inv none new(2) grant cr by (auto simp: later_def raceInv_def evolves_def put requestStep_def)
qed

section \<open>Each operation is safe\<close>

text \<open>Reads.\<close>

definition readAt :: "bool \<Rightarrow> table \<Rightarrow> table \<Rightarrow> bool" where
  "readAt c T0 T = (if c then T0 = T else raceInv T0 \<and> evolves T0 T)"

lemma readAtD: "readAt c T0 T \<Longrightarrow> raceInv T \<Longrightarrow> raceInv T0 \<and> evolves T0 T"
  by (auto simp: readAt_def split: if_splits)

lemma safe_Ret: "(\<And>T'. later T T' \<Longrightarrow> Q a T') \<Longrightarrow> safe (Ret a) Q T"
  by (simp add: whenever_def)

lemma safe_GetItem:
  assumes "\<And>T' e. later T T' \<Longrightarrow> safe (g (Inl e)) Q T'"
    and "\<And>T' T0. later T T' \<Longrightarrow> readAt c T0 T' \<Longrightarrow> safe (g (Inr (T0 k))) Q T'"
  shows "safe (GetItem c k g) Q T"
  unfolding safe.simps using assms unfolding readAt_def by (intro wheneverI conjI allI impI) blast+

lemma safe_getDecode:
  assumes "\<And>T' e. later T T' \<Longrightarrow> Q (Inl e) T'"
    and "\<And>T' T0 T''. later T T' \<Longrightarrow> readAt c T0 T' \<Longrightarrow> later T' T'' \<Longrightarrow>
      Q (case T0 k of None \<Rightarrow> Inr None | Some it \<Rightarrow> (case dec it of Inl e \<Rightarrow> Inl e | Inr x \<Rightarrow> Inr (Some x))) T''"
  shows "safe (getDecode c k dec) Q T"
  unfolding getDecode_def
proof (rule safe_GetItem)
  fix T' T0 assume l: "later T T'" "readAt c T0 T'"
  let ?r = "case T0 k of None \<Rightarrow> Inr None | Some it \<Rightarrow> (case dec it of Inl e \<Rightarrow> Inl e | Inr x \<Rightarrow> Inr (Some x))"
  have "safe (Ret ?r) Q T'" using assms(2) [OF l] by (rule safe_Ret)
  then show "safe (case Inr (T0 k) of Inl err \<Rightarrow> Ret (Inl (awsErr err)) | Inr None \<Rightarrow> Ret (Inr None)
      | Inr (Some it) \<Rightarrow> (case dec it of Inl e \<Rightarrow> Ret (Inl e) | Inr x \<Rightarrow> Ret (Inr (Some x)))) Q T'"
    by (simp split: option.splits sum.splits)
next
  fix T' e assume l: "later T T'"
  have "safe (Ret (Inl (awsErr e))) Q T'" using assms(1) [OF later_trans [OF l]] by (rule safe_Ret)
  then show "safe (case Inl e of Inl err \<Rightarrow> Ret (Inl (awsErr err)) | Inr None \<Rightarrow> Ret (Inr None)
      | Inr (Some it) \<Rightarrow> (case dec it of Inl e \<Rightarrow> Ret (Inl e) | Inr x \<Rightarrow> Ret (Inr (Some x)))) Q T'" by simp
qed

lemma safe_request:
  assumes "\<And>T' e. later T T' \<Longrightarrow> Q (Inl e) T'"
    and "\<And>T' T0 T''. later T T' \<Longrightarrow> readAt c T0 T' \<Longrightarrow> later T' T'' \<Longrightarrow> Q (Inr (requestView T0 rid)) T''"
  shows "safe (getConsentRequest_ddb rid c) Q T"
  unfolding getConsentRequest_ddb_def
proof (rule safe_getDecode)
  fix T' T0 T'' assume l: "later T T'" "readAt c T0 T'" "later T' T''"
  have "wfTable T0" using readAtD [OF l(2)] later_inv [OF l(1)] raceInvD(2) by blast
  then have "(case T0 (creqPK rid, skMeta) of None \<Rightarrow> Inr None
      | Some it \<Rightarrow> (case unmarshalRequest it of Inl e \<Rightarrow> Inl e | Inr x \<Rightarrow> Inr (Some x))) = Inr (requestView T0 rid)"
    using wfTable_item(5) [of T0 rid] decode_item(6) by (fastforce simp: requestView_def viewAt_def split: option.split)
  then show "Q (case T0 (creqPK rid, skMeta) of None \<Rightarrow> Inr None
      | Some it \<Rightarrow> (case unmarshalRequest it of Inl e \<Rightarrow> Inl e | Inr x \<Rightarrow> Inr (Some x))) T''"
    using assms(2) [OF l] by simp
qed (rule assms(1))

lemma safe_genID: "(\<And>oid T'. later T T' \<Longrightarrow> Q oid T') \<Longrightarrow> safe (genID p) Q T"
  unfolding genID_def safe.simps using later_trans by (intro wheneverI allI) blast

text \<open>Pages of a query hold items of earlier states that match it.\<close>

lemma pagesFrom_drain:
  "pagesFrom H q pages \<Longrightarrow> drainPages pages = Inr items \<Longrightarrow> it \<in> set items \<Longrightarrow>
     matchesQuery q it \<and> (\<exists>T \<in> H. \<exists>k. T k = Some it)"
proof (induction pages arbitrary: items)
  case (Cons p ps)
  have ps: "pagesFrom H q ps" using Cons.prems(1) unfolding pagesFrom_def by (meson list.set_intros(2))
  obtain xs where p: "p = Inr xs" using Cons.prems(2) by (cases p) auto
  obtain ys where ys: "drainPages ps = Inr ys" "items = xs @ ys" using Cons.prems(2) p by (auto split: sum.splits)
  then show ?case using Cons.IH [OF ps ys(1)] Cons.prems p unfolding pagesFrom_def by auto
qed simp

lemma safe_query:
  assumes "\<And>T' T'' r. later T T' \<Longrightarrow> later T' T'' \<Longrightarrow>
      (\<forall>items it. r = Inr items \<and> it \<in> set items \<longrightarrow> matchesQuery q it \<and> (\<exists>T0 k. raceInv T0 \<and> evolves T0 T' \<and> T0 k = Some it)) \<Longrightarrow>
      Q r T''"
  shows "safe (queryAll q) Q T"
  unfolding queryAll_def safe.simps
proof (intro wheneverI allI impI)
  fix T' pages T'' assume l: "later T T'" "pagesFrom {T0. raceInv T0 \<and> evolves T0 T'} q pages" "later T' T''"
  show "Q (drainPages pages) T''" by (rule assms [OF l(1,3)]) (use pagesFrom_drain [OF l(2)] in blast)
qed

text \<open>Freeing the marker of a request that is known to be resolved.\<close>

definition resolvedID :: "table \<Rightarrow> string \<Rightarrow> bool" where
  "resolvedID T rid \<longleftrightarrow> rid = [] \<or> (\<exists>cr. requestView T rid = Some cr \<and> crStatus cr \<noteq> ConsentPending)"

lemma resolvedID_later: "resolvedID T rid \<Longrightarrow> later T T' \<Longrightarrow> resolvedID T' rid"
  unfolding resolvedID_def later_def by (metis evolves_request requestStep_final)

lemma safe_deleteMarker:
  assumes res: "resolvedID T rid" and Q: "\<And>a T'. later T T' \<Longrightarrow> Q a T'"
  shows "safe (deleteOpenMarkerIf key rid) Q T"
  unfolding deleteOpenMarkerIf_def safe.simps
proof (intro wheneverI allI impI)
  fix T' r T2 assume l: "later T T'" and out: "deleteOut (openPK key, skMeta) (CEq ''requestId'' (AVS rid)) T' r T2"
  note inv = later_inv [OF l]
  have "later T' T2"
  proof -
    have free: "later T' (T'((openPK key, skMeta) := None))" if "evalCond (CEq ''requestId'' (AVS rid)) (T' (openPK key, skMeta))"
    proof -
      have o: "openView T' key = Some rid" using evalCond_marker [OF raceInvD(2) [OF inv]] that by blast
      then have "rid \<noteq> []" using dynInvD(5) [OF raceInvD(1) [OF inv]] raceInvD(3) [OF inv] by fastforce
      then show ?thesis using later_free [OF inv o] resolvedID_later [OF res l] by (auto simp: resolvedID_def)
    qed
    from out show ?thesis by cases (use free later_refl [OF inv] in blast)+
  qed
  moreover have "safe (Ret a) Q T2" for a
    by (rule safe_Ret) (use Q later_trans [OF later_trans [OF l \<open>later T' T2\<close>]] in blast)
  ultimately show "later T' T2 \<and> safe (case r of Inl err \<Rightarrow> if isCondFailed err then Ret None else Ret (Some (awsErr err)) | Inr _ \<Rightarrow> Ret None) Q T2"
    by (auto split: sum.split simp del: safe.simps)
qed

lemma safe_freeMarker:
  assumes "resolvedID T rid" and "\<And>T'. later T T' \<Longrightarrow> Q () T'"
  shows "safe (freeOpenMarker key rid) Q T"
  unfolding freeOpenMarker_def
  by (rule safe_bindP, rule safe_deleteMarker [OF assms(1)], rule safe_Ret) (use assms(2) later_trans in blast)

text \<open>What a strongly consistent read of a marker and its request establishes.\<close>

lemma safe_readOpen:
  assumes err: "\<And>T' e. later T T' \<Longrightarrow> Q (Inl e) T'" and none: "\<And>T'. later T T' \<Longrightarrow> Q (Inr (None, [])) T'"
    and found: "\<And>T' rid cr. later T T' \<Longrightarrow> (crStatus cr \<noteq> ConsentPending \<Longrightarrow> resolvedID T' rid) \<Longrightarrow> Q (Inr (Some cr, rid)) T'"
  shows "safe (readOpenRequest key) Q T"
  unfolding readOpenRequest_def
proof (rule safe_GetItem)
  fix T' e assume l: "later T T'"
  have "safe (Ret (Inl (awsErr e))) Q T'" using err [OF later_trans [OF l]] by (rule safe_Ret)
  then show "safe (case Inl e of Inl err \<Rightarrow> Ret (Inl (awsErr err)) | Inr None \<Rightarrow> Ret (Inr (None, []))
     | Inr (Some mk) \<Rightarrow>
         if \<not> fieldOk isStrAV mk ''requestId'' then Ret (Inl unmarshalErr)
         else bindP (getConsentRequest_ddb (strOf ''requestId'' mk) True) (\<lambda>c. case c of
             Inl e \<Rightarrow> Ret (Inl e)
           | Inr cr \<Rightarrow> Ret (Inr (cr, strOf ''requestId'' mk)))) Q T'" by simp
next
  fix T' T0 assume l: "later T T'" and "readAt True T0 T'"
  then have T0: "T0 = T'" by (simp add: readAt_def)
  note inv = later_inv [OF l]
  show "safe (case Inr (T0 (openPK key, skMeta)) of Inl err \<Rightarrow> Ret (Inl (awsErr err)) | Inr None \<Rightarrow> Ret (Inr (None, []))
     | Inr (Some mk) \<Rightarrow>
         if \<not> fieldOk isStrAV mk ''requestId'' then Ret (Inl unmarshalErr)
         else bindP (getConsentRequest_ddb (strOf ''requestId'' mk) True) (\<lambda>c. case c of
             Inl e \<Rightarrow> Ret (Inl e)
           | Inr cr \<Rightarrow> Ret (Inr (cr, strOf ''requestId'' mk)))) Q T'"
  proof (cases "T' (openPK key, skMeta)")
    case None
    have "safe (Ret (Inr (None, []))) Q T'" using none [OF later_trans [OF l]] by (rule safe_Ret)
    then show ?thesis using None T0 by simp
  next
    case (Some mk)
    then obtain rid where mk: "gget mk = gget (openItem key rid)" using wfTable_item(6) [OF raceInvD(2) [OF inv]] by blast
    then have mk': "strOf ''requestId'' mk = rid" "fieldOk isStrAV mk ''requestId''" using decode_open by (auto simp: fieldOk_def openItem_def)
    have "openView T' key = Some rid" using view_iff(6) [OF raceInvD(2) [OF inv]] Some mk by blast
    then obtain cr0 where cr0: "requestView T' rid = Some cr0" using dynInvD(5) [OF raceInvD(1) [OF inv]] by blast
    have "safe (getConsentRequest_ddb rid True) (\<lambda>c T. safe (case c of Inl e \<Rightarrow> Ret (Inl e) | Inr cr \<Rightarrow> Ret (Inr (cr, rid))) Q T) T'"
    proof (rule safe_request)
      fix T2 e assume "later T' T2"
      then have "safe (Ret (Inl e)) Q T2" using err later_trans [OF later_trans [OF l]] by (intro safe_Ret) blast
      then show "safe (case Inl e of Inl e \<Rightarrow> Ret (Inl e) | Inr cr \<Rightarrow> Ret (Inr (cr, rid))) Q T2" by simp
    next
      fix T2 T1 T3 assume l2: "later T' T2" "readAt True T1 T2" "later T2 T3"
      then have "T1 = T2" by (simp add: readAt_def)
      moreover obtain cr where cr: "requestView T2 rid = Some cr" using evolves_request l2(1) cr0 unfolding later_def by blast
      ultimately have view: "requestView T1 rid = Some cr" by simp
      have "Q (Inr (Some cr, rid)) T4" if l4: "later T3 T4" for T4
      proof (rule found)
        show "later T T4" using l l2 l4 later_trans by blast
        assume "crStatus cr \<noteq> ConsentPending"
        then have "resolvedID T2 rid" using cr by (auto simp: resolvedID_def)
        then show "resolvedID T4 rid" using resolvedID_later l2(3) l4 by blast
      qed
      then have "safe (Ret (Inr (Some cr, rid))) Q T3" by (rule safe_Ret)
      then show "safe (case Inr (requestView T1 rid) of Inl e \<Rightarrow> Ret (Inl e) | Inr cr \<Rightarrow> Ret (Inr (cr, rid))) Q T3"
        using view by simp
    qed
    then have "safe (bindP (getConsentRequest_ddb rid True) (\<lambda>c. case c of Inl e \<Rightarrow> Ret (Inl e) | Inr cr \<Rightarrow> Ret (Inr (cr, rid)))) Q T'"
      by (rule safe_bindP)
    then show ?thesis using Some T0 mk' by simp
  qed
qed

text \<open>Requests.\<close>

abbreviation harmless :: "'a prog \<Rightarrow> table \<Rightarrow> bool" where
  "harmless p T \<equiv> safe p (\<lambda>_ _. True) T"

lemma harmless_Ret: "harmless (Ret a) T"
  by (rule safe_Ret) simp

lemma create_txn:
  assumes inv: "raceInv T" and out: "transactOut (createWrites (reqOpenKey req) (freshRequest oid created req)) T r T2"
    and unused: "unusedIDs (createWrites (reqOpenKey req) (freshRequest oid created req)) T"
  shows "later T T2"
  using out
proof cases
  case ok
  let ?key = "reqOpenKey req" and ?cr = "freshRequest oid created req"
  have keys: "itemKey (openItem ?key oid) = (openPK ?key, skMeta)" "itemKey (creqItem ?cr) = (creqPK oid, skMeta)"
    using itemKey_entItem [of "EOpen ?key oid"] itemKey_entItem [of "ERequest ?cr"] by simp_all
  have "T (openPK ?key, skMeta) = None"
  proof (cases "T (openPK ?key, skMeta)")
    case (Some it)
    then obtain rid where "gget it = gget (openItem ?key rid)" using wfTable_item(6) [OF raceInvD(2) [OF inv]] by blast
    then have "gget it ''pk'' \<noteq> None" by (simp add: openItem_def)
    then show ?thesis using ok Some by (simp add: txnHolds_def createWrites_def keys)
  qed
  moreover have "T (creqPK oid, skMeta) = None" "oid \<noteq> []" using unused by (simp_all add: createWrites_def unusedID_def keys)
  ultimately have "later T (T((openPK ?key, skMeta) \<mapsto> openItem ?key oid, (creqPK oid, skMeta) \<mapsto> creqItem ?cr))"
    using later_create [OF inv] by simp
  moreover have "T2 = T((openPK ?key, skMeta) \<mapsto> openItem ?key oid, (creqPK oid, skMeta) \<mapsto> creqItem ?cr)"
    using ok by (simp add: txnApply_def createWrites_def keys)
  ultimately show ?thesis by simp
next
  case (lost e)
  then show ?thesis using later_refl [OF inv] by simp
qed

lemma safe_clearStale:
  assumes "resolvedID T rid" and "\<And>T'. harmless again T'"
  shows "harmless (clearStale key rid again) T"
  unfolding clearStale_def
proof (rule safe_bindP, rule safe_deleteMarker [OF assms(1)])
  fix e T'
  show "harmless (case e of Some x \<Rightarrow> Ret (Inl x) | None \<Rightarrow> again) T'"
    by (cases e) (simp_all only: option.case harmless_Ret assms(2))
qed

lemma safe_slotTaken:
  assumes "\<And>T'. harmless again T'"
  shows "harmless (slotTaken key again) T"
  unfolding slotTaken_def
proof (rule safe_bindP, rule safe_readOpen)
  fix T' rid and cr :: ConsentRequest assume "crStatus cr \<noteq> ConsentPending \<Longrightarrow> resolvedID T' rid"
  then have "harmless (if crStatus cr = ConsentPending then Ret (Inr (cr, False)) else clearStale key rid again) T'"
    using safe_clearStale assms by (simp only: harmless_Ret split: if_split) blast
  then show "harmless (case Inr (Some cr, rid) of Inl e \<Rightarrow> Ret (Inl e)
     | Inr (Some existing, markerReqID) \<Rightarrow>
         if crStatus existing = ConsentPending then Ret (Inr (existing, False)) else clearStale key markerReqID again
     | Inr (None, markerReqID) \<Rightarrow> clearStale key markerReqID again) T'" by simp
next
  fix T' :: table
  have "harmless (clearStale key [] again) T'" by (rule safe_clearStale) (simp_all add: resolvedID_def assms)
  then show "harmless (case Inr (None, []) of Inl e \<Rightarrow> Ret (Inl e)
     | Inr (Some existing, markerReqID) \<Rightarrow>
         if crStatus existing = ConsentPending then Ret (Inr (existing, False)) else clearStale key markerReqID again
     | Inr (None, markerReqID) \<Rightarrow> clearStale key markerReqID again) T'" by simp
qed (simp only: sum.case harmless_Ret)

lemma safe_Sleep: "(\<And>T'. later T T' \<Longrightarrow> safe p Q T') \<Longrightarrow> safe (Sleep n p) Q T"
  by (simp add: whenever_def)

lemma safe_createLoop: "harmless (createLoop (reqOpenKey req) req n) T"
proof (induction n arbitrary: T)
  case 0
  show ?case unfolding createLoop.simps by (rule harmless_Ret)
next
  case (Suc n)
  have out: "harmless (createOutcome (reqOpenKey req) fresh k (createLoop (reqOpenKey req) req n) err) T'" for fresh k err T'
    unfolding createOutcome_def
    by (cases err) (auto simp del: safe.simps intro: harmless_Ret safe_slotTaken safe_Sleep Suc.IH)
  show ?case
    unfolding createLoop.simps
    by (rule safe_bindP, rule safe_genID, unfold safe.simps, intro wheneverI allI impI conjI)
       (auto simp del: safe.simps intro: create_txn later_inv out)
qed

text \<open>What an operation may remember of the table: grants stay, a request it has read is there, perhaps settled.\<close>

definition hasGrant :: "table \<Rightarrow> string \<Rightarrow> bool" where
  "hasGrant T edge \<longleftrightarrow> consentView T edge \<noteq> None"

definition knownRequest :: "table \<Rightarrow> ConsentRequest \<Rightarrow> bool" where
  "knownRequest T cr \<longleftrightarrow> (\<exists>c. requestView T (crID cr) = Some c \<and> requestStep cr c)"

lemma hasGrant_later: "hasGrant T edge \<Longrightarrow> later T T' \<Longrightarrow> hasGrant T' edge"
  unfolding hasGrant_def later_def using evolves_consent by blast

lemma knownRequest_later: "knownRequest T cr \<Longrightarrow> later T T' \<Longrightarrow> knownRequest T' cr"
  unfolding knownRequest_def later_def using evolves_request requestStep_trans by metis

lemma knownRequest_read:
  "raceInv T0 \<Longrightarrow> evolves T0 T \<Longrightarrow> requestView T0 rid = Some cr \<Longrightarrow> crID cr = rid \<and> knownRequest T cr"
  using evolves_request requestView_id raceInvD(2) unfolding knownRequest_def by metis

lemma safe_UpdateItem:
  assumes "\<And>T' r T2. later T T' \<Longrightarrow> updateOut k c u T' r T2 \<Longrightarrow> later T' T2 \<and> safe (g r) Q T2"
  shows "safe (UpdateItem k c u g) Q T"
  unfolding safe.simps using assms by (intro wheneverI allI impI)

lemma pivot_update:
  assumes inv: "raceInv T" and out: "updateOut (creqPK rid, skMeta) (pivotCond u) (pivotActions st now) T r T2"
    and st: "st \<noteq> ConsentPending" and grant: "\<And>cr. st = ConsentApproved \<Longrightarrow> requestView T rid = Some cr \<Longrightarrow> hasGrant T (reqEdge cr)"
  shows "later T T2 \<and> (\<forall>it. r = Inr it \<longrightarrow> resolvedID T2 rid)"
proof -
  note wf = raceInvD(2) [OF inv]
  have eff: "later T (T((creqPK rid, skMeta) \<mapsto> it)) \<and> resolvedID (T((creqPK rid, skMeta) \<mapsto> it)) rid"
    if c: "evalCond (pivotCond u) (T (creqPK rid, skMeta))" and it: "updateItem (creqPK rid, skMeta) (pivotActions st now) (T (creqPK rid, skMeta)) = Some it" for it
  proof -
    obtain cr where cr: "requestView T rid = Some cr" "crStatus cr = ConsentPending" using evalCond_pivot [OF wf] c by blast
    obtain it0 where it0: "T (creqPK rid, skMeta) = Some it0" "gget it0 = gget (creqItem cr)" using view_iff(5) [OF wf] cr(1) by blast
    have rep: "represents it (ERequest (settled st now cr))" using request_pivot [OF it0(2), of st now] it it0(1) by (simp add: settled_def)
    have id: "crID (settled st now cr) = rid" using requestView_id [OF wf cr(1)] by simp
    have "later T (T((creqPK rid, skMeta) \<mapsto> it))"
      by (rule later_settle [OF inv cr rep st]) (use grant cr in \<open>simp add: hasGrant_def\<close>)
    then show ?thesis using put_request(2) [OF rep id] st by (auto simp: resolvedID_def)
  qed
  from out show ?thesis by cases (use eff later_refl [OF inv] in auto)
qed

lemma safe_recover: "harmless (resolveRecover oid) T"
proof -
  have "harmless (case r of Inl e \<Rightarrow> Ret (Inl e) | Inr None \<Rightarrow> Ret (Inr None)
      | Inr (Some cur) \<Rightarrow> if crStatus cur \<noteq> ConsentPending then Ret (Inr (Some cur)) else Ret (Inr None)) T'"
    for r :: "ConsentRequest option result" and T'
    by (auto split: option.split sum.split simp del: safe.simps intro: harmless_Ret)
  then show ?thesis unfolding resolveRecover_def by (intro safe_bindP safe_request)
qed

text \<open>The sweep, after the grant of its edge is in the table.\<close>

lemma safe_sweepFlip:
  assumes known: "knownRequest T other" and grant: "hasGrant T (reqEdge other)" and Q: "\<And>T'. later T T' \<Longrightarrow> Q () T'"
  shows "safe (sweepFlip now other) Q T"
  unfolding sweepFlip_def
proof (rule safe_UpdateItem)
  fix T' r T2 assume l: "later T T'"
    and out: "updateOut (creqPK (crID other), skMeta) stillPending (pivotActions ConsentApproved now) T' r T2"
  have "hasGrant T' (reqEdge c)" if "requestView T' (crID other) = Some c" for c
    using hasGrant_later [OF grant l] knownRequest_later [OF known l] that requestStep_key unfolding knownRequest_def by fastforce
  then have eff: "later T' T2" "\<And>it. r = Inr it \<Longrightarrow> resolvedID T2 (crID other)"
    using pivot_update [of T' "crID other" "[]" ConsentApproved now r T2] later_inv [OF l] out by (auto simp: pivotCond_Nil)
  have Q2: "Q () T3" if "later T2 T3" for T3 using Q later_trans [OF later_trans [OF l eff(1)] that] .
  show "later T' T2 \<and> safe (case r of Inl err \<Rightarrow> Ret () | Inr _ \<Rightarrow> freeOpenMarker (reqOpenKey other) (crID other)) Q T2"
    using eff safe_freeMarker [of T2 "crID other" Q] safe_Ret [of T2 Q "()"] Q2 by (cases r) (simp_all only: sum.case)
qed

lemma safe_sweepLoop:
  "\<forall>other \<in> set others. knownRequest T other \<and> reqEdge other = edge \<Longrightarrow> hasGrant T edge \<Longrightarrow> harmless (sweepLoop oid g now others) T"
proof (induction others arbitrary: T)
  case Nil
  show ?case unfolding sweepLoop.simps by (rule harmless_Ret)
next
  case (Cons other others)
  have rest: "harmless (sweepLoop oid g now others) T'" if "later T T'" for T'
    by (rule Cons.IH) (use Cons.prems hasGrant_later knownRequest_later that in auto)
  have here: "harmless (sweepLoop oid g now others) T" by (rule Cons.IH) (use Cons.prems in auto)
  have "harmless (bindP (sweepFlip now other) (\<lambda>_. sweepLoop oid g now others)) T"
    by (rule safe_bindP, rule safe_sweepFlip) (use Cons.prems rest in auto)
  then show ?case using here by (simp only: sweepLoop.simps split: if_split) blast
qed

lemma decodeAll_in: "decodeAll dec keep ms = Inr xs \<Longrightarrow> x \<in> set xs \<Longrightarrow> \<exists>m \<in> set ms. dec m = Inr x"
  by (induction ms arbitrary: xs) (auto split: sum.splits if_splits)

lemma safe_edgeQuery:
  assumes "\<And>T' r. later T T' \<Longrightarrow> (\<forall>others other. r = Inr others \<and> other \<in> set others \<longrightarrow> knownRequest T' other \<and> reqEdge other = edge) \<Longrightarrow> Q r T'"
  shows "safe (requestsByEdge edge) Q T"
  unfolding requestsByEdge_def queryDecode_def
proof (rule safe_bindP, rule safe_query)
  let ?q = "\<lparr>qIndex = GSI2, qPK = ''EDGE#'' @ edge, qPrefix = None\<rparr>"
  fix T1 T2 and r :: "item list awsres" assume l: "later T T1" "later T1 T2"
    and r: "\<forall>items it. r = Inr items \<and> it \<in> set items \<longrightarrow> matchesQuery ?q it \<and> (\<exists>T0 k. raceInv T0 \<and> evolves T0 T1 \<and> T0 k = Some it)"
  have found: "knownRequest T1 other \<and> reqEdge other = edge" if it: "r = Inr items" "it \<in> set items" "unmarshalRequest it = Inr other" for items it other
  proof -
    obtain T0 k where T0: "raceInv T0" "evolves T0 T1" "T0 k = Some it" "matchesQuery ?q it" using r it by blast
    obtain e where e: "entKey e = k" "represents it e" using wfTable_rep [OF raceInvD(2) [OF T0(1)] T0(3)] by blast
    then obtain cr where cr: "e = ERequest cr" "reqEdge cr = edge" using matches_gsi2(2) [OF e(2)] T0(4) by blast
    then have "other = cr" using rep_decode(5) e(2) it(3) by simp
    moreover have "requestView T0 (crID cr) = Some cr"
      using stored_view(5) [OF raceInvD(2) [OF T0(1)], of cr] T0(3) e cr by (auto simp: stored_def)
    ultimately show ?thesis using knownRequest_read [OF T0(1,2)] cr(2) by blast
  qed
  show "safe (case r of Inl err \<Rightarrow> Ret (Inl (awsErr err)) | Inr items \<Rightarrow> Ret (decodeAll unmarshalRequest (\<lambda>cr. True) items)) Q T2"
  proof (cases r)
    case (Inl e)
    have "safe (Ret (Inl (awsErr e))) Q T2" by (rule safe_Ret, rule assms) (use l later_trans in blast, simp)
    then show ?thesis using Inl by simp
  next
    case (Inr items)
    have "safe (Ret (decodeAll unmarshalRequest (\<lambda>cr. True) items)) Q T2"
    proof (rule safe_Ret, rule assms)
      fix T3 assume l3: "later T2 T3"
      show "later T T3" using l l3 later_trans by blast
      show "\<forall>others other. decodeAll unmarshalRequest (\<lambda>cr. True) items = Inr others \<and> other \<in> set others \<longrightarrow>
          knownRequest T3 other \<and> reqEdge other = edge"
        using decodeAll_in found [OF Inr] knownRequest_later [OF knownRequest_later [OF _ l(2)] l3] by metis
    qed
    then show ?thesis using Inr by simp
  qed
qed

lemma safe_sweep:
  assumes "hasGrant T (recKey g)"
  shows "harmless (sweep oid g now) T"
  unfolding sweep_def
proof (rule safe_bindP, rule safe_edgeQuery)
  fix T' r assume l: "later T T'"
    and r: "\<forall>others other. r = Inr others \<and> other \<in> set others \<longrightarrow> knownRequest T' other \<and> reqEdge other = recKey g"
  have "harmless (sweepLoop oid g now others) T'" if "r = Inr others" for others
    by (rule safe_sweepLoop [where edge = "recKey g"]) (use r that hasGrant_later [OF assms l] in auto)
  then show "harmless (case r of Inl e \<Rightarrow> Ret () | Inr others \<Rightarrow> sweepLoop oid g now others) T'"
    using harmless_Ret by (cases r) (simp_all only: sum.case)
qed

text \<open>The approve transaction: the request and its grant together, or neither.\<close>

lemma upsertUpdate_item:
  assumes inv: "raceInv T" and it: "updateItem (conPK (recKey g), skMeta) (upsertActions cand g) (T (conPK (recKey g), skMeta)) = Some it"
  shows "\<exists>cid. represents it (EConsent (storedGrant cid g))"
  using tab.upsert_item [OF raceInvD(2) [OF inv], of g cand] it by auto

lemma approve_txn:
  assumes inv: "raceInv T" and known: "knownRequest T cr" and key: "recKey g = reqEdge cr"
    and out: "transactOut [TUpdate (creqPK (crID cr), skMeta) (pivotCond u) (pivotActions ConsentApproved now),
      TUpdate (conPK (recKey g), skMeta) CTrue (upsertActions cand g)] T r T2"
  shows "later T T2 \<and> (r = None \<longrightarrow> resolvedID T2 (crID cr) \<and> hasGrant T2 (reqEdge cr))"
  using out
proof cases
  case ok
  let ?k1 = "(creqPK (crID cr), skMeta)" and ?k2 = "(conPK (recKey g), skMeta)"
  note wf = raceInvD(2) [OF inv]
  obtain c where c: "requestView T (crID cr) = Some c" "crStatus c = ConsentPending"
    using ok evalCond_pivot [OF wf] by (auto simp: txnHolds_def)
  have edge: "reqEdge c = reqEdge cr" using known c(1) requestStep_key unfolding knownRequest_def by fastforce
  obtain it1 where it1: "updateItem ?k1 (pivotActions ConsentApproved now) (T ?k1) = Some it1"
      "represents it1 (ERequest (settled ConsentApproved now c))" using tab.pivot_item [OF wf c(1)] by blast
  obtain it2 where it2: "updateItem ?k2 (upsertActions cand g) (T ?k2) = Some it2" using ok by auto
  then obtain cid where rep2: "represents it2 (EConsent (storedGrant cid g))" using upsertUpdate_item [OF inv] by blast
  have rk: "recKey (storedGrant cid g) = recKey g" by simp
  have l1: "later T (T(?k2 \<mapsto> it2))" by (rule later_grant [OF inv rep2 rk])
  have "requestView (T(?k2 \<mapsto> it2)) (crID cr) = Some c" by (simp add: put_consent [OF rep2 rk] c)
  then have l2: "later (T(?k2 \<mapsto> it2)) (T(?k2 \<mapsto> it2, ?k1 \<mapsto> it1))"
    by (rule later_settle [OF later_inv [OF l1] _ c(2) it1(2)])
       (use put_consent(3) [OF rep2 rk, of T] key edge in \<open>auto simp del: fun_upd_apply intro: fun_upd_same\<close>)
  have T2: "T2 = T(?k2 \<mapsto> it2, ?k1 \<mapsto> it1)" using ok it1(1) it2 by (simp add: txnApply_def fun_upd_twist)
  have id: "crID (settled ConsentApproved now c) = crID cr" using requestView_id [OF wf c(1)] by simp
  have "resolvedID T2 (crID cr) \<and> hasGrant T2 (recKey g)"
    by (simp add: T2 resolvedID_def hasGrant_def put_request [OF it1(2) id] put_consent [OF rep2 rk])
  then show ?thesis using later_trans [OF l1 l2] T2 key by simp
next
  case (lost e)
  then show ?thesis using later_refl [OF inv] by simp
qed

lemma safe_retryLoop:
  assumes K: "\<And>T T'. K T \<Longrightarrow> later T T' \<Longrightarrow> K T'"
    and txn: "\<And>T' r T2. later T T' \<Longrightarrow> unusedIDs ws T' \<Longrightarrow> transactOut ws T' r T2 \<Longrightarrow> later T' T2 \<and> (r = None \<longrightarrow> K T2)"
  shows "later T T1 \<Longrightarrow> n \<noteq> 0 \<or> err \<noteq> None \<Longrightarrow> safe (retryLoop n (TransactWriteItems ws Ret) err) (\<lambda>r T'. r = None \<longrightarrow> K T') T1"
proof (induction n arbitrary: T1 err)
  case 0
  then show ?case unfolding retryLoop.simps by (intro safe_Ret) auto
next
  case (Suc n)
  have cont: "safe (case e of None \<Rightarrow> Ret None | Some x \<Rightarrow> if \<not> isTxnConflict x then Ret (Some x)
      else Sleep ((txnConflictBudget - n) * 20) (retryLoop n (TransactWriteItems ws Ret) (Some x))) (\<lambda>r T'. r = None \<longrightarrow> K T') T3"
    if l: "later T T3" and e: "e = None \<longrightarrow> K T3" for e T3
  proof (cases e)
    case None
    have "safe (Ret None) (\<lambda>r T'. r = None \<longrightarrow> K T') T3" by (rule safe_Ret) (use K e None in blast)
    then show ?thesis using None by simp
  next
    case (Some x)
    have "safe (Ret (Some x)) (\<lambda>r T'. r = None \<longrightarrow> K T') T3" by (rule safe_Ret) simp
    moreover have "safe (Sleep k (retryLoop n (TransactWriteItems ws Ret) (Some x))) (\<lambda>r T'. r = None \<longrightarrow> K T') T3" for k
      by (rule safe_Sleep, rule Suc.IH) (use later_trans [OF l] in auto)
    ultimately show ?thesis using Some by (simp del: safe.simps)
  qed
  show ?case
    unfolding retryLoop.simps
  proof (rule safe_bindP, unfold safe.simps(7), intro wheneverI allI impI)
    fix T' r T2 assume l: "later T1 T'" "unusedIDs ws T'" "transactOut ws T' r T2"
    have lT': "later T T'" using later_trans [OF Suc.prems(1) l(1)] .
    then have eff: "later T' T2" "r = None \<longrightarrow> K T2" using txn l(2,3) by blast+
    have "safe (Ret r) (\<lambda>a. safe (case a of None \<Rightarrow> Ret None | Some x \<Rightarrow> if \<not> isTxnConflict x then Ret (Some x)
      else Sleep ((txnConflictBudget - n) * 20) (retryLoop n (TransactWriteItems ws Ret) (Some x))) (\<lambda>r T'. r = None \<longrightarrow> K T')) T2"
      by (rule safe_Ret, rule cont) (use later_trans [OF later_trans [OF lT' eff(1)]] eff(2) K in blast)+
    then show "later T' T2 \<and> safe (Ret r) (\<lambda>a. safe (case a of None \<Rightarrow> Ret None | Some x \<Rightarrow> if \<not> isTxnConflict x then Ret (Some x)
      else Sleep ((txnConflictBudget - n) * 20) (retryLoop n (TransactWriteItems ws Ret) (Some x))) (\<lambda>r T'. r = None \<longrightarrow> K T')) T2"
      using eff(1) by blast
  qed
qed

lemma safe_approvePivot:
  assumes known: "knownRequest T cr" and key: "recKey g = reqEdge cr"
  shows "harmless (approvePivot (crID cr) u now cr g) T"
  unfolding approvePivot_def consentUpsertUpdate_def bindP_assoc bindP.simps split
proof (rule safe_bindP, rule safe_genID)
  fix cand T1 assume l: "later T T1"
  let ?ws = "[TUpdate (creqPK (crID cr), skMeta) (pivotCond u) (pivotActions ConsentApproved now),
      TUpdate (conPK (recKey g), skMeta) CTrue (upsertActions cand g)]"
  let ?K = "\<lambda>T. resolvedID T (crID cr) \<and> hasGrant T (reqEdge cr)"
  have txn: "later T' T2 \<and> (r = None \<longrightarrow> ?K T2)" if "later T1 T'" "transactOut ?ws T' r T2" for T' r T2
    using approve_txn [OF later_inv [OF that(1)] knownRequest_later [OF known later_trans [OF l that(1)]] key that(2)] .
  have retry: "safe (retryOnTxnConflict (TransactWriteItems ?ws Ret)) (\<lambda>r T'. r = None \<longrightarrow> ?K T') T1"
    unfolding retryOnTxnConflict_def
    by (rule safe_retryLoop [where T = T1]) (use resolvedID_later hasGrant_later txn later_refl [OF later_inv [OF l]] in \<open>auto simp: txnConflictBudget_def\<close>)
  show "harmless (bindP (retryOnTxnConflict (TransactWriteItems ?ws Ret)) (\<lambda>err. case err of
         Some x \<Rightarrow> if isTxnCondFailed x \<or> isCondFailed x then resolveRecover (crID cr) else Ret (Inl (awsErr x))
       | None \<Rightarrow> bindP (freeOpenMarker (reqOpenKey cr) (crID cr)) (\<lambda>_.
           bindP (sweep (crID cr) g now) (\<lambda>_.
             Ret (Inr (Some (cr\<lparr>crStatus := ConsentApproved, crResolvedAt := Some now\<rparr>))))))) T1"
  proof (rule safe_bindP, rule safe_mono [OF retry])
    fix err :: "aws_error option" and T2 assume K: "err = None \<longrightarrow> ?K T2"
    have sweep: "harmless (bindP (sweep (crID cr) g now) (\<lambda>_. Ret res)) T3" if "hasGrant T3 (reqEdge cr)" for T3 and res :: "ConsentRequest option result"
      by (rule safe_bindP, rule safe_mono [OF safe_sweep]) (use that key harmless_Ret in auto)
    have "harmless (bindP (freeOpenMarker (reqOpenKey cr) (crID cr)) (\<lambda>_. bindP (sweep (crID cr) g now) (\<lambda>_. Ret res))) T2"
      if "err = None" for res :: "ConsentRequest option result"
      by (rule safe_bindP, rule safe_freeMarker) (use K that sweep hasGrant_later in auto)
    then show "harmless (case err of
         Some x \<Rightarrow> if isTxnCondFailed x \<or> isCondFailed x then resolveRecover (crID cr) else Ret (Inl (awsErr x))
       | None \<Rightarrow> bindP (freeOpenMarker (reqOpenKey cr) (crID cr)) (\<lambda>_.
           bindP (sweep (crID cr) g now) (\<lambda>_.
             Ret (Inr (Some (cr\<lparr>crStatus := ConsentApproved, crResolvedAt := Some now\<rparr>)))))) T2"
      using safe_recover harmless_Ret by (cases err) (auto simp del: safe.simps)
  qed
qed

lemma safe_denyPivot:
  assumes known: "knownRequest T cr"
  shows "harmless (denyPivot (crID cr) u now cr) T"
  unfolding denyPivot_def
proof (rule safe_UpdateItem)
  fix T' r T2 assume l: "later T T'" and out: "updateOut (creqPK (crID cr), skMeta) (pivotCond u) (pivotActions ConsentDenied now) T' r T2"
  note eff = pivot_update [OF later_inv [OF l] out]
  have "harmless (bindP (freeOpenMarker (reqOpenKey cr) (crID cr)) (\<lambda>_. Ret res)) T2" if "r = Inr it" for it and res :: "ConsentRequest option result"
    by (rule safe_bindP, rule safe_freeMarker) (use eff that harmless_Ret in auto)
  then show "later T' T2 \<and> harmless (case r of Inl err \<Rightarrow> if isCondFailed err then resolveRecover (crID cr) else Ret (Inl (awsErr err))
       | Inr _ \<Rightarrow> bindP (freeOpenMarker (reqOpenKey cr) (crID cr)) (\<lambda>_.
           Ret (Inr (Some (cr\<lparr>crStatus := ConsentDenied, crResolvedAt := Some now\<rparr>))))) T2"
    using eff safe_recover harmless_Ret by (cases r) (auto simp del: safe.simps)
qed

lemma harmless_getDecode: "harmless (getDecode c k dec) T"
  by (rule safe_getDecode) simp_all

lemma harmless_queryAll: "harmless (queryAll q) T"
  by (rule safe_query) simp

lemma harmless_bind: "harmless p T \<Longrightarrow> (\<And>a T'. harmless (f a) T') \<Longrightarrow> harmless (bindP p f) T"
  by (rule safe_bindP, erule safe_mono) simp

lemma harmless_queryDecode: "harmless (queryDecode q dec keep) T"
proof -
  have "harmless (case r of Inl err \<Rightarrow> Ret (Inl (awsErr err)) | Inr items \<Rightarrow> Ret (decodeAll dec keep items)) T'" for r T'
    by (cases r) (simp_all only: sum.case harmless_Ret)
  then show ?thesis unfolding queryDecode_def by (intro harmless_bind harmless_queryAll)
qed

lemma harmless_expiry: "harmless (ConsentExpiry_ddb p c t) T"
  unfolding ConsentExpiry_ddb_def GetTemplate_ddb_def
  by (intro harmless_bind harmless_getDecode) (auto split: sum.split option.split simp del: safe.simps intro: harmless_Ret)

lemma safe_TimeNow: "(\<And>T' t. later T T' \<Longrightarrow> safe (g t) Q T') \<Longrightarrow> safe (TimeNow g) Q T"
  by (simp add: whenever_def)

lemma recKey_grantOf: "recKey (grantOf cr sc now ex) = reqEdge cr"
  by (simp add: grantOf_def recKey_def reqEdge_def)

lemma safe_resolve: "harmless (ResolveConsentRequest_ddb oid u approve scopes) T"
  unfolding ResolveConsentRequest_ddb_def GetConsentRequest_ddb_def
proof (rule safe_bindP, rule safe_request)
  let ?body = "\<lambda>cr. if u \<noteq> [] \<and> crUserID cr \<noteq> u then Ret (Inr None)
         else TimeNow (\<lambda>now.
           if \<not> approve then denyPivot oid u now cr
           else bindP (ConsentExpiry_ddb (crParentType cr) (crChildType cr) now) (\<lambda>x. case x of
               Inl e \<Rightarrow> Ret (Inl e)
             | Inr expiry \<Rightarrow>
                 approvePivot oid u now cr (grantOf cr (if scopes = None then crScopes cr else scopes) now expiry)))"
  fix T' T0 T'' assume l: "later T T'" "readAt False T0 T'" "later T' T''"
  have body: "harmless (?body cr) T''" if cr: "requestView T0 oid = Some cr" for cr
  proof -
    have known: "crID cr = oid" "knownRequest T'' cr"
      using knownRequest_read [of T0 T' oid cr] readAtD [OF l(2) later_inv [OF l(1)]] cr knownRequest_later l(3) by blast+
    have ap: "harmless (case x of Inl e \<Rightarrow> Ret (Inl e) | Inr expiry \<Rightarrow>
        approvePivot oid u now cr (grantOf cr sc now expiry)) T3" if "later T'' T3" for x now sc T3
      using safe_approvePivot [OF knownRequest_later [OF known(2) that] recKey_grantOf] known(1) harmless_Ret
      by (cases x) (auto simp del: safe.simps)
    have "harmless (TimeNow (\<lambda>now. if \<not> approve then denyPivot oid u now cr
           else bindP (ConsentExpiry_ddb (crParentType cr) (crChildType cr) now) (\<lambda>x. case x of
               Inl e \<Rightarrow> Ret (Inl e)
             | Inr expiry \<Rightarrow>
                 approvePivot oid u now cr (grantOf cr (if scopes = None then crScopes cr else scopes) now expiry)))) T''"
    proof (rule safe_TimeNow)
      fix T2 now assume l2: "later T'' T2"
      have d: "harmless (denyPivot oid u now cr) T2" using safe_denyPivot [OF knownRequest_later [OF known(2) l2]] known(1) by blast
      have "harmless (bindP (ConsentExpiry_ddb (crParentType cr) (crChildType cr) now) (\<lambda>x. case x of
               Inl e \<Rightarrow> Ret (Inl e)
             | Inr expiry \<Rightarrow>
                 approvePivot oid u now cr (grantOf cr (if scopes = None then crScopes cr else scopes) now expiry))) T2"
        by (rule safe_bindP, rule safe_mono [OF safe_track [OF harmless_expiry later_self [OF l2]]])
           (use ap later_trans [OF l2] in blast)
      then show "harmless (if \<not> approve then denyPivot oid u now cr
           else bindP (ConsentExpiry_ddb (crParentType cr) (crChildType cr) now) (\<lambda>x. case x of
               Inl e \<Rightarrow> Ret (Inl e)
             | Inr expiry \<Rightarrow>
                 approvePivot oid u now cr (grantOf cr (if scopes = None then crScopes cr else scopes) now expiry))) T2"
        using d by (simp only: split: if_split) blast
    qed
    then show ?thesis by (simp only: harmless_Ret split: if_split) blast
  qed
  show "harmless (case Inr (requestView T0 oid) of Inl e \<Rightarrow> Ret (Inl e) | Inr None \<Rightarrow> Ret (Inr None) | Inr (Some cr) \<Rightarrow> ?body cr) T''"
    using body harmless_Ret by (cases "requestView T0 oid") (simp_all only: sum.case option.case)
qed (simp only: sum.case harmless_Ret)

lemma safe_approvePending:
  assumes grant: "hasGrant T (reqEdge cr)" and known: "knownRequest T cr"
  shows "harmless (ApprovePendingConsentRequest_ddb (crID cr)) T"
  unfolding ApprovePendingConsentRequest_ddb_def GetConsentRequest_ddb_def
proof (rule safe_bindP, rule safe_request)
  let ?after = "\<lambda>now c u. case u of Inl err \<Rightarrow> if isCondFailed err then resolveRecover (crID cr) else Ret (Inl (awsErr err))
             | Inr _ \<Rightarrow> bindP (freeOpenMarker (reqOpenKey c) (crID cr)) (\<lambda>_.
                 Ret (Inr (Some (c\<lparr>crStatus := ConsentApproved, crResolvedAt := Some now\<rparr>))))"
  let ?pivot = "\<lambda>c. TimeNow (\<lambda>now. UpdateItem (creqPK (crID cr), skMeta) stillPending (pivotActions ConsentApproved now) (?after now c))"
  fix T' T0 T'' assume l: "later T T'" "readAt False T0 T'" "later T' T''"
  have pivot: "harmless (?pivot c) T''" for c :: ConsentRequest
  proof (rule safe_TimeNow, rule safe_UpdateItem)
    fix T1 now T2 r T3 assume l2: "later T'' T1" "later T1 T2"
      and out: "updateOut (creqPK (crID cr), skMeta) stillPending (pivotActions ConsentApproved now) T2 r T3"
    have lT: "later T T2" using l l2 later_trans by blast
    have "hasGrant T2 (reqEdge c')" if "requestView T2 (crID cr) = Some c'" for c'
      using hasGrant_later [OF grant lT] knownRequest_later [OF known lT] that requestStep_key unfolding knownRequest_def by fastforce
    then have eff: "later T2 T3" "\<And>it. r = Inr it \<Longrightarrow> resolvedID T3 (crID cr)"
      using pivot_update [of T2 "crID cr" "[]" ConsentApproved now r T3] later_inv [OF lT] out by (auto simp: pivotCond_Nil)
    have "harmless (bindP (freeOpenMarker (reqOpenKey c) (crID cr)) (\<lambda>_. Ret res)) T3" if "r = Inr it" for it and res :: "ConsentRequest option result"
      by (rule safe_bindP, rule safe_freeMarker) (use eff that harmless_Ret in auto)
    then show "later T2 T3 \<and> harmless (?after now c r) T3"
      using eff safe_recover harmless_Ret by (cases r) (auto simp del: safe.simps)
  qed
  show "harmless (case Inr (requestView T0 (crID cr)) of Inl e \<Rightarrow> Ret (Inl e) | Inr None \<Rightarrow> Ret (Inr None)
      | Inr (Some c) \<Rightarrow> if crStatus c \<noteq> ConsentPending then Ret (Inr (Some c)) else ?pivot c) T''"
    using pivot by (cases "requestView T0 (crID cr)") (simp_all only: sum.case option.case harmless_Ret split: if_split, blast)
qed (simp only: sum.case harmless_Ret)

lemma safe_PutItem:
  assumes "\<And>T' r T2. later T T' \<Longrightarrow> unusedID it T' \<Longrightarrow> putOut it T' r T2 \<Longrightarrow> later T' T2 \<and> safe (g r) Q T2"
  shows "safe (PutItem it g) Q T"
  unfolding safe.simps using assms by (intro wheneverI allI impI)

lemma nonNil_Some: "nonNil xs \<noteq> None"
  by (cases xs) (simp_all add: nonNil_def)

lemma safe_createApproved:
  assumes grant: "hasGrant T (reqEdge req)"
  shows "harmless (CreateApprovedConsentRequest_ddb req) T"
  unfolding CreateApprovedConsentRequest_ddb_def Let_def
proof (rule safe_TimeNow, rule safe_bindP, rule safe_genID, rule safe_PutItem)
  fix T1 now oid T2 T3 r T4
  let ?cr = "req\<lparr>crScopes := nonNil (crScopes req), crID := oid, crStatus := ConsentApproved, crCreatedAt := now, crResolvedAt := Some now\<rparr>"
  assume l: "later T T1" "later T1 T2" "later T2 T3" and unused: "unusedID (creqItem ?cr) T3" and out: "putOut (creqItem ?cr) T3 r T4"
  have key: "itemKey (creqItem ?cr) = (creqPK oid, skMeta)" using itemKey_entItem [of "ERequest ?cr"] by simp
  have inv: "raceInv T3" using later_inv [OF l(3)] .
  have g: "hasGrant T3 (reqEdge req)" using hasGrant_later [OF hasGrant_later [OF hasGrant_later [OF grant l(1)] l(2)] l(3)] .
  have new: "T3 (creqPK oid, skMeta) = None" "oid \<noteq> []" using unused key unfolding unusedID_def by blast+
  have put: "later T3 (T3((creqPK oid, skMeta) \<mapsto> creqItem ?cr))"
    using later_approved [OF inv, of ?cr] new g nonNil_Some [of "crScopes req"] by (simp add: hasGrant_def)
  from out have "later T3 T4" by cases (use put key later_refl [OF inv] in auto)
  then show "later T3 T4 \<and> harmless (case r of Some x \<Rightarrow> Ret (Inl (awsErr x)) | None \<Rightarrow> Ret (Inr ?cr)) T4"
    by (cases r) (simp_all only: option.case harmless_Ret simp_thms)
qed

lemma safe_upsert: "harmless (UpsertConsent_ddb rec) T"
  unfolding UpsertConsent_ddb_def consentUpsertUpdate_def bindP_assoc bindP.simps split
proof (rule safe_bindP, rule safe_genID, rule safe_UpdateItem)
  fix cand T1 T2 r T3
  assume l: "later T1 T2" and out: "updateOut (conPK (recKey rec), skMeta) CTrue (upsertActions cand rec) T2 r T3"
  note inv = later_inv [OF l]
  have put: "later T2 (T2((conPK (recKey rec), skMeta) \<mapsto> it))"
    if it: "updateItem (conPK (recKey rec), skMeta) (upsertActions cand rec) (T2 (conPK (recKey rec), skMeta)) = Some it" for it
  proof -
    obtain cid where rep: "represents it (EConsent (storedGrant cid rec))" using upsertUpdate_item [OF inv it] by blast
    show ?thesis by (rule later_grant [OF inv rep]) simp
  qed
  from out have "later T2 T3" by cases (use put later_refl [OF inv] in auto)
  then show "later T2 T3 \<and> harmless (case r of Inl err \<Rightarrow> Ret (Inl (awsErr err)) | Inr it \<Rightarrow> Ret (unmarshalConsent it)) T3"
    by (cases r) (simp_all only: sum.case harmless_Ret simp_thms)
qed

text \<open>A revoke addresses the grant through the index; the grant it found is still there.\<close>

lemma safe_consentRows:
  assumes "\<And>T' r. later T T' \<Longrightarrow> (\<forall>items it. r = Inr items \<and> it \<in> set items \<longrightarrow>
      (\<exists>rec. itemKey it = (conPK (recKey rec), skMeta) \<and> hasGrant T' (recKey rec))) \<Longrightarrow> Q r T'"
  shows "later T T1 \<Longrightarrow> safe (findConsentRows oid n) Q T1"
proof (induction n arbitrary: T1)
  case 0
  show ?case unfolding findConsentRows.simps by (rule safe_Ret, rule assms) (use later_trans [OF 0] in auto)
next
  case (Suc n)
  let ?q = "\<lparr>qIndex = GSI2, qPK = ''CONID#'' @ oid, qPrefix = None\<rparr>"
  show ?case unfolding findConsentRows.simps
  proof (rule safe_bindP, rule safe_query)
    fix T2 T3 and r :: "item list awsres" assume l: "later T1 T2" "later T2 T3"
      and r: "\<forall>items it. r = Inr items \<and> it \<in> set items \<longrightarrow> matchesQuery ?q it \<and> (\<exists>T0 k. raceInv T0 \<and> evolves T0 T2 \<and> T0 k = Some it)"
    have found: "\<exists>rec. itemKey it = (conPK (recKey rec), skMeta) \<and> hasGrant T2 (recKey rec)" if it: "r = Inr items" "it \<in> set items" for items it
    proof -
      obtain T0 k where T0: "raceInv T0" "evolves T0 T2" "T0 k = Some it" "matchesQuery ?q it" using r it by blast
      obtain e where e: "entKey e = k" "represents it e" using wfTable_rep [OF raceInvD(2) [OF T0(1)] T0(3)] by blast
      then obtain rec where rec: "e = EConsent rec" using matches_gsi2(3) [OF e(2)] T0(4) by blast
      have "consentView T0 (recKey rec) = Some rec"
        using stored_view(4) [OF raceInvD(2) [OF T0(1)], of rec] T0(3) e rec by (auto simp: stored_def)
      then have "hasGrant T2 (recKey rec)" using evolves_consent [OF T0(2)] by (simp add: hasGrant_def)
      then show ?thesis using represents_key [OF e(2)] rec by auto
    qed
    have lT: "later T T3" using Suc.prems l later_trans by blast
    have ret: "safe (Ret r) Q T3"
      by (rule safe_Ret, rule assms) (use later_trans [OF lT] found hasGrant_later l later_trans in blast)+
    have again: "safe (if n > 0 then Sleep 100 (findConsentRows oid n) else findConsentRows oid n) Q T3"
      using Suc.IH [OF lT] safe_Sleep [of T3 "findConsentRows oid n" Q 100] Suc.IH later_trans [OF lT] by (simp only: split: if_split) blast
    show "safe (case r of Inl err \<Rightarrow> Ret (Inl err) | Inr items \<Rightarrow> if items \<noteq> [] then Ret (Inr items)
           else if n > 0 then Sleep 100 (findConsentRows oid n) else findConsentRows oid n) Q T3"
      using ret again by (cases r) (simp_all only: sum.case split: if_split, blast)
  qed
qed

lemma safe_revokeConsent:
  assumes inv: "raceInv T"
  shows "harmless (RevokeConsent_ddb oid u) T"
  unfolding RevokeConsent_ddb_def
proof (rule safe_bindP, rule safe_consentRows [OF _ later_refl [OF inv]])
  fix T' and r :: "item list awsres"
  let ?upd = "\<lambda>it. UpdateItem (itemKey it) CTrue [SetAttr ''revoked'' (AVBool True)] (\<lambda>u. case u of
                  Inl err \<Rightarrow> Ret (Inl (awsErr err)) | Inr _ \<Rightarrow> Ret (Inr True))"
  assume l: "later T T'" and r: "\<forall>items it. r = Inr items \<and> it \<in> set items \<longrightarrow>
      (\<exists>rec. itemKey it = (conPK (recKey rec), skMeta) \<and> hasGrant T' (recKey rec))"
  have upd: "harmless (?upd it) T'" if row: "r = Inr items" "it \<in> set items" for it items
  proof (rule safe_UpdateItem)
    fix T1 q T2 assume l1: "later T' T1" and out: "updateOut (itemKey it) CTrue [SetAttr ''revoked'' (AVBool True)] T1 q T2"
    obtain rec where rec: "itemKey it = (conPK (recKey rec), skMeta)" "hasGrant T' (recKey rec)" using r row by blast
    note inv1 = later_inv [OF l1]
    obtain cur where cur: "consentView T1 (recKey rec) = Some cur" using hasGrant_later [OF rec(2) l1] by (auto simp: hasGrant_def)
    then obtain it0 where it0: "T1 (conPK (recKey rec), skMeta) = Some it0" "gget it0 = gget (consentItem cur)" "recKey cur = recKey rec"
      using view_iff(4) [OF raceInvD(2) [OF inv1]] by blast
    then obtain it1 where it1: "applyUpdate [SetAttr ''revoked'' (AVBool True)] it0 = Some it1"
        "represents it1 (EConsent (cur\<lparr>conRevoked := True\<rparr>))" using consent_revoke by blast
    have put: "later T1 (T1((conPK (recKey rec), skMeta) \<mapsto> it1))"
      by (rule later_grant [OF inv1 it1(2)]) (use it0(3) in \<open>simp add: recKey_def\<close>)
    from out have eff: "later T1 T2" by cases (use put it0(1) it1(1) rec(1) later_refl [OF inv1] in auto)
    then show "later T1 T2 \<and> harmless (case q of Inl err \<Rightarrow> Ret (Inl (awsErr err)) | Inr _ \<Rightarrow> Ret (Inr True)) T2"
      by (cases q) (simp_all only: sum.case harmless_Ret simp_thms)
  qed
  show "harmless (case r of Inl err \<Rightarrow> Ret (Inl (awsErr err)) | Inr [] \<Rightarrow> Ret (Inr False)
     | Inr (it # x) \<Rightarrow> (case unmarshalConsent it of
            Inl e \<Rightarrow> Ret (Inl e)
          | Inr row \<Rightarrow> if u \<noteq> [] \<and> conUserID row \<noteq> u then Ret (Inr False) else ?upd it)) T'"
    using upd harmless_Ret by (auto split: sum.split list.split simp del: safe.simps)
qed

text \<open>Templates, agents, organizations and events do not touch the broker.\<close>

definition neutral :: "entity \<Rightarrow> bool" where
  "neutral e = (case e of ETpl _ \<Rightarrow> True | EAgent _ \<Rightarrow> True | EEvent _ _ _ \<Rightarrow> True | EOrg _ \<Rightarrow> True | _ \<Rightarrow> False)"

lemma later_neutral:
  assumes "raceInv T" and "neutral e" and "represents it e" and "entKey e = k"
  shows "later T (T(k \<mapsto> it))"
  using assms view_put(4-6) [OF assms(3), of T] wfTable_put [OF raceInvD(2) [OF assms(1)] assms(3,4)]
  by (intro later_frame) (auto simp: neutral_def split: entity.splits)

lemma safe_putNeutral:
  assumes e: "neutral e" and g: "\<And>r T'. later T T' \<Longrightarrow> harmless (g r) T'"
  shows "harmless (PutItem (entItem e) g) T"
proof (rule safe_PutItem)
  fix T' r T2 assume l: "later T T'" and out: "putOut (entItem e) T' r T2"
  have put: "later T' (T'(itemKey (entItem e) \<mapsto> entItem e))"
    using later_neutral [OF later_inv [OF l] e represents_self refl] by (simp add: itemKey_entItem)
  from out have "later T' T2" by cases (use put later_refl [OF later_inv [OF l]] in auto)
  then show "later T' T2 \<and> harmless (g r) T2" using g later_trans [OF l] by blast
qed

lemma safe_updateNeutral:
  assumes upd: "\<And>T' it it'. wfTable T' \<Longrightarrow> T' k = Some it \<Longrightarrow> applyUpdate u it = Some it' \<Longrightarrow> \<exists>e. neutral e \<and> represents it' e \<and> entKey e = k"
    and g: "\<And>r T'. harmless (g r) T'"
  shows "harmless (UpdateItem k (CExists ''pk'') u g) T"
proof (rule safe_UpdateItem)
  fix T' r T2 assume l: "later T T'" and out: "updateOut k (CExists ''pk'') u T' r T2"
  note inv = later_inv [OF l]
  have put: "later T' (T'(k \<mapsto> it'))" if c: "evalCond (CExists ''pk'') (T' k)" and it: "updateItem k u (T' k) = Some it'" for it'
  proof -
    obtain it where "T' k = Some it" "applyUpdate u it = Some it'" using c it by (cases "T' k") auto
    then obtain e where "neutral e" "represents it' e" "entKey e = k" using upd [OF raceInvD(2) [OF inv]] by blast
    then show ?thesis by (rule later_neutral [OF inv])
  qed
  from out show "later T' T2 \<and> harmless (g r) T2" by cases (use put later_refl [OF inv] g in blast)+
qed

lemma safe_condSet:
  assumes "\<And>it r. gget it = gget (agentItem r) \<Longrightarrow> \<exists>it'. applyUpdate u it = Some it' \<and> represents it' (EAgent (f r))"
    and "\<And>r. agAgentID (f r) = agAgentID r"
  shows "harmless (condSet i u) T"
  unfolding condSet_def
proof (rule safe_updateNeutral)
  fix T' it it' assume "wfTable T'" "T' (agPK i, skMeta) = Some it" and it': "applyUpdate u it = Some it'"
  then obtain r where "agAgentID r = i" "gget it = gget (agentItem r)" using wfTable_item(2) by blast
  then have "represents it' (EAgent (f r))" "entKey (EAgent (f r)) = (agPK i, skMeta)"
    using assms(1) [of it r] assms(2) [of r] it' by auto
  then show "\<exists>e. neutral e \<and> represents it' e \<and> entKey e = (agPK i, skMeta)"
    by (intro exI [of _ "EAgent (f r)"]) (simp add: neutral_def)
next
  fix q :: "item awsres" and T'
  show "harmless (case q of Inl err \<Rightarrow> if isCondFailed err then Ret (Inr False) else Ret (Inl (awsErr err)) | Inr _ \<Rightarrow> Ret (Inr True)) T'"
    by (cases q) (simp_all only: sum.case harmless_Ret simp_thms split: if_split)
qed

lemma safe_updateTemplate: "harmless (UpdateTemplateStatus_ddb ty st) T"
  unfolding UpdateTemplateStatus_ddb_def
proof (rule safe_updateNeutral)
  fix T' it it' assume "wfTable T'" "T' (tplPK ty, skMeta) = Some it" and it': "applyUpdate [SetPath ''tpl'' ''status'' (AVS st)] it = Some it'"
  then obtain t where t: "tplAgentType t = ty" "gget it = gget (templateItem t)" using wfTable_item(1) by blast
  then have "represents it' (ETpl (t\<lparr>tplStatus := st\<rparr>))" using template_set_status [OF t(2), of st] it' by auto
  then show "\<exists>e. neutral e \<and> represents it' e \<and> entKey e = (tplPK ty, skMeta)"
    using t(1) by (intro exI [of _ "ETpl (t\<lparr>tplStatus := st\<rparr>)"]) (simp add: neutral_def)
next
  fix q :: "item awsres" and T'
  show "harmless (case q of Inl err \<Rightarrow> if isCondFailed err then Ret (Inr None) else Ret (Inl (awsErr err))
      | Inr it \<Rightarrow> (case unmarshalTemplate it of Inl e \<Rightarrow> Ret (Inl e) | Inr t \<Rightarrow> Ret (Inr (Some t)))) T'"
    by (auto split: sum.split simp del: safe.simps intro: harmless_Ret)
qed

lemma safe_deleteNeutral:
  assumes k: "\<And>x. k \<noteq> (creqPK x, skMeta)" "\<And>x. k \<noteq> (conPK x, skMeta)" "\<And>x. k \<noteq> (openPK x, skMeta)"
  shows "harmless (deleteFound k) T"
  unfolding deleteFound_def safe.simps
proof (intro wheneverI allI impI)
  fix T' r T2 assume l: "later T T'" and out: "deleteOut k CTrue T' r T2"
  note inv = later_inv [OF l]
  have del: "later T' (T'(k := None))"
    by (rule later_frame [OF inv wfTable_del [OF raceInvD(2) [OF inv]]]) (use k in \<open>auto intro!: ext simp: view_upd\<close>)
  from out have "later T' T2" by cases (use del later_refl [OF inv] in auto)
  then show "later T' T2 \<and> harmless (case r of Inl err \<Rightarrow> Ret (Inl (awsErr err)) | Inr old \<Rightarrow> Ret (Inr (old \<noteq> None))) T2"
    by (cases r) (simp_all only: sum.case harmless_Ret simp_thms)
qed

lemma safe_putPlain: "neutral e \<Longrightarrow> harmless (putPlain (entItem e)) T"
  unfolding putPlain_def by (rule safe_putNeutral) (auto simp del: safe.simps intro: harmless_Ret)

lemma safe_appendEvent: "harmless (AppendEvent_ddb i ev) T"
proof -
  have "harmless (PutItem (entItem (EEvent i x e)) (\<lambda>err. case err of Some x \<Rightarrow> Ret (Inl (awsErr x)) | None \<Rightarrow> Ret (Inr e))) T'" for x e T'
    by (rule safe_putNeutral) (auto simp: neutral_def split: option.split simp del: safe.simps intro: harmless_Ret)
  then show ?thesis
    unfolding AppendEvent_ddb_def Let_def by (intro safe_TimeNow) (simp add: whenever_def)
qed

end
