(* ===== verification/DynamoReplicas.thy ===== *)
theory DynamoReplicas
  imports DynamoRace
begin

text \<open>
  Every store operation, run by any number of replicas at once: each is safe in the sense of the
  rely-guarantee argument, so the broker invariant holds in every interleaving.
\<close>

section \<open>The store operations\<close>

text \<open>
  What a replica may start. Its handlers call the two status-only approvals only after they read an
  active grant on the edge of the request, and the grants of an edge are never deleted.
\<close>

inductive storeOp :: "table \<Rightarrow> unit prog \<Rightarrow> bool" where
  putTemplate: "storeOp T (bindP (PutTemplate_ddb t) (\<lambda>_. Ret ()))"
| getTemplate: "storeOp T (bindP (GetTemplate_ddb ty) (\<lambda>_. Ret ()))"
| listTemplateTypes: "storeOp T (bindP ListTemplateTypes_ddb (\<lambda>_. Ret ()))"
| listTemplates: "storeOp T (bindP (ListTemplates_ddb b) (\<lambda>_. Ret ()))"
| updateTemplateStatus: "storeOp T (bindP (UpdateTemplateStatus_ddb ty st) (\<lambda>_. Ret ()))"
| deleteTemplate: "storeOp T (bindP (DeleteTemplate_ddb ty) (\<lambda>_. Ret ()))"
| registerAgent: "storeOp T (bindP (RegisterAgent_ddb r) (\<lambda>_. Ret ()))"
| getAgent: "storeOp T (bindP (GetAgent_ddb oid) (\<lambda>_. Ret ()))"
| listAgents: "storeOp T (bindP ListAgents_ddb (\<lambda>_. Ret ()))"
| listChildren: "storeOp T (bindP (ListChildren_ddb oid) (\<lambda>_. Ret ()))"
| dismissAgent: "storeOp T (bindP (DismissAgent_ddb oid) (\<lambda>_. Ret ()))"
| updateAgentStatus: "storeOp T (bindP (UpdateAgentStatus_ddb oid st) (\<lambda>_. Ret ()))"
| appendEvent: "storeOp T (bindP (AppendEvent_ddb oid ev) (\<lambda>_. Ret ()))"
| getEvents: "storeOp T (bindP (GetEvents_ddb oid) (\<lambda>_. Ret ()))"
| putOrg: "storeOp T (bindP (PutOrg_ddb org) (\<lambda>_. Ret ()))"
| getOrg: "storeOp T (bindP (GetOrg_ddb oid) (\<lambda>_. Ret ()))"
| listOrgs: "storeOp T (bindP ListOrgs_ddb (\<lambda>_. Ret ()))"
| deleteOrg: "storeOp T (bindP (DeleteOrg_ddb oid) (\<lambda>_. Ret ()))"
| upsertConsent: "storeOp T (bindP (UpsertConsent_ddb rec) (\<lambda>_. Ret ()))"
| findConsent: "storeOp T (bindP (FindConsent_ddb u p c) (\<lambda>_. Ret ()))"
| listConsents: "storeOp T (bindP (ListConsents_ddb u) (\<lambda>_. Ret ()))"
| revokeConsent: "storeOp T (bindP (RevokeConsent_ddb oid u) (\<lambda>_. Ret ()))"
| consentExpiry: "storeOp T (bindP (ConsentExpiry_ddb p c now) (\<lambda>_. Ret ()))"
| createRequest: "storeOp T (bindP (CreateConsentRequest_ddb req) (\<lambda>_. Ret ()))"
| createApproved: "hasGrant T (reqEdge req) \<Longrightarrow> storeOp T (bindP (CreateApprovedConsentRequest_ddb req) (\<lambda>_. Ret ()))"
| getRequest: "storeOp T (bindP (GetConsentRequest_ddb oid) (\<lambda>_. Ret ()))"
| listRequests: "storeOp T (bindP (ListConsentRequests_ddb u stt) (\<lambda>_. Ret ()))"
| resolveRequest: "storeOp T (bindP (ResolveConsentRequest_ddb oid u approve scopes) (\<lambda>_. Ret ()))"
| approvePending: "hasGrant T (reqEdge cr) \<Longrightarrow> knownRequest T cr \<Longrightarrow>
    storeOp T (bindP (ApprovePendingConsentRequest_ddb (crID cr)) (\<lambda>_. Ret ()))"

lemma harmless_reads:
  "harmless (GetTemplate_ddb ty) T" "harmless ListTemplateTypes_ddb T" "harmless (ListTemplates_ddb b) T"
  "harmless (GetAgent_ddb oid) T" "harmless ListAgents_ddb T" "harmless (ListChildren_ddb oid) T"
  "harmless (GetEvents_ddb oid) T" "harmless (GetOrg_ddb oid) T" "harmless ListOrgs_ddb T"
  "harmless (FindConsent_ddb u p c) T" "harmless (ListConsents_ddb u) T" "harmless (GetConsentRequest_ddb oid) T"
  "harmless (ListConsentRequests_ddb u stt) T"
  unfolding GetTemplate_ddb_def ListTemplateTypes_ddb_def ListTemplates_ddb_def listTemplateItems_def GetAgent_ddb_def
    ListAgents_ddb_def ListChildren_ddb_def GetEvents_ddb_def GetOrg_ddb_def ListOrgs_ddb_def FindConsent_ddb_def
    ListConsents_ddb_def GetConsentRequest_ddb_def getConsentRequest_ddb_def ListConsentRequests_ddb_def
  by (intro harmless_bind harmless_getDecode harmless_queryDecode harmless_queryAll harmless_Ret;
      auto split: sum.split option.split simp del: safe.simps intro: harmless_Ret)+

lemma harmless_neutral_writes:
  "harmless (PutTemplate_ddb t) T" "harmless (RegisterAgent_ddb r) T" "harmless (PutOrg_ddb org) T"
  "harmless (DeleteTemplate_ddb ty) T" "harmless (DeleteOrg_ddb oid) T"
  "harmless (DismissAgent_ddb oid) T" "harmless (UpdateAgentStatus_ddb oid st) T"
proof -
  show "harmless (PutTemplate_ddb t) T" "harmless (RegisterAgent_ddb r) T" "harmless (PutOrg_ddb org) T"
    using safe_putPlain [of "ETpl t"] safe_putPlain [of "EAgent r"] safe_putPlain [of "EOrg org"]
    by (simp_all add: PutTemplate_ddb_def RegisterAgent_ddb_def PutOrg_ddb_def neutral_def)
  show "harmless (DeleteTemplate_ddb ty) T" "harmless (DeleteOrg_ddb oid) T"
    unfolding DeleteTemplate_ddb_def DeleteOrg_ddb_def by (rule safe_deleteNeutral; simp)+
  show "harmless (DismissAgent_ddb oid) T" "harmless (UpdateAgentStatus_ddb oid st) T"
    unfolding DismissAgent_ddb_def UpdateAgentStatus_ddb_def
    by (rule safe_condSet, erule agent_set_dismissed agent_set_status, simp)+
qed

lemma storeOp_safe:
  assumes "raceInv T" and "storeOp T p"
  shows "safeThread T p"
  using assms(2)
  by (cases, simp_all only:)
     (rule harmless_bind, auto simp del: safe.simps intro: harmless_Ret harmless_reads harmless_neutral_writes harmless_expiry
        safe_appendEvent safe_updateTemplate safe_upsert safe_revokeConsent assms(1) safe_resolve safe_createApproved safe_approvePending
        safe_createLoop simp: CreateConsentRequest_ddb_def)+

text \<open>
  C4: the durable broker under concurrency and faults. Replicas run any number of store operations at
  once against one table, their calls interleaved in any order; reads that are not strongly
  consistent answer from any earlier table, a call may fail, and a failed write may have happened.
  In every reachable table two pending requests of one slot are the same request and it holds the
  slot's marker, a marker points to a request of its slot, an approved request has a grant on its
  edge, and since any earlier table a request has only been resolved: one already resolved has not
  changed and none has disappeared.
\<close>

theorem concurrent_broker_invariant:
  assumes "raceReach storeOp (H, T, ts)"
  shows "(\<forall>rid cr. requestView T rid = Some cr \<and> crStatus cr = ConsentPending \<longrightarrow> openView T (reqOpenKey cr) = Some rid) \<and>
    (\<forall>rid rid' cr cr'. requestView T rid = Some cr \<and> requestView T rid' = Some cr' \<and> crStatus cr = ConsentPending \<and>
       crStatus cr' = ConsentPending \<and> reqOpenKey cr = reqOpenKey cr' \<longrightarrow> rid = rid') \<and>
    (\<forall>key rid. openView T key = Some rid \<longrightarrow> (\<exists>cr. requestView T rid = Some cr \<and> reqOpenKey cr = key)) \<and>
    (\<forall>rid cr. requestView T rid = Some cr \<and> crStatus cr = ConsentApproved \<longrightarrow> consentView T (reqEdge cr) \<noteq> None) \<and>
    (\<forall>T0 \<in> H. \<forall>rid cr. requestView T0 rid = Some cr \<longrightarrow> (\<exists>cr'. requestView T rid = Some cr' \<and>
       (cr' = cr \<or> crStatus cr = ConsentPending \<and> (\<exists>st now. st \<noteq> ConsentPending \<and> cr' = settled st now cr))))"
proof -
  have ok: "raceOk (H, T, ts)" using raceReach_ok [OF storeOp_safe assms] .
  then have inv: "raceInv T" by (simp add: raceOk_def)
  then have own: "ownsMarkers T" by (simp add: raceInv_def dynInv_def)
  then have pend: "openView T (reqOpenKey cr) = Some rid" if "requestView T rid = Some cr" "crStatus cr = ConsentPending" for rid cr
    using that unfolding ownsMarkers_def by blast
  have "rid = rid'" if "requestView T rid = Some cr" "requestView T rid' = Some cr'" "crStatus cr = ConsentPending"
      "crStatus cr' = ConsentPending" "reqOpenKey cr = reqOpenKey cr'" for rid rid' cr cr'
    using pend [OF that(1,3)] pend [OF that(2,4)] that(5) by simp
  moreover have "\<exists>cr'. requestView T rid = Some cr' \<and> requestStep cr cr'" if "T0 \<in> H" "requestView T0 rid = Some cr" for T0 rid cr
    using ok evolves_request that unfolding raceOk_def by blast
  ultimately show ?thesis
    using pend own raceInvD(4) [OF inv] unfolding ownsMarkers_def requestStep_def by blast
qed

text \<open>A run of two replicas that create the same request at once: one wins the slot.\<close>

definition creating :: "unit prog" where
  "creating = bindP (CreateConsentRequest_ddb (demoRequest ''alice'' ''a1'')) (\<lambda>_. Ret ())"

definition creatingWrite :: "time \<Rightarrow> string \<Rightarrow> time \<Rightarrow> unit prog" where
  "creatingWrite nano r created =
     (let k = reqOpenKey (demoRequest ''alice'' ''a1'');
          fresh = freshRequest (''creq-'' @ show_int nano @ ''-'' @ r) created (demoRequest ''alice'' ''a1'')
      in TransactWriteItems (createWrites k fresh)
           (\<lambda>err. bindP (createOutcome k fresh 20 (createLoop k (demoRequest ''alice'' ''a1'') (txnConflictBudget - 1)) err) (\<lambda>_. Ret ())))"

lemma creating_calls: "creating = TimeNow (\<lambda>nano. RandHex 4 (\<lambda>r. TimeNow (creatingWrite nano r)))"
  by (simp add: creating_def creatingWrite_def CreateConsentRequest_ddb_def txnConflictBudget_def genID_def
      numeral_eq_Suc Let_def fun_eq_iff)

lemma raceReach_thread:
  assumes "raceReach storeOp (H, T, ts)" and "i < length ts" and "ts ! i = creating"
  shows "raceReach storeOp (H, T, ts[i := creatingWrite nano r created])"
proof -
  have a: "raceReach storeOp (H, T, ts[i := RandHex 4 (\<lambda>r. TimeNow (creatingWrite nano r))])"
    by (rule raceReach.step [OF assms(1)], rule raceStep.now [OF assms(2), of "\<lambda>nano. RandHex 4 (\<lambda>r. TimeNow (creatingWrite nano r))"])
       (simp add: assms(3) creating_calls)
  have b: "raceReach storeOp (H, T, ts[i := TimeNow (creatingWrite nano r)])"
    using raceReach.step [OF a raceStep.rand [of i _ 4 "\<lambda>r. TimeNow (creatingWrite nano r)"]] assms(2) by simp
  show ?thesis using raceReach.step [OF b raceStep.now [of i _ "creatingWrite nano r"]] assms(2) by simp
qed

lemma demo_race:
  "\<exists>H p. raceReach storeOp (H, gget (tsItems demoTable), [p, creatingWrite 2 ''01'' 2])"
proof -
  have op: "storeOp T creating" for T unfolding creating_def by (rule createRequest)
  have st: "raceStep storeOp (H, T, ts) (H, T, creating # ts)" for H T ts using op by (rule raceStep.start)
  have a: "raceReach storeOp ({}, Map.empty, [creating, creating])"
    by (rule raceReach.step [OF raceReach.step [OF raceReach.start st] st])
  have b: "raceReach storeOp ({}, Map.empty, [creatingWrite 1 ''00'' 1, creatingWrite 2 ''01'' 2])"
    using raceReach_thread [OF raceReach_thread [OF a, of 0 1 "''00''" 1], of 1 2 "''01''" 2] by simp
  let ?ws = "createWrites (reqOpenKey demoWaiting) demoWaiting"
  have keys: "itemKey (openItem k i) = (openPK k, skMeta)" "itemKey (creqItem cr) = (creqPK (crID cr), skMeta)" for k i cr
    using itemKey_entItem [of "EOpen k i"] itemKey_entItem [of "ERequest cr"] by simp_all
  have id: "crID demoWaiting = ''creq-1-00''" by (simp add: demoWaiting_def freshRequest_def)
  have one: "show_nat (Suc 0) = ''1''" by (simp add: show_nat.simps) code_simp
  have wr: "\<exists>g. creatingWrite 1 ''00'' 1 = TransactWriteItems ?ws g"
    by (auto simp: creatingWrite_def Let_def demoWaiting_def freshRequest_def reqOpenKey_def show_int_def one)
  then obtain g where g: "creatingWrite 1 ''00'' 1 = TransactWriteItems ?ws g" by blast
  have out: "transactOut ?ws Map.empty None (gget (tsItems demoTable))"
    using transactOut.ok [of ?ws Map.empty None]
    by (simp add: createWrites_def keys id demoTable_items txnHolds_def txnApply_def)
  have un: "unusedIDs ?ws Map.empty"
    by (auto simp: createWrites_def unusedID_def keys id)
  show ?thesis
    using raceReach.step [OF b raceStep.transact [of 0 _ ?ws g, OF _ _ un out]] g by auto
qed

theorem concurrent_broker_invariant_witness:
  "\<exists>H ts. raceReach storeOp (H, gget (tsItems demoTable), ts) \<and>
     requestView (gget (tsItems demoTable)) ''creq-1-00'' = Some demoWaiting \<and>
     openView (gget (tsItems demoTable)) (reqOpenKey demoWaiting) = Some ''creq-1-00''"
proof -
  obtain H ts where reach: "raceReach storeOp (H, gget (tsItems demoTable), ts)" using demo_race by blast
  have view: "requestView (gget (tsItems demoTable)) ''creq-1-00'' = Some demoWaiting"
    by (simp add: demoTable_items view_upd viewAt_def unmarshal_creqItem)
  moreover have "crStatus demoWaiting = ConsentPending" by (simp add: demoWaiting_def freshRequest_def)
  ultimately have "openView (gget (tsItems demoTable)) (reqOpenKey demoWaiting) = Some ''creq-1-00''"
    using concurrent_broker_invariant [OF reach] by blast
  then show ?thesis using reach view by blast
qed

end
