(* ===== verification/TokenValidator.thy ===== *)
theory TokenValidator
  imports Prelude
begin

text \<open>
  \<open>internal/tokenvalidator/validator.go\<close>: the claims of a delegated access token. The signature check is
  a library call and a parameter; reading the claims, which may be missing or have another shape than
  expected, is modelled in full.
\<close>

section \<open>Claims\<close>

text \<open>A decoded JSON value, as \<open>any\<close> holds it: \<open>AStrings\<close> is a \<open>[]string\<close>, \<open>AArr\<close> a \<open>[]any\<close>.\<close>

datatype any =
    AString string
  | AStrings "string list"
  | AArr "any list"
  | AMap "(string \<times> any) list"
  | AOther

record Claims =
  clUser :: string
  clActingAgent :: string
  clActingAgentName :: string
  clChain :: "string list"
  clScopes :: "string list"
  clAudience :: "string list"
  clRoles :: "string list"
  clTokenUse :: string
  clOrgID :: string

definition HasScope :: "Claims \<Rightarrow> string \<Rightarrow> bool" where "HasScope c s = (s \<in> set (clScopes c))"
definition HasAudience :: "Claims \<Rightarrow> string \<Rightarrow> bool" where "HasAudience c a = (a \<in> set (clAudience c))"
definition HasRole :: "Claims \<Rightarrow> string \<Rightarrow> bool" where "HasRole c r = (r \<in> set (clRoles c))"

section \<open>Library functions\<close>

text \<open>
  \<open>strings.Fields\<close>: split at runs of white space. \<open>spaceLen\<close> is the length in bytes of the white space
  character a text begins with, zero when it begins with another: the ASCII ones and the UTF-8
  sequences of the remaining characters of \<open>unicode.IsSpace\<close>.
\<close>

definition spaceLen :: "string \<Rightarrow> nat" where
  "spaceLen s =
     (let b = map (of_char :: char \<Rightarrow> nat) (take 3 s)
      in case b of
           [] \<Rightarrow> 0
         | x # r \<Rightarrow>
             if x = 32 \<or> 9 \<le> x \<and> x \<le> 13 then 1
             else if x = 194 \<and> (take 1 r = [133] \<or> take 1 r = [160]) then 2
             else if b = [225, 154, 128] \<or> b = [226, 129, 159] \<or> b = [227, 128, 128] then 3
             else if take 2 b = [226, 128] \<and> length b = 3 \<and>
               (128 \<le> b ! 2 \<and> b ! 2 \<le> 138 \<or> b ! 2 \<in> {168, 169, 175}) then 3
             else 0)"

definition flush :: "string \<Rightarrow> string list \<Rightarrow> string list" where
  "flush word ws = (if word = [] then ws else word # ws)"

text \<open>The word being read, and the bytes of the current white space character still to skip.\<close>

fun fieldsFrom :: "string \<Rightarrow> nat \<Rightarrow> string \<Rightarrow> string list" where
  "fieldsFrom word skip [] = flush word []"
| "fieldsFrom word (Suc n) (c # cs) = fieldsFrom word n cs"
| "fieldsFrom word 0 (c # cs) =
     (if spaceLen (c # cs) > 0 then flush word (fieldsFrom [] (spaceLen (c # cs) - 1) cs)
      else fieldsFrom (word @ [c]) 0 cs)"

definition splitNonEmpty :: "string \<Rightarrow> string list" where
  "splitNonEmpty s = fieldsFrom [] 0 s"

text \<open>\<open>path.Base\<close>: the last element of a path, trailing slashes left out.\<close>

definition path_base :: "string \<Rightarrow> string" where
  "path_base p =
     (if p = [] then ''.''
      else let q = rev (dropWhile (\<lambda>c. c = CHR ''/'') (rev p));
               b = rev (takeWhile (\<lambda>c. c \<noteq> CHR ''/'') (rev q))
           in if b = [] then ''/'' else b)"

section \<open>Reading the claims\<close>

lemma size_gget: "gget m k = Some v \<Longrightarrow> size v < size (AMap m)"
  by (induction m) (auto split: if_splits)

function parseActChain :: "any \<Rightarrow> string list" where
  "parseActChain v =
     (case v of
        AMap m \<Rightarrow>
          (case gget m ''sub'' of Some (AString s) \<Rightarrow> if s \<noteq> [] then [s] else [] | _ \<Rightarrow> []) @
          (case gget m ''act'' of None \<Rightarrow> [] | Some v' \<Rightarrow> parseActChain v')
      | _ \<Rightarrow> [])"
  by pat_completeness auto
termination
  by (relation "measure size") (auto dest: size_gget)

declare parseActChain.simps [simp del]

definition parseOrgID :: "any \<Rightarrow> string" where
  "parseOrgID v = (case v of
       AStrings [s] \<Rightarrow> s
     | AArr [AString s] \<Rightarrow> s
     | AMap [(k, _)] \<Rightarrow> k
     | AString s \<Rightarrow> s
     | _ \<Rightarrow> [])"

definition stringsOf :: "any list \<Rightarrow> string list" where
  "stringsOf vs = List.map_filter (\<lambda>v. case v of AString s \<Rightarrow> Some s | _ \<Rightarrow> None) vs"

definition parseSpaceOrArray :: "any \<Rightarrow> string list" where
  "parseSpaceOrArray v = (case v of
       AString s \<Rightarrow> splitNonEmpty s
     | AStrings ss \<Rightarrow> concat (map splitNonEmpty ss)
     | AArr vs \<Rightarrow> concat (map splitNonEmpty (stringsOf vs))
     | _ \<Rightarrow> [])"

definition parseStringOrArray :: "any \<Rightarrow> string list" where
  "parseStringOrArray v = (case v of
       AString s \<Rightarrow> if s = [] then [] else [s]
     | AStrings ss \<Rightarrow> ss
     | AArr vs \<Rightarrow> filter (\<lambda>s. s \<noteq> []) (stringsOf vs)
     | _ \<Rightarrow> [])"

text \<open>A parsed token: the registered claims the code reads through accessors, and the private ones.\<close>

record Token =
  tkSubject :: string
  tkAudience :: "string list"
  tkClaims :: "(string, any) gomap"

definition claimsFromToken :: "Token \<Rightarrow> Claims" where
  "claimsFromToken tok =
     (let get = gget (tkClaims tok);
          chain = (case get ''act'' of Some v \<Rightarrow> parseActChain v | None \<Rightarrow> []);
          acting = (case chain of a # _ \<Rightarrow> a | [] \<Rightarrow> tkSubject tok)
      in \<lparr>clUser = tkSubject tok, clActingAgent = acting, clActingAgentName = path_base acting, clChain = chain,
          clScopes = (case get ''scope'' of Some v \<Rightarrow> parseSpaceOrArray v | None \<Rightarrow> []),
          clAudience = tkAudience tok,
          clRoles = (case get ''role'' of Some v \<Rightarrow> parseStringOrArray v | None \<Rightarrow> []),
          clTokenUse = (case get ''token_use'' of Some (AString s) \<Rightarrow> s | _ \<Rightarrow> []),
          clOrgID = (case get ''organization'' of Some v \<Rightarrow> parseOrgID v | None \<Rightarrow> [])\<rparr>)"

text \<open>
  \<open>JWKSValidator\<close>: the cached key set, its refresh and \<open>jwt.Parse\<close> with the issuer are library calls.
  A token that does not verify with the cached keys is tried once more with refreshed ones.
\<close>

record 'k JWKS =
  jwksGet :: "'k result"
  jwksRefresh :: "'k result"
  jwtParse :: "'k \<Rightarrow> string \<Rightarrow> Token result"

definition ValidateAccessToken :: "'k JWKS \<Rightarrow> string \<Rightarrow> Claims result" where
  "ValidateAccessToken J token =
     (case jwksGet J of
        Inl e \<Rightarrow> Inl (Err ''get JWKS'')
      | Inr keys \<Rightarrow>
          (case jwtParse J keys token of
             Inr tok \<Rightarrow> Inr (claimsFromToken tok)
           | Inl e \<Rightarrow>
               (case jwksRefresh J of
                  Inl rerr \<Rightarrow> Inl (Err ''invalid access token'')
                | Inr refreshed \<Rightarrow>
                    (case jwtParse J refreshed token of
                       Inr tok \<Rightarrow> Inr (claimsFromToken tok)
                     | Inl perr \<Rightarrow> Inl (Err ''invalid access token'')))))"

section \<open>Properties\<close>

lemma fieldsFrom_nonempty: "[] \<notin> set (fieldsFrom word n s)"
  by (induction word n s rule: fieldsFrom.induct) (auto simp: flush_def)

lemma splitNonEmpty_words: "[] \<notin> set (splitNonEmpty s)"
  by (simp add: splitNonEmpty_def fieldsFrom_nonempty)

lemma parseActChain_nonempty: "[] \<notin> set (parseActChain v)"
proof (induction v rule: parseActChain.induct)
  case (1 v)
  show ?case
  proof (cases v)
    case (AMap m)
    then have "[] \<notin> set (case gget m ''act'' of None \<Rightarrow> [] | Some v' \<Rightarrow> parseActChain v')"
      using 1 by (auto split: option.split)
    then show ?thesis using AMap by (subst parseActChain.simps) (auto split: option.split any.split)
  qed (simp_all add: parseActChain.simps)
qed

lemma path_base_nonempty: "path_base p \<noteq> []"
  by (simp add: path_base_def Let_def)

text \<open>The chain of a nested act claim, outermost first.\<close>

fun actClaim :: "string list \<Rightarrow> any" where
  "actClaim [] = AOther"
| "actClaim (s # ss) = AMap [(''sub'', AString s), (''act'', actClaim ss)]"

lemma parseActChain_actClaim: "[] \<notin> set ss \<Longrightarrow> parseActChain (actClaim ss) = ss"
  by (induction ss) (auto simp: parseActChain.simps)

text \<open>What an organization claim names.\<close>

fun orgsNamed :: "any \<Rightarrow> string set" where
  "orgsNamed (AString s) = {s}"
| "orgsNamed (AStrings ss) = set ss"
| "orgsNamed (AArr vs) = set (stringsOf vs)"
| "orgsNamed (AMap m) = set (gkeys m)"
| "orgsNamed AOther = {}"

lemma parseOrgID_single:
  assumes "parseOrgID v \<noteq> []"
  shows "orgsNamed v = {parseOrgID v}"
  using assms
  by (auto simp: parseOrgID_def stringsOf_def map_filter_simps split: any.splits list.splits prod.splits)

end
