(* ===== verification/Channel.thy ===== *)
theory Channel
  imports RegistryTypes
begin

text \<open>
  The dispatch channel to a consumer's substrate: the wire protocol of \<open>internal/substrate/channel/protocol.go\<close>
  and the hub of live connections in \<open>cmd/orchestrator/substrate_channel.go\<close>.
\<close>

section \<open>Frames\<close>

definition ProtocolVersion :: int where "ProtocolVersion = 1"

definition TypeSpawn :: string where "TypeSpawn = ''spawn''"
definition TypeKill :: string where "TypeKill = ''kill''"
definition TypeStatus :: string where "TypeStatus = ''status''"
definition TypeHeartbeat :: string where "TypeHeartbeat = ''heartbeat''"

record SpawnCommand =
  scAgentID :: string
  scAgentType :: string
  scUserID :: string
  scTenantID :: string
  scOrgID :: string
  scTask :: string
  scParentID :: string
  scLifecycle :: string
  scConsentRequired :: bool
  scSupportsChat :: bool

record Down =
  dnV :: int
  dnType :: string
  dnSpawn :: "SpawnCommand option"
  dnKill :: "string option"

record StatusReport =
  stAgentID :: string
  stPhase :: string
  stMessage :: string

record Up =
  upV :: int
  upType :: string
  upStatus :: "StatusReport option"

definition NewSpawn :: "SpawnCommand \<Rightarrow> Down" where
  "NewSpawn cmd = \<lparr>dnV = ProtocolVersion, dnType = TypeSpawn, dnSpawn = Some cmd, dnKill = None\<rparr>"

definition NewKill :: "string \<Rightarrow> Down" where
  "NewKill agentID = \<lparr>dnV = ProtocolVersion, dnType = TypeKill, dnSpawn = None, dnKill = Some agentID\<rparr>"

definition NewStatus :: "string \<Rightarrow> string \<Rightarrow> string \<Rightarrow> Up" where
  "NewStatus agentID phase msg =
     \<lparr>upV = ProtocolVersion, upType = TypeStatus, upStatus = Some \<lparr>stAgentID = agentID, stPhase = phase, stMessage = msg\<rparr>\<rparr>"

definition NewHeartbeat :: Up where
  "NewHeartbeat = \<lparr>upV = ProtocolVersion, upType = TypeHeartbeat, upStatus = None\<rparr>"

definition ErrBadVersion :: go_error where "ErrBadVersion = Err ''substrate channel: unsupported protocol version''"

definition ValidateDown :: "Down \<Rightarrow> go_error option" where
  "ValidateDown d =
     (if dnV d \<noteq> ProtocolVersion then Some ErrBadVersion
      else if dnType d = TypeSpawn then
        (case dnSpawn d of
           None \<Rightarrow> Some (Err ''substrate channel: spawn frame missing agentId/agentType'')
         | Some c \<Rightarrow> if scAgentID c = [] \<or> scAgentType c = []
             then Some (Err ''substrate channel: spawn frame missing agentId/agentType'') else None)
      else if dnType d = TypeKill then
        (case dnKill d of
           None \<Rightarrow> Some (Err ''substrate channel: kill frame missing agentId'')
         | Some a \<Rightarrow> if a = [] then Some (Err ''substrate channel: kill frame missing agentId'') else None)
      else Some (Err ''substrate channel: unknown down type''))"

definition ValidateUp :: "Up \<Rightarrow> go_error option" where
  "ValidateUp u =
     (if upV u \<noteq> ProtocolVersion then Some ErrBadVersion
      else if upType u = TypeStatus then
        (case upStatus u of
           None \<Rightarrow> Some (Err ''substrate channel: status frame missing agentId/phase'')
         | Some r \<Rightarrow> if stAgentID r = [] \<or> stPhase r = []
             then Some (Err ''substrate channel: status frame missing agentId/phase'') else None)
      else if upType u = TypeHeartbeat then None
      else Some (Err ''substrate channel: unknown up type''))"

text \<open>The JSON codec is a parameter.\<close>

definition EncodeDown :: "(Down \<Rightarrow> string result) \<Rightarrow> Down \<Rightarrow> string result" where
  "EncodeDown marshal d = (case ValidateDown d of Some e \<Rightarrow> Inl e | None \<Rightarrow> marshal d)"

definition DecodeDown :: "(string \<Rightarrow> Down result) \<Rightarrow> string \<Rightarrow> Down result" where
  "DecodeDown unmarshal b = (case unmarshal b of
       Inl e \<Rightarrow> Inl e
     | Inr d \<Rightarrow> (case ValidateDown d of Some e \<Rightarrow> Inl e | None \<Rightarrow> Inr d))"

definition EncodeUp :: "(Up \<Rightarrow> string result) \<Rightarrow> Up \<Rightarrow> string result" where
  "EncodeUp marshal u = (case ValidateUp u of Some e \<Rightarrow> Inl e | None \<Rightarrow> marshal u)"

definition DecodeUp :: "(string \<Rightarrow> Up result) \<Rightarrow> string \<Rightarrow> Up result" where
  "DecodeUp unmarshal b = (case unmarshal b of
       Inl e \<Rightarrow> Inl e
     | Inr u \<Rightarrow> (case ValidateUp u of Some e \<Rightarrow> Inl e | None \<Rightarrow> Inr u))"

section \<open>The hub\<close>

text \<open>
  A connection is identified by its pointer, a number here; \<open>cnSend\<close> is its buffered channel and \<open>cnDone\<close> whether its
  context was cancelled. The hub keeps the current connection of each organization.
\<close>

record substrateConn =
  cnPtr :: nat
  cnOrg :: string
  cnSend :: "Down list"
  cnDone :: bool
  cnLastSeen :: time

type_synonym substrateHub = "(string, substrateConn) gomap"

definition sendBuffer :: nat where "sendBuffer = 256"

definition newConn :: "nat \<Rightarrow> string \<Rightarrow> time \<Rightarrow> substrateConn" where
  "newConn p org now = \<lparr>cnPtr = p, cnOrg = org, cnSend = [], cnDone = False, cnLastSeen = now\<rparr>"

text \<open>\<open>register\<close> returns the connection it replaced, whose context is cancelled and whose socket is closed.\<close>

definition register :: "substrateConn \<Rightarrow> substrateHub \<Rightarrow> substrateConn option \<times> substrateHub" where
  "register conn h = (map_option (\<lambda>c. c\<lparr>cnDone := True\<rparr>) (gget h (cnOrg conn)), gput (cnOrg conn) conn h)"

definition unregister :: "substrateConn \<Rightarrow> substrateHub \<Rightarrow> substrateHub" where
  "unregister conn h = (case gget h (cnOrg conn) of
       Some c \<Rightarrow> if cnPtr c = cnPtr conn then gdel (cnOrg conn) h else h
     | None \<Rightarrow> h)"

definition connected :: "string \<Rightarrow> substrateHub \<Rightarrow> bool" where
  "connected org h = (gget h org \<noteq> None)"

definition liveness :: "string \<Rightarrow> substrateHub \<Rightarrow> bool \<times> time option" where
  "liveness org h = (case gget h org of
       None \<Rightarrow> (False, None)
     | Some c \<Rightarrow> (True, if cnLastSeen c > 0 then Some (cnLastSeen c) else None))"

definition push :: "string \<Rightarrow> Down \<Rightarrow> substrateHub \<Rightarrow> bool \<times> substrateHub" where
  "push org d h = (case gget h org of
       None \<Rightarrow> (False, h)
     | Some c \<Rightarrow>
         if length (cnSend c) < sendBuffer then (True, gput org (c\<lparr>cnSend := cnSend c @ [d]\<rparr>) h)
         else (False, gput org (c\<lparr>cnDone := True\<rparr>) h))"

text \<open>
  The reader of a connection stamps the time of a valid frame, the writer takes the oldest frame off the buffer.
  Both work on their own connection, which may have been replaced in the hub.
\<close>

definition ownConn :: "nat \<Rightarrow> string \<Rightarrow> substrateHub \<Rightarrow> substrateConn option" where
  "ownConn p org h = (case gget h org of Some c \<Rightarrow> if cnPtr c = p then Some c else None | None \<Rightarrow> None)"

definition seen :: "nat \<Rightarrow> string \<Rightarrow> time \<Rightarrow> Up \<Rightarrow> substrateHub \<Rightarrow> substrateHub" where
  "seen p org now up h = (case (ValidateUp up, ownConn p org h) of
       (None, Some c) \<Rightarrow> gput org (c\<lparr>cnLastSeen := now\<rparr>) h
     | _ \<Rightarrow> h)"

definition writeOne :: "nat \<Rightarrow> string \<Rightarrow> substrateHub \<Rightarrow> Down option \<times> substrateHub" where
  "writeOne p org h = (case ownConn p org h of
       Some c \<Rightarrow> (case cnSend c of
           d # ds \<Rightarrow> (Some d, gput org (c\<lparr>cnSend := ds\<rparr>) h)
         | [] \<Rightarrow> (None, h))
     | None \<Rightarrow> (None, h))"

section \<open>Connections over time\<close>

text \<open>
  The handlers of all connections and the pushes of the services interleave. A run records the connections opened
  with the organization each was authenticated for, those that ended, the frames accepted by \<open>push\<close> and the frames
  written to a socket, with its connection. \<open>push\<close> looks the connection up under the lock of the hub and sends after it has released it, so a frame may
  still go to the buffer of a connection that has been replaced or removed in between (\<open>pushedLate\<close>), whose writer may still take frames pushed for its organization
  before it sees that it was cancelled (\<open>wroteLate\<close>).
\<close>

record hubRun =
  hrHub :: substrateHub
  hrOpened :: "(nat \<times> string) list"
  hrEnded :: "nat list"
  hrPushed :: "(string \<times> Down) list"
  hrWritten :: "(nat \<times> Down) list"

definition hubStart :: hubRun where
  "hubStart = \<lparr>hrHub = [], hrOpened = [], hrEnded = [], hrPushed = [], hrWritten = []\<rparr>"

inductive hubStep :: "hubRun \<Rightarrow> hubRun \<Rightarrow> bool" where
  connect: "p = length (hrOpened s) \<Longrightarrow>
    hubStep s (s\<lparr>hrHub := snd (register (newConn p org now) (hrHub s)), hrOpened := (p, org) # hrOpened s\<rparr>)"
| disconnect: "(p, org) \<in> set (hrOpened s) \<Longrightarrow>
    hubStep s (s\<lparr>hrHub := unregister (newConn p org now) (hrHub s), hrEnded := p # hrEnded s\<rparr>)"
| pushed: "push org d (hrHub s) = (ok, h') \<Longrightarrow>
    hubStep s (s\<lparr>hrHub := h', hrPushed := (if ok then (org, d) # hrPushed s else hrPushed s)\<rparr>)"
| wrote: "(p, org) \<in> set (hrOpened s) \<Longrightarrow> writeOne p org (hrHub s) = (Some d, h') \<Longrightarrow>
    hubStep s (s\<lparr>hrHub := h', hrWritten := (p, d) # hrWritten s\<rparr>)"
| frame: "(p, org) \<in> set (hrOpened s) \<Longrightarrow> hubStep s (s\<lparr>hrHub := seen p org now up (hrHub s)\<rparr>)"
| pushedLate: "(p, org) \<in> set (hrOpened s) \<Longrightarrow> ownConn p org (hrHub s) = None \<Longrightarrow> hubStep s (s\<lparr>hrPushed := (org, d) # hrPushed s\<rparr>)"
| wroteLate: "(p, org) \<in> set (hrOpened s) \<Longrightarrow> ownConn p org (hrHub s) = None \<Longrightarrow> (org, d) \<in> set (hrPushed s) \<Longrightarrow>
    hubStep s (s\<lparr>hrWritten := (p, d) # hrWritten s\<rparr>)"

inductive hubReach :: "hubRun \<Rightarrow> bool" where
  start: "hubReach hubStart"
| step: "hubReach s \<Longrightarrow> hubStep s s' \<Longrightarrow> hubReach s'"

definition newest :: "hubRun \<Rightarrow> nat \<Rightarrow> string \<Rightarrow> bool" where
  "newest s p org \<longleftrightarrow> (p, org) \<in> set (hrOpened s) \<and> (\<forall>q. (q, org) \<in> set (hrOpened s) \<longrightarrow> q \<le> p)"

definition connOk :: "hubRun \<Rightarrow> string \<Rightarrow> substrateConn \<Rightarrow> bool" where
  "connOk s org c \<longleftrightarrow> cnOrg c = org \<and> newest s (cnPtr c) org \<and> length (cnSend c) \<le> sendBuffer \<and>
     (\<forall>d \<in> set (cnSend c). (org, d) \<in> set (hrPushed s))"

definition hubInv :: "hubRun \<Rightarrow> bool" where
  "hubInv s \<longleftrightarrow> gdistinct (hrOpened s) \<and> (\<forall>p org. (p, org) \<in> set (hrOpened s) \<longrightarrow> p < length (hrOpened s)) \<and>
     (\<forall>org c. gget (hrHub s) org = Some c \<longrightarrow> connOk s org c) \<and>
     (\<forall>p org. newest s p org \<and> p \<notin> set (hrEnded s) \<longrightarrow> ownConn p org (hrHub s) \<noteq> None) \<and>
     (\<forall>p d. (p, d) \<in> set (hrWritten s) \<longrightarrow> (\<exists>org. (p, org) \<in> set (hrOpened s) \<and> (org, d) \<in> set (hrPushed s)))"

lemma hubInv_start: "hubInv hubStart"
  by (simp add: hubInv_def hubStart_def newest_def)

lemma opened_org: "hubInv s \<Longrightarrow> (p, org) \<in> set (hrOpened s) \<Longrightarrow> (p, org') \<in> set (hrOpened s) \<Longrightarrow> org' = org"
  unfolding hubInv_def by (metis in_set_gget option.inject)

lemma hubInv_conn: "hubInv s \<Longrightarrow> gget (hrHub s) org = Some c \<Longrightarrow> connOk s org c"
  by (simp add: hubInv_def)

lemma connOk_mono: "connOk s org c \<Longrightarrow> newest s' = newest s \<Longrightarrow> set (hrPushed s) \<subseteq> set (hrPushed s') \<Longrightarrow> connOk s' org c"
  by (auto simp: connOk_def)

lemma hubInv_keep:
  assumes inv: "hubInv s" and op: "hrOpened s' = hrOpened s" and sub: "set (hrPushed s) \<subseteq> set (hrPushed s')"
    and conn: "\<And>org c. gget (hrHub s') org = Some c \<Longrightarrow> connOk s' org c"
    and own: "\<And>p org. newest s p org \<Longrightarrow> p \<notin> set (hrEnded s') \<Longrightarrow> ownConn p org (hrHub s') \<noteq> None"
    and wr: "\<And>p d. (p, d) \<in> set (hrWritten s') \<Longrightarrow> (p, d) \<in> set (hrWritten s) \<or>
      (\<exists>org. (p, org) \<in> set (hrOpened s) \<and> (org, d) \<in> set (hrPushed s))"
  shows "hubInv s'"
proof -
  have new: "newest s' = newest s" by (simp add: fun_eq_iff newest_def op)
  have "\<exists>org. (p, org) \<in> set (hrOpened s') \<and> (org, d) \<in> set (hrPushed s')" if "(p, d) \<in> set (hrWritten s')" for p d
    using wr [OF that] inv sub unfolding hubInv_def op by blast
  then show ?thesis using inv conn own unfolding hubInv_def new op by blast
qed

lemma hubStep_inv:
  assumes "hubStep s s'" and inv: "hubInv s"
  shows "hubInv s'"
  using assms(1)
proof cases
  case (connect p org now)
  have less: "q < p" if "(q, o') \<in> set (hrOpened s)" for q o' using inv that connect(2) unfolding hubInv_def by blast
  then have fresh: "p \<notin> set (gkeys (hrOpened s))" by fastforce
  have new: "newest s' q o' \<longleftrightarrow> (if o' = org then q = p else newest s q o')" for q o'
  proof (cases "o' = org")
    case True
    then show ?thesis using less [of q org] less [THEN less_imp_le] connect(1,2) by (fastforce simp: newest_def)
  next
    case False
    then show ?thesis using connect(1) by (simp add: newest_def)
  qed
  show ?thesis
    unfolding hubInv_def
  proof (intro conjI allI impI)
    show "gdistinct (hrOpened s')" using inv fresh by (simp add: connect hubInv_def)
    show "q < length (hrOpened s')" if "(q, o') \<in> set (hrOpened s')" for q o'
      using that less connect by (auto simp: less_SucI)
    show "connOk s' o' c" if "gget (hrHub s') o' = Some c" for o' c
      using that inv new by (auto simp: connect register_def newConn_def gomap_simps connOk_def hubInv_def split: if_splits)
    show "ownConn q o' (hrHub s') \<noteq> None" if "newest s' q o' \<and> q \<notin> set (hrEnded s')" for q o'
      using that inv new by (auto simp: connect register_def newConn_def gomap_simps ownConn_def hubInv_def)
    show "\<exists>org. (q, org) \<in> set (hrOpened s') \<and> (org, d) \<in> set (hrPushed s')" if "(q, d) \<in> set (hrWritten s')" for q d
    proof -
      have "(q, d) \<in> set (hrWritten s)" using that by (simp add: connect(1))
      then obtain o' where "(q, o') \<in> set (hrOpened s)" "(o', d) \<in> set (hrPushed s)" using inv unfolding hubInv_def by blast
      then show ?thesis by (auto simp: connect(1))
    qed
  qed
next
  case (disconnect p org now)
  have new: "newest s' = newest s" by (simp add: disconnect fun_eq_iff newest_def)
  have kept: "gget (hrHub s') o' = gget (hrHub s) o' \<or> o' = org \<and> ownConn p org (hrHub s) \<noteq> None \<and> gget (hrHub s') org = None" for o'
    by (auto simp: disconnect unregister_def newConn_def ownConn_def gomap_simps split: option.split)
  show ?thesis
  proof (rule hubInv_keep [OF inv])
    show "connOk s' o' c" if "gget (hrHub s') o' = Some c" for o' c
      using that kept [of o'] connOk_mono [OF hubInv_conn [OF inv] new, of o' c] by (auto simp: disconnect(1))
    show "ownConn q o' (hrHub s') \<noteq> None" if q: "newest s q o'" "q \<notin> set (hrEnded s')" for q o'
    proof -
      have own: "ownConn q o' (hrHub s) \<noteq> None" "q \<noteq> p" using q inv by (auto simp: hubInv_def disconnect(1))
      then have "\<not> (o' = org \<and> ownConn p org (hrHub s) \<noteq> None)" by (auto simp: ownConn_def split: option.splits if_splits)
      then have "gget (hrHub s') o' = gget (hrHub s) o'" using kept by blast
      then show ?thesis using own(1) by (simp add: ownConn_def)
    qed
  qed (simp_all add: disconnect(1))
next
  case (pushed org d ok h')
  have new: "newest s' = newest s" by (simp add: pushed fun_eq_iff newest_def)
  have sub: "set (hrPushed s) \<subseteq> set (hrPushed s')" by (auto simp: pushed)
  have own: "ownConn q o' (hrHub s') = None \<longleftrightarrow> ownConn q o' (hrHub s) = None" for q o'
    using pushed(2) by (auto simp: pushed(1) push_def ownConn_def gomap_simps split: option.splits if_splits)
  have conn: "connOk s' o' c" if c: "gget (hrHub s') o' = Some c" for o' c
  proof (cases "gget (hrHub s) o' = Some c")
    case True
    then show ?thesis using connOk_mono [OF hubInv_conn [OF inv] new sub] by blast
  next
    case False
    then obtain c0 where c0: "o' = org" "gget (hrHub s) org = Some c0"
        "c = (if length (cnSend c0) < sendBuffer then c0\<lparr>cnSend := cnSend c0 @ [d]\<rparr> else c0\<lparr>cnDone := True\<rparr>)"
        "ok = (length (cnSend c0) < sendBuffer)"
      using c pushed(2) by (auto simp: pushed(1) push_def gomap_simps split: option.splits if_splits)
    then show ?thesis using connOk_mono [OF hubInv_conn [OF inv c0(2)] new sub] by (auto simp: connOk_def pushed(1))
  qed
  show ?thesis
    by (rule hubInv_keep [OF inv _ sub conn]) (use own inv in \<open>auto simp: pushed(1) hubInv_def\<close>)
next
  case (wrote p org d h')
  obtain c ds where c: "ownConn p org (hrHub s) = Some c" "cnSend c = d # ds" "h' = gput org (c\<lparr>cnSend := ds\<rparr>) (hrHub s)"
    using wrote(3) by (auto simp: writeOne_def split: option.splits list.splits)
  then have cur: "gget (hrHub s) org = Some c" "cnPtr c = p" by (auto simp: ownConn_def split: option.splits if_splits)
  then have "connOk s org c" using inv by (auto simp: hubInv_def)
  then have sent: "(org, d) \<in> set (hrPushed s)" using c(2) by (simp add: connOk_def)
  have new: "newest s' = newest s" by (simp add: wrote fun_eq_iff newest_def)
  have own: "ownConn q o' (hrHub s') = None \<longleftrightarrow> ownConn q o' (hrHub s) = None" for q o'
    using cur by (auto simp: wrote(1) c(3) ownConn_def gomap_simps)
  have conn: "connOk s' o' c'" if "gget (hrHub s') o' = Some c'" for o' c'
  proof (cases "o' = org")
    case True
    then have "c' = c\<lparr>cnSend := ds\<rparr>" using that by (simp add: wrote(1) c(3) gomap_simps)
    then show ?thesis using connOk_mono [OF \<open>connOk s org c\<close> new] True c(2) by (simp add: connOk_def wrote(1))
  next
    case False
    then show ?thesis using that connOk_mono [OF hubInv_conn [OF inv] new, of o' c'] by (simp add: wrote(1) c(3) gomap_simps)
  qed
  show ?thesis
    by (rule hubInv_keep [OF inv _ _ conn]) (use own inv sent wrote(2) in \<open>auto simp: wrote(1) hubInv_def\<close>)
next
  case (frame p org now up)
  have new: "newest s' = newest s" by (simp add: frame fun_eq_iff newest_def)
  have own: "ownConn q o' (hrHub s') = None \<longleftrightarrow> ownConn q o' (hrHub s) = None" for q o'
    by (auto simp: frame(1) seen_def ownConn_def gomap_simps split: option.splits if_splits)
  have conn: "connOk s' o' c" if c: "gget (hrHub s') o' = Some c" for o' c
  proof -
    obtain c0 where "gget (hrHub s) o' = Some c0" "c = c0 \<or> c = c0\<lparr>cnLastSeen := now\<rparr>"
      using c by (auto simp: frame(1) seen_def ownConn_def gomap_simps split: option.splits if_splits)
    then show ?thesis using connOk_mono [OF hubInv_conn [OF inv] new, of o' c0] by (auto simp: connOk_def frame(1))
  qed
  show ?thesis
    by (rule hubInv_keep [OF inv _ _ conn]) (use own inv in \<open>auto simp: frame(1) hubInv_def\<close>)
next
  case (pushedLate p org d)
  have new: "newest s' = newest s" by (simp add: pushedLate fun_eq_iff newest_def)
  have conn: "connOk s' o' c" if "gget (hrHub s') o' = Some c" for o' c
    using that connOk_mono [OF hubInv_conn [OF inv] new, of o' c] by (auto simp: pushedLate(1))
  show ?thesis
    by (rule hubInv_keep [OF inv _ _ conn]) (use inv in \<open>auto simp: pushedLate(1) hubInv_def\<close>)
next
  case (wroteLate p org d)
  have new: "newest s' = newest s" by (simp add: wroteLate fun_eq_iff newest_def)
  have conn: "connOk s' o' c" if "gget (hrHub s') o' = Some c" for o' c
    using that connOk_mono [OF hubInv_conn [OF inv] new, of o' c] by (auto simp: wroteLate(1))
  show ?thesis
    by (rule hubInv_keep [OF inv _ _ conn]) (use inv wroteLate(2,4) in \<open>auto simp: wroteLate(1) hubInv_def\<close>)
qed

lemma hubReach_inv: "hubReach s \<Longrightarrow> hubInv s"
  by (induction rule: hubReach.induct) (auto intro: hubInv_start hubStep_inv)

text \<open>
  C15: the newest connection owns an organization's channel. However connects, disconnects, pushes and socket
  traffic interleave, the connection in the hub for an organization was authenticated for that organization and is the
  newest opened for it; a newest connection that has not ended is in the hub, so the teardown of a replaced connection
  never evicts its successor; no buffer exceeds its capacity; and a frame written to a socket was pushed for the
  organization that socket was authenticated for.
\<close>

theorem newest_connection_owns_channel:
  assumes "hubReach s"
  shows "(\<forall>org c. gget (hrHub s) org = Some c \<longrightarrow> cnOrg c = org \<and> newest s (cnPtr c) org \<and> length (cnSend c) \<le> 256) \<and>
    (\<forall>p org. newest s p org \<and> p \<notin> set (hrEnded s) \<longrightarrow> (\<exists>c. gget (hrHub s) org = Some c \<and> cnPtr c = p)) \<and>
    (\<forall>p d. (p, d) \<in> set (hrWritten s) \<longrightarrow> (\<exists>org. (p, org) \<in> set (hrOpened s) \<and> (org, d) \<in> set (hrPushed s)))"
proof -
  have inv: "hubInv s" using hubReach_inv [OF assms] .
  have own: "\<exists>c. gget (hrHub s) org = Some c \<and> cnPtr c = p" if "ownConn p org (hrHub s) \<noteq> None" for p org
    using that by (auto simp: ownConn_def split: option.splits if_splits)
  show ?thesis
    using inv own unfolding hubInv_def connOk_def sendBuffer_def by blast
qed

text \<open>A run in which an organization reconnects before its first connection is torn down.\<close>

lemma demo_reconnect:
  "\<exists>s. hubReach s \<and> newest s 1 ''acme'' \<and> hrEnded s = [0]"
proof -
  let ?s1 = "hubStart\<lparr>hrHub := snd (register (newConn 0 ''acme'' 1) []), hrOpened := [(0, ''acme'')]\<rparr>"
  let ?s2 = "?s1\<lparr>hrHub := snd (register (newConn 1 ''acme'' 2) (hrHub ?s1)), hrOpened := [(1, ''acme''), (0, ''acme'')]\<rparr>"
  have "hubStep hubStart ?s1" using hubStep.connect [of 0 hubStart "''acme''" 1] by (simp add: hubStart_def)
  moreover have "hubStep ?s1 ?s2" using hubStep.connect [of 1 ?s1 "''acme''" 2] by (simp add: hubStart_def)
  moreover have "hubStep ?s2 (?s2\<lparr>hrHub := unregister (newConn 0 ''acme'' 1) (hrHub ?s2), hrEnded := [0]\<rparr>)"
    using hubStep.disconnect [of 0 "''acme''" ?s2 1] by (simp add: hubStart_def)
  ultimately have "hubReach (?s2\<lparr>hrHub := unregister (newConn 0 ''acme'' 1) (hrHub ?s2), hrEnded := [0]\<rparr>)"
    using hubReach.start hubReach.step by blast
  then show ?thesis by (intro exI conjI) (auto simp: newest_def)
qed

theorem newest_connection_owns_channel_witness:
  "\<exists>s c. hubReach s \<and> hrEnded s = [0] \<and> gget (hrHub s) ''acme'' = Some c \<and> cnPtr c = 1"
proof -
  obtain s where s: "hubReach s" "newest s 1 ''acme''" "hrEnded s = [0]" using demo_reconnect by blast
  then show ?thesis using newest_connection_owns_channel [OF s(1)] by auto
qed

end
