(* ===== verification/RegistryClient.thy ===== *)
theory RegistryClient
  imports Agents Templates SpawnPolicy Orgs
begin

text \<open>
  The registry as the other services see it (\<open>internal/registry/client.go\<close>). A \<open>Server\<close> is the registry
  behind HTTP: for each request of the client the answer of the registry, or a transport error, and the state
  afterwards. \<open>HTTPClient\<close> turns answers into results as the client does. \<open>registryServer\<close> is the registry of
  this development behind that interface, its callers holding the control-plane bearer.
\<close>

section \<open>The registry behind HTTP\<close>

record 'w Server =
  srvGetTemplate :: "string \<Rightarrow> 'w \<Rightarrow> AgentTemplate http result \<times> 'w"
  srvPatchStatus :: "string \<Rightarrow> string \<Rightarrow> 'w \<Rightarrow> unit http result \<times> 'w"
  srvListAgents :: "'w \<Rightarrow> AgentRecord list http result \<times> 'w"
  srvGetAgent :: "string \<Rightarrow> 'w \<Rightarrow> AgentRecord http result \<times> 'w"
  srvListEvents :: "string \<Rightarrow> 'w \<Rightarrow> Event list http result \<times> 'w"
  srvPostEvent :: "string \<Rightarrow> Event \<Rightarrow> 'w \<Rightarrow> Event http result \<times> 'w"
  srvListTemplates :: "'w \<Rightarrow> string list http result \<times> 'w"
  srvDismiss :: "string \<Rightarrow> string \<Rightarrow> 'w \<Rightarrow> string list http result \<times> 'w"
  srvPreRegister :: "AgentRecord \<Rightarrow> 'w \<Rightarrow> unit http result \<times> 'w"
  srvSpawnPolicy :: "string \<Rightarrow> string \<Rightarrow> 'w \<Rightarrow> SpawnDecision http result \<times> 'w"
  srvSubtree :: "string \<Rightarrow> string \<Rightarrow> 'w \<Rightarrow> string list http result \<times> 'w"
  srvGetOrg :: "string \<Rightarrow> 'w \<Rightarrow> Organization http result \<times> 'w"
  srvRevoke :: "string \<Rightarrow> string \<Rightarrow> 'w \<Rightarrow> string list http result \<times> 'w"
  srvResume :: "string \<Rightarrow> string \<Rightarrow> 'w \<Rightarrow> string list http result \<times> 'w"

text \<open>
  The client waits thirty seconds: a request whose handler does not end is a transport error. The agent type of
  a template request goes into the path as it is, so the registry's template handler only sees it when it is a
  plain path segment; \<open>oddPath\<close> is what any other path leads to.
\<close>

definition plainSegment :: "string \<Rightarrow> bool" where
  "plainSegment s = (s \<noteq> [] \<and> s \<noteq> ''.'' \<and> s \<noteq> ''..'' \<and>
     list_all (\<lambda>c. is_alnum c \<or> c \<in> {CHR ''-'', CHR ''_'', CHR ''.'', CHR ''~''}) s)"

definition timedOut :: "'a http result" where
  "timedOut = Inl (Err ''context deadline exceeded'')"

definition orTimeout :: "'w \<Rightarrow> ('a http \<times> 'w) option \<Rightarrow> 'a http result \<times> 'w" where
  "orTimeout w r = (case r of None \<Rightarrow> (timedOut, w) | Some (a, w') \<Rightarrow> (Inr a, w'))"

text \<open>The middleware around the registry's mux checks the \<open>userId\<close> of a request first.\<close>

definition withUserQuery :: "string \<Rightarrow> (string \<Rightarrow> ('b http \<times> 'w) option) \<Rightarrow> 'w \<Rightarrow> ('b http \<times> 'w) option" where
  "withUserQuery u h w = (if rejectInvalidUserID u then Some (HttpError 400 ''invalid userId'', w) else h u)"

definition registryServer ::
  "'s Store \<Rightarrow> 'd SpiceDB \<Rightarrow> (string \<Rightarrow> AgentTemplate http result) \<Rightarrow> ('s, 'd) world Server" where
  "registryServer S D oddPath =
     \<lparr>srvGetTemplate = (\<lambda>ty w. (if plainSegment ty then Inr (handleGetTemplate S ty (wStore w)) else oddPath ty, w)),
      srvPatchStatus = (\<lambda>oid st w. case handlePatchAgent S D True (Inl (Err [])) oid (Inr st) w of (a, w') \<Rightarrow> (Inr a, w')),
      srvListAgents = (\<lambda>w. (Inr (handleListAgents S (wStore w)), w)),
      srvGetAgent = (\<lambda>oid w. (Inr (handleGetAgent S oid (wStore w)), w)),
      srvListEvents = (\<lambda>oid w. (Inr (handleGetEvents S oid (wStore w)), w)),
      srvPostEvent = (\<lambda>oid e w. case handlePostEvent S True (Inl (Err [])) oid (Inr e) w of (a, w') \<Rightarrow> (Inr a, w')),
      srvListTemplates = (\<lambda>w. (Inr (case handleListTemplates S True [] [] (wStore w) of
           HttpOK n (NameView ns) \<Rightarrow> HttpOK n ns | HttpOK n _ \<Rightarrow> HttpError 500 [] | HttpError n m \<Rightarrow> HttpError n m), w)),
      srvDismiss = (\<lambda>oid u w. orTimeout w (withUserQuery u (\<lambda>u. handleDismiss S D oid u w) w)),
      srvPreRegister = (\<lambda>r w. case handlePreregister S D (Inr r) w of (a, w') \<Rightarrow> (Inr a, w')),
      srvSpawnPolicy = (\<lambda>p c w. (case handleSpawnPolicy S p c (wStore w) of None \<Rightarrow> timedOut | Some a \<Rightarrow> Inr a, w)),
      srvSubtree = (\<lambda>oid u w. orTimeout w (withUserQuery u (\<lambda>u. handleSubtree S D oid u w) w)),
      srvGetOrg = (\<lambda>oid w. (Inr (handleGetOrg S oid (wStore w)), w)),
      srvRevoke = (\<lambda>oid u w. orTimeout w (withUserQuery u (\<lambda>u. handleRevoke S D oid u w) w)),
      srvResume = (\<lambda>oid u w. orTimeout w (withUserQuery u (\<lambda>u. handleResume S D oid u w) w))\<rparr>"

section \<open>The client\<close>

text \<open>\<open>registry.Client\<close>: the operations the services call.\<close>

record 'w RegClient =
  rcGetTemplate :: "string \<Rightarrow> 'w \<Rightarrow> AgentTemplate result \<times> 'w"
  rcComplete :: "string \<Rightarrow> 'w \<Rightarrow> go_error option \<times> 'w"
  rcFail :: "string \<Rightarrow> 'w \<Rightarrow> go_error option \<times> 'w"
  rcListAgents :: "'w \<Rightarrow> AgentRecord list result \<times> 'w"
  rcGetAgent :: "string \<Rightarrow> 'w \<Rightarrow> AgentRecord result \<times> 'w"
  rcListEvents :: "string \<Rightarrow> 'w \<Rightarrow> Event list result \<times> 'w"
  rcPostEvent :: "string \<Rightarrow> Event \<Rightarrow> 'w \<Rightarrow> go_error option \<times> 'w"
  rcListTemplates :: "'w \<Rightarrow> string list result \<times> 'w"
  rcDismissAgent :: "string \<Rightarrow> string \<Rightarrow> 'w \<Rightarrow> go_error option \<times> 'w"
  rcPreRegisterAgent :: "AgentRecord \<Rightarrow> 'w \<Rightarrow> go_error option \<times> 'w"
  rcCheckSpawnPolicy :: "string \<Rightarrow> string \<Rightarrow> 'w \<Rightarrow> SpawnDecision result \<times> 'w"
  rcSubtree :: "string \<Rightarrow> string \<Rightarrow> 'w \<Rightarrow> string list result \<times> 'w"

definition ErrAgentNotFound :: go_error where "ErrAgentNotFound = Err ''agent not found''"

definition statusErr :: "string \<Rightarrow> nat \<Rightarrow> go_error" where
  "statusErr what n = Err (what @ '': status '' @ show_nat n)"

text \<open>
  The two shapes of a client method: one that decodes the body of a 200 answer, with the meaning of a 404, and one
  that only compares the status.
\<close>

fun decoded :: "string \<Rightarrow> 'a result \<Rightarrow> 'a http result \<Rightarrow> 'a result" where
  "decoded what on404 (Inl e) = Inl e"
| "decoded what on404 (Inr (HttpError n m)) = (if n = 404 then on404 else Inl (statusErr what n))"
| "decoded what on404 (Inr (HttpOK n x)) = (if n = 404 then on404 else if n = 200 then Inr x else Inl (statusErr what n))"

definition checked :: "string \<Rightarrow> (nat \<Rightarrow> bool) \<Rightarrow> 'a http result \<Rightarrow> go_error option" where
  "checked what good r = (case r of
       Inl e \<Rightarrow> Some e
     | Inr a \<Rightarrow> if good (http_status a) then None else Some (statusErr what (http_status a)))"

definition onFst :: "('a \<Rightarrow> 'b) \<Rightarrow> 'a \<times> 'w \<Rightarrow> 'b \<times> 'w" where
  "onFst f p = (f (fst p), snd p)"

definition patchStatus :: "'w Server \<Rightarrow> string \<Rightarrow> string \<Rightarrow> 'w \<Rightarrow> go_error option \<times> 'w" where
  "patchStatus V agentID status w =
     onFst (checked (''patch agent '' @ agentID @ '' status'') (\<lambda>n. n < 300)) (srvPatchStatus V agentID status w)"

definition HTTPClient :: "'w Server \<Rightarrow> 'w RegClient" where
  "HTTPClient V =
     \<lparr>rcGetTemplate = (\<lambda>ty w. onFst (decoded ''get template'' (Inl (Err (''template '' @ ty @ '' not found'')))) (srvGetTemplate V ty w)),
      rcComplete = (\<lambda>oid w. patchStatus V oid ''completed'' w),
      rcFail = (\<lambda>oid w. patchStatus V oid ''failed'' w),
      rcListAgents = (\<lambda>w. onFst (decoded ''list agents'' (Inl (statusErr ''list agents'' 404))) (srvListAgents V w)),
      rcGetAgent = (\<lambda>oid w. onFst (decoded ''get agent'' (Inl ErrAgentNotFound)) (srvGetAgent V oid w)),
      rcListEvents = (\<lambda>oid w. onFst (decoded ''list events'' (Inl (statusErr ''list events'' 404))) (srvListEvents V oid w)),
      rcPostEvent = (\<lambda>oid e w. onFst (checked ''post event'' (\<lambda>n. n = 201)) (srvPostEvent V oid e w)),
      rcListTemplates = (\<lambda>w. onFst (decoded ''list templates'' (Inl (statusErr ''list templates'' 404))) (srvListTemplates V w)),
      rcDismissAgent = (\<lambda>oid u w. onFst (checked ''dismiss agent'' (\<lambda>n. n = 204)) (srvDismiss V oid u w)),
      rcPreRegisterAgent = (\<lambda>r w. onFst (checked ''preregister agent'' (\<lambda>n. n = 201)) (srvPreRegister V r w)),
      rcCheckSpawnPolicy = (\<lambda>p c w. onFst (decoded ''spawn policy'' (Inl (statusErr ''spawn policy'' 404))) (srvSpawnPolicy V p c w)),
      rcSubtree = (\<lambda>oid u w. onFst (decoded ''subtree'' (Inr [])) (srvSubtree V oid u w))\<rparr>"

section \<open>What a client relies on\<close>

text \<open>
  The registry as the spawning services rely on it: what it records, which of its calls change that, and how.
  \<open>agents\<close> and \<open>templates\<close> are its records, \<open>suspended\<close> the organizations that are disabled.
\<close>

locale registry_api =
  fixes V :: "'w Server"
    and agents :: "'w \<Rightarrow> string \<Rightarrow> AgentRecord option"
    and templates :: "'w \<Rightarrow> string \<Rightarrow> AgentTemplate option"
    and suspended :: "'w \<Rightarrow> string \<Rightarrow> bool"
    and wf :: "'w \<Rightarrow> bool"
  assumes get_agent: "wf w \<Longrightarrow> rcGetAgent (HTTPClient V) oid w =
      (case agents w oid of None \<Rightarrow> Inl ErrAgentNotFound | Some r \<Rightarrow> Inr r, w)"
    and get_template: "wf w \<Longrightarrow> \<exists>r. rcGetTemplate (HTTPClient V) ty w = (r, w) \<and>
      (plainSegment ty \<longrightarrow> (\<forall>t. r = Inr t \<longleftrightarrow> templates w ty = Some t))"
    and policy: "wf w \<Longrightarrow> \<exists>d. rcCheckSpawnPolicy (HTTPClient V) p c w = (Inr d, w) \<and>
      (sdAllowed d \<longrightarrow> (\<exists>a t. agents w p = Some a \<and> templates w (agAgentType a) = Some t \<and>
         c \<in> set (delAllowedChildTypes (tplDelegation t)) \<and>
         sdConsentRequired d = (case gget (delChildPolicies (tplDelegation t)) c of None \<Rightarrow> False | Some cpol \<Rightarrow> cspRequireUserConsent cpol)))"
    and preregister: "wf w \<Longrightarrow> rcPreRegisterAgent (HTTPClient V) r w = (e, w') \<Longrightarrow>
      wf w' \<and> templates w' = templates w \<and>
      (if e = None then agAgentID r \<noteq> [] \<and> \<not> suspended w (agOrgID r) \<and> agents w' = (agents w)(agAgentID r \<mapsto> r\<lparr>agStatus := ''pending''\<rparr>)
       else agents w' = agents w)"
    and dismiss: "wf w \<Longrightarrow> rcDismissAgent (HTTPClient V) oid u w = (e, w') \<Longrightarrow>
      wf w' \<and> templates w' = templates w \<and>
      agents w' = (if e = None then (agents w)(oid := map_option (\<lambda>r. r\<lparr>agDismissed := True\<rparr>) (agents w oid)) else agents w)"
    and org_read: "wf w \<Longrightarrow> snd (srvGetOrg V oid w) = w"

abbreviation memAgents :: "(store, 'd) world \<Rightarrow> string \<Rightarrow> AgentRecord option" where
  "memAgents w \<equiv> gget (stAgents (wStore w))"

abbreviation memTemplates :: "(store, 'd) world \<Rightarrow> string \<Rightarrow> AgentTemplate option" where
  "memTemplates w \<equiv> gget (stTemplates (wStore w))"

abbreviation memSuspended :: "(store, 'd) world \<Rightarrow> string \<Rightarrow> bool" where
  "memSuspended w oid \<equiv> orgIsDisabled memStore oid (wStore w) = Inr True"

lemmas rc_simps = HTTPClient_def registryServer_def onFst_def

lemma rc_get_agent:
  "rcGetAgent (HTTPClient (registryServer S D p)) oid w =
     (decoded ''get agent'' (Inl ErrAgentNotFound) (Inr (handleGetAgent S oid (wStore w))), w)"
  by (simp add: rc_simps)

lemma dismiss_mem:
  assumes "agentsWf (wStore w)" and "rcDismissAgent (HTTPClient (registryServer memStore D p)) oid u w = (e, w')"
  shows "agentsWf (wStore w') \<and> memTemplates w' = memTemplates w \<and>
      memAgents w' = (if e = None then (memAgents w)(oid := map_option (\<lambda>r. r\<lparr>agDismissed := True\<rparr>) (memAgents w oid)) else memAgents w)"
proof (cases "rejectInvalidUserID u \<or> agentAllowed memStore D oid u actionManage w \<noteq> Inr (True, True)")
  case True
  then have "e \<noteq> None \<and> w' = w"
    using assms(2)
    by (auto simp: rc_simps withUserQuery_def orTimeout_def handleDismiss_def allowedOr404_def checked_def
        split: sum.splits prod.splits if_splits)
  then show ?thesis using assms(1) by auto
next
  case False
  then have ok: "agentAllowed memStore D oid u actionManage w = Inr (True, True)" by blast
  then obtain r where r: "memAgents w oid = Some r"
    by (auto simp: agentAllowed_def mem_simps getAgent_def split: option.splits if_splits)
  then have "e = None \<and> w' = w\<lparr>wStore := (wStore w)\<lparr>stAgents := gput oid (r\<lparr>agDismissed := True\<rparr>) (stAgents (wStore w))\<rparr>\<rparr>"
    using assms(2) False ok
    by (auto simp: rc_simps withUserQuery_def orTimeout_def handleDismiss_def allowedOr404_def checked_def mem_simps dismissAgent_def)
  then show ?thesis
    using r agentsWf_put [OF assms(1), of "r\<lparr>agDismissed := True\<rparr>" oid] agentsWf_id [OF assms(1) r] agentsWf_nonempty [OF assms(1) r]
    by (auto simp: gomap_simps agentsWf_def intro!: ext)
qed

interpretation memReg: registry_api "registryServer memStore D oddPath" memAgents memTemplates memSuspended "\<lambda>w. agentsWf (wStore w)"
proof
  fix w :: "(store, 'a) world" and oid
  assume wf: "agentsWf (wStore w)"
  show "rcGetAgent (HTTPClient (registryServer memStore D oddPath)) oid w =
      (case memAgents w oid of None \<Rightarrow> Inl ErrAgentNotFound | Some r \<Rightarrow> Inr r, w)"
    using agentsWf_id [OF wf] agentsWf_nonempty [OF wf]
    by (cases "memAgents w oid") (auto simp: rc_get_agent handleGetAgent_def notFound_def mem_simps getAgent_def)
next
  fix w :: "(store, 'a) world" and ty
  assume "agentsWf (wStore w)"
  show "\<exists>r. rcGetTemplate (HTTPClient (registryServer memStore D oddPath)) ty w = (r, w) \<and>
      (plainSegment ty \<longrightarrow> (\<forall>t. r = Inr t \<longleftrightarrow> memTemplates w ty = Some t))"
    by (cases "memTemplates w ty") (auto simp: rc_simps handleGetTemplate_def notFound_def mem_simps getTemplate_def)
next
  fix w :: "(store, 'a) world" and p c
  assume wf: "agentsWf (wStore w)"
  obtain d where d: "handleSpawnPolicy memStore p c (wStore w) = Some (HttpOK 200 d)" using mem_spawnPolicy [OF wf] by blast
  then have "sdAllowed d \<Longrightarrow> \<exists>a t. memAgents w p = Some a \<and> memTemplates w (agAgentType a) = Some t \<and>
         c \<in> set (delAllowedChildTypes (tplDelegation t)) \<and>
         sdConsentRequired d = (case gget (delChildPolicies (tplDelegation t)) c of None \<Rightarrow> False | Some cpol \<Rightarrow> cspRequireUserConsent cpol)"
    using agentsWf_id [OF wf]
    by (auto simp: handleSpawnPolicy_def mem_simps getAgent_def getTemplate_def Let_def split: option.splits sum.splits if_splits)
  then show "\<exists>d. rcCheckSpawnPolicy (HTTPClient (registryServer memStore D oddPath)) p c w = (Inr d, w) \<and>
      (sdAllowed d \<longrightarrow> (\<exists>a t. memAgents w p = Some a \<and> memTemplates w (agAgentType a) = Some t \<and>
         c \<in> set (delAllowedChildTypes (tplDelegation t)) \<and>
         sdConsentRequired d = (case gget (delChildPolicies (tplDelegation t)) c of None \<Rightarrow> False | Some cpol \<Rightarrow> cspRequireUserConsent cpol)))"
    using d by (simp add: rc_simps)
next
  fix w w' :: "(store, 'a) world" and r e
  assume wf: "agentsWf (wStore w)" and pre: "rcPreRegisterAgent (HTTPClient (registryServer memStore D oddPath)) r w = (e, w')"
  obtain a w1 where h: "handlePreregister memStore D (Inr r) w = (a, w1)" by force
  then have w1: "w' = w1" "e = checked ''preregister agent'' (\<lambda>n. n = 201) (Inr a)" using pre by (auto simp: rc_simps)
  show "agentsWf (wStore w') \<and> memTemplates w' = memTemplates w \<and>
      (if e = None then agAgentID r \<noteq> [] \<and> \<not> memSuspended w (agOrgID r) \<and> memAgents w' = (memAgents w)(agAgentID r \<mapsto> r\<lparr>agStatus := ''pending''\<rparr>)
       else memAgents w' = memAgents w)"
  proof (cases a)
    case (HttpOK n u)
    then have p: "handlePreregister memStore D (Inr r) w = (HttpOK n (), w')" using h w1 by simp
    note eff = preregister_mem [OF p]
    have "agentsWf (wStore w')"
      using agentsWf_put [OF wf, of "r\<lparr>agStatus := ''pending''\<rparr>" "agAgentID r"] eff by (simp add: agentsWf_def)
    then show ?thesis using eff HttpOK w1(2) by (auto simp: checked_def gomap_simps intro!: ext)
  next
    case (HttpError n m)
    then have "w1 = w" "n \<noteq> 201" using h by (auto simp: handlePreregister_def mem_simps Let_def internalError_def split: if_splits sum.splits prod.splits)
    then show ?thesis using wf w1 HttpError by (simp add: checked_def)
  qed
next
  fix w w' :: "(store, 'a) world" and oid u e
  assume "agentsWf (wStore w)" and "rcDismissAgent (HTTPClient (registryServer memStore D oddPath)) oid u w = (e, w')"
  then show "agentsWf (wStore w') \<and> memTemplates w' = memTemplates w \<and>
      memAgents w' = (if e = None then (memAgents w)(oid := map_option (\<lambda>r. r\<lparr>agDismissed := True\<rparr>) (memAgents w oid)) else memAgents w)"
    by (rule dismiss_mem)
qed (simp add: rc_simps)

end
