(* ===== verification/GoURL.thy ===== *)
theory GoURL
  imports ObjectID "HOL-Library.Char_ord" "HOL-Library.List_Lexorder"
begin

text \<open>
  The part of Go's \<open>net/url\<close> that the services build their requests with: escaping of path segments
  and query components, and the query string as a multi-map (\<open>url.Values\<close>). What a client encodes the
  server reads back.
\<close>

section \<open>Escaping\<close>

definition unreserved :: "char \<Rightarrow> bool" where
  "unreserved c = (is_alnum c \<or> c \<in> {CHR ''-'', CHR ''_'', CHR ''.'', CHR ''~''})"

definition percent :: "char \<Rightarrow> string" where
  "percent c = [CHR ''%'', hexDigit (of_char c div 16), hexDigit (of_char c mod 16)]"

definition QueryEscape :: "string \<Rightarrow> string" where
  "QueryEscape s = concat (map (\<lambda>c. if unreserved c then [c] else if c = CHR '' '' then ''+'' else percent c) s)"

definition PathEscape :: "string \<Rightarrow> string" where
  "PathEscape s = concat (map (\<lambda>c. if unreserved c \<or> c \<in> {CHR ''$'', CHR ''&'', CHR ''+'', CHR '':'', CHR ''='', CHR ''@''}
     then [c] else percent c) s)"

definition unhex :: "char \<Rightarrow> nat option" where
  "unhex c = (if is_digit c then Some (of_char c - 48)
     else if in_range (CHR ''a'') (CHR ''f'') c then Some (of_char c - 87)
     else if in_range (CHR ''A'') (CHR ''F'') c then Some (of_char c - 55)
     else None)"

text \<open>\<open>unescape\<close>; in a query component a plus sign is a space.\<close>

fun unescape :: "bool \<Rightarrow> string \<Rightarrow> string option" where
  "unescape query [] = Some []"
| "unescape query (c # cs) =
     (if c = CHR ''%'' then
        (case cs of
           h # l # rest \<Rightarrow>
             (case (unhex h, unhex l) of
                (Some a, Some b) \<Rightarrow> map_option (\<lambda>r. char_of (16 * a + b) # r) (unescape query rest)
              | _ \<Rightarrow> None)
         | _ \<Rightarrow> None)
      else map_option (\<lambda>r. (if query \<and> c = CHR ''+'' then CHR '' '' else c) # r) (unescape query cs))"

definition QueryUnescape :: "string \<Rightarrow> string option" where "QueryUnescape = unescape True"
definition PathUnescape :: "string \<Rightarrow> string option" where "PathUnescape = unescape False"

section \<open>Query values\<close>

type_synonym Values = "(string, string list) gomap"

definition valuesGet :: "Values \<Rightarrow> string \<Rightarrow> string" where
  "valuesGet v k = (case gget v k of Some (x # _) \<Rightarrow> x | _ \<Rightarrow> [])"

definition valuesSet :: "string \<Rightarrow> string \<Rightarrow> Values \<Rightarrow> Values" where
  "valuesSet k x v = gput k [x] v"

definition valuesDel :: "string \<Rightarrow> Values \<Rightarrow> Values" where
  "valuesDel k v = gdel k v"

definition valuesAdd :: "string \<Rightarrow> string \<Rightarrow> Values \<Rightarrow> Values" where
  "valuesAdd k x v = gput k ((case gget v k of None \<Rightarrow> [] | Some xs \<Rightarrow> xs) @ [x]) v"

fun joinAmp :: "string list \<Rightarrow> string" where
  "joinAmp [] = []"
| "joinAmp [s] = s"
| "joinAmp (s # t # ts) = s @ CHR ''&'' # joinAmp (t # ts)"

text \<open>\<open>Values.Encode\<close>: sorted by key, the values of a key in order.\<close>

definition encodePairs :: "Values \<Rightarrow> (string \<times> string) list" where
  "encodePairs v = concat (map (\<lambda>k. map (Pair k) (case gget v k of None \<Rightarrow> [] | Some xs \<Rightarrow> xs)) (sort (gkeys v)))"

definition encodeValues :: "Values \<Rightarrow> string" where
  "encodeValues v = joinAmp (map (\<lambda>(k, x). QueryEscape k @ CHR ''='' # QueryEscape x) (encodePairs v))"

text \<open>
  \<open>URL.Query\<close>: the pairs of the query string that can be read. A segment with a semicolon and one that
  does not unescape are left out.
\<close>

definition parsePair :: "string \<Rightarrow> (string \<times> string) option" where
  "parsePair seg =
     (if CHR '';'' \<in> set seg \<or> seg = [] then None
      else let k = before (CHR ''='') seg; x = drop (Suc (length k)) seg
           in case QueryUnescape k of
                None \<Rightarrow> None
              | Some k' \<Rightarrow> map_option (Pair k') (QueryUnescape x))"

fun addPairs :: "(string \<times> string) list \<Rightarrow> Values \<Rightarrow> Values" where
  "addPairs [] v = v"
| "addPairs ((k, x) # ps) v = addPairs ps (valuesAdd k x v)"

definition parseQuery :: "string \<Rightarrow> Values" where
  "parseQuery s = addPairs (List.map_filter parsePair (split_on (CHR ''&'') s)) []"

section \<open>Round trips\<close>

lemma unhex_hexDigit: "n < 16 \<Longrightarrow> unhex (hexDigit n) = Some n"
  by (simp add: unhex_def is_digit_def in_range_def of_char_hexDigit)

lemma unescape_percent: "unescape q (percent c @ s) = map_option ((#) c) (unescape q s)"
  by (simp add: percent_def unhex_hexDigit of_char_div_16 mult.commute)

lemma unreserved_ordinary: "unreserved c \<Longrightarrow> c \<notin> {CHR ''%'', CHR ''+'', CHR ''&'', CHR ''='', CHR '';'', CHR ''/'', CHR ''?'', CHR ''#''}"
  by (auto simp: unreserved_def is_alnum_def is_lower_def is_upper_def is_digit_def in_range_def)

lemma QueryUnescape_Escape: "QueryUnescape (QueryEscape s) = Some s"
proof -
  have "unescape True (QueryEscape s) = Some s"
  proof (induction s)
    case (Cons c s)
    have "unescape True ((if unreserved c then [c] else if c = CHR '' '' then ''+'' else percent c) @ QueryEscape s) = Some (c # s)"
      using Cons unescape_percent [of True c "QueryEscape s"] unreserved_ordinary [of c] by (auto split: if_split)
    then show ?case by (simp add: QueryEscape_def)
  qed (simp add: QueryEscape_def)
  then show ?thesis by (simp add: QueryUnescape_def)
qed

lemma PathUnescape_Escape: "PathUnescape (PathEscape s) = Some s"
proof -
  have "unescape False (PathEscape s) = Some s"
  proof (induction s)
    case (Cons c s)
    have "unescape False ((if unreserved c \<or> c \<in> {CHR ''$'', CHR ''&'', CHR ''+'', CHR '':'', CHR ''='', CHR ''@''}
        then [c] else percent c) @ PathEscape s) = Some (c # s)"
      using Cons unescape_percent [of False c "PathEscape s"] unreserved_ordinary [of c] by (auto split: if_split)
    then show ?case by (simp add: PathEscape_def)
  qed (simp add: PathEscape_def)
  then show ?thesis by (simp add: PathUnescape_def)
qed

lemma hexDigit_unreserved: "n < 16 \<Longrightarrow> unreserved (hexDigit n)"
  by (simp add: unreserved_def hexDigit_alnum)

lemma QueryEscape_bytes: "c \<in> set (QueryEscape s) \<Longrightarrow> unreserved c \<or> c = CHR ''%'' \<or> c = CHR ''+''"
  by (auto simp: QueryEscape_def percent_def hexDigit_unreserved of_char_div_16 split: if_splits)

lemma QueryEscape_plain: "c \<in> {CHR ''&'', CHR ''='', CHR '';''} \<Longrightarrow> c \<notin> set (QueryEscape s)"
  using QueryEscape_bytes [of c s] unreserved_ordinary [of c] by auto

lemma parsePair_encoded: "parsePair (QueryEscape k @ CHR ''='' # QueryEscape x) = Some (k, x)"
proof -
  have "before (CHR ''='') (QueryEscape k @ CHR ''='' # QueryEscape x) = QueryEscape k"
    using QueryEscape_plain [of "CHR ''=''" k] by (simp add: before_no_sep)
  then show ?thesis
    using QueryEscape_plain [of "CHR '';''"] by (simp add: parsePair_def QueryUnescape_Escape)
qed

lemma split_joinAmp:
  "ss \<noteq> [] \<Longrightarrow> \<forall>s \<in> set ss. CHR ''&'' \<notin> set s \<Longrightarrow> split_on (CHR ''&'') (joinAmp ss) = ss"
  by (induction ss rule: joinAmp.induct) (simp_all add: split_on_no_sep split_on_sep)

lemma parse_encoded: "parseQuery (encodeValues v) = addPairs (encodePairs v) []"
proof (cases "encodePairs v = []")
  case True
  then show ?thesis by (simp add: parseQuery_def encodeValues_def parsePair_def map_filter_simps)
next
  case False
  let ?seg = "\<lambda>(k, x). QueryEscape k @ CHR ''='' # QueryEscape x"
  have "split_on (CHR ''&'') (encodeValues v) = map ?seg (encodePairs v)"
    unfolding encodeValues_def by (rule split_joinAmp) (use False QueryEscape_plain [of "CHR ''&''"] in auto)
  moreover have "List.map_filter parsePair (map ?seg ps) = ps" for ps
    by (induction ps) (auto simp: map_filter_simps parsePair_encoded)
  ultimately show ?thesis by (simp add: parseQuery_def)
qed

lemma addPairs_get:
  "gget (addPairs ps v) k = (let xs = map snd (filter (\<lambda>p. fst p = k) ps)
     in if xs = [] then gget v k else Some ((case gget v k of None \<Rightarrow> [] | Some ys \<Rightarrow> ys) @ xs))"
  by (induction ps arbitrary: v rule: list.induct) (auto simp: valuesAdd_def gomap_simps Let_def split: option.splits)

lemma filter_key_once:
  "distinct ks \<Longrightarrow> map snd (filter (\<lambda>p. fst p = k) (concat (map (\<lambda>k. map (Pair k) (f k)) ks))) = (if k \<in> set ks then f k else [])"
proof (induction ks)
  case (Cons a ks)
  have "filter (\<lambda>p. fst p = k) (map (Pair a) (f a)) = (if a = k then map (Pair a) (f a) else [])"
    by (auto simp: filter_map o_def)
  then show ?case using Cons by (auto simp: o_def)
qed simp

lemma parseQuery_encodeValues:
  assumes "gdistinct v" and "\<forall>x \<in> set (gvals v). x \<noteq> []"
  shows "gget (parseQuery (encodeValues v)) = gget v"
proof
  fix k
  have d: "distinct (sort (gkeys v))" using assms(1) by simp
  have "gget v k = Some xs \<Longrightarrow> xs \<noteq> []" for xs using assms by (auto dest: gget_in_set)
  then show "gget (parseQuery (encodeValues v)) k = gget v k"
    using filter_key_once [OF d, of k "\<lambda>k. case gget v k of None \<Rightarrow> [] | Some xs \<Rightarrow> xs"]
    by (auto simp: parse_encoded addPairs_get encodePairs_def Let_def map_of_eq_None_iff [symmetric] split: option.splits)
qed

lemma addPairs_distinct: "gdistinct v \<Longrightarrow> gdistinct (addPairs ps v)"
  by (induction ps v rule: addPairs.induct) (auto simp: valuesAdd_def intro: wf_intros)

lemma addPairs_nonempty: "\<forall>x \<in> set (gvals v). x \<noteq> [] \<Longrightarrow> \<forall>x \<in> set (gvals (addPairs ps v)). x \<noteq> []"
proof (induction ps v rule: addPairs.induct)
  case (2 k x ps v)
  have "set (gvals (gput k y m)) \<subseteq> insert y (set (gvals m))" for y m and k :: string by (induction m) auto
  then show ?case using 2 by (fastforce simp: valuesAdd_def)
qed simp

lemma parseQuery_wf: "gdistinct (parseQuery s)" "\<forall>x \<in> set (gvals (parseQuery s)). x \<noteq> []"
  unfolding parseQuery_def by (rule addPairs_distinct addPairs_nonempty; simp)+

section \<open>Requests\<close>

text \<open>
  The path and query a client sends for a URL behind the host (\<open>http.NewRequest\<close> and \<open>URL.RequestURI\<close>): control bytes
  and broken percent encodings are errors, the fragment is dropped, and a path with bytes that need escaping is sent escaped anew.
\<close>

definition ctlByte :: "char \<Rightarrow> bool" where
  "ctlByte c = ((of_char c :: nat) < 32 \<or> (of_char c :: nat) = 127)"

definition validEncoded :: "string \<Rightarrow> bool" where
  "validEncoded s = list_all (\<lambda>c. unreserved c \<or> c \<in> set ''!$&()*+,;=:@[]%/'' \<or> c = CHR 0x27) s"

definition escapePath :: "string \<Rightarrow> string" where
  "escapePath s = concat (map (\<lambda>c. if unreserved c \<or> c \<in> set ''$&+,/:;=@'' then [c] else percent c) s)"

definition parseRequestURL :: "string \<Rightarrow> (string \<times> string) option" where
  "parseRequestURL s =
     (if list_ex ctlByte s then None
      else let u = before (CHR ''#'') s; frag = drop (Suc (length u)) s;
               p = before (CHR ''?'') u; q = drop (Suc (length p)) u
           in case (PathUnescape p, PathUnescape frag) of
                (Some path, Some f) \<Rightarrow> Some (if validEncoded p then p else escapePath path, q)
              | _ \<Rightarrow> None)"

text \<open>The segments a \<open>ServeMux\<close> matches: split at slashes first, then unescaped one by one.\<close>

definition muxSegs :: "string \<Rightarrow> string list" where
  "muxSegs path = map (\<lambda>s. case PathUnescape s of None \<Rightarrow> s | Some t \<Rightarrow> t) (split_on (CHR ''/'') (drop 1 path))"

text \<open>A path built from escaped segments reaches the server as those segments.\<close>

definition escSegs :: "string list \<Rightarrow> string" where
  "escSegs ss = concat (map (\<lambda>s. CHR ''/'' # PathEscape s) ss)"

lemma PathEscape_bytes:
  "c \<in> set (PathEscape s) \<Longrightarrow> unreserved c \<or> c \<in> {CHR ''$'', CHR ''&'', CHR ''+'', CHR '':'', CHR ''='', CHR ''@'', CHR ''%''}"
  by (auto simp: PathEscape_def percent_def hexDigit_unreserved of_char_div_16 split: if_splits)

lemma unreserved_not_ctl: "unreserved c \<Longrightarrow> \<not> ctlByte c"
  by (auto simp: unreserved_def ctlByte_def is_alnum_def is_lower_def is_upper_def is_digit_def in_range_def)

lemma PathEscape_safe:
  assumes "c \<in> set (PathEscape s)"
  shows "c \<notin> {CHR ''/'', CHR ''?'', CHR ''#''}" and "\<not> ctlByte c"
  using PathEscape_bytes [OF assms] unreserved_ordinary [of c] unreserved_not_ctl [of c] by (auto simp: ctlByte_def)

lemma escSegs_simps [simp]: "escSegs [] = []" "escSegs (s # ss) = CHR ''/'' # PathEscape s @ escSegs ss"
  by (simp_all add: escSegs_def)

lemma escSegs_bytes:
  assumes "c \<in> set (escSegs ss)"
  shows "unreserved c \<or> c \<in> {CHR ''$'', CHR ''&'', CHR ''+'', CHR '':'', CHR ''='', CHR ''@'', CHR ''%'', CHR ''/''}"
  using assms
proof (induction ss)
  case (Cons s ss)
  then consider "c = CHR ''/''" | "c \<in> set (PathEscape s)" | "c \<in> set (escSegs ss)" by auto
  then show ?case
  proof cases
    case 2
    from PathEscape_bytes [OF 2] show ?thesis by blast
  qed (use Cons in blast)+
qed simp

lemma escSegs_safe:
  assumes "c \<in> set (escSegs ss)"
  shows "c \<noteq> CHR ''?''" and "c \<noteq> CHR ''#''" and "\<not> ctlByte c" and "unreserved c \<or> c \<in> set ''!$&()*+,;=:@[]%/''"
  using escSegs_bytes [OF assms] unreserved_ordinary [of c] unreserved_not_ctl [of c] by (auto simp: ctlByte_def)

lemma unescape_append: "unescape q s = Some t \<Longrightarrow> unescape q (s @ s') = map_option ((@) t) (unescape q s')"
proof (induction q s arbitrary: t rule: unescape.induct)
  case (2 q c cs)
  show ?case
  proof (cases "c = CHR ''%''")
    case True
    then obtain h l rest a b where r: "cs = h # l # rest" "unhex h = Some a" "unhex l = Some b"
      using 2(3) by (auto split: list.splits option.splits)
    then obtain t' where t': "unescape q rest = Some t'" "t = char_of (16 * a + b) # t'" using 2(3) True by auto
    have "unescape q (rest @ s') = map_option ((@) t') (unescape q s')"
      using 2(1) [OF True r(1) refl refl r(2,3) t'(1)] .
    then show ?thesis using r t'(2) True by (cases "unescape q s'") auto
  next
    case False
    then obtain t' where t': "unescape q cs = Some t'" "t = (if q \<and> c = CHR ''+'' then CHR '' '' else c) # t'" using 2(3) by auto
    show ?thesis using 2(2) [OF False t'(1)] t'(2) False by (cases "unescape q s'") auto
  qed
next
  case (1 q)
  then show ?case by (cases "unescape q s'") simp_all
qed

lemma unescape_escSegs: "unescape False (escSegs ss) \<noteq> None"
proof (induction ss)
  case (Cons s ss)
  have "unescape False (PathEscape s) = Some s" using PathUnescape_Escape [of s] by (simp add: PathUnescape_def)
  then show ?case using Cons by (auto simp: unescape_append)
qed simp

lemma before_absent: "c \<notin> set s \<Longrightarrow> before c s = s"
  by (induction s) (auto simp: before_def)

lemma parseRequestURL_escSegs: "parseRequestURL (escSegs ss) = Some (escSegs ss, [])"
proof -
  have "before (CHR ''#'') (escSegs ss) = escSegs ss" "before (CHR ''?'') (escSegs ss) = escSegs ss"
    using escSegs_safe(2) [of "CHR ''#''" ss] escSegs_safe(1) [of "CHR ''?''" ss] before_absent by blast+
  moreover have "validEncoded (escSegs ss)" using escSegs_safe(4) unfolding validEncoded_def list_all_iff by blast
  moreover have "\<not> list_ex ctlByte (escSegs ss)" using escSegs_safe(3) unfolding list_ex_iff by blast
  ultimately show ?thesis using unescape_escSegs [of ss] by (auto simp: parseRequestURL_def Let_def PathUnescape_def)
qed

lemma slash_notin_PathEscape: "CHR ''/'' \<notin> set (PathEscape s)"
  using PathEscape_safe(1) [of "CHR ''/''" s] by blast

lemma split_escSegs: "split_on (CHR ''/'') (PathEscape s @ escSegs ss) = map PathEscape (s # ss)"
proof (induction ss arbitrary: s)
  case (Cons t ss)
  then show ?case using split_on_sep [OF slash_notin_PathEscape [of s]] by simp
qed (simp add: split_on_no_sep slash_notin_PathEscape)

lemma muxSegs_escSegs: "ss \<noteq> [] \<Longrightarrow> muxSegs (escSegs ss) = ss"
  by (cases ss) (simp_all add: muxSegs_def split_escSegs PathUnescape_Escape o_def)

text \<open>A query string behind such a path.\<close>

lemma joinAmp_bytes: "c \<in> set (joinAmp ss) \<Longrightarrow> c = CHR ''&'' \<or> (\<exists>s \<in> set ss. c \<in> set s)"
  by (induction ss rule: joinAmp.induct) auto

lemma encodeValues_bytes:
  assumes "c \<in> set (encodeValues v)"
  shows "unreserved c \<or> c \<in> {CHR ''%'', CHR ''+'', CHR ''&'', CHR ''=''}"
proof -
  consider "c = CHR ''&''" | k x where "c \<in> set (QueryEscape k @ CHR ''='' # QueryEscape x)"
    using joinAmp_bytes assms unfolding encodeValues_def by fastforce
  then show ?thesis
  proof cases
    case 2
    then show ?thesis using QueryEscape_bytes [of c k] QueryEscape_bytes [of c x] by auto
  qed simp
qed

lemma encodeValues_safe:
  assumes "c \<in> set (encodeValues v)"
  shows "c \<noteq> CHR ''#''" and "\<not> ctlByte c"
  using encodeValues_bytes [OF assms] unreserved_ordinary [of c] unreserved_not_ctl [of c] by (auto simp: ctlByte_def)

lemma parseRequestURL_query:
  assumes "\<And>c. c \<in> set q \<Longrightarrow> c \<noteq> CHR ''#'' \<and> \<not> ctlByte c"
  shows "parseRequestURL (escSegs ss @ CHR ''?'' # q) = Some (escSegs ss, q)"
proof -
  let ?u = "escSegs ss @ CHR ''?'' # q"
  have "CHR ''#'' \<notin> set ?u" using assms escSegs_safe(2) by fastforce
  then have frag: "before (CHR ''#'') ?u = ?u" by (rule before_absent)
  have path: "before (CHR ''?'') ?u = escSegs ss" using escSegs_safe(1) by (blast intro: before_no_sep)
  have "\<not> list_ex ctlByte ?u" using assms escSegs_safe(3) by (auto simp: list_ex_iff ctlByte_def)
  moreover have "validEncoded (escSegs ss)" using escSegs_safe(4) unfolding validEncoded_def list_all_iff by blast
  moreover obtain t where "PathUnescape (escSegs ss) = Some t" using unescape_escSegs [of ss] by (auto simp: PathUnescape_def)
  moreover have "PathUnescape [] = Some []" by (simp add: PathUnescape_def)
  ultimately show ?thesis unfolding parseRequestURL_def Let_def frag path by simp
qed

lemma PathEscape_plain: "list_all unreserved s \<Longrightarrow> PathEscape s = s"
  by (induction s) (simp_all add: PathEscape_def)

end
