(* ===== verification/OrchAuth.thy ===== *)
theory OrchAuth
  imports RegistryClient TokenValidator GoURL Channel
begin

text \<open>
  The gates of the orchestrator (\<open>cmd/orchestrator/main.go\<close>): what a request must prove before a handler runs. The
  state has the registry behind its HTTP interface, the Kubernetes API, the hub of substrate connections and the
  events that goroutines post in the background.
\<close>

section \<open>State and request context\<close>

record ('w, 'k) orch =
  oReg :: 'w
  oK8s :: 'k
  oHub :: substrateHub
  oPosts :: "(string \<times> Event) list"

definition onReg :: "('w \<Rightarrow> 'a \<times> 'w) \<Rightarrow> ('w, 'k) orch \<Rightarrow> 'a \<times> ('w, 'k) orch" where
  "onReg f o' = (case f (oReg o') of (a, w) \<Rightarrow> (a, o'\<lparr>oReg := w\<rparr>))"

text \<open>What \<open>requireToken\<close> and \<open>requireTemplateManager\<close> put into the context of a request.\<close>

record reqCtx =
  cxUserID :: string
  cxRoles :: "string list"
  cxOrgID :: string
  cxTemplateOrg :: string

definition hasRole :: "reqCtx \<Rightarrow> string \<Rightarrow> bool" where
  "hasRole cx r = (r \<in> set (cxRoles cx))"

text \<open>The permission check of the orchestrator's SpiceDB client: resource, permission, subject.\<close>

type_synonym 'w checker = "string \<Rightarrow> string \<Rightarrow> string \<Rightarrow> 'w \<Rightarrow> bool result"

definition failClosed :: "bool result \<Rightarrow> bool" where
  "failClosed r = (case r of Inl e \<Rightarrow> False | Inr ok \<Rightarrow> ok)"

text \<open>
  A handler that may answer early: \<open>Inl\<close> is the answer that ends the request, \<open>Inr\<close> what the rest works on.
\<close>

definition andThen :: "('e + 'a) \<times> 's \<Rightarrow> ('a \<Rightarrow> 's \<Rightarrow> ('e + 'b) \<times> 's) \<Rightarrow> ('e + 'b) \<times> 's" where
  "andThen p f = (case p of (Inl e, s) \<Rightarrow> (Inl e, s) | (Inr a, s) \<Rightarrow> f a s)"

definition answer :: "('e + 'e) \<times> 's \<Rightarrow> 'e \<times> 's" where
  "answer p = (case p of (Inl e, s) \<Rightarrow> (e, s) | (Inr e, s) \<Rightarrow> (e, s))"

lemma andThen_simps [simp]: "andThen (Inl e, s) f = (Inl e, s)" "andThen (Inr a, s) f = f a s"
  by (simp_all add: andThen_def)

lemma answer_simps [simp]: "answer (Inl e, s) = (e, s)" "answer (Inr e, s) = (e, s)"
  by (simp_all add: answer_def)

section \<open>Authority over agents and organizations\<close>

definition agentAllowed_orch ::
  "'w Server \<Rightarrow> 'w checker \<Rightarrow> reqCtx \<Rightarrow> string \<Rightarrow> string \<Rightarrow> string \<Rightarrow> ('w, 'k) orch \<Rightarrow> bool \<times> ('w, 'k) orch" where
  "agentAllowed_orch V chk cx oid userId action o' =
     (if userId = [] then (False, o')
      else case onReg (rcGetAgent (HTTPClient V) oid) o' of
          (Inl e, o1) \<Rightarrow> (False, o1)
        | (Inr rec, o1) \<Rightarrow>
            if agAgentID rec = [] then (False, o1)
            else if hasRole cx ''admin'' then (True, o1)
            else if agOrgID rec = [] then (agUserID rec = userId, o1)
            else (failClosed (chk (agentRef oid) action (userRef userId) (oReg o1)), o1))"

definition manageUserID :: "'w Server \<Rightarrow> reqCtx \<Rightarrow> string \<Rightarrow> ('w, 'k) orch \<Rightarrow> string \<times> ('w, 'k) orch" where
  "manageUserID V cx oid o' =
     (if \<not> hasRole cx ''admin'' then (cxUserID cx, o')
      else case onReg (rcGetAgent (HTTPClient V) oid) o' of
          (Inl e, o1) \<Rightarrow> (cxUserID cx, o1)
        | (Inr rec, o1) \<Rightarrow> (if agUserID rec = [] then cxUserID cx else agUserID rec, o1))"

definition canView ::
  "'w Server \<Rightarrow> 'w checker \<Rightarrow> reqCtx \<Rightarrow> string \<Rightarrow> string \<Rightarrow> ('w, 'k) orch \<Rightarrow> bool \<times> ('w, 'k) orch" where
  "canView V chk cx oid userId = agentAllowed_orch V chk cx oid userId actionView"

definition canManage ::
  "'w Server \<Rightarrow> 'w checker \<Rightarrow> reqCtx \<Rightarrow> string \<Rightarrow> string \<Rightarrow> ('w, 'k) orch \<Rightarrow> bool \<times> ('w, 'k) orch" where
  "canManage V chk cx oid userId = agentAllowed_orch V chk cx oid userId actionManage"

definition orgMemberCheck :: "'w checker \<Rightarrow> string \<Rightarrow> string \<Rightarrow> 'w \<Rightarrow> bool" where
  "orgMemberCheck chk org userId w = failClosed (chk (orgRef org) ''view_agents'' (userRef userId) w)"

definition orgAdminCheck :: "'w checker \<Rightarrow> string \<Rightarrow> string \<Rightarrow> 'w \<Rightarrow> bool" where
  "orgAdminCheck chk org userId w = failClosed (chk (orgRef org) ''admin_agents'' (userRef userId) w)"

definition fetchOrg :: "'w Server \<Rightarrow> string \<Rightarrow> 'w \<Rightarrow> Organization result \<times> 'w" where
  "fetchOrg V orgID w = onFst (decoded ''registry GET /v1/orgs'' (Inl (statusErr ''registry GET /v1/orgs'' 404))) (srvGetOrg V orgID w)"

section \<open>Gates\<close>

definition unauthorized :: "'b http" where "unauthorized = HttpError 401 ''unauthorized''"
definition forbidden :: "'b http" where "forbidden = HttpError 403 ''forbidden''"

definition bearerToken :: "string \<Rightarrow> string option" where
  "bearerToken authz = (if has_prefix authz ''Bearer '' then Some (drop 7 authz) else None)"

text \<open>
  \<open>validate\<close> is the verdict of the token validator. The checks of the middleware, and the context it builds; \<open>Inl\<close>
  is the refusal.
\<close>

definition tokenContext ::
  "(string \<Rightarrow> Claims result) \<Rightarrow> string \<Rightarrow> string \<Rightarrow> string \<Rightarrow> 'b http + reqCtx" where
  "tokenContext validate audience scope authz =
     (case bearerToken authz of
        None \<Rightarrow> Inl unauthorized
      | Some tok \<Rightarrow>
          (case validate tok of
             Inl e \<Rightarrow> Inl unauthorized
           | Inr claims \<Rightarrow>
               if clTokenUse claims = ''delegation'' then Inl unauthorized
               else if \<not> HasAudience claims audience then Inl unauthorized
               else if \<not> HasScope claims scope then Inl forbidden
               else let userID = trim_prefix (clUser claims) ''user:''
                    in if userID = [] then Inl unauthorized
                       else if \<not> ValidUserID userID then Inl unauthorized
                       else Inr \<lparr>cxUserID = userID, cxRoles = clRoles claims, cxOrgID = clOrgID claims, cxTemplateOrg = []\<rparr>))"

definition requireToken ::
  "(string \<Rightarrow> Claims result) \<Rightarrow> string \<Rightarrow> string \<Rightarrow> string \<Rightarrow> (reqCtx \<Rightarrow> 's \<Rightarrow> 'b http \<times> 's) \<Rightarrow> 's \<Rightarrow> 'b http \<times> 's" where
  "requireToken validate audience scope authz next s =
     (case tokenContext validate audience scope authz of Inl a \<Rightarrow> (a, s) | Inr cx \<Rightarrow> next cx s)"

definition requireAdmin ::
  "(string \<Rightarrow> Claims result) \<Rightarrow> string \<Rightarrow> string \<Rightarrow> string \<Rightarrow> (reqCtx \<Rightarrow> 's \<Rightarrow> 'b http \<times> 's) \<Rightarrow> 's \<Rightarrow> 'b http \<times> 's" where
  "requireAdmin validate audience scope authz next =
     requireToken validate audience scope authz (\<lambda>cx s. if \<not> hasRole cx ''admin'' then (forbidden, s) else next cx s)"

text \<open>The two organization gates differ only in the permission; \<open>oid\<close> is the organization in the path.\<close>

definition requireOrg_orch ::
  "(string \<Rightarrow> string \<Rightarrow> 'w \<Rightarrow> bool) \<Rightarrow> (string \<Rightarrow> Claims result) \<Rightarrow> string \<Rightarrow> string \<Rightarrow> string \<Rightarrow> string \<Rightarrow>
     (reqCtx \<Rightarrow> ('w, 'k) orch \<Rightarrow> 'b http \<times> ('w, 'k) orch) \<Rightarrow> ('w, 'k) orch \<Rightarrow> 'b http \<times> ('w, 'k) orch" where
  "requireOrg_orch perm validate audience scope authz oid next =
     requireToken validate audience scope authz (\<lambda>cx s.
       if hasRole cx ''admin'' then next cx s
       else if oid = [] \<or> cxOrgID cx \<noteq> oid then (notFound, s)
       else if \<not> perm oid (cxUserID cx) (oReg s) then (notFound, s)
       else next cx s)"

definition requireOrgAdmin ::
  "'w checker \<Rightarrow> (string \<Rightarrow> Claims result) \<Rightarrow> string \<Rightarrow> string \<Rightarrow> string \<Rightarrow> string \<Rightarrow>
     (reqCtx \<Rightarrow> ('w, 'k) orch \<Rightarrow> 'b http \<times> ('w, 'k) orch) \<Rightarrow> ('w, 'k) orch \<Rightarrow> 'b http \<times> ('w, 'k) orch" where
  "requireOrgAdmin chk = requireOrg_orch (orgAdminCheck chk)"

definition requireOrgMember ::
  "'w checker \<Rightarrow> (string \<Rightarrow> Claims result) \<Rightarrow> string \<Rightarrow> string \<Rightarrow> string \<Rightarrow> string \<Rightarrow>
     (reqCtx \<Rightarrow> ('w, 'k) orch \<Rightarrow> 'b http \<times> ('w, 'k) orch) \<Rightarrow> ('w, 'k) orch \<Rightarrow> 'b http \<times> ('w, 'k) orch" where
  "requireOrgMember chk = requireOrg_orch (orgMemberCheck chk)"

definition refuseIfOrgDisabled ::
  "'w Server \<Rightarrow> string \<Rightarrow> (('w, 'k) orch \<Rightarrow> 'b http \<times> ('w, 'k) orch) \<Rightarrow> ('w, 'k) orch \<Rightarrow> 'b http \<times> ('w, 'k) orch" where
  "refuseIfOrgDisabled V oid next o' =
     (case onReg (fetchOrg V oid) o' of
        (Inl e, o1) \<Rightarrow> (HttpError 502 ''registry unavailable'', o1)
      | (Inr org, o1) \<Rightarrow> if orgDisabled org then (HttpError 403 ''organization is disabled'', o1) else next o1)"

definition refuseSelfTarget :: "reqCtx \<Rightarrow> string \<Rightarrow> ('s \<Rightarrow> 'b http \<times> 's) \<Rightarrow> 's \<Rightarrow> 'b http \<times> 's" where
  "refuseSelfTarget cx target next s =
     (if cxUserID cx = [] \<or> equal_fold (cxUserID cx) target
      then (HttpError 403 ''cannot disable or delete your own account'', s) else next s)"

definition requireCanManage ::
  "'w Server \<Rightarrow> 'w checker \<Rightarrow> reqCtx \<Rightarrow> string \<Rightarrow> (('w, 'k) orch \<Rightarrow> 'b http \<times> ('w, 'k) orch) \<Rightarrow>
     ('w, 'k) orch \<Rightarrow> 'b http \<times> ('w, 'k) orch" where
  "requireCanManage V chk cx oid next o' =
     (case canManage V chk cx oid (cxUserID cx) o' of (ok, o1) \<Rightarrow> if \<not> ok then (notFound, o1) else next o1)"

definition requireTemplateManager ::
  "'w checker \<Rightarrow> (string \<Rightarrow> Claims result) \<Rightarrow> string \<Rightarrow> string \<Rightarrow> string \<Rightarrow>
     (reqCtx \<Rightarrow> ('w, 'k) orch \<Rightarrow> 'b http \<times> ('w, 'k) orch) \<Rightarrow> ('w, 'k) orch \<Rightarrow> 'b http \<times> ('w, 'k) orch" where
  "requireTemplateManager chk validate audience writeScope authz next =
     requireToken validate audience writeScope authz (\<lambda>cx s.
       if hasRole cx ''admin'' then next (cx\<lparr>cxTemplateOrg := []\<rparr>) s
       else if cxOrgID cx = [] \<or> \<not> orgAdminCheck chk (cxOrgID cx) (cxUserID cx) (oReg s) then (forbidden, s)
       else next (cx\<lparr>cxTemplateOrg := cxOrgID cx\<rparr>) s)"

section \<open>Forwarded paths\<close>

definition appendOrgID :: "string \<Rightarrow> string \<Rightarrow> string" where
  "appendOrgID path org =
     (if org = [] then path
      else path @ (if CHR ''?'' \<in> set path then ''&'' else ''?'') @ ''orgId='' @ QueryEscape org)"

definition withQuery :: "string \<Rightarrow> Values \<Rightarrow> string" where
  "withQuery path q = (let enc = encodeValues q in if enc \<noteq> [] then path @ CHR ''?'' # enc else path)"

definition withUserID :: "string \<Rightarrow> string \<Rightarrow> reqCtx \<Rightarrow> string" where
  "withUserID path rawQuery cx =
     (let q = valuesDel ''userId'' (parseQuery rawQuery)
      in withQuery path (if cxUserID cx \<noteq> [] then valuesSet ''userId'' (cxUserID cx) q else q))"

definition withManageUserID ::
  "'w Server \<Rightarrow> string \<Rightarrow> string \<Rightarrow> reqCtx \<Rightarrow> string \<Rightarrow> ('w, 'k) orch \<Rightarrow> string \<times> ('w, 'k) orch" where
  "withManageUserID V path rawQuery cx oid o' =
     (case manageUserID V cx oid o' of (uid, o1) \<Rightarrow>
        (let q = valuesDel ''userId'' (parseQuery rawQuery)
         in withQuery path (if uid \<noteq> [] then valuesSet ''userId'' uid q else q), o1))"

definition withCallerOrg :: "string \<Rightarrow> reqCtx \<Rightarrow> string" where
  "withCallerOrg path cx = appendOrgID path (cxOrgID cx)"

definition withTemplateOrg :: "string \<Rightarrow> reqCtx \<Rightarrow> string" where
  "withTemplateOrg path cx = appendOrgID path (cxTemplateOrg cx)"

text \<open>What the registry reads: the query behind the first question mark.\<close>

definition queryOf :: "string \<Rightarrow> Values" where
  "queryOf url = parseQuery (drop (Suc (length (before (CHR ''?'') url))) url)"

end
