(* ===== verification/Orchestrator.thy ===== *)
theory Orchestrator
  imports OrchAuth
begin

text \<open>
  The handlers of the orchestrator (\<open>cmd/orchestrator/main.go\<close>) and the teardown of substrate agents
  (\<open>substrate_reaper.go\<close>): spawning, listing, deleting and forwarding.
\<close>

section \<open>Kubernetes\<close>

text \<open>The API server is a parameter; workloads live in the namespace \<open>default\<close> and are named by their agent.\<close>

record AgentWorkload =
  awName :: string
  awAgentType :: string
  awUserID :: string
  awTenantID :: string
  awLifecycle :: string
  awTask :: string
  awParentID :: string
  awConsentRequired :: bool

datatype k8s_error = K8sNotFound | K8sError string

record 'k K8s =
  k8sCreate :: "AgentWorkload \<Rightarrow> 'k \<Rightarrow> k8s_error option \<times> 'k"
  k8sDelete :: "string \<Rightarrow> 'k \<Rightarrow> k8s_error option \<times> 'k"

definition onK8s :: "('k \<Rightarrow> 'a \<times> 'k) \<Rightarrow> ('w, 'k) orch \<Rightarrow> 'a \<times> ('w, 'k) orch" where
  "onK8s f o' = (case f (oK8s o') of (a, k) \<Rightarrow> (a, o'\<lparr>oK8s := k\<rparr>))"

definition onHub :: "(substrateHub \<Rightarrow> 'a \<times> substrateHub) \<Rightarrow> ('w, 'k) orch \<Rightarrow> 'a \<times> ('w, 'k) orch" where
  "onHub f o' = (case f (oHub o') of (a, h) \<Rightarrow> (a, o'\<lparr>oHub := h\<rparr>))"

text \<open>An event posted by a goroutine that the handler does not wait for.\<close>

definition goPost :: "string \<Rightarrow> Event \<Rightarrow> ('w, 'k) orch \<Rightarrow> ('w, 'k) orch" where
  "goPost oid e o' = o'\<lparr>oPosts := oPosts o' @ [(oid, e)]\<rparr>"

section \<open>Spawning\<close>

record SpawnRequest =
  srAgentType :: string
  srUserID :: string
  srTenantID :: string
  srTask :: string
  srParentID :: string
  srOrgID :: string

definition validViewingOrg :: "string \<Rightarrow> bool" where
  "validViewingOrg s = (s \<noteq> [] \<and> length s \<le> 63 \<and> orgIDByte (hd s) \<and> orgIDByte (last s) \<and>
     list_all (\<lambda>c. orgIDByte c \<or> c = CHR ''-'') s)"

definition spawnAuth :: "(string \<Rightarrow> Claims result) \<Rightarrow> string \<Rightarrow> string \<Rightarrow> 'b http + (Claims \<times> string)" where
  "spawnAuth validate audience authz =
     (case bearerToken authz of
        None \<Rightarrow> Inl unauthorized
      | Some tok \<Rightarrow>
          (case validate tok of
             Inl e \<Rightarrow> Inl unauthorized
           | Inr claims \<Rightarrow>
               if clTokenUse claims = ''delegation'' then Inl unauthorized
               else if \<not> HasAudience claims audience then Inl unauthorized
               else let userID = trim_prefix (clUser claims) ''user:''
                    in if userID = [] then Inl unauthorized
                       else if \<not> ValidUserID userID then Inl unauthorized
                       else Inr (claims, userID)))"

definition agentPath ::
  "'w Server \<Rightarrow> string \<Rightarrow> Claims \<Rightarrow> string \<Rightarrow> SpawnRequest \<Rightarrow> ('w, 'k) orch \<Rightarrow> ('b http + SpawnRequest) \<times> ('w, 'k) orch" where
  "agentPath V spawnScope claims userID req o' =
     (if \<not> HasScope claims spawnScope then (Inl forbidden, o')
      else if clActingAgentName claims = [] then (Inl unauthorized, o')
      else case onReg (rcGetAgent (HTTPClient V) (clActingAgentName claims)) o' of
          (Inl e, o1) \<Rightarrow> (Inl (HttpError 403 ''unknown parent agent''), o1)
        | (Inr parent, o1) \<Rightarrow>
            (Inr (req\<lparr>srUserID := userID, srParentID := clActingAgentName claims,
                     srTenantID := agTenantID parent, srOrgID := agOrgID parent\<rparr>), o1))"

definition spawnOrg :: "Claims \<Rightarrow> string \<Rightarrow> string" where
  "spawnOrg claims viewOrg =
     (if HasRole claims ''admin'' \<and> viewOrg \<noteq> [] \<and> validViewingOrg viewOrg then viewOrg else clOrgID claims)"

definition humanPath ::
  "'w checker \<Rightarrow> string \<Rightarrow> string \<Rightarrow> Claims \<Rightarrow> string \<Rightarrow> SpawnRequest \<Rightarrow> ('w, 'k) orch \<Rightarrow> ('b http + SpawnRequest) \<times> ('w, 'k) orch" where
  "humanPath chk writeScope viewOrg claims userID req o' =
     (if \<not> HasScope claims writeScope then (Inl forbidden, o')
      else if srParentID req \<noteq> [] then (Inl (HttpError 400 ''parentId not allowed on dashboard spawn''), o')
      else let org = spawnOrg claims viewOrg; admin = HasRole claims ''admin''
           in if org = [] \<and> \<not> admin then (Inl (HttpError 403 ''no active organization''), o')
              else if org \<noteq> [] \<and> \<not> admin \<and> \<not> orgMemberCheck chk org userID (oReg o')
                then (Inl (HttpError 403 ''organization membership could not be verified''), o')
              else (Inr (req\<lparr>srUserID := userID, srOrgID := org\<rparr>), o'))"

text \<open>The gates on the template, shared with the registration of remote agents; \<open>Some\<close> is the refusal.\<close>

definition templateRefusal :: "AgentTemplate \<Rightarrow> string \<Rightarrow> string \<Rightarrow> 'b http option" where
  "templateRefusal tpl org tenant =
     (if tplOrgID tpl \<noteq> [] \<and> tplOrgID tpl \<noteq> org then Some (HttpError 400 ''unknown agent type'')
      else if tplStatus tpl = TemplateStatusDisabled then Some (HttpError 409 ''agent type is disabled'')
      else if tplRequiresTenant tpl \<and> tenant = [] then Some (HttpError 400 ''tenantId is required for this agent type'')
      else None)"

definition spawnTemplate ::
  "'w Server \<Rightarrow> SpawnRequest \<Rightarrow> ('w, 'k) orch \<Rightarrow> ('b http + AgentTemplate) \<times> ('w, 'k) orch" where
  "spawnTemplate V req o' =
     (if srUserID req = [] then (Inl (HttpError 400 ''userId is required''), o')
      else if srAgentType req = [] then (Inl (HttpError 400 ''agentType is required''), o')
      else case onReg (rcGetTemplate (HTTPClient V) (srAgentType req)) o' of
          (Inl e, o1) \<Rightarrow> (Inl (HttpError 400 ''unknown agent type''), o1)
        | (Inr tpl, o1) \<Rightarrow>
            (case templateRefusal tpl (srOrgID req) (srTenantID req) of Some a \<Rightarrow> (Inl a, o1) | None \<Rightarrow> (Inr tpl, o1)))"

definition spawnPolicy ::
  "'w Server \<Rightarrow> SpawnRequest \<Rightarrow> ('w, 'k) orch \<Rightarrow> ('b http + bool) \<times> ('w, 'k) orch" where
  "spawnPolicy V req o' =
     (if srParentID req = [] then (Inr False, o')
      else case onReg (rcCheckSpawnPolicy (HTTPClient V) (srParentID req) (srAgentType req)) o' of
          (Inl e, o1) \<Rightarrow> (Inl (HttpError 502 ''spawn policy check failed''), o1)
        | (Inr dec, o1) \<Rightarrow>
            if \<not> sdAllowed dec
            then (Inl (HttpError 403 (''spawn denied: '' @ sdReason dec)),
                  goPost (srParentID req) (newEvent SourceOrchestrator ''spawn_denied''
                    (ObjPayload [(''childType'', srAgentType req), (''reason'', sdReason dec)])) o1)
            else (Inr (sdConsentRequired dec), o1))"

definition lifecycleOf :: "AgentTemplate \<Rightarrow> string" where
  "lifecycleOf tpl = (if rtLifecycle (tplRuntime tpl) = [] then ''short-lived'' else rtLifecycle (tplRuntime tpl))"

text \<open>The record a spawn preregisters; fields it does not set are zero.\<close>

definition spawnedRecord :: "string \<Rightarrow> SpawnRequest \<Rightarrow> AgentTemplate \<Rightarrow> AgentRecord" where
  "spawnedRecord name req tpl =
     zeroAgent\<lparr>agAgentID := name, agAgentType := srAgentType req, agTenantID := srTenantID req, agUserID := srUserID req,
       agLifecycle := lifecycleOf tpl, agSupportsChat := rtSupportsChat (tplRuntime tpl), agParentID := srParentID req,
       agOrgID := srOrgID req\<rparr>"

definition spawnCommand :: "string \<Rightarrow> SpawnRequest \<Rightarrow> AgentTemplate \<Rightarrow> bool \<Rightarrow> SpawnCommand" where
  "spawnCommand name req tpl consentRequired =
     \<lparr>scAgentID = name, scAgentType = srAgentType req, scUserID = srUserID req, scTenantID = srTenantID req,
      scOrgID = srOrgID req, scTask = srTask req, scParentID = srParentID req, scLifecycle = lifecycleOf tpl,
      scConsentRequired = consentRequired, scSupportsChat = rtSupportsChat (tplRuntime tpl)\<rparr>"

definition workloadOf :: "string \<Rightarrow> SpawnRequest \<Rightarrow> AgentTemplate \<Rightarrow> bool \<Rightarrow> AgentWorkload" where
  "workloadOf name req tpl consentRequired =
     \<lparr>awName = name, awAgentType = srAgentType req, awUserID = srUserID req, awTenantID = srTenantID req,
      awLifecycle = lifecycleOf tpl, awTask = srTask req, awParentID = srParentID req, awConsentRequired = consentRequired\<rparr>"

definition spawnFailed :: "'b http" where "spawnFailed = HttpError 500 ''failed to spawn agent''"

definition placeSubstrate ::
  "'w Server \<Rightarrow> string \<Rightarrow> SpawnRequest \<Rightarrow> AgentTemplate \<Rightarrow> bool \<Rightarrow> ('w, 'k) orch \<Rightarrow> string http \<times> ('w, 'k) orch" where
  "placeSubstrate V name req tpl consentRequired o' =
     (case onReg (rcPreRegisterAgent (HTTPClient V)
             ((spawnedRecord name req tpl)\<lparr>agPlacement := PlacementSubstrate, agConsentRequired := consentRequired\<rparr>)) o' of
        (Some e, o1) \<Rightarrow> (spawnFailed, o1)
      | (None, o1) \<Rightarrow>
          (HttpOK 202 name, snd (onHub (push (srOrgID req) (NewSpawn (spawnCommand name req tpl consentRequired))) o1)))"

definition placePlatform ::
  "'w Server \<Rightarrow> 'k K8s \<Rightarrow> string \<Rightarrow> SpawnRequest \<Rightarrow> AgentTemplate \<Rightarrow> bool \<Rightarrow> ('w, 'k) orch \<Rightarrow> string http \<times> ('w, 'k) orch" where
  "placePlatform V K name req tpl consentRequired o' =
     (case onReg (rcPreRegisterAgent (HTTPClient V) (spawnedRecord name req tpl)) o' of
        (Some e, o1) \<Rightarrow> (spawnFailed, o1)
      | (None, o1) \<Rightarrow>
          (case onK8s (k8sCreate K (workloadOf name req tpl consentRequired)) o1 of
             (Some e, o2) \<Rightarrow> (spawnFailed, snd (onReg (rcDismissAgent (HTTPClient V) name (srUserID req)) o2))
           | (None, o2) \<Rightarrow>
               (HttpOK 202 name, goPost name (newEvent SourceOrchestrator ''workload_created''
                  (ObjPayload [(''workloadName'', name), (''agentType'', srAgentType req), (''tenantId'', srTenantID req),
                     (''userId'', srUserID req), (''task'', srTask req)])) o2)))"

definition placeAgent ::
  "'w Server \<Rightarrow> 'k K8s \<Rightarrow> string \<Rightarrow> SpawnRequest \<Rightarrow> AgentTemplate \<Rightarrow> bool \<Rightarrow> ('w, 'k) orch \<Rightarrow> string http \<times> ('w, 'k) orch" where
  "placeAgent V K name req tpl consentRequired o' =
     (if srOrgID req = [] then placePlatform V K name req tpl consentRequired o'
      else case onReg (fetchOrg V (srOrgID req)) o' of
          (Inl e, o1) \<Rightarrow> placePlatform V K name req tpl consentRequired o1
        | (Inr org, o1) \<Rightarrow>
            (case orgSubstrate org of
               Some s \<Rightarrow>
                 if subStatus s = SubstrateActive then placeSubstrate V name req tpl consentRequired o1
                 else placePlatform V K name req tpl consentRequired o1
             | None \<Rightarrow> placePlatform V K name req tpl consentRequired o1))"

text \<open>
  \<open>POST /spawn\<close>. The argument \<open>short\<close> is the random id, \<open>viewOrg\<close> the query parameter \<open>org\<close>, \<open>body\<close> the
  decoded request, in which \<open>OrgID\<close> has no JSON name.
\<close>

definition handleSpawn ::
  "'w Server \<Rightarrow> 'w checker \<Rightarrow> 'k K8s \<Rightarrow> (string \<Rightarrow> Claims result) \<Rightarrow> string \<Rightarrow> string \<Rightarrow> string \<Rightarrow> string \<Rightarrow>
     string \<Rightarrow> string \<Rightarrow> SpawnRequest result \<Rightarrow> ('w, 'k) orch \<Rightarrow> string http \<times> ('w, 'k) orch" where
  "handleSpawn V chk K validate audience spawnScope writeScope short authz viewOrg body o' =
     (case body of
        Inl e \<Rightarrow> (HttpError 400 (errString e), o')
      | Inr req0 \<Rightarrow>
          (case spawnAuth validate audience authz of
             Inl a \<Rightarrow> (a, o')
           | Inr (claims, userID) \<Rightarrow>
               answer (andThen (if clChain claims \<noteq> [] then agentPath V spawnScope claims userID req0 o'
                                else humanPath chk writeScope viewOrg claims userID req0 o') (\<lambda>req o1.
                 andThen (spawnTemplate V req o1) (\<lambda>tpl o2.
                 andThen (spawnPolicy V req o2) (\<lambda>consentRequired o3.
                   (case placeAgent V K (''agent-'' @ short) req tpl consentRequired o3 of (a, o4) \<Rightarrow> (Inr a, o4))))))))"

section \<open>Reading agents\<close>

record agentListItem =
  liAgent :: AgentRecord
  liCanManage :: bool

definition listVisible :: "AgentRecord list \<Rightarrow> string \<Rightarrow> string \<Rightarrow> bool \<Rightarrow> agentListItem list" where
  "listVisible agents userID orgID isOrgAdmin =
     map (\<lambda>a. \<lparr>liAgent = a, liCanManage = True\<rparr>)
       (filter (\<lambda>a. agUserID a \<noteq> [] \<and> agUserID a = userID \<or> isOrgAdmin \<and> agOrgID a \<noteq> [] \<and> agOrgID a = orgID) agents)"

definition handleListAgents_orch ::
  "'w Server \<Rightarrow> 'w checker \<Rightarrow> string \<Rightarrow> reqCtx \<Rightarrow> ('w, 'k) orch \<Rightarrow> agentListItem list http \<times> ('w, 'k) orch" where
  "handleListAgents_orch V chk viewingOrg cx o' =
     (case onReg (rcListAgents (HTTPClient V)) o' of
        (Inl e, o1) \<Rightarrow> (HttpError 502 ''registry unavailable'', o1)
      | (Inr agents, o1) \<Rightarrow>
          if hasRole cx ''admin'' \<and> viewingOrg \<noteq> [] \<and> validViewingOrg viewingOrg
          then (HttpOK 200 (map (\<lambda>a. \<lparr>liAgent = a, liCanManage = True\<rparr>)
                  (filter (\<lambda>a. agOrgID a \<noteq> [] \<and> agOrgID a = viewingOrg) agents)), o1)
          else let isOrgAdmin = (cxUserID cx \<noteq> [] \<and> cxOrgID cx \<noteq> [] \<and> orgAdminCheck chk (cxOrgID cx) (cxUserID cx) (oReg o1))
               in (HttpOK 200 (listVisible agents (cxUserID cx) (cxOrgID cx) isOrgAdmin), o1))"

definition handleEvents_orch ::
  "'w Server \<Rightarrow> 'w checker \<Rightarrow> string \<Rightarrow> reqCtx \<Rightarrow> ('w, 'k) orch \<Rightarrow> Event list http \<times> ('w, 'k) orch" where
  "handleEvents_orch V chk oid cx o' =
     (case canView V chk cx oid (cxUserID cx) o' of
        (False, o1) \<Rightarrow> (notFound, o1)
      | (True, o1) \<Rightarrow>
          (case onReg (rcListEvents (HTTPClient V) oid) o1 of
             (Inl e, o2) \<Rightarrow> (HttpError 502 ''registry unavailable'', o2)
           | (Inr evts, o2) \<Rightarrow> (HttpOK 200 evts, o2)))"

record logLine =
  llTS :: string
  llText :: string

text \<open>\<open>parseTime\<close> is \<open>time.Parse(time.RFC3339Nano, \<dots>)\<close>.\<close>

definition parseLogLines :: "(string \<Rightarrow> time result) \<Rightarrow> string \<Rightarrow> string \<Rightarrow> logLine list" where
  "parseLogLines parseTime raw sinceTime =
     (let since = (if sinceTime = [] then None else case parseTime sinceTime of Inl e \<Rightarrow> None | Inr t \<Rightarrow> Some t);
          lineOf = (\<lambda>l. let ts = before (CHR '' '') l in \<lparr>llTS = ts, llText = drop (Suc (length ts)) l\<rparr>);
          keep = (\<lambda>ln. case since of
              None \<Rightarrow> True
            | Some s \<Rightarrow> (case parseTime (llTS ln) of Inl e \<Rightarrow> False | Inr t \<Rightarrow> t > s))
      in filter keep (map lineOf (filter (\<lambda>l. l \<noteq> []) (split_on (CHR 0x0A) raw))))"

definition isContainerNotReadyErr :: "k8s_error option \<Rightarrow> bool" where
  "isContainerNotReadyErr err = (case err of
       None \<Rightarrow> False
     | Some K8sNotFound \<Rightarrow> True
     | Some (K8sError msg) \<Rightarrow>
         str_contains msg ''waiting to start'' \<or> str_contains msg ''ContainerCreating'' \<or>
         str_contains msg ''not found'' \<or> str_contains msg ''PodInitializing'')"

section \<open>Deleting\<close>

text \<open>One pass over the nodes of a subtree: how many workloads it deleted and the nodes that failed.\<close>

fun deleteNodes :: "'k K8s \<Rightarrow> string list \<Rightarrow> nat \<Rightarrow> string list \<Rightarrow> 'k \<Rightarrow> (nat \<times> string list) \<times> 'k" where
  "deleteNodes K [] d failed k = ((d, failed), k)"
| "deleteNodes K (n # ns) d failed k =
     (case k8sDelete K n k of
        (None, k1) \<Rightarrow> deleteNodes K ns (Suc d) failed k1
      | (Some K8sNotFound, k1) \<Rightarrow> deleteNodes K ns d failed k1
      | (Some (K8sError e), k1) \<Rightarrow> deleteNodes K ns d (List.insert n failed) k1)"

datatype sweepEnd =
    Refused nat string
  | ClientGone
  | Swept nat "string list"

text \<open>
  The settle loop. The last argument of the loop but the state counts the passes left. Between two passes the handler
  pauses: \<open>settle\<close> gives the state after the pause, in which other requests were served, or that the client is gone.
\<close>

fun deletePasses ::
  "'w Server \<Rightarrow> 'k K8s \<Rightarrow> (nat \<Rightarrow> ('w, 'k) orch \<Rightarrow> ('w, 'k) orch option) \<Rightarrow> string \<Rightarrow> string \<Rightarrow> nat \<Rightarrow> nat \<Rightarrow> string list \<Rightarrow>
     nat \<Rightarrow> ('w, 'k) orch \<Rightarrow> sweepEnd \<times> ('w, 'k) orch" where
  "deletePasses V K settle oid uid pass deleted failed 0 o' = (Swept deleted failed, o')"
| "deletePasses V K settle oid uid pass deleted failed (Suc n) o' =
     (case onReg (rcSubtree (HTTPClient V) oid uid) o' of
        (Inl e, o1) \<Rightarrow> (if pass = 0 then Refused 502 ''registry unavailable'' else Swept deleted failed, o1)
      | (Inr nodes, o1) \<Rightarrow>
          if nodes = [] then (if pass = 0 then Refused 404 ''not found'' else Swept deleted failed, o1)
          else (case onK8s (deleteNodes K nodes 0 failed) o1 of
                  ((d, failed'), o2) \<Rightarrow>
                    if d = 0 then (Swept deleted failed', o2)
                    else if n = 0 then (Swept (deleted + d) failed', o2)
                    else (case settle pass o2 of
                            None \<Rightarrow> (ClientGone, o2)
                          | Some o3 \<Rightarrow> deletePasses V K settle oid uid (Suc pass) (deleted + d) failed' n o3)))"

definition maxPasses :: nat where "maxPasses = 8"

type_synonym deleteBody = "(nat \<times> string list) option"

text \<open>The answer of a teardown: 207 with what failed, sorted, or 204.\<close>

definition teardownAnswer :: "nat \<Rightarrow> string list \<Rightarrow> deleteBody http" where
  "teardownAnswer deleted failed =
     (if failed \<noteq> [] then HttpOK 207 (Some (deleted, sort failed)) else HttpOK 204 None)"

definition isSubstratePlaced :: "AgentRecord \<Rightarrow> bool" where
  "isSubstratePlaced rec = (agPlacement rec = PlacementSubstrate)"

definition pushKill :: "string \<Rightarrow> string \<Rightarrow> ('w, 'k) orch \<Rightarrow> bool \<times> ('w, 'k) orch" where
  "pushKill org agentID o' = onHub (push org (NewKill agentID)) o'"

text \<open>\<open>reapSubtree\<close>: the nodes dismissed so far and those whose dismissal failed, and one node of a pass.\<close>

definition tearDown ::
  "'w Server \<Rightarrow> string \<Rightarrow> string \<Rightarrow> string \<Rightarrow> (string list \<times> string list) \<times> ('w, 'k) orch \<Rightarrow> (string list \<times> string list) \<times> ('w, 'k) orch" where
  "tearDown V org uid nid st =
     (case st of ((dn, failed), o') \<Rightarrow>
        if nid \<in> set dn then st
        else case onReg (rcDismissAgent (HTTPClient V) nid uid) o' of
            (Some e, o1) \<Rightarrow> ((dn, List.insert nid failed), o1)
          | (None, o1) \<Rightarrow> ((nid # dn, removeAll nid failed), snd (pushKill org nid o1)))"

text \<open>
  The passes of \<open>reapSubtree\<close>; \<open>False\<close> in the answer is a caller that went away. \<open>settle\<close> is what happens between two passes; a reaper
  whose pause is not positive goes on at once, which is a \<open>settle\<close> that never gives up.
\<close>

fun reapPasses ::
  "'w Server \<Rightarrow> (nat \<Rightarrow> ('w, 'k) orch \<Rightarrow> ('w, 'k) orch option) \<Rightarrow> string \<Rightarrow> string \<Rightarrow> string \<Rightarrow> nat \<Rightarrow> nat \<Rightarrow>
     (string list \<times> string list) \<times> ('w, 'k) orch \<Rightarrow> bool \<times> (string list \<times> string list) \<times> ('w, 'k) orch" where
  "reapPasses V settle root org uid pass 0 st = (True, st)"
| "reapPasses V settle root org uid pass (Suc n) st =
     (case onReg (rcSubtree (HTTPClient V) root uid) (snd st) of
        (Inl e, o1) \<Rightarrow> (True, (fst st, o1))
      | (Inr nodes, o1) \<Rightarrow>
          if nodes = [] then (True, (fst st, o1))
          else let st1 = fold (tearDown V org uid) nodes (fst st, o1)
               in if length (fst (fst st1)) = length (fst (fst st)) then (True, st1)
                  else if n = 0 then (True, st1)
                  else (case settle pass (snd st1) of
                          None \<Rightarrow> (False, st1)
                        | Some o2 \<Rightarrow> reapPasses V settle root org uid (Suc pass) n (fst st1, o2)))"

definition reapSubtree ::
  "'w Server \<Rightarrow> (nat \<Rightarrow> ('w, 'k) orch \<Rightarrow> ('w, 'k) orch option) \<Rightarrow> string \<Rightarrow> string \<Rightarrow> string \<Rightarrow> ('w, 'k) orch \<Rightarrow>
     (nat \<times> string list) \<times> ('w, 'k) orch" where
  "reapSubtree V settle root org uid o' =
     (case reapPasses V settle root org uid 0 maxPasses (([], []), o') of
        (alive, st) \<Rightarrow>
          let st' = (if alive then tearDown V org uid root st else st)
          in ((length (fst (fst st')), sort (snd (fst st'))), snd st'))"

definition handleDelete ::
  "'w Server \<Rightarrow> 'w checker \<Rightarrow> 'k K8s \<Rightarrow> (nat \<Rightarrow> ('w, 'k) orch \<Rightarrow> ('w, 'k) orch option) \<Rightarrow> string \<Rightarrow> reqCtx \<Rightarrow>
     ('w, 'k) orch \<Rightarrow> deleteBody http \<times> ('w, 'k) orch" where
  "handleDelete V chk K settle oid cx o' =
     (case canManage V chk cx oid (cxUserID cx) o' of
        (False, o1) \<Rightarrow> (notFound, o1)
      | (True, o1) \<Rightarrow>
          (case manageUserID V cx oid o1 of (uid, o2) \<Rightarrow>
             (case onReg (rcGetAgent (HTTPClient V) oid) o2 of
                (Inl e, o3) \<Rightarrow> (HttpError 502 ''registry unavailable'', o3)
              | (Inr rootRec, o3) \<Rightarrow>
                  if isSubstratePlaced rootRec then
                    (case reapSubtree V settle oid (agOrgID rootRec) uid o3 of
                       ((n, failed), o4) \<Rightarrow> (teardownAnswer n failed, o4))
                  else (case deletePasses V K settle oid uid 0 0 [] maxPasses o3 of
                          (Refused n msg, o4) \<Rightarrow> (HttpError n msg, o4)
                        | (ClientGone, o4) \<Rightarrow> (HttpOK 200 None, o4)
                        | (Swept n failed, o4) \<Rightarrow> (teardownAnswer n failed, o4)))))"

section \<open>Acting on an agent through the registry\<close>

definition relay :: "'a http result \<Rightarrow> 'a http" where
  "relay r = (case r of Inl e \<Rightarrow> HttpError 502 ''registry unavailable'' | Inr a \<Rightarrow> a)"

text \<open>
  The registry reads the acting user from the query string of the forwarded path.
\<close>

definition forwardManage ::
  "'w Server \<Rightarrow> (string \<Rightarrow> string \<Rightarrow> 'w \<Rightarrow> 'b http result \<times> 'w) \<Rightarrow> string \<Rightarrow> string \<Rightarrow> string \<Rightarrow> reqCtx \<Rightarrow> ('w, 'k) orch \<Rightarrow> 'b http \<times> ('w, 'k) orch" where
  "forwardManage V endpoint oid verb rawQuery cx o' =
     (case withManageUserID V (''/v1/agents/'' @ oid @ ''/'' @ verb) rawQuery cx oid o' of (path, o1) \<Rightarrow>
        (case onReg (endpoint oid (valuesGet (queryOf path) ''userId'')) o1 of (r, o2) \<Rightarrow> (relay r, o2)))"

definition handleRevoke_orch ::
  "'w Server \<Rightarrow> 'w checker \<Rightarrow> string \<Rightarrow> string \<Rightarrow> reqCtx \<Rightarrow> ('w, 'k) orch \<Rightarrow> string list http \<times> ('w, 'k) orch" where
  "handleRevoke_orch V chk oid rawQuery cx =
     requireCanManage V chk cx oid (forwardManage V (srvRevoke V) oid ''revoke'' rawQuery cx)"

definition handleResume_orch ::
  "'w Server \<Rightarrow> 'w checker \<Rightarrow> string \<Rightarrow> string \<Rightarrow> reqCtx \<Rightarrow> ('w, 'k) orch \<Rightarrow> string list http \<times> ('w, 'k) orch" where
  "handleResume_orch V chk oid rawQuery cx =
     requireCanManage V chk cx oid (forwardManage V (srvResume V) oid ''resume'' rawQuery cx)"

definition handleDismiss_orch ::
  "'w Server \<Rightarrow> 'w checker \<Rightarrow> string \<Rightarrow> string \<Rightarrow> reqCtx \<Rightarrow> ('w, 'k) orch \<Rightarrow> string list http \<times> ('w, 'k) orch" where
  "handleDismiss_orch V chk oid rawQuery cx =
     requireCanManage V chk cx oid (\<lambda>o1.
       (case onReg (rcGetAgent (HTTPClient V) oid) o1 of (rec, o2) \<Rightarrow>
          (case forwardManage V (srvDismiss V) oid ''dismiss'' rawQuery cx o2 of (a, o3) \<Rightarrow>
             (a, case rec of
                   Inl e \<Rightarrow> o3
                 | Inr r \<Rightarrow> if isSubstratePlaced r \<and> 200 \<le> http_status a \<and> http_status a < 300
                            then snd (pushKill (agOrgID r) oid o3) else o3))))"

section \<open>Remote agents\<close>

record remoteReq =
  rmAgentType :: string
  rmTask :: string
  rmTenantID :: string

definition handleRegisterRemote ::
  "'w Server \<Rightarrow> string \<Rightarrow> string \<Rightarrow> remoteReq result \<Rightarrow> reqCtx \<Rightarrow> ('w, 'k) orch \<Rightarrow> string http \<times> ('w, 'k) orch" where
  "handleRegisterRemote V short orgID body cx o' =
     (if cxUserID cx = [] then (unauthorized, o')
      else case body of
          Inl e \<Rightarrow> (HttpError 400 ''invalid request body'', o')
        | Inr b \<Rightarrow>
            if rmAgentType b = [] then (HttpError 400 ''agentType is required'', o')
            else (case onReg (rcGetTemplate (HTTPClient V) (rmAgentType b)) o' of
                    (Inl e, o1) \<Rightarrow> (HttpError 400 ''unknown agent type'', o1)
                  | (Inr tpl, o1) \<Rightarrow>
                      (case templateRefusal tpl orgID (rmTenantID b) of
                         Some a \<Rightarrow> (a, o1)
                       | None \<Rightarrow>
                           (case onReg (fetchOrg V orgID) o1 of
                              (Inl e, o2) \<Rightarrow> (HttpError 502 ''registry unavailable'', o2)
                            | (Inr org, o2) \<Rightarrow>
                                if (case orgAnchor org of None \<Rightarrow> True | Some a \<Rightarrow> ancStatus a \<noteq> AnchorActive)
                                then (HttpError 409 ''org has no active anchor'', o2)
                                else (case onReg (rcPreRegisterAgent (HTTPClient V)
                                          (zeroAgent\<lparr>agAgentID := ''remote-'' @ short, agAgentType := rmAgentType b,
                                             agTenantID := rmTenantID b, agUserID := cxUserID cx,
                                             agLifecycle := rtLifecycle (tplRuntime tpl), agOrgID := orgID,
                                             agPlacement := PlacementRemote\<rparr>)) o2 of
                                        (Some e, o3) \<Rightarrow> (HttpError 500 ''failed to register agent'', o3)
                                      | (None, o3) \<Rightarrow> (HttpOK 201 (''remote-'' @ short), o3))))))"

end
