(* ===== verification/OrchSpawn.thy ===== *)
theory OrchSpawn
  imports Orchestrator
begin

text \<open>
  What \<open>POST /spawn\<close> guarantees, for every registry that satisfies \<open>registry_api\<close>: an accepted spawn creates one
  record with the identity its token proves, under a parent, template and policy that allow it, and a refused one creates no
  agent.
\<close>

section \<open>The stages of a spawn\<close>

lemma onReg_eq: "onReg f o' = (a, o2) \<longleftrightarrow> (\<exists>w. f (oReg o') = (a, w) \<and> o2 = o'\<lparr>oReg := w\<rparr>)"
  by (auto simp: onReg_def split: prod.splits)

lemma onReg_same: "f (oReg o') = (a, oReg o') \<Longrightarrow> onReg f o' = (a, o')"
  by (simp add: onReg_def)

lemma answer_andThen:
  "answer (andThen p f) = (a, s) \<longleftrightarrow> (\<exists>s1. p = (Inl a, s1) \<and> s = s1) \<or> (\<exists>x s1. p = (Inr x, s1) \<and> answer (f x s1) = (a, s))"
  by (auto simp: andThen_def split: prod.splits sum.splits)

text \<open>What a token proves about the identity of a spawn.\<close>

definition spawnIdentity ::
  "'w checker \<Rightarrow> (string \<Rightarrow> AgentRecord option) \<Rightarrow> 'w \<Rightarrow> string \<Rightarrow> string \<Rightarrow> string \<Rightarrow> Claims \<Rightarrow> SpawnRequest \<Rightarrow> bool" where
  "spawnIdentity chk agents w spawnScope writeScope viewOrg claims req \<longleftrightarrow>
     srUserID req = trim_prefix (clUser claims) ''user:'' \<and> srUserID req \<noteq> [] \<and> ValidUserID (srUserID req) \<and>
     (if clChain claims \<noteq> [] then
        HasScope claims spawnScope \<and> srParentID req = clActingAgentName claims \<and>
        (\<exists>p. agents (srParentID req) = Some p \<and> srOrgID req = agOrgID p \<and> srTenantID req = agTenantID p)
      else HasScope claims writeScope \<and> srParentID req = [] \<and>
        (if HasRole claims ''admin'' then srOrgID req \<in> {clOrgID claims, viewOrg}
         else srOrgID req = clOrgID claims \<and> srOrgID req \<noteq> [] \<and> orgMemberCheck chk (srOrgID req) (srUserID req) w))"

lemma spawnAuth_ok:
  assumes "spawnAuth validate audience authz = Inr (claims, userID)"
  shows "\<exists>tok. bearerToken authz = Some tok \<and> validate tok = Inr claims \<and> clTokenUse claims \<noteq> ''delegation'' \<and>
    HasAudience claims audience \<and> userID = trim_prefix (clUser claims) ''user:'' \<and> userID \<noteq> [] \<and> ValidUserID userID"
  using assms by (auto simp: spawnAuth_def Let_def split: option.splits sum.splits if_splits)

lemma spawnAuth_refuses: "spawnAuth validate audience authz = Inl a \<Longrightarrow> a = unauthorized"
  by (auto simp: spawnAuth_def Let_def split: option.splits sum.splits if_splits)

context registry_api
begin

lemma identity_stage:
  assumes wf: "wf (oReg o')" and auth: "spawnAuth validate audience authz = Inr (claims, userID)"
    and p: "(if clChain claims \<noteq> [] then agentPath V spawnScope claims userID req0 o'
       else humanPath chk writeScope viewOrg claims userID req0 o') = (r, o1)"
  shows "o1 = o' \<and> (\<forall>req. r = Inr req \<longrightarrow> srAgentType req = srAgentType req0 \<and> srTask req = srTask req0 \<and>
      spawnIdentity chk (agents (oReg o')) (oReg o') spawnScope writeScope viewOrg claims req) \<and>
    (\<forall>a. r = Inl a \<longrightarrow> (\<exists>n msg. a = HttpError n msg \<and> n \<in> {400, 401, 403}))"
proof (cases "clChain claims \<noteq> []")
  case True
  let ?g = "onReg (rcGetAgent (HTTPClient V) (clActingAgentName claims)) o'"
  have "?g = (case agents (oReg o') (clActingAgentName claims) of None \<Rightarrow> Inl ErrAgentNotFound | Some r \<Rightarrow> Inr r, o')"
    by (rule onReg_same) (simp add: get_agent [OF wf])
  then show ?thesis
    using p True spawnAuth_ok [OF auth]
    by (auto simp: agentPath_def spawnIdentity_def forbidden_def unauthorized_def split: if_splits option.splits)
next
  case False
  then show ?thesis
    using p spawnAuth_ok [OF auth]
    by (auto simp: humanPath_def spawnIdentity_def spawnOrg_def forbidden_def Let_def split: if_splits)
qed

lemma template_stage:
  assumes wf: "wf (oReg o')" and p: "spawnTemplate V req o' = (r, o1)"
  shows "o1 = o' \<and> (\<forall>tpl. r = Inr tpl \<longrightarrow> srAgentType req \<noteq> [] \<and> (tplOrgID tpl = [] \<or> tplOrgID tpl = srOrgID req) \<and>
      tplStatus tpl \<noteq> TemplateStatusDisabled \<and> (tplRequiresTenant tpl \<longrightarrow> srTenantID req \<noteq> []) \<and>
      (plainSegment (srAgentType req) \<longrightarrow> templates (oReg o') (srAgentType req) = Some tpl)) \<and>
    (\<forall>a. r = Inl a \<longrightarrow> (\<exists>n msg. a = HttpError n msg \<and> n \<in> {400, 409}))"
proof -
  obtain g where g: "rcGetTemplate (HTTPClient V) (srAgentType req) (oReg o') = (g, oReg o')"
      "plainSegment (srAgentType req) \<longrightarrow> (\<forall>t. g = Inr t \<longleftrightarrow> templates (oReg o') (srAgentType req) = Some t)"
    using get_template [OF wf] by blast
  have "onReg (rcGetTemplate (HTTPClient V) (srAgentType req)) o' = (g, o')" by (rule onReg_same) (rule g(1))
  then show ?thesis
    using p g(2) by (auto simp: spawnTemplate_def templateRefusal_def split: if_splits sum.splits option.splits)
qed

lemma policy_stage:
  assumes wf: "wf (oReg o')" and p: "spawnPolicy V req o' = (r, o1)"
  shows "oReg o1 = oReg o' \<and> oK8s o1 = oK8s o' \<and> oHub o1 = oHub o' \<and>
    (\<forall>c. r = Inr c \<longrightarrow> o1 = o' \<and> (if srParentID req = [] then \<not> c else
      (\<exists>a t. agents (oReg o') (srParentID req) = Some a \<and> templates (oReg o') (agAgentType a) = Some t \<and>
         srAgentType req \<in> set (delAllowedChildTypes (tplDelegation t)) \<and>
         c = (case gget (delChildPolicies (tplDelegation t)) (srAgentType req) of None \<Rightarrow> False | Some cpol \<Rightarrow> cspRequireUserConsent cpol)))) \<and>
    (\<forall>a. r = Inl a \<longrightarrow> (\<exists>msg. a = HttpError 403 msg))"
proof (cases "srParentID req = []")
  case False
  obtain d where d: "rcCheckSpawnPolicy (HTTPClient V) (srParentID req) (srAgentType req) (oReg o') = (Inr d, oReg o')"
      "sdAllowed d \<longrightarrow> (\<exists>a t. agents (oReg o') (srParentID req) = Some a \<and> templates (oReg o') (agAgentType a) = Some t \<and>
         srAgentType req \<in> set (delAllowedChildTypes (tplDelegation t)) \<and>
         sdConsentRequired d = (case gget (delChildPolicies (tplDelegation t)) (srAgentType req) of None \<Rightarrow> False | Some cpol \<Rightarrow> cspRequireUserConsent cpol))"
    using policy [OF wf] by blast
  have "onReg (rcCheckSpawnPolicy (HTTPClient V) (srParentID req) (srAgentType req)) o' = (Inr d, o')"
    by (rule onReg_same) (rule d(1))
  then show ?thesis
    using p False d(2) by (cases "sdAllowed d") (auto simp: spawnPolicy_def goPost_def)
qed (use p in \<open>auto simp: spawnPolicy_def\<close>)

text \<open>The preregistration of a spawn, and the failures after it.\<close>

lemma preregister_stage:
  assumes wf: "wf (oReg o')" and p: "onReg (rcPreRegisterAgent (HTTPClient V) r) o' = (e, o1)"
  shows "wf (oReg o1) \<and> templates (oReg o1) = templates (oReg o') \<and> oK8s o1 = oK8s o' \<and> oHub o1 = oHub o' \<and>
    (if e = None then agAgentID r \<noteq> [] \<and> \<not> suspended (oReg o') (agOrgID r) \<and>
       agents (oReg o1) = (agents (oReg o'))(agAgentID r \<mapsto> r\<lparr>agStatus := ''pending''\<rparr>)
     else agents (oReg o1) = agents (oReg o'))"
  using p preregister [OF wf] by (auto simp: onReg_eq)

lemma fetchOrg_read:
  assumes "wf w"
  shows "\<exists>r. fetchOrg V oid w = (r, w)"
proof -
  have "snd (fetchOrg V oid w) = w" using org_read [OF assms] by (simp add: fetchOrg_def onFst_def)
  then show ?thesis by (metis prod.collapse)
qed

lemma substrate_stage:
  assumes wf: "wf (oReg o')" and p: "placeSubstrate V name req tpl c o' = (ans, o2)"
  shows "wf (oReg o2) \<and> templates (oReg o2) = templates (oReg o') \<and> oK8s o2 = oK8s o' \<and>
    (ans = HttpOK 202 name \<and> \<not> suspended (oReg o') (srOrgID req) \<and>
       agents (oReg o2) = (agents (oReg o'))(name \<mapsto> (spawnedRecord name req tpl)
         \<lparr>agPlacement := PlacementSubstrate, agConsentRequired := c, agStatus := ''pending''\<rparr>) \<and>
       oHub o2 = snd (push (srOrgID req) (NewSpawn (spawnCommand name req tpl c)) (oHub o')) \<or>
     ans = spawnFailed \<and> agents (oReg o2) = agents (oReg o') \<and> oHub o2 = oHub o')"
proof -
  let ?r = "(spawnedRecord name req tpl)\<lparr>agPlacement := PlacementSubstrate, agConsentRequired := c\<rparr>"
  obtain e o1 where e: "onReg (rcPreRegisterAgent (HTTPClient V) ?r) o' = (e, o1)" by force
  note pre = preregister_stage [OF wf e]
  have id: "agAgentID ?r = name" "agOrgID ?r = srOrgID req" by (simp_all add: spawnedRecord_def)
  show ?thesis
    using p e pre id by (cases e) (auto simp: placeSubstrate_def onHub_def split: prod.splits)
qed

lemma platform_stage:
  assumes wf: "wf (oReg o')" and p: "placePlatform V K name req tpl c o' = (ans, o2)"
  shows "wf (oReg o2) \<and> templates (oReg o2) = templates (oReg o') \<and> oHub o2 = oHub o' \<and>
    (ans = HttpOK 202 name \<and> \<not> suspended (oReg o') (srOrgID req) \<and>
       agents (oReg o2) = (agents (oReg o'))(name \<mapsto> (spawnedRecord name req tpl)\<lparr>agStatus := ''pending''\<rparr>) \<and>
       k8sCreate K (workloadOf name req tpl c) (oK8s o') = (None, oK8s o2) \<or>
     ans = spawnFailed \<and> (agents (oReg o2) = agents (oReg o') \<and> oK8s o2 = oK8s o' \<or>
       (\<exists>r e. agents (oReg o2) = (agents (oReg o'))(name \<mapsto> r) \<and>
          (r = (spawnedRecord name req tpl)\<lparr>agStatus := ''pending'', agDismissed := True\<rparr> \<or>
           r = (spawnedRecord name req tpl)\<lparr>agStatus := ''pending''\<rparr>) \<and>
          k8sCreate K (workloadOf name req tpl c) (oK8s o') = (Some e, oK8s o2))))"
proof -
  let ?r = "spawnedRecord name req tpl"
  obtain e o1 where e: "onReg (rcPreRegisterAgent (HTTPClient V) ?r) o' = (e, o1)" by force
  note pre = preregister_stage [OF wf e]
  have id: "agAgentID ?r = name" "agOrgID ?r = srOrgID req" by (simp_all add: spawnedRecord_def)
  show ?thesis
  proof (cases e)
    case (Some x)
    then show ?thesis using p e pre by (auto simp: placePlatform_def)
  next
    case None
    obtain ke k where k: "k8sCreate K (workloadOf name req tpl c) (oK8s o1) = (ke, k)" by force
    show ?thesis
    proof (cases ke)
      case None
      then show ?thesis using p e \<open>e = None\<close> k pre id by (auto simp: placePlatform_def onK8s_def goPost_def)
    next
      case (Some y)
      obtain de w where d: "rcDismissAgent (HTTPClient V) name (srUserID req) (oReg o1) = (de, w)" by force
      have o2: "ans = spawnFailed" "o2 = o1\<lparr>oK8s := k, oReg := w\<rparr>"
        using p e \<open>e = None\<close> k Some d by (auto simp: placePlatform_def onK8s_def onReg_def)
      note dis = dismiss [OF conjunct1 [OF pre] d]
      have "agents w = (agents (oReg o'))(name \<mapsto> ?r\<lparr>agStatus := ''pending'', agDismissed := True\<rparr>) \<or>
          agents w = (agents (oReg o'))(name \<mapsto> ?r\<lparr>agStatus := ''pending''\<rparr>)"
        using dis pre \<open>e = None\<close> id by (cases de) auto
      then show ?thesis using o2 dis pre k Some by auto
    qed
  qed
qed

text \<open>Where an agent is placed does not change who it is.\<close>

lemma place_stage:
  assumes wf: "wf (oReg o')" and p: "placeAgent V K name req tpl c o' = (ans, o2)"
  shows "wf (oReg o2) \<and> templates (oReg o2) = templates (oReg o') \<and>
    (ans = HttpOK 202 name \<and> \<not> suspended (oReg o') (srOrgID req) \<and>
       (\<exists>r. agents (oReg o2) = (agents (oReg o'))(name \<mapsto> r) \<and> agStatus r = ''pending'' \<and>
          agUserID r = srUserID req \<and> agOrgID r = srOrgID req \<and> agParentID r = srParentID req \<and>
          agTenantID r = srTenantID req \<and> agAgentType r = srAgentType req \<and>
          (agPlacement r = PlacementSubstrate \<and> agConsentRequired r = c \<and> oK8s o2 = oK8s o' \<and>
             oHub o2 = snd (push (srOrgID req) (NewSpawn (spawnCommand name req tpl c)) (oHub o')) \<or>
           agPlacement r = [] \<and> oHub o2 = oHub o' \<and> k8sCreate K (workloadOf name req tpl c) (oK8s o') = (None, oK8s o2))) \<or>
     ans = spawnFailed \<and> oHub o2 = oHub o' \<and>
       (agents (oReg o2) = agents (oReg o') \<and> oK8s o2 = oK8s o' \<or>
        (\<exists>r e. agents (oReg o2) = (agents (oReg o'))(name \<mapsto> r) \<and> agStatus r = ''pending'' \<and>
           k8sCreate K (workloadOf name req tpl c) (oK8s o') = (Some e, oK8s o2))))"
proof -
  obtain f where f: "fetchOrg V (srOrgID req) (oReg o') = (f, oReg o')" using fetchOrg_read [OF wf] by blast
  have "onReg (fetchOrg V (srOrgID req)) o' = (f, o')" by (rule onReg_same) (rule f)
  then have "placeSubstrate V name req tpl c o' = (ans, o2) \<or> placePlatform V K name req tpl c o' = (ans, o2)"
    using p by (auto simp: placeAgent_def split: if_splits sum.splits option.splits)
  then show ?thesis
  proof
    assume "placeSubstrate V name req tpl c o' = (ans, o2)"
    from substrate_stage [OF wf this] show ?thesis by (auto simp: spawnedRecord_def)
  next
    assume "placePlatform V K name req tpl c o' = (ans, o2)"
    from platform_stage [OF wf this] show ?thesis by (auto simp: spawnedRecord_def)
  qed
qed

text \<open>The whole handler: the stages in the order the code runs them.\<close>

lemma spawn_stages:
  assumes wf: "wf (oReg o')" and h: "handleSpawn V chk K validate audience spawnScope writeScope short authz viewOrg body o' = (ans, o2)"
  shows "oReg o2 = oReg o' \<and> oK8s o2 = oK8s o' \<and> oHub o2 = oHub o' \<and> (\<exists>n msg. ans = HttpError n msg \<and> n \<in> {400, 401, 403, 409}) \<or>
    (\<exists>claims userID req0 req tpl c. body = Inr req0 \<and> (spawnAuth validate audience authz :: string http + Claims \<times> string) = Inr (claims, userID) \<and>
       srAgentType req = srAgentType req0 \<and> srTask req = srTask req0 \<and>
       spawnIdentity chk (agents (oReg o')) (oReg o') spawnScope writeScope viewOrg claims req \<and>
       (spawnTemplate V req o' :: (string http + AgentTemplate) \<times> _) = (Inr tpl, o') \<and> (spawnPolicy V req o' :: (string http + bool) \<times> _) = (Inr c, o') \<and>
       placeAgent V K (''agent-'' @ short) req tpl c o' = (ans, o2))"
proof (cases body)
  case (Inl e)
  then show ?thesis using h by (auto simp: handleSpawn_def)
next
  case body: (Inr req0)
  show ?thesis
  proof (cases "spawnAuth validate audience authz :: string http + Claims \<times> string")
    case (Inl a)
    then show ?thesis using h spawnAuth_refuses [OF Inl] by (simp add: handleSpawn_def unauthorized_def body) auto
  next
    case (Inr cu)
    obtain claims userID where cu: "cu = (claims, userID)" by force
    then have auth: "(spawnAuth validate audience authz :: string http + Claims \<times> string) = Inr (claims, userID)" using Inr by simp
    obtain r1 :: "string http + SpawnRequest" and o1 where p1: "(if clChain claims \<noteq> [] then agentPath V spawnScope claims userID req0 o'
       else humanPath chk writeScope viewOrg claims userID req0 o') = (r1, o1)" by force
    note s1 = identity_stage [OF wf auth p1]
    have h': "answer (andThen (r1, o1) (\<lambda>req o1. andThen (spawnTemplate V req o1) (\<lambda>tpl o2. andThen (spawnPolicy V req o2)
        (\<lambda>c o3. case placeAgent V K (''agent-'' @ short) req tpl c o3 of (a, o4) \<Rightarrow> (Inr a, o4))))) = (ans, o2)"
      using h by (simp add: handleSpawn_def body auth p1)
    show ?thesis
    proof (cases r1)
      case (Inl a)
      then show ?thesis using h' s1 by (auto simp: andThen_def)
    next
      case req: (Inr req)
      obtain r2 :: "string http + AgentTemplate" and o2' where p2: "spawnTemplate V req o' = (r2, o2')" by force
      note s2 = template_stage [OF wf p2]
      show ?thesis
      proof (cases r2)
        case (Inl a)
        then show ?thesis using h' s1 s2 req p2 by (auto simp: andThen_def)
      next
        case tpl: (Inr tpl)
        obtain r3 :: "string http + bool" and o3 where p3: "spawnPolicy V req o' = (r3, o3)" by force
        note s3 = policy_stage [OF wf p3]
        show ?thesis
          using h' s1 s2 s3 req tpl p2 p3 body auth
          by (cases r3) (auto simp: andThen_def split: prod.splits)
      qed
    qed
  qed
qed

text \<open>An accepted spawn: what was proved before the record was made, and the one record it made.\<close>

lemma spawn_accepted:
  assumes wf: "wf (oReg o')"
    and h: "handleSpawn V chk K validate audience spawnScope writeScope short authz viewOrg body o' = (HttpOK n name, o2)"
  shows "n = 202 \<and> name = ''agent-'' @ short \<and> wf (oReg o2) \<and> templates (oReg o2) = templates (oReg o') \<and>
    (\<exists>tok claims req tpl r c. bearerToken authz = Some tok \<and> validate tok = Inr claims \<and> clTokenUse claims \<noteq> ''delegation'' \<and>
       HasAudience claims audience \<and> spawnIdentity chk (agents (oReg o')) (oReg o') spawnScope writeScope viewOrg claims req \<and>
       (tplOrgID tpl = [] \<or> tplOrgID tpl = srOrgID req) \<and> tplStatus tpl \<noteq> TemplateStatusDisabled \<and>
       (tplRequiresTenant tpl \<longrightarrow> srTenantID req \<noteq> []) \<and>
       (plainSegment (srAgentType req) \<longrightarrow> templates (oReg o') (srAgentType req) = Some tpl) \<and>
       (srParentID req \<noteq> [] \<longrightarrow> (\<exists>a t. agents (oReg o') (srParentID req) = Some a \<and> templates (oReg o') (agAgentType a) = Some t \<and>
          srAgentType req \<in> set (delAllowedChildTypes (tplDelegation t)) \<and>
          c = (case gget (delChildPolicies (tplDelegation t)) (srAgentType req) of None \<Rightarrow> False | Some cpol \<Rightarrow> cspRequireUserConsent cpol))) \<and>
       \<not> suspended (oReg o') (srOrgID req) \<and>
       agents (oReg o2) = (agents (oReg o'))(name \<mapsto> r) \<and> agStatus r = ''pending'' \<and>
       agUserID r = srUserID req \<and> agOrgID r = srOrgID req \<and> agParentID r = srParentID req \<and>
       agTenantID r = srTenantID req \<and> agAgentType r = srAgentType req \<and>
       (agPlacement r = PlacementSubstrate \<and> agConsentRequired r = c \<and> oK8s o2 = oK8s o' \<and>
          oHub o2 = snd (push (srOrgID req) (NewSpawn (spawnCommand name req tpl c)) (oHub o')) \<or>
        agPlacement r = [] \<and> oHub o2 = oHub o' \<and> k8sCreate K (workloadOf name req tpl c) (oK8s o') = (None, oK8s o2)))"
proof -
  obtain claims userID req0 req tpl c where st: "(spawnAuth validate audience authz :: string http + Claims \<times> string) = Inr (claims, userID)"
      "spawnIdentity chk (agents (oReg o')) (oReg o') spawnScope writeScope viewOrg claims req"
      "(spawnTemplate V req o' :: (string http + AgentTemplate) \<times> _) = (Inr tpl, o')" "(spawnPolicy V req o' :: (string http + bool) \<times> _) = (Inr c, o')"
      "placeAgent V K (''agent-'' @ short) req tpl c o' = (HttpOK n name, o2)"
    using spawn_stages [OF wf h] by blast
  have ok: "HttpOK n name \<noteq> spawnFailed" by (simp add: spawnFailed_def)
  have pl: "n = 202" "name = ''agent-'' @ short" using place_stage [OF wf st(5)] ok by auto
  obtain tok where tok: "bearerToken authz = Some tok" "validate tok = Inr claims" "clTokenUse claims \<noteq> ''delegation''"
      "HasAudience claims audience" using spawnAuth_ok [OF st(1)] by blast
  obtain r where r: "\<not> suspended (oReg o') (srOrgID req)"
      "agents (oReg o2) = (agents (oReg o'))(name \<mapsto> r)" "agStatus r = ''pending''" "agUserID r = srUserID req"
      "agOrgID r = srOrgID req" "agParentID r = srParentID req" "agTenantID r = srTenantID req" "agAgentType r = srAgentType req"
      "agPlacement r = PlacementSubstrate \<and> agConsentRequired r = c \<and> oK8s o2 = oK8s o' \<and>
          oHub o2 = snd (push (srOrgID req) (NewSpawn (spawnCommand name req tpl c)) (oHub o')) \<or>
        agPlacement r = [] \<and> oHub o2 = oHub o' \<and> k8sCreate K (workloadOf name req tpl c) (oK8s o') = (None, oK8s o2)"
    using place_stage [OF wf st(5)] ok unfolding pl(2) [symmetric] by blast
  have t: "tplOrgID tpl = [] \<or> tplOrgID tpl = srOrgID req" "tplStatus tpl \<noteq> TemplateStatusDisabled"
      "tplRequiresTenant tpl \<longrightarrow> srTenantID req \<noteq> []"
      "plainSegment (srAgentType req) \<longrightarrow> templates (oReg o') (srAgentType req) = Some tpl"
    using template_stage [OF wf st(3)] by blast+
  have c: "srParentID req \<noteq> [] \<longrightarrow> (\<exists>a t. agents (oReg o') (srParentID req) = Some a \<and> templates (oReg o') (agAgentType a) = Some t \<and>
          srAgentType req \<in> set (delAllowedChildTypes (tplDelegation t)) \<and>
          c = (case gget (delChildPolicies (tplDelegation t)) (srAgentType req) of None \<Rightarrow> False | Some cpol \<Rightarrow> cspRequireUserConsent cpol))"
    using policy_stage [OF wf st(4)] by (cases "srParentID req = []") auto
  have "wf (oReg o2)" "templates (oReg o2) = templates (oReg o')" using place_stage [OF wf st(5)] by blast+
  then show ?thesis
    by (intro conjI exI [of _ tok] exI [of _ claims] exI [of _ req] exI [of _ tpl] exI [of _ r] exI [of _ c])
      (rule pl tok st(2) t c r | assumption)+
qed

text \<open>A refused spawn: nothing changed, unless the workload could not be created after the record was made.\<close>

lemma spawn_refused:
  assumes wf: "wf (oReg o')"
    and h: "handleSpawn V chk K validate audience spawnScope writeScope short authz viewOrg body o' = (HttpError n msg, o2)"
  shows "oHub o2 = oHub o' \<and>
    (agents (oReg o2) = agents (oReg o') \<and> templates (oReg o2) = templates (oReg o') \<and> oK8s o2 = oK8s o' \<or>
     n = 500 \<and> (\<exists>r e W. agents (oReg o2) = (agents (oReg o'))(''agent-'' @ short \<mapsto> r) \<and> agStatus r = ''pending'' \<and>
        k8sCreate K W (oK8s o') = (Some e, oK8s o2)))"
proof -
  from spawn_stages [OF wf h] consider
      (early) "oReg o2 = oReg o'" "oK8s o2 = oK8s o'" "oHub o2 = oHub o'"
    | (placed) req tpl c where "placeAgent V K (''agent-'' @ short) req tpl c o' = (HttpError n msg, o2)" by blast
  then show ?thesis
  proof cases
    case placed
    have "(spawnFailed :: string http) = HttpError n msg \<Longrightarrow> n = 500" by (simp add: spawnFailed_def)
    then show ?thesis using place_stage [OF wf placed] by (metis http.distinct(1))
  qed simp
qed

end

section \<open>Spawning over the registry\<close>

text \<open>A cluster that keeps workloads by name, for concrete runs.\<close>

definition mapK8s :: "(string \<times> AgentWorkload) list K8s" where
  "mapK8s =
     \<lparr>k8sCreate = (\<lambda>W k. if gget k (awName W) = None then (None, gput (awName W) W k) else (Some (K8sError ''already exists''), k)),
      k8sDelete = (\<lambda>n k. if gget k n = None then (Some K8sNotFound, k) else (None, gdel n k))\<rparr>"

definition demoClaims :: Claims where
  "demoClaims = \<lparr>clUser = ''user:alice'', clActingAgent = [], clActingAgentName = [], clChain = [], clScopes = [''agents:write''],
     clAudience = [''orch''], clRoles = [], clTokenUse = [], clOrgID = ''acme''\<rparr>"

definition demoSpawn :: SpawnRequest where
  "demoSpawn = \<lparr>srAgentType = ''worker'', srUserID = ''mallory'', srTenantID = [], srTask = ''t'', srParentID = [], srOrgID = []\<rparr>"

definition demoOrch :: "((store, Mock) world, (string \<times> AgentWorkload) list) orch" where
  "demoOrch = \<lparr>oReg = emptyWorld, oK8s = [], oHub = [], oPosts = []\<rparr>"




text \<open>
  C13: a refused spawn leaves no agent behind. When \<open>POST /spawn\<close> answers with an error, no command went to any substrate, and
  either the registry's agents and templates and the cluster are as before, or the error is 500, the cluster refused
  the workload of a spawn that had passed every check, and the one record it had preregistered is left \<open>pending\<close>.
\<close>

theorem spawn_refused_leaves_no_agent:
  assumes "agentsWf (wStore (oReg o'))"
    and "handleSpawn (registryServer memStore D oddPath) chk K validate audience spawnScope writeScope short authz viewOrg body o'
      = (HttpError n msg, o2)"
  shows "oHub o2 = oHub o' \<and>
    (memAgents (oReg o2) = memAgents (oReg o') \<and> memTemplates (oReg o2) = memTemplates (oReg o') \<and> oK8s o2 = oK8s o' \<or>
     n = 500 \<and> (\<exists>r e W. memAgents (oReg o2) = (memAgents (oReg o'))(''agent-'' @ short \<mapsto> r) \<and> agStatus r = ''pending'' \<and>
        k8sCreate K W (oK8s o') = (Some e, oK8s o2)))"
  by (rule memReg.spawn_refused [OF assms])

theorem spawn_refused_leaves_no_agent_witness:
  "\<exists>n msg o2. handleSpawn (registryServer memStore mockClient (\<lambda>_. timedOut)) (\<lambda>_ _ _ _. Inr False) mapK8s (\<lambda>_. Inr demoClaims) ''orch''
     ''agents:spawn'' ''agents:write'' ''1'' ''Bearer x'' [] (Inr demoSpawn) demoOrch = (HttpError n msg, o2) \<and>
     memAgents (oReg o2) = memAgents (oReg demoOrch)"
proof -
  let ?h = "handleSpawn (registryServer memStore mockClient (\<lambda>_. timedOut)) (\<lambda>_ _ _ _. Inr False) mapK8s (\<lambda>_. Inr demoClaims) ''orch''
     ''agents:spawn'' ''agents:write'' ''1'' ''Bearer x'' [] (Inr demoSpawn) demoOrch"
  have "fst ?h = HttpError 403 ''organization membership could not be verified''" by code_simp
  then obtain o2 where h: "?h = (HttpError 403 ''organization membership could not be verified'', o2)" using prod.collapse by metis
  have wf: "agentsWf (wStore (oReg demoOrch))" by (simp add: demoOrch_def agentsWf_def)
  show ?thesis using spawn_refused_leaves_no_agent [OF wf h] h by auto
qed

end
