(* ===== verification/OrchTeardown.thy ===== *)
theory OrchTeardown
  imports OrchSpawn
begin

text \<open>
  The authority the orchestrator checks itself, and what \<open>DELETE /v1/agents/{id}\<close> guarantees: its gate agrees with the
  registry's, and the workloads of the whole subtree are gone when it answers 204, whatever other requests did between its
  passes.
\<close>

section \<open>The gate of the orchestrator and the gate of the registry\<close>

text \<open>Both services ask the same SpiceDB.\<close>

definition sdbChecker :: "'d SpiceDB \<Rightarrow> (store, 'd) world checker" where
  "sdbChecker D res perm subj w = CheckPermission D res perm subj (wSdb w)"

lemma gate_allows:
  assumes wf: "agentsWf (wStore (oReg o'))" and na: "\<not> hasRole cx ''admin''"
  shows "agentAllowed_orch (registryServer memStore D oddPath) (sdbChecker D) cx oid u action o' =
    (agentAllowed memStore D oid u action (oReg o') = Inr (True, True), o')"
proof -
  have g: "onReg (rcGetAgent (HTTPClient (registryServer memStore D oddPath)) oid) o' =
      (case memAgents (oReg o') oid of None \<Rightarrow> Inl ErrAgentNotFound | Some r \<Rightarrow> Inr r, o')"
    by (rule onReg_same) (simp add: memReg.get_agent [OF wf])
  show ?thesis
  proof (cases "memAgents (oReg o') oid")
    case None
    then show ?thesis using g by (simp add: agentAllowed_orch_def agentAllowed_def mem_simps getAgent_def)
  next
    case (Some r)
    then have "agAgentID r \<noteq> []" using agentsWf_id [OF wf Some] agentsWf_nonempty [OF wf Some] by simp
    then show ?thesis using g Some na
      by (auto simp: agentAllowed_orch_def agentAllowed_def mem_simps getAgent_def sdbChecker_def failClosed_def split: sum.splits)
  qed
qed

text \<open>
  C12: the two gates agree. For a caller without the platform admin role the orchestrator lets a request on an agent through,
  for viewing and for managing, exactly when the registry's own check would allow the same user the same action: an agent
  without an organization by its owner only, one with an organization by the SpiceDB permission, an unknown agent and an
  error of SpiceDB never. The check changes nothing.
\<close>

theorem gates_agree:
  assumes "agentsWf (wStore (oReg o'))" and "\<not> hasRole cx ''admin''"
  shows "canManage (registryServer memStore D oddPath) (sdbChecker D) cx oid u o' =
      (agentAllowed memStore D oid u actionManage (oReg o') = Inr (True, True), o') \<and>
    canView (registryServer memStore D oddPath) (sdbChecker D) cx oid u o' =
      (agentAllowed memStore D oid u actionView (oReg o') = Inr (True, True), o')"
  by (simp add: canManage_def canView_def gate_allows [OF assms])

definition familyOrch :: "((store, Mock) world, (string \<times> AgentWorkload) list) orch" where
  "familyOrch = demoOrch\<lparr>oReg := familyWorld\<rparr>"

definition aliceCtx :: reqCtx where
  "aliceCtx = \<lparr>cxUserID = ''alice'', cxRoles = [], cxOrgID = [], cxTemplateOrg = []\<rparr>"

lemma familyOrch_simps [simp]: "oReg familyOrch = familyWorld" "oK8s familyOrch = []"
  by (simp_all add: familyOrch_def demoOrch_def)

theorem gates_agree_witness:
  "canManage (registryServer memStore mockClient (\<lambda>_. timedOut)) (sdbChecker mockClient) aliceCtx ''r'' ''alice'' familyOrch = (True, familyOrch)"
  using gates_agree [of familyOrch aliceCtx mockClient "\<lambda>_. timedOut" "''r''" "''alice''"] familyWorld_wf familyWorld_allowed
  by (simp add: aliceCtx_def hasRole_def)

section \<open>Passes over the cluster\<close>

text \<open>
  What the code relies on of the Kubernetes API. \<open>present\<close> is the set of workloads that are not deleted: a successful delete
  removes one, \<open>NotFound\<close> says there was none, and a failed delete removes nothing.
\<close>

definition clusterLaw :: "'k K8s \<Rightarrow> ('k \<Rightarrow> string set) \<Rightarrow> bool" where
  "clusterLaw K present \<longleftrightarrow> (\<forall>n k. case k8sDelete K n k of
       (None, k') \<Rightarrow> present k' = present k - {n}
     | (Some K8sNotFound, k') \<Rightarrow> n \<notin> present k \<and> present k' = present k
     | (Some (K8sError e), k') \<Rightarrow> present k' = present k)"

definition clusterUp :: "'k K8s \<Rightarrow> bool" where
  "clusterUp K \<longleftrightarrow> (\<forall>n k e. fst (k8sDelete K n k) \<noteq> Some (K8sError e))"

lemma deleteNodes_effect:
  assumes law: "clusterLaw K present" and h: "deleteNodes K ns d failed k = ((d', failed'), k')"
  shows "present k' \<subseteq> present k \<and> present k - set ns \<subseteq> present k' \<and> present k' \<inter> set ns \<subseteq> set failed' \<and> set failed \<subseteq> set failed' \<and>
    (clusterUp K \<longrightarrow> failed' = failed)"
  using h
proof (induction ns arbitrary: d failed k)
  case (Cons n ns)
  obtain r k1 where r: "k8sDelete K n k = (r, k1)" by force
  have l: "case (r, k1) of (None, k') \<Rightarrow> present k' = present k - {n} | (Some K8sNotFound, k') \<Rightarrow> n \<notin> present k \<and> present k' = present k
     | (Some (K8sError e), k') \<Rightarrow> present k' = present k"
    using law [unfolded clusterLaw_def, THEN spec [of _ n], THEN spec [of _ k]] r by simp
  have up: "r \<noteq> Some (K8sError e)" if "clusterUp K" for e
    using that [unfolded clusterUp_def, THEN spec [of _ n], THEN spec [of _ k], THEN spec [of _ e]] r by simp
  consider (gone) "r = None" | (absent) "r = Some K8sNotFound" | (err) e where "r = Some (K8sError e)"
    by (metis k8s_error.exhaust option.exhaust)
  then show ?case
  proof cases
    case gone
    then have "deleteNodes K ns (Suc d) failed k1 = ((d', failed'), k')" using Cons.prems r by simp
    from Cons.IH [OF this] l gone show ?thesis by auto
  next
    case absent
    then have "deleteNodes K ns d failed k1 = ((d', failed'), k')" using Cons.prems r by simp
    from Cons.IH [OF this] l absent show ?thesis by auto
  next
    case (err e)
    then have "deleteNodes K ns d (List.insert n failed) k1 = ((d', failed'), k')" using Cons.prems r by simp
    from Cons.IH [OF this] l err up show ?thesis by auto
  qed
qed simp

text \<open>What a caller with manage authority reads of the subtree, through the client.\<close>

definition mayManage :: "'d SpiceDB \<Rightarrow> string \<Rightarrow> string \<Rightarrow> ((store, 'd) world, 'k) orch \<Rightarrow> bool" where
  "mayManage D oid uid o' \<longleftrightarrow> agentsWf (wStore (oReg o')) \<and> \<not> rejectInvalidUserID uid \<and>
     agentAllowed memStore D oid uid actionManage (oReg o') = Inr (True, True)"

lemma subtree_read:
  assumes "mayManage D oid uid o'"
  shows "\<exists>nodes. onReg (rcSubtree (HTTPClient (registryServer memStore D oddPath)) oid uid) o' = (Inr nodes, o') \<and>
    nodes \<noteq> [] \<and> set nodes = descendants (memAgents (oReg o')) oid"
proof -
  let ?w = "oReg o'"
  have wf: "agentsWf (wStore ?w)" and u: "\<not> rejectInvalidUserID uid" and al: "agentAllowed memStore D oid uid actionManage ?w = Inr (True, True)"
    using assms by (auto simp: mayManage_def)
  obtain a where a: "memAgents ?w oid = Some a" "oid \<noteq> []" using manage_known [OF wf al] by blast
  obtain nodes where n: "subtree memStore oid (wStore ?w) = Some (Inr (Some nodes))" using mem_subtree [OF wf a] by blast
  have d: "set nodes = descendants (memAgents ?w) oid" using mem.subtree_descendants [OF wf n] by simp
  then have "oid \<in> set nodes" by (simp add: descendants_def)
  moreover have "rcSubtree (HTTPClient (registryServer memStore D oddPath)) oid uid ?w = (Inr nodes, ?w)"
    using n u al by (simp add: rc_simps withUserQuery_def orTimeout_def handleSubtree_def allowedOr404_def)
  ultimately show ?thesis using d onReg_same by fastforce
qed

text \<open>
  The settle loop: a pause may end the request, else other requests ran and left the caller's authority over the root. Then
  the workloads that are left of the subtree, as the registry has it when the handler answers, are among those that failed.
\<close>

definition settleKeeps :: "'d SpiceDB \<Rightarrow> string \<Rightarrow> string \<Rightarrow> (nat \<Rightarrow> ((store, 'd) world, 'k) orch \<Rightarrow> ((store, 'd) world, 'k) orch option) \<Rightarrow> bool" where
  "settleKeeps D oid uid settle \<longleftrightarrow> (\<forall>i o1 o2. mayManage D oid uid o1 \<longrightarrow> settle i o1 = Some o2 \<longrightarrow> mayManage D oid uid o2)"

lemma mayManage_k8s [simp]: "mayManage D oid uid (o'\<lparr>oK8s := k\<rparr>) = mayManage D oid uid o'"
  by (simp add: mayManage_def)

lemma delete_pass:
  assumes law: "clusterLaw K present" and m: "mayManage D oid uid o'"
    and h: "deletePasses (registryServer memStore D oddPath) K settle oid uid pass deleted failed (Suc n) o' = (e, o2)"
  obtains d failed1 k1 where
    "(if d = 0 then (Swept deleted failed1, o'\<lparr>oK8s := k1\<rparr>)
      else if n = 0 then (Swept (deleted + d) failed1, o'\<lparr>oK8s := k1\<rparr>)
      else case settle pass (o'\<lparr>oK8s := k1\<rparr>) of
          None \<Rightarrow> (ClientGone, o'\<lparr>oK8s := k1\<rparr>)
        | Some o3 \<Rightarrow> deletePasses (registryServer memStore D oddPath) K settle oid uid (Suc pass) (deleted + d) failed1 n o3) = (e, o2)"
    and "present k1 \<inter> descendants (memAgents (oReg o')) oid \<subseteq> set failed1" and "clusterUp K \<longrightarrow> failed1 = failed"
    and "present (oK8s o') - descendants (memAgents (oReg o')) oid \<subseteq> present k1" and "present k1 \<subseteq> present (oK8s o')"
proof -
  obtain nodes where n: "onReg (rcSubtree (HTTPClient (registryServer memStore D oddPath)) oid uid) o' = (Inr nodes, o')"
      "nodes \<noteq> []" "set nodes = descendants (memAgents (oReg o')) oid"
    using subtree_read [OF m] by blast
  obtain d failed1 k1 where d: "deleteNodes K nodes 0 failed (oK8s o') = ((d, failed1), k1)" by (metis prod.exhaust)
  have eff: "present k1 \<subseteq> present (oK8s o')" "present (oK8s o') - set nodes \<subseteq> present k1" "present k1 \<inter> set nodes \<subseteq> set failed1"
      "clusterUp K \<longrightarrow> failed1 = failed"
    using deleteNodes_effect [OF law d] by blast+
  have k: "onK8s (deleteNodes K nodes 0 failed) o' = ((d, failed1), o'\<lparr>oK8s := k1\<rparr>)" by (simp add: onK8s_def d)
  show thesis by (rule that) (use h n eff k in simp_all)
qed

text \<open>The settle loop with any number of passes left, by induction on that number.\<close>

lemma deletePasses_effect:
  assumes law: "clusterLaw K present" and keep: "settleKeeps D oid uid settle" and m: "mayManage D oid uid o'"
    and h: "deletePasses (registryServer memStore D oddPath) K settle oid uid pass deleted failed (Suc n) o' = (e, o2)"
  shows "(\<forall>i msg. e \<noteq> Refused i msg) \<and> ((\<forall>i o1. settle i o1 \<noteq> None) \<longrightarrow> e \<noteq> ClientGone) \<and>
    (\<forall>d failed'. e = Swept d failed' \<longrightarrow> present (oK8s o2) \<inter> descendants (memAgents (oReg o2)) oid \<subseteq> set failed' \<and>
       (clusterUp K \<longrightarrow> failed' = failed))"
  using m h
proof (induction n arbitrary: pass deleted failed o')
  case 0
  show ?case by (rule delete_pass [OF law 0]) (auto simp del: deletePasses.simps split: if_splits)
next
  case (Suc n)
  show ?case
  proof (rule delete_pass [OF law Suc.prems])
    fix d failed1 k1
    assume p: "(if d = 0 then (Swept deleted failed1, o'\<lparr>oK8s := k1\<rparr>)
       else if Suc n = 0 then (Swept (deleted + d) failed1, o'\<lparr>oK8s := k1\<rparr>)
       else case settle pass (o'\<lparr>oK8s := k1\<rparr>) of
           None \<Rightarrow> (ClientGone, o'\<lparr>oK8s := k1\<rparr>)
         | Some o3 \<Rightarrow> deletePasses (registryServer memStore D oddPath) K settle oid uid (Suc pass) (deleted + d) failed1 (Suc n) o3) = (e, o2)"
      and eff: "present k1 \<inter> descendants (memAgents (oReg o')) oid \<subseteq> set failed1" "clusterUp K \<longrightarrow> failed1 = failed"
    show ?case
    proof (cases "d = 0 \<or> settle pass (o'\<lparr>oK8s := k1\<rparr>) = None")
      case True
      then show ?thesis using p eff by (auto simp del: deletePasses.simps split: if_splits)
    next
      case False
      then obtain o3 where o3: "settle pass (o'\<lparr>oK8s := k1\<rparr>) = Some o3" by auto
      have "mayManage D oid uid (o'\<lparr>oK8s := k1\<rparr>)" using Suc.prems(1) by simp
      then have "mayManage D oid uid o3" using keep o3 unfolding settleKeeps_def by blast
      moreover have "deletePasses (registryServer memStore D oddPath) K settle oid uid (Suc pass) (deleted + d) failed1 (Suc n) o3 = (e, o2)"
        using p False o3 by (simp del: deletePasses.simps)
      ultimately show ?thesis using Suc.IH [of o3 "Suc pass" "deleted + d" failed1] eff(2) by blast
    qed
  qed
qed

text \<open>When nothing else runs, the loop changes the subtree's workloads and nothing more.\<close>

lemma deletePasses_quiet:
  assumes law: "clusterLaw K present" and up: "clusterUp K" and m: "mayManage D oid uid o'"
    and h: "deletePasses (registryServer memStore D oddPath) K (\<lambda>_. Some) oid uid pass deleted [] (Suc n) o' = (e, o2)"
  shows "oReg o2 = oReg o' \<and> oHub o2 = oHub o' \<and> present (oK8s o2) = present (oK8s o') - descendants (memAgents (oReg o')) oid"
  using m h
proof (induction n arbitrary: pass deleted o')
  case 0
  show ?case by (rule delete_pass [OF law 0]) (use up in \<open>auto simp del: deletePasses.simps split: if_splits\<close>)
next
  case (Suc n)
  show ?case
  proof (rule delete_pass [OF law Suc.prems])
    fix d failed1 k1
    assume p: "(if d = 0 then (Swept deleted failed1, o'\<lparr>oK8s := k1\<rparr>)
       else if Suc n = 0 then (Swept (deleted + d) failed1, o'\<lparr>oK8s := k1\<rparr>)
       else case Some (o'\<lparr>oK8s := k1\<rparr>) of
           None \<Rightarrow> (ClientGone, o'\<lparr>oK8s := k1\<rparr>)
         | Some o3 \<Rightarrow> deletePasses (registryServer memStore D oddPath) K (\<lambda>_. Some) oid uid (Suc pass) (deleted + d) failed1 (Suc n) o3) = (e, o2)"
      and eff: "present k1 \<inter> descendants (memAgents (oReg o')) oid \<subseteq> set failed1" "clusterUp K \<longrightarrow> failed1 = []"
        "present (oK8s o') - descendants (memAgents (oReg o')) oid \<subseteq> present k1" "present k1 \<subseteq> present (oK8s o')"
    have k1: "failed1 = []" "present k1 = present (oK8s o') - descendants (memAgents (oReg o')) oid" using eff up by auto
    show ?case
    proof (cases "d = 0")
      case True
      then have "o2 = o'\<lparr>oK8s := k1\<rparr>" using p by (simp del: deletePasses.simps)
      then show ?thesis using k1(2) by simp
    next
      case False
      have m1: "mayManage D oid uid (o'\<lparr>oK8s := k1\<rparr>)" using Suc.prems(1) by simp
      have "deletePasses (registryServer memStore D oddPath) K (\<lambda>_. Some) oid uid (Suc pass) (deleted + d) [] (Suc n) (o'\<lparr>oK8s := k1\<rparr>) = (e, o2)"
        using p unfolding k1(1) if_not_P [OF False] by (simp del: deletePasses.simps)
      from Suc.IH [OF m1 this] show ?thesis using k1(2) by (simp del: deletePasses.simps)
    qed
  qed
qed

text \<open>The handler, for a root that runs on the platform: its gate, the identity it acts under, and the loop.\<close>

lemma handleDelete_platform:
  assumes m: "mayManage D oid (cxUserID cx) o'" and na: "\<not> hasRole cx ''admin''"
    and r: "memAgents (oReg o') oid = Some rec" "agPlacement rec \<noteq> PlacementSubstrate"
  shows "handleDelete (registryServer memStore D oddPath) (sdbChecker D) K settle oid cx o' =
    (case deletePasses (registryServer memStore D oddPath) K settle oid (cxUserID cx) 0 0 [] maxPasses o' of
       (Refused n msg, o4) \<Rightarrow> (HttpError n msg, o4)
     | (ClientGone, o4) \<Rightarrow> (HttpOK 200 None, o4)
     | (Swept n failed, o4) \<Rightarrow> (teardownAnswer n failed, o4))"
proof -
  have wf: "agentsWf (wStore (oReg o'))" and al: "agentAllowed memStore D oid (cxUserID cx) actionManage (oReg o') = Inr (True, True)"
    using m by (auto simp: mayManage_def)
  have "onReg (rcGetAgent (HTTPClient (registryServer memStore D oddPath)) oid) o' = (Inr rec, o')"
    by (rule onReg_same) (simp add: memReg.get_agent [OF wf] r)
  then show ?thesis
    using al na r by (simp add: handleDelete_def canManage_def gate_allows [OF wf na] manageUserID_def isSubstratePlaced_def)
qed

lemma maxPasses_Suc: "maxPasses = Suc 7"
  by (simp add: maxPasses_def)

text \<open>The answer 204 and what holds with it.\<close>

lemma delete_clears:
  assumes "clusterLaw K present" and "clusterUp K" and "mayManage D oid (cxUserID cx) o'" and "\<not> hasRole cx ''admin''"
    and "memAgents (oReg o') oid = Some rec" and "agPlacement rec \<noteq> PlacementSubstrate"
    and "settleKeeps D oid (cxUserID cx) settle" and "\<forall>i o1. settle i o1 \<noteq> None"
  shows "\<exists>o2. handleDelete (registryServer memStore D oddPath) (sdbChecker D) K settle oid cx o' = (HttpOK 204 None, o2) \<and>
    present (oK8s o2) \<inter> descendants (memAgents (oReg o2)) oid = {} \<and>
    (settle = (\<lambda>_. Some) \<longrightarrow> oReg o2 = oReg o' \<and> oHub o2 = oHub o' \<and>
       present (oK8s o2) = present (oK8s o') - descendants (memAgents (oReg o')) oid)"
proof -
  obtain e o2 where h: "deletePasses (registryServer memStore D oddPath) K settle oid (cxUserID cx) 0 0 [] maxPasses o' = (e, o2)" by force
  note h7 = h [unfolded maxPasses_Suc]
  obtain d where e: "e = Swept d []" and none: "present (oK8s o2) \<inter> descendants (memAgents (oReg o2)) oid = {}"
    using deletePasses_effect [OF assms(1,7,3) h7] assms(2,8) by (cases e) auto
  have quiet: "settle = (\<lambda>_. Some) \<longrightarrow> oReg o2 = oReg o' \<and> oHub o2 = oHub o' \<and>
       present (oK8s o2) = present (oK8s o') - descendants (memAgents (oReg o')) oid"
    using deletePasses_quiet [OF assms(1,2,3)] h7 by blast
  have "handleDelete (registryServer memStore D oddPath) (sdbChecker D) K settle oid cx o' = (HttpOK 204 None, o2)"
    by (simp add: handleDelete_platform [OF assms(3-6)] h e teardownAnswer_def del: deletePasses.simps)
  then show ?thesis using none quiet by blast
qed

text \<open>
  C10: deleting an agent ends with its subtree gone. A caller with manage authority over a platform agent, who stays
  connected, gets 204, provided the cluster does not fail, and then no agent that the registry has below the root at
  that moment has a workload: also a child that was spawned between two passes, in whatever way other requests changed the
  registry and the cluster in the pauses, as long as the caller keeps the authority. When nothing else ran, the
  registry and the substrates are unchanged and exactly the workloads of the subtree were removed.
\<close>

theorem delete_clears_subtree:
  assumes "clusterLaw K present" and "clusterUp K" and "mayManage D oid (cxUserID cx) o'" and "\<not> hasRole cx ''admin''"
    and "memAgents (oReg o') oid = Some rec" and "agPlacement rec \<noteq> PlacementSubstrate"
    and "settleKeeps D oid (cxUserID cx) settle" and "\<forall>i o1. settle i o1 \<noteq> None"
  shows "\<exists>o2. handleDelete (registryServer memStore D oddPath) (sdbChecker D) K settle oid cx o' = (HttpOK 204 None, o2) \<and>
    present (oK8s o2) \<inter> descendants (memAgents (oReg o2)) oid = {} \<and>
    (settle = (\<lambda>_. Some) \<longrightarrow> oReg o2 = oReg o' \<and> oHub o2 = oHub o' \<and>
       present (oK8s o2) = present (oK8s o') - descendants (memAgents (oReg o')) oid)"
  by (rule delete_clears [OF assms])

definition familyWorkload :: "string \<Rightarrow> string \<times> AgentWorkload" where
  "familyWorkload n = (n, workloadOf n demoSpawn workerTemplate False)"

definition familyRunning :: "((store, Mock) world, (string \<times> AgentWorkload) list) orch" where
  "familyRunning = familyOrch\<lparr>oK8s := map familyWorkload [''r'', ''m'', ''x'']\<rparr>"

lemma mapK8s_law: "clusterLaw mapK8s (\<lambda>k. {n. gget k n \<noteq> None})" "clusterUp mapK8s"
  by (auto simp: clusterLaw_def clusterUp_def mapK8s_def gomap_simps)

lemma familyRunning_simps [simp]:
  "oReg familyRunning = familyWorld" "oK8s familyRunning = map familyWorkload [''r'', ''m'', ''x'']"
  by (simp_all add: familyRunning_def)

lemma familyRunning_manage: "mayManage mockClient ''r'' (cxUserID aliceCtx) familyRunning"
  using familyWorld_wf familyWorld_allowed by (simp add: mayManage_def aliceCtx_def)

theorem delete_clears_subtree_witness:
  "\<exists>o2. handleDelete (registryServer memStore mockClient (\<lambda>_. timedOut)) (sdbChecker mockClient) mapK8s (\<lambda>_. Some) ''r'' aliceCtx familyRunning
     = (HttpOK 204 None, o2) \<and> {n. gget (oK8s o2) n \<noteq> None} = {n. gget (oK8s familyRunning) n \<noteq> None} - descendants (memAgents familyWorld) ''r''"
proof -
  have "settleKeeps mockClient ''r'' (cxUserID aliceCtx) (\<lambda>_. Some :: _ \<Rightarrow> ((store, Mock) world, (string \<times> AgentWorkload) list) orch option)"
    by (simp add: settleKeeps_def)
  then show ?thesis
    using delete_clears_subtree [OF mapK8s_law familyRunning_manage, where settle = "\<lambda>_. Some" and oddPath = "\<lambda>_. timedOut"
        and rec = "ownedAgent ''r'' [] ''active''"]
    by (auto simp: aliceCtx_def hasRole_def ownedAgent_def lineAgent_def PlacementSubstrate_def zeroAgent_def)
qed

text \<open>
  C11: the report of a delete is complete. A caller without the admin role deletes a platform agent over which he has manage authority and keeps it between
  the passes. Whatever cluster calls fail and whatever other requests do in the pauses: when the handler answers 204 or 207, every agent of
  the subtree that still has a workload is in the list the answer reports as failed; a 204 reports none. The caller is never told
  that the agent does not exist or that the registry failed once the gate let the request through.
\<close>

theorem delete_report_complete:
  assumes "clusterLaw K present" and "mayManage D oid (cxUserID cx) o'" and "\<not> hasRole cx ''admin''"
    and "memAgents (oReg o') oid = Some rec" and "agPlacement rec \<noteq> PlacementSubstrate"
    and "settleKeeps D oid (cxUserID cx) settle"
    and "handleDelete (registryServer memStore D oddPath) (sdbChecker D) K settle oid cx o' = (ans, o2)"
  shows "(\<forall>n msg. ans \<noteq> HttpError n msg) \<and>
    (ans = HttpOK 204 None \<longrightarrow> present (oK8s o2) \<inter> descendants (memAgents (oReg o2)) oid = {}) \<and>
    (\<forall>d failed. ans = HttpOK 207 (Some (d, failed)) \<longrightarrow> present (oK8s o2) \<inter> descendants (memAgents (oReg o2)) oid \<subseteq> set failed)"
proof -
  obtain e o3 where h: "deletePasses (registryServer memStore D oddPath) K settle oid (cxUserID cx) 0 0 [] maxPasses o' = (e, o3)" by force
  note eff = deletePasses_effect [OF assms(1,6,2) h [unfolded maxPasses_Suc]]
  have "(case (e, o3) of
       (Refused n msg, o4) \<Rightarrow> (HttpError n msg, o4)
     | (ClientGone, o4) \<Rightarrow> (HttpOK 200 None, o4)
     | (Swept n failed, o4) \<Rightarrow> (teardownAnswer n failed, o4)) = (ans, o2)"
    using assms(7) unfolding handleDelete_platform [OF assms(2-5)] h .
  then show ?thesis using eff by (cases e) (auto simp: teardownAnswer_def split: if_splits)
qed

theorem delete_report_complete_witness:
  "\<exists>o2. handleDelete (registryServer memStore mockClient (\<lambda>_. timedOut)) (sdbChecker mockClient) mapK8s (\<lambda>_. Some) ''r'' aliceCtx familyRunning
     = (HttpOK 204 None, o2) \<and> {n. gget (oK8s o2) n \<noteq> None} \<inter> descendants (memAgents (oReg o2)) ''r'' = {}"
proof -
  let ?h = "handleDelete (registryServer memStore mockClient (\<lambda>_. timedOut)) (sdbChecker mockClient) mapK8s (\<lambda>_. Some) ''r'' aliceCtx familyRunning"
  have keep: "settleKeeps mockClient ''r'' (cxUserID aliceCtx) (\<lambda>_. Some :: _ \<Rightarrow> ((store, Mock) world, (string \<times> AgentWorkload) list) orch option)"
    by (simp add: settleKeeps_def)
  obtain o2 where h: "?h = (HttpOK 204 None, o2)"
    using delete_clears [OF mapK8s_law familyRunning_manage, where settle = "\<lambda>_. Some" and oddPath = "\<lambda>_. timedOut"
        and rec = "ownedAgent ''r'' [] ''active''"] keep
    by (auto simp: aliceCtx_def hasRole_def ownedAgent_def lineAgent_def PlacementSubstrate_def zeroAgent_def)
  show ?thesis
    using delete_report_complete [OF mapK8s_law(1) familyRunning_manage _ _ _ keep h, of "ownedAgent ''r'' [] ''active''"] h
    by (simp add: aliceCtx_def hasRole_def ownedAgent_def lineAgent_def PlacementSubstrate_def zeroAgent_def)
qed

end
