(* ===== verification/ConsentHandlers.thy ===== *)
theory ConsentHandlers
  imports World Broker
begin

text \<open>
  The consent endpoints of \<open>cmd/registry/main.go\<close>: recording, listing, revoking and checking consents, and
  the registry's own consent broker with its read-time backstop. All of them are behind the control-plane
  gate. \<open>now\<close> is the handler's own \<open>time.Now()\<close>; a request for which the notifier webhook is called is
  part of the result.
\<close>

section \<open>Handlers\<close>

record consentGrantReq =
  cgUserID :: string
  cgParentType :: string
  cgChildType :: string
  cgScopes :: "string slice"

record consentAskReq = consentGrantReq +
  caAgentID :: string
  caBindingMessage :: string
  caExternalRef :: string

definition edgeMissing :: "('a) consentGrantReq_scheme \<Rightarrow> bool" where
  "edgeMissing req = (cgUserID req = [] \<or> cgParentType req = [] \<or> cgChildType req = [])"

definition handlePostConsent ::
  "'s Store \<Rightarrow> time \<Rightarrow> consentGrantReq result \<Rightarrow> 's \<Rightarrow> ConsentRecord http \<times> 's" where
  "handlePostConsent S now body s =
     (case body of
        Inl e \<Rightarrow> (HttpError 400 (errString e), s)
      | Inr req \<Rightarrow>
          if edgeMissing req then (HttpError 400 ''userId, parentType and childType are required'', s)
          else if rejectInvalidUserID (cgUserID req) then (HttpError 400 ''invalid userId'', s)
          else case ConsentExpiry S (cgParentType req) (cgChildType req) now s of
              Inl e \<Rightarrow> (internalError, s)
            | Inr expiry \<Rightarrow>
                (case UpsertConsent S
                   \<lparr>conID = [], conUserID = cgUserID req, conParentType = cgParentType req,
                    conChildType = cgChildType req, conScopes = nonNil (cgScopes req), conGrantedAt = now,
                    conExpiresAt = expiry, conRevoked = False\<rparr> s of
                   (Inl e, s1) \<Rightarrow> (internalError, s1)
                 | (Inr rec, s1) \<Rightarrow> (HttpOK 201 rec, s1)))"

definition handleListConsents :: "'s Store \<Rightarrow> string \<Rightarrow> 's \<Rightarrow> ConsentRecord list http" where
  "handleListConsents S userID s = (case ListConsents S userID s of Inl e \<Rightarrow> internalError | Inr cs \<Rightarrow> HttpOK 200 cs)"

definition handleRevokeConsent :: "'s Store \<Rightarrow> string \<Rightarrow> string \<Rightarrow> 's \<Rightarrow> unit http \<times> 's" where
  "handleRevokeConsent S oid userID s =
     (case RevokeConsent S oid userID s of
        (Inl e, s1) \<Rightarrow> (internalError, s1)
      | (Inr ok, s1) \<Rightarrow> (if ok then HttpOK 204 () else notFound, s1))"

definition handleCheckConsent ::
  "'s Store \<Rightarrow> time \<Rightarrow> string \<Rightarrow> string \<Rightarrow> string \<Rightarrow> string slice \<Rightarrow> 's \<Rightarrow> ConsentDecision http" where
  "handleCheckConsent S now userID parentType childType scopes s =
     (case FindConsent S userID parentType childType s of
        Inl e \<Rightarrow> internalError
      | Inr None \<Rightarrow> HttpOK 200 \<lparr>cdGranted = False, cdReason = ''no consent on record''\<rparr>
      | Inr (Some rec) \<Rightarrow> HttpOK 200 (EvaluateConsent rec scopes now))"

text \<open>The request to store: the fields of the body, the rest zero until the store fills it in.\<close>

definition askOf :: "consentAskReq \<Rightarrow> ConsentRequest" where
  "askOf req = \<lparr>crID = [], crUserID = cgUserID req, crParentType = cgParentType req,
     crChildType = cgChildType req, crAgentID = caAgentID req, crScopes = cgScopes req,
     crBindingMessage = caBindingMessage req, crStatus = ConsentPending, crCreatedAt = 0,
     crResolvedAt = None, crExternalRef = caExternalRef req\<rparr>"

definition handleCreateConsentRequest ::
  "'s Store \<Rightarrow> time \<Rightarrow> consentAskReq result \<Rightarrow> 's \<Rightarrow> (ConsentRequest http \<times> ConsentRequest list) \<times> 's" where
  "handleCreateConsentRequest S now body s =
     (case body of
        Inl e \<Rightarrow> ((HttpError 400 (errString e), []), s)
      | Inr req \<Rightarrow>
          if edgeMissing req then ((HttpError 400 ''userId, parentType and childType are required'', []), s)
          else if rejectInvalidUserID (cgUserID req) then ((HttpError 400 ''invalid userId'', []), s)
          else
            (case FindConsent S (cgUserID req) (cgParentType req) (cgChildType req) s of
               Inl e \<Rightarrow> ((internalError, []), s)
             | Inr found \<Rightarrow>
                 if (case found of None \<Rightarrow> False | Some rec \<Rightarrow> cdGranted (EvaluateConsent rec (cgScopes req) now))
                 then (case CreateApprovedConsentRequest S (askOf req) s of
                         (Inl e, s1) \<Rightarrow> ((internalError, []), s1)
                       | (Inr out, s1) \<Rightarrow> ((HttpOK 201 out, []), s1))
                 else (case CreateConsentRequest S (askOf req) s of
                         (Inl e, s1) \<Rightarrow> ((internalError, []), s1)
                       | (Inr (out, created), s1) \<Rightarrow>
                           if created then ((HttpOK 201 out, [out]), s1) else ((HttpOK 200 out, []), s1))))"

text \<open>The pair of the request to answer and the error, as the source returns both.\<close>

definition backstopPendingConsentRequest ::
  "'s Store \<Rightarrow> time \<Rightarrow> ConsentRequest \<Rightarrow> 's \<Rightarrow> (ConsentRequest \<times> go_error option) \<times> 's" where
  "backstopPendingConsentRequest S now cr s =
     (if crStatus cr \<noteq> ConsentPending then ((cr, None), s)
      else case FindConsent S (crUserID cr) (crParentType cr) (crChildType cr) s of
          Inl e \<Rightarrow> ((cr, Some e), s)
        | Inr found \<Rightarrow>
            if (case found of None \<Rightarrow> True | Some rec \<Rightarrow> \<not> cdGranted (EvaluateConsent rec (crScopes cr) now))
            then ((cr, None), s)
            else case ApprovePendingConsentRequest S (crID cr) s of
                (Inl e, s1) \<Rightarrow> ((cr, Some e), s1)
              | (Inr None, s1) \<Rightarrow> ((cr, None), s1)
              | (Inr (Some resolved), s1) \<Rightarrow> ((resolved, None), s1))"

definition handleListConsentRequests :: "'s Store \<Rightarrow> string \<Rightarrow> string \<Rightarrow> 's \<Rightarrow> ConsentRequest list http" where
  "handleListConsentRequests S userID status s =
     (case ListConsentRequests S userID status s of Inl e \<Rightarrow> internalError | Inr rs \<Rightarrow> HttpOK 200 rs)"

definition handleGetConsentRequest :: "'s Store \<Rightarrow> time \<Rightarrow> string \<Rightarrow> 's \<Rightarrow> ConsentRequest http \<times> 's" where
  "handleGetConsentRequest S now oid s =
     (case GetConsentRequest S oid s of
        Inl e \<Rightarrow> (internalError, s)
      | Inr None \<Rightarrow> (notFound, s)
      | Inr (Some cr) \<Rightarrow>
          (case backstopPendingConsentRequest S now cr s of
             ((cr', Some e), s1) \<Rightarrow> (internalError, s1)
           | ((cr', None), s1) \<Rightarrow> (HttpOK 200 cr', s1)))"

definition handleResolve ::
  "'s Store \<Rightarrow> string \<Rightarrow> string \<Rightarrow> bool \<Rightarrow> string slice \<Rightarrow> 's \<Rightarrow> ConsentRequest http \<times> 's" where
  "handleResolve S oid userID approve scopes s =
     (case ResolveConsentRequest S oid userID approve scopes s of
        (Inl e, s1) \<Rightarrow> (internalError, s1)
      | (Inr None, s1) \<Rightarrow> (notFound, s1)
      | (Inr (Some cr), s1) \<Rightarrow> (HttpOK 200 cr, s1))"

text \<open>
  The body of an approval is optional and the error of its decoder is ignored: \<open>scopes\<close> is what the decoder left in the
  scope list, \<^term>\<open>None\<close> for a missing or unreadable body.
\<close>

definition handleApproveConsentRequest ::
  "'s Store \<Rightarrow> string \<Rightarrow> string \<Rightarrow> string slice \<Rightarrow> 's \<Rightarrow> ConsentRequest http \<times> 's" where
  "handleApproveConsentRequest S oid userID scopes s = handleResolve S oid userID True scopes s"

definition handleDenyConsentRequest :: "'s Store \<Rightarrow> string \<Rightarrow> string \<Rightarrow> 's \<Rightarrow> ConsentRequest http \<times> 's" where
  "handleDenyConsentRequest S oid userID s = handleResolve S oid userID False None s"

section \<open>Properties\<close>

definition covered :: "store \<Rightarrow> string \<Rightarrow> string \<Rightarrow> string \<Rightarrow> string slice \<Rightarrow> time \<Rightarrow> bool" where
  "covered s u p c scopes now =
     (\<exists>rec. findConsent u p c s = Some rec \<and> cdGranted (EvaluateConsent rec scopes now))"

text \<open>
  A spawn edge is prompted for exactly when no stored consent covers it. On the in-memory store a
  well-formed create request never changes a consent; if a stored, unrevoked, unexpired consent
  covers the scopes the answer is an approved request and nobody is notified, otherwise the answer is a
  pending request, and the webhook is called exactly when that request is new (201), so an open
  request is not prompted for twice.
\<close>

theorem consent_request_short_circuit:
  assumes "\<not> edgeMissing req" and "\<not> rejectInvalidUserID (cgUserID req)"
    and "handleCreateConsentRequest memStore now (Inr req) s = ((ans, notified), s')"
  shows "stConsents s' = stConsents s \<and>
    (if covered s (cgUserID req) (cgParentType req) (cgChildType req) (cgScopes req) now
     then \<exists>out. ans = HttpOK 201 out \<and> crStatus out = ConsentApproved \<and> notified = []
     else \<exists>out n. ans = HttpOK n out \<and> crStatus out = ConsentPending \<and>
       (n = 201 \<and> notified = [out] \<and> gget (stConsentRequests s') (crID out) = Some out \<or> n = 200 \<and> notified = [] \<and> s' = s))"
proof -
  let ?cov = "covered s (cgUserID req) (cgParentType req) (cgChildType req) (cgScopes req) now"
  have cov: "(case findConsent (cgUserID req) (cgParentType req) (cgChildType req) s of None \<Rightarrow> False
      | Some rec \<Rightarrow> cdGranted (EvaluateConsent rec (cgScopes req) now)) = ?cov"
    by (auto simp: covered_def split: option.splits)
  show ?thesis
  proof (cases ?cov)
    case True
    then have "((ans, notified), s') = ((HttpOK 201 (fst (createApprovedConsentRequest (askOf req) s)), []), snd (createApprovedConsentRequest (askOf req) s))"
      using assms cov by (simp add: handleCreateConsentRequest_def memStore_simps okW_simp)
    then show ?thesis using True by (simp add: createApprovedConsentRequest_def timeNow_def Let_def)
  next
    case False
    obtain out created s1 where c: "createConsentRequest (askOf req) s = ((out, created), s1)" by (metis prod.collapse)
    then have "((ans, notified), s') = (if created then ((HttpOK 201 out, [out]), s1) else ((HttpOK 200 out, []), s1))"
      using assms False cov
      by (cases created) (simp_all add: handleCreateConsentRequest_def memStore_simps okW_simp)
    moreover have "created \<Longrightarrow> gget (stConsentRequests s1) (crID out) = Some out" "\<not> created \<Longrightarrow> s1 = s"
      "crStatus out = ConsentPending" "stConsents s1 = stConsents s"
      using c by (auto simp: createConsentRequest_def Let_def timeNow_def gomap_simps split: option.splits if_splits)
    ultimately show ?thesis using False by (cases created) simp_all
  qed
qed

definition demoAsk :: consentAskReq where
  "demoAsk = \<lparr>cgUserID = ''alice'', cgParentType = ''planner'', cgChildType = ''worker'', cgScopes = Some [''read''],
     caAgentID = ''a1'', caBindingMessage = [], caExternalRef = []\<rparr>"

theorem consent_request_short_circuit_witness:
  "\<exists>ans notified s'. handleCreateConsentRequest memStore 5 (Inr demoAsk) demoStore = ((ans, notified), s') \<and>
     (\<exists>out. ans = HttpOK 201 out \<and> crStatus out = ConsentPending \<and> notified = [out])"
proof -
  obtain ans notified s' where h: "handleCreateConsentRequest memStore 5 (Inr demoAsk) demoStore = ((ans, notified), s')"
    by (metis prod.collapse)
  have ok: "\<not> edgeMissing demoAsk" "\<not> rejectInvalidUserID (cgUserID demoAsk)"
    by (simp_all add: demoAsk_def edgeMissing_def rejectInvalidUserID_def ValidUserID_def userIDChar_def is_alnum_def
          is_lower_def in_range_def)
  have "notified \<noteq> []"
    using h ok by (auto simp: handleCreateConsentRequest_def demoAsk_def demoStore_def newStore_def memStore_simps okW_simp
        findConsent_def createConsentRequest_def timeNow_def Let_def)
  moreover have "\<not> covered demoStore (cgUserID demoAsk) (cgParentType demoAsk) (cgChildType demoAsk) (cgScopes demoAsk) 5"
    by (simp add: covered_def findConsent_def demoStore_def newStore_def)
  ultimately show ?thesis using consent_request_short_circuit [OF ok h] h by auto
qed

text \<open>
  Reading a request back can approve it, but only on the strength of a stored consent, which the read
  never touches. On the in-memory store the read leaves every consent and every other request
  alone; it turns the request from pending to approved exactly when a stored, unrevoked, unexpired consent of that edge
  covers it at the time of the read, and otherwise returns the request as it is.
\<close>

theorem backstop_is_grant_blind:
  assumes "gget (stConsentRequests s) oid = Some cr" and "crID cr = oid"
    and "handleGetConsentRequest memStore now oid s = (ans, s')"
  shows "stConsents s' = stConsents s \<and>
    (\<forall>i. i \<noteq> oid \<longrightarrow> gget (stConsentRequests s') i = gget (stConsentRequests s) i) \<and>
    (if crStatus cr = ConsentPending \<and> covered s (crUserID cr) (crParentType cr) (crChildType cr) (crScopes cr) now
     then \<exists>at. ans = HttpOK 200 (cr\<lparr>crStatus := ConsentApproved, crResolvedAt := Some at\<rparr>) \<and>
       gget (stConsentRequests s') oid = Some (cr\<lparr>crStatus := ConsentApproved, crResolvedAt := Some at\<rparr>)
     else ans = HttpOK 200 cr \<and> s' = s)"
proof (cases "crStatus cr = ConsentPending \<and> covered s (crUserID cr) (crParentType cr) (crChildType cr) (crScopes cr) now")
  case True
  then obtain rec where "findConsent (crUserID cr) (crParentType cr) (crChildType cr) s = Some rec"
      "cdGranted (EvaluateConsent rec (crScopes cr) now)" by (auto simp: covered_def)
  then have "(ans, s') = (HttpOK 200 (cr\<lparr>crStatus := ConsentApproved, crResolvedAt := Some (stClock s (stTicks s))\<rparr>),
      settleRequest oid cr ConsentApproved (stClock s (stTicks s)) (snd (timeNow s)))"
    using assms True
    by (simp add: handleGetConsentRequest_def backstopPendingConsentRequest_def memStore_simps okW_simp getConsentRequest_def
        approvePendingConsentRequest_def timeNow_def Let_def)
  then show ?thesis using True by (simp add: settleRequest_def timeNow_def gomap_simps) blast
next
  case False
  then have "(ans, s') = (HttpOK 200 cr, s)"
    using assms
    by (cases "crStatus cr = ConsentPending"; cases "findConsent (crUserID cr) (crParentType cr) (crChildType cr) s")
       (simp_all add: handleGetConsentRequest_def backstopPendingConsentRequest_def memStore_simps getConsentRequest_def covered_def)
  then show ?thesis using False by (simp only: if_False) simp
qed

definition grantedStore :: store where
  "grantedStore = demoPending\<lparr>stConsents := [(ConsentEdgeKey ''alice'' ''planner'' ''flights'',
     \<lparr>conID = ''consent-1'', conUserID = ''alice'', conParentType = ''planner'', conChildType = ''flights'',
      conScopes = Some [''search''], conGrantedAt = 0, conExpiresAt = None, conRevoked = False\<rparr>)]\<rparr>"

theorem backstop_is_grant_blind_witness:
  "\<exists>cr at s'. gget (stConsentRequests grantedStore) ''creq-0'' = Some cr \<and> crStatus cr = ConsentPending \<and>
     handleGetConsentRequest memStore 5 ''creq-0'' grantedStore =
       (HttpOK 200 (cr\<lparr>crStatus := ConsentApproved, crResolvedAt := Some at\<rparr>), s') \<and> stConsents s' = stConsents grantedStore"
proof -
  obtain ans s' where h: "handleGetConsentRequest memStore 5 ''creq-0'' grantedStore = (ans, s')" by force
  obtain cr where cr: "gget (stConsentRequests grantedStore) ''creq-0'' = Some cr" "crID cr = ''creq-0''"
      "crStatus cr = ConsentPending" "crUserID cr = ''alice''" "crParentType cr = ''planner''" "crChildType cr = ''flights''"
      "crScopes cr = Some [''search'']"
    using demoPending_requests by (auto simp: grantedStore_def demoRequest_def)
  then have "covered grantedStore (crUserID cr) (crParentType cr) (crChildType cr) (crScopes cr) 5"
    by (simp add: covered_def findConsent_def grantedStore_def EvaluateConsent_def FirstUncoveredScope_def)
  then show ?thesis using backstop_is_grant_blind [OF cr(1,2) h] h cr by auto
qed

text \<open>
  A consent answers for another edge when a template name contains a bar, which the registry accepts. On the
  in-memory store, after a consent is recorded for a parent type and a child type of the form \<open>b|c\<close>, a check of the same
  user for the parent type extended by \<open>|b\<close> and the child type \<open>c\<close>, an edge nobody consented to, is decided on that consent.
\<close>

theorem consent_covers_colliding_edge:
  assumes "handlePostConsent memStore now (Inr req) s = (HttpOK 201 rec, s')"
    and "cgChildType req = b @ ''|'' @ c"
  shows "handleCheckConsent memStore at (cgUserID req) (cgParentType req @ ''|'' @ b) c scopes s' =
      HttpOK 200 (EvaluateConsent rec scopes at) \<and>
    conParentType rec = cgParentType req \<and> conChildType rec = cgChildType req \<and> \<not> conRevoked rec \<and>
    conScopes rec = nonNil (cgScopes req)"
proof -
  let ?r = "\<lparr>conID = [], conUserID = cgUserID req, conParentType = cgParentType req, conChildType = cgChildType req,
    conScopes = nonNil (cgScopes req), conGrantedAt = now,
    conExpiresAt = consentExpiry (cgParentType req) (cgChildType req) now s, conRevoked = False\<rparr>"
  have u: "upsertConsent ?r s = (rec, s')"
    using assms(1) by (auto simp: handlePostConsent_def memStore_simps okW_simp split: if_splits)
  then obtain i where rec: "rec = ?r\<lparr>conID := i\<rparr>"
    by (auto simp: upsertConsent_def upsertConsentLocked_def Let_def split: option.splits prod.splits)
  have "gget (stConsents s') (recKey ?r) = Some rec"
    using u by (auto simp: upsertConsent_def upsertConsentLocked_def Let_def gomap_simps split: option.splits prod.splits)
  moreover have "recKey ?r = ConsentEdgeKey (cgUserID req) (cgParentType req @ ''|'' @ b) c"
    using ConsentEdgeKey_collision [of "cgUserID req" "cgParentType req" b c] by (simp add: recKey_def assms(2))
  ultimately show ?thesis by (simp add: handleCheckConsent_def memStore_simps findConsent_def rec)
qed

definition barredGrant :: consentGrantReq where
  "barredGrant = \<lparr>cgUserID = ''alice'', cgParentType = ''a'', cgChildType = ''b|c'', cgScopes = Some [''read'']\<rparr>"

theorem consent_covers_colliding_edge_witness:
  "\<exists>rec s' dec. handlePostConsent memStore 5 (Inr barredGrant) demoStore = (HttpOK 201 rec, s') \<and>
     handleCheckConsent memStore 6 ''alice'' ''a|b'' ''c'' (Some [''read'']) s' = HttpOK 200 dec"
proof -
  have ok: "\<not> edgeMissing barredGrant" "\<not> rejectInvalidUserID (cgUserID barredGrant)"
    by (simp_all add: barredGrant_def edgeMissing_def rejectInvalidUserID_def ValidUserID_def userIDChar_def is_alnum_def
          is_lower_def in_range_def)
  then obtain rec s' where h: "handlePostConsent memStore 5 (Inr barredGrant) demoStore = (HttpOK 201 rec, s')"
    by (simp add: handlePostConsent_def memStore_simps okW_simp split: prod.splits)
  have "cgChildType barredGrant = ''b'' @ ''|'' @ ''c''" by (simp add: barredGrant_def)
  then show ?thesis using consent_covers_colliding_edge [OF h] h by (simp add: barredGrant_def)
qed

end
