(* ===== verification/OrchRoutes.thy ===== *)
theory OrchRoutes
  imports OrchTeardown ConsentHandlers
begin

text \<open>
  The routes that the orchestrator forwards to the registry (\<open>cmd/orchestrator/main.go\<close>, \<open>buildMux\<close>): templates,
  organizations with their members and anchors, users, and consents. Each route has a gate, and the URL it sends to the registry
  is built from the request and from the token. The registry believes that URL, since the orchestrator holds the
  control-plane credential.
\<close>

section \<open>The routes\<close>

datatype httpMethod = GET | POST | PUT | PATCH | DELETE

datatype route =
    ListTemplatesR | SpawnTemplatesR | AdminTemplatesR | OrgTemplatesR
  | PostTemplateR | PatchTemplateR string | DeleteTemplateR string
  | AdminPostOrgR | AdminListOrgsR | AdminGetOrgR string | AdminPatchOrgR string | AdminDeleteOrgR string
  | AdminDisableOrgR string | AdminEnableOrgR string
  | AdminMembersR string | AdminAddMemberR string | AdminPatchMemberR string string | AdminDeleteMemberR string string
  | AdminUsersR | AdminDisableUserR string | AdminEnableUserR string | AdminDeleteUserR string | AdminPatchUserR string
  | GetOrgR string | PatchOrgR string | MembersR string
  | AddMemberR string | PatchMemberR string string | DeleteMemberR string string
  | PutAnchorR string | DeleteAnchorR string | ActivateAnchorR string
  | ConsentsR | RevokeConsentR string | ConsentRequestsR | ApproveR string | DenyR string

text \<open>The patterns of the mux: \<open>None\<close> is a wildcard, whose values go to the handler in order.\<close>

type_synonym pattern = "string option list"

fun matchPattern :: "pattern \<Rightarrow> string list \<Rightarrow> string list option" where
  "matchPattern [] [] = Some []"
| "matchPattern (Some l # ps) (s # ss) = (if l = s then matchPattern ps ss else None)"
| "matchPattern (None # ps) (s # ss) = (if s = [] then None else map_option ((#) s) (matchPattern ps ss))"
| "matchPattern _ _ = None"

definition routeTable :: "(httpMethod \<times> pattern \<times> (string list \<Rightarrow> route)) list" where
  "routeTable =
     (let v1 = Some ''v1''; admin = Some ''admin''; orgs = Some ''orgs''; users = Some ''users''; members = Some ''members'';
          tpls = Some ''templates''; anchor = Some ''anchor''; crs = Some ''consent-requests''; cons = Some ''consents''
      in [(GET, [v1, tpls], \<lambda>_. ListTemplatesR),
          (GET, [v1, tpls, Some ''spawn''], \<lambda>_. SpawnTemplatesR),
          (GET, [v1, admin, tpls], \<lambda>_. AdminTemplatesR),
          (GET, [v1, Some ''org'', tpls], \<lambda>_. OrgTemplatesR),
          (POST, [v1, tpls], \<lambda>_. PostTemplateR),
          (PATCH, [v1, tpls, None], \<lambda>xs. PatchTemplateR (xs ! 0)),
          (DELETE, [v1, tpls, None], \<lambda>xs. DeleteTemplateR (xs ! 0)),
          (POST, [v1, admin, orgs], \<lambda>_. AdminPostOrgR),
          (GET, [v1, admin, orgs], \<lambda>_. AdminListOrgsR),
          (GET, [v1, admin, orgs, None], \<lambda>xs. AdminGetOrgR (xs ! 0)),
          (PATCH, [v1, admin, orgs, None], \<lambda>xs. AdminPatchOrgR (xs ! 0)),
          (DELETE, [v1, admin, orgs, None], \<lambda>xs. AdminDeleteOrgR (xs ! 0)),
          (POST, [v1, admin, orgs, None, Some ''disable''], \<lambda>xs. AdminDisableOrgR (xs ! 0)),
          (POST, [v1, admin, orgs, None, Some ''enable''], \<lambda>xs. AdminEnableOrgR (xs ! 0)),
          (GET, [v1, admin, orgs, None, members], \<lambda>xs. AdminMembersR (xs ! 0)),
          (POST, [v1, admin, orgs, None, members], \<lambda>xs. AdminAddMemberR (xs ! 0)),
          (PATCH, [v1, admin, orgs, None, members, None], \<lambda>xs. AdminPatchMemberR (xs ! 0) (xs ! 1)),
          (DELETE, [v1, admin, orgs, None, members, None], \<lambda>xs. AdminDeleteMemberR (xs ! 0) (xs ! 1)),
          (GET, [v1, admin, users], \<lambda>_. AdminUsersR),
          (POST, [v1, admin, users, None, Some ''disable''], \<lambda>xs. AdminDisableUserR (xs ! 0)),
          (POST, [v1, admin, users, None, Some ''enable''], \<lambda>xs. AdminEnableUserR (xs ! 0)),
          (DELETE, [v1, admin, users, None], \<lambda>xs. AdminDeleteUserR (xs ! 0)),
          (PATCH, [v1, admin, users, None], \<lambda>xs. AdminPatchUserR (xs ! 0)),
          (GET, [v1, orgs, None], \<lambda>xs. GetOrgR (xs ! 0)),
          (PATCH, [v1, orgs, None], \<lambda>xs. PatchOrgR (xs ! 0)),
          (GET, [v1, orgs, None, members], \<lambda>xs. MembersR (xs ! 0)),
          (POST, [v1, orgs, None, members], \<lambda>xs. AddMemberR (xs ! 0)),
          (PATCH, [v1, orgs, None, members, None], \<lambda>xs. PatchMemberR (xs ! 0) (xs ! 1)),
          (DELETE, [v1, orgs, None, members, None], \<lambda>xs. DeleteMemberR (xs ! 0) (xs ! 1)),
          (PUT, [v1, orgs, None, anchor], \<lambda>xs. PutAnchorR (xs ! 0)),
          (DELETE, [v1, orgs, None, anchor], \<lambda>xs. DeleteAnchorR (xs ! 0)),
          (POST, [v1, orgs, None, anchor, Some ''activate''], \<lambda>xs. ActivateAnchorR (xs ! 0)),
          (GET, [v1, cons], \<lambda>_. ConsentsR),
          (POST, [v1, cons, None, Some ''revoke''], \<lambda>xs. RevokeConsentR (xs ! 0)),
          (GET, [v1, crs], \<lambda>_. ConsentRequestsR),
          (POST, [v1, crs, None, Some ''approve''], \<lambda>xs. ApproveR (xs ! 0)),
          (POST, [v1, crs, None, Some ''deny''], \<lambda>xs. DenyR (xs ! 0))])"

definition routeOf :: "httpMethod \<Rightarrow> string \<Rightarrow> route option" where
  "routeOf mth path =
     (case List.map_filter (\<lambda>(m, pat, mk). if m = mth then map_option mk (matchPattern pat (muxSegs path)) else None) routeTable of
        [] \<Rightarrow> None | r # _ \<Rightarrow> Some r)"

section \<open>Gates\<close>

datatype scopeKind = ReadS | WriteS

datatype gate = TokenG scopeKind | AdminG scopeKind | OrgMemberG scopeKind string | OrgAdminG scopeKind string | TemplateG | OwnOrgAdminG

fun gateOf :: "route \<Rightarrow> gate" where
  "gateOf ListTemplatesR = TokenG ReadS"
| "gateOf SpawnTemplatesR = TokenG ReadS"
| "gateOf AdminTemplatesR = AdminG ReadS"
| "gateOf OrgTemplatesR = OwnOrgAdminG"
| "gateOf PostTemplateR = TemplateG"
| "gateOf (PatchTemplateR t) = TemplateG"
| "gateOf (DeleteTemplateR t) = TemplateG"
| "gateOf AdminPostOrgR = AdminG WriteS"
| "gateOf AdminListOrgsR = AdminG ReadS"
| "gateOf (AdminGetOrgR oid) = AdminG ReadS"
| "gateOf (AdminPatchOrgR oid) = AdminG WriteS"
| "gateOf (AdminDeleteOrgR oid) = AdminG WriteS"
| "gateOf (AdminDisableOrgR oid) = AdminG WriteS"
| "gateOf (AdminEnableOrgR oid) = AdminG WriteS"
| "gateOf (AdminMembersR oid) = AdminG ReadS"
| "gateOf (AdminAddMemberR oid) = AdminG WriteS"
| "gateOf (AdminPatchMemberR oid u) = AdminG WriteS"
| "gateOf (AdminDeleteMemberR oid u) = AdminG WriteS"
| "gateOf AdminUsersR = AdminG ReadS"
| "gateOf (AdminDisableUserR u) = AdminG WriteS"
| "gateOf (AdminEnableUserR u) = AdminG WriteS"
| "gateOf (AdminDeleteUserR u) = AdminG WriteS"
| "gateOf (AdminPatchUserR u) = AdminG WriteS"
| "gateOf (GetOrgR oid) = OrgMemberG ReadS oid"
| "gateOf (PatchOrgR oid) = OrgAdminG WriteS oid"
| "gateOf (MembersR oid) = OrgMemberG ReadS oid"
| "gateOf (AddMemberR oid) = OrgAdminG WriteS oid"
| "gateOf (PatchMemberR oid u) = OrgAdminG WriteS oid"
| "gateOf (DeleteMemberR oid u) = OrgAdminG WriteS oid"
| "gateOf (PutAnchorR oid) = OrgAdminG WriteS oid"
| "gateOf (DeleteAnchorR oid) = OrgAdminG WriteS oid"
| "gateOf (ActivateAnchorR oid) = OrgAdminG WriteS oid"
| "gateOf ConsentsR = TokenG ReadS"
| "gateOf (RevokeConsentR i) = TokenG WriteS"
| "gateOf ConsentRequestsR = TokenG ReadS"
| "gateOf (ApproveR i) = TokenG WriteS"
| "gateOf (DenyR i) = TokenG WriteS"

text \<open>What a mux is built with: the validator, the scopes, the permission check, the registry and the transport to it.\<close>

record ('w, 'b) muxConfig =
  mcValidate :: "string \<Rightarrow> Claims result"
  mcAudience :: string
  mcReadScope :: string
  mcWriteScope :: string
  mcChk :: "'w checker"
  mcServer :: "'w Server"
  mcDo :: "httpMethod \<Rightarrow> string \<Rightarrow> string \<Rightarrow> string \<Rightarrow> 'w \<Rightarrow> 'b http result \<times> 'w"

definition scopeName :: "('w, 'b) muxConfig \<Rightarrow> scopeKind \<Rightarrow> string" where
  "scopeName C k = (case k of ReadS \<Rightarrow> mcReadScope C | WriteS \<Rightarrow> mcWriteScope C)"

definition passGate ::
  "('w, 'b) muxConfig \<Rightarrow> gate \<Rightarrow> string \<Rightarrow> (reqCtx \<Rightarrow> ('w, 'k) orch \<Rightarrow> 'b http \<times> ('w, 'k) orch) \<Rightarrow> ('w, 'k) orch \<Rightarrow> 'b http \<times> ('w, 'k) orch" where
  "passGate C g authz next =
     (case g of
        TokenG k \<Rightarrow> requireToken (mcValidate C) (mcAudience C) (scopeName C k) authz next
      | AdminG k \<Rightarrow> requireAdmin (mcValidate C) (mcAudience C) (scopeName C k) authz next
      | OrgMemberG k oid \<Rightarrow> requireOrgMember (mcChk C) (mcValidate C) (mcAudience C) (scopeName C k) authz oid next
      | OrgAdminG k oid \<Rightarrow> requireOrgAdmin (mcChk C) (mcValidate C) (mcAudience C) (scopeName C k) authz oid next
      | TemplateG \<Rightarrow> requireTemplateManager (mcChk C) (mcValidate C) (mcAudience C) (scopeName C WriteS) authz next
      | OwnOrgAdminG \<Rightarrow> requireToken (mcValidate C) (mcAudience C) (scopeName C ReadS) authz (\<lambda>cx s.
          if cxOrgID cx = [] \<or> \<not> orgAdminCheck (mcChk C) (cxOrgID cx) (cxUserID cx) (oReg s) then (forbidden, s) else next cx s))"

text \<open>The guards inside the gate: no admin disables or deletes itself, no member changes in a suspended organization.\<close>

fun selfGuarded :: "route \<Rightarrow> string option" where
  "selfGuarded (AdminDisableUserR u) = Some u"
| "selfGuarded (AdminDeleteUserR u) = Some u"
| "selfGuarded _ = None"

fun suspensionGuarded :: "route \<Rightarrow> string option" where
  "suspensionGuarded (AddMemberR oid) = Some oid"
| "suspensionGuarded (PatchMemberR oid u) = Some oid"
| "suspensionGuarded (DeleteMemberR oid u) = Some oid"
| "suspensionGuarded _ = None"

section \<open>What is sent to the registry\<close>

definition orgPath :: "string \<Rightarrow> string" where "orgPath oid = ''/v1/orgs/'' @ PathEscape oid"
definition memberPath :: "string \<Rightarrow> string \<Rightarrow> string" where "memberPath oid u = orgPath oid @ ''/members/'' @ PathEscape u"
definition userPath :: "string \<Rightarrow> string" where "userPath u = ''/v1/users/'' @ PathEscape u"

fun forwardURL :: "route \<Rightarrow> string \<Rightarrow> reqCtx \<Rightarrow> httpMethod \<times> string" where
  "forwardURL ListTemplatesR q cx = (GET, withCallerOrg ''/v1/templates'' cx)"
| "forwardURL SpawnTemplatesR q cx = (GET, withCallerOrg ''/v1/templates?detail=spawn'' cx)"
| "forwardURL AdminTemplatesR q cx = (GET, ''/v1/templates?detail=full'')"
| "forwardURL OrgTemplatesR q cx = (GET, ''/v1/templates?detail=full&orgId='' @ QueryEscape (cxOrgID cx))"
| "forwardURL PostTemplateR q cx = (POST, withTemplateOrg ''/v1/templates'' cx)"
| "forwardURL (PatchTemplateR t) q cx = (PATCH, withTemplateOrg (''/v1/templates/'' @ PathEscape t) cx)"
| "forwardURL (DeleteTemplateR t) q cx = (DELETE, withTemplateOrg (''/v1/templates/'' @ PathEscape t) cx)"
| "forwardURL AdminPostOrgR q cx = (POST, ''/v1/orgs'')"
| "forwardURL AdminListOrgsR q cx = (GET, let m = valuesGet (parseQuery q) ''member''
     in if m \<noteq> [] then ''/v1/orgs?member='' @ QueryEscape m else ''/v1/orgs'')"
| "forwardURL (AdminGetOrgR oid) q cx = (GET, orgPath oid)"
| "forwardURL (AdminPatchOrgR oid) q cx = (PATCH, orgPath oid)"
| "forwardURL (AdminDeleteOrgR oid) q cx = (DELETE, orgPath oid)"
| "forwardURL (AdminDisableOrgR oid) q cx = (POST, orgPath oid @ ''/disable'')"
| "forwardURL (AdminEnableOrgR oid) q cx = (POST, orgPath oid @ ''/enable'')"
| "forwardURL (AdminMembersR oid) q cx = (GET, orgPath oid @ ''/members'')"
| "forwardURL (AdminAddMemberR oid) q cx = (POST, orgPath oid @ ''/members'')"
| "forwardURL (AdminPatchMemberR oid u) q cx = (PATCH, memberPath oid u)"
| "forwardURL (AdminDeleteMemberR oid u) q cx = (DELETE, memberPath oid u)"
| "forwardURL AdminUsersR q cx = (GET, ''/v1/users'')"
| "forwardURL (AdminDisableUserR u) q cx = (POST, userPath u @ ''/disable'')"
| "forwardURL (AdminEnableUserR u) q cx = (POST, userPath u @ ''/enable'')"
| "forwardURL (AdminDeleteUserR u) q cx = (DELETE, userPath u)"
| "forwardURL (AdminPatchUserR u) q cx = (PATCH, userPath u)"
| "forwardURL (GetOrgR oid) q cx = (GET, orgPath oid)"
| "forwardURL (PatchOrgR oid) q cx = (PATCH, orgPath oid)"
| "forwardURL (MembersR oid) q cx = (GET, orgPath oid @ ''/members'')"
| "forwardURL (AddMemberR oid) q cx = (POST, orgPath oid @ ''/members'')"
| "forwardURL (PatchMemberR oid u) q cx = (PATCH, memberPath oid u)"
| "forwardURL (DeleteMemberR oid u) q cx = (DELETE, memberPath oid u)"
| "forwardURL (PutAnchorR oid) q cx = (PUT, orgPath oid @ ''/anchor'')"
| "forwardURL (DeleteAnchorR oid) q cx = (DELETE, orgPath oid @ ''/anchor'')"
| "forwardURL (ActivateAnchorR oid) q cx = (POST, orgPath oid @ ''/anchor/activate'')"
| "forwardURL ConsentsR q cx = (GET, withUserID ''/v1/consents'' q cx)"
| "forwardURL (RevokeConsentR i) q cx = (POST, withUserID (''/v1/consents/'' @ i @ ''/revoke'') q cx)"
| "forwardURL ConsentRequestsR q cx = (GET, withUserID ''/v1/consent-requests'' q cx)"
| "forwardURL (ApproveR i) q cx = (POST, withUserID (''/v1/consent-requests/'' @ i @ ''/approve'') q cx)"
| "forwardURL (DenyR i) q cx = (POST, withUserID (''/v1/consent-requests/'' @ i @ ''/deny'') q cx)"

definition forwardToRegistry ::
  "('w, 'b) muxConfig \<Rightarrow> httpMethod \<times> string \<Rightarrow> string \<Rightarrow> ('w, 'k) orch \<Rightarrow> 'b http \<times> ('w, 'k) orch" where
  "forwardToRegistry C target body o' =
     (case parseRequestURL (snd target) of
        None \<Rightarrow> (HttpError 500 ''internal error'', o')
      | Some (path, query) \<Rightarrow> (case onReg (mcDo C (fst target) path query body) o' of (r, o1) \<Rightarrow> (relay r, o1)))"

definition serveRoute ::
  "('w, 'b) muxConfig \<Rightarrow> route \<Rightarrow> string \<Rightarrow> string \<Rightarrow> string \<Rightarrow> ('w, 'k) orch \<Rightarrow> 'b http \<times> ('w, 'k) orch" where
  "serveRoute C r authz rawQuery body =
     passGate C (gateOf r) authz (\<lambda>cx.
       (case selfGuarded r of None \<Rightarrow> id | Some u \<Rightarrow> refuseSelfTarget cx u)
       ((case suspensionGuarded r of None \<Rightarrow> id | Some oid \<Rightarrow> refuseIfOrgDisabled (mcServer C) oid)
        (forwardToRegistry C (forwardURL r rawQuery cx) body)))"

section \<open>Organization routes\<close>

text \<open>The organization a self-service route acts on, with the segments behind it.\<close>

fun orgTarget :: "route \<Rightarrow> (string \<times> string list) option" where
  "orgTarget (GetOrgR oid) = Some (oid, [])"
| "orgTarget (PatchOrgR oid) = Some (oid, [])"
| "orgTarget (MembersR oid) = Some (oid, [''members''])"
| "orgTarget (AddMemberR oid) = Some (oid, [''members''])"
| "orgTarget (PatchMemberR oid u) = Some (oid, [''members'', u])"
| "orgTarget (DeleteMemberR oid u) = Some (oid, [''members'', u])"
| "orgTarget (PutAnchorR oid) = Some (oid, [''anchor''])"
| "orgTarget (DeleteAnchorR oid) = Some (oid, [''anchor''])"
| "orgTarget (ActivateAnchorR oid) = Some (oid, [''anchor'', ''activate''])"
| "orgTarget _ = None"

lemma literal_segs:
  "PathEscape ''v1'' = ''v1''" "PathEscape ''orgs'' = ''orgs''" "PathEscape ''members'' = ''members''"
  "PathEscape ''anchor'' = ''anchor''" "PathEscape ''activate'' = ''activate''"
  by code_simp+

lemma orgTarget_url:
  assumes "orgTarget r = Some (oid, rest)"
  shows "snd (forwardURL r q cx) = escSegs (''v1'' # ''orgs'' # oid # rest)"
  using assms by (cases r) (auto simp: orgPath_def memberPath_def literal_segs)

lemma orgTarget_gate:
  assumes "orgTarget r = Some (oid, rest)"
  shows "(\<exists>k. gateOf r = OrgMemberG k oid \<or> gateOf r = OrgAdminG k oid) \<and> selfGuarded r = None \<and>
    (suspensionGuarded r = None \<or> suspensionGuarded r = Some oid)"
  using assms by (cases r) auto

lemma tokenContext_ok:
  assumes "tokenContext validate audience scope authz = Inr cx"
  shows "\<exists>tok claims. bearerToken authz = Some tok \<and> validate tok = Inr claims \<and> clTokenUse claims \<noteq> ''delegation'' \<and>
    HasAudience claims audience \<and> HasScope claims scope \<and> cxUserID cx = trim_prefix (clUser claims) ''user:'' \<and> cxUserID cx \<noteq> [] \<and>
    ValidUserID (cxUserID cx) \<and> cxOrgID cx = clOrgID claims \<and> cxRoles cx = clRoles claims"
  using assms by (auto simp: tokenContext_def Let_def split: option.splits sum.splits if_splits)

lemma tokenContext_refuses: "tokenContext validate audience scope authz = Inl a \<Longrightarrow> \<exists>n msg. a = HttpError n msg \<and> n \<in> {401, 403}"
  by (auto simp: tokenContext_def Let_def unauthorized_def forbidden_def split: option.splits sum.splits if_splits)

text \<open>An organization gate: refused with nothing changed, or passed by an admin or by a caller of that organization.\<close>

lemma requireOrg_passed:
  fixes "next" :: "reqCtx \<Rightarrow> ('w, 'k) orch \<Rightarrow> 'b http \<times> ('w, 'k) orch"
  assumes "requireOrg_orch perm validate audience scope authz oid next o' = (ans, o2)"
  shows "o2 = o' \<and> (\<exists>n msg. ans = HttpError n msg \<and> n \<in> {401, 403, 404}) \<or>
    (\<exists>cx. tokenContext validate audience scope authz = (Inr cx :: 'b http + reqCtx) \<and> next cx o' = (ans, o2) \<and>
       (hasRole cx ''admin'' \<or> oid \<noteq> [] \<and> cxOrgID cx = oid \<and> perm oid (cxUserID cx) (oReg o')))"
proof (cases "tokenContext validate audience scope authz :: 'b http + reqCtx")
  case (Inl a)
  then show ?thesis using assms tokenContext_refuses [OF Inl] by (auto simp: requireOrg_orch_def requireToken_def)
next
  case (Inr cx)
  then show ?thesis using assms by (auto simp: requireOrg_orch_def requireToken_def notFound_def split: if_splits)
qed

lemma refuseIfOrgDisabled_passed:
  assumes "refuseIfOrgDisabled V oid next o' = (ans, o2)" and "\<And>w. snd (srvGetOrg V oid w) = w"
  shows "o2 = o' \<and> (\<exists>n msg. ans = HttpError n msg \<and> n \<in> {403, 502}) \<or>
    next o' = (ans, o2) \<and> (\<exists>org. fst (fetchOrg V oid (oReg o')) = Inr org \<and> \<not> orgDisabled org)"
proof -
  obtain f w where f: "fetchOrg V oid (oReg o') = (f, w)" by force
  then have "w = oReg o'" using assms(2) [of "oReg o'"] by (auto simp: fetchOrg_def onFst_def)
  then have "onReg (fetchOrg V oid) o' = (f, o')" using f by (simp add: onReg_same)
  then show ?thesis using assms(1) f by (cases f) (auto simp: refuseIfOrgDisabled_def split: if_splits)
qed

lemma forward_orgTarget:
  assumes "orgTarget r = Some (oid, rest)"
  shows "forwardToRegistry C (forwardURL r q cx) body o' =
    (case mcDo C (fst (forwardURL r q cx)) (escSegs (''v1'' # ''orgs'' # oid # rest)) [] body (oReg o') of (res, w) \<Rightarrow> (relay res, o'\<lparr>oReg := w\<rparr>))"
  unfolding forwardToRegistry_def orgTarget_url [OF assms] parseRequestURL_escSegs by (simp add: onReg_def split: prod.splits)

text \<open>
  C16: self-service of organizations is confined. A request on one of the nine routes that let members and admins work on
  their own organization is either refused, with nothing changed, or the caller is a platform admin or has the organization of the
  path in the token and passes the SpiceDB check the route asks for (member to read, admin to write), and member changes reach
  only an organization that is not suspended. What the registry then receives, split and unescaped, is
  exactly the organization and the rest of the path: no id can smuggle in another segment or a query.
\<close>

theorem org_routes_confined:
  fixes C :: "('w, 'b) muxConfig"
  assumes "orgTarget r = Some (oid, rest)" and "\<And>w. snd (srvGetOrg (mcServer C) oid w) = w"
    and "serveRoute C r authz rawQuery body o' = (ans, o2)"
  shows "o2 = o' \<and> (\<exists>n msg. ans = HttpError n msg \<and> n \<in> {401, 403, 404, 502}) \<or>
    (\<exists>tok claims mth path res w. bearerToken authz = Some tok \<and> mcValidate C tok = Inr claims \<and>
       (HasRole claims ''admin'' \<or> clOrgID claims = oid \<and> oid \<noteq> [] \<and>
          (if \<exists>k. gateOf r = OrgAdminG k oid
           then orgAdminCheck (mcChk C) oid (trim_prefix (clUser claims) ''user:'') (oReg o')
           else orgMemberCheck (mcChk C) oid (trim_prefix (clUser claims) ''user:'') (oReg o'))) \<and>
       (suspensionGuarded r \<noteq> None \<longrightarrow> (\<exists>org. fst (fetchOrg (mcServer C) oid (oReg o')) = Inr org \<and> \<not> orgDisabled org)) \<and>
       muxSegs path = ''v1'' # ''orgs'' # oid # rest \<and>
       mcDo C mth path [] body (oReg o') = (res, w) \<and> ans = relay res \<and> o2 = o'\<lparr>oReg := w\<rparr>)"
proof -
  let ?inner = "\<lambda>cx. (case suspensionGuarded r of None \<Rightarrow> id | Some oid \<Rightarrow> refuseIfOrgDisabled (mcServer C) oid)
        (forwardToRegistry C (forwardURL r rawQuery cx) body)"
  let ?adm = "\<exists>k. gateOf r = OrgAdminG k oid"
  let ?perm = "if ?adm then orgAdminCheck (mcChk C) else orgMemberCheck (mcChk C)"
  have self: "selfGuarded r = None" and susp: "suspensionGuarded r = None \<or> suspensionGuarded r = Some oid"
    using orgTarget_gate [OF assms(1)] by blast+
  have srv: "passGate C (gateOf r) authz ?inner o' = (ans, o2)" using assms(3) by (simp only: serveRoute_def self option.case id_apply)
  have "\<exists>k. requireOrg_orch ?perm (mcValidate C) (mcAudience C) (scopeName C k) authz oid ?inner o' = (ans, o2)"
  proof (cases ?adm)
    case True
    then obtain k where "gateOf r = OrgAdminG k oid" by blast
    then have g: "passGate C (gateOf r) authz ?inner = requireOrg_orch (orgAdminCheck (mcChk C)) (mcValidate C) (mcAudience C) (scopeName C k) authz oid ?inner"
      by (simp add: passGate_def requireOrgAdmin_def)
    show ?thesis unfolding if_P [OF True] using srv unfolding g by (rule exI)
  next
    case False
    then obtain k where "gateOf r = OrgMemberG k oid" using orgTarget_gate [OF assms(1)] by blast
    then have g: "passGate C (gateOf r) authz ?inner = requireOrg_orch (orgMemberCheck (mcChk C)) (mcValidate C) (mcAudience C) (scopeName C k) authz oid ?inner"
      by (simp add: passGate_def requireOrgMember_def)
    show ?thesis unfolding if_not_P [OF False] using srv unfolding g by (rule exI)
  qed
  then obtain k where h: "requireOrg_orch ?perm (mcValidate C) (mcAudience C) (scopeName C k) authz oid ?inner o' = (ans, o2)" by blast
  show ?thesis
  proof (cases "o2 = o' \<and> (\<exists>n msg. ans = HttpError n msg \<and> n \<in> {401, 403, 404, 502})")
    case False
    then obtain cx where cx: "tokenContext (mcValidate C) (mcAudience C) (scopeName C k) authz = (Inr cx :: 'b http + reqCtx)" "?inner cx o' = (ans, o2)"
        "hasRole cx ''admin'' \<or> oid \<noteq> [] \<and> cxOrgID cx = oid \<and> ?perm oid (cxUserID cx) (oReg o')"
      using requireOrg_passed [OF h] by blast
    have fwd: "forwardToRegistry C (forwardURL r rawQuery cx) body o' = (ans, o2)"
        "suspensionGuarded r \<noteq> None \<longrightarrow> (\<exists>org. fst (fetchOrg (mcServer C) oid (oReg o')) = Inr org \<and> \<not> orgDisabled org)"
      using cx(2) susp False refuseIfOrgDisabled_passed [OF _ assms(2), of "forwardToRegistry C (forwardURL r rawQuery cx) body" o' ans o2]
      by auto
    obtain tok claims where t: "bearerToken authz = Some tok" "mcValidate C tok = Inr claims"
        "cxUserID cx = trim_prefix (clUser claims) ''user:''" "cxOrgID cx = clOrgID claims" "cxRoles cx = clRoles claims"
      using tokenContext_ok [OF cx(1)] by blast
    have adm: "hasRole cx ''admin'' = HasRole claims ''admin''" by (simp add: hasRole_def HasRole_def t)
    let ?path = "escSegs (''v1'' # ''orgs'' # oid # rest)"
    obtain res w where rw: "mcDo C (fst (forwardURL r rawQuery cx)) ?path [] body (oReg o') = (res, w)" by force
    then have "ans = relay res" "o2 = o'\<lparr>oReg := w\<rparr>" using fwd(1) forward_orgTarget [OF assms(1), of C rawQuery cx body o'] by auto
    moreover have "muxSegs ?path = ''v1'' # ''orgs'' # oid # rest" by (rule muxSegs_escSegs) simp
    moreover have "HasRole claims ''admin'' \<or> clOrgID claims = oid \<and> oid \<noteq> [] \<and>
          (if ?adm then orgAdminCheck (mcChk C) oid (trim_prefix (clUser claims) ''user:'') (oReg o')
           else orgMemberCheck (mcChk C) oid (trim_prefix (clUser claims) ''user:'') (oReg o'))"
      using cx(3) t adm by (auto split: if_splits)
    ultimately show ?thesis using t(1,2) fwd(2) rw by blast
  qed simp
qed

text \<open>A mux over the in-memory registry whose transport echoes the path it was given.\<close>

definition echoMux :: "((store, Mock) world, string) muxConfig" where
  "echoMux = \<lparr>mcValidate = (\<lambda>_. Inr demoClaims), mcAudience = ''orch'', mcReadScope = ''agents:read'', mcWriteScope = ''agents:write'',
     mcChk = (\<lambda>_ _ _ _. Inr True), mcServer = registryServer memStore mockClient (\<lambda>_. timedOut),
     mcDo = (\<lambda>mth path query body w. (Inr (HttpOK 200 path), w))\<rparr>"

theorem org_routes_confined_witness:
  "\<exists>path. serveRoute echoMux (PatchOrgR ''acme'') ''Bearer x'' [] [] demoOrch = (HttpOK 200 path, demoOrch) \<and>
     muxSegs path = [''v1'', ''orgs'', ''acme'']"
proof -
  obtain ans o2 where h: "serveRoute echoMux (PatchOrgR ''acme'') ''Bearer x'' [] [] demoOrch = (ans, o2)" by force
  have ok: "fst (serveRoute echoMux (PatchOrgR ''acme'') ''Bearer x'' [] [] demoOrch) = HttpOK 200 ''/v1/orgs/acme''" by code_simp
  have "\<And>w. snd (srvGetOrg (mcServer echoMux) ''acme'' w) = w" by (simp add: echoMux_def registryServer_def)
  from org_routes_confined [OF _ this h, of "[]"] ok h show ?thesis by (auto simp: echoMux_def relay_def)
qed

section \<open>Consents\<close>

text \<open>The registry's routes for deciding a consent request, behind its check of the \<open>userId\<close> parameter.\<close>

definition consentRoutes ::
  "'s Store \<Rightarrow> (string \<Rightarrow> string slice) \<Rightarrow> httpMethod \<Rightarrow> string \<Rightarrow> string \<Rightarrow> string \<Rightarrow> ('s, 'd) world \<Rightarrow> ConsentRequest http result \<times> ('s, 'd) world" where
  "consentRoutes S scopesOf mth path query body w =
     (let u = valuesGet (parseQuery query) ''userId''
      in if rejectInvalidUserID u then (Inr (HttpError 400 ''invalid userId''), w)
         else case matchPattern [Some ''v1'', Some ''consent-requests'', None, None] (muxSegs path) of
             None \<Rightarrow> (Inr (HttpError 404 ''404 page not found''), w)
           | Some xs \<Rightarrow>
               if mth = POST \<and> xs ! 1 = ''approve'' then
                 (case handleApproveConsentRequest S (xs ! 0) u (scopesOf body) (wStore w) of (a, s) \<Rightarrow> (Inr a, w\<lparr>wStore := s\<rparr>))
               else if mth = POST \<and> xs ! 1 = ''deny'' then
                 (case handleDenyConsentRequest S (xs ! 0) u (wStore w) of (a, s) \<Rightarrow> (Inr a, w\<lparr>wStore := s\<rparr>))
               else (Inr (HttpError 404 ''404 page not found''), w))"

text \<open>The query of a forwarded request has the caller as its user, whatever the client sent.\<close>

definition callerQuery :: "string \<Rightarrow> string \<Rightarrow> string" where
  "callerQuery rawQuery u = encodeValues (valuesSet ''userId'' u (valuesDel ''userId'' (parseQuery rawQuery)))"

lemma callerQuery_user: "valuesGet (parseQuery (callerQuery rawQuery u)) ''userId'' = u"
proof -
  let ?v = "valuesSet ''userId'' u (valuesDel ''userId'' (parseQuery rawQuery))"
  have "set (gvals (gdel k m)) \<subseteq> set (gvals m)" for k :: string and m :: Values by (induction m) auto
  moreover have "set (gvals (gput k y m)) \<subseteq> insert y (set (gvals m))" for y and k :: string and m :: Values by (induction m) auto
  ultimately have "\<forall>x \<in> set (gvals ?v). x \<noteq> []" using parseQuery_wf(2) [of rawQuery] unfolding valuesSet_def valuesDel_def by blast
  moreover have "gdistinct ?v" using parseQuery_wf(1) [of rawQuery] by (auto simp: valuesSet_def valuesDel_def intro: wf_intros)
  ultimately have "gget (parseQuery (callerQuery rawQuery u)) = gget ?v" unfolding callerQuery_def by (intro parseQuery_encodeValues)
  then show ?thesis by (simp add: valuesGet_def valuesSet_def gomap_simps)
qed

lemma callerQuery_nonempty: "u \<noteq> [] \<Longrightarrow> callerQuery rawQuery u \<noteq> []"
proof
  assume "u \<noteq> []" and "callerQuery rawQuery u = []"
  then show False using callerQuery_user [of rawQuery u] by (simp add: parseQuery_def parsePair_def map_filter_simps valuesGet_def)
qed

lemma withUserID_query: "cxUserID cx \<noteq> [] \<Longrightarrow> withUserID path rawQuery cx = path @ CHR ''?'' # callerQuery rawQuery (cxUserID cx)"
  using callerQuery_nonempty [of "cxUserID cx" rawQuery] by (simp add: withUserID_def withQuery_def callerQuery_def Let_def)

text \<open>Forwarding a decision on a request whose id needs no escaping.\<close>

lemma literal_crs:
  "PathEscape ''v1'' = ''v1''" "PathEscape ''consent-requests'' = ''consent-requests''" "PathEscape ''approve'' = ''approve''"
  "PathEscape ''deny'' = ''deny''"
  by code_simp+

lemma forward_decision:
  assumes "plainSegment i" and "cxUserID cx \<noteq> []" and "verb \<in> {''approve'', ''deny''}"
  shows "parseRequestURL (withUserID (''/v1/consent-requests/'' @ i @ CHR ''/'' # verb) rawQuery cx) =
    Some (escSegs [''v1'', ''consent-requests'', i, verb], callerQuery rawQuery (cxUserID cx))"
proof -
  have "PathEscape i = i" using assms(1) by (intro PathEscape_plain) (auto simp: plainSegment_def unreserved_def list_all_iff)
  then have "''/v1/consent-requests/'' @ i @ CHR ''/'' # verb = escSegs [''v1'', ''consent-requests'', i, verb]"
    using assms(3) literal_crs by auto
  then show ?thesis
    unfolding withUserID_query [OF assms(2)]
    using parseRequestURL_query [of "callerQuery rawQuery (cxUserID cx)" "[''v1'', ''consent-requests'', i, verb]"] encodeValues_safe
    by (simp add: callerQuery_def)
qed

text \<open>The decision as the registry takes it, for the user it read from the query.\<close>

definition decide :: "'s Store \<Rightarrow> (string \<Rightarrow> string slice) \<Rightarrow> string \<Rightarrow> string \<Rightarrow> string \<Rightarrow> string \<Rightarrow> 's \<Rightarrow> ConsentRequest http \<times> 's" where
  "decide S scopesOf verb i u body s =
     (if verb = ''approve'' then handleApproveConsentRequest S i u (scopesOf body) s else handleDenyConsentRequest S i u s)"

lemma consentRoutes_decide:
  assumes "muxSegs path = [''v1'', ''consent-requests'', i, verb]" and "i \<noteq> []" and "verb \<in> {''approve'', ''deny''}"
    and "valuesGet (parseQuery query) ''userId'' = u" and "ValidUserID u"
  shows "consentRoutes S scopesOf POST path query body w =
    (case decide S scopesOf verb i u body (wStore w) of (a, s) \<Rightarrow> (Inr a, w\<lparr>wStore := s\<rparr>))"
  using assms by (auto simp: consentRoutes_def decide_def rejectInvalidUserID_def)

fun decisionRoute :: "string \<Rightarrow> string \<Rightarrow> route" where
  "decisionRoute verb i = (if verb = ''approve'' then ApproveR i else DenyR i)"

lemma serve_decision:
  fixes C :: "('w, ConsentRequest) muxConfig"
  assumes "verb \<in> {''approve'', ''deny''}"
    and "tokenContext (mcValidate C) (mcAudience C) (mcWriteScope C) authz = (Inr cx :: ConsentRequest http + reqCtx)"
    and "parseRequestURL (withUserID (''/v1/consent-requests/'' @ i @ CHR ''/'' # verb) rawQuery cx) = Some (path, query)"
  shows "serveRoute C (decisionRoute verb i) authz rawQuery body o' =
    (case mcDo C POST path query body (oReg o') of (r, w) \<Rightarrow> (relay r, o'\<lparr>oReg := w\<rparr>))"
  using assms by (auto simp: serveRoute_def passGate_def requireToken_def scopeName_def forwardToRegistry_def onReg_def split: prod.splits)

text \<open>
  C17: a consent is decided as the caller. When a request to approve or deny passes the token gate and its id needs no
  escaping, the registry takes the decision for exactly that id and for exactly the user of the token, whatever \<open>userId\<close>
  parameters the client put into its query; the rest of the state is as before.
\<close>

theorem consent_decided_as_caller:
  assumes "tokenContext (mcValidate C) (mcAudience C) (mcWriteScope C) authz = (Inr cx :: ConsentRequest http + reqCtx)"
    and "mcDo C = consentRoutes S scopesOf" and "plainSegment i" and "verb \<in> {''approve'', ''deny''}"
  shows "serveRoute C (decisionRoute verb i) authz rawQuery body o' =
    (case decide S scopesOf verb i (cxUserID cx) body (wStore (oReg o')) of (a, s) \<Rightarrow> (a, o'\<lparr>oReg := (oReg o')\<lparr>wStore := s\<rparr>\<rparr>))"
proof -
  have u: "cxUserID cx \<noteq> []" "ValidUserID (cxUserID cx)" using tokenContext_ok [OF assms(1)] by blast+
  have "muxSegs (escSegs [''v1'', ''consent-requests'', i, verb]) = [''v1'', ''consent-requests'', i, verb]" by (rule muxSegs_escSegs) simp
  moreover have "i \<noteq> []" using assms(3) by (simp add: plainSegment_def)
  ultimately show ?thesis
    using serve_decision [OF assms(4,1) forward_decision [OF assms(3) u(1) assms(4)], where body = body and o' = o'] assms(2,4) u(2)
      consentRoutes_decide [of "escSegs [''v1'', ''consent-requests'', i, verb]" i verb "callerQuery rawQuery (cxUserID cx)" "cxUserID cx" S scopesOf body "oReg o'"]
    by (simp add: callerQuery_user relay_def split: prod.splits)
qed

definition consentMux :: "((store, Mock) world, ConsentRequest) muxConfig" where
  "consentMux = \<lparr>mcValidate = (\<lambda>_. Inr demoClaims), mcAudience = ''orch'', mcReadScope = ''agents:read'', mcWriteScope = ''agents:write'',
     mcChk = (\<lambda>_ _ _ _. Inr True), mcServer = registryServer memStore mockClient (\<lambda>_. timedOut),
     mcDo = consentRoutes memStore (\<lambda>_. None)\<rparr>"

lemma consentMux_token:
  "tokenContext (mcValidate consentMux) (mcAudience consentMux) (mcWriteScope consentMux) ''Bearer x'' =
     (Inr \<lparr>cxUserID = ''alice'', cxRoles = [], cxOrgID = ''acme'', cxTemplateOrg = []\<rparr> :: ConsentRequest http + reqCtx)"
  by code_simp

theorem consent_decided_as_caller_witness:
  "serveRoute consentMux (DenyR ''cr-1'') ''Bearer x'' ''userId=bob'' [] demoOrch =
     (case handleDenyConsentRequest memStore ''cr-1'' ''alice'' (wStore (oReg demoOrch)) of (a, s) \<Rightarrow>
        (a, demoOrch\<lparr>oReg := (oReg demoOrch)\<lparr>wStore := s\<rparr>\<rparr>))"
  using consent_decided_as_caller [OF consentMux_token, of memStore "\<lambda>_. None" "''cr-1''" "''deny''" "''userId=bob''" "[]" demoOrch]
  by (simp add: consentMux_def plainSegment_def is_alnum_def is_lower_def is_upper_def is_digit_def in_range_def decide_def)

text \<open>
  An id is put into the forwarded URL as it was decoded, so an id with a slash and a question mark ends the path
  and starts the query.
\<close>

definition smuggle :: "string \<Rightarrow> string \<Rightarrow> string \<Rightarrow> string" where
  "smuggle verb i victim = i @ CHR ''/'' # verb @ ''?userId='' @ victim @ ''&x=''"

lemma route_smuggled:
  assumes "verb \<in> {''approve'', ''deny''}" and "i \<noteq> []"
  shows "routeOf POST (escSegs [''v1'', ''consent-requests'', i, verb]) = Some (decisionRoute verb i)"
proof -
  have "muxSegs (escSegs [''v1'', ''consent-requests'', i, verb]) = [''v1'', ''consent-requests'', i, verb]" by (rule muxSegs_escSegs) simp
  then show ?thesis using assms by (auto simp: routeOf_def routeTable_def Let_def map_filter_simps)
qed

lemma first_parameter_wins:
  assumes "CHR ''&'' \<notin> set seg" and "parsePair seg = Some (k, x)"
  shows "valuesGet (parseQuery (seg @ CHR ''&'' # rest)) k = x"
  using assms by (simp add: parseQuery_def split_on_sep map_filter_simps valuesGet_def addPairs_get valuesAdd_def gomap_simps Let_def)

lemma userIDChar_plain:
  "userIDChar c \<Longrightarrow> c \<notin> {CHR ''%'', CHR ''+'', CHR ''&'', CHR ''='', CHR '';'', CHR ''#'', CHR ''/'', CHR ''?''} \<and> \<not> ctlByte c"
  by (auto simp: userIDChar_def ctlByte_def is_alnum_def is_lower_def is_upper_def is_digit_def in_range_def)

lemma QueryUnescape_user: "list_all userIDChar u \<Longrightarrow> QueryUnescape u = Some u"
proof -
  assume "list_all userIDChar u"
  then have "unescape True u = Some u" by (induction u) (auto dest: userIDChar_plain)
  then show ?thesis by (simp add: QueryUnescape_def)
qed

lemma user_parameter:
  assumes "ValidUserID u"
  shows "valuesGet (parseQuery (''userId='' @ u @ CHR ''&'' # rest)) ''userId'' = u"
proof -
  have c: "list_all userIDChar u" "CHR ''&'' \<notin> set u" "CHR '';'' \<notin> set u"
    using assms userIDChar_plain by (auto simp: ValidUserID_def list_all_iff)
  have "parsePair (''userId='' @ u) = Some (''userId'', u)"
    using c QueryUnescape_user [OF c(1)] QueryUnescape_user [of "''userId''"]
    by (simp add: parsePair_def before_def userIDChar_def is_alnum_def is_lower_def is_upper_def is_digit_def in_range_def)
  then show ?thesis using first_parameter_wins [of "''userId='' @ u" "''userId''" u rest] c(2) by simp
qed

lemma smuggled_url:
  assumes "plainSegment i" and "ValidUserID victim" and "cxUserID cx \<noteq> []" and "verb \<in> {''approve'', ''deny''}"
  shows "\<exists>q. parseRequestURL (withUserID (''/v1/consent-requests/'' @ smuggle verb i victim @ CHR ''/'' # verb) rawQuery cx) =
      Some (escSegs [''v1'', ''consent-requests'', i, verb], q) \<and> valuesGet (parseQuery q) ''userId'' = victim"
proof -
  let ?q = "''userId='' @ victim @ CHR ''&'' # ''x=/'' @ verb @ CHR ''?'' # callerQuery rawQuery (cxUserID cx)"
  have "PathEscape i = i" using assms(1) by (intro PathEscape_plain) (auto simp: plainSegment_def unreserved_def list_all_iff)
  then have url: "withUserID (''/v1/consent-requests/'' @ smuggle verb i victim @ CHR ''/'' # verb) rawQuery cx =
      escSegs [''v1'', ''consent-requests'', i, verb] @ CHR ''?'' # ?q"
    using assms(4) unfolding withUserID_query [OF assms(3)] smuggle_def by (elim insertE) (simp_all add: literal_crs)
  let ?ok = "\<lambda>c. c \<noteq> CHR ''#'' \<and> \<not> ctlByte c"
  have "list_all ?ok victim" using assms(2) userIDChar_plain by (auto simp: ValidUserID_def list_all_iff)
  moreover have "list_all ?ok (callerQuery rawQuery (cxUserID cx))" using encodeValues_safe by (auto simp: callerQuery_def list_all_iff)
  moreover have "list_all ?ok verb" using assms(4) by (elim insertE) (simp_all add: ctlByte_def)
  ultimately have "list_all ?ok ?q" by (simp add: ctlByte_def)
  then have "c \<in> set ?q \<Longrightarrow> ?ok c" for c unfolding list_all_iff by blast
  then have "parseRequestURL (escSegs [''v1'', ''consent-requests'', i, verb] @ CHR ''?'' # ?q) = Some (escSegs [''v1'', ''consent-requests'', i, verb], ?q)"
    by (rule parseRequestURL_query)
  then show ?thesis unfolding url by (intro exI [of _ ?q] conjI user_parameter [OF assms(2)])
qed

text \<open>
  C38: a crafted id decides for somebody else. The decision routes put the decoded id into the forwarded URL without
  escaping it. A caller with any valid token who asks for the id \<open>i/approve?userId=victim&x=\<close>, sent escaped as one
  segment, is routed to the decision handler, and the registry decides request \<open>i\<close> for the user \<open>victim\<close>, although the
  handler means to stamp the user of the token.
\<close>

theorem crafted_id_decides_for_victim:
  assumes "tokenContext (mcValidate C) (mcAudience C) (mcWriteScope C) authz = (Inr cx :: ConsentRequest http + reqCtx)"
    and "mcDo C = consentRoutes S scopesOf" and "plainSegment i" and "ValidUserID victim" and "verb \<in> {''approve'', ''deny''}"
  shows "routeOf POST (escSegs [''v1'', ''consent-requests'', smuggle verb i victim, verb]) = Some (decisionRoute verb (smuggle verb i victim)) \<and>
    serveRoute C (decisionRoute verb (smuggle verb i victim)) authz rawQuery body o' =
      (case decide S scopesOf verb i victim body (wStore (oReg o')) of (a, s) \<Rightarrow> (a, o'\<lparr>oReg := (oReg o')\<lparr>wStore := s\<rparr>\<rparr>))"
proof
  have i: "i \<noteq> []" using assms(3) by (simp add: plainSegment_def)
  show "routeOf POST (escSegs [''v1'', ''consent-requests'', smuggle verb i victim, verb]) = Some (decisionRoute verb (smuggle verb i victim))"
    by (rule route_smuggled [OF assms(5)]) (simp add: smuggle_def)
  have u: "cxUserID cx \<noteq> []" using tokenContext_ok [OF assms(1)] by blast
  obtain q where q: "parseRequestURL (withUserID (''/v1/consent-requests/'' @ smuggle verb i victim @ CHR ''/'' # verb) rawQuery cx) =
      Some (escSegs [''v1'', ''consent-requests'', i, verb], q)" "valuesGet (parseQuery q) ''userId'' = victim"
    using smuggled_url [OF assms(3,4) u assms(5)] by blast
  have "muxSegs (escSegs [''v1'', ''consent-requests'', i, verb]) = [''v1'', ''consent-requests'', i, verb]" by (rule muxSegs_escSegs) simp
  then show "serveRoute C (decisionRoute verb (smuggle verb i victim)) authz rawQuery body o' =
      (case decide S scopesOf verb i victim body (wStore (oReg o')) of (a, s) \<Rightarrow> (a, o'\<lparr>oReg := (oReg o')\<lparr>wStore := s\<rparr>\<rparr>))"
    using serve_decision [OF assms(5,1) q(1), where body = body and o' = o'] assms(2)
      consentRoutes_decide [OF _ i assms(5) q(2) assms(4), of "escSegs [''v1'', ''consent-requests'', i, verb]" S scopesOf body "oReg o'"]
    by (simp add: relay_def split: prod.splits)
qed

theorem crafted_id_decides_for_victim_witness:
  "serveRoute consentMux (DenyR ''cr-1/deny?userId=bob&x='') ''Bearer x'' [] [] demoOrch =
     (case handleDenyConsentRequest memStore ''cr-1'' ''bob'' (wStore (oReg demoOrch)) of (a, s) \<Rightarrow>
        (a, demoOrch\<lparr>oReg := (oReg demoOrch)\<lparr>wStore := s\<rparr>\<rparr>))"
  using crafted_id_decides_for_victim [OF consentMux_token, of memStore "\<lambda>_. None" "''cr-1''" "''bob''" "''deny''" "[]" "[]" demoOrch]
  by (simp add: consentMux_def plainSegment_def ValidUserID_def userIDChar_def smuggle_def is_alnum_def is_lower_def is_upper_def
      is_digit_def in_range_def decide_def)

end
