(* ===== verification/OrchAccount.thy ===== *)
theory OrchAccount
  imports OrchRoutes Orgs
begin

text \<open>
  The handlers of the orchestrator that work on what the registry answers instead of relaying it
  (\<open>cmd/orchestrator/main.go\<close>): the platform counts, the organizations of the caller, self-service sign-up, messages to an
  agent and its logs.
\<close>

section \<open>Organizations of the platform and of the caller\<close>

text \<open>\<open>getOrgs\<close> is \<open>GET /v1/orgs\<close> with the given query, sent with the control-plane credential.\<close>

type_synonym 'w orgLister = "string \<Rightarrow> 'w \<Rightarrow> Organization list http result \<times> 'w"

definition fetchOrgs :: "'w orgLister \<Rightarrow> 'w \<Rightarrow> Organization list result \<times> 'w" where
  "fetchOrgs getOrgs w =
     onFst (decoded ''registry GET /v1/orgs'' (Inl (statusErr ''registry GET /v1/orgs'' 404))) (getOrgs [] w)"

definition handleStats ::
  "'w Server \<Rightarrow> 'w orgLister \<Rightarrow> ('w, 'k) orch \<Rightarrow> (nat \<times> nat) http \<times> ('w, 'k) orch" where
  "handleStats V getOrgs o' =
     (case onReg (fetchOrgs getOrgs) o' of
        (Inl e, o1) \<Rightarrow> (HttpError 502 ''registry unavailable'', o1)
      | (Inr orgs, o1) \<Rightarrow>
          (case onReg (rcListAgents (HTTPClient V)) o1 of
             (Inl e, o2) \<Rightarrow> (HttpError 502 ''registry unavailable'', o2)
           | (Inr agents, o2) \<Rightarrow> (HttpOK 200 (length orgs, length agents), o2)))"

record myOrgs =
  moOrgs :: "Organization list"
  moActiveOrg :: string
  moIsOrgAdmin :: bool

definition handleMyOrgs ::
  "'w checker \<Rightarrow> 'w orgLister \<Rightarrow> reqCtx \<Rightarrow> ('w, 'k) orch \<Rightarrow> myOrgs http \<times> ('w, 'k) orch" where
  "handleMyOrgs chk getOrgs cx o' =
     (case onReg (getOrgs (''member='' @ QueryEscape (cxUserID cx))) o' of
        (Inl e, o1) \<Rightarrow> (HttpError 502 ''registry unavailable'', o1)
      | (Inr (HttpError n m), o1) \<Rightarrow> (HttpError 502 ''org list failed'', o1)
      | (Inr (HttpOK n orgs), o1) \<Rightarrow>
          if n \<noteq> 200 then (HttpError 502 ''org list failed'', o1)
          else (HttpOK 200 \<lparr>moOrgs = orgs, moActiveOrg = cxOrgID cx,
                  moIsOrgAdmin = (cxOrgID cx \<noteq> [] \<and> orgAdminCheck chk (cxOrgID cx) (cxUserID cx) (oReg o1))\<rparr>, o1))"

text \<open>
  Sign-up: the body gives a name only. \<open>createOrg\<close> is \<open>POST /v1/orgs\<close> of the registry with its \<open>selfServe\<close> flag and body.
\<close>

definition handleSignupOrg ::
  "(bool \<Rightarrow> orgCreateReq \<Rightarrow> 'w \<Rightarrow> 'b http result \<times> 'w) \<Rightarrow> string result \<Rightarrow> reqCtx \<Rightarrow> ('w, 'k) orch \<Rightarrow> 'b http \<times> ('w, 'k) orch" where
  "handleSignupOrg createOrg body cx o' =
     (case body of
        Inl e \<Rightarrow> (HttpError 400 ''invalid request body'', o')
      | Inr name \<Rightarrow>
          (case onReg (createOrg True \<lparr>ocOrgID = [], ocName = name, ocAdminUser = cxUserID cx\<rparr>) o' of
             (r, o1) \<Rightarrow> (relay r, o1)))"

section \<open>Messages and logs\<close>

text \<open>\<open>post\<close> sends the decoded body to the agent's service; \<open>sessionId\<close> is its string member of that name, empty if none.\<close>

definition handleMessage ::
  "'w Server \<Rightarrow> 'w checker \<Rightarrow> (string \<Rightarrow> 'j \<Rightarrow> 'b http result) \<Rightarrow> string \<Rightarrow> ('j \<times> string) result \<Rightarrow> reqCtx \<Rightarrow>
     ('w, 'k) orch \<Rightarrow> 'b http \<times> ('w, 'k) orch" where
  "handleMessage V chk post oid body cx o' =
     (case canManage V chk cx oid (cxUserID cx) o' of (ok, o1) \<Rightarrow>
        if \<not> ok then (notFound, o1)
        else case body of
            Inl e \<Rightarrow> (HttpError 400 ''bad request'', o1)
          | Inr (msg, sessionId) \<Rightarrow>
              (let target = ''http://'' @ oid @ ''-svc:8080/agents/chat/'' @ (if sessionId = [] then ''default'' else sessionId)
               in case parseRequestURL (drop (length (''http://'' @ oid @ ''-svc:8080'')) target) of
                    None \<Rightarrow> (HttpError 500 ''internal error'', o1)
                  | Some _ \<Rightarrow>
                      (case post target msg of
                         Inl e \<Rightarrow> (HttpError 502 ''agent unreachable'', o1)
                       | Inr a \<Rightarrow> (a, o1))))"

text \<open>\<open>strconv.ParseInt(s, 10, 64)\<close>.\<close>

definition ParseInt64 :: "string \<Rightarrow> int option" where
  "ParseInt64 s =
     (let neg = (s \<noteq> [] \<and> hd s = CHR ''-'');
          ds = (if s \<noteq> [] \<and> hd s \<in> {CHR ''-'', CHR ''+''} then tl s else s);
          n = int (read_nat ds); v = (if neg then - n else n)
      in if ds = [] \<or> \<not> list_all is_digit ds then None
         else if - (2 ^ 63) \<le> v \<and> v < 2 ^ 63 then Some v else None)"

record logsResponse =
  lrPodName :: string
  lrContainer :: string
  lrPodPhase :: string
  lrLines :: "logLine list"
  lrComplete :: bool

text \<open>What the handler reads of the cluster: the pod of a workload, its phase, and its log, whose stream may break.\<close>

record 'k PodAPI =
  paWorkloadPod :: "string \<Rightarrow> 'k \<Rightarrow> string result"
  paPodPhase :: "string \<Rightarrow> 'k \<Rightarrow> string result"
  paLogs :: "string \<Rightarrow> string \<Rightarrow> time option \<Rightarrow> int option \<Rightarrow> 'k \<Rightarrow> k8s_error + string result"

definition logOptions :: "(string \<Rightarrow> time result) \<Rightarrow> Values \<Rightarrow> 'b http + (string \<times> string \<times> time option \<times> int)" where
  "logOptions parseTime q =
     (let container = (if valuesGet q ''container'' = [] then ''agent'' else valuesGet q ''container'');
          sinceTime = valuesGet q ''sinceTime''; tl = valuesGet q ''tailLines''
      in if container \<noteq> ''agent'' \<and> container \<noteq> ''agent-sidecar'' then Inl (HttpError 400 ''invalid container'')
         else case (if sinceTime = [] then Inr None else map_sum id Some (parseTime sinceTime)) of
             Inl e \<Rightarrow> Inl (HttpError 400 ''invalid sinceTime'')
           | Inr since \<Rightarrow>
               (case (if tl = [] then Some 500 else ParseInt64 tl) of
                  None \<Rightarrow> Inl (HttpError 400 ''invalid tailLines'')
                | Some n \<Rightarrow> if n < 0 then Inl (HttpError 400 ''invalid tailLines'') else Inr (container, sinceTime, since, n)))"

definition handleLogs ::
  "'w Server \<Rightarrow> 'w checker \<Rightarrow> 'k PodAPI \<Rightarrow> (string \<Rightarrow> time result) \<Rightarrow> string \<Rightarrow> string \<Rightarrow> reqCtx \<Rightarrow>
     ('w, 'k) orch \<Rightarrow> logsResponse http \<times> ('w, 'k) orch" where
  "handleLogs V chk P parseTime oid rawQuery cx o' =
     (case canView V chk cx oid (cxUserID cx) o' of (ok, o1) \<Rightarrow>
        if \<not> ok then (notFound, o1)
        else case logOptions parseTime (parseQuery rawQuery) of
            Inl a \<Rightarrow> (a, o1)
          | Inr (container, sinceTime, since, tailLines) \<Rightarrow>
              (let podName = (case paWorkloadPod P oid (oK8s o1) of
                       Inl e \<Rightarrow> oid @ ''-pod'' | Inr p \<Rightarrow> if p \<noteq> [] then p else oid @ ''-pod'');
                   phase = (case paPodPhase P podName (oK8s o1) of Inl e \<Rightarrow> ''Pending'' | Inr ph \<Rightarrow> ph);
                   resp = \<lparr>lrPodName = podName, lrContainer = container, lrPodPhase = phase, lrLines = [],
                            lrComplete = (phase = ''Succeeded'' \<or> phase = ''Failed'')\<rparr>
               in case paLogs P podName container since (if since = None then Some tailLines else None) (oK8s o1) of
                    Inl e \<Rightarrow> if isContainerNotReadyErr (Some e) then (HttpOK 200 resp, o1)
                             else (HttpError 500 ''failed to fetch logs'', o1)
                  | Inr (Inl e) \<Rightarrow> (HttpError 500 ''failed to read logs'', o1)
                  | Inr (Inr raw) \<Rightarrow> (HttpOK 200 (resp\<lparr>lrLines := parseLogLines parseTime raw sinceTime\<rparr>), o1)))"

section \<open>Properties\<close>

text \<open>The registry behind a sign-up: its handler for creating organizations.\<close>

definition registryCreateOrg ::
  "'s Store \<Rightarrow> 'd SpiceDB \<Rightarrow> 'g Directory \<Rightarrow> string \<Rightarrow> nat \<Rightarrow> string \<Rightarrow> time \<Rightarrow> bool \<Rightarrow> orgCreateReq \<Rightarrow> ('s, 'd, 'g) orgWorld \<Rightarrow>
     Organization http result \<times> ('s, 'd, 'g) orgWorld" where
  "registryCreateOrg S D G apex maxOrgs guid now selfServe req w =
     (case handleCreateOrg S D G apex maxOrgs guid now selfServe (Inr req) w of (a, w') \<Rightarrow> (Inr a, w'))"

text \<open>Wiring the administrator of an organization that was just stored.\<close>

lemma wireAdmin_new:
  assumes "gget (stOrgs s) guid = None" and "orgOrgID org = guid" and "wSdb w1 = db"
    and wire: "wireAdmin memStore mockClient G apex False org u (w1\<lparr>wStore := putOrg org s\<rparr>) = (ans, w')"
  shows "(\<forall>n x. ans = HttpOK n x \<longrightarrow> n = 201 \<and> gget (stOrgs (wStore w')) = (gget (stOrgs s))(guid \<mapsto> x) \<and>
      set (wSdb w') = insert (tupleKey (orgRef guid) RoleAdmin (userRef u)) (set db)) \<and>
    (\<forall>n msg. ans = HttpError n msg \<longrightarrow> gget (stOrgs (wStore w')) = gget (stOrgs s) \<and> set (wSdb w') \<subseteq> set db)"
proof -
  have put: "gget (stOrgs (putOrg org s)) = (gget (stOrgs s))(guid \<mapsto> org)"
    using assms(2) by (simp add: putOrg_def gomap_simps fun_eq_iff)
  have del: "gget (gdel guid (stOrgs (putOrg org s))) = gget (stOrgs s)"
    using assms(1,2) by (auto simp: putOrg_def gomap_simps fun_eq_iff)
  show ?thesis
    using wireAdmin_mem [OF wire] put del assms(2,3) by (elim disjE conjE) simp_all
qed

text \<open>
  C14: a sign-up makes the caller the administrator of a new organization and of nothing else. Over the in-memory registry and
  SpiceDB, for every directory, an accepted sign-up answers 201, stores one record under the fresh id, which was unused, and adds
  one tuple, the caller's role as its administrator; a refused one leaves the records of organizations as they were and adds no tuple.
  The body cannot choose the id or the administrator.
\<close>

theorem signup_is_for_caller:
  assumes "handleSignupOrg (registryCreateOrg memStore mockClient G apex maxOrgs guid now) (Inr name) cx o' = (ans, o2)"
  shows "(\<forall>n org. ans = HttpOK n org \<longrightarrow> n = 201 \<and> gget (stOrgs (wStore (oReg o'))) guid = None \<and>
       gget (stOrgs (wStore (oReg o2))) = (gget (stOrgs (wStore (oReg o'))))(guid \<mapsto> org) \<and>
       set (wSdb (oReg o2)) = insert (tupleKey (orgRef guid) RoleAdmin (userRef (cxUserID cx))) (set (wSdb (oReg o')))) \<and>
    (\<forall>n msg. ans = HttpError n msg \<longrightarrow> gget (stOrgs (wStore (oReg o2))) = gget (stOrgs (wStore (oReg o'))) \<and>
       set (wSdb (oReg o2)) \<subseteq> set (wSdb (oReg o')))"
proof -
  let ?req = "\<lparr>ocOrgID = [], ocName = name, ocAdminUser = cxUserID cx\<rparr>"
  obtain w' where h: "handleCreateOrg memStore mockClient G apex maxOrgs guid now True (Inr ?req) (oReg o') = (ans, w')" and o2: "oReg o2 = w'"
    using assms by (auto simp: handleSignupOrg_def registryCreateOrg_def onReg_def relay_def split: prod.splits)
  show ?thesis
  proof (cases "trim_space name = []")
    case True
    then have "ans = HttpError 400 ''organization name is required'' \<and> w' = oReg o'" using h by (simp add: handleCreateOrg_def chooseOrgID_def)
    then show ?thesis using o2 by simp
  next
    case False
    then have oid: "chooseOrgID guid ?req = (Inr guid :: Organization http + string)" by (simp add: chooseOrgID_def)
    show ?thesis
      using handleCreateOrg_cases [OF h oid]
    proof (elim disjE exE conjE)
      fix w1 assume fr: "wStore w1 = wStore (oReg o')" "wSdb w1 = wSdb (oReg o')"
        and new: "True \<longrightarrow> gget (stOrgs (wStore (oReg o'))) guid = None"
        and wire: "wireAdmin memStore mockClient G apex (gget (stOrgs (wStore (oReg o'))) guid \<noteq> None)
         (createdOrg guid (trim_space (ocName ?req)) now (gget (stOrgs (wStore (oReg o'))) guid)) (ocAdminUser ?req)
         (w1\<lparr>wStore := putOrg (createdOrg guid (trim_space (ocName ?req)) now (gget (stOrgs (wStore (oReg o'))) guid)) (wStore (oReg o'))\<rparr>) = (ans, w')"
      have free: "gget (stOrgs (wStore (oReg o'))) guid = None" using new by simp
      have "wireAdmin memStore mockClient G apex False (createdOrg guid (trim_space name) now None) (cxUserID cx)
          (w1\<lparr>wStore := putOrg (createdOrg guid (trim_space name) now None) (wStore (oReg o'))\<rparr>) = (ans, w')"
        using wire free by simp
      from wireAdmin_new [OF free createdOrg_id fr(2) this] show ?thesis using free o2 by simp
    qed (use o2 in auto)
  qed
qed

definition signupOrch :: "((store, Mock, unit) orgWorld, unit) orch" where
  "signupOrch = \<lparr>oReg = acmeWorld, oK8s = (), oHub = [], oPosts = []\<rparr>"

theorem signup_is_for_caller_witness:
  "\<exists>org o2. handleSignupOrg (registryCreateOrg memStore mockClient openDirectory [] 0 ''g'' 7) (Inr ''Initech'')
       (aliceCtx\<lparr>cxUserID := ''dora''\<rparr>) signupOrch = (HttpOK 201 org, o2) \<and> gget (stOrgs (wStore (oReg o2))) ''g'' = Some org"
proof -
  let ?h = "handleSignupOrg (registryCreateOrg memStore mockClient openDirectory [] 0 ''g'' 7) (Inr ''Initech'')
       (aliceCtx\<lparr>cxUserID := ''dora''\<rparr>) signupOrch"
  have "case fst ?h of HttpOK n org \<Rightarrow> n = 201 | HttpError n msg \<Rightarrow> False" by code_simp
  then obtain org o2 where h: "?h = (HttpOK 201 org, o2)" by (cases ?h) (auto split: http.splits)
  show ?thesis using signup_is_for_caller [OF h] h by auto
qed

end
