(* ===== verification/Operator.thy ===== *)
theory Operator
  imports Orchestrator
begin

text \<open>
  The operator (\<open>internal/operator\<close>, \<open>cmd/operator/main.go\<close>): the reconciler that turns an \<open>AgentWorkload\<close> into a pod and
  reports its end to the registry, the pods it builds, and the sweep that fails records whose workload is gone.
\<close>

section \<open>Pods\<close>

datatype envSource = EnvValue string | SecretKey string string

type_synonym envVar = "string \<times> envSource"

text \<open>Quantities of the Kubernetes API are a parameter: how they are read, and a quarter of a CPU limit in milli-units.\<close>

record 'q resourceReqs =
  rrCPULimit :: 'q
  rrMemLimit :: 'q
  rrCPURequest :: 'q
  rrMemRequest :: 'q

record 'q container =
  ctName :: string
  ctImage :: string
  ctRestartAlways :: bool
  ctEnv :: "envVar list"
  ctMounts :: "string list"
  ctResources :: "'q resourceReqs option"

record 'q pod =
  podName :: string
  podLabels :: "(string, string) gomap"
  podVolumes :: "(string \<times> string) list"
  podServiceAccount :: string
  podInit :: "'q container list"
  podContainers :: "'q container list"

datatype IdentityInjector = SpiffeInjector string | AwsInjector string string | StsWebInjector string string string

definition sidecarContainerName :: string where "sidecarContainerName = ''agent-sidecar''"

definition defaultSpiffeCSIDriver :: string where "defaultSpiffeCSIDriver = ''csi.spiffe.io''"

definition scopeLabel :: "string \<Rightarrow> string" where
  "scopeLabel tenantID = (if tenantID = [] then ''global'' else ''tenant'')"

definition onSidecar :: "('q container \<Rightarrow> 'q container) \<Rightarrow> 'q pod \<Rightarrow> 'q pod" where
  "onSidecar f p = p\<lparr>podInit := map (\<lambda>c. if ctName c \<noteq> sidecarContainerName then c else f c) (podInit p)\<rparr>"

definition addEnv :: "envVar list \<Rightarrow> 'q container \<Rightarrow> 'q container" where
  "addEnv env c = c\<lparr>ctEnv := ctEnv c @ env\<rparr>"

fun ApplyIdentity :: "IdentityInjector \<Rightarrow> AgentWorkload \<Rightarrow> 'q pod \<Rightarrow> 'q pod" where
  "ApplyIdentity (SpiffeInjector driver) aw p =
     (let p1 = onSidecar (\<lambda>c. addEnv [(''SPIFFE_ENDPOINT_SOCKET'', EnvValue ''unix:///spiffe-workload-api/spire-agent.sock'')]
                 (c\<lparr>ctMounts := ctMounts c @ [''spiffe-workload-api'']\<rparr>))
               (p\<lparr>podVolumes := podVolumes p @ [(''spiffe-workload-api'', if driver = [] then defaultSpiffeCSIDriver else driver)]\<rparr>)
      in p1\<lparr>podLabels := gput ''agent-platform.io/scope'' (scopeLabel (awTenantID aw)) (podLabels p1)\<rparr>)"
| "ApplyIdentity (AwsInjector sa region) aw p =
     onSidecar (addEnv [(''ATTESTOR'', EnvValue ''aws-sts''), (''AWS_ROLE_SESSION_NAME'', EnvValue (awName aw)), (''AWS_REGION'', EnvValue region)])
       (p\<lparr>podServiceAccount := sa\<rparr>)"
| "ApplyIdentity (StsWebInjector sa region audience) aw p =
     onSidecar (addEnv ([(''ATTESTOR'', EnvValue ''aws-stsweb''), (''AWS_REGION'', EnvValue region)] @
         (if audience \<noteq> [] then [(''STSWEB_AUDIENCE'', EnvValue audience)] else [])))
       (p\<lparr>podServiceAccount := sa\<rparr>)"

record reconcilerConfig =
  rcfRegistryURL :: string
  rcfISTokenURL :: string
  rcfSampleAPIURL :: string
  rcfAPIAUrl :: string
  rcfAPIBUrl :: string
  rcfOrchestratorURL :: string
  rcfInjector :: "IdentityInjector option"
  rcfSidecarImage :: string
  rcfFetchRetries :: string
  rcfFetchRetryDelay :: string

definition sidecarImage :: "reconcilerConfig \<Rightarrow> string" where
  "sidecarImage r = (if rcfSidecarImage r = [] then ''agent-sidecar:latest'' else rcfSidecarImage r)"

definition identityInjector :: "reconcilerConfig \<Rightarrow> IdentityInjector" where
  "identityInjector r = (case rcfInjector r of None \<Rightarrow> SpiffeInjector [] | Some i \<Rightarrow> i)"

fun joinSpace :: "string list \<Rightarrow> string" where
  "joinSpace [] = []"
| "joinSpace [s] = s"
| "joinSpace (s # t # ts) = s @ CHR '' '' # joinSpace (t # ts)"

definition sharedEnv :: "reconcilerConfig \<Rightarrow> AgentWorkload \<Rightarrow> AgentTemplate \<Rightarrow> envVar list" where
  "sharedEnv r aw tpl =
     [(''TENANT_ID'', EnvValue (awTenantID aw)), (''USER_ID'', EnvValue (awUserID aw)), (''AGENT_TYPE'', EnvValue (awAgentType aw)),
      (''AGENT_ID'', EnvValue (awName aw)), (''REGISTRY_URL'', EnvValue (rcfRegistryURL r)), (''IS_TOKEN_URL'', EnvValue (rcfISTokenURL r)),
      (''PARENT_ID'', EnvValue (awParentID aw)), (''ORCHESTRATOR_URL'', EnvValue (rcfOrchestratorURL r))] @
     (if rcfFetchRetries r \<noteq> [] then [(''SPIFFE_FETCH_RETRIES'', EnvValue (rcfFetchRetries r))] else []) @
     (if rcfFetchRetryDelay r \<noteq> [] then [(''SPIFFE_FETCH_RETRY_DELAY'', EnvValue (rcfFetchRetryDelay r))] else []) @
     (if awConsentRequired aw
      then [(''CONSENT_REQUIRED'', EnvValue ''true''), (''CONSENT_SCOPES'', EnvValue (joinSpace (tplOAuthScopes tpl)))] else [])"

definition agentEnv :: "reconcilerConfig \<Rightarrow> AgentWorkload \<Rightarrow> AgentTemplate \<Rightarrow> envVar list" where
  "agentEnv r aw tpl =
     [(''SAMPLE_API_URL'', EnvValue (rcfSampleAPIURL r)), (''API_A_URL'', EnvValue (rcfAPIAUrl r)), (''API_B_URL'', EnvValue (rcfAPIBUrl r))] @
     sharedEnv r aw tpl @
     [(''AI_PROVIDER'', SecretKey ''ai-provider'' ''provider''), (''AI_API_KEY'', SecretKey ''ai-provider'' ''api-key''),
      (''AI_MODEL'', SecretKey ''ai-provider'' ''model'')] @
     map (\<lambda>(k, v). (k, EnvValue v)) (rtEnvDefaults (tplRuntime tpl)) @
     (if awTask aw \<noteq> [] then [(''TASK'', EnvValue (awTask aw))] else [])"

record 'q quantities =
  qParse :: "string \<Rightarrow> 'q option"
  qMilli :: "'q \<Rightarrow> int"
  qOfMilli :: "int \<Rightarrow> 'q"

text \<open>Division of a signed number truncates towards zero.\<close>

definition quarter :: "int \<Rightarrow> int" where
  "quarter m = (if m < 0 then - ((- m) div 4) else m div 4)"

text \<open>\<open>resource.MustParse\<close> panics on a string that is no quantity, which is \<^term>\<open>None\<close> here.\<close>

definition podResources :: "'q quantities \<Rightarrow> AgentTemplate \<Rightarrow> 'q resourceReqs option option" where
  "podResources Q tpl =
     (let lim = rtResources (tplRuntime tpl)
      in if resCPULimit lim = [] then Some None
         else case (qParse Q (resCPULimit lim), qParse Q (resMemoryLimit lim)) of
             (Some cpu, Some mem) \<Rightarrow>
               Some (Some \<lparr>rrCPULimit = cpu, rrMemLimit = mem, rrCPURequest = qOfMilli Q (quarter (qMilli Q cpu)), rrMemRequest = mem\<rparr>)
           | _ \<Rightarrow> None)"

definition basePod :: "reconcilerConfig \<Rightarrow> AgentWorkload \<Rightarrow> AgentTemplate \<Rightarrow> 'q resourceReqs option \<Rightarrow> 'q pod" where
  "basePod r aw tpl res =
     \<lparr>podName = awName aw @ ''-pod'',
      podLabels = [(''agent-id'', awName aw), (''agent-type'', awAgentType aw), (''tenant-id'', awTenantID aw), (''user-id'', awUserID aw),
        (''agent-platform.io/managed'', ''true'')],
      podVolumes = [], podServiceAccount = [],
      podInit = [\<lparr>ctName = sidecarContainerName, ctImage = sidecarImage r, ctRestartAlways = True, ctEnv = sharedEnv r aw tpl,
        ctMounts = [], ctResources = None\<rparr>],
      podContainers = [\<lparr>ctName = ''agent'', ctImage = rtImage (tplRuntime tpl), ctRestartAlways = False, ctEnv = agentEnv r aw tpl,
        ctMounts = [], ctResources = res\<rparr>]\<rparr>"

definition buildPod :: "'q quantities \<Rightarrow> reconcilerConfig \<Rightarrow> AgentWorkload \<Rightarrow> AgentTemplate \<Rightarrow> 'q pod option" where
  "buildPod Q r aw tpl = map_option (\<lambda>res. ApplyIdentity (identityInjector r) aw (basePod r aw tpl res)) (podResources Q tpl)"

record service =
  svcName :: string
  svcSelector :: "(string, string) gomap"
  svcPort :: nat

definition buildService :: "AgentWorkload \<Rightarrow> service" where
  "buildService aw = \<lparr>svcName = awName aw @ ''-svc'', svcSelector = [(''agent-id'', awName aw)], svcPort = 8080\<rparr>"

section \<open>Reconciliation\<close>

text \<open>The custom resource with the metadata and status the reconciler works on.\<close>

record AgentWorkloadCR =
  crSpec :: AgentWorkload
  crFinalizers :: "string list"
  crDeleting :: bool
  crPhase :: string
  crPodName :: string

datatype createResult = Created | AlreadyExists | CreateError string

text \<open>The calls of the Kubernetes client, each of which may fail.\<close>

record ('k, 'q) KubeClient =
  kcGet :: "string \<Rightarrow> 'k \<Rightarrow> k8s_error + AgentWorkloadCR"
  kcUpdate :: "AgentWorkloadCR \<Rightarrow> 'k \<Rightarrow> k8s_error option \<times> 'k"
  kcUpdateStatus :: "AgentWorkloadCR \<Rightarrow> 'k \<Rightarrow> k8s_error option \<times> 'k"
  kcCreatePod :: "'q pod \<Rightarrow> 'k \<Rightarrow> createResult \<times> 'k"
  kcCreateService :: "service \<Rightarrow> 'k \<Rightarrow> createResult \<times> 'k"
  kcPodPhase :: "string \<Rightarrow> 'k \<Rightarrow> k8s_error + string"
  kcPodLogs :: "string \<Rightarrow> 'k \<Rightarrow> string"
  kcList :: "'k \<Rightarrow> string list result"

datatype reconcileResult = Done | Requeue | ReconcileError | Panicked

definition finalizer :: string where "finalizer = ''agent-platform.io/cleanup''"

definition ignoreNotFound :: "k8s_error \<Rightarrow> reconcileResult" where
  "ignoreNotFound e = (case e of K8sNotFound \<Rightarrow> Done | K8sError m \<Rightarrow> ReconcileError)"

definition updated :: "k8s_error option \<Rightarrow> reconcileResult" where
  "updated e = (if e = None then Done else ReconcileError)"

definition postBestEffort :: "'w Server \<Rightarrow> string \<Rightarrow> Event \<Rightarrow> 'w \<Rightarrow> 'w" where
  "postBestEffort V oid e w = snd (rcPostEvent (HTTPClient V) oid e w)"

definition handleNew ::
  "'w Server \<Rightarrow> ('k, 'q) KubeClient \<Rightarrow> 'q quantities \<Rightarrow> reconcilerConfig \<Rightarrow> AgentWorkloadCR \<Rightarrow> 'w \<times> 'k \<Rightarrow> reconcileResult \<times> 'w \<times> 'k" where
  "handleNew V K Q r cr st =
     (let aw = crSpec cr in
      case rcGetTemplate (HTTPClient V) (awAgentType aw) (fst st) of
        (Inl e, w1) \<Rightarrow> (ReconcileError, w1, snd st)
      | (Inr tpl, w1) \<Rightarrow>
          (case buildPod Q r aw tpl of
             None \<Rightarrow> (Panicked, w1, snd st)
           | Some p \<Rightarrow>
               (case kcCreatePod K p (snd st) of
                  (CreateError e, k1) \<Rightarrow> (ReconcileError, w1, k1)
                | (_, k1) \<Rightarrow>
                    let w2 = postBestEffort V (awName aw) (newEvent SourceOperator ''pod_created''
                               (ObjPayload [(''podName'', podName p), (''agentType'', awAgentType aw), (''tenantId'', awTenantID aw), (''task'', awTask aw)])) w1
                    in (case (if awLifecycle aw = ''long-lived'' then kcCreateService K (buildService aw) k1 else (Created, k1)) of
                          (CreateError e, k2) \<Rightarrow> (ReconcileError, w2, k2)
                        | (_, k2) \<Rightarrow>
                            (case kcUpdateStatus K (cr\<lparr>crPhase := ''Running'', crPodName := podName p\<rparr>) k2 of
                               (e, k3) \<Rightarrow> (updated e, w2, k3))))))"

definition handleCompletion ::
  "'w Server \<Rightarrow> ('k, 'q) KubeClient \<Rightarrow> AgentWorkloadCR \<Rightarrow> bool \<Rightarrow> 'w \<times> 'k \<Rightarrow> reconcileResult \<times> 'w \<times> 'k" where
  "handleCompletion V K cr failed st =
     (let aw = crSpec cr;
          w1 = (if failed \<and> crPodName cr \<noteq> []
                then postBestEffort V (awName aw) (newEvent SourceOperator ''pod_failed'' (ObjPayload [(''logs'', kcPodLogs K (crPodName cr) (snd st))])) (fst st)
                else fst st);
          w2 = (if failed then snd (rcFail (HTTPClient V) (awName aw) w1) else snd (rcComplete (HTTPClient V) (awName aw) w1))
      in case kcUpdateStatus K (cr\<lparr>crPhase := (if failed then ''Failed'' else ''Completed'')\<rparr>) (snd st) of
           (e, k1) \<Rightarrow> (updated e, w2, k1))"

definition handleRunning ::
  "'w Server \<Rightarrow> ('k, 'q) KubeClient \<Rightarrow> AgentWorkloadCR \<Rightarrow> 'w \<times> 'k \<Rightarrow> reconcileResult \<times> 'w \<times> 'k" where
  "handleRunning V K cr st =
     (case kcPodPhase K (crPodName cr) (snd st) of
        Inl e \<Rightarrow> (ignoreNotFound e, st)
      | Inr phase \<Rightarrow>
          if phase = ''Failed'' then handleCompletion V K cr True st
          else if phase = ''Succeeded'' \<and> awLifecycle (crSpec cr) \<noteq> ''long-lived'' then handleCompletion V K cr False st
          else (Done, st))"

definition deletionFailed :: "('k, 'q) KubeClient \<Rightarrow> AgentWorkloadCR \<Rightarrow> 'k \<Rightarrow> bool" where
  "deletionFailed K cr k =
     (crPhase cr = ''Failed'' \<or> crPodName cr = [] \<or> kcPodPhase K (crPodName cr) k = Inr ''Failed'')"

definition handleDeletion ::
  "'w Server \<Rightarrow> ('k, 'q) KubeClient \<Rightarrow> AgentWorkloadCR \<Rightarrow> 'w \<times> 'k \<Rightarrow> reconcileResult \<times> 'w \<times> 'k" where
  "handleDeletion V K cr st =
     (if finalizer \<notin> set (crFinalizers cr) then (Done, st)
      else let name = awName (crSpec cr);
               w1 = (if deletionFailed K cr (snd st) then snd (rcFail (HTTPClient V) name (fst st)) else snd (rcComplete (HTTPClient V) name (fst st)))
           in case kcUpdate K (cr\<lparr>crFinalizers := removeAll finalizer (crFinalizers cr)\<rparr>) (snd st) of
                (e, k1) \<Rightarrow> (updated e, w1, k1))"

definition Reconcile ::
  "'w Server \<Rightarrow> ('k, 'q) KubeClient \<Rightarrow> 'q quantities \<Rightarrow> reconcilerConfig \<Rightarrow> string \<Rightarrow> 'w \<times> 'k \<Rightarrow> reconcileResult \<times> 'w \<times> 'k" where
  "Reconcile V K Q r name st =
     (case kcGet K name (snd st) of
        Inl e \<Rightarrow> (ignoreNotFound e, st)
      | Inr cr \<Rightarrow>
          if crDeleting cr then handleDeletion V K cr st
          else if finalizer \<notin> set (crFinalizers cr) then
            (case kcUpdate K (cr\<lparr>crFinalizers := crFinalizers cr @ [finalizer]\<rparr>) (snd st) of
               (e, k1) \<Rightarrow> (if e = None then Requeue else ReconcileError, fst st, k1))
          else if crPhase cr = [] then handleNew V K Q r cr st
          else if crPhase cr = ''Running'' then handleRunning V K cr st
          else (Done, st))"

section \<open>The stale sweep\<close>

definition staleSweepStatuses :: "string list" where
  "staleSweepStatuses = [''active'', ''awaiting-consent'', ''revoked'']"

definition sweepAgent :: "'w Server \<Rightarrow> string \<Rightarrow> string list \<Rightarrow> AgentRecord \<Rightarrow> 'w \<Rightarrow> 'w" where
  "sweepAgent V trigger live a w =
     (if agPlacement a = PlacementRemote \<or> agPlacement a = PlacementSubstrate then w
      else if agStatus a \<notin> set staleSweepStatuses then w
      else if agAgentID a \<in> set live then w
      else case rcFail (HTTPClient V) (agAgentID a) w of
          (Some e, w1) \<Rightarrow> w1
        | (None, w1) \<Rightarrow> postBestEffort V (agAgentID a) (newEvent SourceOperator ''reconcile.stale''
            (ObjPayload [(''reason'', ''no workload found '' @ [CHR 0xE2, CHR 0x80, CHR 0x94] @ '' marked failed by '' @ trigger @ '' reconciliation''), (''wasStatus'', agStatus a)])) w1)"

text \<open>The two lists are read one after the other; \<open>pause\<close> is what others do in between.\<close>

definition Sweep ::
  "'w Server \<Rightarrow> ('k, 'q) KubeClient \<Rightarrow> ('w \<times> 'k \<Rightarrow> 'w \<times> 'k) \<Rightarrow> string \<Rightarrow> 'w \<times> 'k \<Rightarrow> go_error option \<times> 'w \<times> 'k" where
  "Sweep V K pause trigger st =
     (case rcListAgents (HTTPClient V) (fst st) of
        (Inl e, w1) \<Rightarrow> (Some e, w1, snd st)
      | (Inr agents, w1) \<Rightarrow>
          (case pause (w1, snd st) of (w2, k2) \<Rightarrow>
             (case kcList K k2 of
                Inl e \<Rightarrow> (Some e, w2, k2)
              | Inr live \<Rightarrow> (None, fold (sweepAgent V trigger live) agents w2, k2))))"

text \<open>
  The runnable that starts with the manager: the first sweep is repeated with a doubling pause of at most two minutes until it
  succeeds. An attempt is given by what happens between its two reads and, when it fails, during the pause after it; a pause that
  ends with the shutdown is \<^term>\<open>None\<close>. Durations are seconds.
\<close>

definition nextBackoff :: "nat \<Rightarrow> nat" where
  "nextBackoff b = (if b * 2 > 120 then 120 else b * 2)"

datatype startOutcome = Swept | Shutdown | StillTrying

fun sweepStart ::
  "'w Server \<Rightarrow> ('k, 'q) KubeClient \<Rightarrow> (('w \<times> 'k \<Rightarrow> 'w \<times> 'k) \<times> (nat \<Rightarrow> 'w \<times> 'k \<Rightarrow> ('w \<times> 'k) option)) list \<Rightarrow> string \<Rightarrow> nat \<Rightarrow>
   'w \<times> 'k \<Rightarrow> startOutcome \<times> 'w \<times> 'k" where
  "sweepStart V K [] trigger backoff st = (StillTrying, st)"
| "sweepStart V K ((pause, rest) # env) trigger backoff st =
     (case Sweep V K pause trigger st of
        (None, st1) \<Rightarrow> (Swept, st1)
      | (Some e, st1) \<Rightarrow>
          (case rest backoff st1 of
             None \<Rightarrow> (Shutdown, st1)
           | Some st2 \<Rightarrow> sweepStart V K env ''retry'' (nextBackoff backoff) st2))"

section \<open>What the sweep does to the registry\<close>

lemma backoff_capped: "(nextBackoff ^^ n) 5 = min (5 * 2 ^ n) 120"
  by (induction n) (auto simp: nextBackoff_def)

text \<open>As long as the workloads cannot be listed, no attempt of the first sweep changes anything, however often it is made.\<close>

lemma sweepStart_fail_safe:
  assumes "\<And>k. \<exists>e. kcList K k = Inl e" and "\<forall>(pause, rest) \<in> set env. pause = id \<and> (\<forall>b st. rest b st = Some st)"
  shows "sweepStart (registryServer memStore D oddPath) K env trigger backoff (w, k) = (StillTrying, w, k)"
  using assms(2)
proof (induction env arbitrary: trigger backoff)
  case (Cons x env)
  obtain e where "kcList K k = Inl e" using assms(1) by blast
  then show ?case using Cons by (cases x) (simp add: Sweep_def rc_simps handleListAgents_def mem_simps)
qed simp

lemma patch_store:
  "wStore (snd (patchStatus (registryServer memStore D oddPath) oid st w)) = snd (updateAgent oid st (wStore w))"
  by (cases "updateAgent oid st (wStore w)")
    (auto simp: registryServer_def onFst_def patchStatus_def handlePatchAgent_def terminalCleanup_def mem_simps Let_def split: prod.splits if_splits)

lemma patch_agents: "memAgents (snd (patchStatus (registryServer memStore D oddPath) oid st w)) = setStatus oid st (memAgents w)"
  by (simp add: patch_store updateAgent_setStatus)

lemma rc_status: "rcFail (HTTPClient V) = (\<lambda>oid. patchStatus V oid ''failed'')" "rcComplete (HTTPClient V) = (\<lambda>oid. patchStatus V oid ''completed'')"
  by (simp_all add: HTTPClient_def)

lemma post_agents [simp]:
  "stAgents (wStore (postBestEffort (registryServer memStore D oddPath) oid e w)) = stAgents (wStore w)"
  using appendEvent_agents [of oid e "wStore w"]
  by (cases "appendEvent oid e (wStore w)")
    (simp add: postBestEffort_def rc_simps handlePostEvent_def mem_simps split: prod.splits)

text \<open>The records the sweep takes for orphans, given the names of the workloads.\<close>

definition orphan :: "string list \<Rightarrow> AgentRecord \<Rightarrow> bool" where
  "orphan live a = (agPlacement a \<notin> {PlacementRemote, PlacementSubstrate} \<and> agStatus a \<in> {''active'', ''awaiting-consent'', ''revoked''} \<and>
     agAgentID a \<notin> set live)"

definition failAll :: "string set \<Rightarrow> (string \<Rightarrow> AgentRecord option) \<Rightarrow> string \<Rightarrow> AgentRecord option" where
  "failAll X m i = (if i \<in> X then map_option (\<lambda>r. r\<lparr>agStatus := ''failed''\<rparr>) (m i) else m i)"

lemma failAll_setStatus: "failAll X (setStatus i ''failed'' m) = failAll (insert i X) m"
  by (auto simp: failAll_def setStatus_def fun_eq_iff split: option.splits)

lemma sweepAgent_effect:
  "memAgents (sweepAgent (registryServer memStore D oddPath) trigger live a w) =
     failAll (if orphan live a then {agAgentID a} else {}) (memAgents w)"
proof (cases "orphan live a")
  case True
  obtain e w1 where f: "rcFail (HTTPClient (registryServer memStore D oddPath)) (agAgentID a) w = (e, w1)" by force
  then have "memAgents w1 = setStatus (agAgentID a) ''failed'' (memAgents w)"
    using patch_agents [of D oddPath "agAgentID a" "''failed''" w] by (simp add: rc_status)
  then have "memAgents w1 = failAll {agAgentID a} (memAgents w)"
    by (auto simp: failAll_def setStatus_def fun_eq_iff split: option.splits)
  then show ?thesis
    using True f by (cases e) (auto simp: sweepAgent_def orphan_def staleSweepStatuses_def)
next
  case False
  then show ?thesis by (auto simp: sweepAgent_def orphan_def staleSweepStatuses_def failAll_def)
qed

lemma sweepAll_effect:
  "memAgents (fold (sweepAgent (registryServer memStore D oddPath) trigger live) as w) =
     failAll (agAgentID ` {a \<in> set as. orphan live a}) (memAgents w)"
proof (induction as arbitrary: w)
  case (Cons a as)
  have "failAll X (failAll Y m) = failAll (X \<union> Y) m" for X Y m
    by (auto simp: failAll_def fun_eq_iff option.map_comp o_def)
  moreover have "agAgentID ` {x \<in> set as. orphan live x} \<union> (if orphan live a then {agAgentID a} else {}) =
      agAgentID ` {x \<in> set (a # as). orphan live x}" by auto
  ultimately show ?case using Cons [of "sweepAgent (registryServer memStore D oddPath) trigger live a w"] sweepAgent_effect [of D oddPath trigger live a w] by simp
qed (simp add: failAll_def fun_eq_iff)

text \<open>
  C26: the stale sweep fails exactly the orphans. When both lists can be read, the records that are marked \<open>failed\<close> are exactly those
  that were listed (not dismissed) with a status that needs a workload and a platform placement when the agents were read, and
  that had no workload when the workloads were read afterwards, in whatever way other components changed both sides in between;
  no other record changes. When a list cannot be read, no record changes at all.
\<close>

theorem stale_sweep_exact:
  assumes "agentsWf (wStore w)" and "pause (w, k) = (w2, k2)"
  shows "case kcList K k2 of
      Inl e \<Rightarrow> Sweep (registryServer memStore D oddPath) K pause trigger (w, k) = (Some e, w2, k2)
    | Inr live \<Rightarrow> \<exists>w3. Sweep (registryServer memStore D oddPath) K pause trigger (w, k) = (None, w3, k2) \<and>
        memAgents w3 = failAll {i. \<exists>a. memAgents w i = Some a \<and> \<not> agDismissed a \<and> orphan live a} (memAgents w2)"
proof (cases "kcList K k2")
  case (Inl e)
  then show ?thesis using assms(2) by (simp add: Sweep_def rc_simps handleListAgents_def mem_simps)
next
  case (Inr live)
  have "agAgentID ` {a \<in> set (listAgents (wStore w)). orphan live a} = {i. \<exists>a. memAgents w i = Some a \<and> \<not> agDismissed a \<and> orphan live a}"
  proof (intro set_eqI iffI)
    fix i
    assume "i \<in> {i. \<exists>a. memAgents w i = Some a \<and> \<not> agDismissed a \<and> orphan live a}"
    then obtain a where a: "memAgents w i = Some a" "\<not> agDismissed a" "orphan live a" by blast
    then have "agAgentID a = i" using agentsWf_id [OF assms(1)] by blast
    then show "i \<in> agAgentID ` {a \<in> set (listAgents (wStore w)). orphan live a}" using a listAgents_iff [OF assms(1)] by blast
  qed (use listAgents_iff [OF assms(1)] in blast)
  then show ?thesis
    using Inr assms(2) sweepAll_effect [of D oddPath trigger live "listAgents (wStore w)" w2]
    by (simp add: Sweep_def rc_simps handleListAgents_def mem_simps)
qed

definition sweptKube :: "string list \<Rightarrow> (unit, nat) KubeClient" where
  "sweptKube live = \<lparr>kcGet = (\<lambda>_ _. Inl K8sNotFound), kcUpdate = (\<lambda>_ k. (None, k)), kcUpdateStatus = (\<lambda>_ k. (None, k)),
     kcCreatePod = (\<lambda>_ k. (Created, k)), kcCreateService = (\<lambda>_ k. (Created, k)), kcPodPhase = (\<lambda>_ _. Inl K8sNotFound),
     kcPodLogs = (\<lambda>_ _. []), kcList = (\<lambda>_. Inr live)\<rparr>"

theorem stale_sweep_exact_witness:
  "\<exists>w3 r. Sweep (registryServer memStore mockClient (\<lambda>_. timedOut)) (sweptKube [''m'']) id ''startup'' (familyWorld, ()) = (None, w3, ()) \<and>
     memAgents w3 ''r'' = Some r \<and> agStatus r = ''failed'' \<and> memAgents w3 ''m'' = memAgents familyWorld ''m'' \<and>
     memAgents w3 ''x'' = memAgents familyWorld ''x''"
proof -
  obtain w3 where w3: "Sweep (registryServer memStore mockClient (\<lambda>_. timedOut)) (sweptKube [''m'']) id ''startup'' (familyWorld, ()) = (None, w3, ())"
      "memAgents w3 = failAll {i. \<exists>a. memAgents familyWorld i = Some a \<and> \<not> agDismissed a \<and> orphan [''m''] a} (memAgents familyWorld)"
    using stale_sweep_exact [OF familyWorld_wf, where pause = id and k = "()" and ?w2.0 = familyWorld and ?k2.0 = "()" and K = "sweptKube [''m'']"
        and D = mockClient and oddPath = "\<lambda>_. timedOut" and trigger = "''startup''"]
    by (auto simp: sweptKube_def)
  have "orphan [''m''] (ownedAgent ''r'' [] ''active'')"
    by (simp add: orphan_def ownedAgent_def lineAgent_def zeroAgent_def PlacementRemote_def PlacementSubstrate_def)
  moreover have "\<not> orphan [''m''] (ownedAgent ''m'' ''r'' ''pending'')" "\<not> orphan [''m''] (ownedAgent ''x'' ''m'' ''completed'')"
    by (simp_all add: orphan_def)
  ultimately show ?thesis using w3 by (auto simp: failAll_def)
qed

section \<open>The end of a workload\<close>

lemma deletion_effect:
  assumes "kcGet K name k = Inr cr" and "crDeleting cr" and "finalizer \<in> set (crFinalizers cr)" and "awName (crSpec cr) = name"
    and "kcUpdate K (cr\<lparr>crFinalizers := removeAll finalizer (crFinalizers cr)\<rparr>) k = (e, k1)"
  shows "Reconcile (registryServer memStore D oddPath) K Q r name (w, k) =
    (updated e, snd (patchStatus (registryServer memStore D oddPath) name (if deletionFailed K cr k then ''failed'' else ''completed'') w), k1)"
  using assms by (simp add: Reconcile_def handleDeletion_def rc_status Let_def)

text \<open>A sweep with nothing in between leaves a record alone that has reached an end.\<close>

lemma Sweep_settled:
  assumes "agentsWf (wStore w)" and "memAgents w i = Some a" and "agStatus a \<notin> {''active'', ''awaiting-consent'', ''revoked''}"
  shows "memAgents (fst (snd (Sweep (registryServer memStore D oddPath) K id trigger (w, k)))) i = Some a"
proof (cases "kcList K k")
  case (Inr live)
  have "i \<notin> agAgentID ` {a \<in> set (listAgents (wStore w)). orphan live a}"
    using assms(2,3) listAgents_iff [OF assms(1)] by (auto simp: orphan_def)
  then show ?thesis
    using Inr assms(2) sweepAll_effect [of D oddPath trigger live "listAgents (wStore w)" w]
    by (simp add: Sweep_def rc_simps handleListAgents_def mem_simps failAll_def)
qed (simp add: Sweep_def rc_simps handleListAgents_def mem_simps assms(2))

text \<open>
  C27: the end of a workload settles its record. Reconciling a deleting workload that carries the finalizer sets the status of
  exactly its own record, to \<open>failed\<close> when the workload failed, never had a pod or its pod is failed and to \<open>completed\<close> otherwise,
  before the finalizer is released; this holds whether or not the release succeeds, and running it again after a failed release
  writes the same status, so a retry never turns a completed agent into a failed one. A stale sweep that follows, with whatever
  workloads it sees, leaves the record as it is.
\<close>

theorem deleted_workload_is_settled:
  assumes "agentsWf (wStore w)" and "memAgents w name = Some a"
    and "kcGet K name k = Inr cr" and "crDeleting cr" and "finalizer \<in> set (crFinalizers cr)" and "awName (crSpec cr) = name"
    and "kcUpdate K (cr\<lparr>crFinalizers := removeAll finalizer (crFinalizers cr)\<rparr>) k = (e, k1)"
    and "st = (if crPhase cr = ''Failed'' \<or> crPodName cr = [] \<or> kcPodPhase K (crPodName cr) k = Inr ''Failed'' then ''failed'' else ''completed'')"
  shows "\<exists>w1. Reconcile (registryServer memStore D oddPath) K Q r name (w, k) = (if e = None then Done else ReconcileError, w1, k1) \<and>
    memAgents w1 = (memAgents w)(name \<mapsto> a\<lparr>agStatus := st\<rparr>) \<and>
    (k1 = k \<longrightarrow> memAgents (fst (snd (Reconcile (registryServer memStore D oddPath) K Q r name (w1, k1)))) = memAgents w1) \<and>
    memAgents (fst (snd (Sweep (registryServer memStore D oddPath) K' id trigger (w1, k')))) name = Some (a\<lparr>agStatus := st\<rparr>)"
proof -
  have st: "(if deletionFailed K cr k then ''failed'' else ''completed'') = st" using assms(8) by (simp add: deletionFailed_def)
  define w1 where "w1 = snd (patchStatus (registryServer memStore D oddPath) name st w)"
  have R: "Reconcile (registryServer memStore D oddPath) K Q r name (v, k) =
      (updated e, snd (patchStatus (registryServer memStore D oddPath) name st v), k1)" for v
    using deletion_effect [OF assms(3-7)] st by simp
  have m: "memAgents w1 = (memAgents w)(name \<mapsto> a\<lparr>agStatus := st\<rparr>)"
    using assms(2) patch_agents [of D oddPath name st w] by (simp add: w1_def setStatus_def)
  have wf: "agentsWf (wStore w1)" using updateAgent_wf [OF assms(1)] by (simp add: w1_def patch_store)
  have "memAgents (fst (snd (Reconcile (registryServer memStore D oddPath) K Q r name (w1, k)))) = memAgents w1"
    using R [of w1] patch_agents [of D oddPath name st w1] m by (simp add: setStatus_def)
  moreover have "memAgents (fst (snd (Sweep (registryServer memStore D oddPath) K' id trigger (w1, k')))) name = Some (a\<lparr>agStatus := st\<rparr>)"
    using Sweep_settled [OF wf, of name "a\<lparr>agStatus := st\<rparr>"] m st by (auto split: if_splits)
  ultimately show ?thesis using R [of w] m by (auto simp: updated_def w1_def)
qed

definition deletingCR :: AgentWorkloadCR where
  "deletingCR = \<lparr>crSpec = \<lparr>awName = ''r'', awAgentType = ''worker'',
     awUserID = ''alice'', awTenantID = ''t1'', awLifecycle = ''one-shot'', awTask = [],
     awParentID = [], awConsentRequired = False\<rparr>, crFinalizers = [finalizer], crDeleting = True, crPhase = ''Running'', crPodName = ''r-pod''\<rparr>"

definition deletingKube :: "(unit, nat) KubeClient" where
  "deletingKube = (sweptKube [])\<lparr>kcGet := (\<lambda>n _. if n = ''r'' then Inr deletingCR else Inl K8sNotFound), kcPodPhase := (\<lambda>_ _. Inr ''Running'')\<rparr>"

text \<open>Quantities in milli-units written in unary, enough to have a value to split.\<close>

definition unaryQuantities :: "nat quantities" where
  "unaryQuantities = \<lparr>qParse = (\<lambda>s. if s = [] then None else Some (length s)), qMilli = int, qOfMilli = nat\<rparr>"

definition plainConfig :: reconcilerConfig where
  "plainConfig = \<lparr>rcfRegistryURL = ''http://registry'', rcfISTokenURL = ''http://is/token'', rcfSampleAPIURL = [], rcfAPIAUrl = [], rcfAPIBUrl = [],
     rcfOrchestratorURL = ''http://orchestrator'', rcfInjector = None, rcfSidecarImage = [], rcfFetchRetries = [], rcfFetchRetryDelay = []\<rparr>"

theorem deleted_workload_is_settled_witness:
  "\<exists>w1. Reconcile (registryServer memStore mockClient (\<lambda>_. timedOut)) deletingKube unaryQuantities plainConfig ''r'' (familyWorld, ()) = (Done, w1, ()) \<and>
     memAgents w1 ''r'' = Some ((ownedAgent ''r'' [] ''active'')\<lparr>agStatus := ''completed''\<rparr>)"
proof -
  have "memAgents familyWorld ''r'' = Some (ownedAgent ''r'' [] ''active'')" by simp
  then show ?thesis
    using deleted_workload_is_settled [OF familyWorld_wf, where name = "''r''" and K = deletingKube and k = "()" and cr = deletingCR and e = None
        and ?k1.0 = "()" and st = "''completed''" and D = mockClient and oddPath = "\<lambda>_. timedOut" and Q = unaryQuantities and r = plainConfig
        and K' = "sweptKube []" and trigger = "''startup''" and k' = "()" and a = "ownedAgent ''r'' [] ''active''"]
    by (auto simp: deletingKube_def sweptKube_def deletingCR_def)
qed

section \<open>The identity of a pod\<close>

lemma sharedEnv_pinned:
  "distinct (map fst (sharedEnv r aw tpl)) \<and> map_of (sharedEnv r aw tpl) ''AGENT_ID'' = Some (EnvValue (awName aw)) \<and>
   map_of (sharedEnv r aw tpl) ''USER_ID'' = Some (EnvValue (awUserID aw)) \<and> map_of (sharedEnv r aw tpl) ''TENANT_ID'' = Some (EnvValue (awTenantID aw)) \<and>
   map_of (sharedEnv r aw tpl) ''PARENT_ID'' = Some (EnvValue (awParentID aw)) \<and>
   (map_of (sharedEnv r aw tpl) ''CONSENT_REQUIRED'' = Some (EnvValue ''true'') \<longleftrightarrow> awConsentRequired aw)"
  by (cases "rcfFetchRetries r = []"; cases "rcfFetchRetryDelay r = []"; cases "awConsentRequired aw") (simp_all add: sharedEnv_def)

lemma sharedEnv_scopes: "tplOAuthScopes t1 = tplOAuthScopes t2 \<Longrightarrow> sharedEnv r aw t1 = sharedEnv r aw t2"
  by (simp add: sharedEnv_def)

text \<open>What an injector changes of the pod's head does not depend on its containers, and it only adds to the sidecar's environment.\<close>

definition identityEnv :: "IdentityInjector \<Rightarrow> AgentWorkload \<Rightarrow> envVar list" where
  "identityEnv ij aw = ctEnv (hd (podInit (ApplyIdentity ij aw
     \<lparr>podName = [], podLabels = [], podVolumes = [], podServiceAccount = [],
      podInit = [\<lparr>ctName = sidecarContainerName, ctImage = [], ctRestartAlways = True, ctEnv = [], ctMounts = [], ctResources = (None :: unit resourceReqs option)\<rparr>],
      podContainers = []\<rparr>)))"

lemmas identityEnv_simps = identityEnv_def onSidecar_def addEnv_def Let_def

lemma ApplyIdentity_env:
  assumes "podInit p = [c]" and "ctName c = sidecarContainerName"
  shows "\<exists>c'. podInit (ApplyIdentity ij aw p) = [c'] \<and> ctEnv c' = ctEnv c @ identityEnv ij aw"
  using assms by (cases ij) (simp_all add: identityEnv_simps)

lemma identityEnv_fresh:
  "distinct (map fst (identityEnv ij aw)) \<and> set (map fst (identityEnv ij aw)) \<inter> set (map fst (sharedEnv r aw tpl)) = {}"
proof -
  have "set (map fst (sharedEnv r aw tpl)) \<subseteq> set [''TENANT_ID'', ''USER_ID'', ''AGENT_TYPE'', ''AGENT_ID'', ''REGISTRY_URL'', ''IS_TOKEN_URL'',
      ''PARENT_ID'', ''ORCHESTRATOR_URL'', ''SPIFFE_FETCH_RETRIES'', ''SPIFFE_FETCH_RETRY_DELAY'', ''CONSENT_REQUIRED'', ''CONSENT_SCOPES'']" (is "_ \<subseteq> set ?ns")
    by (auto simp: sharedEnv_def split: if_splits)
  moreover have "distinct (map fst (identityEnv ij aw)) \<and> list_all (\<lambda>k. k \<notin> set ?ns) (map fst (identityEnv ij aw))"
    by (cases ij) (simp_all add: identityEnv_simps)
  ultimately show ?thesis by (auto simp: list_all_iff)
qed

lemma ApplyIdentity_head:
  assumes "podInit p' = podInit p" and "podLabels p' = podLabels p" and "podVolumes p' = podVolumes p" and "podServiceAccount p' = podServiceAccount p"
  shows "podInit (ApplyIdentity ij aw p') = podInit (ApplyIdentity ij aw p) \<and> podLabels (ApplyIdentity ij aw p') = podLabels (ApplyIdentity ij aw p) \<and>
    podVolumes (ApplyIdentity ij aw p') = podVolumes (ApplyIdentity ij aw p) \<and> podServiceAccount (ApplyIdentity ij aw p') = podServiceAccount (ApplyIdentity ij aw p)"
  using assms by (cases ij) (simp_all add: onSidecar_def Let_def)

lemma ApplyIdentity_labels:
  "k \<noteq> ''agent-platform.io/scope'' \<Longrightarrow> gget (podLabels (ApplyIdentity ij aw p)) k = gget (podLabels p) k"
  by (cases ij) (simp_all add: onSidecar_def Let_def gomap_simps)

lemma map_of_append_fresh: "k \<notin> set (map fst ys) \<Longrightarrow> map_of (xs @ ys) k = map_of xs k"
  by (simp add: map_add_def map_of_eq_None_iff [THEN iffD2] split: option.splits)

text \<open>
  The identity of a pod is the workload's, not the template's. In every pod that is built the sidecar, the only holder of the
  credential, is a single container whose environment has no name twice and carries the agent id, user, tenant and parent of the
  workload and the consent gate exactly when the workload requires consent; the labels carry the same identity; and two templates
  with the same OAuth scopes give the same sidecar, labels, volumes and service account whatever image, environment defaults or
  resources they declare, so that a template's \<open>envDefaults\<close> reach the agent container alone.
\<close>

theorem pod_identity_from_workload:
  assumes "buildPod Q r aw tpl = Some p"
  shows "(\<exists>c. podInit p = [c] \<and> distinct (map fst (ctEnv c)) \<and> map_of (ctEnv c) ''AGENT_ID'' = Some (EnvValue (awName aw)) \<and>
      map_of (ctEnv c) ''USER_ID'' = Some (EnvValue (awUserID aw)) \<and> map_of (ctEnv c) ''TENANT_ID'' = Some (EnvValue (awTenantID aw)) \<and>
      map_of (ctEnv c) ''PARENT_ID'' = Some (EnvValue (awParentID aw)) \<and>
      (map_of (ctEnv c) ''CONSENT_REQUIRED'' = Some (EnvValue ''true'') \<longleftrightarrow> awConsentRequired aw)) \<and>
    gget (podLabels p) ''agent-id'' = Some (awName aw) \<and> gget (podLabels p) ''user-id'' = Some (awUserID aw) \<and>
    gget (podLabels p) ''tenant-id'' = Some (awTenantID aw) \<and>
    (\<forall>tpl' p'. buildPod Q r aw tpl' = Some p' \<and> tplOAuthScopes tpl' = tplOAuthScopes tpl \<longrightarrow>
      podInit p' = podInit p \<and> podLabels p' = podLabels p \<and> podVolumes p' = podVolumes p \<and> podServiceAccount p' = podServiceAccount p)"
proof -
  obtain res where p: "p = ApplyIdentity (identityInjector r) aw (basePod r aw tpl res)"
    using assms by (auto simp: buildPod_def)
  let ?ext = "identityEnv (identityInjector r) aw"
  obtain c where c: "podInit p = [c]" "ctEnv c = sharedEnv r aw tpl @ ?ext"
    using ApplyIdentity_env [of "basePod r aw tpl res"] p by (fastforce simp: basePod_def)
  note fresh = identityEnv_fresh [of "identityInjector r" aw r tpl]
  have named: "map_of (ctEnv c) k = map_of (sharedEnv r aw tpl) k" if "k \<in> {''AGENT_ID'', ''USER_ID'', ''TENANT_ID'', ''PARENT_ID'', ''CONSENT_REQUIRED''}" for k
    unfolding c(2) by (rule map_of_append_fresh, use that in \<open>cases "identityInjector r"\<close>) (auto simp: identityEnv_simps)
  have "distinct (map fst (ctEnv c))" using c(2) fresh sharedEnv_pinned [of r aw tpl] by auto
  moreover have "podInit p' = podInit p \<and> podLabels p' = podLabels p \<and> podVolumes p' = podVolumes p \<and> podServiceAccount p' = podServiceAccount p"
    if b: "buildPod Q r aw tpl' = Some p'" "tplOAuthScopes tpl' = tplOAuthScopes tpl" for tpl' p'
  proof -
    obtain res' where p': "p' = ApplyIdentity (identityInjector r) aw (basePod r aw tpl' res')"
      using b(1) by (auto simp: buildPod_def)
    show ?thesis unfolding p p'
      by (rule ApplyIdentity_head) (simp_all add: basePod_def sharedEnv_scopes [OF b(2)])
  qed
  ultimately show ?thesis
    using c(1) named sharedEnv_pinned [of r aw tpl] by (auto simp: p ApplyIdentity_labels basePod_def)
qed

theorem pod_identity_from_workload_witness:
  "\<exists>p c. buildPod unaryQuantities plainConfig (crSpec deletingCR) (workerTemplate\<lparr>tplRuntime := (tplRuntime workerTemplate)\<lparr>rtEnvDefaults := [(''AGENT_ID'', ''forged'')]\<rparr>\<rparr>) = Some p \<and>
     podInit p = [c] \<and> map_of (ctEnv c) ''AGENT_ID'' = Some (EnvValue ''r'')"
proof -
  have "buildPod unaryQuantities plainConfig (crSpec deletingCR) (workerTemplate\<lparr>tplRuntime := (tplRuntime workerTemplate)\<lparr>rtEnvDefaults := [(''AGENT_ID'', ''forged'')]\<rparr>\<rparr>) \<noteq> None"
    by (simp add: buildPod_def podResources_def workerTemplate_def)
  then show ?thesis using pod_identity_from_workload by (fastforce simp: deletingCR_def)
qed

end
