(* ===== verification/Sidecar.thy ===== *)
theory Sidecar
  imports Agents TokenValidator
begin

text \<open>
  The agent sidecar (\<open>cmd/agent-sidecar\<close>): it registers its agent, runs the consent flow of a consent-gated agent
  against the identity server and serves tokens to the agent. The identity server, the attestation source, the clock and the
  registry are the \<open>outside\<close>, whose state is threaded through; everything between taking and releasing the mutex of
  the consent state is one step.
\<close>

section \<open>The outside\<close>

record credential =
  credAssertionType :: string
  credValue :: string

text \<open>
  An answer of the identity server: its status and body, and the body decoded as an authentication response
  (request id, lifetime, interval), as a token response (token, lifetime) and as an OAuth error, which is empty when the body is
  none.
\<close>

record isAnswer =
  iaStatus :: nat
  iaBody :: string
  iaAuth :: "(string \<times> int \<times> int) result"
  iaToken :: "(string \<times> int) result"
  iaError :: string

record 'e outside =
  oNow :: "'e \<Rightarrow> time \<times> 'e"
  oFetch :: "string \<Rightarrow> 'e \<Rightarrow> credential result \<times> 'e"
  oPost :: "string \<Rightarrow> (string, string) gomap \<Rightarrow> 'e \<Rightarrow> isAnswer result \<times> 'e"
  oRegister :: "string \<Rightarrow> registerReq \<Rightarrow> 'e \<Rightarrow> AgentRecord http result \<times> 'e"
  oPatch :: "string \<Rightarrow> string \<Rightarrow> string \<Rightarrow> 'e \<Rightarrow> unit http result \<times> 'e"
  oEvent :: "string \<Rightarrow> string \<Rightarrow> Event \<Rightarrow> 'e \<Rightarrow> Event http result \<times> 'e"

record sidecarConfig =
  cfAgentID :: string
  cfAgentType :: string
  cfTenantID :: string
  cfUserID :: string
  cfParentID :: string
  cfRegistryURL :: string
  cfISTokenURL :: string
  cfSocketPath :: string
  cfPlacement :: string
  cfConsentRequired :: bool
  cfConsentScopes :: string

definition validateConfig :: "sidecarConfig \<Rightarrow> sidecarConfig result" where
  "validateConfig cfg =
     (if cfRegistryURL cfg = [] \<or> cfISTokenURL cfg = [] then Inl (Err ''REGISTRY_URL and IS_TOKEN_URL are required'')
      else if cfAgentType cfg = [] then Inl (Err ''AGENT_TYPE is required (it is the OAuth client_id used to mint tokens)'')
      else if cfPlacement cfg = [] \<or> cfPlacement cfg = PlacementK8s then
        Inr (if cfSocketPath cfg = [] then cfg\<lparr>cfSocketPath := ''unix:///spiffe-workload-api/spire-agent.sock''\<rparr> else cfg)
      else if cfPlacement cfg = PlacementRemote then
        (if cfAgentID cfg = [] then Inl (Err ''AGENT_PLACEMENT=remote requires AGENT_ID (from the org-scoped registration API)'') else Inr cfg)
      else Inl (Err (''unknown AGENT_PLACEMENT '' @ cfPlacement cfg)))"

section \<open>Durations\<close>

text \<open>
  Points in time are nanoseconds; durations are 64 bits wide: a product wraps around and the distance of two points is cut off at
  the ends of the range. Whole seconds are truncated towards zero.
\<close>

definition second :: int where "second = 1000000000"

definition wrap64 :: "int \<Rightarrow> int" where
  "wrap64 n = (n + 2 ^ 63) mod 2 ^ 64 - 2 ^ 63"

definition durationOf :: "int \<Rightarrow> int" where
  "durationOf n = wrap64 (n * second)"

definition untilDur :: "time \<Rightarrow> time \<Rightarrow> int" where
  "untilDur t now = max (- (2 ^ 63)) (min (2 ^ 63 - 1) (t - now))"

definition wholeSeconds :: "int \<Rightarrow> int" where
  "wholeSeconds d = (if d < 0 then - ((- d) div second) else d div second)"

text \<open>A cached token is used while it has more than thirty seconds left; the answer tells the whole seconds left.\<close>

definition freshToken :: "'e outside \<Rightarrow> string \<Rightarrow> time \<Rightarrow> 'e \<Rightarrow> bool \<times> 'e" where
  "freshToken Ou tok expiry e =
     (if tok = [] then (False, e) else case oNow Ou e of (t, e1) \<Rightarrow> (untilDur expiry t > 30 * second, e1))"

definition tokenLeft :: "'e outside \<Rightarrow> time \<Rightarrow> 'e \<Rightarrow> int \<times> 'e" where
  "tokenLeft Ou expiry e = (case oNow Ou e of (t, e1) \<Rightarrow> (wholeSeconds (untilDur expiry t), e1))"

section \<open>The consent flow\<close>

datatype consentErr = ConsentPending | ConsentDenied | ConsentExpired | OtherErr string

fun consentMsg :: "consentErr \<Rightarrow> string" where
  "consentMsg ConsentPending = ''user consent pending''"
| "consentMsg ConsentDenied = ''user consent denied''"
| "consentMsg ConsentExpired = ''consent request expired before the user responded''"
| "consentMsg (OtherErr m) = m"

record cibaTokenSource =
  csToken :: string
  csExpiry :: time
  csAuthReqID :: string
  csReqExpiry :: time
  csInterval :: int
  csNextPoll :: time
  csDenied :: bool

definition newCibaTokenSource :: cibaTokenSource where
  "newCibaTokenSource = \<lparr>csToken = [], csExpiry = 0, csAuthReqID = [], csReqExpiry = 0, csInterval = 0, csNextPoll = 0, csDenied = False\<rparr>"

definition hasSuffix :: "string \<Rightarrow> string \<Rightarrow> bool" where
  "hasSuffix s suf = (length suf \<le> length s \<and> drop (length s - length suf) s = suf)"

definition cibaAuthURL :: "string \<Rightarrow> string" where
  "cibaAuthURL tokenURL =
     (if hasSuffix tokenURL ''/token'' then take (length tokenURL - 6) tokenURL @ ''/ext/ciba/auth''
      else rev (dropWhile (\<lambda>c. c = CHR ''/'') (rev tokenURL)) @ ''/ext/ciba/auth'')"

definition cibaScopes :: "sidecarConfig \<Rightarrow> string" where
  "cibaScopes cfg = (if cfConsentScopes cfg = [] then ''openid'' else cfConsentScopes cfg)"

definition covered :: "sidecarConfig \<Rightarrow> string \<Rightarrow> bool" where
  "covered cfg requested = (FirstUncoveredScope (Some (splitNonEmpty (cibaScopes cfg))) (Some (splitNonEmpty requested)) = [])"

definition bindingMessage :: "sidecarConfig \<Rightarrow> string" where
  "bindingMessage cfg = take 50 (''spawn'' @ filter is_alnum (cfAgentType cfg))"

definition authForm :: "sidecarConfig \<Rightarrow> credential \<Rightarrow> (string, string) gomap" where
  "authForm cfg cred =
     [(''client_id'', cfAgentType cfg), (''client_assertion_type'', credAssertionType cred), (''client_assertion'', credValue cred),
      (''scope'', cibaScopes cfg), (''login_hint'', ''user:'' @ cfUserID cfg), (''binding_message'', bindingMessage cfg)]"

definition initiate ::
  "'e outside \<Rightarrow> sidecarConfig \<Rightarrow> cibaTokenSource \<Rightarrow> 'e \<Rightarrow> consentErr option \<times> cibaTokenSource \<times> 'e" where
  "initiate Ou cfg cs e =
     (case oFetch Ou (cfISTokenURL cfg) e of
        (Inl er, e1) \<Rightarrow> (Some (OtherErr (''fetch credential: '' @ errString er)), cs, e1)
      | (Inr cred, e1) \<Rightarrow>
          (case oPost Ou (cibaAuthURL (cfISTokenURL cfg)) (authForm cfg cred) e1 of
             (Inl er, e2) \<Rightarrow> (Some (OtherErr (errString er)), cs, e2)
           | (Inr a, e2) \<Rightarrow>
               if iaStatus a \<noteq> 200
               then (Some (OtherErr (''backchannel auth request: IS returned '' @ show_nat (iaStatus a) @ '': '' @ iaBody a)), cs, e2)
               else (case iaAuth a of
                       Inl er \<Rightarrow> (Some (OtherErr (''decode backchannel auth response: '' @ errString er)), cs, e2)
                     | Inr (rid, expiresIn, interval) \<Rightarrow>
                         (case oNow Ou e2 of (t1, e3) \<Rightarrow>
                            (case oNow Ou e3 of (t2, e4) \<Rightarrow>
                               (None, cs\<lparr>csAuthReqID := rid, csReqExpiry := t1 + durationOf expiresIn,
                                  csInterval := durationOf (if interval \<le> 0 then 5 else interval), csNextPoll := t2, csDenied := False\<rparr>, e4))))))"

definition redeemForm :: "sidecarConfig \<Rightarrow> cibaTokenSource \<Rightarrow> credential \<Rightarrow> (string, string) gomap" where
  "redeemForm cfg cs cred =
     [(''grant_type'', ''urn:openid:params:grant-type:ciba''), (''auth_req_id'', csAuthReqID cs), (''client_id'', cfAgentType cfg),
      (''client_assertion_type'', credAssertionType cred), (''client_assertion'', credValue cred)]"

definition pollOnce ::
  "'e outside \<Rightarrow> sidecarConfig \<Rightarrow> cibaTokenSource \<Rightarrow> 'e \<Rightarrow> consentErr option \<times> cibaTokenSource \<times> 'e" where
  "pollOnce Ou cfg cs e =
     (case oFetch Ou (cfISTokenURL cfg) e of
        (Inl er, e1) \<Rightarrow> (Some (OtherErr (''fetch credential: '' @ errString er)), cs, e1)
      | (Inr cred, e1) \<Rightarrow>
          (case oPost Ou (cfISTokenURL cfg) (redeemForm cfg cs cred) e1 of
             (Inl er, e2) \<Rightarrow> (Some (OtherErr (errString er)), cs, e2)
           | (Inr a, e2) \<Rightarrow>
               if iaStatus a = 200
               then (case iaToken a of
                       Inl er \<Rightarrow> (Some (OtherErr (''decode CIBA token response: '' @ errString er)), cs, e2)
                     | Inr (tok, n) \<Rightarrow>
                         (case oNow Ou e2 of (t, e3) \<Rightarrow>
                            (None, cs\<lparr>csToken := tok, csExpiry := t + durationOf (if n = 0 then 3600 else n), csAuthReqID := []\<rparr>, e3)))
               else if iaError a = ''authorization_pending''
               then (case oNow Ou e2 of (t, e3) \<Rightarrow> (Some ConsentPending, cs\<lparr>csNextPoll := t + csInterval cs\<rparr>, e3))
               else if iaError a = ''slow_down''
               then (let iv = wrap64 (csInterval cs + 5 * second)
                     in case oNow Ou e2 of (t, e3) \<Rightarrow> (Some ConsentPending, cs\<lparr>csInterval := iv, csNextPoll := t + iv\<rparr>, e3))
               else if iaError a = ''access_denied'' then (Some ConsentDenied, cs\<lparr>csAuthReqID := [], csDenied := True\<rparr>, e2)
               else if iaError a = ''expired_token'' then (Some ConsentExpired, cs\<lparr>csAuthReqID := []\<rparr>, e2)
               else (Some (OtherErr (''CIBA token poll: IS returned '' @ show_nat (iaStatus a) @ '': '' @ iaBody a)), cs, e2)))"

text \<open>
  \<open>waitForGrant\<close> takes the mutex once to open the request and once for every poll; between two polls it sleeps. \<open>Verdict\<close>
  is what it returns; the goroutine that called it then reports it, after which it is \<open>Reported\<close>.
\<close>

datatype waiter = WaitStart | WaitPoll | Verdict "consentErr option" | Reported

fun waitStep ::
  "'e outside \<Rightarrow> sidecarConfig \<Rightarrow> waiter \<Rightarrow> cibaTokenSource \<Rightarrow> 'e \<Rightarrow> waiter \<times> cibaTokenSource \<times> 'e" where
  "waitStep Ou cfg WaitStart cs e =
     (if csAuthReqID cs = [] \<and> csToken cs = [] \<and> \<not> csDenied cs
      then (case initiate Ou cfg cs e of
              (Some er, cs1, e1) \<Rightarrow> (Verdict (Some er), cs1, e1)
            | (None, cs1, e1) \<Rightarrow> (WaitPoll, cs1, e1))
      else (WaitPoll, cs, e))"
| "waitStep Ou cfg WaitPoll cs e =
     (if csDenied cs then (Verdict (Some ConsentDenied), cs, e)
      else if csToken cs \<noteq> [] then (Verdict None, cs, e)
      else if csAuthReqID cs = [] then (Verdict (Some ConsentExpired), cs, e)
      else (case pollOnce Ou cfg cs e of
              (None, cs1, e1) \<Rightarrow> (Verdict None, cs1, e1)
            | (Some ConsentPending, cs1, e1) \<Rightarrow> (WaitPoll, cs1, e1)
            | (Some er, cs1, e1) \<Rightarrow> (Verdict (Some er), cs1, e1)))"
| "waitStep Ou cfg (Verdict v) cs e = (Verdict v, cs, e)"
| "waitStep Ou cfg Reported cs e = (Reported, cs, e)"

definition staleRequest :: "'e outside \<Rightarrow> cibaTokenSource \<Rightarrow> 'e \<Rightarrow> bool \<times> 'e" where
  "staleRequest Ou cs e = (if csAuthReqID cs = [] then (True, e) else case oNow Ou e of (t, e1) \<Rightarrow> (t > csReqExpiry cs, e1))"

definition cibaRenew ::
  "'e outside \<Rightarrow> sidecarConfig \<Rightarrow> cibaTokenSource \<Rightarrow> 'e \<Rightarrow> (consentErr + string \<times> int) \<times> cibaTokenSource \<times> 'e" where
  "cibaRenew Ou cfg cs e =
     (case oNow Ou e of (t, e1) \<Rightarrow>
        if t < csNextPoll cs then (Inl ConsentPending, cs, e1)
        else (case pollOnce Ou cfg cs e1 of
                (Some er, cs1, e2) \<Rightarrow> (Inl (if er = ConsentExpired then ConsentPending else er), cs1, e2)
              | (None, cs1, e2) \<Rightarrow> (case tokenLeft Ou (csExpiry cs1) e2 of (n, e3) \<Rightarrow> (Inr (csToken cs1, n), cs1, e3))))"

definition cibaGet ::
  "'e outside \<Rightarrow> sidecarConfig \<Rightarrow> cibaTokenSource \<Rightarrow> 'e \<Rightarrow> (consentErr + string \<times> int) \<times> cibaTokenSource \<times> 'e" where
  "cibaGet Ou cfg cs e =
     (if csDenied cs then (Inl ConsentDenied, cs, e)
      else (case freshToken Ou (csToken cs) (csExpiry cs) e of
              (True, e1) \<Rightarrow> (case tokenLeft Ou (csExpiry cs) e1 of (n, e2) \<Rightarrow> (Inr (csToken cs, n), cs, e2))
            | (False, e1) \<Rightarrow>
                (case staleRequest Ou cs e1 of
                   (True, e2) \<Rightarrow>
                     (case initiate Ou cfg cs e2 of
                        (Some er, cs1, e3) \<Rightarrow> (Inl er, cs1, e3)
                      | (None, cs1, e3) \<Rightarrow> cibaRenew Ou cfg cs1 e3)
                 | (False, e2) \<Rightarrow> cibaRenew Ou cfg cs e2)))"

section \<open>Plain tokens\<close>

text \<open>The shape the three token requests share: fetch a credential, post a form, take the token and its lifetime.\<close>

definition requestToken ::
  "'e outside \<Rightarrow> sidecarConfig \<Rightarrow> (credential \<Rightarrow> (string, string) gomap) \<Rightarrow> 'e \<Rightarrow> (string \<times> int) result \<times> 'e" where
  "requestToken Ou cfg form e =
     (case oFetch Ou (cfISTokenURL cfg) e of
        (Inl er, e1) \<Rightarrow> (Inl (Err (''fetch credential: '' @ errString er)), e1)
      | (Inr cred, e1) \<Rightarrow>
          (case oPost Ou (cfISTokenURL cfg) (form cred) e1 of
             (Inl er, e2) \<Rightarrow> (Inl er, e2)
           | (Inr a, e2) \<Rightarrow>
               if iaStatus a \<noteq> 200 then (Inl (Err (''IS returned '' @ show_nat (iaStatus a) @ '': '' @ iaBody a)), e2)
               else (case iaToken a of
                       Inl er \<Rightarrow> (Inl (Err (''decode token response: '' @ errString er)), e2)
                     | Inr (tok, n) \<Rightarrow> (Inr (tok, if n = 0 then 3600 else n), e2))))"

definition clientForm :: "sidecarConfig \<Rightarrow> string \<Rightarrow> string \<Rightarrow> credential \<Rightarrow> (string, string) gomap" where
  "clientForm cfg scope audience cred =
     [(''grant_type'', ''client_credentials''), (''client_id'', cfAgentType cfg), (''client_assertion_type'', credAssertionType cred),
      (''client_assertion'', credValue cred), (''scope'', scope)] @ (if audience \<noteq> [] then [(''audience'', audience)] else [])"

definition exchangeForm :: "sidecarConfig \<Rightarrow> string \<Rightarrow> string \<Rightarrow> string \<Rightarrow> credential \<Rightarrow> (string, string) gomap" where
  "exchangeForm cfg subjectToken audience scope cred =
     [(''grant_type'', ''urn:ietf:params:oauth:grant-type:token-exchange''), (''subject_token'', subjectToken),
      (''subject_token_type'', ''urn:ietf:params:oauth:token-type:access_token''), (''actor_token'', credValue cred),
      (''actor_token_type'', ''urn:ietf:params:oauth:token-type:jwt''), (''client_id'', cfAgentType cfg),
      (''client_assertion_type'', credAssertionType cred), (''client_assertion'', credValue cred)] @
     (if audience \<noteq> [] then [(''audience'', audience)] else []) @ (if scope \<noteq> [] then [(''scope'', scope)] else [])"

definition exchangeToken ::
  "'e outside \<Rightarrow> sidecarConfig \<Rightarrow> string \<Rightarrow> string \<Rightarrow> string \<Rightarrow> 'e \<Rightarrow> (string \<times> int) result \<times> 'e" where
  "exchangeToken Ou cfg subjectToken audience scope = requestToken Ou cfg (exchangeForm cfg subjectToken audience scope)"

definition clientCredentialsToken ::
  "'e outside \<Rightarrow> sidecarConfig \<Rightarrow> string \<Rightarrow> string \<Rightarrow> 'e \<Rightarrow> (string \<times> int) result \<times> 'e" where
  "clientCredentialsToken Ou cfg scope audience = requestToken Ou cfg (clientForm cfg scope audience)"

record cachedToken =
  tcToken :: string
  tcExpiry :: time

definition tokenCacheGet ::
  "'e outside \<Rightarrow> sidecarConfig \<Rightarrow> string \<Rightarrow> cachedToken \<Rightarrow> 'e \<Rightarrow> (string \<times> int) result \<times> cachedToken \<times> 'e" where
  "tokenCacheGet Ou cfg scope tc e =
     (case freshToken Ou (tcToken tc) (tcExpiry tc) e of
        (True, e1) \<Rightarrow> (case tokenLeft Ou (tcExpiry tc) e1 of (n, e2) \<Rightarrow> (Inr (tcToken tc, n), tc, e2))
      | (False, e1) \<Rightarrow>
          (case requestToken Ou cfg (clientForm cfg scope []) e1 of
             (Inl er, e2) \<Rightarrow> (Inl er, tc, e2)
           | (Inr (tok, n), e2) \<Rightarrow>
               (case oNow Ou e2 of (t, e3) \<Rightarrow> (Inr (tok, n), \<lparr>tcToken = tok, tcExpiry = t + durationOf n\<rparr>, e3))))"

section \<open>The bearer of event posts\<close>

text \<open>\<open>expClaim\<close> reads the expiry, in seconds, from the middle part of a token; an absent or unreadable claim is \<^term>\<open>None\<close>.\<close>

definition svidRefreshAt :: "(string \<Rightarrow> int option) \<Rightarrow> string \<Rightarrow> time \<Rightarrow> time" where
  "svidRefreshAt expClaim token now =
     (let fallback = now + 60 * second; parts = split_on CHR ''.'' token
      in if length parts \<noteq> 3 then fallback
         else case expClaim (parts ! 1) of
             None \<Rightarrow> fallback
           | Some x \<Rightarrow> if x = 0 then fallback
               else let refresh = x * second - 30 * second in if refresh \<le> now then fallback else refresh)"

definition svidGet :: "'e outside \<Rightarrow> (string \<Rightarrow> int option) \<Rightarrow> cachedToken \<Rightarrow> 'e \<Rightarrow> string \<times> cachedToken \<times> 'e" where
  "svidGet Ou expClaim b e =
     (case (if tcToken b = [] then (False, e) else case oNow Ou e of (t, e1) \<Rightarrow> (t < tcExpiry b, e1)) of
        (True, e1) \<Rightarrow> (tcToken b, b, e1)
      | (False, e1) \<Rightarrow>
          (case oFetch Ou ''registry'' e1 of
             (Inl er, e2) \<Rightarrow> ([], b, e2)
           | (Inr cred, e2) \<Rightarrow>
               (case oNow Ou e2 of (t, e3) \<Rightarrow>
                  (credValue cred, \<lparr>tcToken = credValue cred, tcExpiry = svidRefreshAt expClaim (credValue cred) t\<rparr>, e3))))"

section \<open>The sidecar process\<close>

record 'e sidecar =
  scCiba :: "cibaTokenSource option"
  scCache :: cachedToken
  scBearer :: cachedToken
  scFailOnce :: bool
  scWaiter :: waiter
  scOut :: 'e

text \<open>Event posts are best effort; an SVID that cannot be fetched leaves the post without a bearer.\<close>

definition postEvent :: "'e outside \<Rightarrow> (string \<Rightarrow> int option) \<Rightarrow> string \<Rightarrow> Event \<Rightarrow> 'e sidecar \<Rightarrow> 'e sidecar" where
  "postEvent Ou ec oid ev sc =
     (case svidGet Ou ec (scBearer sc) (scOut sc) of (tok, b, e1) \<Rightarrow> sc\<lparr>scBearer := b, scOut := snd (oEvent Ou tok oid ev e1)\<rparr>)"

definition updateStatus :: "'e outside \<Rightarrow> string \<Rightarrow> string \<Rightarrow> 'e \<Rightarrow> go_error option \<times> 'e" where
  "updateStatus Ou oid status e =
     (case oFetch Ou ''registry'' e of
        (Inl er, e1) \<Rightarrow> (Some er, e1)
      | (Inr cred, e1) \<Rightarrow>
          (case oPatch Ou (credValue cred) oid status e1 of
             (Inl er, e2) \<Rightarrow> (Some er, e2)
           | (Inr a, e2) \<Rightarrow>
               (if http_status a \<noteq> 200 then Some (Err (''registry PATCH '' @ oid @ '' -> '' @ status)) else None, e2)))"

definition setStatusBestEffort :: "'e outside \<Rightarrow> string \<Rightarrow> string \<Rightarrow> 'e sidecar \<Rightarrow> 'e sidecar" where
  "setStatusBestEffort Ou oid status sc = sc\<lparr>scOut := snd (updateStatus Ou oid status (scOut sc))\<rparr>"

definition selfRegister :: "'e outside \<Rightarrow> sidecarConfig \<Rightarrow> string \<Rightarrow> 'e \<Rightarrow> string result \<times> 'e" where
  "selfRegister Ou cfg svid e =
     (case oRegister Ou svid \<lparr>rqAgentType = cfAgentType cfg, rqTenantID = cfTenantID cfg, rqUserID = cfUserID cfg, rqParentID = cfParentID cfg\<rparr> e of
        (Inl er, e1) \<Rightarrow> (Inl er, e1)
      | (Inr (HttpOK n rec), e1) \<Rightarrow> (if n \<noteq> 201 then Inl (Err (''registry returned '' @ show_nat n)) else Inr (agAgentID rec), e1)
      | (Inr (HttpError n m), e1) \<Rightarrow> (Inl (Err (''registry returned '' @ show_nat n @ '': '' @ m)), e1))"

definition failConsent ::
  "'e outside \<Rightarrow> (string \<Rightarrow> int option) \<Rightarrow> sidecarConfig \<Rightarrow> string \<Rightarrow> string \<Rightarrow> 'e sidecar \<Rightarrow> 'e sidecar" where
  "failConsent Ou ec cfg oid reason sc =
     (if scFailOnce sc then sc
      else let ev = newEvent SourceAgent ''consent_denied'' (ObjPayload [(''agentId'', oid), (''childType'', cfAgentType cfg), (''reason'', reason)]);
               sc1 = postEvent Ou ec oid ev (sc\<lparr>scFailOnce := True\<rparr>);
               sc2 = (if cfParentID cfg \<noteq> [] then postEvent Ou ec (cfParentID cfg) ev sc1 else sc1)
           in setStatusBestEffort Ou oid ''failed'' sc2)"

definition consentEvent :: "sidecarConfig \<Rightarrow> string \<Rightarrow> string \<Rightarrow> Event" where
  "consentEvent cfg oid ty =
     newEvent SourceAgent ty (ObjPayload [(''agentId'', oid), (''userId'', cfUserID cfg), (''scopes'', cibaScopes cfg)])"

text \<open>What the goroutine does with the verdict.\<close>

fun reportVerdict ::
  "'e outside \<Rightarrow> (string \<Rightarrow> int option) \<Rightarrow> sidecarConfig \<Rightarrow> string \<Rightarrow> consentErr option \<Rightarrow> 'e sidecar \<Rightarrow> 'e sidecar" where
  "reportVerdict Ou ec cfg oid (Some er) sc = failConsent Ou ec cfg oid (consentMsg er) sc"
| "reportVerdict Ou ec cfg oid None sc = postEvent Ou ec oid (consentEvent cfg oid ''consent_granted'') (setStatusBestEffort Ou oid ''active'' sc)"

definition waiterTurn ::
  "'e outside \<Rightarrow> (string \<Rightarrow> int option) \<Rightarrow> sidecarConfig \<Rightarrow> string \<Rightarrow> 'e sidecar \<Rightarrow> 'e sidecar" where
  "waiterTurn Ou ec cfg oid sc =
     (case (scCiba sc, scWaiter sc) of
        (None, _) \<Rightarrow> sc
      | (Some cs, Verdict v) \<Rightarrow> reportVerdict Ou ec cfg oid v (sc\<lparr>scWaiter := Reported\<rparr>)
      | (Some cs, wt) \<Rightarrow>
          (case waitStep Ou cfg wt cs (scOut sc) of (wt', cs', e') \<Rightarrow> sc\<lparr>scWaiter := wt', scCiba := Some cs', scOut := e'\<rparr>))"

text \<open>The start: registration, the first events and, for a consent-gated agent, the consent state; then requests are served.\<close>

definition sidecarRun ::
  "'e outside \<Rightarrow> (string \<Rightarrow> int option) \<Rightarrow> sidecarConfig \<Rightarrow> 'e \<Rightarrow> (string \<times> 'e sidecar) result" where
  "sidecarRun Ou ec cfg e =
     (case oFetch Ou ''registry'' e of
        (Inl er, e1) \<Rightarrow> Inl (Err (''fetch registry credential: '' @ errString er))
      | (Inr cred, e1) \<Rightarrow>
          (case selfRegister Ou cfg (credValue cred) e1 of
             (Inl er, e2) \<Rightarrow> Inl (Err (''self-register: '' @ errString er))
           | (Inr oid, e2) \<Rightarrow>
               let sc0 = \<lparr>scCiba = None, scCache = \<lparr>tcToken = [], tcExpiry = 0\<rparr>, scBearer = \<lparr>tcToken = [], tcExpiry = 0\<rparr>, scFailOnce = False,
                          scWaiter = WaitStart, scOut = e2\<rparr>;
                   sc1 = postEvent Ou ec oid (newEvent SourceAgent ''started'' (ObjPayload [(''agentId'', oid)])) sc0;
                   sc2 = postEvent Ou ec oid (newEvent SourceAgent ''svid_fetched'' (ObjPayload [(''result'', ''ok'')])) sc1
               in if \<not> cfConsentRequired cfg then Inr (oid, sc2)
                  else if cfUserID cfg = [] then Inl (Err ''consent required but no USER_ID: nobody to ask'')
                  else Inr (oid, postEvent Ou ec oid (consentEvent cfg oid ''consent_requested'')
                         (setStatusBestEffort Ou oid ''awaiting-consent'' (sc2\<lparr>scCiba := Some newCibaTokenSource\<rparr>)))))"

record tokenRequest =
  trGet :: bool
  trScope :: string
  trSubject :: string
  trAudience :: string

definition tokenAnswer ::
  "'e outside \<Rightarrow> (string \<Rightarrow> int option) \<Rightarrow> string \<Rightarrow> tokenRequest \<Rightarrow> string \<Rightarrow> (string \<times> int) result \<Rightarrow> 'e sidecar \<Rightarrow>
   (string \<times> int) http \<times> 'e sidecar" where
  "tokenAnswer Ou ec oid rq scope r sc =
     (case r of
        Inl er \<Rightarrow> (HttpError 500 ''token exchange failed'', sc)
      | Inr (tok, n) \<Rightarrow>
          (HttpOK 200 (tok, n),
           postEvent Ou ec oid (newEvent SourceAgent (if trSubject rq \<noteq> [] then ''token_exchanged'' else ''token_issued'')
             (TokenPayload scope (trAudience rq) n tok)) sc))"

fun consentAnswer ::
  "'e outside \<Rightarrow> (string \<Rightarrow> int option) \<Rightarrow> sidecarConfig \<Rightarrow> string \<Rightarrow> tokenRequest \<Rightarrow> consentErr + string \<times> int \<Rightarrow> 'e sidecar \<Rightarrow>
   (string \<times> int) http \<times> 'e sidecar" where
  "consentAnswer Ou ec cfg oid rq (Inl ConsentPending) sc = (HttpError 503 ''awaiting user consent'', sc)"
| "consentAnswer Ou ec cfg oid rq (Inl ConsentDenied) sc =
     (HttpError 403 ''user denied consent'', failConsent Ou ec cfg oid ''user denied consent'' sc)"
| "consentAnswer Ou ec cfg oid rq (Inl er) sc = tokenAnswer Ou ec oid rq (trScope rq) (Inl (Err (consentMsg er))) sc"
| "consentAnswer Ou ec cfg oid rq (Inr t) sc = tokenAnswer Ou ec oid rq (trScope rq) (Inr t) sc"

definition handleToken ::
  "'e outside \<Rightarrow> (string \<Rightarrow> int option) \<Rightarrow> sidecarConfig \<Rightarrow> string \<Rightarrow> tokenRequest \<Rightarrow> 'e sidecar \<Rightarrow> (string \<times> int) http \<times> 'e sidecar" where
  "handleToken Ou ec cfg oid rq sc =
     (if \<not> trGet rq then (HttpError 405 ''method not allowed'', sc)
      else if trSubject rq \<noteq> [] then
        (case exchangeToken Ou cfg (trSubject rq) (trAudience rq) (trScope rq) (scOut sc) of
           (r, e1) \<Rightarrow> tokenAnswer Ou ec oid rq (trScope rq) r (sc\<lparr>scOut := e1\<rparr>))
      else if trAudience rq \<noteq> [] then
        (case clientCredentialsToken Ou cfg (trScope rq) (trAudience rq) (scOut sc) of
           (r, e1) \<Rightarrow> tokenAnswer Ou ec oid rq (trScope rq) r (sc\<lparr>scOut := e1\<rparr>))
      else case scCiba sc of
          Some cs \<Rightarrow>
            if \<not> covered cfg (trScope rq) then (HttpError 403 (''scope '' @ quoted (trScope rq) @ '' exceeds the user-consented set '' @ quoted (cibaScopes cfg)), sc)
            else (case cibaGet Ou cfg cs (scOut sc) of (r, cs1, e1) \<Rightarrow> consentAnswer Ou ec cfg oid rq r (sc\<lparr>scCiba := Some cs1, scOut := e1\<rparr>))
        | None \<Rightarrow>
            (let scope = (if trScope rq = [] then ''sample-api-a:read'' else trScope rq)
             in case tokenCacheGet Ou cfg scope (scCache sc) (scOut sc) of
                  (r, tc, e1) \<Rightarrow> tokenAnswer Ou ec oid rq scope r (sc\<lparr>scCache := tc, scOut := e1\<rparr>)))"

text \<open>The proxy forwards an event of the agent with the bearer of the sidecar and hands the answer back.\<close>

definition eventProxy ::
  "'e outside \<Rightarrow> (string \<Rightarrow> int option) \<Rightarrow> string \<Rightarrow> Event \<Rightarrow> 'e sidecar \<Rightarrow> Event http \<times> 'e sidecar" where
  "eventProxy Ou ec oid ev sc =
     (case svidGet Ou ec (scBearer sc) (scOut sc) of (tok, b, e1) \<Rightarrow>
        (case oEvent Ou tok oid ev e1 of
           (Inl er, e2) \<Rightarrow> (HttpError 502 ''forward to registry'', sc\<lparr>scBearer := b, scOut := e2\<rparr>)
         | (Inr a, e2) \<Rightarrow> (a, sc\<lparr>scBearer := b, scOut := e2\<rparr>)))"

text \<open>
  Every interleaving of token requests, event posts, turns of the waiting goroutine and what others do to the outside.
\<close>

inductive sidecar_step ::
  "'e outside \<Rightarrow> (string \<Rightarrow> int option) \<Rightarrow> sidecarConfig \<Rightarrow> ('e \<Rightarrow> 'e \<Rightarrow> bool) \<Rightarrow> string \<Rightarrow> 'e sidecar \<Rightarrow> 'e sidecar \<Rightarrow> bool"
  for Ou ec cfg others oid where
  token: "sidecar_step Ou ec cfg others oid sc (snd (handleToken Ou ec cfg oid rq sc))"
| event: "sidecar_step Ou ec cfg others oid sc (snd (eventProxy Ou ec tgt ev sc))"
| turn: "sidecar_step Ou ec cfg others oid sc (waiterTurn Ou ec cfg oid sc)"
| outside: "others (scOut sc) e' \<Longrightarrow> sidecar_step Ou ec cfg others oid sc (sc\<lparr>scOut := e'\<rparr>)"

section \<open>What the outside keeps\<close>

text \<open>A fact about the outside that no call and no step of others takes back.\<close>

definition outsideKeeps :: "'e outside \<Rightarrow> ('e \<Rightarrow> 'e \<Rightarrow> bool) \<Rightarrow> ('e \<Rightarrow> bool) \<Rightarrow> bool" where
  "outsideKeeps Ou others P = (\<forall>e. P e \<longrightarrow>
     P (snd (oNow Ou e)) \<and> (\<forall>a. P (snd (oFetch Ou a e))) \<and> (\<forall>u f. P (snd (oPost Ou u f e))) \<and> (\<forall>v r. P (snd (oRegister Ou v r e))) \<and>
     (\<forall>v i st. P (snd (oPatch Ou v i st e))) \<and> (\<forall>v i ev. P (snd (oEvent Ou v i ev e))) \<and> (\<forall>e'. others e e' \<longrightarrow> P e'))"

lemma keeps_calls:
  assumes "outsideKeeps Ou others P" and "P e"
  shows "oNow Ou e = (t, e1) \<Longrightarrow> P e1" and "oFetch Ou a e = (c, e1) \<Longrightarrow> P e1" and "oPost Ou u f e = (r, e1) \<Longrightarrow> P e1"
    and "oEvent Ou v i ev e = (q, e1) \<Longrightarrow> P e1" and "oPatch Ou v i st e = (x, e1) \<Longrightarrow> P e1" and "oRegister Ou v rq e = (y, e1) \<Longrightarrow> P e1"
    and "P (snd (oEvent Ou v i ev e))" and "others e e' \<Longrightarrow> P e'"
proof -
  note K = assms(1) [unfolded outsideKeeps_def, rule_format, OF assms(2)]
  show "oNow Ou e = (t, e1) \<Longrightarrow> P e1" "oFetch Ou a e = (c, e1) \<Longrightarrow> P e1" "oPost Ou u f e = (r, e1) \<Longrightarrow> P e1"
    "oEvent Ou v i ev e = (q, e1) \<Longrightarrow> P e1" "oPatch Ou v i st e = (x, e1) \<Longrightarrow> P e1" "oRegister Ou v rq e = (y, e1) \<Longrightarrow> P e1"
    "P (snd (oEvent Ou v i ev e))" "others e e' \<Longrightarrow> P e'"
    using K by (metis snd_conv)+
qed

lemma initiate_keeps:
  assumes K: "outsideKeeps Ou others P" and "P e" and "initiate Ou cfg cs e = (r, cs', e')"
  shows "P e'"
  using assms(2,3) by (auto simp: initiate_def split: prod.splits sum.splits if_splits)
    (blast dest: keeps_calls(1-3) [OF K])+

lemma pollOnce_keeps:
  assumes K: "outsideKeeps Ou others P" and "P e" and "pollOnce Ou cfg cs e = (r, cs', e')"
  shows "P e'"
  using assms(2,3) by (auto simp: pollOnce_def Let_def split: prod.splits sum.splits if_splits)
    (blast intro: keeps_calls(1-6) [OF K, rotated])+

lemma tokenLeft_keeps:
  assumes K: "outsideKeeps Ou others P" and "P e" and "tokenLeft Ou x e = (n, e')"
  shows "P e'"
  using assms(2,3) by (auto simp: tokenLeft_def split: prod.splits)
    (blast intro: keeps_calls(1-6) [OF K, rotated])+

lemma freshToken_keeps:
  assumes K: "outsideKeeps Ou others P" and "P e" and "freshToken Ou t x e = (n, e')"
  shows "P e'"
  using assms(2,3) by (auto simp: freshToken_def split: prod.splits if_splits)
    (blast intro: keeps_calls(1-6) [OF K, rotated])+

lemma staleRequest_keeps:
  assumes K: "outsideKeeps Ou others P" and "P e" and "staleRequest Ou cs e = (n, e')"
  shows "P e'"
  using assms(2,3) by (auto simp: staleRequest_def split: prod.splits if_splits)
    (blast intro: keeps_calls(1-6) [OF K, rotated])+

lemma svidGet_keeps:
  assumes K: "outsideKeeps Ou others P" and "P e" and "svidGet Ou ec b e = (t, b', e')"
  shows "P e'"
  using assms(2,3) by (auto simp: svidGet_def split: prod.splits if_splits sum.splits bool.splits)
    (blast intro: keeps_calls(1-6) [OF K, rotated])+

lemma updateStatus_keeps:
  assumes K: "outsideKeeps Ou others P" and "P e" and "updateStatus Ou i st e = (r, e')"
  shows "P e'"
  using assms(2,3) by (auto simp: updateStatus_def split: prod.splits if_splits sum.splits)
    (blast intro: keeps_calls(1-6) [OF K, rotated])+

lemma requestToken_keeps:
  assumes K: "outsideKeeps Ou others P" and "P e" and "requestToken Ou cfg f e = (r, e')"
  shows "P e'"
  using assms(2,3) by (auto simp: requestToken_def split: prod.splits if_splits sum.splits)
    (blast intro: keeps_calls(1-6) [OF K, rotated])+

lemma tokenCacheGet_keeps:
  assumes K: "outsideKeeps Ou others P" and "P e" and "tokenCacheGet Ou cfg scope tc e = (r, tc', e')"
  shows "P e'"
  using assms(2,3) by (auto simp: tokenCacheGet_def split: prod.splits sum.splits bool.splits)
    (blast intro: keeps_calls(1-6) [OF K, rotated]
    requestToken_keeps [OF K, rotated] freshToken_keeps [OF K, rotated] tokenLeft_keeps [OF K, rotated])+

lemma postEvent_keeps:
  assumes K: "outsideKeeps Ou others P" and "P (scOut sc)"
  shows "P (scOut (postEvent Ou ec i ev sc))"
  using assms(2) by (auto simp: postEvent_def split: prod.splits intro: keeps_calls(7) [OF K] svidGet_keeps [OF K, rotated])

lemma setStatus_keeps: "outsideKeeps Ou others P \<Longrightarrow> P (scOut sc) \<Longrightarrow> P (scOut (setStatusBestEffort Ou i st sc))"
  using updateStatus_keeps [of Ou others P "scOut sc" i st] by (cases "updateStatus Ou i st (scOut sc)") (auto simp: setStatusBestEffort_def)

lemma failConsent_keeps: "outsideKeeps Ou others P \<Longrightarrow> P (scOut sc) \<Longrightarrow> P (scOut (failConsent Ou ec cfg i reason sc))"
  unfolding failConsent_def Let_def
  by (cases "scFailOnce sc") (simp_all add: setStatus_keeps [where others = others] postEvent_keeps [where others = others])

lemmas outside_keeps = postEvent_keeps setStatus_keeps failConsent_keeps

text \<open>Reports do not touch the consent state.\<close>

lemma report_ciba [simp]:
  "scCiba (postEvent Ou ec i ev sc) = scCiba sc" "scCiba (setStatusBestEffort Ou i st sc) = scCiba sc"
  "scCiba (failConsent Ou ec cfg i reason sc) = scCiba sc"
  by (auto simp: postEvent_def setStatusBestEffort_def failConsent_def Let_def split: prod.splits)

end
