(* ===== verification/SidecarConsent.thy ===== *)
theory SidecarConsent
  imports Sidecar
begin

text \<open>
  What consent-gated agents rely on: in every interleaving of token requests and the waiting goroutine a plain token was granted by
  the user for the consented scopes, and a denial is final.
\<close>

section \<open>Consent\<close>

text \<open>
  What the CIBA specification promises of the identity server, for one user and one set of scopes: a request id that the backchannel
  endpoint returns for the login hint of the user and these scopes has been \<open>asked\<close> of the user, and a token that the token
  endpoint returns for such a request id has been \<open>granted\<close>; neither is taken back.
\<close>

definition cibaLaw ::
  "'e outside \<Rightarrow> sidecarConfig \<Rightarrow> ('e \<Rightarrow> 'e \<Rightarrow> bool) \<Rightarrow> (string \<Rightarrow> 'e \<Rightarrow> bool) \<Rightarrow> (string \<Rightarrow> 'e \<Rightarrow> bool) \<Rightarrow> bool" where
  "cibaLaw Ou cfg others asked granted =
     ((\<forall>rid. outsideKeeps Ou others (asked rid)) \<and> (\<forall>t. outsideKeeps Ou others (granted t)) \<and>
      (\<forall>f e a e' rid x y. oPost Ou (cibaAuthURL (cfISTokenURL cfg)) f e = (Inr a, e') \<and> iaStatus a = 200 \<and> iaAuth a = Inr (rid, x, y) \<and>
         gget f ''login_hint'' = Some (''user:'' @ cfUserID cfg) \<and> gget f ''scope'' = Some (cibaScopes cfg) \<longrightarrow> asked rid e') \<and>
      (\<forall>f e a e' rid t n. oPost Ou (cfISTokenURL cfg) f e = (Inr a, e') \<and> iaStatus a = 200 \<and> iaToken a = Inr (t, n) \<and>
         gget f ''grant_type'' = Some ''urn:openid:params:grant-type:ciba'' \<and> gget f ''auth_req_id'' = Some rid \<and> asked rid e \<longrightarrow> granted t e'))"

definition consentInv :: "(string \<Rightarrow> 'e \<Rightarrow> bool) \<Rightarrow> (string \<Rightarrow> 'e \<Rightarrow> bool) \<Rightarrow> cibaTokenSource \<Rightarrow> 'e \<Rightarrow> bool" where
  "consentInv asked granted cs e =
     ((csAuthReqID cs \<noteq> [] \<longrightarrow> asked (csAuthReqID cs) e) \<and> (csToken cs \<noteq> [] \<longrightarrow> granted (csToken cs) e) \<and> (csDenied cs \<longrightarrow> csAuthReqID cs = []))"

lemma consentInv_keeps:
  assumes "cibaLaw Ou cfg others asked granted" and "consentInv asked granted cs e"
    and "\<And>P. outsideKeeps Ou others P \<Longrightarrow> P e \<Longrightarrow> P e'"
  shows "consentInv asked granted cs e'"
  using assms by (auto simp: consentInv_def cibaLaw_def)

lemma cibaLaw_asked:
  assumes "cibaLaw Ou cfg others asked granted" and "oPost Ou (cibaAuthURL (cfISTokenURL cfg)) (authForm cfg cred) e = (Inr a, e')"
    and "iaStatus a = 200" and "iaAuth a = Inr (rid, x, y)"
  shows "asked rid e'"
proof -
  have "gget (authForm cfg cred) ''login_hint'' = Some (''user:'' @ cfUserID cfg) \<and> gget (authForm cfg cred) ''scope'' = Some (cibaScopes cfg)"
    by (simp add: authForm_def)
  then show ?thesis using assms unfolding cibaLaw_def by blast
qed

lemma cibaLaw_granted:
  assumes "cibaLaw Ou cfg others asked granted" and "oPost Ou (cfISTokenURL cfg) (redeemForm cfg cs cred) e = (Inr a, e')"
    and "iaStatus a = 200" and "iaToken a = Inr (t, n)" and "asked (csAuthReqID cs) e"
  shows "granted t e'"
proof -
  have "gget (redeemForm cfg cs cred) ''grant_type'' = Some ''urn:openid:params:grant-type:ciba'' \<and>
      gget (redeemForm cfg cs cred) ''auth_req_id'' = Some (csAuthReqID cs)"
    by (simp add: redeemForm_def)
  then show ?thesis using assms unfolding cibaLaw_def by blast
qed

lemma initiate_inv:
  assumes L: "cibaLaw Ou cfg others asked granted" and "consentInv asked granted cs e" and "\<not> csDenied cs"
    and i: "initiate Ou cfg cs e = (r, cs', e')"
  shows "consentInv asked granted cs' e' \<and> (r = None \<longrightarrow> asked (csAuthReqID cs') e') \<and> \<not> csDenied cs' \<and> csToken cs' = csToken cs"
proof -
  have K: "consentInv asked granted cs e'" by (rule consentInv_keeps [OF L assms(2)]) (rule initiate_keeps [OF _ _ i])
  have keep: "outsideKeeps Ou others (asked x)" for x using L by (simp add: cibaLaw_def)
  have "asked (csAuthReqID cs') e'" if "r = None"
  proof -
    obtain cred e1 a e2 x y t1 e3 t2 where
        "oPost Ou (cibaAuthURL (cfISTokenURL cfg)) (authForm cfg cred) e1 = (Inr a, e2)" "iaStatus a = 200" "iaAuth a = Inr (csAuthReqID cs', x, y)"
        "oNow Ou e2 = (t1, e3)" "oNow Ou e3 = (t2, e')"
      using i \<open>r = None\<close> by (auto simp: initiate_def split: prod.splits sum.splits if_splits)
    moreover from this have "asked (csAuthReqID cs') e2" using cibaLaw_asked [OF L] by blast
    ultimately show ?thesis using keeps_calls(1) [OF keep] by blast
  qed
  moreover have "csToken cs' = csToken cs \<and> csDenied cs' = False \<and> (r \<noteq> None \<longrightarrow> cs' = cs)"
    using i assms(3) by (auto simp: initiate_def split: prod.splits sum.splits if_splits)
  ultimately show ?thesis using K by (cases r) (auto simp: consentInv_def)
qed

text \<open>A request that cannot be opened fails for reasons of its own, never as pending, denied or expired.\<close>

lemma initiate_err: "initiate Ou cfg cs e = (Some er, cs', e') \<Longrightarrow> \<exists>m. er = OtherErr m"
  by (auto simp: initiate_def split: prod.splits sum.splits if_splits)

lemma pollOnce_inv:
  assumes L: "cibaLaw Ou cfg others asked granted" and "consentInv asked granted cs e" and "\<not> csDenied cs" and "asked (csAuthReqID cs) e"
    and i: "pollOnce Ou cfg cs e = (r, cs', e')"
  shows "consentInv asked granted cs' e' \<and> (r = None \<longrightarrow> granted (csToken cs') e') \<and> (csDenied cs' \<longleftrightarrow> r = Some ConsentDenied)"
proof -
  have K: "consentInv asked granted cs e'" by (rule consentInv_keeps [OF L assms(2)]) (rule pollOnce_keeps [OF _ _ i])
  have keep: "outsideKeeps Ou others (granted x)" "outsideKeeps Ou others (asked x)" for x using L by (simp_all add: cibaLaw_def)
  show ?thesis
  proof (cases r)
    case None
    then obtain cred e1 a e2 t n where c: "oFetch Ou (cfISTokenURL cfg) e = (Inr cred, e1)"
        "oPost Ou (cfISTokenURL cfg) (redeemForm cfg cs cred) e1 = (Inr a, e2)" "iaStatus a = 200" "iaToken a = Inr (csToken cs', n)"
        "oNow Ou e2 = (t, e')" "csAuthReqID cs' = []" "csDenied cs' = csDenied cs"
      using i by (auto simp: pollOnce_def Let_def split: prod.splits sum.splits if_splits)
    then have "granted (csToken cs') e2" using cibaLaw_granted [OF L] keeps_calls(2) [OF keep(2) assms(4)] by blast
    then have "granted (csToken cs') e'" using keeps_calls(1) [OF keep(1)] c(5) by blast
    then show ?thesis using c None assms(3) by (simp add: consentInv_def)
  next
    case (Some er)
    then have "csToken cs' = csToken cs \<and> (csAuthReqID cs' = csAuthReqID cs \<or> csAuthReqID cs' = []) \<and>
        (csDenied cs' \<longleftrightarrow> er = ConsentDenied) \<and> (csDenied cs' \<longrightarrow> csAuthReqID cs' = [])"
      using i assms(3) by (auto simp: pollOnce_def Let_def split: prod.splits sum.splits if_splits)
    then show ?thesis using K Some by (auto simp: consentInv_def)
  qed
qed

lemma cibaRenew_inv:
  assumes L: "cibaLaw Ou cfg others asked granted" and I: "consentInv asked granted cs e" and d: "\<not> csDenied cs" and a: "asked (csAuthReqID cs) e"
    and g: "cibaRenew Ou cfg cs e = (r, cs', e')"
  shows "consentInv asked granted cs' e' \<and> (\<forall>t n. r = Inr (t, n) \<longrightarrow> granted t e') \<and> (csDenied cs' \<longleftrightarrow> r = Inl ConsentDenied)"
proof -
  obtain t e1 where n: "oNow Ou e = (t, e1)" by force
  have keep: "outsideKeeps Ou others (granted x)" "outsideKeeps Ou others (asked x)" for x using L by (simp_all add: cibaLaw_def)
  have I1: "consentInv asked granted cs e1" by (rule consentInv_keeps [OF L I]) (rule keeps_calls(1) [OF _ _ n])
  have a1: "asked (csAuthReqID cs) e1" by (rule keeps_calls(1) [OF keep(2) a n])
  obtain r1 cs1 e2 where p: "pollOnce Ou cfg cs e1 = (r1, cs1, e2)" by (metis prod_cases3)
  note P = pollOnce_inv [OF L I1 d a1 p]
  obtain m e3 where t: "tokenLeft Ou (csExpiry cs1) e2 = (m, e3)" by force
  have "consentInv asked granted cs1 e3" by (rule consentInv_keeps [OF L conjunct1 [OF P]]) (rule tokenLeft_keeps [OF _ _ t])
  moreover have "r1 = None \<Longrightarrow> granted (csToken cs1) e3" using P tokenLeft_keeps [OF keep(1) _ t] by blast
  ultimately show ?thesis
    using g n p t P d I1 by (auto simp: cibaRenew_def split: if_splits option.splits)
qed

lemma cibaGet_inv:
  assumes L: "cibaLaw Ou cfg others asked granted" and I: "consentInv asked granted cs e" and g: "cibaGet Ou cfg cs e = (r, cs', e')"
  shows "consentInv asked granted cs' e' \<and> (\<forall>t n. r = Inr (t, n) \<longrightarrow> granted t e') \<and> (csDenied cs' \<longleftrightarrow> r = Inl ConsentDenied)"
proof (cases "csDenied cs")
  case True
  then show ?thesis using g I by (auto simp: cibaGet_def)
next
  case d: False
  have keep: "outsideKeeps Ou others (granted x)" "outsideKeeps Ou others (asked x)" for x using L by (simp_all add: cibaLaw_def)
  obtain f e1 where f: "freshToken Ou (csToken cs) (csExpiry cs) e = (f, e1)" by force
  have I1: "consentInv asked granted cs e1" by (rule consentInv_keeps [OF L I]) (rule freshToken_keeps [OF _ _ f])
  show ?thesis
  proof (cases f)
    case True
    obtain m e2 where t: "tokenLeft Ou (csExpiry cs) e1 = (m, e2)" by force
    have "consentInv asked granted cs e2" by (rule consentInv_keeps [OF L I1]) (rule tokenLeft_keeps [OF _ _ t])
    moreover have "csToken cs \<noteq> []" using f True by (auto simp: freshToken_def split: if_splits)
    ultimately show ?thesis using g f t True d by (auto simp: cibaGet_def consentInv_def)
  next
    case False
    obtain st e2 where q: "staleRequest Ou cs e1 = (st, e2)" by force
    have I2: "consentInv asked granted cs e2" by (rule consentInv_keeps [OF L I1]) (rule staleRequest_keeps [OF _ _ q])
    obtain r1 cs1 e3 where i: "initiate Ou cfg cs e2 = (r1, cs1, e3)" by (metis prod_cases3)
    note J = initiate_inv [OF L I2 d i]
    show ?thesis
    proof (cases st)
      case True
      then have "cibaGet Ou cfg cs e = (case r1 of Some er \<Rightarrow> (Inl er, cs1, e3) | None \<Rightarrow> cibaRenew Ou cfg cs1 e3)"
        using f q i d \<open>\<not> f\<close> by (simp add: cibaGet_def split: option.splits)
      then show ?thesis using g J cibaRenew_inv [OF L, of cs1 e3 r cs' e'] initiate_err [of Ou cfg cs e2 _ cs1 e3] i by (auto split: option.splits)
    next
      case False
      then have "csAuthReqID cs \<noteq> []" using q by (auto simp: staleRequest_def split: if_splits)
      then show ?thesis using g f q d \<open>\<not> f\<close> False I2 cibaRenew_inv [OF L I2 d] by (auto simp: cibaGet_def consentInv_def)
    qed
  qed
qed

lemma waitStep_inv:
  assumes L: "cibaLaw Ou cfg others asked granted" and I: "consentInv asked granted cs e" and w: "waitStep Ou cfg wt cs e = (wt', cs', e')"
  shows "consentInv asked granted cs' e' \<and> (csDenied cs \<longrightarrow> cs' = cs)"
proof (cases wt)
  case WaitStart
  obtain r cs1 e1 where i: "initiate Ou cfg cs e = (r, cs1, e1)" by (metis prod_cases3)
  show ?thesis
  proof (cases "csAuthReqID cs = [] \<and> csToken cs = [] \<and> \<not> csDenied cs")
    case True
    then show ?thesis using w i WaitStart initiate_inv [OF L I _ i] by (auto split: option.splits)
  qed (use w I WaitStart in auto)
next
  case WaitPoll
  obtain r cs1 e1 where i: "pollOnce Ou cfg cs e = (r, cs1, e1)" by (metis prod_cases3)
  show ?thesis
  proof (cases "\<not> csDenied cs \<and> csToken cs = [] \<and> csAuthReqID cs \<noteq> []")
    case True
    then have "asked (csAuthReqID cs) e" using I by (simp add: consentInv_def)
    moreover have "cs' = cs1 \<and> e' = e1" using w i WaitPoll True by (auto split: option.splits consentErr.splits)
    ultimately show ?thesis using True pollOnce_inv [OF L I _ _ i] by blast
  qed (use w I WaitPoll in \<open>auto split: if_splits\<close>)
qed (use w I in auto)

section \<open>Every interleaving\<close>

lemma tokenAnswer_ciba [simp]: "scCiba (snd (tokenAnswer Ou ec oid rq scope r sc)) = scCiba sc"
  by (auto simp: tokenAnswer_def split: sum.splits)

lemma tokenAnswer_keeps: "outsideKeeps Ou others P \<Longrightarrow> P (scOut sc) \<Longrightarrow> P (scOut (snd (tokenAnswer Ou ec oid rq scope r sc)))"
  by (auto simp: tokenAnswer_def postEvent_keeps [where others = others] split: sum.splits)

text \<open>The consent state of a process satisfies the invariant, and a denial is there to stay.\<close>

definition procInv :: "(string \<Rightarrow> 'e \<Rightarrow> bool) \<Rightarrow> (string \<Rightarrow> 'e \<Rightarrow> bool) \<Rightarrow> 'e sidecar \<Rightarrow> bool" where
  "procInv asked granted sc = (\<exists>cs. scCiba sc = Some cs \<and> consentInv asked granted cs (scOut sc))"

lemma procInv_keeps:
  assumes "cibaLaw Ou cfg others asked granted" and "procInv asked granted sc" and "scCiba sc' = scCiba sc"
    and "\<And>P. outsideKeeps Ou others P \<Longrightarrow> P (scOut sc) \<Longrightarrow> P (scOut sc')"
  shows "procInv asked granted sc'"
  using assms consentInv_keeps [OF assms(1)] unfolding procInv_def by metis

lemma consentAnswer_ciba [simp]: "scCiba (snd (consentAnswer Ou ec cfg oid rq r sc)) = scCiba sc"
  by (cases "(Ou, ec, cfg, oid, rq, r, sc)" rule: consentAnswer.cases) auto

lemma consentAnswer_keeps:
  assumes K: "outsideKeeps Ou others P" and "P (scOut sc)"
  shows "P (scOut (snd (consentAnswer Ou ec cfg oid rq r sc)))"
  using assms(2) failConsent_keeps [OF K, of sc] tokenAnswer_keeps [OF K, of sc]
  by (cases "(Ou, ec, cfg, oid, rq, r, sc)" rule: consentAnswer.cases) auto

lemma consentAnswer_ok: "fst (consentAnswer Ou ec cfg oid rq r sc) = HttpOK n (t, m) \<Longrightarrow> r = Inr (t, m)"
  by (cases "(Ou, ec, cfg, oid, rq, r, sc)" rule: consentAnswer.cases) (auto simp: tokenAnswer_def)

lemma handleToken_plain:
  assumes "scCiba sc = Some cs" and "trGet rq" and "trSubject rq = []" and "trAudience rq = []"
  shows "handleToken Ou ec cfg oid rq sc =
    (if covered cfg (trScope rq)
     then case cibaGet Ou cfg cs (scOut sc) of (r, cs1, e1) \<Rightarrow> consentAnswer Ou ec cfg oid rq r (sc\<lparr>scCiba := Some cs1, scOut := e1\<rparr>)
     else (HttpError 403 (''scope '' @ quoted (trScope rq) @ '' exceeds the user-consented set '' @ quoted (cibaScopes cfg)), sc))"
  using assms by (simp add: handleToken_def)

lemma plain_token:
  assumes L: "cibaLaw Ou cfg others asked granted" and s: "scCiba sc = Some cs" and I: "consentInv asked granted cs (scOut sc)"
    and rq: "trGet rq" "trSubject rq = []" "trAudience rq = []" and h: "handleToken Ou ec cfg oid rq sc = (a, sc')"
  shows "procInv asked granted sc' \<and> (csDenied cs \<longrightarrow> scCiba sc' = scCiba sc) \<and>
    (\<forall>n t m. a = HttpOK n (t, m) \<longrightarrow> covered cfg (trScope rq) \<and> granted t (scOut sc') \<and> (\<exists>cs1. scCiba sc' = Some cs1 \<and> \<not> csDenied cs1))"
proof (cases "covered cfg (trScope rq)")
  case True
  obtain r cs1 e1 where c: "cibaGet Ou cfg cs (scOut sc) = (r, cs1, e1)" by (metis prod_cases3)
  note G = cibaGet_inv [OF L I c]
  let ?sc1 = "sc\<lparr>scCiba := Some cs1, scOut := e1\<rparr>"
  have H: "consentAnswer Ou ec cfg oid rq r ?sc1 = (a, sc')" using handleToken_plain [OF s rq] h True c by simp
  have P1: "procInv asked granted ?sc1" using G by (simp add: procInv_def)
  have keep: "outsideKeeps Ou others (granted x)" for x using L by (simp add: cibaLaw_def)
  have "scCiba sc' = Some cs1" using H consentAnswer_ciba [of Ou ec cfg oid rq r ?sc1] by simp
  moreover have "procInv asked granted sc'"
    by (rule procInv_keeps [OF L P1]) (use H consentAnswer_ciba consentAnswer_keeps in \<open>metis snd_conv\<close>)+
  moreover have "csDenied cs \<Longrightarrow> cs1 = cs" using c by (simp add: cibaGet_def)
  moreover have "granted t (scOut sc') \<and> \<not> csDenied cs1" if "a = HttpOK n (t, m)" for n t m
  proof -
    have "r = Inr (t, m)" using consentAnswer_ok [of Ou ec cfg oid rq r ?sc1 n t m] H that by simp
    then show ?thesis using G consentAnswer_keeps [OF keep, of t ?sc1 ec cfg oid rq r] H by auto
  qed
  ultimately show ?thesis using True s by auto
next
  case False
  then show ?thesis using handleToken_plain [OF s rq] h I s by (auto simp: procInv_def)
qed

text \<open>Requests that are not plain leave the consent state alone.\<close>

lemma other_token:
  assumes "scCiba sc \<noteq> None" and "\<not> (trGet rq \<and> trSubject rq = [] \<and> trAudience rq = [])" and h: "handleToken Ou ec cfg oid rq sc = (a, sc')"
  shows "scCiba sc' = scCiba sc \<and> (outsideKeeps Ou others P \<longrightarrow> P (scOut sc) \<longrightarrow> P (scOut sc'))"
proof -
  obtain q1 e1 q2 e2 where t: "exchangeToken Ou cfg (trSubject rq) (trAudience rq) (trScope rq) (scOut sc) = (q1, e1)"
      "clientCredentialsToken Ou cfg (trScope rq) (trAudience rq) (scOut sc) = (q2, e2)" by (metis prod.exhaust)
  have "sc' = snd (handleToken Ou ec cfg oid rq sc)" using h by simp
  then have "sc' = sc \<or> sc' = snd (tokenAnswer Ou ec oid rq (trScope rq) q1 (sc\<lparr>scOut := e1\<rparr>)) \<or>
      sc' = snd (tokenAnswer Ou ec oid rq (trScope rq) q2 (sc\<lparr>scOut := e2\<rparr>))"
    using assms(1,2) t by (auto simp: handleToken_def)
  moreover have "P e1 \<and> P e2" if "outsideKeeps Ou others P" "P (scOut sc)"
    using t requestToken_keeps [OF that] by (auto simp: exchangeToken_def clientCredentialsToken_def)
  ultimately show ?thesis using tokenAnswer_keeps [of Ou others P] tokenAnswer_ciba by fastforce
qed

lemma step_inv:
  assumes L: "cibaLaw Ou cfg others asked granted" and I: "procInv asked granted sc" and st: "sidecar_step Ou ec cfg others oid sc sc'"
  shows "procInv asked granted sc'"
  using st
proof cases
  case (token rq)
  obtain a where h: "handleToken Ou ec cfg oid rq sc = (a, sc')" using token by (metis prod.collapse)
  obtain cs where cs: "scCiba sc = Some cs" "consentInv asked granted cs (scOut sc)" using I by (auto simp: procInv_def)
  show ?thesis
  proof (cases "trGet rq \<and> trSubject rq = [] \<and> trAudience rq = []")
    case True
    then show ?thesis using plain_token [OF L cs _ _ _ h] by blast
  next
    case False
    then show ?thesis using procInv_keeps [OF L I] other_token [OF _ False h] cs(1) by (metis option.distinct(1))
  qed
next
  case (event tgt ev)
  have "scCiba sc' = scCiba sc" using event by (auto simp: eventProxy_def split: prod.splits sum.splits)
  moreover have "P (scOut sc')" if K: "outsideKeeps Ou others P" and "P (scOut sc)" for P
    using event that(2) by (auto simp: eventProxy_def split: prod.splits sum.splits) (blast dest: svidGet_keeps [OF K] keeps_calls(4) [OF K])+
  ultimately show ?thesis by (rule procInv_keeps [OF L I])
next
  case turn
  obtain cs where cs: "scCiba sc = Some cs" "consentInv asked granted cs (scOut sc)" using I by (auto simp: procInv_def)
  show ?thesis
  proof (cases "scWaiter sc")
    case (Verdict v)
    show ?thesis
      by (rule procInv_keeps [OF L I]) (use turn Verdict cs in \<open>cases v; simp add: waiterTurn_def outside_keeps [where others = others]\<close>)+
  qed (use turn cs waitStep_inv [OF L cs(2)] in \<open>auto simp: waiterTurn_def procInv_def simp del: waitStep.simps split: prod.splits\<close>)
next
  case (outside e')
  show ?thesis by (rule procInv_keeps [OF L I]) (use outside keeps_calls(8) in auto)
qed

lemma run_inv:
  assumes "cfConsentRequired cfg" and "sidecarRun Ou ec cfg e = Inr (oid, sc)"
  shows "scCiba sc = Some newCibaTokenSource \<and> procInv asked granted sc"
proof -
  have "scCiba sc = Some newCibaTokenSource"
    using assms by (auto simp: sidecarRun_def Let_def split: prod.splits sum.splits if_splits)
  then show ?thesis by (simp add: procInv_def consentInv_def newCibaTokenSource_def)
qed

lemma reach_inv:
  assumes "cibaLaw Ou cfg others asked granted" and "cfConsentRequired cfg" and "sidecarRun Ou ec cfg e = Inr (oid, sc0)"
    and "(sidecar_step Ou ec cfg others oid)\<^sup>*\<^sup>* sc0 sc"
  shows "procInv asked granted sc"
  using assms(4) by (induction rule: rtranclp_induct) (use run_inv [OF assms(2,3)] step_inv [OF assms(1)] in blast)+

lemma covered_iff: "covered cfg requested \<longleftrightarrow> set (splitNonEmpty requested) \<subseteq> set (splitNonEmpty (cibaScopes cfg))"
proof -
  have "\<not> (\<exists>pre post. splitNonEmpty requested = pre @ [] # post)" using splitNonEmpty_words [of requested] by (metis in_set_conv_decomp)
  then show ?thesis by (auto simp: covered_def FirstUncoveredScope_def firstMissing_empty_iff)
qed

text \<open>
  C28: a consent-gated agent only gets tokens its user granted. Take any state that a consent-gated sidecar reaches after its start,
  by any interleaving of token requests, event posts, turns of the waiting goroutine and steps of others: when a plain token
  request (no subject token, no audience) is answered with a token, every scope of the request lies in the consented set, the user
  was asked for that set and granted the token, and the user has not denied.
\<close>

theorem consent_token_granted:
  assumes "cibaLaw Ou cfg others asked granted" and "cfConsentRequired cfg" and "sidecarRun Ou ec cfg e = Inr (oid, sc0)"
    and "(sidecar_step Ou ec cfg others oid)\<^sup>*\<^sup>* sc0 sc"
    and "trSubject rq = []" and "trAudience rq = []" and "handleToken Ou ec cfg oid rq sc = (HttpOK n (t, left), sc')"
  shows "set (splitNonEmpty (trScope rq)) \<subseteq> set (splitNonEmpty (cibaScopes cfg)) \<and> granted t (scOut sc') \<and>
    (\<exists>cs. scCiba sc' = Some cs \<and> \<not> csDenied cs)"
proof -
  have "trGet rq" using assms(7) by (auto simp: handleToken_def split: if_splits)
  moreover obtain cs where "scCiba sc = Some cs" "consentInv asked granted cs (scOut sc)"
    using reach_inv [OF assms(1-4)] by (auto simp: procInv_def)
  ultimately show ?thesis using plain_token [OF assms(1) _ _ _ assms(5,6,7)] covered_iff by blast
qed

text \<open>A scripted outside: the identity server answers from a list and records what it answered, the registry records its calls.\<close>

record demoOut =
  dClock :: int
  dScript :: "isAnswer list"
  dAsked :: "string list"
  dGranted :: "string list"
  dPatches :: "(string \<times> string) list"
  dEvents :: "(string \<times> Event) list"

definition demoPost :: "string \<Rightarrow> (string, string) gomap \<Rightarrow> demoOut \<Rightarrow> isAnswer result \<times> demoOut" where
  "demoPost u f e = (case dScript e of
       [] \<Rightarrow> (Inl (Err ''connection refused''), e)
     | a # as \<Rightarrow> (Inr a, e\<lparr>dScript := as, dAsked := (case iaAuth a of Inl _ \<Rightarrow> dAsked e | Inr (rid, _) \<Rightarrow> rid # dAsked e),
          dGranted := (case iaToken a of Inl _ \<Rightarrow> dGranted e | Inr (t, _) \<Rightarrow> t # dGranted e)\<rparr>))"

definition demoOutside :: "demoOut outside" where
  "demoOutside =
     \<lparr>oNow = (\<lambda>e. (dClock e, e\<lparr>dClock := dClock e + 1\<rparr>)), oFetch = (\<lambda>a e. (Inr \<lparr>credAssertionType = ''jwt'', credValue = ''svid''\<rparr>, e)),
      oPost = demoPost, oRegister = (\<lambda>v r e. (Inr (HttpOK 201 (lineAgent ''w1'' [])), e)),
      oPatch = (\<lambda>v i st e. (Inr (HttpOK 200 ()), e\<lparr>dPatches := dPatches e @ [(i, st)]\<rparr>)),
      oEvent = (\<lambda>v i ev e. (Inr (HttpOK 201 ev), e\<lparr>dEvents := dEvents e @ [(i, ev)]\<rparr>))\<rparr>"

lemma demo_law: "cibaLaw demoOutside cfg (=) (\<lambda>r e. r \<in> set (dAsked e)) (\<lambda>t e. t \<in> set (dGranted e))"
  by (auto simp: cibaLaw_def outsideKeeps_def demoOutside_def demoPost_def split: list.splits sum.splits prod.splits)

definition noAnswer :: isAnswer where
  "noAnswer = \<lparr>iaStatus = 400, iaBody = [], iaAuth = Inl (Err []), iaToken = Inl (Err []), iaError = []\<rparr>"

definition asks :: "string \<Rightarrow> isAnswer" where "asks rid = noAnswer\<lparr>iaStatus := 200, iaAuth := Inr (rid, 120, 5)\<rparr>"

definition grants :: "string \<Rightarrow> isAnswer" where "grants t = noAnswer\<lparr>iaStatus := 200, iaToken := Inr (t, 300)\<rparr>"

definition demoStart :: "isAnswer list \<Rightarrow> demoOut" where
  "demoStart script = \<lparr>dClock = 0, dScript = script, dAsked = [], dGranted = [], dPatches = [], dEvents = []\<rparr>"

definition gatedConfig :: sidecarConfig where
  "gatedConfig = \<lparr>cfAgentID = ''w1'', cfAgentType = ''worker'', cfTenantID = [], cfUserID = ''alice'', cfParentID = [], cfRegistryURL = ''http://registry'',
     cfISTokenURL = ''http://is/token'', cfSocketPath = [], cfPlacement = [], cfConsentRequired = True, cfConsentScopes = ''read''\<rparr>"

definition plainRequest :: tokenRequest where
  "plainRequest = \<lparr>trGet = True, trScope = ''read'', trSubject = [], trAudience = []\<rparr>"

theorem consent_token_granted_witness:
  "\<exists>sc0 sc' n left. sidecarRun demoOutside (\<lambda>_. None) gatedConfig (demoStart [asks ''r1'', grants ''tok'']) = Inr (''w1'', sc0) \<and>
     handleToken demoOutside (\<lambda>_. None) gatedConfig ''w1'' plainRequest sc0 = (HttpOK n (''tok'', left), sc') \<and> ''tok'' \<in> set (dGranted (scOut sc'))"
proof -
  have "case sidecarRun demoOutside (\<lambda>_. None) gatedConfig (demoStart [asks ''r1'', grants ''tok'']) of
      Inl er \<Rightarrow> False
    | Inr (oid, sc0) \<Rightarrow> oid = ''w1'' \<and> (case fst (handleToken demoOutside (\<lambda>_. None) gatedConfig ''w1'' plainRequest sc0) of HttpOK n (t, m) \<Rightarrow> t = ''tok'' | _ \<Rightarrow> False)"
    by code_simp
  then obtain sc0 n left sc' where r: "sidecarRun demoOutside (\<lambda>_. None) gatedConfig (demoStart [asks ''r1'', grants ''tok'']) = Inr (''w1'', sc0)"
      and h: "handleToken demoOutside (\<lambda>_. None) gatedConfig ''w1'' plainRequest sc0 = (HttpOK n (''tok'', left), sc')"
    by (auto split: sum.splits prod.splits http.splits) (metis prod.collapse)
  have g: "cfConsentRequired gatedConfig" "trSubject plainRequest = []" "trAudience plainRequest = []"
    by (simp_all add: gatedConfig_def plainRequest_def)
  show ?thesis using r h consent_token_granted [OF demo_law g(1) r rtranclp.rtrancl_refl g(2,3) h] by blast
qed

lemma step_denied:
  assumes st: "sidecar_step Ou ec cfg others oid sc sc'" and cs: "scCiba sc = Some cs" and d: "csDenied cs"
  shows "scCiba sc' = Some cs"
  using st
proof cases
  case (token rq)
  obtain a where h: "handleToken Ou ec cfg oid rq sc = (a, sc')" using token by (metis prod.collapse)
  show ?thesis
  proof (cases "trGet rq \<and> trSubject rq = [] \<and> trAudience rq = []")
    case True
    then show ?thesis using handleToken_plain [OF cs] h cs d by (auto simp: cibaGet_def split: if_splits)
  next
    case False
    then show ?thesis using other_token [OF _ False h] cs by simp
  qed
next
  case (event tgt ev)
  then show ?thesis using cs by (auto simp: eventProxy_def split: prod.splits sum.splits)
next
  case turn
  show ?thesis
  proof (cases "scWaiter sc")
    case (Verdict v)
    then show ?thesis using turn cs by (cases v) (simp_all add: waiterTurn_def)
  qed (use turn cs d in \<open>simp_all add: waiterTurn_def\<close>)
qed (use cs in simp)

text \<open>
  C29: a denial is final. Once the user has denied, whatever happens afterwards the consent state of the sidecar never changes again,
  every plain token request is refused with 403 and asks the identity server for nothing, and the first one has the agent marked
  failed.
\<close>

theorem denial_is_final:
  assumes "scCiba sc = Some cs" and "csDenied cs" and "(sidecar_step Ou ec cfg others oid)\<^sup>*\<^sup>* sc sc1"
    and "trGet rq" and "trSubject rq = []" and "trAudience rq = []" and "handleToken Ou ec cfg oid rq sc1 = (a, sc2)"
  shows "scCiba sc1 = Some cs \<and> (\<exists>m. a = HttpError 403 m) \<and>
    (if covered cfg (trScope rq) then sc2 = failConsent Ou ec cfg oid ''user denied consent'' sc1 else sc2 = sc1)"
proof -
  have cs: "scCiba sc1 = Some cs"
    using assms(3,1) by (induction rule: rtranclp_induct) (use step_denied [OF _ _ assms(2)] in blast)+
  then show ?thesis using handleToken_plain [OF cs assms(4-6)] assms(2,7) by (cases sc1) (auto simp: cibaGet_def split: if_splits)
qed

theorem denial_is_final_witness:
  "\<exists>sc1 m. scCiba sc1 = Some (newCibaTokenSource\<lparr>csDenied := True\<rparr>) \<and>
     handleToken demoOutside (\<lambda>_. None) gatedConfig ''w1'' plainRequest sc1 = (HttpError 403 m, failConsent demoOutside (\<lambda>_. None) gatedConfig ''w1'' ''user denied consent'' sc1)"
proof -
  let ?sc = "\<lparr>scCiba = Some (newCibaTokenSource\<lparr>csDenied := True\<rparr>), scCache = \<lparr>tcToken = [], tcExpiry = 0\<rparr>, scBearer = \<lparr>tcToken = [], tcExpiry = 0\<rparr>,
      scFailOnce = False, scWaiter = Reported, scOut = demoStart []\<rparr>"
  obtain a sc2 where h: "handleToken demoOutside (\<lambda>_. None) gatedConfig ''w1'' plainRequest ?sc = (a, sc2)" by force
  have g: "scCiba ?sc = Some (newCibaTokenSource\<lparr>csDenied := True\<rparr>)" "csDenied (newCibaTokenSource\<lparr>csDenied := True\<rparr>)"
      "trGet plainRequest" "trSubject plainRequest = []" "trAudience plainRequest = []"
    by (simp_all add: plainRequest_def)
  have "covered gatedConfig (trScope plainRequest)" by code_simp
  then obtain m where "a = HttpError 403 m" "sc2 = failConsent demoOutside (\<lambda>_. None) gatedConfig ''w1'' ''user denied consent'' ?sc"
    using denial_is_final [OF g(1,2) rtranclp.rtrancl_refl [of "sidecar_step demoOutside (\<lambda>_. None) gatedConfig (=) ''w1''"] g(3-5) h] by auto
  then show ?thesis using h g(1) by (intro exI [of _ ?sc] exI [of _ m]) simp
qed

text \<open>
  An example run: the start-up expiry of a consent request is not terminal, although the agent is marked failed for it. There is a run in which
  the identity server reports the request expired, the waiting goroutine marks the agent \<open>failed\<close>, and a later token request opens
  a second consent request and is answered with a token.
\<close>

theorem expired_agent_still_gets_tokens:
  "\<exists>sc0 sc sc' left. sidecarRun demoOutside (\<lambda>_. None) gatedConfig
       (demoStart [asks ''r1'', noAnswer\<lparr>iaError := ''expired_token''\<rparr>, asks ''r2'', grants ''tok'']) = Inr (''w1'', sc0) \<and>
     (sidecar_step demoOutside (\<lambda>_. None) gatedConfig (=) ''w1'')\<^sup>*\<^sup>* sc0 sc \<and> last (dPatches (scOut sc)) = (''w1'', ''failed'') \<and>
     scWaiter sc = Reported \<and> handleToken demoOutside (\<lambda>_. None) gatedConfig ''w1'' plainRequest sc = (HttpOK 200 (''tok'', left), sc')"
proof -
  let ?e = "demoStart [asks ''r1'', noAnswer\<lparr>iaError := ''expired_token''\<rparr>, asks ''r2'', grants ''tok'']"
  let ?turn = "waiterTurn demoOutside (\<lambda>_. None) gatedConfig ''w1''"
  have "case sidecarRun demoOutside (\<lambda>_. None) gatedConfig ?e of
      Inl er \<Rightarrow> False
    | Inr (oid, sc0) \<Rightarrow> let sc = ?turn (?turn (?turn sc0)) in oid = ''w1'' \<and> last (dPatches (scOut sc)) = (''w1'', ''failed'') \<and> scWaiter sc = Reported \<and>
        (case fst (handleToken demoOutside (\<lambda>_. None) gatedConfig ''w1'' plainRequest sc) of HttpOK n (t, m) \<Rightarrow> n = 200 \<and> t = ''tok'' | _ \<Rightarrow> False)"
    by code_simp
  then obtain sc0 where r: "sidecarRun demoOutside (\<lambda>_. None) gatedConfig ?e = Inr (''w1'', sc0)"
      "last (dPatches (scOut (?turn (?turn (?turn sc0))))) = (''w1'', ''failed'')" "scWaiter (?turn (?turn (?turn sc0))) = Reported"
      "case fst (handleToken demoOutside (\<lambda>_. None) gatedConfig ''w1'' plainRequest (?turn (?turn (?turn sc0)))) of HttpOK n (t, m) \<Rightarrow> n = 200 \<and> t = ''tok'' | _ \<Rightarrow> False"
    by (auto simp: Let_def split: sum.splits prod.splits)
  have "(sidecar_step demoOutside (\<lambda>_. None) gatedConfig (=) ''w1'')\<^sup>*\<^sup>* sc0 (?turn (?turn (?turn sc0)))"
    by (rule rtranclp.rtrancl_into_rtrancl, rule rtranclp.rtrancl_into_rtrancl, rule r_into_rtranclp) (rule sidecar_step.turn)+
  moreover obtain left sc' where "handleToken demoOutside (\<lambda>_. None) gatedConfig ''w1'' plainRequest (?turn (?turn (?turn sc0))) = (HttpOK 200 (''tok'', left), sc')"
    using r(4) by (auto split: http.splits prod.splits) (metis prod.collapse)
  ultimately show ?thesis using r(1-3) by blast
qed

text \<open>
  Requests for another audience or with a subject token do not depend on consent. Their answer is the same whether or not the
  agent is consent-gated and in every state of the consent flow, pending and denied included.
\<close>

theorem delegation_ignores_consent:
  assumes "trSubject rq \<noteq> [] \<or> trAudience rq \<noteq> []"
  shows "fst (handleToken Ou ec cfg oid rq (sc\<lparr>scCiba := c\<rparr>)) = fst (handleToken Ou ec cfg oid rq sc)"
proof -
  have "fst (tokenAnswer Ou ec oid rq scope r (sc\<lparr>scCiba := c, scOut := e1\<rparr>)) = fst (tokenAnswer Ou ec oid rq scope r (sc\<lparr>scOut := e1\<rparr>))" for scope r e1
    by (auto simp: tokenAnswer_def split: sum.splits)
  then show ?thesis using assms by (auto simp: handleToken_def split: prod.splits)
qed

theorem delegation_ignores_consent_witness:
  "fst (handleToken demoOutside (\<lambda>_. None) gatedConfig ''w1'' \<lparr>trGet = True, trScope = ''write'', trSubject = [], trAudience = ''delegation''\<rparr>
       \<lparr>scCiba = Some (newCibaTokenSource\<lparr>csDenied := True\<rparr>), scCache = \<lparr>tcToken = [], tcExpiry = 0\<rparr>, scBearer = \<lparr>tcToken = [], tcExpiry = 0\<rparr>,
        scFailOnce = True, scWaiter = Reported, scOut = demoStart [grants ''tok'']\<rparr>) = HttpOK 200 (''tok'', 300)"
proof -
  let ?rq = "\<lparr>trGet = True, trScope = ''write'', trSubject = [], trAudience = ''delegation''\<rparr>"
  let ?sc = "\<lparr>scCiba = None, scCache = \<lparr>tcToken = [], tcExpiry = 0\<rparr>, scBearer = \<lparr>tcToken = [], tcExpiry = 0\<rparr>, scFailOnce = True,
      scWaiter = Reported, scOut = demoStart [grants ''tok'']\<rparr>"
  have "fst (handleToken demoOutside (\<lambda>_. None) gatedConfig ''w1'' ?rq ?sc) = HttpOK 200 (''tok'', 300)" by code_simp
  then show ?thesis
    using delegation_ignores_consent [of ?rq demoOutside "\<lambda>_. None" gatedConfig "''w1''" "Some (newCibaTokenSource\<lparr>csDenied := True\<rparr>)" ?sc] by simp
qed

lemma consentAnswer_answers:
  assumes "consentAnswer Ou ec cfg oid rq r sx = (HttpOK n (t, m), sc')"
  shows "\<exists>r. tokenAnswer Ou ec oid rq (trScope rq) r sx = (HttpOK n (t, m), sc')"
  using assms consentAnswer_ok [of Ou ec cfg oid rq r sx n t m] by auto

lemma handleToken_answers:
  assumes "handleToken Ou ec cfg oid rq sc = (HttpOK n (t, m), sc')"
  shows "\<exists>scope r sx. tokenAnswer Ou ec oid rq scope r sx = (HttpOK n (t, m), sc')"
  using assms
  by (auto simp: handleToken_def Let_def split: if_splits prod.splits option.splits)
    (blast dest: consentAnswer_answers)+

text \<open>Every token that is handed out is also posted, as it is, into the event history of the agent.\<close>

lemma issued_token_is_posted:
  assumes "handleToken Ou ec cfg oid rq sc = (HttpOK n (t, m), sc')"
  shows "\<exists>v e1 ty scope. scOut sc' = snd (oEvent Ou v oid (newEvent SourceAgent ty (TokenPayload scope (trAudience rq) m t)) e1)"
proof -
  have post: "\<exists>v e1. scOut (postEvent Ou ec oid ev sx) = snd (oEvent Ou v oid ev e1)" for ev sx
    by (auto simp: postEvent_def split: prod.splits)
  obtain scope r sx where "tokenAnswer Ou ec oid rq scope r sx = (HttpOK n (t, m), sc')" using handleToken_answers [OF assms] by blast
  then have "sc' = postEvent Ou ec oid (newEvent SourceAgent (if trSubject rq \<noteq> [] then ''token_exchanged'' else ''token_issued'')
      (TokenPayload scope (trAudience rq) m t)) sx"
    by (auto simp: tokenAnswer_def split: sum.splits)
  then show ?thesis using post by blast
qed

section \<open>Local bounds\<close>

text \<open>The binding message is what the identity server accepts: at most fifty letters and digits.\<close>

lemma bindingMessage_valid: "length (bindingMessage cfg) \<le> 50 \<and> list_all is_alnum (bindingMessage cfg)"
proof -
  have "list_all is_alnum (''spawn'' @ filter is_alnum (cfAgentType cfg))"
    by (auto simp: list_all_iff is_alnum_def is_lower_def in_range_def)
  then show ?thesis by (auto simp: bindingMessage_def list_all_iff dest: in_set_takeD)
qed

text \<open>A fetched SVID is kept for a positive time, and, when its expiry can be read and is not near, until thirty seconds before it.\<close>

lemma svidRefreshAt_bounds:
  "now < svidRefreshAt ec t now"
  "split_on CHR ''.'' t = [h, p, q] \<Longrightarrow> ec p = Some x \<Longrightarrow> x \<noteq> 0 \<Longrightarrow> now < (x - 30) * second \<Longrightarrow> svidRefreshAt ec t now = (x - 30) * second"
  by (auto simp: svidRefreshAt_def Let_def second_def split: option.splits)

text \<open>A fresh cached token answers a request of any scope.\<close>

lemma cached_token_ignores_scope:
  assumes "freshToken Ou (tcToken tc) (tcExpiry tc) e = (True, e1)"
  shows "tokenCacheGet Ou cfg scope tc e = tokenCacheGet Ou cfg scope' tc e"
  using assms by (simp add: tokenCacheGet_def)

end
