(* ===== verification/AgentStates.thy ===== *)
theory AgentStates
  imports Agents
begin

text \<open>
  The agent routes of the registry as a transition system over the in-memory store: every request ends, and the store stays
  well formed, so that what the other theories assume of a well-formed store holds in every state the registry gets into.
\<close>

section \<open>Requests\<close>

datatype agentRequest =
    PreregisterReq "AgentRecord result"
  | SelfRegisterReq "Identity result" "registerReq result"
  | PatchReq bool "Identity result" string "string result"
  | PostEventReq bool "Identity result" string "Event result"
  | RevokeReq string string
  | ResumeReq string string
  | DismissReq string string

text \<open>The world a request leaves behind; \<^term>\<open>None\<close> when the handler does not end.\<close>

fun serveAgent :: "'s Store \<Rightarrow> 'd SpiceDB \<Rightarrow> agentRequest \<Rightarrow> ('s, 'd) world \<Rightarrow> ('s, 'd) world option" where
  "serveAgent S D (PreregisterReq body) w = Some (snd (handlePreregister S D body w))"
| "serveAgent S D (SelfRegisterReq verified body) w = Some (snd (handleSelfRegister S D verified body w))"
| "serveAgent S D (PatchReq cpOK verified oid body) w = Some (snd (handlePatchAgent S D cpOK verified oid body w))"
| "serveAgent S D (PostEventReq cpOK verified oid body) w = Some (snd (handlePostEvent S cpOK verified oid body w))"
| "serveAgent S D (RevokeReq oid u) w = map_option snd (handleRevoke S D oid u w)"
| "serveAgent S D (ResumeReq oid u) w = map_option snd (handleResume S D oid u w)"
| "serveAgent S D (DismissReq oid u) w = map_option snd (handleDismiss S D oid u w)"

inductive agentReach :: "'s Store \<Rightarrow> 'd SpiceDB \<Rightarrow> ('s, 'd) world \<Rightarrow> ('s, 'd) world \<Rightarrow> bool" for S D w0 where
  agentStart: "agentReach S D w0 w0"
| agentServe: "agentReach S D w0 w \<Longrightarrow> serveAgent S D req w = Some w' \<Longrightarrow> agentReach S D w0 w'"

section \<open>Identity\<close>

text \<open>No record is lost, and what says whose agent it is stays as it was.\<close>

definition identityOf :: "AgentRecord \<Rightarrow> string \<times> string \<times> string \<times> string \<times> string" where
  "identityOf a = (agAgentID a, agUserID a, agOrgID a, agParentID a, agPlacement a)"

definition identityKept :: "(string \<Rightarrow> AgentRecord option) \<Rightarrow> (string \<Rightarrow> AgentRecord option) \<Rightarrow> bool" where
  "identityKept m m' = (\<forall>i a. m i = Some a \<longrightarrow> (\<exists>b. m' i = Some b \<and> identityOf b = identityOf a))"

lemma identityKept_refl [intro!]: "identityKept m m"
  by (simp add: identityKept_def)

lemma identityKept_status: "identityKept m (statusMap g st A m)" "identityKept m (setStatus oid st m)"
  by (auto simp: identityKept_def statusMap_def setStatus_def identityOf_def split: option.splits)

lemma identityKept_upd: "(\<And>a. m i = Some a \<Longrightarrow> identityOf r = identityOf a) \<Longrightarrow> identityKept m (m(i \<mapsto> r))"
  by (simp add: identityKept_def)

abbreviation agentsOf :: "(store, 'd) world \<Rightarrow> string \<Rightarrow> AgentRecord option" where
  "agentsOf w \<equiv> gget (stAgents (wStore w))"

text \<open>What every step keeps.\<close>

definition stepKeeps :: "(store, 'd) world \<Rightarrow> (store, 'd) world \<Rightarrow> bool" where
  "stepKeeps w w' = (agentsWf (wStore w') \<and> identityKept (agentsOf w) (agentsOf w'))"

lemma stepKeeps_same: "agentsWf (wStore w) \<Longrightarrow> stAgents (wStore w') = stAgents (wStore w) \<Longrightarrow> stepKeeps w w'"
  by (auto simp: stepKeeps_def agentsWf_def)

section \<open>The steps\<close>

lemma preregister_wf:
  assumes "agentsWf (wStore w)"
  shows "agentsWf (wStore (snd (handlePreregister memStore D body w)))"
proof (cases body)
  case (Inl e)
  then show ?thesis using assms by (simp add: handlePreregister_def)
next
  case (Inr r)
  obtain a w' where h: "handlePreregister memStore D (Inr r) w = (a, w')" by force
  show ?thesis
  proof (cases a)
    case (HttpOK n u)
    then show ?thesis
      using preregister_mem [of D r w n w'] agentsWf_put [OF assms, of "r\<lparr>agStatus := ''pending''\<rparr>" "agAgentID r"] h Inr
      by (simp add: agentsWf_def)
  next
    case (HttpError n m)
    then have "w' = w" using h by (auto simp: handlePreregister_def mem_simps Let_def internalError_def split: if_splits sum.splits prod.splits)
    then show ?thesis using assms h Inr by simp
  qed
qed

lemma self_register_step:
  assumes "agentsWf (wStore w)"
  shows "stepKeeps w (snd (handleSelfRegister memStore D verified body w))"
proof -
  obtain a w' where h: "handleSelfRegister memStore D verified body w = (a, w')" by force
  show ?thesis
  proof (cases a)
    case (HttpOK n rec)
    obtain ident req tpl where v: "verified = Inr ident" "body = Inr req" "validAgentID (idAgentID ident)"
      and wr: "registerWrites memStore D tpl (rqTenantID req)
          (registeredRecord (idAgentID ident) req tpl (getAgent (idAgentID ident) (wStore w))) w = (HttpOK n rec, w')"
      using selfRegister_admitted [OF h [unfolded HttpOK]] unfolding Let_def by blast
    let ?r = "registeredRecord (idAgentID ident) req tpl (getAgent (idAgentID ident) (wStore w))"
    have st: "stAgents (wStore w') = gput (idAgentID ident) ?r (stAgents (wStore w))" using registerWrites_mem [OF wr] by auto
    have "identityOf ?r = identityOf b" if "agentsOf w (idAgentID ident) = Some b" for b
      using that agentsWf_id [OF assms that] agentsWf_nonempty [OF assms that]
      by (simp add: identityOf_def registeredRecord_def getAgent_def)
    moreover have "agentsOf w' = (agentsOf w)(idAgentID ident \<mapsto> ?r)" by (auto simp: st gomap_simps)
    ultimately have "identityKept (agentsOf w) (agentsOf w')" using identityKept_upd [of "agentsOf w" "idAgentID ident" ?r] by simp
    moreover have "agentsWf (wStore w')"
      using agentsWf_put [OF assms, of ?r "idAgentID ident"] v st by (auto simp: agentsWf_def validAgentID_def)
    ultimately show ?thesis by (simp add: h stepKeeps_def)
  next
    case (HttpError n m)
    then have "w' = w"
      using h by (auto simp: handleSelfRegister_def registerWrites_def mem_simps Let_def split: sum.splits if_splits option.splits prod.splits)
    then show ?thesis using assms by (auto simp: h stepKeeps_def)
  qed
qed

lemma terminalCleanup_store: "wStore (snd (terminalCleanup memStore D oid w)) = wStore w"
  by (simp add: terminalCleanup_def mem_simps Let_def)

lemma patch_step:
  assumes "agentsWf (wStore w)"
  shows "stepKeeps w (snd (handlePatchAgent memStore D cpOK verified oid body w))"
proof (cases "wStore (snd (handlePatchAgent memStore D cpOK verified oid body w)) = wStore w")
  case True
  then show ?thesis using assms by (intro stepKeeps_same) simp_all
next
  case False
  then obtain st where "wStore (snd (handlePatchAgent memStore D cpOK verified oid body w)) = snd (updateAgent oid st (wStore w))"
    by (auto simp: handlePatchAgent_def mem_simps terminalCleanup_store Let_def split: sum.splits if_splits prod.splits)
  then show ?thesis
    using updateAgent_wf [OF assms] identityKept_status(2) by (simp add: stepKeeps_def updateAgent_setStatus)
qed

lemma post_event_step:
  assumes "agentsWf (wStore w)"
  shows "stepKeeps w (snd (handlePostEvent memStore cpOK verified oid body w))"
proof (rule stepKeeps_same [OF assms])
  show "stAgents (wStore (snd (handlePostEvent memStore cpOK verified oid body w))) = stAgents (wStore w)"
    by (auto simp: handlePostEvent_def mem_simps Let_def split: sum.splits prod.splits) 
qed

lemma flip_step:
  assumes "agentsWf (wStore w)" and "agentAllowed memStore D oid u act w = Inr (True, True)" and "\<not> g []" and "\<not> g st"
  shows "\<exists>a w'. overSubtree memStore (flipNode memStore g st tuple ty) oid w = Some (a, w') \<and> stepKeeps w w'"
  using mem_overSubtree_effect [OF assms, of tuple ty] identityKept_status(1) by (fastforce simp: stepKeeps_def)

text \<open>A handler behind the guard either does nothing or runs with an allowed caller.\<close>

lemma allowed_step:
  assumes "agentsWf (wStore w)" and "agentAllowed memStore D oid u actionManage w = Inr (True, True) \<Longrightarrow> \<exists>a w'. body = Some (a, w') \<and> stepKeeps w w'"
  shows "\<exists>a w'. allowedOr404 (agentAllowed memStore D oid u actionManage w) w body = Some (a, w') \<and> stepKeeps w w'"
  using assms stepKeeps_same [OF assms(1) refl]
  by (auto simp: allowedOr404_def split: sum.splits prod.splits)

lemma dismiss_step:
  assumes "agentsWf (wStore w)"
  shows "stepKeeps w (w\<lparr>wStore := snd (dismissAgent oid (wStore w))\<rparr>)"
proof (cases "agentsOf w oid")
  case None
  then show ?thesis using assms by (intro stepKeeps_same) (simp_all add: dismissAgent_def)
next
  case (Some a)
  note ids = agentsWf_id [OF assms Some] agentsWf_nonempty [OF assms Some]
  let ?a = "a\<lparr>agDismissed := True\<rparr>"
  have s: "snd (dismissAgent oid (wStore w)) = (wStore w)\<lparr>stAgents := gput oid ?a (stAgents (wStore w))\<rparr>" using Some by (simp add: dismissAgent_def)
  have "agentsOf (w\<lparr>wStore := snd (dismissAgent oid (wStore w))\<rparr>) = (agentsOf w)(oid \<mapsto> ?a)" by (auto simp: s gomap_simps)
  moreover have "identityOf ?a = identityOf b" if "agentsOf w oid = Some b" for b using that Some by (simp add: identityOf_def)
  ultimately have "identityKept (agentsOf w) (agentsOf (w\<lparr>wStore := snd (dismissAgent oid (wStore w))\<rparr>))"
    using identityKept_upd [of "agentsOf w" oid ?a] by simp
  moreover have "agentsWf (snd (dismissAgent oid (wStore w)))" unfolding s using ids by (intro agentsWf_put [OF assms]) simp_all
  ultimately show ?thesis by (simp add: stepKeeps_def)
qed

lemma serve_step:
  assumes "agentsWf (wStore w)"
  shows "\<exists>w'. serveAgent memStore D req w = Some w' \<and> agentsWf (wStore w') \<and>
    ((\<forall>body. req \<noteq> PreregisterReq body) \<longrightarrow> identityKept (agentsOf w) (agentsOf w'))"
proof -
  have rev: "\<exists>a w'. handleRevoke memStore D oid u w = Some (a, w') \<and> stepKeeps w w'" for oid u
    unfolding handleRevoke_def revokeNode_flip by (intro allowed_step [OF assms] flip_step [OF assms]) simp_all
  have res: "\<exists>a w'. handleResume memStore D oid u w = Some (a, w') \<and> stepKeeps w w'" for oid u
    unfolding handleResume_def resumeNode_flip
  proof (rule allowed_step [OF assms])
    assume al: "agentAllowed memStore D oid u actionManage w = Inr (True, True)"
    have "\<exists>b. orgIsDisabled memStore x (wStore w) = Inr b" for x by (auto simp: orgIsDisabled_def mem_simps split: option.splits)
    then show "\<exists>a w'. (case GetAgent memStore oid (wStore w) of Inl e \<Rightarrow> Some (internalError, w)
       | Inr rec \<Rightarrow> case orgIsDisabled memStore (agOrgID rec) (wStore w) of Inl e \<Rightarrow> Some (internalError, w)
         | Inr disabled \<Rightarrow> if disabled then Some (HttpError 403 ''organization is disabled'', w)
             else overSubtree memStore (flipNode memStore (\<lambda>st. st = ''revoked'') ''active'' (WriteRelationship D) ''agent_resumed'') oid w) = Some (a, w') \<and> stepKeeps w w'"
      using flip_step [OF assms al, of "\<lambda>st. st = ''revoked''" "''active''" "WriteRelationship D" "''agent_resumed''"] stepKeeps_same [OF assms refl]
      by (auto simp: mem_simps split: sum.splits)
  qed
  have dis: "\<exists>a w'. handleDismiss memStore D oid u w = Some (a, w') \<and> stepKeeps w w'" for oid u
    unfolding handleDismiss_def
    by (rule allowed_step [OF assms]) (use dismiss_step [OF assms, of oid] in \<open>auto simp: mem_simps split: prod.splits\<close>)
  show ?thesis
  proof (cases req)
    case (PreregisterReq body)
    then show ?thesis using preregister_wf [OF assms] by simp
  next
    case (RevokeReq oid u)
    then show ?thesis using rev [of oid u] by (auto simp: stepKeeps_def)
  next
    case (ResumeReq oid u)
    then show ?thesis using res [of oid u] by (auto simp: stepKeeps_def)
  next
    case (DismissReq oid u)
    then show ?thesis using dis [of oid u] by (auto simp: stepKeeps_def)
  qed (use self_register_step [OF assms] patch_step [OF assms] post_event_step [OF assms] in \<open>auto simp: stepKeeps_def\<close>)
qed

text \<open>
  C23: the registry never gets stuck and never loses shape. Start from a store without agents and serve any sequence of agent requests, with
  every SpiceDB client: in each state that is reached every record is stored once, under its own non-empty id, and the next request, whatever
  it is, ends and leads to such a state again; except for a preregistration it removes no record and changes no record's id, owner, organization,
  parent or placement.
\<close>

theorem agent_states_well_formed:
  assumes "agentReach memStore D w0 w" and "stAgents (wStore w0) = []"
  shows "agentsWf (wStore w) \<and> (\<forall>req. \<exists>w'. serveAgent memStore D req w = Some w' \<and> agentsWf (wStore w') \<and>
    ((\<forall>body. req \<noteq> PreregisterReq body) \<longrightarrow> identityKept (agentsOf w) (agentsOf w')))"
proof -
  have "agentsWf (wStore w)"
    using assms
  proof (induction rule: agentReach.induct)
    case agentStart
    then show ?case by (simp add: agentsWf_def)
  next
    case (agentServe w req w')
    then show ?case using serve_step [of w D req] by auto
  qed
  then show ?thesis using serve_step by blast
qed

theorem agent_states_well_formed_witness:
  "\<exists>w. agentReach memStore mockClient emptyWorld w \<and> agentsWf (wStore w) \<and> agentsOf w ''w1'' \<noteq> None \<and>
     (\<exists>w'. serveAgent memStore mockClient (RevokeReq ''w1'' ''alice'') w = Some w' \<and> agentsWf (wStore w'))"
proof -
  let ?w = "snd (handlePreregister memStore mockClient (Inr preRecord) emptyWorld)"
  have r: "agentReach memStore mockClient emptyWorld ?w"
    by (rule agentServe [OF agentStart, where req = "PreregisterReq (Inr preRecord)"]) simp
  have "fst (handlePreregister memStore mockClient (Inr preRecord) emptyWorld) = HttpOK 201 ()" by code_simp
  then have "handlePreregister memStore mockClient (Inr preRecord) emptyWorld = (HttpOK 201 (), ?w)" by (metis prod.collapse)
  from preregister_mem [OF this] have "agentsOf ?w ''w1'' \<noteq> None" by (simp add: preRecord_def gomap_simps)
  moreover have "stAgents (wStore emptyWorld) = []" by (simp add: emptyWorld_def)
  ultimately show ?thesis using r agent_states_well_formed [OF r] by blast
qed

end
