(* ===== verification/Spiffe.thy ===== *)
theory Spiffe
  imports TokenValidator
begin

text \<open>
  The SPIFFE path contract (\<open>internal/spiffe/path.go\<close>) and the organization ids that go into paths and certificates
  (\<open>internal/substrate/devca/devca.go\<close>): what is built parses back to what it was built from, and the node prefixes of
  two organizations never overlap.
\<close>

section \<open>Paths\<close>

definition SubstrateAgentLeaf :: string where "SubstrateAgentLeaf = ''substrate-agent''"

record ParsedSVID =
  psTrustDomain :: string
  psOrgID :: string
  psAgentID :: string
  psSubstrateAgent :: bool

definition spiffeScheme :: string where "spiffeScheme = ''spiffe://''"

definition validSegment :: "string \<Rightarrow> bool" where
  "validSegment s = (s \<noteq> [] \<and> CHR ''/'' \<notin> set s)"

fun joinSlash :: "string list \<Rightarrow> string" where
  "joinSlash [] = []"
| "joinSlash [s] = s"
| "joinSlash (s # t # ts) = s @ CHR ''/'' # joinSlash (t # ts)"

definition BuildOrgAgentPath :: "string \<Rightarrow> string \<Rightarrow> string list \<Rightarrow> string result" where
  "BuildOrgAgentPath trustDomain orgID segments =
     (if trustDomain = [] then Inl (Err ''empty trust domain'')
      else if CHR ''/'' \<in> set trustDomain then Inl (Err (''trust domain contains '' @ [CHR 0x27, CHR ''/'', CHR 0x27]))
      else if \<not> validSegment orgID then Inl (Err ''invalid org id'')
      else if segments = [] then Inl (Err ''at least one path segment (the agent id) is required'')
      else if \<not> list_all validSegment segments then Inl (Err ''invalid path segment'')
      else Inr (spiffeScheme @ trustDomain @ ''/org/'' @ orgID @ ''/agent/'' @ joinSlash segments))"

definition BuildSubstrateAgentPath :: "string \<Rightarrow> string \<Rightarrow> string result" where
  "BuildSubstrateAgentPath trustDomain orgID =
     (if trustDomain = [] then Inl (Err ''empty trust domain'')
      else if CHR ''/'' \<in> set trustDomain then Inl (Err (''trust domain contains '' @ [CHR 0x27, CHR ''/'', CHR 0x27]))
      else if \<not> validSegment orgID then Inl (Err ''invalid org id'')
      else Inr (spiffeScheme @ trustDomain @ ''/org/'' @ orgID @ ''/'' @ SubstrateAgentLeaf))"

text \<open>The organization a path claims: its id and whether it is the substrate agent's own identity.\<close>

definition orgClaim :: "string list \<Rightarrow> (string \<times> bool) result" where
  "orgClaim segs =
     (if length segs \<ge> 2 \<and> segs ! 1 = ''org'' then
        (if length segs = 4 \<and> segs ! 2 \<noteq> [] \<and> segs ! 3 = SubstrateAgentLeaf then Inr (segs ! 2, True)
         else if length segs \<ge> 5 \<and> segs ! 2 \<noteq> [] \<and> segs ! 3 = ''agent'' then Inr (segs ! 2, False)
         else Inl (Err ''malformed org-scoped SPIFFE path''))
      else Inr ([], False))"

definition ParsePath :: "string \<Rightarrow> ParsedSVID result" where
  "ParsePath spiffeID =
     (if \<not> has_prefix spiffeID spiffeScheme then Inl (Err ''not a spiffe:// URI'')
      else let rest = drop (length spiffeScheme) spiffeID;
               td = takeWhile (\<lambda>c. c \<noteq> CHR ''/'') rest;
               p = dropWhile (\<lambda>c. c \<noteq> CHR ''/'') rest
           in if td = [] then Inl (Err ''empty trust domain'')
              else case orgClaim (split_on (CHR ''/'') p) of
                  Inl e \<Rightarrow> Inl e
                | Inr (orgID, sub) \<Rightarrow>
                    Inr \<lparr>psTrustDomain = td, psOrgID = orgID, psAgentID = path_base spiffeID, psSubstrateAgent = sub\<rparr>)"

section \<open>Organization ids\<close>

definition ValidateOrgID :: "string \<Rightarrow> bool" where
  "ValidateOrgID s =
     (s \<noteq> [] \<and> length s \<le> 63 \<and> is_alnum (hd s) \<and> is_alnum (last s) \<and>
      list_all (\<lambda>c. is_alnum c \<or> c \<in> {CHR ''.'', CHR ''_'', CHR ''-''}) s)"

text \<open>
  \<open>strings.ToLower\<close> as far as \<^const>\<open>ValidateOrgID\<close> can tell the result apart: the upper case letters, and the two characters
  outside ASCII whose lower case is an ASCII letter (the Kelvin sign and the capital I with a dot). Every other byte above
  127 stands for a character whose lower case is not ASCII either, and is refused as it is.
\<close>

fun lowerOrg :: "string \<Rightarrow> string" where
  "lowerOrg [] = []"
| "lowerOrg (c # cs) =
     (if has_prefix (c # cs) [CHR 0xE2, CHR 0x84, CHR 0xAA] then CHR ''k'' # lowerOrg (drop 2 cs)
      else if has_prefix (c # cs) [CHR 0xC4, CHR 0xB0] then CHR ''i'' # lowerOrg (drop 1 cs)
      else to_lower c # lowerOrg cs)"

definition NormalizeOrgID :: "string \<Rightarrow> string option" where
  "NormalizeOrgID orgID = (let l = lowerOrg orgID in if ValidateOrgID l then Some l else None)"

definition NodeSpiffePathPrefix :: "string \<Rightarrow> string \<Rightarrow> string option" where
  "NodeSpiffePathPrefix trustDomain orgID =
     (if trustDomain = [] \<or> \<not> ValidateOrgID orgID then None
      else Some (''spiffe://'' @ trustDomain @ ''/spire/agent/x509pop/org/'' @ orgID @ ''/''))"

section \<open>Round trips\<close>

lemma has_prefix_iff: "has_prefix s p \<longleftrightarrow> (\<exists>t. s = p @ t)"
  by (metis append_eq_conv_conj append_take_drop_id has_prefix_def)

lemma split_on_joinSlash:
  "segs \<noteq> [] \<Longrightarrow> list_all validSegment segs \<Longrightarrow> split_on (CHR ''/'') (joinSlash segs) = segs"
  by (induction segs rule: joinSlash.induct) (simp_all add: validSegment_def split_on_no_sep split_on_sep)

lemma joinSlash_last:
  assumes "segs \<noteq> []"
  shows "\<exists>pre. joinSlash segs = pre @ last segs \<and> (pre = [] \<or> last pre = CHR ''/'')"
  using assms
proof (induction segs rule: joinSlash.induct)
  case (3 s t ts)
  then obtain pre where "joinSlash (t # ts) = pre @ last (t # ts)" "pre = [] \<or> last pre = CHR ''/''" by auto
  then show ?case by (intro exI [of _ "s @ CHR ''/'' # pre"]) auto
qed auto

lemma path_base_segment:
  assumes "validSegment s"
  shows "path_base (pre @ CHR ''/'' # s) = s"
proof -
  obtain r c where s: "s = r @ [c]" "c \<noteq> CHR ''/''" using assms by (cases s rule: rev_cases) (auto simp: validSegment_def)
  then have d: "dropWhile (\<lambda>c. c = CHR ''/'') (rev (pre @ CHR ''/'' # s)) = rev (pre @ CHR ''/'' # s)" by simp
  have "takeWhile (\<lambda>c. c \<noteq> CHR ''/'') (rev s @ CHR ''/'' # rev pre) = rev s"
    using assms by (subst takeWhile_append2) (auto simp: validSegment_def)
  then show ?thesis using assms d by (simp add: path_base_def validSegment_def Let_def)
qed

lemma ParsePath_parts:
  assumes "td \<noteq> []" and "CHR ''/'' \<notin> set td"
  shows "ParsePath (spiffeScheme @ td @ CHR ''/'' # p) =
    (case orgClaim ([] # split_on (CHR ''/'') p) of
       Inl e \<Rightarrow> Inl e
     | Inr (orgID, sub) \<Rightarrow> Inr \<lparr>psTrustDomain = td, psOrgID = orgID,
         psAgentID = path_base (spiffeScheme @ td @ CHR ''/'' # p), psSubstrateAgent = sub\<rparr>)"
proof -
  have tw: "takeWhile (\<lambda>c. c \<noteq> CHR ''/'') (td @ CHR ''/'' # p) = td" "dropWhile (\<lambda>c. c \<noteq> CHR ''/'') (td @ CHR ''/'' # p) = CHR ''/'' # p"
    using assms(2) by (induction td) auto
  show ?thesis using assms(1) by (auto simp: ParsePath_def Let_def tw split: sum.splits)
qed

lemma split_on_segment: "validSegment s \<Longrightarrow> split_on (CHR ''/'') (s @ CHR ''/'' # t) = s # split_on (CHR ''/'') t"
  by (simp add: validSegment_def split_on_sep)

lemma validSegment_org: "validSegment ''org''" "validSegment ''agent''"
  by (simp_all add: validSegment_def)

lemma org_path_parses:
  assumes "BuildOrgAgentPath td org segs = Inr i"
  shows "ParsePath i = Inr \<lparr>psTrustDomain = td, psOrgID = org, psAgentID = last segs, psSubstrateAgent = False\<rparr>"
proof -
  from assms have td: "td \<noteq> []" "CHR ''/'' \<notin> set td" and o: "validSegment org" and g: "segs \<noteq> []" "list_all validSegment segs"
    and i: "i = spiffeScheme @ td @ CHR ''/'' # (''org'' @ CHR ''/'' # org @ CHR ''/'' # ''agent'' @ CHR ''/'' # joinSlash segs)"
    by (auto simp: BuildOrgAgentPath_def split: if_splits)
  have sp: "split_on (CHR ''/'') (''org'' @ CHR ''/'' # org @ CHR ''/'' # ''agent'' @ CHR ''/'' # joinSlash segs) = ''org'' # org # ''agent'' # segs"
    using o by (simp only: split_on_segment validSegment_org split_on_joinSlash [OF g])
  obtain pre where j: "joinSlash segs = pre @ last segs" "pre = [] \<or> last pre = CHR ''/''" using joinSlash_last [OF g(1)] by blast
  have "\<exists>q. i = q @ CHR ''/'' # last segs"
  proof (cases pre rule: rev_cases)
    case Nil
    then show ?thesis using i j by (intro exI [of _ "spiffeScheme @ td @ CHR ''/'' # (''org'' @ CHR ''/'' # org @ CHR ''/'' # ''agent'')"]) simp
  next
    case (snoc q c)
    then show ?thesis using i j by (intro exI [of _ "spiffeScheme @ td @ CHR ''/'' # (''org'' @ CHR ''/'' # org @ CHR ''/'' # ''agent'' @ CHR ''/'' # q)"]) simp
  qed
  moreover have "validSegment (last segs)" using g by (simp add: list_all_iff)
  ultimately have "path_base i = last segs" using path_base_segment by blast
  moreover have "orgClaim ([] # ''org'' # org # ''agent'' # segs) = Inr (org, False)"
    using o g(1) by (cases segs) (auto simp: orgClaim_def validSegment_def)
  ultimately show ?thesis
    unfolding i ParsePath_parts [OF td] sp by simp
qed

text \<open>
  C37: identities round trip. A workload identity that can be built from a trust domain, an organization and segments parses
  back to exactly that trust domain and organization, with the last segment as its agent id and not as a substrate agent; the
  substrate-agent identity parses back as such; so the two kinds of identity never coincide, and two different organizations
  never get the same identity.
\<close>

theorem spiffe_path_roundtrip:
  shows "(\<forall>i. BuildOrgAgentPath td org segs = Inr i \<longrightarrow>
      ParsePath i = Inr \<lparr>psTrustDomain = td, psOrgID = org, psAgentID = last segs, psSubstrateAgent = False\<rparr>) \<and>
    (\<forall>i. BuildSubstrateAgentPath td org = Inr i \<longrightarrow>
      ParsePath i = Inr \<lparr>psTrustDomain = td, psOrgID = org, psAgentID = SubstrateAgentLeaf, psSubstrateAgent = True\<rparr>)"
proof (intro conjI allI impI)
  fix i assume "BuildOrgAgentPath td org segs = Inr i"
  then show "ParsePath i = Inr \<lparr>psTrustDomain = td, psOrgID = org, psAgentID = last segs, psSubstrateAgent = False\<rparr>" by (rule org_path_parses)
next
  fix i assume "BuildSubstrateAgentPath td org = Inr i"
  then have td: "td \<noteq> []" "CHR ''/'' \<notin> set td" and o: "validSegment org"
    and i: "i = spiffeScheme @ td @ CHR ''/'' # (''org'' @ CHR ''/'' # org @ CHR ''/'' # SubstrateAgentLeaf)"
    by (auto simp: BuildSubstrateAgentPath_def split: if_splits)
  have l: "validSegment SubstrateAgentLeaf" by (simp add: validSegment_def SubstrateAgentLeaf_def)
  have sp: "split_on (CHR ''/'') (''org'' @ CHR ''/'' # org @ CHR ''/'' # SubstrateAgentLeaf) = [''org'', org, SubstrateAgentLeaf]"
    using o split_on_no_sep [of "CHR ''/''" SubstrateAgentLeaf] l by (simp only: split_on_segment validSegment_org) (simp add: validSegment_def)
  have "path_base i = SubstrateAgentLeaf"
    unfolding i using path_base_segment [OF l, of "spiffeScheme @ td @ CHR ''/'' # (''org'' @ CHR ''/'' # org)"] by simp
  moreover have "orgClaim [[], ''org'', org, SubstrateAgentLeaf] = Inr (org, True)"
    using o by (simp add: orgClaim_def validSegment_def)
  ultimately show "ParsePath i = Inr \<lparr>psTrustDomain = td, psOrgID = org, psAgentID = SubstrateAgentLeaf, psSubstrateAgent = True\<rparr>"
    unfolding i ParsePath_parts [OF td] sp by simp
qed

theorem spiffe_path_roundtrip_witness:
  "ParsePath ''spiffe://td/org/acme/agent/t/u/worker/w1'' =
     Inr \<lparr>psTrustDomain = ''td'', psOrgID = ''acme'', psAgentID = ''w1'', psSubstrateAgent = False\<rparr>"
proof -
  have "BuildOrgAgentPath ''td'' ''acme'' [''t'', ''u'', ''worker'', ''w1''] = Inr ''spiffe://td/org/acme/agent/t/u/worker/w1''"
    by (simp add: BuildOrgAgentPath_def validSegment_def spiffeScheme_def)
  then show ?thesis using spiffe_path_roundtrip [of "''td''" "''acme''" "[''t'', ''u'', ''worker'', ''w1'']"] by simp
qed

section \<open>The nodes of an organization\<close>

lemma ValidateOrgID_segment: "ValidateOrgID s \<Longrightarrow> validSegment s"
  by (auto simp: ValidateOrgID_def validSegment_def list_all_iff is_alnum_def is_lower_def is_upper_def is_digit_def in_range_def)

text \<open>What lies under the node prefix of one organization lies under that of no other.\<close>

lemma nodePrefix_disjoint:
  assumes "NodeSpiffePathPrefix td a = Some p" and "NodeSpiffePathPrefix td b = Some q" and "has_prefix s p" and "has_prefix s q"
  shows "a = b"
proof -
  have p: "p = ''spiffe://'' @ td @ ''/spire/agent/x509pop/org/'' @ a @ ''/''" "ValidateOrgID a"
    and q: "q = ''spiffe://'' @ td @ ''/spire/agent/x509pop/org/'' @ b @ ''/''" "ValidateOrgID b"
    using assms(1,2) by (simp_all only: NodeSpiffePathPrefix_def option.inject split: if_splits) simp_all
  have "CHR ''/'' \<notin> set a" "CHR ''/'' \<notin> set b"
    using ValidateOrgID_segment [OF p(2)] ValidateOrgID_segment [OF q(2)] by (simp_all add: validSegment_def)
  moreover obtain t u where "s = p @ t" "s = q @ u" using assms(3,4) unfolding has_prefix_iff by blast
  then have "a @ CHR ''/'' # t = b @ CHR ''/'' # u" by (simp add: p(1) q(1))
  ultimately show ?thesis using append_sep_inject by blast
qed

text \<open>A normalized id is valid, and normalizing it again does nothing.\<close>

lemma lowerOrg_ascii: "list_all (\<lambda>c. is_lower c \<or> is_digit c \<or> c \<in> {CHR ''.'', CHR ''_'', CHR ''-''}) s \<Longrightarrow> lowerOrg s = s"
  by (induction s rule: lowerOrg.induct)
    (auto simp: has_prefix_def to_lower_def is_upper_def is_lower_def is_digit_def in_range_def)

lemma lowerOrg_no_upper: "list_all (\<lambda>c. \<not> is_upper c) (lowerOrg s)"
proof (induction s rule: lowerOrg.induct)
  case (2 c cs)
  have "\<not> is_upper (to_lower c)"
    by (auto simp: to_lower_def is_upper_def in_range_def)
  then show ?case using 2 by (auto simp: is_upper_def in_range_def)
qed simp

lemma NormalizeOrgID_idem:
  assumes "NormalizeOrgID a = Some b"
  shows "ValidateOrgID b \<and> NormalizeOrgID b = Some b"
proof -
  have b: "b = lowerOrg a" "ValidateOrgID b" using assms by (auto simp: NormalizeOrgID_def Let_def split: if_splits)
  then have "list_all (\<lambda>c. is_lower c \<or> is_digit c \<or> c \<in> {CHR ''.'', CHR ''_'', CHR ''-''}) b"
    using lowerOrg_no_upper [of a] by (auto simp: ValidateOrgID_def list_all_iff is_alnum_def)
  then show ?thesis using b(2) lowerOrg_ascii by (simp add: NormalizeOrgID_def)
qed

end
