(* ===== verification/Registrant.thy ===== *)
theory Registrant
  imports Spiffe Anchors Agents
begin

text \<open>
  Who may register an agent (\<open>internal/registrant\<close>) and how the registry picks its verifier (\<open>cmd/registry/main.go\<close>). The
  signature checks of the token libraries and the decoders are parameters. The organization-aware verifier binds what a
  credential proves to the organization of the recorded agent.
\<close>

section \<open>Requests and parameters\<close>

record peerCert =
  pcURIs :: "string list"
  pcDNSNames :: "string list"
  pcCommonName :: string

record regRequest =
  rrAuthorization :: string
  rrPeerCertificates :: "peerCert list"

record jwtToken =
  jtSubject :: string
  jtClaims :: "(string \<times> any) list"

text \<open>
  The verdicts of the libraries: an SVID for the audience \<open>registry\<close>, an OIDC token, a web-identity token; and the decoders of the
  two shape tests (the method and URL of an envelope, the payload of a token part, its subject).
\<close>

record verifierEnv =
  veSts :: stsEnv
  veTrusted :: string
  veNow :: time
  veSVID :: "string \<Rightarrow> string result"
  veOIDC :: "string \<Rightarrow> jwtToken result"
  veStsWeb :: "string \<Rightarrow> jwtToken result"
  veEnvelope :: "string \<Rightarrow> (string \<times> string) result"
  veRawURL :: "string \<Rightarrow> string result"
  veSub :: "string \<Rightarrow> string result"

definition bearer :: "regRequest \<Rightarrow> string" where
  "bearer r = trim_prefix (rrAuthorization r) ''Bearer ''"

section \<open>Verifiers\<close>

record OIDCConfig =
  ocAgentIDClaim :: string

record StsWebConfig =
  swNamespace :: string
  swServiceAccount :: string
  swClusterARN :: string
  swPodSuffix :: string

definition identityOK :: "string \<Rightarrow> string \<Rightarrow> string \<Rightarrow> Identity" where
  "identityOK agentID subject issuer =
     \<lparr>idAgentID = agentID, idOrgID = [], idSubject = subject, idIssuer = issuer, idPlatformSVID = False\<rparr>"

definition SpiffeVerify :: "verifierEnv \<Rightarrow> string \<Rightarrow> regRequest \<Rightarrow> Identity result" where
  "SpiffeVerify env td r =
     (if bearer r = [] then Inl (Err ''missing SVID'')
      else case veSVID env (bearer r) of
          Inl e \<Rightarrow> Inl e
        | Inr spiffeID \<Rightarrow>
            if td = [] then Inr (identityOK (path_base spiffeID) spiffeID ''spiffe-svid'')
            else case ParsePath spiffeID of
                Inl e \<Rightarrow> Inl e
              | Inr parsed \<Rightarrow>
                  if psTrustDomain parsed \<noteq> td then Inl (Err ''SVID trust domain not permitted'')
                  else Inr \<lparr>idAgentID = psAgentID parsed, idOrgID = psOrgID parsed, idSubject = spiffeID, idIssuer = ''spiffe-svid'',
                         idPlatformSVID = (psOrgID parsed = [])\<rparr>)"

definition NewOIDCVerifier :: "OIDCConfig \<Rightarrow> OIDCConfig" where
  "NewOIDCVerifier cfg = (if ocAgentIDClaim cfg = [] then cfg\<lparr>ocAgentIDClaim := ''sub''\<rparr> else cfg)"

definition OIDCVerify :: "verifierEnv \<Rightarrow> OIDCConfig \<Rightarrow> regRequest \<Rightarrow> Identity result" where
  "OIDCVerify env cfg r =
     (if bearer r = [] then Inl (Err ''missing bearer token'')
      else case veOIDC env (bearer r) of
          Inl e \<Rightarrow> Inl e
        | Inr tok \<Rightarrow>
            (case gget (jtClaims tok) (ocAgentIDClaim cfg) of
               None \<Rightarrow> Inl (Err ''agent id claim missing'')
             | Some (AString agentID) \<Rightarrow>
                 if agentID = [] then Inl (Err ''agent id claim is not a non-empty string'') else Inr (identityOK agentID (jtSubject tok) ''oidc'')
             | Some _ \<Rightarrow> Inl (Err ''agent id claim is not a non-empty string'')))"

definition AwsStsVerify :: "verifierEnv \<Rightarrow> regRequest \<Rightarrow> Identity result" where
  "AwsStsVerify env r =
     (if bearer r = [] then Inl (Err ''missing AWS STS credential'')
      else case VerifyCallerIdentity (veSts env) (veTrusted env) (veNow env) (bearer r) of
          Inl e \<Rightarrow> Inl e
        | Inr ident \<Rightarrow>
            (case SessionNameFromArn (ciArn ident) of
               Inl e \<Rightarrow> Inl e
             | Inr agentID \<Rightarrow> Inr (identityOK agentID (ciArn ident) ''aws-sts'')))"

definition principalTags :: "any option \<Rightarrow> (string \<times> any) list result" where
  "principalTags claim =
     (case claim of
        Some (AMap ns) \<Rightarrow>
          (case gget ns ''principal_tags'' of
             Some (AMap pt) \<Rightarrow> Inr pt
           | _ \<Rightarrow> Inl (Err ''token missing principal_tags (is the pod under EKS Pod Identity?)''))
      | _ \<Rightarrow> Inl (Err ''token missing the STS object''))"

definition tagStr :: "(string \<times> any) list \<Rightarrow> string \<Rightarrow> string" where
  "tagStr tags k = (case gget tags k of Some (AString s) \<Rightarrow> s | _ \<Rightarrow> [])"

definition trim_suffix :: "string \<Rightarrow> string \<Rightarrow> string" where
  "trim_suffix s suf = rev (trim_prefix (rev s) (rev suf))"

definition identityFromTags :: "StsWebConfig \<Rightarrow> (string \<times> any) list \<Rightarrow> Identity result" where
  "identityFromTags cfg tags =
     (if list_ex (\<lambda>(key, want). want \<noteq> [] \<and> tagStr tags key \<noteq> want)
           [(''kubernetes-namespace'', swNamespace cfg), (''kubernetes-service-account'', swServiceAccount cfg), (''eks-cluster-arn'', swClusterARN cfg)]
      then Inl (Err ''principal_tags not as expected'')
      else let podName = tagStr tags ''kubernetes-pod-name'';
               agentID = trim_suffix podName (if swPodSuffix cfg = [] then ''-pod'' else swPodSuffix cfg);
               arn = tagStr tags ''eks-cluster-arn'';
               clusterArn = (if arn = [] then ''eks'' else arn)
           in if podName = [] then Inl (Err ''token missing principal_tags.kubernetes-pod-name'')
              else if agentID = [] then Inl (Err ''pod name yields empty agentId'')
              else Inr (identityOK agentID (clusterArn @ ''/agent/'' @ agentID) ''aws-stsweb''))"

definition stsNamespaceClaim :: string where "stsNamespaceClaim = ''https://sts.amazonaws.com/''"

definition StsWebVerify :: "verifierEnv \<Rightarrow> StsWebConfig \<Rightarrow> regRequest \<Rightarrow> Identity result" where
  "StsWebVerify env cfg r =
     (if bearer r = [] then Inl (Err ''missing web-identity token'')
      else case veStsWeb env (bearer r) of
          Inl e \<Rightarrow> Inl e
        | Inr tok \<Rightarrow>
            (case principalTags (gget (jtClaims tok) stsNamespaceClaim) of
               Inl e \<Rightarrow> Inl e
             | Inr tags \<Rightarrow> identityFromTags cfg tags))"

definition MTLSVerify :: "string \<Rightarrow> regRequest \<Rightarrow> Identity result" where
  "MTLSVerify source r =
     (case rrPeerCertificates r of
        [] \<Rightarrow> Inl (Err ''no client certificate presented'')
      | cert # _ \<Rightarrow>
          if source = [] \<or> source = ''san_uri'' then
            (case pcURIs cert of
               [] \<Rightarrow> Inl (Err ''client certificate has no URI SAN'')
             | uri # _ \<Rightarrow> Inr (identityOK (path_base uri) uri ''mtls''))
          else if source = ''san_dns'' then
            (case pcDNSNames cert of
               [] \<Rightarrow> Inl (Err ''client certificate has no DNS SAN'')
             | dns # _ \<Rightarrow> Inr (identityOK dns dns ''mtls''))
          else if source = ''common_name'' then
            (if pcCommonName cert = [] then Inl (Err ''client certificate has no CommonName'')
             else Inr (identityOK (pcCommonName cert) (pcCommonName cert) ''mtls''))
          else Inl (Err ''unknown mTLS agent id source''))"

datatype Verifier = SpiffeVerifier string | OIDCVerifier OIDCConfig | AwsStsVerifier | StsWebVerifier StsWebConfig | MTLSVerifier string

fun Verify :: "verifierEnv \<Rightarrow> Verifier \<Rightarrow> regRequest \<Rightarrow> Identity result" where
  "Verify env (SpiffeVerifier td) r = SpiffeVerify env td r"
| "Verify env (OIDCVerifier cfg) r = OIDCVerify env cfg r"
| "Verify env AwsStsVerifier r = AwsStsVerify env r"
| "Verify env (StsWebVerifier cfg) r = StsWebVerify env cfg r"
| "Verify env (MTLSVerifier source) r = MTLSVerify source r"

section \<open>The organization-aware verifier\<close>

record OrgAwareVerifier =
  oaDef :: Verifier
  oaSpiffe :: "Verifier option"

definition looksLikeStsCredential :: "verifierEnv \<Rightarrow> string \<Rightarrow> bool" where
  "looksLikeStsCredential env cred =
     (cred \<noteq> [] \<and>
      (case base64Decode (veSts env) cred of
         Inl e \<Rightarrow> False
       | Inr b \<Rightarrow> (case veEnvelope env b of Inl e \<Rightarrow> False | Inr (method, url) \<Rightarrow> method \<noteq> [] \<and> url \<noteq> [])))"

definition looksLikeSpiffeSVID :: "verifierEnv \<Rightarrow> string \<Rightarrow> bool" where
  "looksLikeSpiffeSVID env cred =
     (let parts = split_on (CHR ''.'') cred
      in length parts = 3 \<and>
         (case veRawURL env (parts ! 1) of
            Inl e \<Rightarrow> False
          | Inr payload \<Rightarrow> (case veSub env payload of Inl e \<Rightarrow> False | Inr sub \<Rightarrow> has_prefix sub ''spiffe://'')))"

definition bindSpireOrg :: "'s Store \<Rightarrow> 's \<Rightarrow> Identity \<Rightarrow> Identity result" where
  "bindSpireOrg S s ident =
     (if idOrgID ident = [] then
        (if idPlatformSVID ident \<and>
            (case GetAgent S (idAgentID ident) s of
               Inl e \<Rightarrow> False
             | Inr rec \<Rightarrow> agAgentID rec \<noteq> [] \<and> agPlacement rec = PlacementSubstrate)
         then Inl (Err ''platform SVID cannot authenticate a substrate-placed record'')
         else Inr ident)
      else (case GetAgent S (idAgentID ident) s of
              Inl e \<Rightarrow> Inl e
            | Inr rec \<Rightarrow>
                if agAgentID rec = [] \<or> agOrgID rec = [] \<or> agOrgID rec \<noteq> idOrgID ident
                then Inl (Err ''SVID org does not match the org of the agent record'')
                else Inr ident))"

definition bindStsOrg :: "verifierEnv \<Rightarrow> OrgAwareVerifier \<Rightarrow> 's Store \<Rightarrow> 's \<Rightarrow> regRequest \<Rightarrow> CallerIdentity \<Rightarrow> string \<Rightarrow> Identity result" where
  "bindStsOrg env V S s r ident agentID =
     (case GetAgent S agentID s of
        Inl e \<Rightarrow> Inl e
      | Inr rec \<Rightarrow>
          if agAgentID rec = [] then Inl (Err ''unknown agent for STS credential'')
          else if agOrgID rec = [] then Verify env (oaDef V) r
          else (case GetOrg S (agOrgID rec) s of
                  Inl e \<Rightarrow> Inl e
                | Inr found \<Rightarrow>
                    (case (case found of None \<Rightarrow> None | Some org \<Rightarrow> orgAnchor org) of
                       None \<Rightarrow> Inl (Err ''org has no active STS anchor'')
                     | Some anchor \<Rightarrow>
                         if ancStatus anchor \<noteq> AnchorActive \<or> ancType anchor \<noteq> ''sts'' then Inl (Err ''org has no active STS anchor'')
                         else if ciAccount ident = [] \<or> ciAccount ident \<noteq> ancAWSAccountID anchor
                         then Inl (Err ''STS account is not the anchor account of the org of the agent'')
                         else if \<not> MatchRoleArnPattern (ancRoleArnPattern anchor) (ciArn ident)
                         then Inl (Err ''STS role ARN does not match the org anchor pattern'')
                         else Inr (identityOK agentID (ciArn ident) ''aws-sts''))))"

definition orgAwareVerify :: "verifierEnv \<Rightarrow> OrgAwareVerifier \<Rightarrow> 's Store \<Rightarrow> 's \<Rightarrow> regRequest \<Rightarrow> Identity result" where
  "orgAwareVerify env V S s r =
     (if \<not> looksLikeStsCredential env (bearer r) then
        (let nonSts = (case oaSpiffe V of
                         Some sv \<Rightarrow> if looksLikeSpiffeSVID env (bearer r) then sv else oaDef V
                       | None \<Rightarrow> oaDef V)
         in case Verify env nonSts r of Inl e \<Rightarrow> Inl e | Inr ident \<Rightarrow> bindSpireOrg S s ident)
      else case VerifyCallerIdentity (veSts env) (veTrusted env) (veNow env) (bearer r) of
          Inl e \<Rightarrow> Inl e
        | Inr ident \<Rightarrow>
            (case SessionNameFromArn (ciArn ident) of
               Inl e \<Rightarrow> Inl e
             | Inr agentID \<Rightarrow> bindStsOrg env V S s r ident agentID))"

section \<open>The configured verifier\<close>

definition getEnv :: "(string \<Rightarrow> string) \<Rightarrow> string \<Rightarrow> string \<Rightarrow> string" where
  "getEnv os key fallback = (if os key \<noteq> [] then os key else fallback)"

definition attestorDefault :: "(string \<Rightarrow> string) \<Rightarrow> string option" where
  "attestorDefault os =
     (let a = getEnv os ''ATTESTOR'' ''spiffe''
      in if a = ''spiffe'' then Some ''spiffe-svid'' else if a = ''aws-sts'' then Some ''aws-sts''
         else if a = ''aws-stsweb'' then Some ''aws-stsweb'' else None)"

text \<open>\<^term>\<open>None\<close> is a process that does not start. \<open>jwks\<close> tells whether the keys of a URL can be fetched at the start.\<close>

definition defaultVerifier :: "(string \<Rightarrow> bool) \<Rightarrow> (string \<Rightarrow> string) \<Rightarrow> string \<Rightarrow> Verifier option" where
  "defaultVerifier jwks os kind =
     (if kind = ''spiffe-svid'' then
        (if jwks (getEnv os ''SPIRE_JWKS_URL'' ''http://spire-oidc/.well-known/jwks.json'')
         then Some (SpiffeVerifier (getEnv os ''SPIRE_TRUST_DOMAIN'' ''cluster.local'')) else None)
      else if kind = ''oidc'' then
        (if os ''OIDC_JWKS_URL'' \<noteq> [] \<and> jwks (os ''OIDC_JWKS_URL'')
         then Some (OIDCVerifier (NewOIDCVerifier \<lparr>ocAgentIDClaim = getEnv os ''OIDC_AGENT_ID_CLAIM'' ''sub''\<rparr>)) else None)
      else if kind = ''aws-sts'' then Some AwsStsVerifier
      else if kind = ''aws-stsweb'' then
        (let issuer = os ''STSWEB_ISSUER''; u = os ''STSWEB_JWKS_URL'';
             jwksURL = (if u = [] \<and> issuer \<noteq> [] then rev (dropWhile (\<lambda>c. c = CHR ''/'') (rev issuer)) @ ''/.well-known/jwks.json'' else u)
         in if jwksURL \<noteq> [] \<and> jwks jwksURL
            then Some (StsWebVerifier \<lparr>swNamespace = os ''STSWEB_NAMESPACE'', swServiceAccount = os ''STSWEB_SERVICE_ACCOUNT'',
                         swClusterARN = os ''STSWEB_CLUSTER_ARN'', swPodSuffix = []\<rparr>)
            else None)
      else if kind = ''mtls'' then
        (if os ''MTLS_CLIENT_CA_PATH'' = [] then None else Some (MTLSVerifier (getEnv os ''MTLS_AGENT_ID_SOURCE'' ''san_uri'')))
      else None)"

definition substrateVerifier :: "(string \<Rightarrow> bool) \<Rightarrow> (string \<Rightarrow> string) \<Rightarrow> string \<Rightarrow> Verifier option option" where
  "substrateVerifier jwks os kind =
     (let sv = os ''REGISTRANT_SUBSTRATE_VERIFIER''
      in if sv = [] then Some None
         else if sv \<noteq> ''spiffe-svid'' then None
         else if kind = ''spiffe-svid'' then Some None
         else map_option Some (defaultVerifier jwks os ''spiffe-svid''))"

definition buildVerifier :: "(string \<Rightarrow> bool) \<Rightarrow> (string \<Rightarrow> string) \<Rightarrow> OrgAwareVerifier option" where
  "buildVerifier jwks os =
     (case attestorDefault os of
        None \<Rightarrow> None
      | Some d \<Rightarrow>
          (let kind = getEnv os ''REGISTRANT_VERIFIER'' d
           in case (defaultVerifier jwks os kind, substrateVerifier jwks os kind) of
                (Some def, Some sv) \<Rightarrow> Some \<lparr>oaDef = def, oaSpiffe = sv\<rparr>
              | _ \<Rightarrow> None))"

section \<open>What an accepted credential proves\<close>

text \<open>In every configuration that starts SPIFFE identities are pinned to a trust domain, and with SPIFFE as default there is no second verifier.\<close>

lemma buildVerifier_spiffe:
  assumes "buildVerifier jwks os = Some V"
  shows "(oaDef V = SpiffeVerifier td \<longrightarrow> td \<noteq> [] \<and> oaSpiffe V = None) \<and> (oaSpiffe V = Some sv \<longrightarrow> (\<exists>td. td \<noteq> [] \<and> sv = SpiffeVerifier td))"
proof -
  obtain k where d: "defaultVerifier jwks os k = Some (oaDef V)" "substrateVerifier jwks os k = Some (oaSpiffe V)"
    using assms by (auto simp: buildVerifier_def Let_def split: option.splits)
  have ne: "getEnv os ''SPIRE_TRUST_DOMAIN'' ''cluster.local'' \<noteq> []" by (simp add: getEnv_def)
  have def: "k' = ''spiffe-svid'' \<and> t \<noteq> []" if "defaultVerifier jwks os k' = Some (SpiffeVerifier t)" for k' t
    using that ne by (simp add: defaultVerifier_def Let_def split: if_splits)
  have svid: "\<exists>t. t \<noteq> [] \<and> v = SpiffeVerifier t" if "defaultVerifier jwks os ''spiffe-svid'' = Some v" for v
    using that ne by (auto simp: defaultVerifier_def split: if_splits)
  show ?thesis
  proof (intro conjI impI)
    assume o: "oaDef V = SpiffeVerifier td"
    have k: "k = ''spiffe-svid'' \<and> td \<noteq> []" by (rule def) (simp add: d(1) flip: o)
    then show "td \<noteq> []" "oaSpiffe V = None" using d(2) by (simp_all add: substrateVerifier_def Let_def split: if_splits)
  next
    assume "oaSpiffe V = Some sv"
    then have "defaultVerifier jwks os ''spiffe-svid'' = Some sv" using d(2) by (simp add: substrateVerifier_def Let_def split: if_splits)
    then show "\<exists>td. td \<noteq> [] \<and> sv = SpiffeVerifier td" by (rule svid)
  qed
qed

lemma SpiffeVerify_ok:
  assumes "SpiffeVerify env td r = Inr ident" and "td \<noteq> []"
  shows "\<exists>svid p. veSVID env (bearer r) = Inr svid \<and> ParsePath svid = Inr p \<and> psTrustDomain p = td \<and> idAgentID ident = psAgentID p \<and>
    idOrgID ident = psOrgID p \<and> (idPlatformSVID ident \<longleftrightarrow> psOrgID p = [])"
  using assms by (auto simp: SpiffeVerify_def split: if_splits sum.splits)

lemma bindSpireOrg_mem:
  assumes "bindSpireOrg memStore s ident = Inr ident'" and "agentsWf s" and "gget (stAgents s) (idAgentID ident) = Some a"
  shows "ident' = ident \<and> (if idOrgID ident = [] then idPlatformSVID ident \<longrightarrow> agPlacement a \<noteq> PlacementSubstrate else idOrgID ident = agOrgID a)"
  using assms agentsWf_id [OF assms(2,3)] agentsWf_nonempty [OF assms(2,3)]
  by (auto simp: bindSpireOrg_def mem_simps getAgent_def split: if_splits)

lemma bindStsOrg_mem:
  assumes "bindStsOrg env V memStore s r ident agentID = Inr ident'" and "agentsWf s" and "gget (stAgents s) agentID = Some a" and "agOrgID a \<noteq> []"
  shows "idAgentID ident' = agentID \<and> (\<exists>org anchor. gget (stOrgs s) (agOrgID a) = Some org \<and> orgAnchor org = Some anchor \<and>
    ancStatus anchor = AnchorActive \<and> ancType anchor = ''sts'' \<and> ciAccount ident = ancAWSAccountID anchor \<and> globLang (ancRoleArnPattern anchor) (ciArn ident))"
  using assms agentsWf_id [OF assms(2,3)] agentsWf_nonempty [OF assms(2,3)]
  by (auto simp: bindStsOrg_def mem_simps getAgent_def getOrg_def identityOK_def MatchRoleArnPattern_iff split: if_splits option.splits sum.splits)

lemma bindStsOrg_known:
  assumes "bindStsOrg env V memStore s r ident agentID = Inr ident'"
  shows "\<exists>a. gget (stAgents s) agentID = Some a \<and> (agOrgID a = [] \<longrightarrow> Verify env (oaDef V) r = Inr ident')"
  using assms by (auto simp: bindStsOrg_def mem_simps getAgent_def split: if_splits option.splits sum.splits)

text \<open>The identity of an accepted registration is the one its record is filed under.\<close>

lemma registered_identity:
  assumes "handleSelfRegister memStore D verified body w = (HttpOK n rec, w')"
  shows "\<exists>ident. verified = Inr ident \<and> agAgentID rec = idAgentID ident"
proof -
  obtain ident req tpl where "verified = Inr ident" "body = Inr req"
    and "registerWrites memStore D tpl (rqTenantID req)
          (registeredRecord (idAgentID ident) req tpl (getAgent (idAgentID ident) (wStore w))) w = (HttpOK n rec, w')"
    using selfRegister_admitted [OF assms] unfolding Let_def by blast
  from this(1) registerWrites_mem [OF this(3)] show ?thesis by auto
qed

text \<open>
  C22: credentials are bound to the organization of the agent. Take any configuration that starts with SPIFFE as the default verifier, and a
  registration that is accepted for an agent that is already recorded. Either the caller showed a validated SVID of the
  configured, non-empty trust domain whose last segment is the id of the agent, and its path is scoped to the very organization of the record, or
  to none and then the record is not placed on a substrate; or it showed an STS credential whose session name is the id of the agent,
  and the organization of the record has an active STS anchor with the account and a role pattern that STS attested. So no
  credential of one organization registers an agent of another, and an organization without an active anchor has no STS agents.
\<close>

theorem registration_bound_to_org:
  assumes "buildVerifier jwks os = Some V" and "oaDef V = SpiffeVerifier td"
    and jwt: "\<forall>t i. veSVID env t = Inr i \<longrightarrow> CHR ''.'' \<in> set t" and b64: "\<forall>t b. base64Decode (veSts env) t = Inr b \<longrightarrow> CHR ''.'' \<notin> set t"
    and "agentsWf (wStore w)" and "handleSelfRegister memStore D (orgAwareVerify env V memStore (wStore w) r) body w = (HttpOK n rec, w')"
    and "gget (stAgents (wStore w)) (agAgentID rec) = Some a"
  shows "td \<noteq> [] \<and>
    ((\<exists>svid p. veSVID env (bearer r) = Inr svid \<and> ParsePath svid = Inr p \<and> psTrustDomain p = td \<and> psAgentID p = agAgentID rec \<and>
        (if psOrgID p = [] then agPlacement a \<noteq> PlacementSubstrate else psOrgID p = agOrgID a)) \<or>
     (\<exists>ident org anchor. VerifyCallerIdentity (veSts env) (veTrusted env) (veNow env) (bearer r) = Inr ident \<and>
        SessionNameFromArn (ciArn ident) = Inr (agAgentID rec) \<and> agOrgID a \<noteq> [] \<and> gget (stOrgs (wStore w)) (agOrgID a) = Some org \<and>
        orgAnchor org = Some anchor \<and> ancStatus anchor = AnchorActive \<and> ancType anchor = ''sts'' \<and>
        ciAccount ident = ancAWSAccountID anchor \<and> globLang (ancRoleArnPattern anchor) (ciArn ident)))"
proof -
  have td: "td \<noteq> []" "oaSpiffe V = None" using buildVerifier_spiffe [OF assms(1), of td] assms(2) by auto
  obtain ident where v: "orgAwareVerify env V memStore (wStore w) r = Inr ident" "agAgentID rec = idAgentID ident"
    using registered_identity [OF assms(6)] by blast
  show ?thesis
  proof (cases "looksLikeStsCredential env (bearer r)")
    case False
    then obtain i where i: "SpiffeVerify env td r = Inr i" "bindSpireOrg memStore (wStore w) i = Inr ident"
      using v(1) assms(2) td(2) by (auto simp: orgAwareVerify_def split: sum.splits)
    have "idAgentID ident = idAgentID i" using i(2) by (auto simp: bindSpireOrg_def mem_simps split: if_splits)
    then have "gget (stAgents (wStore w)) (idAgentID i) = Some a" using assms(7) v(2) by simp
    note bound = bindSpireOrg_mem [OF i(2) assms(5) this]
    obtain svid p where p: "veSVID env (bearer r) = Inr svid" "ParsePath svid = Inr p" "psTrustDomain p = td" "idAgentID i = psAgentID p"
        "idOrgID i = psOrgID p" "idPlatformSVID i \<longleftrightarrow> psOrgID p = []"
      using SpiffeVerify_ok [OF i(1) td(1)] by blast
    then have "if psOrgID p = [] then agPlacement a \<noteq> PlacementSubstrate else psOrgID p = agOrgID a" using bound by (auto split: if_splits)
    moreover have "psAgentID p = agAgentID rec" using p(4) v(2) bound by simp
    ultimately show ?thesis using p(1-3) td(1) by blast
  next
    case True
    then obtain ci agentID where s: "VerifyCallerIdentity (veSts env) (veTrusted env) (veNow env) (bearer r) = Inr ci"
        "SessionNameFromArn (ciArn ci) = Inr agentID" "bindStsOrg env V memStore (wStore w) r ci agentID = Inr ident"
      using v(1) by (auto simp: orgAwareVerify_def split: sum.splits)
    obtain b where b: "gget (stAgents (wStore w)) agentID = Some b" "agOrgID b = [] \<Longrightarrow> Verify env (oaDef V) r = Inr ident"
      using bindStsOrg_known [OF s(3)] by blast
    have org: "agOrgID b \<noteq> []"
    proof
      assume "agOrgID b = []"
      then have "SpiffeVerify env td r = Inr ident" using b(2) assms(2) by simp
      then obtain svid where "veSVID env (bearer r) = Inr svid" using SpiffeVerify_ok [OF _ td(1)] by blast
      moreover obtain d where "base64Decode (veSts env) (bearer r) = Inr d" using True by (auto simp: looksLikeStsCredential_def split: sum.splits)
      ultimately show False using jwt b64 by blast
    qed
    note st = bindStsOrg_mem [OF s(3) assms(5) b(1) org]
    then have "agAgentID rec = agentID" "b = a" using v(2) b(1) assms(7) by auto
    then show ?thesis using st s org td(1) by blast
  qed
qed

section \<open>Concrete registrations\<close>

definition svidEnv :: verifierEnv where
  "svidEnv = \<lparr>veSts = exampleEnv\<lparr>base64Decode := (\<lambda>t. if CHR ''.'' \<in> set t then Inl (Err ''illegal base64'') else Inr t)\<rparr>,
     veTrusted = [], veNow = 5,
     veSVID = (\<lambda>t. if t = ''h.p.s'' then Inr ''spiffe://cluster.local/org/acme/agent/t/u/worker/w1'' else Inl (Err ''invalid SVID'')),
     veOIDC = (\<lambda>_. Inl (Err ''none'')), veStsWeb = (\<lambda>_. Inl (Err ''none'')),
     veEnvelope = (\<lambda>b. if b = ''sts'' then Inr (''GET'', ''https://sts.amazonaws.com/'') else Inl (Err ''not an envelope'')),
     veRawURL = (\<lambda>_. Inl (Err ''none'')), veSub = (\<lambda>_. Inl (Err ''none''))\<rparr>"

definition svidReq :: regRequest where
  "svidReq = \<lparr>rrAuthorization = ''Bearer h.p.s'', rrPeerCertificates = []\<rparr>"

definition kindVerifier :: OrgAwareVerifier where
  "kindVerifier = \<lparr>oaDef = SpiffeVerifier ''cluster.local'', oaSpiffe = None\<rparr>"

lemma kindVerifier_built: "buildVerifier (\<lambda>_. True) (\<lambda>_. []) = Some kindVerifier"
  by code_simp

lemma svid_registers:
  "case handleSelfRegister memStore mockClient (orgAwareVerify svidEnv kindVerifier memStore (wStore preWorld) svidReq) (Inr selfReq) preWorld of
     (HttpOK n rec, w') \<Rightarrow> n = 201 \<and> agAgentID rec = ''w1'' | _ \<Rightarrow> False"
  by code_simp

text \<open>The organization in the path of the accepted SVID is the one of the recorded agent.\<close>

theorem registration_bound_to_org_witness:
  "\<exists>rec w' svid p. handleSelfRegister memStore mockClient (orgAwareVerify svidEnv kindVerifier memStore (wStore preWorld) svidReq) (Inr selfReq) preWorld =
      (HttpOK 201 rec, w') \<and> veSVID svidEnv ''h.p.s'' = Inr svid \<and> ParsePath svid = Inr p \<and> psOrgID p = ''acme'' \<and> psAgentID p = agAgentID rec"
proof -
  obtain rec w' where h: "handleSelfRegister memStore mockClient (orgAwareVerify svidEnv kindVerifier memStore (wStore preWorld) svidReq) (Inr selfReq) preWorld =
      (HttpOK 201 rec, w')" "agAgentID rec = ''w1''"
    using svid_registers by (auto split: prod.splits http.splits)
  have rec: "gget (stAgents (wStore preWorld)) (agAgentID rec) = Some (preRecord\<lparr>agStatus := ''pending''\<rparr>)" using h(2) by simp
  have env: "\<forall>t i. veSVID svidEnv t = Inr i \<longrightarrow> CHR ''.'' \<in> set t" "\<forall>t b. base64Decode (veSts svidEnv) t = Inr b \<longrightarrow> CHR ''.'' \<notin> set t"
    by (auto simp: svidEnv_def split: if_splits)
  have kd: "oaDef kindVerifier = SpiffeVerifier ''cluster.local''" by (simp add: kindVerifier_def)
  have b: "bearer svidReq = ''h.p.s''" by code_simp
  have "\<not> (\<exists>ident. VerifyCallerIdentity (veSts svidEnv) (veTrusted svidEnv) (veNow svidEnv) ''h.p.s'' = Inr ident)"
    by (simp add: svidEnv_def VerifyCallerIdentity_def decodePresigned_def)
  moreover have "agOrgID (preRecord\<lparr>agStatus := ''pending''\<rparr>) = ''acme''" "case ParsePath ''spiffe://cluster.local/org/acme/agent/t/u/worker/w1'' of
      Inr p \<Rightarrow> psOrgID p \<noteq> [] | Inl _ \<Rightarrow> False" by (simp add: preRecord_def, code_simp)
  ultimately show ?thesis
    using registration_bound_to_org [OF kindVerifier_built kd env preWorld_wf h(1) rec] h unfolding b
    by (auto simp: svidEnv_def split: sum.splits if_splits)
qed

text \<open>
  The check of the placement is skipped when the record cannot be read: with a store whose first read fails, the platform SVID of \<open>w1\<close>
  registers a record that is placed on a substrate.
\<close>

definition platformEnv :: verifierEnv where
  "platformEnv = svidEnv\<lparr>veSVID := (\<lambda>t. Inr ''spiffe://cluster.local/agent/t/u/worker/w1'')\<rparr>"

definition flakyStore :: "store Store" where
  "flakyStore = memStore\<lparr>GetAgent := (\<lambda>oid s. Inl (Err ''timeout''))\<rparr>"

definition substrateWorld :: "(store, Mock) world" where
  "substrateWorld = preWorld\<lparr>wStore := (wStore preWorld)\<lparr>stAgents := [(''w1'', preRecord\<lparr>agStatus := ''pending'', agPlacement := PlacementSubstrate\<rparr>)]\<rparr>\<rparr>"

lemma outage_admits_platform_svid:
  "orgAwareVerify platformEnv kindVerifier memStore (wStore substrateWorld) svidReq = Inl (Err ''platform SVID cannot authenticate a substrate-placed record'') \<and>
   (case handleSelfRegister memStore mockClient (orgAwareVerify platformEnv kindVerifier flakyStore (wStore substrateWorld) svidReq) (Inr selfReq) substrateWorld of
      (HttpOK n rec, w') \<Rightarrow> agPlacement rec = PlacementSubstrate | _ \<Rightarrow> False)"
  by code_simp

end
