(* ===== verification/ControlPlane.thy ===== *)
theory ControlPlane
  imports Registrant
begin

text \<open>
  How the platform's own services prove themselves to the registry (\<open>internal/controlplane\<close>): the authenticators of the server, how the
  registry picks one, and the bearer the clients send. Signature, audience and expiry of an OIDC token are checked by a library, whose
  verdict is a parameter.
\<close>

section \<open>Authenticators\<close>

record Caller =
  caClientID :: string
  caScopes :: "string list"

text \<open>An OIDC configuration with its verdict: \<^const>\<open>Inr\<close> the token of a valid text for the audience.\<close>

record cpOIDC =
  coAudience :: string
  coRequiredScope :: string
  coParse :: "string \<Rightarrow> string \<Rightarrow> jwtToken result"

datatype Authenticator = AllowAll | SharedSecret string | OIDCAuth cpOIDC

definition NewSharedSecret :: "string \<Rightarrow> Authenticator" where
  "NewSharedSecret token = SharedSecret (''Bearer '' @ token)"

definition allowAllAuthenticate :: "Caller result" where
  "allowAllAuthenticate = Inr \<lparr>caClientID = ''anonymous'', caScopes = []\<rparr>"

definition sharedSecretAuthenticate :: "string \<Rightarrow> string \<Rightarrow> Caller result" where
  "sharedSecretAuthenticate want authz =
     (if authz \<noteq> want then Inl (Err ''invalid control-plane token'') else Inr \<lparr>caClientID = ''shared-secret'', caScopes = []\<rparr>)"

fun stringElems :: "any list \<Rightarrow> string list" where
  "stringElems [] = []"
| "stringElems (AString s # xs) = s # stringElems xs"
| "stringElems (_ # xs) = stringElems xs"

definition cpScopeClaim :: "jwtToken \<Rightarrow> string list" where
  "cpScopeClaim tok =
     (case gget (jtClaims tok) ''scope'' of
        Some (AString s) \<Rightarrow> splitNonEmpty s
      | Some (AStrings ss) \<Rightarrow> ss
      | Some (AArr xs) \<Rightarrow> stringElems xs
      | _ \<Rightarrow> [])"

definition cpClientID :: "jwtToken \<Rightarrow> string" where
  "cpClientID tok =
     (case gget (jtClaims tok) ''client_id'' of
        Some (AString s) \<Rightarrow> if s \<noteq> [] then s else jtSubject tok
      | _ \<Rightarrow> jtSubject tok)"

fun cpContains :: "string list \<Rightarrow> string \<Rightarrow> bool" where
  "cpContains [] want = False"
| "cpContains (x # xs) want = (if x = want then True else cpContains xs want)"

definition oidcAuthenticate :: "cpOIDC \<Rightarrow> string \<Rightarrow> Caller result" where
  "oidcAuthenticate cfg authz =
     (let rawToken = trim_prefix authz ''Bearer ''
      in if rawToken = [] then Inl (Err ''missing bearer token'')
         else case coParse cfg (coAudience cfg) rawToken of
             Inl e \<Rightarrow> Inl (Err (''invalid token: '' @ errString e))
           | Inr tok \<Rightarrow>
               (let scopes = cpScopeClaim tok
                in if coRequiredScope cfg \<noteq> [] \<and> \<not> cpContains scopes (coRequiredScope cfg) then Inl (Err ''token missing required scope'')
                   else Inr \<lparr>caClientID = cpClientID tok, caScopes = scopes\<rparr>))"

text \<open>The Authorization header of a request without one is the empty text.\<close>

fun Authenticate :: "Authenticator \<Rightarrow> string \<Rightarrow> Caller result" where
  "Authenticate AllowAll authz = allowAllAuthenticate"
| "Authenticate (SharedSecret want) authz = sharedSecretAuthenticate want authz"
| "Authenticate (OIDCAuth cfg) authz = oidcAuthenticate cfg authz"

section \<open>Configuration\<close>

text \<open>
  The registry's choice, \<^const>\<open>None\<close> when it stops at start-up; \<open>initial\<close> is whether the first fetch of the keys works and \<open>parse\<close> the verdict
  with them.
\<close>

definition buildControlPlaneAuth ::
  "(string \<Rightarrow> string) \<Rightarrow> (string \<Rightarrow> bool) \<Rightarrow> (string \<Rightarrow> string \<Rightarrow> string \<Rightarrow> jwtToken result) \<Rightarrow> Authenticator option" where
  "buildControlPlaneAuth os initial parse =
     (let v = getEnv os ''CONTROL_PLANE_AUTH'' ''none''
      in if v = ''none'' then Some AllowAll
         else if v = ''shared-secret'' then
           (let token = getEnv os ''CONTROL_PLANE_TOKEN'' []
            in if token = [] then None else Some (NewSharedSecret token))
         else if v = ''oidc'' then
           (let jwks = getEnv os ''CONTROL_PLANE_OIDC_JWKS_URL'' []
            in if jwks = [] \<or> \<not> initial jwks then None
               else Some (OIDCAuth \<lparr>coAudience = getEnv os ''CONTROL_PLANE_OIDC_AUDIENCE'' ''registry'',
                      coRequiredScope = getEnv os ''CONTROL_PLANE_OIDC_SCOPE'' ''registry.consent'', coParse = parse jwks\<rparr>))
         else None)"

record clientCredentials =
  ccClientID :: string
  ccClientSecret :: string
  ccTokenURL :: string
  ccScopes :: "string list"

text \<open>The bearer of a client: \<open>issue\<close> is the token source of a configuration, whose failure is an empty bearer.\<close>

definition BearerSource :: "(string \<Rightarrow> string) \<Rightarrow> (clientCredentials \<Rightarrow> string result) \<Rightarrow> string result" where
  "BearerSource os issue =
     (let v = os ''CONTROL_PLANE_AUTH''
      in if v = [] \<or> v = ''none'' then Inr []
         else if v = ''shared-secret'' then
           (let token = os ''CONTROL_PLANE_TOKEN''
            in if token = [] then Inl (Err ''CONTROL_PLANE_TOKEN required when CONTROL_PLANE_AUTH=shared-secret'') else Inr token)
         else if v = ''oidc'' then
           (let scope = (if os ''CONTROL_PLANE_SCOPE'' = [] then ''registry.consent'' else os ''CONTROL_PLANE_SCOPE'');
                cfg = \<lparr>ccClientID = os ''CONTROL_PLANE_CLIENT_ID'', ccClientSecret = os ''CONTROL_PLANE_CLIENT_SECRET'',
                       ccTokenURL = os ''CONTROL_PLANE_TOKEN_URL'', ccScopes = splitNonEmpty scope\<rparr>
            in if ccClientID cfg = [] \<or> ccTokenURL cfg = [] then Inl (Err ''CONTROL_PLANE_CLIENT_ID and CONTROL_PLANE_TOKEN_URL required'')
               else case issue cfg of Inl e \<Rightarrow> Inr [] | Inr tok \<Rightarrow> Inr tok)
         else Inl (Err (''unknown CONTROL_PLANE_AUTH '' @ v)))"

definition bearerHeader :: "string \<Rightarrow> string" where
  "bearerHeader tok = (if tok = [] then [] else ''Bearer '' @ tok)"

section \<open>The two ends agree\<close>

lemma cpContains_iff: "cpContains xs want \<longleftrightarrow> want \<in> set xs"
  by (induction xs) auto

text \<open>
  With the same environment on both ends and no OIDC the bearer of a client is accepted, and a shared secret admits exactly the requests
  that carry it; a request without a bearer is refused unless the registry runs open.
\<close>

lemma shared_environment_admits:
  assumes "buildControlPlaneAuth os initial parse = Some auth" and "BearerSource os issue = Inr tok" and "os ''CONTROL_PLANE_AUTH'' \<noteq> ''oidc''"
  shows "\<exists>caller. Authenticate auth (bearerHeader tok) = Inr caller"
  using assms
  by (auto simp: buildControlPlaneAuth_def BearerSource_def getEnv_def Let_def NewSharedSecret_def bearerHeader_def sharedSecretAuthenticate_def
      allowAllAuthenticate_def split: if_splits)

lemma shared_secret_exact:
  assumes "buildControlPlaneAuth os initial parse = Some auth" and "os ''CONTROL_PLANE_AUTH'' = ''shared-secret''"
  shows "(\<exists>caller. Authenticate auth authz = Inr caller) \<longleftrightarrow> authz = ''Bearer '' @ os ''CONTROL_PLANE_TOKEN''"
    and "os ''CONTROL_PLANE_TOKEN'' \<noteq> []"
  using assms by (auto simp: buildControlPlaneAuth_def getEnv_def Let_def NewSharedSecret_def sharedSecretAuthenticate_def split: if_splits)

lemma no_bearer_refused:
  assumes "buildControlPlaneAuth os initial parse = Some auth" and "auth \<noteq> AllowAll"
  shows "\<exists>e. Authenticate auth [] = Inl e"
  using assms
  by (auto simp: buildControlPlaneAuth_def Let_def NewSharedSecret_def sharedSecretAuthenticate_def oidcAuthenticate_def trim_prefix_def has_prefix_def split: if_splits)

text \<open>A caller admitted by OIDC presented a token that the library accepts for the configured audience, with the configured scope.\<close>

lemma oidc_admits_scoped:
  assumes "buildControlPlaneAuth os initial parse = Some (OIDCAuth cfg)" and "Authenticate (OIDCAuth cfg) authz = Inr caller"
  shows "\<exists>tok. parse (os ''CONTROL_PLANE_OIDC_JWKS_URL'') (coAudience cfg) (trim_prefix authz ''Bearer '') = Inr tok \<and>
    caScopes caller = cpScopeClaim tok \<and> coRequiredScope cfg \<in> set (caScopes caller)"
proof -
  have "coRequiredScope cfg \<noteq> []" "coParse cfg = parse (os ''CONTROL_PLANE_OIDC_JWKS_URL'')"
    using assms(1) by (auto simp: buildControlPlaneAuth_def NewSharedSecret_def getEnv_def Let_def split: if_splits)
  then show ?thesis using assms(2) by (auto simp: oidcAuthenticate_def Let_def cpContains_iff split: if_splits sum.splits)
qed

end
