(* ===== verification/SubstrateEntries.thy ===== *)
theory SubstrateEntries
  imports OrchAuth Spiffe Anchors
begin

text \<open>
  The substrate surface of the orchestrator (\<open>cmd/orchestrator/substrate.go\<close>, \<open>internal/substrate/entry.go\<close>): connecting and
  disconnecting the substrate of an organization, and the Entry API through which a substrate has SPIRE registration entries
  created for its own workloads. The mechanism that keeps the entries is an \<open>EntryBroker\<close>; what the code relies on is the
  locale \<open>entry_broker\<close>.
\<close>

section \<open>Entries and brokers\<close>

record EntrySpec =
  esSPIFFEID :: string
  esParentID :: string
  esSelectors :: "string list"

text \<open>The last two operations are optional capabilities of a broker.\<close>

record 'b EntryBroker =
  ebCreate :: "EntrySpec \<Rightarrow> 'b \<Rightarrow> go_error option \<times> 'b"
  ebDelete :: "string \<Rightarrow> 'b \<Rightarrow> go_error option \<times> 'b"
  ebDeleteUnder :: "(string \<Rightarrow> 'b \<Rightarrow> go_error option \<times> 'b) option"
  ebEvict :: "(string \<Rightarrow> string \<Rightarrow> 'b \<Rightarrow> (nat \<times> go_error option) \<times> 'b) option"

datatype entryErr = EntryUnauthorized | EntryFailed go_error

definition selNamespace :: string where "selNamespace = ''k8s:ns:''"
definition selPodName :: string where "selPodName = ''k8s:pod-name:''"
definition selServiceAccount :: string where "selServiceAccount = ''k8s:sa:''"

definition bindsSelector :: "string \<Rightarrow> string \<Rightarrow> bool" where
  "bindsSelector kind sel = (has_prefix sel kind \<and> length sel > length kind)"

text \<open>Whether namespace, pod name and service account are bound; a selector counts for the first kind it fits.\<close>

fun hasSelectorKinds :: "string list \<Rightarrow> bool \<times> bool \<times> bool" where
  "hasSelectorKinds [] = (False, False, False)"
| "hasSelectorKinds (sel # sels) =
     (case hasSelectorKinds sels of (ns, pod, sa) \<Rightarrow>
        if bindsSelector selNamespace sel then (True, pod, sa)
        else if bindsSelector selPodName sel then (ns, True, sa)
        else if bindsSelector selServiceAccount sel then (ns, pod, True)
        else (ns, pod, sa))"

definition validateSelectors :: "string list \<Rightarrow> bool" where
  "validateSelectors sels = (case hasSelectorKinds sels of (ns, pod, sa) \<Rightarrow> ns \<and> pod \<and> sa)"

definition validateBootstrapSelectors :: "string list \<Rightarrow> bool" where
  "validateBootstrapSelectors sels = (case hasSelectorKinds sels of (ns, pod, sa) \<Rightarrow> ns \<and> sa)"

section \<open>Authorization of entries\<close>

text \<open>The organization of an agent record; \<^term>\<open>None\<close> when there is no such record.\<close>

definition RecordOrg :: "'w Server \<Rightarrow> string \<Rightarrow> 'w \<Rightarrow> string option result \<times> 'w" where
  "RecordOrg V agentID w =
     (case rcGetAgent (HTTPClient V) agentID w of
        (Inl e, w1) \<Rightarrow> (if e = ErrAgentNotFound then Inr None else Inl e, w1)
      | (Inr rec, w1) \<Rightarrow> (Inr (if agAgentID rec = [] then None else Some (agOrgID rec)), w1))"

definition nodeOf :: "string \<Rightarrow> string \<Rightarrow> string \<Rightarrow> bool" where
  "nodeOf td org parentID =
     (case NodeSpiffePathPrefix td org of
        None \<Rightarrow> False
      | Some prefix \<Rightarrow> has_prefix parentID prefix \<and>
          (let fp = trim_prefix parentID prefix in fp \<noteq> [] \<and> CHR ''/'' \<notin> set fp))"

definition authorizeWorkload :: "'w Server \<Rightarrow> string \<Rightarrow> string \<Rightarrow> EntrySpec \<Rightarrow> 'w \<Rightarrow> entryErr option \<times> 'w" where
  "authorizeWorkload V td callerOrg spec w =
     (if td = [] then (Some EntryUnauthorized, w)
      else case NormalizeOrgID callerOrg of
          None \<Rightarrow> (Some EntryUnauthorized, w)
        | Some caller \<Rightarrow>
            (case ParsePath (esSPIFFEID spec) of
               Inl e \<Rightarrow> (Some EntryUnauthorized, w)
             | Inr parsed \<Rightarrow>
                 if psTrustDomain parsed \<noteq> td \<or> psOrgID parsed = [] \<or> psSubstrateAgent parsed \<or> psAgentID parsed = []
                 then (Some EntryUnauthorized, w)
                 else if NormalizeOrgID (psOrgID parsed) \<noteq> Some caller \<or> psOrgID parsed \<noteq> caller then (Some EntryUnauthorized, w)
                 else if \<not> nodeOf td caller (esParentID spec) then (Some EntryUnauthorized, w)
                 else if \<not> validateSelectors (esSelectors spec) then (Some EntryUnauthorized, w)
                 else (case RecordOrg V (psAgentID parsed) w of
                         (Inl e, w1) \<Rightarrow> (Some (EntryFailed e), w1)
                       | (Inr None, w1) \<Rightarrow> (Some EntryUnauthorized, w1)
                       | (Inr (Some recOrg), w1) \<Rightarrow>
                           (if NormalizeOrgID recOrg \<noteq> Some caller then Some EntryUnauthorized else None, w1))))"

definition brokered :: "go_error option \<times> 'b \<Rightarrow> entryErr option \<times> 'b" where
  "brokered p = (map_option EntryFailed (fst p), snd p)"

definition CreateWorkloadEntry ::
  "'w Server \<Rightarrow> 'b EntryBroker \<Rightarrow> string \<Rightarrow> string \<Rightarrow> EntrySpec \<Rightarrow> 'w \<times> 'b \<Rightarrow> entryErr option \<times> 'w \<times> 'b" where
  "CreateWorkloadEntry V B td callerOrg spec st =
     (case authorizeWorkload V td callerOrg spec (fst st) of
        (Some e, w1) \<Rightarrow> (Some e, w1, snd st)
      | (None, w1) \<Rightarrow> (case brokered (ebCreate B spec (snd st)) of (e, b1) \<Rightarrow> (e, w1, b1)))"

definition DeleteWorkloadEntry ::
  "'w Server \<Rightarrow> 'b EntryBroker \<Rightarrow> string \<Rightarrow> string \<Rightarrow> string \<Rightarrow> 'w \<times> 'b \<Rightarrow> entryErr option \<times> 'w \<times> 'b" where
  "DeleteWorkloadEntry V B td callerOrg spiffeID st =
     (if td = [] then (Some EntryUnauthorized, st)
      else case (NormalizeOrgID callerOrg, ParsePath spiffeID) of
          (Some caller, Inr parsed) \<Rightarrow>
            if psTrustDomain parsed \<noteq> td \<or> psOrgID parsed = [] \<or> psSubstrateAgent parsed \<or> NormalizeOrgID (psOrgID parsed) \<noteq> Some caller
            then (Some EntryUnauthorized, st)
            else (case RecordOrg V (psAgentID parsed) (fst st) of
                    (Inl e, w1) \<Rightarrow> (Some (EntryFailed e), w1, snd st)
                  | (Inr r, w1) \<Rightarrow>
                      if (case r of None \<Rightarrow> False | Some recOrg \<Rightarrow> NormalizeOrgID recOrg \<noteq> Some caller)
                      then (Some EntryUnauthorized, w1, snd st)
                      else (case brokered (ebDelete B spiffeID (snd st)) of (e, b1) \<Rightarrow> (e, w1, b1)))
        | _ \<Rightarrow> (Some EntryUnauthorized, st))"

definition InvalidateOrgNodeEntries :: "'b EntryBroker \<Rightarrow> string \<Rightarrow> string \<Rightarrow> 'b \<Rightarrow> go_error option \<times> 'b" where
  "InvalidateOrgNodeEntries B td orgID b =
     (if td = [] then (Some (Err ''unauthorized''), b)
      else case NormalizeOrgID orgID of
          None \<Rightarrow> (Some (Err ''invalid org id''), b)
        | Some org \<Rightarrow>
            (case NodeSpiffePathPrefix td org of
               None \<Rightarrow> (Some (Err ''node prefix''), b)
             | Some prefix \<Rightarrow>
                 (case ebDeleteUnder B of
                    None \<Rightarrow> (Some (Err ''entry broker does not support parent-prefix deletion''), b)
                  | Some del \<Rightarrow> del prefix b)))"

definition EvictSupersededOrgNodes :: "'b EntryBroker \<Rightarrow> string \<Rightarrow> string \<Rightarrow> string \<Rightarrow> 'b \<Rightarrow> (nat \<times> go_error option) \<times> 'b" where
  "EvictSupersededOrgNodes B td orgID keep b =
     (if td = [] then ((0, Some (Err ''unauthorized'')), b)
      else case NormalizeOrgID orgID of
          None \<Rightarrow> ((0, Some (Err ''invalid org id'')), b)
        | Some org \<Rightarrow>
            (case NodeSpiffePathPrefix td org of
               None \<Rightarrow> ((0, Some (Err ''node prefix'')), b)
             | Some prefix \<Rightarrow>
                 (case ebEvict B of
                    None \<Rightarrow> ((0, Some (Err ''entry broker does not support node eviction'')), b)
                  | Some ev \<Rightarrow> ev prefix keep b)))"

definition ProvisionSubstrateAgentEntry ::
  "'b EntryBroker \<Rightarrow> string \<Rightarrow> string \<Rightarrow> string \<Rightarrow> string list \<Rightarrow> 'b \<Rightarrow> go_error option \<times> 'b" where
  "ProvisionSubstrateAgentEntry B td orgID nodeID selectors b =
     (case NormalizeOrgID orgID of
        None \<Rightarrow> (Some (Err ''invalid org id''), b)
      | Some org \<Rightarrow>
          (case (BuildSubstrateAgentPath td org, NodeSpiffePathPrefix td org) of
             (Inr spiffeID, Some prefix) \<Rightarrow>
               if \<not> has_prefix nodeID prefix then (Some (Err ''substrate-agent parent is not the x509pop node of the org''), b)
               else if \<not> validateBootstrapSelectors selectors then (Some (Err ''selectors must bind namespace and service account''), b)
               else ebCreate B \<lparr>esSPIFFEID = spiffeID, esParentID = nodeID, esSelectors = selectors\<rparr> b
           | _ \<Rightarrow> (Some (Err ''build substrate-agent id''), b)))"

section \<open>The handlers\<close>

record IssuedIdentity =
  iiCertPEM :: string
  iiKeyPEM :: string
  iiCertFingerprint :: string
  iiCertSerial :: string
  iiNodeID :: string
  iiExpiresAt :: time

text \<open>
  The surface with its collaborators: the registry client, the registry's routes of the substrate record, the certificate authority (\<open>Some\<close> when
  configured; its randomness makes it an argument of each request), the reader of the organization in a leaf, the broker and the
  check of an Authorization header (\<open>Some\<close> once they are published).
\<close>

record ('w, 'b) substrateAPI =
  saServer :: "'w Server"
  saPutRoute :: "string \<Rightarrow> substrateReq \<Rightarrow> 'w \<Rightarrow> Organization http result \<times> 'w"
  saDeleteRoute :: "string \<Rightarrow> 'w \<Rightarrow> unit http result \<times> 'w"
  saTrustDomain :: string
  saLeafOrg :: "string \<Rightarrow> string result"
  saBroker :: "'b EntryBroker option"
  saAuth :: "(string \<Rightarrow> string result) option"
  saAgentNamespace :: string
  saAgentSA :: string

definition putSubstrateRecord ::
  "('w, 'b) substrateAPI \<Rightarrow> string \<Rightarrow> string \<Rightarrow> string \<Rightarrow> 'w \<Rightarrow> go_error option \<times> 'w" where
  "putSubstrateRecord api orgID fingerprint serial w =
     onFst (checked ''registry PUT substrate'' (\<lambda>c. c = 200)) (saPutRoute api orgID \<lparr>srCertFingerprint = fingerprint, srCertSerial = serial\<rparr> w)"

definition deleteSubstrateRecord :: "('w, 'b) substrateAPI \<Rightarrow> string \<Rightarrow> 'w \<Rightarrow> go_error option \<times> 'w" where
  "deleteSubstrateRecord api orgID w =
     onFst (checked ''registry DELETE substrate'' (\<lambda>c. c = 204 \<or> c = 404)) (saDeleteRoute api orgID w)"

definition bootstrapSelectors :: "('w, 'b) substrateAPI \<Rightarrow> string list" where
  "bootstrapSelectors api = [''k8s:ns:'' @ saAgentNamespace api, ''k8s:sa:'' @ saAgentSA api]"

text \<open>The old bootstrap entry is deleted when the sweep of the node prefix fails.\<close>

definition clearBootstrap :: "'b EntryBroker \<Rightarrow> string \<Rightarrow> string \<Rightarrow> 'b \<Rightarrow> go_error option \<times> 'b" where
  "clearBootstrap B td org b = (case BuildSubstrateAgentPath td org of Inl e \<Rightarrow> (None, b) | Inr i \<Rightarrow> ebDelete B i b)"

definition sweepOrg :: "'b EntryBroker \<Rightarrow> string \<Rightarrow> string \<Rightarrow> 'b \<Rightarrow> go_error option \<times> 'b" where
  "sweepOrg B td org b =
     (case InvalidateOrgNodeEntries B td org b of
        (None, b1) \<Rightarrow> (None, b1)
      | (Some e, b1) \<Rightarrow> clearBootstrap B td org b1)"

definition provision :: "('w, 'b) substrateAPI \<Rightarrow> 'b EntryBroker \<Rightarrow> string \<Rightarrow> string \<Rightarrow> 'b \<Rightarrow> go_error option \<times> 'b" where
  "provision api B org nodeID b =
     (case sweepOrg B (saTrustDomain api) org b of
        (Some e, b2) \<Rightarrow> (Some e, b2)
      | (None, b2) \<Rightarrow>
          (case EvictSupersededOrgNodes B (saTrustDomain api) org nodeID b2 of
             (r, b3) \<Rightarrow> ProvisionSubstrateAgentEntry B (saTrustDomain api) org nodeID (bootstrapSelectors api) b3))"

definition connectSubstrate ::
  "('w, 'b) substrateAPI \<Rightarrow> (string \<Rightarrow> IssuedIdentity result) option \<Rightarrow> string \<Rightarrow> 'w \<times> 'b \<Rightarrow> (string \<times> IssuedIdentity) http \<times> 'w \<times> 'b" where
  "connectSubstrate api issuer orgID st =
     (case issuer of
        None \<Rightarrow> (HttpError 503 ''substrate connect is not configured'', st)
      | Some issue \<Rightarrow>
          (case NormalizeOrgID orgID of
             None \<Rightarrow> (HttpError 400 ''invalid org id'', st)
           | Some org \<Rightarrow>
               (case issue org of
                  Inl e \<Rightarrow> (HttpError 500 ''failed to issue substrate identity'', st)
                | Inr issued \<Rightarrow>
                    if saLeafOrg api (iiCertPEM issued) \<noteq> Inr org then (HttpError 500 ''failed to issue substrate identity'', st)
                    else (case putSubstrateRecord api org (iiCertFingerprint issued) (iiCertSerial issued) (fst st) of
                            (Some e, w1) \<Rightarrow> (HttpError 502 ''failed to record substrate'', w1, snd st)
                          | (None, w1) \<Rightarrow>
                              (case saBroker api of
                                 None \<Rightarrow> (HttpOK 201 (org, issued), w1, snd st)
                               | Some B \<Rightarrow>
                                   (case provision api B org (iiNodeID issued) (snd st) of
                                      (Some e, b1) \<Rightarrow> (HttpError 502 ''failed to provision substrate identity'', w1, b1)
                                    | (None, b1) \<Rightarrow> (HttpOK 201 (org, issued), w1, b1)))))))"

definition substrateStatus ::
  "('w, 'b) substrateAPI \<Rightarrow> substrateHub option \<Rightarrow> string \<Rightarrow> 'w \<Rightarrow> (Substrate \<times> bool \<times> time option) http \<times> 'w" where
  "substrateStatus api hub orgID w =
     (case NormalizeOrgID orgID of
        None \<Rightarrow> (HttpError 400 ''invalid org id'', w)
      | Some org \<Rightarrow>
          (case fetchOrg (saServer api) org w of
             (Inl e, w1) \<Rightarrow> (HttpError 502 ''registry unavailable'', w1)
           | (Inr rec, w1) \<Rightarrow>
               (case orgSubstrate rec of
                  None \<Rightarrow> (HttpError 404 ''no substrate connected'', w1)
                | Some sub \<Rightarrow> (HttpOK 200 (sub, case hub of None \<Rightarrow> (False, None) | Some h \<Rightarrow> liveness org h), w1))))"

definition disconnectSubstrate :: "('w, 'b) substrateAPI \<Rightarrow> string \<Rightarrow> 'w \<times> 'b \<Rightarrow> unit http \<times> 'w \<times> 'b" where
  "disconnectSubstrate api orgID st =
     (case NormalizeOrgID orgID of
        None \<Rightarrow> (HttpError 400 ''invalid org id'', st)
      | Some org \<Rightarrow>
          (case deleteSubstrateRecord api org (fst st) of
             (Some e, w1) \<Rightarrow> (HttpError 502 ''failed to disconnect substrate'', w1, snd st)
           | (None, w1) \<Rightarrow>
               (case saBroker api of
                  None \<Rightarrow> (HttpOK 204 (), w1, snd st)
                | Some B \<Rightarrow>
                    (case sweepOrg B (saTrustDomain api) org (snd st) of
                       (e, b1) \<Rightarrow> (HttpOK 204 (), w1, snd (EvictSupersededOrgNodes B (saTrustDomain api) org [] b1))))))"

text \<open>A caller of the Entry API: its organization comes from the checked SVID, and must have a connected substrate.\<close>

definition authEntryCaller ::
  "('w, 'b) substrateAPI \<Rightarrow> string \<Rightarrow> 'w \<Rightarrow> ('x http + string \<times> 'b EntryBroker) \<times> 'w" where
  "authEntryCaller api authz w =
     (case (saBroker api, saAuth api) of
        (Some B, Some auth) \<Rightarrow>
          (case auth authz of
             Inl e \<Rightarrow> (Inl (HttpError 401 ''unauthorized''), w)
           | Inr callerOrg \<Rightarrow>
               (case fetchOrg (saServer api) callerOrg w of
                  (Inl e, w1) \<Rightarrow> (Inl (HttpError 502 ''registry unavailable''), w1)
                | (Inr org, w1) \<Rightarrow>
                    (if orgSubstrate org = None then Inl (HttpError 403 ''forbidden'') else Inr (callerOrg, B), w1)))
      | _ \<Rightarrow> (Inl (HttpError 503 ''substrate entry API is not configured''), w))"

fun writeEntryError :: "entryErr \<Rightarrow> 'x http" where
  "writeEntryError EntryUnauthorized = HttpError 403 ''forbidden''"
| "writeEntryError (EntryFailed e) = HttpError 502 ''entry operation failed''"

definition createEntry ::
  "('w, 'b) substrateAPI \<Rightarrow> string \<Rightarrow> EntrySpec result \<Rightarrow> 'w \<times> 'b \<Rightarrow> unit http \<times> 'w \<times> 'b" where
  "createEntry api authz body st =
     (case authEntryCaller api authz (fst st) of
        (Inl a, w1) \<Rightarrow> (a, w1, snd st)
      | (Inr (callerOrg, B), w1) \<Rightarrow>
          (case body of
             Inl e \<Rightarrow> (HttpError 400 ''invalid request body'', w1, snd st)
           | Inr spec \<Rightarrow>
               (case CreateWorkloadEntry (saServer api) B (saTrustDomain api) callerOrg spec (w1, snd st) of
                  (Some e, st2) \<Rightarrow> (writeEntryError e, st2)
                | (None, st2) \<Rightarrow> (HttpOK 201 (), st2))))"

definition deleteEntry ::
  "('w, 'b) substrateAPI \<Rightarrow> string \<Rightarrow> string \<Rightarrow> 'w \<times> 'b \<Rightarrow> unit http \<times> 'w \<times> 'b" where
  "deleteEntry api authz spiffeID st =
     (case authEntryCaller api authz (fst st) of
        (Inl a, w1) \<Rightarrow> (a, w1, snd st)
      | (Inr (callerOrg, B), w1) \<Rightarrow>
          if spiffeID = [] then (HttpError 400 ''spiffeId is required'', w1, snd st)
          else (case DeleteWorkloadEntry (saServer api) B (saTrustDomain api) callerOrg spiffeID (w1, snd st) of
                  (Some e, st2) \<Rightarrow> (writeEntryError e, st2)
                | (None, st2) \<Rightarrow> (HttpOK 204 (), st2)))"

definition listSubstrateAgents ::
  "('w, 'b) substrateAPI \<Rightarrow> string \<Rightarrow> 'w \<Rightarrow> AgentRecord list http \<times> 'w" where
  "listSubstrateAgents api authz w =
     (case authEntryCaller api authz w of
        (Inl a, w1) \<Rightarrow> (a, w1)
      | (Inr (callerOrg, B), w1) \<Rightarrow>
          (case rcListAgents (HTTPClient (saServer api)) w1 of
             (Inl e, w2) \<Rightarrow> (HttpError 502 ''registry unavailable'', w2)
           | (Inr agents, w2) \<Rightarrow>
               (case NormalizeOrgID callerOrg of
                  None \<Rightarrow> (HttpError 403 ''forbidden'', w2)
                | Some caller \<Rightarrow>
                    (HttpOK 200 (filter (\<lambda>a. agPlacement a = PlacementSubstrate \<and> NormalizeOrgID (agOrgID a) = Some caller) agents), w2))))"

text \<open>The check of an SVID: \<open>validate\<close> is the verdict of the JWKS validator for a token and the audience.\<close>

definition spiffeSubstrateAuth :: "(string \<Rightarrow> string result) \<Rightarrow> string \<Rightarrow> string \<Rightarrow> string result" where
  "spiffeSubstrateAuth validate td authz =
     (let tok = trim_prefix authz ''Bearer ''
      in if tok = [] then Inl (Err ''missing SVID'')
         else case validate tok of
             Inl e \<Rightarrow> Inl e
           | Inr spiffeID \<Rightarrow>
               (case ParsePath spiffeID of
                  Inl e \<Rightarrow> Inl e
                | Inr parsed \<Rightarrow>
                    if psTrustDomain parsed \<noteq> td then Inl (Err ''SVID trust domain not permitted'')
                    else if \<not> psSubstrateAgent parsed \<or> psOrgID parsed = [] then Inl (Err ''caller is not a substrate-agent SVID'')
                    else Inr (psOrgID parsed)))"

section \<open>What the code relies on\<close>

text \<open>
  A broker keeps a set of entries, and \<open>ok\<close> holds of the states it can read back. A create adds at most the entry it was given, a delete removes at most the entries of its SPIFFE
  ID, a sweep at most those under its parent prefix, also when they report an error; when they report none they did it all. Evicting
  nodes leaves the entries alone.
\<close>

locale entry_broker =
  fixes B :: "'b EntryBroker" and ok :: "'b \<Rightarrow> bool" and entries :: "'b \<Rightarrow> EntrySpec set"
  assumes create_keeps: "ok b \<Longrightarrow> entries b \<subseteq> entries (snd (ebCreate B spec b))"
    and create_only: "ok b \<Longrightarrow> entries (snd (ebCreate B spec b)) \<subseteq> insert spec (entries b)"
    and created: "ok b \<Longrightarrow> fst (ebCreate B spec b) = None \<Longrightarrow> spec \<in> entries (snd (ebCreate B spec b))"
    and delete_shrinks: "ok b \<Longrightarrow> entries (snd (ebDelete B i b)) \<subseteq> entries b"
    and delete_only: "ok b \<Longrightarrow> s \<in> entries b \<Longrightarrow> esSPIFFEID s \<noteq> i \<Longrightarrow> s \<in> entries (snd (ebDelete B i b))"
    and deleted: "ok b \<Longrightarrow> fst (ebDelete B i b) = None \<Longrightarrow> s \<in> entries (snd (ebDelete B i b)) \<Longrightarrow> esSPIFFEID s \<noteq> i"
    and delete_ok: "ok b \<Longrightarrow> ok (snd (ebDelete B i b))"
    and sweep_shrinks: "ok b \<Longrightarrow> ebDeleteUnder B = Some del \<Longrightarrow> entries (snd (del p b)) \<subseteq> entries b"
    and sweep_only: "ok b \<Longrightarrow> ebDeleteUnder B = Some del \<Longrightarrow> s \<in> entries b \<Longrightarrow> \<not> has_prefix (esParentID s) p \<Longrightarrow> s \<in> entries (snd (del p b))"
    and swept: "ok b \<Longrightarrow> ebDeleteUnder B = Some del \<Longrightarrow> fst (del p b) = None \<Longrightarrow> s \<in> entries (snd (del p b)) \<Longrightarrow> p \<noteq> [] \<Longrightarrow> \<not> has_prefix (esParentID s) p"
    and sweep_ok: "ok b \<Longrightarrow> ebDeleteUnder B = Some del \<Longrightarrow> ok (snd (del p b))"
    and evict_keeps: "ok b \<Longrightarrow> ebEvict B = Some ev \<Longrightarrow> entries (snd (ev p k b)) = entries b \<and> ok (snd (ev p k b))"

text \<open>The entries that are an organization's own: its workloads, and everything under its nodes.\<close>

definition workloadOf :: "string \<Rightarrow> string \<Rightarrow> EntrySpec \<Rightarrow> bool" where
  "workloadOf td org s = (case ParsePath (esSPIFFEID s) of
       Inl e \<Rightarrow> False
     | Inr p \<Rightarrow> psTrustDomain p = td \<and> NormalizeOrgID (psOrgID p) = Some org \<and> \<not> psSubstrateAgent p)"

definition underNode :: "string \<Rightarrow> string \<Rightarrow> EntrySpec \<Rightarrow> bool" where
  "underNode td org s = (case NodeSpiffePathPrefix td org of None \<Rightarrow> False | Some p \<Rightarrow> has_prefix (esParentID s) p)"

definition agentEntry :: "string \<Rightarrow> string \<Rightarrow> EntrySpec \<Rightarrow> bool" where
  "agentEntry td org s = (BuildSubstrateAgentPath td org = Inr (esSPIFFEID s))"

lemma authorized_entry:
  assumes "authorizeWorkload V td callerOrg spec w = (None, w1)"
  shows "\<exists>org p r. NormalizeOrgID callerOrg = Some org \<and> ParsePath (esSPIFFEID spec) = Inr p \<and> psTrustDomain p = td \<and> psOrgID p = org \<and>
    \<not> psSubstrateAgent p \<and> nodeOf td org (esParentID spec) \<and> validateSelectors (esSelectors spec) \<and>
    RecordOrg V (psAgentID p) w = (Inr (Some r), w1) \<and> NormalizeOrgID r = Some org"
  using assms by (auto simp: authorizeWorkload_def split: if_splits option.splits sum.splits prod.splits)

lemma nodeOf_prefix: "nodeOf td org i \<Longrightarrow> \<exists>p. NodeSpiffePathPrefix td org = Some p \<and> has_prefix i p"
  by (auto simp: nodeOf_def split: option.splits)

lemma authorized_own:
  assumes "authorizeWorkload V td callerOrg spec w = (None, w1)"
  shows "\<exists>org. NormalizeOrgID callerOrg = Some org \<and> workloadOf td org spec \<and> nodeOf td org (esParentID spec) \<and> validateSelectors (esSelectors spec)"
  using authorized_entry [OF assms] NormalizeOrgID_idem by (fastforce simp: workloadOf_def)

lemma authEntryCaller_ok:
  "authEntryCaller api authz w = (Inr (c, B), w1) \<Longrightarrow> \<exists>auth. saBroker api = Some B \<and> saAuth api = Some auth \<and> auth authz = Inr c"
  by (auto simp: authEntryCaller_def split: option.splits sum.splits prod.splits if_splits)

context entry_broker
begin

lemma create_request_effect:
  assumes "ok b" and "CreateWorkloadEntry V B td callerOrg spec (w, b) = (r, w', b')"
  shows "entries b \<subseteq> entries b' \<and> entries b' \<subseteq> insert spec (entries b) \<and>
    (entries b' \<noteq> entries b \<or> r = None \<longrightarrow> authorizeWorkload V td callerOrg spec w = (None, w')) \<and> (r = None \<longrightarrow> spec \<in> entries b')"
  using assms create_keeps [of b spec] create_only [of b spec] created [of b spec]
  by (auto simp: CreateWorkloadEntry_def brokered_def split: option.splits prod.splits)

lemma delete_request_effect:
  assumes "ok b" and "DeleteWorkloadEntry V B td callerOrg i (w, b) = (r, w', b')"
  shows "entries b' \<subseteq> entries b \<and> (\<forall>s \<in> entries b. s \<in> entries b' \<or> esSPIFFEID s = i \<and> (\<exists>org. NormalizeOrgID callerOrg = Some org \<and> workloadOf td org s)) \<and>
    (r = None \<longrightarrow> (\<forall>s \<in> entries b'. esSPIFFEID s \<noteq> i))"
proof (cases "b' = b \<and> r \<noteq> None")
  case False
  obtain e0 b0 where d: "ebDelete B i b = (e0, b0)" by force
  then obtain org p e where h: "NormalizeOrgID callerOrg = Some org" "ParsePath i = Inr p" "psTrustDomain p = td" "\<not> psSubstrateAgent p"
      "NormalizeOrgID (psOrgID p) = Some org" "ebDelete B i b = (e, b')" "r = map_option EntryFailed e"
    using assms False by (auto simp: DeleteWorkloadEntry_def brokered_def split: option.splits prod.splits sum.splits if_splits)
  have "workloadOf td org s" if "esSPIFFEID s = i" for s using h that by (simp add: workloadOf_def)
  then show ?thesis using h delete_shrinks [OF assms(1), of i] delete_only [OF assms(1), of _ i] deleted [OF assms(1), of i] by auto
qed auto

text \<open>One request of the Entry API touches only workload entries of the caller's organization.\<close>

lemma createEntry_isolated:
  assumes "ok b" and "saBroker api = Some B" and "createEntry api authz body (w, b) = (a, w', b')"
  shows "entries b \<subseteq> entries b' \<and>
    (\<forall>s \<in> entries b' - entries b. \<exists>auth callerOrg org. saAuth api = Some auth \<and> auth authz = Inr callerOrg \<and> NormalizeOrgID callerOrg = Some org \<and>
       workloadOf (saTrustDomain api) org s \<and> nodeOf (saTrustDomain api) org (esParentID s) \<and> validateSelectors (esSelectors s))"
proof -
  obtain q w1 where q: "(authEntryCaller api authz w :: (unit http + _) \<times> _) = (q, w1)" by force
  show ?thesis
  proof (cases "\<exists>c B' spec. q = Inr (c, B') \<and> body = Inr spec")
    case True
    then obtain c B' spec where c: "q = Inr (c, B')" "body = Inr spec" by blast
    then obtain auth where h: "saAuth api = Some auth" "auth authz = Inr c" "B' = B" using authEntryCaller_ok [OF q [unfolded c(1)]] assms(2) by auto
    obtain r where e: "CreateWorkloadEntry (saServer api) B (saTrustDomain api) c spec (w1, b) = (r, w', b')"
      using assms(3) q c h by (auto simp: createEntry_def split: prod.splits option.splits)
    note eff = create_request_effect [OF assms(1) e]
    show ?thesis
    proof (cases "entries b' = entries b")
      case False
      then obtain org where "NormalizeOrgID c = Some org" "workloadOf (saTrustDomain api) org spec"
          "nodeOf (saTrustDomain api) org (esParentID spec)" "validateSelectors (esSelectors spec)"
        using eff authorized_own [of "saServer api" "saTrustDomain api" c spec w1 w'] by blast
      then show ?thesis using eff h by blast
    qed simp
  next
    case False
    then have "b' = b" using assms(3) q by (auto simp: createEntry_def split: sum.splits)
    then show ?thesis by simp
  qed
qed

lemma deleteEntry_isolated:
  assumes "ok b" and "saBroker api = Some B" and "deleteEntry api authz i (w, b) = (a, w', b')"
  shows "entries b' \<subseteq> entries b \<and>
    (\<forall>s \<in> entries b - entries b'. \<exists>auth callerOrg org. saAuth api = Some auth \<and> auth authz = Inr callerOrg \<and> NormalizeOrgID callerOrg = Some org \<and>
       workloadOf (saTrustDomain api) org s)"
proof -
  obtain q w1 where q: "(authEntryCaller api authz w :: (unit http + _) \<times> _) = (q, w1)" by force
  show ?thesis
  proof (cases "(\<exists>c B'. q = Inr (c, B')) \<and> i \<noteq> []")
    case True
    then obtain c B' where c: "q = Inr (c, B')" "i \<noteq> []" by blast
    then obtain auth where h: "saAuth api = Some auth" "auth authz = Inr c" "B' = B" using authEntryCaller_ok [OF q [unfolded c(1)]] assms(2) by auto
    obtain r where e: "DeleteWorkloadEntry (saServer api) B (saTrustDomain api) c i (w1, b) = (r, w', b')"
      using assms(3) q c h by (auto simp: deleteEntry_def split: prod.splits option.splits)
    show ?thesis using delete_request_effect [OF assms(1) e] h by blast
  next
    case False
    then have "b' = b" using assms(3) q by (auto simp: deleteEntry_def split: sum.splits if_splits)
    then show ?thesis by simp
  qed
qed

text \<open>The sweep of an organization that reports no error leaves nothing under its nodes and takes nothing else.\<close>

lemma invalidate_effect:
  assumes "ok b" and "InvalidateOrgNodeEntries B td orgID b = (e, b')" and "NormalizeOrgID orgID = Some org"
  shows "entries b' \<subseteq> entries b \<and> (\<forall>s \<in> entries b. underNode td org s \<or> s \<in> entries b') \<and> (e = None \<longrightarrow> (\<forall>s \<in> entries b'. \<not> underNode td org s)) \<and> ok b'"
proof (cases "b' = b \<and> e \<noteq> None")
  case False
  then obtain p del where h: "NodeSpiffePathPrefix td org = Some p" "ebDeleteUnder B = Some del" "del p b = (e, b')"
    using assms by (auto simp: InvalidateOrgNodeEntries_def split: if_splits option.splits)
  then have "p \<noteq> []" by (auto simp: NodeSpiffePathPrefix_def split: if_splits)
  then show ?thesis
    using h sweep_shrinks [OF assms(1) h(2), of p] sweep_only [OF assms(1) h(2), of _ p] swept [OF assms(1) h(2), of p] sweep_ok [OF assms(1) h(2), of p] by (auto simp: underNode_def)
qed (use assms in auto)

lemma evict_effect: "ok b \<Longrightarrow> entries (snd (EvictSupersededOrgNodes B td orgID keep b)) = entries b \<and> ok (snd (EvictSupersededOrgNodes B td orgID keep b))"
  by (auto simp: EvictSupersededOrgNodes_def evict_keeps split: option.splits)

lemma clear_effect:
  assumes "ok b" and "clearBootstrap B td org b = (e, b')"
  shows "ok b' \<and> entries b' \<subseteq> entries b \<and> (\<forall>s \<in> entries b. agentEntry td org s \<or> s \<in> entries b') \<and>
    (e = None \<longrightarrow> (\<forall>s \<in> entries b'. \<not> agentEntry td org s))"
proof (cases "BuildSubstrateAgentPath td org")
  case (Inl x)
  then show ?thesis using assms by (auto simp: clearBootstrap_def agentEntry_def)
next
  case (Inr i)
  then show ?thesis
    using assms delete_shrinks [OF assms(1), of i] delete_only [OF assms(1), of _ i] deleted [OF assms(1), of i] delete_ok [OF assms(1), of i]
    by (auto simp: clearBootstrap_def agentEntry_def)
qed

lemma sweepOrg_effect:
  assumes "ok b" and "NormalizeOrgID org = Some org" and "sweepOrg B td org b = (e, b')"
  shows "ok b' \<and> entries b' \<subseteq> entries b \<and> (\<forall>s \<in> entries b. underNode td org s \<or> agentEntry td org s \<or> s \<in> entries b') \<and>
    (fst (InvalidateOrgNodeEntries B td org b) = None \<longrightarrow> (\<forall>s \<in> entries b'. \<not> underNode td org s)) \<and>
    (fst (InvalidateOrgNodeEntries B td org b) \<noteq> None \<and> e = None \<longrightarrow> (\<forall>s \<in> entries b'. \<not> agentEntry td org s))"
proof -
  obtain e0 b0 where i: "InvalidateOrgNodeEntries B td org b = (e0, b0)" by force
  note inv = invalidate_effect [OF assms(1) i assms(2)]
  show ?thesis
  proof (cases e0)
    case None
    then show ?thesis using inv i assms(3) by (auto simp: sweepOrg_def)
  next
    case (Some x)
    then have "clearBootstrap B td org b0 = (e, b')" using i assms(3) by (simp add: sweepOrg_def)
    from clear_effect [OF _ this] inv i Some show ?thesis by auto
  qed
qed

text \<open>The new bootstrap entry of a connect.\<close>

lemma provisioned:
  assumes "ok b" and "ProvisionSubstrateAgentEntry B td org nodeID sels b = (None, b')" and "NormalizeOrgID org = Some org"
  shows "\<exists>i. BuildSubstrateAgentPath td org = Inr i \<and> underNode td org \<lparr>esSPIFFEID = i, esParentID = nodeID, esSelectors = sels\<rparr> \<and>
    entries b' = insert \<lparr>esSPIFFEID = i, esParentID = nodeID, esSelectors = sels\<rparr> (entries b)"
proof -
  obtain i p where h: "BuildSubstrateAgentPath td org = Inr i" "NodeSpiffePathPrefix td org = Some p" "has_prefix nodeID p"
      "ebCreate B \<lparr>esSPIFFEID = i, esParentID = nodeID, esSelectors = sels\<rparr> b = (None, b')"
    using assms(2,3) by (auto simp: ProvisionSubstrateAgentEntry_def split: sum.splits option.splits if_splits)
  moreover let ?s = "\<lparr>esSPIFFEID = i, esParentID = nodeID, esSelectors = sels\<rparr>"
  have "entries b' = insert ?s (entries b)"
    using h(4) create_keeps [OF assms(1), of ?s] create_only [OF assms(1), of ?s] created [OF assms(1), of ?s] by auto
  ultimately show ?thesis by (auto simp: underNode_def)
qed

end

end
