(* ===== verification/ExecBroker.thy ===== *)
theory ExecBroker
  imports SubstrateEntries
begin

text \<open>
  The entry broker that drives the \<open>spire-server\<close> command (\<open>cmd/orchestrator/substrate.go\<close>): its arguments, how it reads the text
  the command prints, and its loops. The command itself is a parameter whose documented behaviour is the locale \<open>spire_cli\<close>;
  over such a command the broker is an \<open>entry_broker\<close>.
\<close>

section \<open>Reading the output\<close>

definition newline :: char where "newline = CHR 0x0A"

definition dropCR :: "string \<Rightarrow> string" where
  "dropCR l = (if l \<noteq> [] \<and> last l = CHR 0x0D then butlast l else l)"

text \<open>
  \<open>bufio.Scanner\<close>: lines without their end; a line that does not fit the buffer of 64 KiB ends the scan, and the error of the
  scanner is not looked at.
\<close>

definition scanLines :: "string \<Rightarrow> string list" where
  "scanLines s = map dropCR (takeWhile (\<lambda>l. int (length l) < 65536)
     (let ls = split_on newline s in if last ls = [] then butlast ls else ls))"

definition valueAfterColon :: "string \<Rightarrow> string" where
  "valueAfterColon line =
     (case dropWhile (\<lambda>c. c \<noteq> CHR '':'') line of [] \<Rightarrow> [] | c # rest \<Rightarrow> trim_space rest)"

definition parseAgentSpiffeIDs :: "string \<Rightarrow> string list" where
  "parseAgentSpiffeIDs out =
     filter (\<lambda>i. i \<noteq> []) (map valueAfterColon (filter (\<lambda>l. has_prefix l ''SPIFFE ID'') (map trim_space (scanLines out))))"

definition parseEntryIDs :: "string \<Rightarrow> string list" where
  "parseEntryIDs out =
     filter (\<lambda>i. i \<noteq> []) (map valueAfterColon (filter (\<lambda>l. has_prefix l ''Entry ID'') (map trim_space (scanLines out))))"

text \<open>The id and the parent read so far, and the entries that follow.\<close>

fun pairEntries :: "string \<times> string \<Rightarrow> string list \<Rightarrow> (string \<times> string) list" where
  "pairEntries cur [] = (if fst cur \<noteq> [] then [cur] else [])"
| "pairEntries cur (l # ls) =
     (if has_prefix l ''Entry ID'' then (if fst cur \<noteq> [] then [cur] else []) @ pairEntries (valueAfterColon l, []) ls
      else if has_prefix l ''Parent ID'' then pairEntries (fst cur, valueAfterColon l) ls
      else pairEntries cur ls)"

definition parseEntriesWithParent :: "string \<Rightarrow> (string \<times> string) list" where
  "parseEntriesWithParent out = pairEntries ([], []) (map trim_space (scanLines out))"

section \<open>The broker\<close>

text \<open>A run of the command: its output and whether it failed.\<close>

type_synonym 'c cli = "string list \<Rightarrow> 'c \<Rightarrow> (string \<times> bool) \<times> 'c"

definition baseArgs :: "string \<Rightarrow> string list" where
  "baseArgs socketPath = (if socketPath = [] then [] else [''-socketPath'', socketPath])"

definition createArgs :: "string \<Rightarrow> EntrySpec \<Rightarrow> string list" where
  "createArgs sock spec = [''entry'', ''create''] @ baseArgs sock @ [''-parentID'', esParentID spec, ''-spiffeID'', esSPIFFEID spec] @
     concat (map (\<lambda>sel. [''-selector'', sel]) (esSelectors spec))"

definition showArgs :: "string \<Rightarrow> string option \<Rightarrow> string list" where
  "showArgs sock spiffeID = [''entry'', ''show''] @ baseArgs sock @ (case spiffeID of None \<Rightarrow> [] | Some i \<Rightarrow> [''-spiffeID'', i])"

definition deleteArgs :: "string \<Rightarrow> string \<Rightarrow> string list" where
  "deleteArgs sock entryID = [''entry'', ''delete''] @ baseArgs sock @ [''-entryID'', entryID]"

definition listArgs :: "string \<Rightarrow> string list" where "listArgs sock = [''agent'', ''list''] @ baseArgs sock"

definition evictArgs :: "string \<Rightarrow> string \<Rightarrow> string list" where
  "evictArgs sock i = [''agent'', ''evict''] @ baseArgs sock @ [''-spiffeID'', i]"

definition mentions :: "string \<Rightarrow> string \<Rightarrow> bool" where
  "mentions out phrase = str_contains (lowerOrg out) phrase"

definition execCreateEntry :: "'c cli \<Rightarrow> string \<Rightarrow> EntrySpec \<Rightarrow> 'c \<Rightarrow> go_error option \<times> 'c" where
  "execCreateEntry run sock spec c =
     (case run (createArgs sock spec) c of
        ((out, failed), c1) \<Rightarrow>
          (if failed \<and> \<not> mentions out ''already exists'' then Some (Err (''spire-server entry create: '' @ trim_space out)) else None, c1))"

fun deleteEach :: "'c cli \<Rightarrow> string \<Rightarrow> string list \<Rightarrow> 'c \<Rightarrow> go_error option \<times> 'c" where
  "deleteEach run sock [] c = (None, c)"
| "deleteEach run sock (i # is) c =
     (case run (deleteArgs sock i) c of
        ((out, failed), c1) \<Rightarrow>
          if failed \<and> \<not> mentions out ''not found'' then (Some (Err (''spire-server entry delete: '' @ trim_space out)), c1)
          else deleteEach run sock is c1)"

definition execDeleteEntry :: "'c cli \<Rightarrow> string \<Rightarrow> string \<Rightarrow> 'c \<Rightarrow> go_error option \<times> 'c" where
  "execDeleteEntry run sock spiffeID c =
     (case run (showArgs sock (Some spiffeID)) c of
        ((out, failed), c1) \<Rightarrow>
          if failed then (Some (Err (''spire-server entry show: '' @ trim_space out)), c1)
          else deleteEach run sock (parseEntryIDs out) c1)"

definition execDeleteUnder :: "'c cli \<Rightarrow> string \<Rightarrow> string \<Rightarrow> 'c \<Rightarrow> go_error option \<times> 'c" where
  "execDeleteUnder run sock parentPrefix c =
     (if parentPrefix = [] then (Some (Err ''empty parent prefix''), c)
      else case run (showArgs sock None) c of
          ((out, failed), c1) \<Rightarrow>
            if failed then (Some (Err (''spire-server entry show: '' @ trim_space out)), c1)
            else deleteEach run sock (map fst (filter (\<lambda>e. has_prefix (snd e) parentPrefix) (parseEntriesWithParent out))) c1)"

fun evictEach :: "'c cli \<Rightarrow> string \<Rightarrow> string list \<Rightarrow> nat \<Rightarrow> 'c \<Rightarrow> (nat \<times> go_error option) \<times> 'c" where
  "evictEach run sock [] n c = ((n, None), c)"
| "evictEach run sock (i # is) n c =
     (case run (evictArgs sock i) c of
        ((out, failed), c1) \<Rightarrow>
          if failed \<and> \<not> mentions out ''not found'' then ((n, Some (Err (''spire-server agent evict: '' @ trim_space out))), c1)
          else evictEach run sock is (if failed then n else n + 1) c1)"

definition execEvict :: "'c cli \<Rightarrow> string \<Rightarrow> string \<Rightarrow> string \<Rightarrow> 'c \<Rightarrow> (nat \<times> go_error option) \<times> 'c" where
  "execEvict run sock prefix keep c =
     (if prefix = [] then ((0, Some (Err ''empty node prefix'')), c)
      else case run (listArgs sock) c of
          ((out, failed), c1) \<Rightarrow>
            if failed then ((0, Some (Err (''spire-server agent list: '' @ trim_space out))), c1)
            else evictEach run sock (filter (\<lambda>i. i \<noteq> keep \<and> has_prefix i prefix) (parseAgentSpiffeIDs out)) 0 c1)"

definition execEntryBroker :: "'c cli \<Rightarrow> string \<Rightarrow> 'c EntryBroker" where
  "execEntryBroker run sock =
     \<lparr>ebCreate = execCreateEntry run sock, ebDelete = execDeleteEntry run sock,
      ebDeleteUnder = Some (execDeleteUnder run sock), ebEvict = Some (execEvict run sock)\<rparr>"

section \<open>What the command prints\<close>

text \<open>The blocks \<open>spire-server entry show\<close> prints.\<close>

definition field :: "string \<Rightarrow> string \<Rightarrow> string" where "field name v = name @ '' : '' @ v"

definition entryBlock :: "string \<times> EntrySpec \<Rightarrow> string list" where
  "entryBlock e = [field ''Entry ID        '' (fst e), field ''SPIFFE ID       '' (esSPIFFEID (snd e)), field ''Parent ID       '' (esParentID (snd e)),
     field ''Revision        '' ''0'', field ''X509-SVID TTL   '' ''default''] @ map (field ''Selector        '') (esSelectors (snd e)) @ [[]]"

definition showText :: "string \<Rightarrow> (string \<times> EntrySpec) list \<Rightarrow> string" where
  "showText header es = concat (map (\<lambda>l. l @ [newline]) (header # concat (map entryBlock es)))"

text \<open>Texts that a line can hold: not empty, no white space at the ends, no line end, and short enough for the scanner.\<close>

definition plainText :: "string \<Rightarrow> bool" where
  "plainText v = (v \<noteq> [] \<and> \<not> is_space (hd v) \<and> \<not> is_space (last v) \<and> newline \<notin> set v \<and> int (length v) < 65000)"

definition plainEntry :: "string \<times> EntrySpec \<Rightarrow> bool" where
  "plainEntry e = (plainText (fst e) \<and> plainText (esSPIFFEID (snd e)) \<and> plainText (esParentID (snd e)) \<and> list_all plainText (esSelectors (snd e)))"

text \<open>The text shows the entries, after a first line such as \<open>Found 2 entries\<close>.\<close>

definition shown :: "string \<Rightarrow> (string \<times> EntrySpec) list \<Rightarrow> bool" where
  "shown out es = (\<exists>header. plainText header \<and> \<not> has_prefix header ''Entry ID'' \<and> \<not> has_prefix header ''Parent ID'' \<and> out = showText header es)"

section \<open>Reading what was printed\<close>

lemma split_on_text:
  "list_all (\<lambda>l. newline \<notin> set l) ls \<Longrightarrow> split_on newline (concat (map (\<lambda>l. l @ [newline]) ls)) = ls @ [[]]"
  by (induction ls) (simp_all add: split_on_sep)

definition goodLine :: "string \<Rightarrow> bool" where
  "goodLine l = (newline \<notin> set l \<and> int (length l) < 65536 \<and> (l = [] \<or> \<not> is_space (hd l) \<and> \<not> is_space (last l)))"

lemma scanLines_text:
  assumes "list_all goodLine ls"
  shows "scanLines (concat (map (\<lambda>l. l @ [newline]) ls)) = ls"
proof -
  have tw: "takeWhile (\<lambda>l. length l < 65536) ls = ls" using assms by (simp add: takeWhile_eq_all_conv list_all_iff goodLine_def)
  have "map dropCR ls = ls"
    using assms by (intro map_idI) (auto simp: list_all_iff goodLine_def dropCR_def is_space_def)
  moreover have "list_all (\<lambda>l. newline \<notin> set l) ls" using assms by (simp add: list_all_iff goodLine_def)
  ultimately show ?thesis by (simp add: scanLines_def split_on_text tw del: takeWhile_eq_all_conv)
qed

lemma trim_space_plain: "s = [] \<or> \<not> is_space (hd s) \<and> \<not> is_space (last s) \<Longrightarrow> trim_space s = s"
proof -
  have d: "t = [] \<or> \<not> is_space (hd t) \<Longrightarrow> dropWhile is_space t = t" for t by (cases t) auto
  assume "s = [] \<or> \<not> is_space (hd s) \<and> \<not> is_space (last s)"
  then show ?thesis using d [of s] d [of "rev s"] by (auto simp: trim_space_def hd_rev)
qed

lemma goodLine_trim: "goodLine l \<Longrightarrow> trim_space l = l"
  by (rule trim_space_plain) (auto simp: goodLine_def)

lemma goodLine_field:
  assumes "plainText v" and "n \<noteq> []" and "\<not> is_space (hd n)" and "newline \<notin> set n" and "length n < 100"
  shows "goodLine (field n v)"
  using assms by (auto simp: goodLine_def field_def plainText_def newline_def)

lemma valueAfterColon_field:
  assumes "plainText v" and "CHR '':'' \<notin> set n"
  shows "valueAfterColon (field n v) = v"
proof -
  have "dropWhile (\<lambda>c. c \<noteq> CHR '':'') (n @ CHR '' '' # CHR '':'' # CHR '' '' # v) = CHR '':'' # CHR '' '' # v"
    using assms(2) by (induction n) auto
  moreover have "trim_space (CHR '' '' # v) = v"
    using assms(1) trim_space_plain [of v] by (simp add: trim_space_def is_space_def plainText_def)
  ultimately show ?thesis by (simp add: valueAfterColon_def field_def)
qed

lemma entryBlock_good: "plainEntry e \<Longrightarrow> list_all goodLine (entryBlock e)"
proof -
  assume e: "plainEntry e"
  have "plainText ''0''" "plainText ''default''" by (simp_all add: plainText_def is_space_def newline_def)
  then show ?thesis
    using e unfolding entryBlock_def plainEntry_def
    by (auto simp: list_all_iff goodLine_def [of "[]"] intro!: goodLine_field) (simp_all add: is_space_def newline_def)
qed

lemma showText_lines:
  assumes "list_all plainEntry es" and "plainText h"
  shows "map trim_space (scanLines (showText h es)) = h # concat (map entryBlock es)"
proof -
  have "list_all goodLine (h # concat (map entryBlock es))"
    using assms entryBlock_good by (auto simp: list_all_iff goodLine_def plainText_def)
  moreover from this have "map trim_space (h # concat (map entryBlock es)) = h # concat (map entryBlock es)"
    by (intro map_idI) (auto simp: list_all_iff goodLine_trim)
  ultimately show ?thesis by (simp only: showText_def scanLines_text)
qed

lemma block_prefixes:
  "has_prefix (field ''Entry ID        '' v) ''Entry ID''" "\<not> has_prefix (field ''SPIFFE ID       '' v) ''Entry ID''"
  "\<not> has_prefix (field ''SPIFFE ID       '' v) ''Parent ID''" "\<not> has_prefix (field ''Parent ID       '' v) ''Entry ID''"
  "has_prefix (field ''Parent ID       '' v) ''Parent ID''" "\<not> has_prefix (field ''Revision        '' v) ''Entry ID''"
  "\<not> has_prefix (field ''Revision        '' v) ''Parent ID''" "\<not> has_prefix (field ''X509-SVID TTL   '' v) ''Entry ID''"
  "\<not> has_prefix (field ''X509-SVID TTL   '' v) ''Parent ID''" "\<not> has_prefix (field ''Selector        '' v) ''Entry ID''"
  "\<not> has_prefix (field ''Selector        '' v) ''Parent ID''" "\<not> has_prefix [] ''Entry ID''" "\<not> has_prefix [] ''Parent ID''"
  by (simp_all add: has_prefix_def field_def)

lemma pairEntries_skip:
  "list_all (\<lambda>l. \<not> has_prefix l ''Entry ID'' \<and> \<not> has_prefix l ''Parent ID'') ls \<Longrightarrow> pairEntries cur (ls @ rest) = pairEntries cur rest"
  by (induction ls) auto

lemma pairEntries_blocks:
  "list_all plainEntry es \<Longrightarrow>
   pairEntries cur (concat (map entryBlock es)) = (if fst cur \<noteq> [] then [cur] else []) @ map (\<lambda>e. (fst e, esParentID (snd e))) es"
proof (induction es arbitrary: cur)
  case (Cons e es)
  then have v: "valueAfterColon (field ''Entry ID        '' (fst e)) = fst e" "valueAfterColon (field ''Parent ID       '' (esParentID (snd e))) = esParentID (snd e)"
      and ne: "fst e \<noteq> []"
    by (simp_all add: plainEntry_def valueAfterColon_field) (simp add: plainText_def)
  have sk: "list_all (\<lambda>l. \<not> has_prefix l ''Entry ID'' \<and> \<not> has_prefix l ''Parent ID'') (map (field ''Selector        '') (esSelectors (snd e)) @ [[]])"
    by (simp add: list_all_iff block_prefixes)
  then show ?case
    using Cons pairEntries_skip [OF sk] by (simp add: entryBlock_def block_prefixes v ne)
qed simp

text \<open>Reading a printed list gives back the id and parent of every entry, and the ids.\<close>

lemma parse_shown:
  assumes "shown out es" and "list_all plainEntry es"
  shows "parseEntriesWithParent out = map (\<lambda>e. (fst e, esParentID (snd e))) es" and "parseEntryIDs out = map fst es"
proof -
  obtain h where h: "plainText h" "\<not> has_prefix h ''Entry ID''" "\<not> has_prefix h ''Parent ID''" "out = showText h es"
    using assms(1) by (auto simp: shown_def)
  note lines = showText_lines [OF assms(2) h(1)]
  show "parseEntriesWithParent out = map (\<lambda>e. (fst e, esParentID (snd e))) es"
    using h(2,3) pairEntries_blocks [OF assms(2)] by (simp add: parseEntriesWithParent_def h(4) lines)
  have "map valueAfterColon (filter (\<lambda>l. has_prefix l ''Entry ID'') (concat (map entryBlock es))) = map fst es"
    using assms(2)
  proof (induction es)
    case (Cons e es)
    then show ?case
      by (simp add: entryBlock_def block_prefixes filter_map o_def plainEntry_def valueAfterColon_field)
  qed simp
  moreover have "filter (\<lambda>i. i \<noteq> []) (map fst es) = map fst es"
    using assms(2) by (auto simp: filter_id_conv list_all_iff plainEntry_def plainText_def)
  ultimately show "parseEntryIDs out = map fst es"
    using h(2) by (simp add: parseEntryIDs_def h(4) lines)
qed

section \<open>Over a command that does what it documents\<close>

text \<open>
  What \<open>spire-server\<close> documents of the subcommands used: \<open>entry create\<close> adds the entry under a fresh id or leaves all as it is, and
  has the entry there when it succeeds or says that it already exists; \<open>entry show\<close> prints the entries, all or those of a SPIFFE ID;
  \<open>entry delete\<close> removes the entry of an id or nothing, and the entry is gone when it succeeds or was not found; \<open>agent\<close> does
  not touch entries.
\<close>

locale spire_cli =
  fixes run :: "'c cli" and sock :: string and view :: "'c \<Rightarrow> (string \<times> EntrySpec) list"
  assumes cli_create: "run (createArgs sock spec) c = ((out, failed), c') \<Longrightarrow>
      (view c' = view c \<or> (\<exists>i. view c' = view c @ [(i, spec)])) \<and> (\<not> failed \<or> mentions out ''already exists'' \<longrightarrow> spec \<in> snd ` set (view c'))"
    and cli_show: "run (showArgs sock None) c = ((out, failed), c') \<Longrightarrow> view c' = view c \<and> (\<not> failed \<longrightarrow> shown out (view c))"
    and cli_show_id: "run (showArgs sock (Some i)) c = ((out, failed), c') \<Longrightarrow>
      view c' = view c \<and> (\<not> failed \<longrightarrow> shown out (filter (\<lambda>e. esSPIFFEID (snd e) = i) (view c)))"
    and cli_delete: "run (deleteArgs sock i) c = ((out, failed), c') \<Longrightarrow>
      (view c' = view c \<or> view c' = filter (\<lambda>e. fst e \<noteq> i) (view c)) \<and>
      (\<not> failed \<or> mentions out ''not found'' \<longrightarrow> view c' = filter (\<lambda>e. fst e \<noteq> i) (view c))"
    and cli_list: "view (snd (run (listArgs sock) c)) = view c"
    and cli_evict: "view (snd (run (evictArgs sock i) c)) = view c"

text \<open>The entries can be read back from the print: they fit lines, and their ids tell them apart.\<close>

definition legible :: "(string \<times> EntrySpec) list \<Rightarrow> bool" where
  "legible es = (list_all plainEntry es \<and> distinct (map fst es))"

lemma legible_filter [intro]: "legible es \<Longrightarrow> legible (filter P es)"
  by (auto simp: legible_def list_all_iff distinct_map_filter)

context spire_cli
begin

lemma deleteEach_view:
  assumes "deleteEach run sock is c = (e, c')"
  shows "(\<exists>js. set js \<subseteq> set is \<and> view c' = filter (\<lambda>x. fst x \<notin> set js) (view c)) \<and>
    (e = None \<longrightarrow> view c' = filter (\<lambda>x. fst x \<notin> set is) (view c))"
  using assms
proof (induction "is" arbitrary: c)
  case (Cons i "is")
  obtain out failed c1 where r: "run (deleteArgs sock i) c = ((out, failed), c1)" by (metis prod.exhaust)
  note d = cli_delete [OF r]
  show ?case
  proof (cases "failed \<and> \<not> mentions out ''not found''")
    case True
    then have c: "c' = c1" "e \<noteq> None" using Cons.prems r by auto
    then have "(view c' = filter (\<lambda>x. fst x \<notin> set []) (view c)) \<or> view c' = filter (\<lambda>x. fst x \<notin> set [i]) (view c)" using d by simp
    then show ?thesis using c(2) by (metis empty_set empty_subsetI list.set_intros(1) set_ConsD subsetI empty_iff)
  next
    case False
    then have "deleteEach run sock is c1 = (e, c')" and v: "view c1 = filter (\<lambda>x. fst x \<noteq> i) (view c)" using Cons.prems r d by auto
    from Cons.IH [OF this(1)] obtain js where
      "set js \<subseteq> set is" "view c' = filter (\<lambda>x. fst x \<notin> set js) (view c1)" "e = None \<longrightarrow> view c' = filter (\<lambda>x. fst x \<notin> set is) (view c1)" by blast
    then show ?thesis using v by (intro conjI exI [of _ "i # js"]) (auto intro!: filter_cong)
  qed
qed (auto intro: exI [of _ "[]"])

lemma evictEach_view: "view (snd (evictEach run sock is n c)) = view c"
proof (induction "is" arbitrary: n c)
  case (Cons i "is")
  then show ?case using cli_evict [of i c] by (auto split: prod.splits)
qed simp

lemma execEvict_view: "view (snd (execEvict run sock p k c)) = view c"
  using cli_list [of c] evictEach_view by (auto simp: execEvict_def split: prod.splits)

text \<open>Deleting the ids of a legible list that a test selects removes at most those that pass it, and all of them when no error is reported.\<close>

lemma deleteEach_selected:
  assumes "legible (view c)" and "view c1 = view c" and "deleteEach run sock (map fst (filter P (view c))) c1 = (e, c')"
  shows "legible (view c') \<and> snd ` set (view c') \<subseteq> snd ` set (view c) \<and> (\<forall>x \<in> set (view c). \<not> P x \<longrightarrow> x \<in> set (view c')) \<and>
    (e = None \<longrightarrow> (\<forall>x \<in> set (view c'). \<not> P x))"
proof -
  obtain js where js: "set js \<subseteq> fst ` set (filter P (view c))" "view c' = filter (\<lambda>x. fst x \<notin> set js) (view c)"
    and none: "e = None \<longrightarrow> view c' = filter (\<lambda>x. fst x \<notin> fst ` set (filter P (view c))) (view c)"
    using deleteEach_view [OF assms(3)] assms(2) by auto
  have inj: "inj_on fst (set (view c))" using assms(1) by (simp add: legible_def distinct_map)
  have "x \<in> set (view c')" if "x \<in> set (view c)" "\<not> P x" for x
    using that js inj by (auto dest: inj_onD)
  moreover have "legible (view c')" using assms(1) js(2) by auto
  moreover have "\<not> P x" if "e = None" "x \<in> set (view c')" for x
  proof -
    from that none have "fst x \<notin> fst ` set (filter P (view c))" "x \<in> set (view c)" by auto
    then show ?thesis by force
  qed
  ultimately show ?thesis using js(2) by auto
qed

lemma execDeleteEntry_view:
  assumes "legible (view c)" and "execDeleteEntry run sock i c = (e, c')"
  shows "legible (view c') \<and> snd ` set (view c') \<subseteq> snd ` set (view c) \<and> (\<forall>x \<in> set (view c). esSPIFFEID (snd x) \<noteq> i \<longrightarrow> x \<in> set (view c')) \<and>
    (e = None \<longrightarrow> (\<forall>x \<in> set (view c'). esSPIFFEID (snd x) \<noteq> i))"
proof -
  obtain out failed c1 where r: "run (showArgs sock (Some i)) c = ((out, failed), c1)" by (metis prod.exhaust)
  note s = cli_show_id [OF r]
  have pl: "list_all plainEntry (filter (\<lambda>e. esSPIFFEID (snd e) = i) (view c))" using assms(1) legible_filter legible_def by blast
  show ?thesis
  proof (cases failed)
    case False
    then have "deleteEach run sock (map fst (filter (\<lambda>e. esSPIFFEID (snd e) = i) (view c))) c1 = (e, c')"
      using assms(2) r s parse_shown(2) [OF _ pl] by (simp add: execDeleteEntry_def)
    from deleteEach_selected [OF assms(1) _ this] s show ?thesis by blast
  qed (use assms r s in \<open>auto simp: execDeleteEntry_def split: if_splits\<close>)
qed

lemma execDeleteUnder_view:
  assumes "legible (view c)" and "execDeleteUnder run sock p c = (e, c')"
  shows "legible (view c') \<and> snd ` set (view c') \<subseteq> snd ` set (view c) \<and> (\<forall>x \<in> set (view c). \<not> has_prefix (esParentID (snd x)) p \<longrightarrow> x \<in> set (view c')) \<and>
    (e = None \<longrightarrow> (\<forall>x \<in> set (view c'). \<not> has_prefix (esParentID (snd x)) p))"
proof -
  obtain out failed c1 where r: "run (showArgs sock None) c = ((out, failed), c1)" by (metis prod.exhaust)
  note s = cli_show [OF r]
  have pl: "list_all plainEntry (view c)" using assms(1) by (simp add: legible_def)
  show ?thesis
  proof (cases "failed \<or> p = []")
    case False
    then have "deleteEach run sock (map fst (filter (\<lambda>x. has_prefix (esParentID (snd x)) p) (view c))) c1 = (e, c')"
      using assms(2) r s parse_shown(1) [OF _ pl] by (simp add: execDeleteUnder_def filter_map o_def)
    from deleteEach_selected [OF assms(1) _ this] s show ?thesis by blast
  qed (use assms r s in \<open>auto simp: execDeleteUnder_def split: if_splits\<close>)
qed

lemma execCreateEntry_view:
  assumes "execCreateEntry run sock spec c = (e, c')"
  shows "snd ` set (view c) \<subseteq> snd ` set (view c') \<and> snd ` set (view c') \<subseteq> insert spec (snd ` set (view c)) \<and> (e = None \<longrightarrow> spec \<in> snd ` set (view c'))"
proof -
  obtain out failed c1 where r: "run (createArgs sock spec) c = ((out, failed), c1)" by (metis prod.exhaust)
  show ?thesis using cli_create [OF r] assms r by (auto simp: execCreateEntry_def split: if_splits)
qed

end

sublocale spire_cli \<subseteq> ex: entry_broker "execEntryBroker run sock" "\<lambda>c. legible (view c)" "\<lambda>c. snd ` set (view c)"
proof unfold_locales
  fix b :: 'c and spec i p k s del ev
  note cr = execCreateEntry_view [where spec = spec and c = b, OF prod.collapse [symmetric]]
  show "snd ` set (view b) \<subseteq> snd ` set (view (snd (ebCreate (execEntryBroker run sock) spec b)))"
    "snd ` set (view (snd (ebCreate (execEntryBroker run sock) spec b))) \<subseteq> insert spec (snd ` set (view b))"
    using cr by (simp_all add: execEntryBroker_def)
  show "spec \<in> snd ` set (view (snd (ebCreate (execEntryBroker run sock) spec b)))" if "fst (ebCreate (execEntryBroker run sock) spec b) = None"
    using cr that by (simp add: execEntryBroker_def)
  assume ok: "legible (view b)"
  note de = execDeleteEntry_view [where i = i, OF ok prod.collapse [symmetric]]
  show "snd ` set (view (snd (ebDelete (execEntryBroker run sock) i b))) \<subseteq> snd ` set (view b)" "legible (view (snd (ebDelete (execEntryBroker run sock) i b)))"
    using de by (simp_all add: execEntryBroker_def)
  show "s \<in> snd ` set (view (snd (ebDelete (execEntryBroker run sock) i b)))" if "s \<in> snd ` set (view b)" "esSPIFFEID s \<noteq> i"
    using de that by (force simp: execEntryBroker_def)
  show "esSPIFFEID s \<noteq> i" if "fst (ebDelete (execEntryBroker run sock) i b) = None" "s \<in> snd ` set (view (snd (ebDelete (execEntryBroker run sock) i b)))"
    using de that by (force simp: execEntryBroker_def)
  show "snd ` set (view (snd (ev p k b))) = snd ` set (view b) \<and> legible (view (snd (ev p k b)))" if "ebEvict (execEntryBroker run sock) = Some ev"
    using ok that execEvict_view by (auto simp: execEntryBroker_def)
  note du = execDeleteUnder_view [where p = p, OF ok prod.collapse [symmetric]]
  assume "ebDeleteUnder (execEntryBroker run sock) = Some del"
  then have [simp]: "del = execDeleteUnder run sock" by (simp add: execEntryBroker_def)
  show "snd ` set (view (snd (del p b))) \<subseteq> snd ` set (view b)" "legible (view (snd (del p b)))" using du by simp_all
  show "s \<in> snd ` set (view (snd (del p b)))" if "s \<in> snd ` set (view b)" "\<not> has_prefix (esParentID s) p" using du that by force
  show "\<not> has_prefix (esParentID s) p" if "fst (del p b) = None" "s \<in> snd ` set (view (snd (del p b)))" using du that by force
qed

end
