(* ===== verification/GrpcBroker.thy ===== *)
theory GrpcBroker
  imports ExecBroker
begin

text \<open>
  The entry broker of the production edge (\<open>internal/substrate/spirebroker/spirebroker.go\<close>): it calls the entry and agent
  interfaces of the SPIRE server. The server and the parser of SPIFFE ids of \<open>go-spiffe\<close> are parameters; over a server with the
  laws of the locale \<open>spire_api\<close> this broker is an \<open>entry_broker\<close> like the one that runs the command, for entries of any text.
\<close>

section \<open>The server\<close>

type_synonym SPIFFEID = "string \<times> string"

record apiEntry =
  aeId :: string
  aeSpiffeId :: SPIFFEID
  aeParentId :: SPIFFEID
  aeSelectors :: "(string \<times> string) list"

datatype grpcCode = CodeOK | CodeAlreadyExists | CodeNotFound | CodeOther string

record 'c EntryAPI =
  BatchCreateEntry :: "apiEntry list \<Rightarrow> 'c \<Rightarrow> grpcCode list result \<times> 'c"
  ListEntries :: "SPIFFEID option \<Rightarrow> nat \<Rightarrow> string \<Rightarrow> 'c \<Rightarrow> (apiEntry list \<times> string) result \<times> 'c"
  BatchDeleteEntry :: "string list \<Rightarrow> 'c \<Rightarrow> (string \<times> grpcCode) list result \<times> 'c"

record 'c AgentAPI =
  ListNodes :: "nat \<Rightarrow> string \<Rightarrow> 'c \<Rightarrow> (SPIFFEID list \<times> string) result \<times> 'c"
  DeleteNode :: "SPIFFEID \<Rightarrow> 'c \<Rightarrow> grpcCode \<times> 'c"

section \<open>The broker\<close>

definition listPageSize :: nat where "listPageSize = 500"

definition spiffeIDString :: "SPIFFEID \<Rightarrow> string" where
  "spiffeIDString i = (if fst i = [] then [] else ''spiffe://'' @ fst i @ snd i)"

definition splitSelector :: "string \<Rightarrow> (string \<times> string) option" where
  "splitSelector s =
     (let ty = takeWhile (\<lambda>c. c \<noteq> CHR '':'') s; rest = dropWhile (\<lambda>c. c \<noteq> CHR '':'') s
      in if ty = [] \<or> length rest \<le> 1 then None else Some (ty, tl rest))"

fun splitAll :: "string list \<Rightarrow> (string \<times> string) list result" where
  "splitAll [] = Inr []"
| "splitAll (s # ss) =
     (case splitSelector s of
        None \<Rightarrow> Inl (Err (''malformed selector '' @ s))
      | Some p \<Rightarrow> (case splitAll ss of Inl e \<Rightarrow> Inl e | Inr ps \<Rightarrow> Inr (p # ps)))"

definition parseSelectors :: "string list \<Rightarrow> (string \<times> string) list result" where
  "parseSelectors sels = (if sels = [] then Inl (Err ''entry has no selectors'') else splitAll sels)"

definition parseSPIFFEID :: "(string \<Rightarrow> SPIFFEID result) \<Rightarrow> string \<Rightarrow> SPIFFEID result" where
  "parseSPIFFEID fromString s = fromString s"

definition codeErr :: "string \<Rightarrow> grpcCode \<Rightarrow> go_error" where
  "codeErr what c = Err (what @ (case c of CodeOther m \<Rightarrow> m | _ \<Rightarrow> []))"

definition grpcCreateEntry :: "(string \<Rightarrow> SPIFFEID result) \<Rightarrow> 'c EntryAPI \<Rightarrow> EntrySpec \<Rightarrow> 'c \<Rightarrow> go_error option \<times> 'c" where
  "grpcCreateEntry fromString E spec c =
     (case (parseSPIFFEID fromString (esSPIFFEID spec), parseSPIFFEID fromString (esParentID spec), parseSelectors (esSelectors spec)) of
        (Inr i, Inr p, Inr sels) \<Rightarrow>
          (case BatchCreateEntry E [\<lparr>aeId = [], aeSpiffeId = i, aeParentId = p, aeSelectors = sels\<rparr>] c of
             (Inl e, c1) \<Rightarrow> (Some e, c1)
           | (Inr results, c1) \<Rightarrow>
               (case results of
                  [code] \<Rightarrow> (if code = CodeOK \<or> code = CodeAlreadyExists then None else Some (codeErr ''spire BatchCreateEntry: '' code), c1)
                | _ \<Rightarrow> (Some (Err ''spire BatchCreateEntry: expected 1 result''), c1)))
      | _ \<Rightarrow> (Some (Err ''malformed entry''), c))"

text \<open>The paged listing; it goes on while the server hands out page tokens.\<close>

partial_function (option) listEntryIDs ::
  "'c EntryAPI \<Rightarrow> SPIFFEID option \<Rightarrow> (apiEntry \<Rightarrow> bool) \<Rightarrow> string list \<Rightarrow> string \<Rightarrow> 'c \<Rightarrow> (string list result \<times> 'c) option" where
  "listEntryIDs E f keep ids pageToken c =
     (case ListEntries E f listPageSize pageToken c of
        (Inl e, c1) \<Rightarrow> Some (Inl e, c1)
      | (Inr (es, next), c1) \<Rightarrow>
          (let ids' = ids @ filter (\<lambda>i. i \<noteq> []) (map aeId (filter keep es))
           in if next = [] then Some (Inr ids', c1) else listEntryIDs E f keep ids' next c1))"

declare listEntryIDs.simps [code]

fun firstFailure :: "(string \<times> grpcCode) list \<Rightarrow> go_error option" where
  "firstFailure [] = None"
| "firstFailure ((i, code) # rs) =
     (if code = CodeOK \<or> code = CodeNotFound then firstFailure rs else Some (codeErr (''spire BatchDeleteEntry '' @ i @ '': '') code))"

definition batchDelete :: "'c EntryAPI \<Rightarrow> string list \<Rightarrow> 'c \<Rightarrow> go_error option \<times> 'c" where
  "batchDelete E ids c =
     (if ids = [] then (None, c)
      else case BatchDeleteEntry E ids c of
          (Inl e, c1) \<Rightarrow> (Some e, c1)
        | (Inr results, c1) \<Rightarrow> (firstFailure results, c1))"

text \<open>A listing that would never end is ended by the context of the request, as an error of the call that lists.\<close>

definition cancelled :: go_error where "cancelled = Err ''context canceled''"

definition deleteListed :: "'c EntryAPI \<Rightarrow> SPIFFEID option \<Rightarrow> (apiEntry \<Rightarrow> bool) \<Rightarrow> 'c \<Rightarrow> go_error option \<times> 'c" where
  "deleteListed E f keep c =
     (case listEntryIDs E f keep [] [] c of
        None \<Rightarrow> (Some cancelled, c)
      | Some (Inl e, c1) \<Rightarrow> (Some e, c1)
      | Some (Inr ids, c1) \<Rightarrow> batchDelete E ids c1)"

definition grpcDeleteEntry :: "(string \<Rightarrow> SPIFFEID result) \<Rightarrow> 'c EntryAPI \<Rightarrow> string \<Rightarrow> 'c \<Rightarrow> go_error option \<times> 'c" where
  "grpcDeleteEntry fromString E spiffeID c =
     (case parseSPIFFEID fromString spiffeID of
        Inl e \<Rightarrow> (Some e, c)
      | Inr i \<Rightarrow> deleteListed E (Some i) (\<lambda>_. True) c)"

definition grpcDeleteUnder :: "'c EntryAPI \<Rightarrow> string \<Rightarrow> 'c \<Rightarrow> go_error option \<times> 'c" where
  "grpcDeleteUnder E parentPrefix c =
     (if parentPrefix = [] then (Some (Err ''empty parent prefix''), c)
      else deleteListed E None (\<lambda>e. has_prefix (spiffeIDString (aeParentId e)) parentPrefix) c)"

text \<open>The nodes of one page: how many are evicted, and the error that stops the eviction.\<close>

fun evictPage :: "'c AgentAPI \<Rightarrow> string \<Rightarrow> string \<Rightarrow> SPIFFEID list \<Rightarrow> nat \<Rightarrow> 'c \<Rightarrow> (nat \<times> go_error option) \<times> 'c" where
  "evictPage A prefix keepID [] n c = ((n, None), c)"
| "evictPage A prefix keepID (i # is) n c =
     (if spiffeIDString i = keepID \<or> \<not> has_prefix (spiffeIDString i) prefix then evictPage A prefix keepID is n c
      else case DeleteNode A i c of
          (code, c1) \<Rightarrow>
            if code = CodeOK then evictPage A prefix keepID is (n + 1) c1
            else if code = CodeNotFound then evictPage A prefix keepID is n c1
            else ((n, Some (codeErr ''spire DeleteAgent: '' code)), c1))"

partial_function (option) evictPages ::
  "'c AgentAPI \<Rightarrow> string \<Rightarrow> string \<Rightarrow> nat \<Rightarrow> string \<Rightarrow> 'c \<Rightarrow> ((nat \<times> go_error option) \<times> 'c) option" where
  "evictPages A prefix keepID n pageToken c =
     (case ListNodes A listPageSize pageToken c of
        (Inl e, c1) \<Rightarrow> Some ((n, Some e), c1)
      | (Inr (nodes, next), c1) \<Rightarrow>
          (case evictPage A prefix keepID nodes n c1 of
             ((n', Some e), c2) \<Rightarrow> Some ((n', Some e), c2)
           | ((n', None), c2) \<Rightarrow> if next = [] then Some ((n', None), c2) else evictPages A prefix keepID n' next c2))"

definition grpcEvict :: "'c AgentAPI \<Rightarrow> string \<Rightarrow> string \<Rightarrow> 'c \<Rightarrow> (nat \<times> go_error option) \<times> 'c" where
  "grpcEvict A prefix keepID c =
     (if prefix = [] then ((0, Some (Err ''empty node prefix'')), c)
      else case evictPages A prefix keepID 0 [] c of None \<Rightarrow> ((0, Some cancelled), c) | Some r \<Rightarrow> r)"

definition grpcBroker :: "(string \<Rightarrow> SPIFFEID result) \<Rightarrow> 'c EntryAPI \<Rightarrow> 'c AgentAPI \<Rightarrow> 'c EntryBroker" where
  "grpcBroker fromString E A =
     \<lparr>ebCreate = grpcCreateEntry fromString E, ebDelete = grpcDeleteEntry fromString E,
      ebDeleteUnder = Some (grpcDeleteUnder E), ebEvict = Some (grpcEvict A)\<rparr>"

section \<open>Over a server that does what it documents\<close>

definition specOf :: "apiEntry \<Rightarrow> EntrySpec" where
  "specOf e = \<lparr>esSPIFFEID = spiffeIDString (aeSpiffeId e), esParentID = spiffeIDString (aeParentId e),
     esSelectors = map (\<lambda>(ty, v). ty @ CHR '':'' # v) (aeSelectors e)\<rparr>"

definition matches :: "SPIFFEID option \<Rightarrow> apiEntry \<Rightarrow> bool" where
  "matches f e = (case f of None \<Rightarrow> True | Some i \<Rightarrow> aeSpiffeId e = i)"

definition validID :: "SPIFFEID \<Rightarrow> bool" where
  "validID i = (fst i \<noteq> [] \<and> CHR ''/'' \<notin> set (fst i) \<and> (snd i = [] \<or> hd (snd i) = CHR ''/''))"

text \<open>Following the page tokens from one of them collects these entries.\<close>

inductive collects :: "'c EntryAPI \<Rightarrow> SPIFFEID option \<Rightarrow> 'c \<Rightarrow> string \<Rightarrow> apiEntry list \<Rightarrow> bool" for E f c where
  lastPage: "ListEntries E f listPageSize tok c = (Inr (es, []), c) \<Longrightarrow> collects E f c tok es"
| nextPage: "ListEntries E f listPageSize tok c = (Inr (es, next), c) \<Longrightarrow> next \<noteq> [] \<Longrightarrow> collects E f c next rest \<Longrightarrow> collects E f c tok (es @ rest)"

inductive_simps collects_iff: "collects E f c tok es"

text \<open>
  What the server and the parser document: a SPIFFE id parses to the parts it is made of. Listing changes nothing, its pages come to an
  end (\<open>rank\<close> counts what a token still has ahead) and hold the matching entries. A create adds the entry under a fresh id or nothing, and
  has it there when its result is OK or already exists. A delete answers one result per id and removes at most the entries of those ids, and
  those whose result is OK or not found are gone. Nodes are not entries.
\<close>

locale spire_api =
  fixes fromString :: "string \<Rightarrow> SPIFFEID result" and E :: "'c EntryAPI" and A :: "'c AgentAPI"
    and view :: "'c \<Rightarrow> apiEntry list" and rank :: "'c \<Rightarrow> string \<Rightarrow> nat"
  assumes parse_id: "fromString s = Inr i \<Longrightarrow> validID i \<and> spiffeIDString i = s"
    and list_reads: "snd (ListEntries E f n tok c) = c"
    and list_ends: "fst (ListEntries E f listPageSize tok c) = Inr (es, next) \<Longrightarrow> next \<noteq> [] \<Longrightarrow> rank c next < rank c tok"
    and list_all: "collects E f c [] es \<Longrightarrow> es = filter (matches f) (view c)"
    and create_api: "BatchCreateEntry E [e] c = (r, c') \<Longrightarrow>
      (view c' = view c \<or> (\<exists>i. view c' = view c @ [e\<lparr>aeId := i\<rparr>])) \<and>
      (r = Inr [CodeOK] \<or> r = Inr [CodeAlreadyExists] \<longrightarrow> (\<exists>i. e\<lparr>aeId := i\<rparr> \<in> set (view c')))"
    and delete_api: "BatchDeleteEntry E ids c = (q, c') \<Longrightarrow>
      (\<exists>J \<subseteq> set ids. view c' = filter (\<lambda>e. aeId e \<notin> J) (view c)) \<and>
      (\<forall>results. q = Inr results \<longrightarrow> map fst results = ids \<and>
         (\<forall>(i, code) \<in> set results. code = CodeOK \<or> code = CodeNotFound \<longrightarrow> i \<notin> aeId ` set (view c')))"
    and nodes_list: "view (snd (ListNodes A n tok c)) = view c"
    and nodes_delete: "view (snd (DeleteNode A i c)) = view c"

definition identified :: "apiEntry list \<Rightarrow> bool" where
  "identified es = (distinct (map aeId es) \<and> [] \<notin> set (map aeId es) \<and> list_all (\<lambda>e. validID (aeSpiffeId e) \<and> validID (aeParentId e)) es)"

lemma splitSelector_join: "splitSelector s = Some (ty, v) \<Longrightarrow> ty @ CHR '':'' # v = s"
proof -
  assume s: "splitSelector s = Some (ty, v)"
  let ?r = "dropWhile (\<lambda>c. c \<noteq> CHR '':'') s"
  have l: "1 < length ?r" and "takeWhile (\<lambda>c. c \<noteq> CHR '':'') s = ty" "v = tl ?r"
    using s by (simp_all add: splitSelector_def Let_def split: if_splits)
  moreover from l have "?r \<noteq> []" by (cases ?r) simp_all
  ultimately have h: "takeWhile (\<lambda>c. c \<noteq> CHR '':'') s = ty" "?r \<noteq> []" "v = tl ?r" by simp_all
  then have "hd ?r = CHR '':''" using hd_dropWhile [OF h(2)] by simp
  then have "?r = CHR '':'' # v" using h(2,3) by (metis list.collapse)
  then show ?thesis using h(1) takeWhile_dropWhile_id [of "\<lambda>c. c \<noteq> CHR '':''" s] by simp
qed

lemma splitAll_join: "splitAll sels = Inr ps \<Longrightarrow> map (\<lambda>(ty, v). ty @ CHR '':'' # v) ps = sels"
proof (induction sels arbitrary: ps)
  case (Cons s ss)
  then show ?case by (auto split: option.splits sum.splits dest: splitSelector_join)
qed simp

lemma parseSelectors_join: "parseSelectors sels = Inr ps \<Longrightarrow> map (\<lambda>(ty, v). ty @ CHR '':'' # v) ps = sels"
  by (auto simp: parseSelectors_def splitAll_join split: if_splits)

lemma spiffeIDString_inject:
  assumes "validID i" and "validID j" and "spiffeIDString i = spiffeIDString j"
  shows "i = j"
proof -
  have e: "fst i @ snd i = fst j @ snd j" using assms by (auto simp: spiffeIDString_def validID_def)
  have t: "takeWhile (\<lambda>c. c \<noteq> CHR ''/'') (fst k @ snd k) = fst k" if "validID k" for k
    using that by (cases "snd k") (auto simp: validID_def takeWhile_append takeWhile_eq_all_conv)
  from t [OF assms(1)] t [OF assms(2)] e have "fst i = fst j" by simp
  with e show ?thesis by (simp add: prod_eq_iff)
qed

lemma identified_filter [intro]: "identified es \<Longrightarrow> identified (filter P es)"
  by (auto simp: identified_def list_all_iff distinct_map_filter)

context spire_api
begin

lemma listEntryIDs_ends:
  "\<exists>r. listEntryIDs E f keep ids tok c = Some (r, c) \<and>
    (\<forall>out. r = Inr out \<longrightarrow> (\<exists>es. collects E f c tok es \<and> out = ids @ filter (\<lambda>i. i \<noteq> []) (map aeId (filter keep es))))"
proof (induction "rank c tok" arbitrary: tok ids rule: less_induct)
  case less
  obtain r where r: "ListEntries E f listPageSize tok c = (r, c)" using list_reads [of f listPageSize tok c] by (metis prod.collapse)
  show ?case
  proof (cases r)
    case (Inl e)
    then show ?thesis using r by (subst listEntryIDs.simps) simp
  next
    case (Inr p)
    obtain es nx where p: "p = (es, nx)" by force
    let ?ids = "ids @ filter (\<lambda>i. i \<noteq> []) (map aeId (filter keep es))"
    have step: "listEntryIDs E f keep ids tok c = (if nx = [] then Some (Inr ?ids, c) else listEntryIDs E f keep ?ids nx c)"
      using r Inr p by (subst listEntryIDs.simps) (simp add: Let_def)
    show ?thesis
    proof (cases "nx = []")
      case True
      then have "collects E f c tok es" using r Inr p by (intro lastPage) simp
      then show ?thesis using step True by auto
    next
      case False
      have "rank c nx < rank c tok" using list_ends [of f tok c es nx] r Inr p False by simp
      from less [OF this, of ?ids] obtain q where q: "listEntryIDs E f keep ?ids nx c = Some (q, c)"
        "\<forall>out. q = Inr out \<longrightarrow> (\<exists>es'. collects E f c nx es' \<and> out = ?ids @ filter (\<lambda>i. i \<noteq> []) (map aeId (filter keep es')))" by blast
      have "\<exists>es'. collects E f c tok es' \<and> out = ids @ filter (\<lambda>i. i \<noteq> []) (map aeId (filter keep es'))" if out: "q = Inr out" for out
      proof -
        obtain es' where "collects E f c nx es'" "out = ?ids @ filter (\<lambda>i. i \<noteq> []) (map aeId (filter keep es'))" using q(2) out by blast
        moreover have "collects E f c tok (es @ es')" using r Inr p False calculation(1) by (intro nextPage) simp_all
        ultimately show ?thesis by (intro exI [of _ "es @ es'"]) simp
      qed
      then show ?thesis using step False q(1) by auto
    qed
  qed
qed

lemma firstFailure_none: "firstFailure rs = None \<longleftrightarrow> (\<forall>(i, code) \<in> set rs. code = CodeOK \<or> code = CodeNotFound)"
  by (induction rs rule: firstFailure.induct) auto

lemma batchDelete_view:
  assumes "batchDelete E ids c = (e, c')"
  shows "(\<exists>J \<subseteq> set ids. view c' = filter (\<lambda>x. aeId x \<notin> J) (view c)) \<and> (e = None \<longrightarrow> (\<forall>x \<in> set (view c'). aeId x \<notin> set ids))"
proof (cases "ids = []")
  case False
  obtain r where b: "BatchDeleteEntry E ids c = (r, c')" using assms False by (auto simp: batchDelete_def split: prod.splits sum.splits)
  note d = delete_api [OF b]
  show ?thesis
  proof (cases r)
    case (Inl x)
    then show ?thesis using d assms b False by (auto simp: batchDelete_def)
  next
    case (Inr results)
    then have "e = firstFailure results" using assms b False by (simp add: batchDelete_def)
    moreover have "x \<notin> aeId ` set (view c')" if "firstFailure results = None" "x \<in> set ids" for x
    proof -
      have "map fst results = ids" using d Inr by blast
      then have "x \<in> fst ` set results" using that(2) by (metis list.set_map)
      then obtain code where m: "(x, code) \<in> set results" by force
      have "\<forall>(i, code) \<in> set results. code = CodeOK \<or> code = CodeNotFound \<longrightarrow> i \<notin> aeId ` set (view c')" using d Inr by simp
      then show ?thesis using that(1) m unfolding firstFailure_none by fastforce
    qed
    ultimately show ?thesis by (intro conjI [OF conjunct1 [OF d]]) (metis imageI)
  qed
qed (use assms in \<open>auto simp: batchDelete_def intro: exI [of _ "{}"]\<close>)

lemma deleteListed_view:
  assumes "identified (view c)" and "deleteListed E f keep c = (e, c')"
  shows "identified (view c') \<and> set (view c') \<subseteq> set (view c) \<and> (\<forall>x \<in> set (view c). \<not> (matches f x \<and> keep x) \<longrightarrow> x \<in> set (view c')) \<and>
    (e = None \<longrightarrow> (\<forall>x \<in> set (view c'). \<not> (matches f x \<and> keep x)))"
proof -
  obtain r where r: "listEntryIDs E f keep [] [] c = Some (r, c)"
    "\<forall>out. r = Inr out \<longrightarrow> (\<exists>es. collects E f c [] es \<and> out = filter (\<lambda>i. i \<noteq> []) (map aeId (filter keep es)))"
    using listEntryIDs_ends [of f keep "[]" "[]" c] by auto
  show ?thesis
  proof (cases r)
    case (Inl x)
    then show ?thesis using assms r(1) by (auto simp: deleteListed_def)
  next
    case (Inr ids)
    then have b: "batchDelete E ids c = (e, c')" using assms(2) r(1) by (simp add: deleteListed_def)
    let ?S = "filter (\<lambda>x. matches f x \<and> keep x) (view c)"
    obtain es where "collects E f c [] es" and i: "ids = filter (\<lambda>i. i \<noteq> []) (map aeId (filter keep es))" using r(2) Inr by blast
    then have "es = filter (matches f) (view c)" using list_all by blast
    then have ids: "set ids = aeId ` set ?S" using assms(1) by (force simp: i identified_def)
    obtain J where J: "J \<subseteq> aeId ` set ?S" "view c' = filter (\<lambda>x. aeId x \<notin> J) (view c)"
      and none: "e = None \<longrightarrow> (\<forall>x \<in> set (view c'). aeId x \<notin> aeId ` set ?S)"
      using batchDelete_view [OF b] ids by auto
    have inj: "inj_on aeId (set (view c))" using assms(1) by (simp add: identified_def distinct_map)
    have "x \<in> set (view c')" if "x \<in> set (view c)" "\<not> (matches f x \<and> keep x)" for x
      using that J inj by (auto dest: inj_onD)
    moreover have "\<not> (matches f x \<and> keep x)" if "e = None" "x \<in> set (view c')" for x
    proof -
      from that none J(2) have "aeId x \<notin> aeId ` set ?S" "x \<in> set (view c)" by auto
      then show ?thesis by force
    qed
    moreover have "identified (view c')" "set (view c') \<subseteq> set (view c)" using assms(1) identified_filter by (auto simp: J(2))
    ultimately show ?thesis by blast
  qed
qed

lemma evictPage_view: "view (snd (evictPage A p k is n c)) = view c"
proof (induction "is" arbitrary: n c)
  case (Cons i "is")
  then show ?case using nodes_delete [of i c] by (auto split: prod.splits)
qed simp

lemma evictPages_view:
  assumes "evictPages A p k n tok c = Some q"
  shows "view (snd q) = view c"
proof -
  let ?P = "\<lambda>A' p k n tok c q. A' = A \<longrightarrow> view (snd q) = view c"
  have "?P A p k n tok c q"
  proof (rule evictPages.raw_induct [where P = ?P, OF _ assms])
    fix f A' p k n tok c q
    assume IH: "\<And>A' p k n tok c q. f A' p k n tok c = Some q \<Longrightarrow> ?P A' p k n tok c q"
      and step: "(case ListNodes A' listPageSize tok c of
        (Inl e, c1) \<Rightarrow> Some ((n, Some e), c1)
      | (Inr (nodes, next), c1) \<Rightarrow>
          (case evictPage A' p k nodes n c1 of
             ((n', Some e), c2) \<Rightarrow> Some ((n', Some e), c2)
           | ((n', None), c2) \<Rightarrow> if next = [] then Some ((n', None), c2) else f A' p k n' next c2)) = Some q"
    have ev: "view (snd (evictPage A p k nodes n c1)) = view c1" for nodes c1 by (rule evictPage_view)
    have li: "view (snd (ListNodes A listPageSize tok c)) = view c" by (rule nodes_list)
    show "?P A' p k n tok c q"
    proof
      assume [simp]: "A' = A"
      obtain r c1 where l: "ListNodes A listPageSize tok c = (r, c1)" by force
      then have c1: "view c1 = view c" using li by simp
      show "view (snd q) = view c"
      proof (cases r)
        case (Inl e)
        then show ?thesis using step l c1 by auto
      next
        case (Inr pg)
        obtain nodes nx where pg: "pg = (nodes, nx)" by force
        obtain n' e c2 where e: "evictPage A p k nodes n c1 = ((n', e), c2)" by (metis prod.exhaust)
        then have "view c2 = view c" using ev [of nodes c1] c1 by simp
        then show ?thesis using step l Inr pg e IH [of A p k n' nx c2 q] by (auto simp: ev c1 split: option.splits if_splits)
      qed
    qed
  qed
  then show ?thesis by simp
qed

lemma grpcEvict_view: "view (snd (grpcEvict A p k c)) = view c"
  using evictPages_view by (auto simp: grpcEvict_def split: option.splits)

lemma grpcCreateEntry_view:
  assumes "grpcCreateEntry fromString E spec c = (e, c')"
  shows "specOf ` set (view c) \<subseteq> specOf ` set (view c') \<and> specOf ` set (view c') \<subseteq> insert spec (specOf ` set (view c)) \<and>
    (e = None \<longrightarrow> spec \<in> specOf ` set (view c'))"
proof (cases "\<exists>i p sels. fromString (esSPIFFEID spec) = Inr i \<and> fromString (esParentID spec) = Inr p \<and> parseSelectors (esSelectors spec) = Inr sels")
  case True
  then obtain i p sels where h: "fromString (esSPIFFEID spec) = Inr i" "fromString (esParentID spec) = Inr p" "parseSelectors (esSelectors spec) = Inr sels" by blast
  let ?e = "\<lparr>aeId = [], aeSpiffeId = i, aeParentId = p, aeSelectors = sels\<rparr>"
  obtain r c1 where b: "BatchCreateEntry E [?e] c = (r, c1)" by force
  have sp: "specOf (?e\<lparr>aeId := j\<rparr>) = spec" for j
    using parse_id [OF h(1)] parse_id [OF h(2)] parseSelectors_join [OF h(3)] by (cases spec) (simp add: specOf_def)
  have c: "c' = c1" "e = None \<Longrightarrow> r = Inr [CodeOK] \<or> r = Inr [CodeAlreadyExists]"
    using assms h b by (auto simp: grpcCreateEntry_def parseSPIFFEID_def split: sum.splits list.splits if_splits)
  have "(view c1 = view c \<or> (\<exists>j. view c1 = view c @ [?e\<lparr>aeId := j\<rparr>]))" "e = None \<Longrightarrow> \<exists>j. ?e\<lparr>aeId := j\<rparr> \<in> set (view c1)"
    using create_api [OF b] c(2) by blast+
  moreover have "spec \<in> specOf ` set (view c1)" if "?e\<lparr>aeId := j\<rparr> \<in> set (view c1)" for j using sp that by (metis imageI)
  ultimately show ?thesis using sp c(1) by auto
next
  case False
  then show ?thesis using assms by (auto simp: grpcCreateEntry_def parseSPIFFEID_def split: sum.splits)
qed

lemma grpcDeleteEntry_view:
  assumes "identified (view c)" and "grpcDeleteEntry fromString E i c = (e, c')"
  shows "identified (view c') \<and> set (view c') \<subseteq> set (view c) \<and> (\<forall>x \<in> set (view c). esSPIFFEID (specOf x) \<noteq> i \<longrightarrow> x \<in> set (view c')) \<and>
    (e = None \<longrightarrow> (\<forall>x \<in> set (view c'). esSPIFFEID (specOf x) \<noteq> i))"
proof (cases "fromString i")
  case (Inl x)
  then show ?thesis using assms by (auto simp: grpcDeleteEntry_def parseSPIFFEID_def)
next
  case (Inr j)
  have j: "validID j" "spiffeIDString j = i" using parse_id [OF Inr] by auto
  have "deleteListed E (Some j) (\<lambda>_. True) c = (e, c')" using assms(2) Inr by (simp add: grpcDeleteEntry_def parseSPIFFEID_def)
  note d = deleteListed_view [OF assms(1) this]
  have m: "matches (Some j) x \<longleftrightarrow> esSPIFFEID (specOf x) = i" if "x \<in> set (view c)" for x
    using that assms(1) j spiffeIDString_inject [of "aeSpiffeId x" j] by (auto simp: matches_def specOf_def identified_def list_all_iff)
  then show ?thesis using d by auto
qed

lemma grpcDeleteUnder_view:
  assumes "identified (view c)" and "grpcDeleteUnder E p c = (e, c')"
  shows "identified (view c') \<and> set (view c') \<subseteq> set (view c) \<and> (\<forall>x \<in> set (view c). \<not> has_prefix (esParentID (specOf x)) p \<longrightarrow> x \<in> set (view c')) \<and>
    (e = None \<longrightarrow> (\<forall>x \<in> set (view c'). \<not> has_prefix (esParentID (specOf x)) p))"
proof (cases "p = []")
  case False
  then have "deleteListed E None (\<lambda>e. has_prefix (spiffeIDString (aeParentId e)) p) c = (e, c')" using assms(2) by (simp add: grpcDeleteUnder_def)
  from deleteListed_view [OF assms(1) this] show ?thesis by (simp add: matches_def specOf_def)
qed (use assms in \<open>auto simp: grpcDeleteUnder_def\<close>)

end

sublocale spire_api \<subseteq> ed: entry_broker "grpcBroker fromString E A" "\<lambda>c. identified (view c)" "\<lambda>c. specOf ` set (view c)"
proof unfold_locales
  fix b :: 'c and spec i p k s del ev
  let ?B = "grpcBroker fromString E A"
  note cr = grpcCreateEntry_view [where spec = spec and c = b, OF prod.collapse [symmetric]]
  show "specOf ` set (view b) \<subseteq> specOf ` set (view (snd (ebCreate ?B spec b)))"
    "specOf ` set (view (snd (ebCreate ?B spec b))) \<subseteq> insert spec (specOf ` set (view b))"
    using cr by (simp_all add: grpcBroker_def)
  show "spec \<in> specOf ` set (view (snd (ebCreate ?B spec b)))" if "fst (ebCreate ?B spec b) = None" using cr that by (simp add: grpcBroker_def)
  assume ok: "identified (view b)"
  note de = grpcDeleteEntry_view [where i = i, OF ok prod.collapse [symmetric]]
  show "specOf ` set (view (snd (ebDelete ?B i b))) \<subseteq> specOf ` set (view b)" "identified (view (snd (ebDelete ?B i b)))"
    using de by (auto simp: grpcBroker_def)
  show "s \<in> specOf ` set (view (snd (ebDelete ?B i b)))" if "s \<in> specOf ` set (view b)" "esSPIFFEID s \<noteq> i" using de that by (auto simp: grpcBroker_def)
  show "esSPIFFEID s \<noteq> i" if "fst (ebDelete ?B i b) = None" "s \<in> specOf ` set (view (snd (ebDelete ?B i b)))" using de that by (auto simp: grpcBroker_def)
  show "specOf ` set (view (snd (ev p k b))) = specOf ` set (view b) \<and> identified (view (snd (ev p k b)))" if "ebEvict ?B = Some ev"
    using ok that grpcEvict_view by (auto simp: grpcBroker_def)
  note du = grpcDeleteUnder_view [where p = p, OF ok prod.collapse [symmetric]]
  assume "ebDeleteUnder ?B = Some del"
  then have [simp]: "del = grpcDeleteUnder E" by (simp add: grpcBroker_def)
  show "specOf ` set (view (snd (del p b))) \<subseteq> specOf ` set (view b)" "identified (view (snd (del p b)))" using du by auto
  show "s \<in> specOf ` set (view (snd (del p b)))" if "s \<in> specOf ` set (view b)" "\<not> has_prefix (esParentID s) p" using du that by auto
  show "\<not> has_prefix (esParentID s) p" if "fst (del p b) = None" "s \<in> specOf ` set (view (snd (del p b)))" using du that by auto
qed

section \<open>A server that keeps its entries in memory\<close>

definition simpleID :: "string \<Rightarrow> SPIFFEID result" where
  "simpleID s =
     (let rest = drop 9 s; td = takeWhile (\<lambda>c. c \<noteq> CHR ''/'') rest
      in if has_prefix s ''spiffe://'' \<and> td \<noteq> [] then Inr (td, dropWhile (\<lambda>c. c \<noteq> CHR ''/'') rest) else Inl (Err ''malformed SPIFFE ID''))"

definition freshEntryID :: "apiEntry list \<Rightarrow> string" where
  "freshEntryID es = replicate (Suc (sum_list (map (length \<circ> aeId) es))) (CHR ''e'')"

definition memCreateAPI :: "apiEntry list \<Rightarrow> apiEntry list \<Rightarrow> grpcCode list result \<times> apiEntry list" where
  "memCreateAPI batch es =
     (case batch of
        [e] \<Rightarrow> (if e\<lparr>aeId := []\<rparr> \<in> set (map (\<lambda>x. x\<lparr>aeId := []\<rparr>) es) then (Inr [CodeAlreadyExists], es)
                else (Inr [CodeOK], es @ [e\<lparr>aeId := freshEntryID es\<rparr>]))
      | _ \<Rightarrow> (Inl (Err ''batch''), es))"

definition memListAPI :: "SPIFFEID option \<Rightarrow> nat \<Rightarrow> string \<Rightarrow> apiEntry list \<Rightarrow> (apiEntry list \<times> string) result \<times> apiEntry list" where
  "memListAPI f n tok c =
     (let es = filter (matches f) c; m = length tok
      in (Inr (take n (drop (n * m) es), if n * Suc m < length es then replicate (Suc m) (CHR ''p'') else []), c))"

definition memDeleteAPI :: "string list \<Rightarrow> apiEntry list \<Rightarrow> (string \<times> grpcCode) list result \<times> apiEntry list" where
  "memDeleteAPI ids es =
     (Inr (map (\<lambda>i. (i, if i \<in> set (map aeId es) then CodeOK else CodeNotFound)) ids), filter (\<lambda>e. aeId e \<notin> set ids) es)"

definition memEntryAPI :: "apiEntry list EntryAPI" where
  "memEntryAPI = \<lparr>BatchCreateEntry = memCreateAPI, ListEntries = memListAPI, BatchDeleteEntry = memDeleteAPI\<rparr>"

definition memAgentAPI :: "apiEntry list AgentAPI" where
  "memAgentAPI = \<lparr>ListNodes = (\<lambda>n tok c. (Inr ([], []), c)), DeleteNode = (\<lambda>i c. (CodeNotFound, c))\<rparr>"

lemma memListAPI_collects:
  "collects memEntryAPI f c tok es \<Longrightarrow> es = drop (listPageSize * length tok) (filter (matches f) c)"
proof (induction rule: collects.induct)
  case (lastPage tok es)
  then show ?case by (auto simp: memEntryAPI_def memListAPI_def Let_def split: if_splits)
next
  case (nextPage tok es nx rest)
  then have "es = take listPageSize (drop (listPageSize * length tok) (filter (matches f) c))" "length nx = Suc (length tok)"
    by (auto simp: memEntryAPI_def memListAPI_def Let_def split: if_splits)
  moreover from this nextPage have "rest = drop listPageSize (drop (listPageSize * length tok) (filter (matches f) c))"
    by (simp add: add.commute)
  ultimately show ?case by (metis append_take_drop_id)
qed

interpretation memapi: spire_api simpleID memEntryAPI memAgentAPI "\<lambda>c. c" "\<lambda>c tok. Suc (length c) - length tok"
proof unfold_locales
  fix s i assume "simpleID s = Inr i"
  then obtain t where s: "has_prefix s ''spiffe://''" and i: "i = (takeWhile (\<lambda>c. c \<noteq> CHR ''/'') (drop 9 s), dropWhile (\<lambda>c. c \<noteq> CHR ''/'') (drop 9 s))"
    and ne: "takeWhile (\<lambda>c. c \<noteq> CHR ''/'') (drop 9 s) \<noteq> []"
    by (auto simp: simpleID_def Let_def split: if_splits)
  have "take 9 s = ''spiffe://''" using s by (simp add: has_prefix_def eval_nat_numeral)
  then have "''spiffe://'' @ drop 9 s = s" by (metis append_take_drop_id)
  moreover have "CHR ''/'' \<notin> set (takeWhile (\<lambda>c. c \<noteq> CHR ''/'') (drop 9 s))" by (auto dest: set_takeWhileD)
  moreover have "dropWhile (\<lambda>c. c \<noteq> CHR ''/'') (drop 9 s) = [] \<or> hd (dropWhile (\<lambda>c. c \<noteq> CHR ''/'') (drop 9 s)) = CHR ''/''"
    using hd_dropWhile [of "\<lambda>c. c \<noteq> CHR ''/''" "drop 9 s"] by blast
  ultimately show "validID i \<and> spiffeIDString i = s" using ne by (simp add: validID_def spiffeIDString_def i del: dropWhile_eq_Nil_conv)
next
  fix f n tok c show "snd (ListEntries memEntryAPI f n tok c) = c" by (simp add: memEntryAPI_def memListAPI_def Let_def)
next
  fix f tok c es nx assume h: "fst (ListEntries memEntryAPI f listPageSize tok c) = Inr (es, nx)" "nx \<noteq> []"
  then have "listPageSize * Suc (length tok) < length (filter (matches f) c)" "length nx = Suc (length tok)"
    by (auto simp: memEntryAPI_def memListAPI_def Let_def split: if_splits)
  moreover from this(1) have "listPageSize * Suc (length tok) < length c" by (rule less_le_trans) simp
  then have "length tok < length c" by (simp add: listPageSize_def)
  ultimately show "Suc (length c) - length nx < Suc (length c) - length tok" by simp
next
  fix f c es assume "collects memEntryAPI f c [] es"
  from memListAPI_collects [OF this] show "es = filter (matches f) c" by simp
next
  fix e c r c' assume "BatchCreateEntry memEntryAPI [e] c = (r, c')"
  moreover have "\<exists>i. e\<lparr>aeId := i\<rparr> \<in> set c" if "x \<in> set c" "e\<lparr>aeId := []\<rparr> = x\<lparr>aeId := []\<rparr>" for x
    using that by (intro exI [of _ "aeId x"]) (cases e; cases x; simp)
  ultimately show "(c' = c \<or> (\<exists>i. c' = c @ [e\<lparr>aeId := i\<rparr>])) \<and> (r = Inr [CodeOK] \<or> r = Inr [CodeAlreadyExists] \<longrightarrow> (\<exists>i. e\<lparr>aeId := i\<rparr> \<in> set c'))"
    by (auto simp: memEntryAPI_def memCreateAPI_def split: if_splits)
next
  fix ids c q c' assume "BatchDeleteEntry memEntryAPI ids c = (q, c')"
  then show "(\<exists>J\<subseteq>set ids. c' = filter (\<lambda>e. aeId e \<notin> J) c) \<and>
      (\<forall>results. q = Inr results \<longrightarrow> map fst results = ids \<and> (\<forall>(i, code) \<in> set results. code = CodeOK \<or> code = CodeNotFound \<longrightarrow> i \<notin> aeId ` set c'))"
    by (auto simp: memEntryAPI_def memDeleteAPI_def comp_def)
qed (simp_all add: memAgentAPI_def)

section \<open>Properties\<close>

text \<open>
  C33: the sweep of the production edge. The listing goes on as long as the server hands out page tokens; with every server whose pages come to an
  end it ends, without changing anything, and the sweep under a prefix is exact: it takes no entry outside the prefix, adds none, and when
  it reports no error the entries left are exactly those outside, however many pages there are and whatever their texts contain.
\<close>

theorem edge_sweep_exact:
  assumes "spire_api fromString E A view rank" and "identified (view c)" and "p \<noteq> []" and "grpcDeleteUnder E p c = (e, c')"
  shows "(\<exists>r. listEntryIDs E f keep ids tok c = Some (r, c)) \<and>
    {x \<in> set (view c). \<not> has_prefix (spiffeIDString (aeParentId x)) p} \<subseteq> set (view c') \<and> set (view c') \<subseteq> set (view c) \<and>
    (e = None \<longrightarrow> set (view c') = {x \<in> set (view c). \<not> has_prefix (spiffeIDString (aeParentId x)) p})"
proof -
  note d = spire_api.grpcDeleteUnder_view [OF assms(1,2,4)]
  have "\<exists>r. listEntryIDs E f keep ids tok c = Some (r, c)" using spire_api.listEntryIDs_ends [OF assms(1)] by blast
  moreover have "esParentID (specOf x) = spiffeIDString (aeParentId x)" for x by (simp add: specOf_def)
  ultimately show ?thesis using d by auto
qed

definition exNodes :: "apiEntry list" where
  "exNodes = [\<lparr>aeId = ''1'', aeSpiffeId = (''td'', ''/org/acme/agent/w1''), aeParentId = (''td'', ''/spire/agent/x509pop/org/acme/f0''), aeSelectors = []\<rparr>,
     \<lparr>aeId = ''2'', aeSpiffeId = (''td'', ''/org/globex/agent/w1''), aeParentId = (''td'', ''/spire/agent/x509pop/org/globex/g0''), aeSelectors = []\<rparr>]"

theorem edge_sweep_exact_witness:
  "\<exists>c'. grpcDeleteUnder memEntryAPI ''spiffe://td/spire/agent/x509pop/org/acme/'' exNodes = (None, c') \<and> set c' = {exNodes ! 1}"
proof -
  let ?p = "''spiffe://td/spire/agent/x509pop/org/acme/''"
  obtain e c' where d: "grpcDeleteUnder memEntryAPI ?p exNodes = (e, c')" by force
  have "identified exNodes" by code_simp
  note s = edge_sweep_exact [OF memapi.spire_api_axioms this _ d]
  have k: "\<not> has_prefix (spiffeIDString (aeParentId (exNodes ! 1))) ?p" "has_prefix (spiffeIDString (aeParentId (exNodes ! 0))) ?p" by code_simp+
  have set: "set exNodes = {exNodes ! 0, exNodes ! 1}" by (simp add: exNodes_def)
  have "fst (grpcDeleteUnder memEntryAPI ?p exNodes) = None" by code_simp
  then have "e = None" using d by simp
  then show ?thesis using s k d unfolding set by auto
qed

end
