(* ===== verification/SubstrateAPI.thy ===== *)
theory SubstrateAPI
  imports GrpcBroker
begin

text \<open>
  The substrate surface over both entry brokers and over the registry: isolation of the Entry API,
  rotation and disconnection. \<open>memCLI\<close> is a command that keeps its entries in a list and shows that the laws assumed of
  \<open>spire-server\<close> can hold.
\<close>

section \<open>A command that keeps its entries in memory\<close>

type_synonym memEntries = "(string \<times> EntrySpec) list"

definition stripSock :: "string list \<Rightarrow> string list" where
  "stripSock args = (if args \<noteq> [] \<and> hd args = ''-socketPath'' then drop 2 args else args)"

fun selectorArgs :: "string list \<Rightarrow> string list" where
  "selectorArgs (flag # sel # rest) = sel # selectorArgs rest"
| "selectorArgs _ = []"

definition freshID :: "memEntries \<Rightarrow> string" where
  "freshID es = replicate (Suc (sum_list (map (length \<circ> fst) es))) (CHR ''e'')"

definition argSpec :: "string list \<Rightarrow> EntrySpec" where
  "argSpec args = \<lparr>esSPIFFEID = args ! 3, esParentID = args ! 1, esSelectors = selectorArgs (drop 4 args)\<rparr>"

definition memCreate :: "EntrySpec \<Rightarrow> memEntries \<Rightarrow> (string \<times> bool) \<times> memEntries" where
  "memCreate spec es =
     (if spec \<in> set (map snd es) then ((''Error: similar entry already exists'', True), es)
      else (('''', False), es @ [(freshID es, spec)]))"

definition memCLI :: "memEntries cli" where
  "memCLI args es =
     (let rest = stripSock (drop 2 args)
      in if take 2 args = [''entry'', ''create''] then memCreate (argSpec rest) es
         else if take 2 args = [''entry'', ''show''] then
           ((showText ''Found entries'' (if rest = [] then es else filter (\<lambda>e. esSPIFFEID (snd e) = rest ! 1) es), False), es)
         else if take 2 args = [''entry'', ''delete''] then
           (if rest ! 1 \<in> set (map fst es) then (('''', False), filter (\<lambda>e. fst e \<noteq> rest ! 1) es) else ((''Error: entry not found'', True), es))
         else (('''', False), es))"

lemma stripSock_base: "args \<noteq> [] \<longrightarrow> hd args \<noteq> ''-socketPath'' \<Longrightarrow> stripSock (baseArgs sock @ args) = args"
  by (auto simp: stripSock_def baseArgs_def)

lemma selectorArgs_flags: "selectorArgs (concat (map (\<lambda>sel. [flag, sel]) sels)) = sels"
  by (induction sels) auto

lemma mentions_notfound: "mentions ''Error: entry not found'' ''not found''"
  by code_simp

lemma memCLI_create: "memCLI (createArgs sock spec) es = memCreate spec es"
proof -
  let ?rest = "[''-parentID'', esParentID spec, ''-spiffeID'', esSPIFFEID spec] @ concat (map (\<lambda>sel. [''-selector'', sel]) (esSelectors spec))"
  have "stripSock (baseArgs sock @ ?rest) = ?rest" by (rule stripSock_base) simp
  then show ?thesis by (cases spec) (simp add: memCLI_def createArgs_def argSpec_def selectorArgs_flags)
qed

lemma memCLI_show:
  "memCLI (showArgs sock None) es = ((showText ''Found entries'' es, False), es)"
  "memCLI (showArgs sock (Some i)) es = ((showText ''Found entries'' (filter (\<lambda>e. esSPIFFEID (snd e) = i) es), False), es)"
  by (simp_all add: memCLI_def showArgs_def stripSock_base stripSock_base [of "[]", simplified])

lemma memCLI_delete:
  "memCLI (deleteArgs sock i) es =
     (if i \<in> set (map fst es) then (('''', False), filter (\<lambda>e. fst e \<noteq> i) es) else ((''Error: entry not found'', True), es))"
  by (simp add: memCLI_def deleteArgs_def stripSock_base)

interpretation memcli: spire_cli memCLI sock "\<lambda>es. es"
proof unfold_locales
  have sh: "shown (showText ''Found entries'' es) es" for es
    unfolding shown_def by (rule exI [of _ "''Found entries''"]) (simp add: plainText_def is_space_def newline_def has_prefix_def)
  fix spec i c c' out failed
  show "(c' = c \<or> (\<exists>i. c' = c @ [(i, spec)])) \<and> (\<not> failed \<or> mentions out ''already exists'' \<longrightarrow> spec \<in> snd ` set c')"
    if "memCLI (createArgs sock spec) c = ((out, failed), c')"
    using that by (auto simp: memCLI_create memCreate_def split: if_splits)
  show "c' = c \<and> (\<not> failed \<longrightarrow> shown out c)" if "memCLI (showArgs sock None) c = ((out, failed), c')"
    using that sh by (auto simp: memCLI_show)
  show "c' = c \<and> (\<not> failed \<longrightarrow> shown out (filter (\<lambda>e. esSPIFFEID (snd e) = i) c))" if "memCLI (showArgs sock (Some i)) c = ((out, failed), c')"
    using that sh by (auto simp: memCLI_show)
  show "(c' = c \<or> c' = filter (\<lambda>e. fst e \<noteq> i) c) \<and> (\<not> failed \<or> mentions out ''not found'' \<longrightarrow> c' = filter (\<lambda>e. fst e \<noteq> i) c)"
    if "memCLI (deleteArgs sock i) c = ((out, failed), c')"
    using that filter_id_conv [of "\<lambda>e. fst e \<noteq> i" c] by (auto simp: memCLI_delete split: if_splits)
  show "snd (memCLI (listArgs sock) c) = c" "snd (memCLI (evictArgs sock i) c) = c"
    by (simp_all add: memCLI_def listArgs_def evictArgs_def)
qed

section \<open>Isolation\<close>

lemma spiffeSubstrateAuth_ok:
  assumes "spiffeSubstrateAuth validate td authz = Inr org"
  shows "\<exists>i p. validate (trim_prefix authz ''Bearer '') = Inr i \<and> ParsePath i = Inr p \<and> psTrustDomain p = td \<and> psSubstrateAgent p \<and> psOrgID p = org"
  using assms by (auto simp: spiffeSubstrateAuth_def Let_def split: if_splits sum.splits)

text \<open>
  A broker the orchestrator is configured with, its entries, and the state it is in: the one of the production edge, or the one that runs \<open>spire-server\<close>, as long as
  the entries can be read back from what the command prints. The Entry API does not keep them so, as the last theorem of this theory shows.
\<close>

definition goodBroker :: "'c EntryBroker \<Rightarrow> ('c \<Rightarrow> EntrySpec set) \<Rightarrow> 'c \<Rightarrow> bool" where
  "goodBroker B entries c \<longleftrightarrow>
     (\<exists>run sock view. spire_cli run sock view \<and> legible (view c) \<and> B = execEntryBroker run sock \<and> entries = (\<lambda>c. snd ` set (view c))) \<or>
     (\<exists>fromString E A view rank. spire_api fromString E A view rank \<and> identified (view c) \<and> B = grpcBroker fromString E A \<and>
        entries = (\<lambda>c. specOf ` set (view c)))"

context spire_cli
begin

lemma exec_broker: "entry_broker (execEntryBroker run sock) (\<lambda>c. legible (view c)) (\<lambda>c. snd ` set (view c))"
  by (rule ex.entry_broker_axioms)

end

context spire_api
begin

lemma edge_broker: "entry_broker (grpcBroker fromString E A) (\<lambda>c. identified (view c)) (\<lambda>c. specOf ` set (view c))"
  by (rule ed.entry_broker_axioms)

end

lemma goodBroker_law:
  assumes "goodBroker B entries c"
  obtains ok where "entry_broker B ok entries" and "ok c"
  using assms spire_cli.exec_broker spire_api.edge_broker unfolding goodBroker_def by blast

lemma memcli_good: "legible es \<Longrightarrow> goodBroker (execEntryBroker memCLI sock) (\<lambda>c. snd ` set c) es"
  using memcli.spire_cli_axioms unfolding goodBroker_def by blast

context entry_broker
begin

text \<open>The caller of an Entry API request that changes the entries.\<close>

lemma api_isolated:
  assumes "ok c" and "saBroker api = Some B"
    and "saAuth api = Some (spiffeSubstrateAuth validate (saTrustDomain api))"
  shows "createEntry api authz body (w, c) = (a, w', c') \<Longrightarrow> s \<in> entries c' - entries c \<Longrightarrow>
      \<exists>callerOrg org. spiffeSubstrateAuth validate (saTrustDomain api) authz = Inr callerOrg \<and> NormalizeOrgID callerOrg = Some org \<and>
        workloadOf (saTrustDomain api) org s \<and> nodeOf (saTrustDomain api) org (esParentID s) \<and> validateSelectors (esSelectors s)"
    and "deleteEntry api authz i (w, c) = (a2, w2, c2) \<Longrightarrow> s \<in> entries c - entries c2 \<Longrightarrow>
      \<exists>callerOrg org. spiffeSubstrateAuth validate (saTrustDomain api) authz = Inr callerOrg \<and> NormalizeOrgID callerOrg = Some org \<and>
        workloadOf (saTrustDomain api) org s"
    and "createEntry api authz body (w, c) = (a, w', c') \<Longrightarrow> entries c \<subseteq> entries c'"
    and "deleteEntry api authz i (w, c) = (a2, w2, c2) \<Longrightarrow> entries c2 \<subseteq> entries c"
proof -
  assume "createEntry api authz body (w, c) = (a, w', c')"
  from createEntry_isolated [OF assms(1,2) this] show "entries c \<subseteq> entries c'" 
      "s \<in> entries c' - entries c \<Longrightarrow> \<exists>callerOrg org. spiffeSubstrateAuth validate (saTrustDomain api) authz = Inr callerOrg \<and>
        NormalizeOrgID callerOrg = Some org \<and> workloadOf (saTrustDomain api) org s \<and> nodeOf (saTrustDomain api) org (esParentID s) \<and> validateSelectors (esSelectors s)"
    unfolding assms(3) option.inject by blast+
next
  assume "deleteEntry api authz i (w, c) = (a2, w2, c2)"
  from deleteEntry_isolated [OF assms(1,2) this] show "entries c2 \<subseteq> entries c" 
      "s \<in> entries c - entries c2 \<Longrightarrow> \<exists>callerOrg org. spiffeSubstrateAuth validate (saTrustDomain api) authz = Inr callerOrg \<and>
        NormalizeOrgID callerOrg = Some org \<and> workloadOf (saTrustDomain api) org s"
    unfolding assms(3) option.inject by blast+
qed

end

text \<open>
  C18: isolation of the Entry API. A substrate drives its SPIRE entries through the orchestrator and one of its two brokers. Whatever a request asks for, and also when it fails half way: a create request removes nothing, and an entry that it adds is
  a workload of the organization named in the caller's validated substrate-agent identity, of the configured trust domain, directly under a
  node of that organization, with selectors that bind namespace, pod and service account; a delete request adds nothing and
  removes only workload entries of the caller's organization. With the broker that reads what \<open>spire-server\<close> prints this holds while the
  entries fit the lines of the printed list.
\<close>

theorem entry_api_isolated:
  assumes "goodBroker B entries c" and "saBroker api = Some B"
    and "saAuth api = Some (spiffeSubstrateAuth validate (saTrustDomain api))"
    and "createEntry api authz body (w, c) = (a, w', c')" and "deleteEntry api authz i (w, c) = (a2, w2, c2)"
  shows "entries c \<subseteq> entries c' \<and> entries c2 \<subseteq> entries c \<and>
    (\<forall>s. s \<in> entries c' - entries c \<or> s \<in> entries c - entries c2 \<longrightarrow>
       (\<exists>svid p org. validate (trim_prefix authz ''Bearer '') = Inr svid \<and> ParsePath svid = Inr p \<and> psTrustDomain p = saTrustDomain api \<and>
          psSubstrateAgent p \<and> NormalizeOrgID (psOrgID p) = Some org \<and> workloadOf (saTrustDomain api) org s \<and>
          (s \<in> entries c' - entries c \<longrightarrow> nodeOf (saTrustDomain api) org (esParentID s) \<and> validateSelectors (esSelectors s))))"
proof (intro conjI allI impI)
  obtain ok where law: "entry_broker B ok entries" "ok c" using goodBroker_law [OF assms(1)] .
  note iso = entry_broker.api_isolated [OF law assms(2,3)]
  show "entries c \<subseteq> entries c'" "entries c2 \<subseteq> entries c" using iso(3) [OF assms(4)] iso(4) [OF assms(5)] .
  fix s assume "s \<in> entries c' - entries c \<or> s \<in> entries c - entries c2"
  then obtain callerOrg org where h: "spiffeSubstrateAuth validate (saTrustDomain api) authz = Inr callerOrg" "NormalizeOrgID callerOrg = Some org"
      "workloadOf (saTrustDomain api) org s"
      "s \<in> entries c' - entries c \<longrightarrow> nodeOf (saTrustDomain api) org (esParentID s) \<and> validateSelectors (esSelectors s)"
    using iso(1) [OF assms(4), of s] iso(2) [OF assms(5), of s] by blast
  then show "\<exists>svid p org. validate (trim_prefix authz ''Bearer '') = Inr svid \<and> ParsePath svid = Inr p \<and> psTrustDomain p = saTrustDomain api \<and>
          psSubstrateAgent p \<and> NormalizeOrgID (psOrgID p) = Some org \<and> workloadOf (saTrustDomain api) org s \<and>
          (s \<in> entries c' - entries c \<longrightarrow> nodeOf (saTrustDomain api) org (esParentID s) \<and> validateSelectors (esSelectors s))"
    using spiffeSubstrateAuth_ok [OF h(1)] by blast
qed

section \<open>Connecting and disconnecting\<close>

text \<open>The substrate routes of the registry over the in-memory store.\<close>

definition putRoute :: "time \<Rightarrow> string \<Rightarrow> substrateReq \<Rightarrow> (store, 'd) world \<Rightarrow> Organization http result \<times> (store, 'd) world" where
  "putRoute now oid b w = onFst Inr (handlePutSubstrate memStore now oid (Inr b) w)"

definition deleteRoute :: "string \<Rightarrow> (store, 'd) world \<Rightarrow> unit http result \<times> (store, 'd) world" where
  "deleteRoute oid w = onFst Inr (handleDeleteSubstrate memStore oid w)"

definition orgKeyed :: "string \<Rightarrow> (store, 'd) world \<Rightarrow> bool" where
  "orgKeyed oid w = (case gget (stOrgs (wStore w)) oid of None \<Rightarrow> True | Some org \<Rightarrow> orgOrgID org = oid)"

lemma edited_org:
  assumes "orgKeyed oid w" and "\<And>org. orgOrgID (f org) = orgOrgID org"
  shows "(case gget (stOrgs (wStore w)) oid of
      None \<Rightarrow> editOrg memStore oid f ans w = (notFound, w)
    | Some org \<Rightarrow> fst (editOrg memStore oid f ans w) = ans (f org) \<and>
        gget (stOrgs (wStore (snd (editOrg memStore oid f ans w)))) oid = Some (f org))"
  using assms
  by (auto simp: editOrg_def orgKeyed_def morg.get_org split: option.splits prod.splits dest!: morg.put_org)

lemma recorded:
  assumes "putSubstrateRecord api oid fp sn w = (None, w')" and "saPutRoute api = putRoute now" and "orgKeyed oid w"
  shows "\<exists>org. gget (stOrgs (wStore w')) oid = Some org \<and> orgSubstrate org =
    Some \<lparr>subStatus = SubstratePending, subCertFingerprint = fp, subCertSerial = sn, subIssuedAt = now, subActivatedAt = None\<rparr>"
proof -
  let ?f = "\<lambda>org. org\<lparr>orgSubstrate := Some \<lparr>subStatus = SubstratePending, subCertFingerprint = fp, subCertSerial = sn, subIssuedAt = now, subActivatedAt = None\<rparr>\<rparr>"
  have "fp \<noteq> []" and e: "onFst Inr (editOrg memStore oid ?f (HttpOK 200) w) = (Inr (fst (editOrg memStore oid ?f (HttpOK 200) w)), w')"
      and st: "http_status (fst (editOrg memStore oid ?f (HttpOK 200) w)) = 200"
    using assms(1,2)
    by (auto simp: putSubstrateRecord_def putRoute_def handlePutSubstrate_def checked_def onFst_def split: if_splits)
  then show ?thesis using edited_org [OF assms(3), of ?f "HttpOK 200"] by (auto simp: onFst_def notFound_def split: option.splits)
qed

lemma unrecorded:
  assumes "deleteSubstrateRecord api oid w = (e, w')" and "saDeleteRoute api = deleteRoute" and "orgKeyed oid w" and "gget (stOrgs (wStore w')) oid = Some org"
  shows "orgSubstrate org = None"
proof -
  let ?f = "\<lambda>org. org\<lparr>orgSubstrate := None\<rparr>"
  have "w' = snd (editOrg memStore oid ?f (\<lambda>_. HttpOK 204 ()) w)"
    using assms(1,2) by (auto simp: deleteSubstrateRecord_def deleteRoute_def handleDeleteSubstrate_def onFst_def)
  then show ?thesis using edited_org [OF assms(3), of ?f "\<lambda>_. HttpOK 204 ()"] assms(4) by (auto split: option.splits)
qed

text \<open>Without a substrate record the Entry API refuses the organization.\<close>

lemma authEntryCaller_refuses:
  assumes "saServer api = registryServer memStore D oddPath" and "saBroker api = Some B" and "saAuth api = Some auth" and "auth authz = Inr org"
    and "\<And>r. gget (stOrgs (wStore w)) org = Some r \<Longrightarrow> orgSubstrate r = None"
  shows "authEntryCaller api authz w = (Inl (if gget (stOrgs (wStore w)) org = None then HttpError 502 ''registry unavailable'' else HttpError 403 ''forbidden''), w)"
  using assms
  by (cases "gget (stOrgs (wStore w)) org")
    (auto simp: authEntryCaller_def fetchOrg_def registryServer_def onFst_def handleGetOrg_def morg.get_org notFound_def)

context entry_broker
begin

lemma provision_effect:
  assumes "ok c" and "NormalizeOrgID org = Some org" and "provision api B org nodeID c = (None, c')"
  shows "\<exists>i. BuildSubstrateAgentPath (saTrustDomain api) org = Inr i \<and>
    (let boot = \<lparr>esSPIFFEID = i, esParentID = nodeID, esSelectors = bootstrapSelectors api\<rparr>
     in underNode (saTrustDomain api) org boot \<and> boot \<in> entries c' \<and> entries c' \<subseteq> insert boot (entries c) \<and>
        (\<forall>s \<in> entries c'. (if fst (InvalidateOrgNodeEntries B (saTrustDomain api) org c) = None
             then underNode (saTrustDomain api) org s else agentEntry (saTrustDomain api) org s) \<longrightarrow> s = boot) \<and>
        (\<forall>s \<in> entries c. underNode (saTrustDomain api) org s \<or> agentEntry (saTrustDomain api) org s \<or> s \<in> entries c'))"
proof -
  let ?td = "saTrustDomain api"
  obtain e c1 where sw: "sweepOrg B ?td org c = (e, c1)" by force
  define c2 where "c2 = snd (EvictSupersededOrgNodes B ?td org nodeID c1)"
  have e: "e = None" "ProvisionSubstrateAgentEntry B ?td org nodeID (bootstrapSelectors api) c2 = (None, c')"
    using assms(3) sw by (auto simp: provision_def c2_def split: option.splits prod.splits)
  note s1 = sweepOrg_effect [OF assms(1,2) sw]
  then have s2: "ok c2" "entries c2 = entries c1" using evict_effect [of c1 ?td org nodeID] by (auto simp: c2_def)
  obtain i where i: "BuildSubstrateAgentPath ?td org = Inr i" "underNode ?td org \<lparr>esSPIFFEID = i, esParentID = nodeID, esSelectors = bootstrapSelectors api\<rparr>"
      "entries c' = insert \<lparr>esSPIFFEID = i, esParentID = nodeID, esSelectors = bootstrapSelectors api\<rparr> (entries c1)"
    using provisioned [OF s2(1) e(2) assms(2)] s2(2) by auto
  then show ?thesis using s1 e(1) unfolding Let_def i(3) by (intro exI [of _ i] conjI) (auto split: if_splits)
qed

lemma disconnect_effect:
  assumes "ok c" and "saBroker api = Some B" and "NormalizeOrgID orgID = Some org"
    and "disconnectSubstrate api orgID (w, c) = (HttpOK 204 (), w', c')"
  shows "deleteSubstrateRecord api org w = (None, w') \<and> entries c' \<subseteq> entries c \<and>
    (\<forall>s \<in> entries c. underNode (saTrustDomain api) org s \<or> agentEntry (saTrustDomain api) org s \<or> s \<in> entries c') \<and>
    (fst (InvalidateOrgNodeEntries B (saTrustDomain api) org c) = None \<longrightarrow>
      (\<forall>s \<in> entries c'. \<not> underNode (saTrustDomain api) org s))"
proof -
  let ?td = "saTrustDomain api"
  obtain e c1 where sw: "sweepOrg B ?td org c = (e, c1)" by force
  have d: "deleteSubstrateRecord api org w = (None, w')" "c' = snd (EvictSupersededOrgNodes B ?td org [] c1)"
    using assms(2-4) sw by (auto simp: disconnectSubstrate_def split: option.splits prod.splits)
  have "NormalizeOrgID org = Some org" using NormalizeOrgID_idem [OF assms(3)] by simp
  note s1 = sweepOrg_effect [OF assms(1) this sw]
  then have "entries c' = entries c1" using evict_effect [of c1 ?td org "[]"] by (auto simp: d(2))
  then show ?thesis using d(1) s1 by auto
qed

end

text \<open>
  C24: rotation, with one of the two brokers configured, the one that reads what \<open>spire-server\<close> prints only while the entries fit the lines of the printed list. When connecting the substrate of an organization answers 201, the registry holds a pending record with the fingerprint and serial of
  the new certificate, and the one entry of the substrate agent hangs under a node of the organization: if the sweep reported no error it is
  the only entry left under any of its nodes, so nothing that the superseded certificate could attest survives; if the sweep failed it is
  at least the only substrate-agent entry left. Nothing else is added, and entries that are neither under its nodes nor its substrate agent's are kept.
\<close>

theorem connect_supersedes:
  assumes "goodBroker B entries c" and "saBroker api = Some B"
    and "saPutRoute api = putRoute now" and "\<forall>oid. orgKeyed oid w"
    and "connectSubstrate api issuer orgID (w, c) = (HttpOK 201 (org, issued), w', c')"
  shows "NormalizeOrgID orgID = Some org \<and>
    (\<exists>r. gget (stOrgs (wStore w')) org = Some r \<and> orgSubstrate r = Some \<lparr>subStatus = SubstratePending, subCertFingerprint = iiCertFingerprint issued,
       subCertSerial = iiCertSerial issued, subIssuedAt = now, subActivatedAt = None\<rparr>) \<and>
    (\<exists>i. BuildSubstrateAgentPath (saTrustDomain api) org = Inr i \<and>
    (let boot = \<lparr>esSPIFFEID = i, esParentID = iiNodeID issued, esSelectors = bootstrapSelectors api\<rparr>
     in underNode (saTrustDomain api) org boot \<and> boot \<in> entries c' \<and> entries c' \<subseteq> insert boot (entries c) \<and>
        (\<forall>s \<in> entries c'. (if fst (InvalidateOrgNodeEntries B (saTrustDomain api) org c) = None
             then underNode (saTrustDomain api) org s else agentEntry (saTrustDomain api) org s) \<longrightarrow> s = boot) \<and>
        (\<forall>s \<in> entries c. underNode (saTrustDomain api) org s \<or> agentEntry (saTrustDomain api) org s \<or> s \<in> entries c')))"
proof -
  have h: "NormalizeOrgID orgID = Some org" "putSubstrateRecord api org (iiCertFingerprint issued) (iiCertSerial issued) w = (None, w')"
      "provision api B org (iiNodeID issued) c = (None, c')"
    using assms(2,5) by (auto simp: connectSubstrate_def split: option.splits sum.splits prod.splits if_splits)
  have n: "NormalizeOrgID org = Some org" using NormalizeOrgID_idem [OF h(1)] by simp
  obtain ok where law: "entry_broker B ok entries" "ok c" using goodBroker_law [OF assms(1)] .
  show ?thesis using h(1) recorded [OF h(2) assms(3)] assms(4) entry_broker.provision_effect [OF law n h(3)] by blast
qed

text \<open>
  C25: disconnection, with one of the two brokers configured, the one that reads what \<open>spire-server\<close> prints only while the entries fit the lines of the printed list. When disconnecting the substrate of an organization answers 204, its record names no substrate any more, and from
  then on the Entry API refuses every create and delete request of its substrate agent and changes nothing, even while the
  identity of that agent is still valid. No entry was added, an entry that went was under a node of the organization or its substrate
  agent's, and when the sweep reported no error no entry is left under its nodes.
\<close>

theorem disconnect_refuses:
  assumes "goodBroker B entries c" and "saBroker api = Some B"
    and "saServer api = registryServer memStore D oddPath" and "saDeleteRoute api = deleteRoute" and "\<forall>oid. orgKeyed oid w"
    and "NormalizeOrgID orgID = Some org" and "disconnectSubstrate api orgID (w, c) = (HttpOK 204 (), w', c')"
  shows "(\<forall>r. gget (stOrgs (wStore w')) org = Some r \<longrightarrow> orgSubstrate r = None) \<and>
    (\<forall>auth authz body i. saAuth api = Some auth \<and> auth authz = Inr org \<longrightarrow>
       (\<exists>refusal \<in> {HttpError 403 ''forbidden'', HttpError 502 ''registry unavailable''}.
          createEntry api authz body (w', c') = (refusal, w', c') \<and> deleteEntry api authz i (w', c') = (refusal, w', c'))) \<and>
    entries c' \<subseteq> entries c \<and>
    (\<forall>s \<in> entries c. underNode (saTrustDomain api) org s \<or> agentEntry (saTrustDomain api) org s \<or> s \<in> entries c') \<and>
    (fst (InvalidateOrgNodeEntries B (saTrustDomain api) org c) = None \<longrightarrow>
      (\<forall>s \<in> entries c'. \<not> underNode (saTrustDomain api) org s))"
proof -
  obtain ok where law: "entry_broker B ok entries" "ok c" using goodBroker_law [OF assms(1)] .
  note d = entry_broker.disconnect_effect [OF law assms(2,6,7)]
  have u: "\<And>r. gget (stOrgs (wStore w')) org = Some r \<Longrightarrow> orgSubstrate r = None"
    using unrecorded [OF conjunct1 [OF d] assms(4)] assms(5) by blast
  have r: "\<exists>refusal \<in> {HttpError 403 ''forbidden'', HttpError 502 ''registry unavailable''}.
      createEntry api authz body (w', c') = (refusal, w', c') \<and> deleteEntry api authz i (w', c') = (refusal, w', c')"
    if "saAuth api = Some auth" "auth authz = Inr org" for auth authz body i
  proof -
    have "(authEntryCaller api authz w' :: (unit http + _) \<times> _) =
        (Inl (if gget (stOrgs (wStore w')) org = None then HttpError 502 ''registry unavailable'' else HttpError 403 ''forbidden''), w')"
      using authEntryCaller_refuses [OF assms(3,2) that] u by blast
    then show ?thesis by (simp add: createEntry_def deleteEntry_def)
  qed
  show ?thesis by (rule conjI [OF _ conjI [OF _ conjunct2 [OF d]]]) (use u r in simp_all)
qed

section \<open>Concrete requests\<close>

definition subStore :: "(store, Mock) world" where
  "subStore = familyWorld\<lparr>wStore := (wStore familyWorld)\<lparr>
     stOrgs := [(''acme'', \<lparr>orgOrgID = ''acme'', orgName = ''Acme'', orgRemovalDisposition = [], orgDisabled = False, orgAnchor = None,
       orgSubstrate = Some \<lparr>subStatus = ''active'', subCertFingerprint = ''f0'', subCertSerial = ''s0'', subIssuedAt = 0, subActivatedAt = Some 1\<rparr>, orgCreatedAt = 0\<rparr>)],
     stAgents := [(''w1'', (ownedAgent ''w1'' [] ''active'')\<lparr>agOrgID := ''acme''\<rparr>)]\<rparr>\<rparr>"

definition workload :: "string \<Rightarrow> string \<Rightarrow> EntrySpec" where
  "workload org fp = \<lparr>esSPIFFEID = ''spiffe://td/org/'' @ org @ ''/agent/w1'', esParentID = ''spiffe://td/spire/agent/x509pop/org/'' @ org @ ''/'' @ fp,
     esSelectors = [''k8s:ns:a'', ''k8s:pod-name:w1'', ''k8s:sa:w'']\<rparr>"

definition bootAcme :: "string \<Rightarrow> EntrySpec" where
  "bootAcme fp = \<lparr>esSPIFFEID = ''spiffe://td/org/acme/substrate-agent'', esParentID = ''spiffe://td/spire/agent/x509pop/org/acme/'' @ fp,
     esSelectors = [''k8s:ns:spawnly'', ''k8s:sa:agent'']\<rparr>"

definition exEntries :: memEntries where
  "exEntries = [(''1'', bootAcme ''f0''), (''2'', workload ''acme'' ''f0''), (''3'', workload ''globex'' ''g0'')]"

definition exAPI :: "((store, Mock) world, memEntries) substrateAPI" where
  "exAPI = \<lparr>saServer = registryServer memStore mockClient (\<lambda>_. timedOut), saPutRoute = putRoute 9, saDeleteRoute = deleteRoute, saTrustDomain = ''td'',
     saLeafOrg = (\<lambda>cert. Inr cert), saBroker = Some (execEntryBroker memCLI []),
     saAuth = Some (spiffeSubstrateAuth (\<lambda>tok. if tok = ''T'' then Inr ''spiffe://td/org/acme/substrate-agent'' else Inl (Err ''bad'')) ''td''),
     saAgentNamespace = ''spawnly'', saAgentSA = ''agent''\<rparr>"

definition exIdentity :: "string \<Rightarrow> IssuedIdentity result" where
  "exIdentity org = Inr \<lparr>iiCertPEM = org, iiKeyPEM = ''k'', iiCertFingerprint = ''f1'', iiCertSerial = ''s1'',
     iiNodeID = ''spiffe://td/spire/agent/x509pop/org/'' @ org @ ''/f1'', iiExpiresAt = 99\<rparr>"

lemma exEntries_legible: "legible exEntries"
  by code_simp

lemma ex_created: "fst (createEntry exAPI ''Bearer T'' (Inr (workload ''acme'' ''f1'')) (subStore, exEntries)) = HttpOK 201 () \<and>
  snd (snd (createEntry exAPI ''Bearer T'' (Inr (workload ''acme'' ''f1'')) (subStore, exEntries))) = exEntries @ [(''eeee'', workload ''acme'' ''f1'')]"
  by code_simp

lemma ex_deleted: "fst (deleteEntry exAPI ''Bearer T'' ''spiffe://td/org/acme/agent/w1'' (subStore, exEntries)) = HttpOK 204 () \<and>
  snd (snd (deleteEntry exAPI ''Bearer T'' ''spiffe://td/org/acme/agent/w1'' (subStore, exEntries))) = [(''1'', bootAcme ''f0''), (''3'', workload ''globex'' ''g0'')]"
  by code_simp

lemma ex_connected: "fst (connectSubstrate exAPI (Some exIdentity) ''ACME'' (subStore, exEntries)) =
    HttpOK 201 (''acme'', case exIdentity ''acme'' of Inr i \<Rightarrow> i) \<and>
  snd (snd (connectSubstrate exAPI (Some exIdentity) ''ACME'' (subStore, exEntries))) = [(''3'', workload ''globex'' ''g0''), (''ee'', bootAcme ''f1'')]"
  by code_simp

lemma ex_disconnected: "fst (disconnectSubstrate exAPI ''acme'' (subStore, exEntries)) = HttpOK 204 () \<and>
  snd (snd (disconnectSubstrate exAPI ''acme'' (subStore, exEntries))) = [(''3'', workload ''globex'' ''g0'')]"
  by code_simp

text \<open>The entry \<open>w1\<close> that is created, and the one that is deleted, are workloads of the caller's organization.\<close>

theorem entry_api_isolated_witness:
  "\<exists>a w' a2 w2. createEntry exAPI ''Bearer T'' (Inr (workload ''acme'' ''f1'')) (subStore, exEntries) = (a, w', exEntries @ [(''eeee'', workload ''acme'' ''f1'')]) \<and>
     deleteEntry exAPI ''Bearer T'' ''spiffe://td/org/acme/agent/w1'' (subStore, exEntries) = (a2, w2, [(''1'', bootAcme ''f0''), (''3'', workload ''globex'' ''g0'')]) \<and>
     (\<exists>org. workloadOf ''td'' org (workload ''acme'' ''f1'') \<and> nodeOf ''td'' org (esParentID (workload ''acme'' ''f1'')))"
proof -
  obtain a w' c' where c: "createEntry exAPI ''Bearer T'' (Inr (workload ''acme'' ''f1'')) (subStore, exEntries) = (a, w', c')" by (metis prod.exhaust)
  obtain a2 w2 c2 where d: "deleteEntry exAPI ''Bearer T'' ''spiffe://td/org/acme/agent/w1'' (subStore, exEntries) = (a2, w2, c2)" by (metis prod.exhaust)
  have e: "c' = exEntries @ [(''eeee'', workload ''acme'' ''f1'')]" "c2 = [(''1'', bootAcme ''f0''), (''3'', workload ''globex'' ''g0'')]"
    using ex_created ex_deleted c d by simp_all
  have "saBroker exAPI = Some (execEntryBroker memCLI [])" "saTrustDomain exAPI = ''td''"
    "saAuth exAPI = Some (spiffeSubstrateAuth (\<lambda>tok. if tok = ''T'' then Inr ''spiffe://td/org/acme/substrate-agent'' else Inl (Err ''bad'')) (saTrustDomain exAPI))"
    by (simp_all add: exAPI_def)
  note iso = entry_api_isolated [OF memcli_good [OF exEntries_legible] this(1,3) c d]
  have "workload ''acme'' ''f1'' \<in> snd ` set c' - snd ` set exEntries" by (auto simp: e exEntries_def workload_def bootAcme_def)
  then show ?thesis using iso c d e \<open>saTrustDomain exAPI = ''td''\<close> by metis
qed

lemma subStore_keyed: "orgKeyed oid subStore"
  by (simp add: orgKeyed_def subStore_def gomap_simps)

theorem connect_supersedes_witness:
  "\<exists>w' r. connectSubstrate exAPI (Some exIdentity) ''ACME'' (subStore, exEntries) =
       (HttpOK 201 (''acme'', case exIdentity ''acme'' of Inr i \<Rightarrow> i), w', [(''3'', workload ''globex'' ''g0''), (''ee'', bootAcme ''f1'')]) \<and>
     gget (stOrgs (wStore w')) ''acme'' = Some r \<and> (\<exists>sub. orgSubstrate r = Some sub \<and> subCertFingerprint sub = ''f1'')"
proof -
  obtain w' where c: "connectSubstrate exAPI (Some exIdentity) ''ACME'' (subStore, exEntries) =
      (HttpOK 201 (''acme'', case exIdentity ''acme'' of Inr i \<Rightarrow> i), w', [(''3'', workload ''globex'' ''g0''), (''ee'', bootAcme ''f1'')])"
    using ex_connected by (metis prod.collapse)
  have "saBroker exAPI = Some (execEntryBroker memCLI [])" "saPutRoute exAPI = putRoute 9" by (simp_all add: exAPI_def)
  from connect_supersedes [OF memcli_good [OF exEntries_legible] this _ c] subStore_keyed c show ?thesis
    by (auto simp: exIdentity_def)
qed

theorem disconnect_refuses_witness:
  "\<exists>w'. disconnectSubstrate exAPI ''acme'' (subStore, exEntries) = (HttpOK 204 (), w', [(''3'', workload ''globex'' ''g0'')]) \<and>
     snd (createEntry exAPI ''Bearer T'' (Inr (workload ''acme'' ''f1'')) (w', [(''3'', workload ''globex'' ''g0'')])) = (w', [(''3'', workload ''globex'' ''g0'')])"
proof -
  obtain w' where d: "disconnectSubstrate exAPI ''acme'' (subStore, exEntries) = (HttpOK 204 (), w', [(''3'', workload ''globex'' ''g0'')])"
    using ex_disconnected by (metis prod.collapse)
  have a: "saBroker exAPI = Some (execEntryBroker memCLI [])" "saServer exAPI = registryServer memStore mockClient (\<lambda>_. timedOut)" "saDeleteRoute exAPI = deleteRoute"
    by (simp_all add: exAPI_def)
  let ?auth = "spiffeSubstrateAuth (\<lambda>tok. if tok = ''T'' then Inr ''spiffe://td/org/acme/substrate-agent'' else Inl (Err ''bad'')) ''td''"
  have "saAuth exAPI = Some ?auth" "?auth ''Bearer T'' = Inr ''acme''" "NormalizeOrgID ''acme'' = Some ''acme''" by (simp add: exAPI_def, code_simp, code_simp)
  then obtain refusal where "createEntry exAPI ''Bearer T'' (Inr (workload ''acme'' ''f1'')) (w', [(''3'', workload ''globex'' ''g0'')]) =
      (refusal, w', [(''3'', workload ''globex'' ''g0'')])"
    using conjunct1 [OF conjunct2 [OF disconnect_refuses [OF memcli_good [OF exEntries_legible] a _ _ d]]] subStore_keyed by blast
  then show ?thesis using d by auto
qed

section \<open>Entries that do not fit lines\<close>

text \<open>
  A selector that carries a line break and, after it, the line in which the command prints the id of an entry.
\<close>

definition forgedSpec :: "string \<Rightarrow> string \<Rightarrow> EntrySpec \<Rightarrow> EntrySpec" where
  "forgedSpec label victim spec = spec\<lparr>esSelectors := esSelectors spec @ [label @ newline # field ''Entry ID'' victim]\<rparr>"

lemma hasSelectorKinds_extra:
  "hasSelectorKinds sels = (ns, pod, sa) \<Longrightarrow> \<exists>ns' pod' sa'. hasSelectorKinds (sels @ extra) = (ns', pod', sa') \<and> (ns \<longrightarrow> ns') \<and> (pod \<longrightarrow> pod') \<and> (sa \<longrightarrow> sa')"
proof (induction sels arbitrary: ns pod sa)
  case Nil
  then show ?case by (cases "hasSelectorKinds extra") simp
next
  case (Cons s sels)
  obtain a b c where k: "hasSelectorKinds sels = (a, b, c)" by (metis prod.exhaust)
  from Cons.IH [OF this] obtain a' b' c' where "hasSelectorKinds (sels @ extra) = (a', b', c')" "a \<longrightarrow> a'" "b \<longrightarrow> b'" "c \<longrightarrow> c'" by blast
  then show ?case using Cons.prems k by (auto split: if_splits)
qed

lemma validateSelectors_extra: "validateSelectors sels \<Longrightarrow> validateSelectors (sels @ extra)"
proof -
  assume v: "validateSelectors sels"
  obtain ns pod sa where k: "hasSelectorKinds sels = (ns, pod, sa)" by (metis prod.exhaust)
  from hasSelectorKinds_extra [OF this, of extra] v k show ?thesis by (auto simp: validateSelectors_def)
qed

text \<open>No check of the Entry API sees the difference.\<close>

lemma forged_authorized:
  "validateSelectors (esSelectors spec) \<Longrightarrow> authorizeWorkload V td org (forgedSpec label victim spec) w = authorizeWorkload V td org spec w"
proof -
  assume v: "validateSelectors (esSelectors spec)"
  then have e: "validateSelectors (esSelectors (forgedSpec label victim spec)) = validateSelectors (esSelectors spec)"
    by (simp add: forgedSpec_def validateSelectors_extra)
  have p: "esSPIFFEID (forgedSpec label victim spec) = esSPIFFEID spec" "esParentID (forgedSpec label victim spec) = esParentID spec"
    by (simp_all add: forgedSpec_def)
  show ?thesis unfolding authorizeWorkload_def p e ..
qed

text \<open>What the scanner makes of lines with line breaks in them.\<close>

lemma text_split: "l @ [newline] = concat (map (\<lambda>p. p @ [newline]) (split_on newline l))"
proof (induction l rule: length_induct)
  case (1 l)
  show ?case
  proof (cases "newline \<in> set l")
    case True
    then obtain a b where l: "l = a @ newline # b" "newline \<notin> set a" by (meson split_list_first)
    then have "length b < length l" by simp
    with 1 have "b @ [newline] = concat (map (\<lambda>p. p @ [newline]) (split_on newline b))" by blast
    then show ?thesis using l by (simp add: split_on_sep)
  qed (simp add: split_on_no_sep)
qed

lemma lines_split: "concat (map (\<lambda>l. l @ [newline]) ls) = concat (map (\<lambda>p. p @ [newline]) (concat (map (split_on newline) ls)))"
  by (induction ls) (simp_all add: text_split [symmetric])

lemma parse_forged:
  assumes "list_all goodLine (concat (map (split_on newline) ls))" and "field ''Entry ID'' v \<in> set (concat (map (split_on newline) ls))" and "plainText v"
  shows "v \<in> set (parseEntryIDs (concat (map (\<lambda>l. l @ [newline]) ls)))"
proof -
  let ?ps = "concat (map (split_on newline) ls)"
  have "scanLines (concat (map (\<lambda>l. l @ [newline]) ls)) = ?ps" using scanLines_text [OF assms(1)] by (simp only: lines_split [of ls])
  moreover have "map trim_space ?ps = ?ps" using assms(1) by (intro map_idI) (auto simp: list_all_iff goodLine_trim)
  moreover have "valueAfterColon (field ''Entry ID'' v) = v" "v \<noteq> []" using assms(3) by (simp add: valueAfterColon_field) (use assms(3) in \<open>simp add: plainText_def\<close>)
  moreover have "has_prefix (field ''Entry ID'' v) ''Entry ID''" by (simp add: has_prefix_def field_def)
  ultimately show ?thesis using assms(2) by (auto simp: parseEntryIDs_def image_iff intro!: exI [of _ "field ''Entry ID'' v"])
qed

lemma goodLine_split: "goodLine l \<Longrightarrow> split_on newline l = [l]"
  by (simp add: goodLine_def split_on_no_sep)

lemma block_split: "plainEntry e \<Longrightarrow> concat (map (split_on newline) (entryBlock e)) = entryBlock e"
proof -
  assume "plainEntry e"
  then have "map (split_on newline) (entryBlock e) = map (\<lambda>l. [l]) (entryBlock e)"
    using entryBlock_good [of e] by (simp add: list_all_iff goodLine_split)
  then show ?thesis by (simp only: concat_map_singleton map_idI)
qed

lemma forged_block:
  assumes "plainEntry (i, spec)" and "plainText label" and "plainText v"
  shows "list_all goodLine (concat (map (split_on newline) (entryBlock (i, forgedSpec label v spec))))" (is "list_all goodLine ?ps")
    and "field ''Entry ID'' v \<in> set (concat (map (split_on newline) (entryBlock (i, forgedSpec label v spec))))"
proof -
  let ?m = "\<lambda>l. concat (map (split_on newline) l)" and ?sel = "field ''Selector        '' label"
  have good: "goodLine ?sel" "goodLine (field ''Entry ID'' v)"
    using assms(2,3) by (auto intro!: goodLine_field simp: is_space_def newline_def)
  have "entryBlock (i, forgedSpec label v spec) = butlast (entryBlock (i, spec)) @ [?sel @ newline # field ''Entry ID'' v, []]"
    by (simp add: entryBlock_def forgedSpec_def field_def butlast_append)
  moreover have "split_on newline (?sel @ newline # field ''Entry ID'' v) = [?sel, field ''Entry ID'' v]"
  proof -
    have "newline \<notin> set ?sel" using good(1) by (simp add: goodLine_def)
    from split_on_sep [OF this] show ?thesis by (simp only: goodLine_split [OF good(2)])
  qed
  moreover have "?m (butlast (entryBlock (i, spec))) = butlast (entryBlock (i, spec))"
  proof -
    have "map (split_on newline) (butlast (entryBlock (i, spec))) = map (\<lambda>l. [l]) (butlast (entryBlock (i, spec)))"
      using entryBlock_good [OF assms(1)] by (auto simp: list_all_iff goodLine_split dest!: in_set_butlastD)
    then show ?thesis by (simp only: concat_map_singleton map_idI)
  qed
  ultimately have "?m (entryBlock (i, forgedSpec label v spec)) = butlast (entryBlock (i, spec)) @ [?sel, field ''Entry ID'' v, []]"
    by (simp add: split_on_no_sep)
  then show "list_all goodLine (?m (entryBlock (i, forgedSpec label v spec)))" "field ''Entry ID'' v \<in> set (?m (entryBlock (i, forgedSpec label v spec)))"
    using good entryBlock_good [OF assms(1)] by (auto simp: list_all_iff goodLine_def [of "[]"] dest: in_set_butlastD)
qed

context spire_cli
begin

lemma forged_deletes:
  assumes "legible (view c)" and "(victim, other) \<in> set (view c)" and "plainEntry (i, spec)" and "plainText label"
    and "view c1 = view c @ [(i, forgedSpec label victim spec)]" and "execDeleteEntry run sock (esSPIFFEID spec) c1 = (None, c2)"
  shows "victim \<notin> fst ` set (view c2)"
proof -
  have v: "plainText victim" using assms(1,2) by (auto simp: legible_def list_all_iff plainEntry_def)
  obtain out failed c' where r: "run (showArgs sock (Some (esSPIFFEID spec))) c1 = ((out, failed), c')" by (metis prod.exhaust)
  have d: "\<not> failed" "deleteEach run sock (parseEntryIDs out) c' = (None, c2)" using assms(6) r by (auto simp: execDeleteEntry_def split: if_splits)
  have s: "shown out (filter (\<lambda>e. esSPIFFEID (snd e) = esSPIFFEID spec) (view c1))" using cli_show_id [OF r] d(1) by blast
  let ?es = "filter (\<lambda>e. esSPIFFEID (snd e) = esSPIFFEID spec) (view c)"
  have "filter (\<lambda>e. esSPIFFEID (snd e) = esSPIFFEID spec) (view c1) = ?es @ [(i, forgedSpec label victim spec)]"
    by (simp add: assms(5) forgedSpec_def)
  then obtain h where h: "plainText h" "out = showText h (?es @ [(i, forgedSpec label victim spec)])" using s by (auto simp: shown_def)
  let ?ls = "h # concat (map entryBlock (?es @ [(i, forgedSpec label victim spec)]))"
  have gh: "goodLine h" using h(1) by (simp add: goodLine_def plainText_def)
  have pl: "plainEntry e" if "e \<in> set ?es" for e using assms(1) that by (simp add: legible_def list_all_iff)
  note fb = forged_block [OF assms(3,4) v]
  have sp: "concat (map (split_on newline) (concat (map entryBlock es))) = concat (map entryBlock es)" if "\<And>e. e \<in> set es \<Longrightarrow> plainEntry e" for es
    using that by (induction es) (simp_all add: block_split)
  have eb: "list_all goodLine (concat (map entryBlock ?es))" using pl entryBlock_good unfolding list_all_iff set_concat set_map by blast
  have "list_all goodLine (concat (map (split_on newline) ?ls))"
    using fb(1) gh eb sp [of ?es, OF pl] goodLine_split [OF gh] by simp
  moreover have "field ''Entry ID'' victim \<in> set (concat (map (split_on newline) ?ls))" using fb(2) by simp
  ultimately have "victim \<in> set (parseEntryIDs out)" using parse_forged [OF _ _ v] unfolding h(2) showText_def by blast
  then show ?thesis using deleteEach_view [OF d(2)] by auto
qed

end

lemma created_by:
  assumes "saBroker api = Some B" and "createEntry api authz (Inr spec) (w, b) = (HttpOK 201 (), w1, b1)"
  shows "ebCreate B spec b = (None, b1)"
proof -
  obtain r w0 where a: "(authEntryCaller api authz w :: (unit http + _) \<times> _) = (r, w0)" by force
  obtain org where r: "r = Inr (org, B)"
    using a assms by (auto simp: createEntry_def authEntryCaller_def split: option.splits sum.splits prod.splits if_splits)
  obtain e w2 where u: "authorizeWorkload (saServer api) (saTrustDomain api) org spec w0 = (e, w2)" by force
  obtain f b2 where c: "ebCreate B spec b = (f, b2)" by force
  show ?thesis using assms(2) a r u c
    by (cases e; cases f) (auto simp: createEntry_def CreateWorkloadEntry_def brokered_def elim: writeEntryError.elims)
qed

lemma deleted_by:
  assumes "saBroker api = Some B" and "deleteEntry api authz i (w, b) = (HttpOK 204 (), w1, b1)"
  shows "ebDelete B i b = (None, b1)"
proof -
  obtain r w0 where a: "(authEntryCaller api authz w :: (unit http + _) \<times> _) = (r, w0)" by force
  obtain org where r: "r = Inr (org, B)"
    using a assms by (auto simp: deleteEntry_def authEntryCaller_def split: option.splits sum.splits prod.splits if_splits)
  obtain f b2 where c: "ebDelete B i b = (f, b2)" by force
  obtain e st where d: "DeleteWorkloadEntry (saServer api) B (saTrustDomain api) org i (w0, b) = (e, st)" by (metis prod.exhaust)
  have e: "e = None" "st = (w1, b1)" using assms(2) a r d
    by (auto simp: deleteEntry_def split: option.splits if_splits elim: writeEntryError.elims)
  then show ?thesis using d c
    by (cases f) (auto simp: DeleteWorkloadEntry_def brokered_def split: option.splits sum.splits prod.splits if_splits)
qed

text \<open>
  C39: why isolation with the broker that runs \<open>spire-server\<close> needs entries that fit lines. Take any command with the documented behaviour, readable entries and any
  one of them, of whatever organization. Take any own entry that the Entry API accepts, and add to its selectors one with a line break
  and the line that names the id of the chosen entry. The checks of the Entry API answer as without that selector; and once the caller has created the entry (201) and
  deleted it again by its own SPIFFE ID (204), the chosen entry is gone as well.
\<close>

theorem selector_line_break_escapes:
  assumes cli: "spire_cli run sock view" and B: "saBroker api = Some (execEntryBroker run sock)" and ok: "legible (view c)"
    and v: "(victim, other) \<in> set (view c)" and l: "plainText label" and sel: "validateSelectors (esSelectors spec)"
    and own: "plainText (esSPIFFEID spec)" "plainText (esParentID spec)" "list_all plainText (esSelectors spec)"
    and c: "createEntry api authz (Inr (forgedSpec label victim spec)) (w, c) = (HttpOK 201 (), w1, c1)" and ids: "\<forall>e \<in> set (view c1). plainText (fst e)"
    and d: "deleteEntry api authz (esSPIFFEID spec) (w1, c1) = (HttpOK 204 (), w2, c2)"
  shows "(\<forall>org w'. authorizeWorkload (saServer api) (saTrustDomain api) org (forgedSpec label victim spec) w' =
        authorizeWorkload (saServer api) (saTrustDomain api) org spec w') \<and>
    (victim, other) \<in> set (view c1) \<and> victim \<notin> fst ` set (view c2)"
proof -
  let ?f = "forgedSpec label victim spec"
  have "execCreateEntry run sock ?f c = (None, c1)" using created_by [OF B c] by (simp add: execEntryBroker_def)
  then obtain out failed where r: "run (createArgs sock ?f) c = ((out, failed), c1)" "\<not> failed \<or> mentions out ''already exists''"
    by (auto simp: execCreateEntry_def split: prod.splits if_splits)
  have "?f \<notin> snd ` set (view c)"
  proof
    assume "?f \<in> snd ` set (view c)"
    then have "list_all plainText (esSelectors ?f)" using ok by (auto simp: legible_def list_all_iff plainEntry_def)
    then show False by (simp add: forgedSpec_def plainText_def)
  qed
  then obtain i where i: "view c1 = view c @ [(i, ?f)]" using spire_cli.cli_create [OF cli r(1)] r(2) by metis
  then have "plainEntry (i, spec)" using ids own by (simp add: plainEntry_def)
  moreover have "execDeleteEntry run sock (esSPIFFEID spec) c1 = (None, c2)" using deleted_by [OF B d] by (simp add: execEntryBroker_def)
  ultimately have "victim \<notin> fst ` set (view c2)" using spire_cli.forged_deletes [OF cli ok v _ l i] by blast
  then show ?thesis using v i by (intro conjI allI forged_authorized [OF sel]) simp_all
qed

lemma ex_forged:
  "fst (createEntry exAPI ''Bearer T'' (Inr (forgedSpec ''k8s:pod-label:x'' ''3'' (workload ''acme'' ''f0''))) (subStore, exEntries)) = HttpOK 201 () \<and>
   list_all (\<lambda>e. plainText (fst e)) (snd (snd (createEntry exAPI ''Bearer T'' (Inr (forgedSpec ''k8s:pod-label:x'' ''3'' (workload ''acme'' ''f0''))) (subStore, exEntries)))) \<and>
   fst (deleteEntry exAPI ''Bearer T'' (esSPIFFEID (workload ''acme'' ''f0''))
     (snd (createEntry exAPI ''Bearer T'' (Inr (forgedSpec ''k8s:pod-label:x'' ''3'' (workload ''acme'' ''f0''))) (subStore, exEntries)))) = HttpOK 204 ()"
  by code_simp

lemma ex_own_entry:
  "plainText ''k8s:pod-label:x'' \<and> validateSelectors (esSelectors (workload ''acme'' ''f0'')) \<and> plainText (esSPIFFEID (workload ''acme'' ''f0'')) \<and>
   plainText (esParentID (workload ''acme'' ''f0'')) \<and> list_all plainText (esSelectors (workload ''acme'' ''f0'')) \<and>
   (''3'', workload ''globex'' ''g0'') \<in> set exEntries"
  by code_simp

theorem selector_line_break_escapes_witness:
  "\<exists>w1 c1 w2 c2. createEntry exAPI ''Bearer T'' (Inr (forgedSpec ''k8s:pod-label:x'' ''3'' (workload ''acme'' ''f0''))) (subStore, exEntries) = (HttpOK 201 (), w1, c1) \<and>
     (''3'', workload ''globex'' ''g0'') \<in> set c1 \<and>
     deleteEntry exAPI ''Bearer T'' (esSPIFFEID (workload ''acme'' ''f0'')) (w1, c1) = (HttpOK 204 (), w2, c2) \<and> ''3'' \<notin> fst ` set c2"
proof -
  obtain w1 c1 where c: "createEntry exAPI ''Bearer T'' (Inr (forgedSpec ''k8s:pod-label:x'' ''3'' (workload ''acme'' ''f0''))) (subStore, exEntries) = (HttpOK 201 (), w1, c1)"
    using ex_forged by (metis prod.collapse)
  obtain w2 c2 where d: "deleteEntry exAPI ''Bearer T'' (esSPIFFEID (workload ''acme'' ''f0'')) (w1, c1) = (HttpOK 204 (), w2, c2)"
    using ex_forged c by (metis prod.collapse snd_conv)
  have p: "\<forall>e \<in> set c1. plainText (fst e)" using ex_forged c by (simp add: list_all_iff)
  have B: "saBroker exAPI = Some (execEntryBroker memCLI [])" by (simp add: exAPI_def)
  from selector_line_break_escapes [OF memcli.spire_cli_axioms B exEntries_legible _ _ _ _ _ _ c p d] ex_own_entry c d
  show ?thesis by blast
qed

end
