(* ===== verification/SubstrateAgent.thy ===== *)
theory SubstrateAgent
  imports SubstrateAPI Operator Sidecar
begin

text \<open>
  The substrate agent (\<open>cmd/substrate-agent\<close>), which runs in the cluster of a consumer: it turns the frames of the dispatch channel and
  the records of its organization into local workloads with an identity. Its two collaborators are the local cluster
  (\<open>k8s.go\<close>, over a Kubernetes client with the laws of the locale \<open>kube_client\<close>) and the control plane (\<open>httpclient.go\<close>), which is connected
  here with the Entry API and the registry of the orchestrator.
\<close>

section \<open>Desired and actual workloads\<close>

record localWorkload =
  lwAgentID :: string
  lwAgentType :: string

definition shouldRun :: "AgentRecord \<Rightarrow> bool" where
  "shouldRun rec = (if agDismissed rec then False else agStatus rec \<notin> {''completed'', ''failed''})"

text \<open>The map of the wanted records; \<open>ord\<close> is the order in which Go ranges over it.\<close>

definition wantOf :: "AgentRecord list \<Rightarrow> (string, AgentRecord) gomap" where
  "wantOf desired = fold (\<lambda>rec want. if shouldRun rec then gput (agAgentID rec) rec want else want) desired []"

type_synonym mapOrder = "(string, AgentRecord) gomap \<Rightarrow> (string, AgentRecord) gomap"

definition reconcile :: "mapOrder \<Rightarrow> AgentRecord list \<Rightarrow> localWorkload list \<Rightarrow> AgentRecord list \<times> localWorkload list" where
  "reconcile ord desired actual =
     (let want = wantOf desired; have_ids = map lwAgentID actual
      in (map snd (filter (\<lambda>(i, rec). i \<notin> set have_ids \<and> agStatus rec \<noteq> ''revoked'') (ord want)),
          filter (\<lambda>w. gget want (lwAgentID w) = None) actual))"

definition ensureEntryFor :: "AgentRecord list \<Rightarrow> localWorkload list \<Rightarrow> AgentRecord list" where
  "ensureEntryFor desired actual =
     (let have_ids = map lwAgentID actual in filter (\<lambda>rec. shouldRun rec \<and> agAgentID rec \<in> set have_ids) desired)"

definition workloadSpiffeID :: "string \<Rightarrow> string \<Rightarrow> string \<Rightarrow> string \<Rightarrow> string result" where
  "workloadSpiffeID trustDomain org agentType agentID = BuildOrgAgentPath trustDomain org [agentType, agentID]"

definition workloadSelectors :: "string \<Rightarrow> string \<Rightarrow> string \<Rightarrow> string list" where
  "workloadSelectors namespace agentID serviceAccount =
     [''k8s:ns:'' @ namespace, ''k8s:pod-name:'' @ agentID @ ''-pod'',
      ''k8s:sa:'' @ (if serviceAccount = [] then ''default'' else serviceAccount)]"

section \<open>The local cluster\<close>

record 'k workloadStore =
  wsCreate :: "AgentRecord \<Rightarrow> string \<Rightarrow> 'k \<Rightarrow> go_error option \<times> 'k"
  wsGet :: "string \<Rightarrow> 'k \<Rightarrow> localWorkload option result"
  wsDelete :: "string \<Rightarrow> 'k \<Rightarrow> bool result \<times> 'k"
  wsList :: "'k \<Rightarrow> localWorkload list result"

text \<open>The controller-runtime client: the namespace, the labels and the object of a create; a list is selected by one label.\<close>

record 'k clusterClient =
  ccCreate :: "string \<Rightarrow> (string \<times> string) list \<Rightarrow> AgentWorkload \<Rightarrow> 'k \<Rightarrow> createResult \<times> 'k"
  ccGet :: "string \<Rightarrow> string \<Rightarrow> 'k \<Rightarrow> k8s_error + AgentWorkload"
  ccDelete :: "string \<Rightarrow> string \<Rightarrow> 'k \<Rightarrow> k8s_error option \<times> 'k"
  ccList :: "string \<Rightarrow> string \<times> string \<Rightarrow> 'k \<Rightarrow> AgentWorkload list result"

definition managedLabel :: string where "managedLabel = ''agent-platform.io/substrate-managed''"

definition workloadFor :: "AgentRecord \<Rightarrow> string \<Rightarrow> AgentWorkload" where
  "workloadFor rec task =
     \<lparr>awName = agAgentID rec, awAgentType = agAgentType rec, awUserID = agUserID rec, awTenantID = agTenantID rec,
      awLifecycle = agLifecycle rec, awTask = task, awParentID = agParentID rec, awConsentRequired = agConsentRequired rec\<rparr>"

definition storeCreate :: "'k clusterClient \<Rightarrow> string \<Rightarrow> AgentRecord \<Rightarrow> string \<Rightarrow> 'k \<Rightarrow> go_error option \<times> 'k" where
  "storeCreate K namespace rec task k =
     (case ccCreate K namespace [(managedLabel, ''true'')] (workloadFor rec task) k of
        (Created, k1) \<Rightarrow> (None, k1)
      | (AlreadyExists, k1) \<Rightarrow> (None, k1)
      | (CreateError m, k1) \<Rightarrow> (Some (Err (''create AgentWorkload '' @ agAgentID rec @ '': '' @ m)), k1))"

definition storeGet :: "'k clusterClient \<Rightarrow> string \<Rightarrow> string \<Rightarrow> 'k \<Rightarrow> localWorkload option result" where
  "storeGet K namespace agentID k =
     (case ccGet K namespace agentID k of
        Inl K8sNotFound \<Rightarrow> Inr None
      | Inl (K8sError m) \<Rightarrow> Inl (Err (''get AgentWorkload '' @ agentID @ '': '' @ m))
      | Inr aw \<Rightarrow> Inr (Some \<lparr>lwAgentID = awName aw, lwAgentType = awAgentType aw\<rparr>))"

definition storeDelete :: "'k clusterClient \<Rightarrow> string \<Rightarrow> string \<Rightarrow> 'k \<Rightarrow> bool result \<times> 'k" where
  "storeDelete K namespace agentID k =
     (case ccDelete K namespace agentID k of
        (None, k1) \<Rightarrow> (Inr True, k1)
      | (Some K8sNotFound, k1) \<Rightarrow> (Inr False, k1)
      | (Some (K8sError m), k1) \<Rightarrow> (Inl (Err (''delete AgentWorkload '' @ agentID @ '': '' @ m)), k1))"

definition storeList :: "'k clusterClient \<Rightarrow> string \<Rightarrow> 'k \<Rightarrow> localWorkload list result" where
  "storeList K namespace k =
     (case ccList K namespace (managedLabel, ''true'') k of
        Inl e \<Rightarrow> Inl e
      | Inr items \<Rightarrow> Inr (map (\<lambda>aw. \<lparr>lwAgentID = awName aw, lwAgentType = awAgentType aw\<rparr>) items))"

definition k8sWorkloadStore :: "'k clusterClient \<Rightarrow> string \<Rightarrow> 'k workloadStore" where
  "k8sWorkloadStore K namespace =
     \<lparr>wsCreate = storeCreate K namespace, wsGet = storeGet K namespace, wsDelete = storeDelete K namespace, wsList = storeList K namespace\<rparr>"

section \<open>The control plane\<close>

text \<open>The interfaces \<open>entryClient\<close> and \<open>desiredLister\<close>, which one client implements.\<close>

record 'p controlPlane =
  cpCreateEntry :: "string \<Rightarrow> string \<Rightarrow> string list \<Rightarrow> 'p \<Rightarrow> go_error option \<times> 'p"
  cpDeleteEntry :: "string \<Rightarrow> 'p \<Rightarrow> go_error option \<times> 'p"
  cpListDesired :: "'p \<Rightarrow> AgentRecord list result \<times> 'p"

text \<open>The routes it calls, with the Authorization header; an \<^const>\<open>Inl\<close> is a failure of the transport.\<close>

record 'p planeRoutes =
  prCreate :: "string \<Rightarrow> EntrySpec \<Rightarrow> 'p \<Rightarrow> unit http result \<times> 'p"
  prDelete :: "string \<Rightarrow> string \<Rightarrow> 'p \<Rightarrow> unit http result \<times> 'p"
  prList :: "string \<Rightarrow> 'p \<Rightarrow> AgentRecord list http result \<times> 'p"

text \<open>Every call fetches a fresh credential for the audience of the orchestrator.\<close>

definition svid :: "(string \<Rightarrow> 'p \<Rightarrow> string result) \<Rightarrow> string \<Rightarrow> 'p \<Rightarrow> string result" where
  "svid fetch audience p = (case fetch audience p of Inl e \<Rightarrow> Inl (Err (''fetch SVID: '' @ errString e)) | Inr v \<Rightarrow> Inr v)"

definition authed :: "(string \<Rightarrow> 'p \<Rightarrow> string result) \<Rightarrow> string \<Rightarrow> 'p \<Rightarrow> string result" where
  "authed fetch audience p = (case svid fetch audience p of Inl e \<Rightarrow> Inl e | Inr s \<Rightarrow> Inr (''Bearer '' @ s))"

definition planeCreateEntry ::
  "(string \<Rightarrow> 'p \<Rightarrow> string result) \<Rightarrow> string \<Rightarrow> 'p planeRoutes \<Rightarrow> string \<Rightarrow> string \<Rightarrow> string list \<Rightarrow> 'p \<Rightarrow> go_error option \<times> 'p" where
  "planeCreateEntry fetch audience R spiffeID parentID selectors p =
     (case authed fetch audience p of
        Inl e \<Rightarrow> (Some e, p)
      | Inr authz \<Rightarrow> onFst (checked ''POST /v1/substrate/entries'' (\<lambda>n. n = 201))
          (prCreate R authz \<lparr>esSPIFFEID = spiffeID, esParentID = parentID, esSelectors = selectors\<rparr> p))"

definition planeDeleteEntry ::
  "(string \<Rightarrow> 'p \<Rightarrow> string result) \<Rightarrow> string \<Rightarrow> 'p planeRoutes \<Rightarrow> string \<Rightarrow> 'p \<Rightarrow> go_error option \<times> 'p" where
  "planeDeleteEntry fetch audience R spiffeID p =
     (case authed fetch audience p of
        Inl e \<Rightarrow> (Some e, p)
      | Inr authz \<Rightarrow> onFst (checked ''DELETE /v1/substrate/entries'' (\<lambda>n. n = 204)) (prDelete R authz spiffeID p))"

text \<open>A 200 answer is decoded; an answer with another status is an error.\<close>

definition planeListDesired ::
  "(string \<Rightarrow> 'p \<Rightarrow> string result) \<Rightarrow> string \<Rightarrow> 'p planeRoutes \<Rightarrow> 'p \<Rightarrow> AgentRecord list result \<times> 'p" where
  "planeListDesired fetch audience R p =
     (case authed fetch audience p of
        Inl e \<Rightarrow> (Inl e, p)
      | Inr authz \<Rightarrow> onFst (decoded ''list substrate agents'' (Inl (statusErr ''list substrate agents'' 404))) (prList R authz p))"

definition cpClient :: "(string \<Rightarrow> 'p \<Rightarrow> string result) \<Rightarrow> string \<Rightarrow> 'p planeRoutes \<Rightarrow> 'p controlPlane" where
  "cpClient fetch audience R =
     \<lparr>cpCreateEntry = planeCreateEntry fetch audience R, cpDeleteEntry = planeDeleteEntry fetch audience R,
      cpListDesired = planeListDesired fetch audience R\<rparr>"

text \<open>The routes of the orchestrator, over the registry and the entry broker.\<close>

definition entryRoutes :: "('w, 'b) substrateAPI \<Rightarrow> ('w \<times> 'b) planeRoutes" where
  "entryRoutes api =
     \<lparr>prCreate = (\<lambda>authz spec st. onFst Inr (createEntry api authz (Inr spec) st)),
      prDelete = (\<lambda>authz i st. onFst Inr (deleteEntry api authz i st)),
      prList = (\<lambda>authz st. case listSubstrateAgents api authz (fst st) of (a, w1) \<Rightarrow> (Inr a, w1, snd st))\<rparr>"

section \<open>The agent\<close>

record ('k, 'p) agent =
  sgTrustDomain :: string
  sgOrg :: string
  sgNamespace :: string
  sgNodeID :: string
  sgServiceAccount :: string
  sgStore :: "'k workloadStore"
  sgPlane :: "'p controlPlane"

text \<open>
  What the agent works on: the cluster, the control plane and the queue of frames to send, \<^const>\<open>None\<close> while there is no connection.
  The mutex \<open>opMu\<close> makes every handler and every reconciliation one step.
\<close>

record ('k, 'p) agentState =
  atCluster :: 'k
  atPlane :: 'p
  atSend :: "Up list option"

definition setSend :: "Up list option \<Rightarrow> ('k, 'p) agentState \<Rightarrow> ('k, 'p) agentState" where
  "setSend q s = s\<lparr>atSend := q\<rparr>"

definition sendCap :: nat where "sendCap = 256"

definition report :: "Up \<Rightarrow> ('k, 'p) agentState \<Rightarrow> ('k, 'p) agentState" where
  "report u s = (case atSend s of
       None \<Rightarrow> s
     | Some q \<Rightarrow> if length q < sendCap then s\<lparr>atSend := Some (q @ [u])\<rparr> else s)"

definition requestEntry :: "('k, 'p) agent \<Rightarrow> string \<Rightarrow> string \<Rightarrow> ('k, 'p) agentState \<Rightarrow> go_error option \<times> ('k, 'p) agentState" where
  "requestEntry A spiffeID agentID s =
     (case cpCreateEntry (sgPlane A) spiffeID (sgNodeID A) (workloadSelectors (sgNamespace A) agentID (sgServiceAccount A)) (atPlane s) of
        (e, p1) \<Rightarrow> (e, s\<lparr>atPlane := p1\<rparr>))"

definition dropEntry :: "('k, 'p) agent \<Rightarrow> string \<Rightarrow> ('k, 'p) agentState \<Rightarrow> go_error option \<times> ('k, 'p) agentState" where
  "dropEntry A spiffeID s = (case cpDeleteEntry (sgPlane A) spiffeID (atPlane s) of (e, p1) \<Rightarrow> (e, s\<lparr>atPlane := p1\<rparr>))"

definition materialize :: "('k, 'p) agent \<Rightarrow> AgentRecord \<Rightarrow> string \<Rightarrow> ('k, 'p) agentState \<Rightarrow> go_error option \<times> ('k, 'p) agentState" where
  "materialize A rec task s =
     (case workloadSpiffeID (sgTrustDomain A) (sgOrg A) (agAgentType rec) (agAgentID rec) of
        Inl e \<Rightarrow> (Some e, s)
      | Inr spiffeID \<Rightarrow>
          (case requestEntry A spiffeID (agAgentID rec) s of
             (Some e, s1) \<Rightarrow> (Some e, s1)
           | (None, s1) \<Rightarrow>
               (case wsCreate (sgStore A) rec task (atCluster s1) of
                  (None, k1) \<Rightarrow> (None, s1\<lparr>atCluster := k1\<rparr>)
                | (Some e, k1) \<Rightarrow> (Some e, snd (dropEntry A spiffeID (s1\<lparr>atCluster := k1\<rparr>))))))"

definition teardown :: "('k, 'p) agent \<Rightarrow> localWorkload \<Rightarrow> ('k, 'p) agentState \<Rightarrow> go_error option \<times> ('k, 'p) agentState" where
  "teardown A w s =
     (case workloadSpiffeID (sgTrustDomain A) (sgOrg A) (lwAgentType w) (lwAgentID w) of
        Inl e \<Rightarrow> (Some e, s)
      | Inr spiffeID \<Rightarrow>
          (case dropEntry A spiffeID s of
             (Some e, s1) \<Rightarrow> (Some e, s1)
           | (None, s1) \<Rightarrow>
               (case wsDelete (sgStore A) (lwAgentID w) (atCluster s1) of
                  (Inl e, k1) \<Rightarrow> (Some e, s1\<lparr>atCluster := k1\<rparr>)
                | (Inr _, k1) \<Rightarrow> (None, s1\<lparr>atCluster := k1\<rparr>))))"

definition PhaseCreating :: string where "PhaseCreating = ''creating''"
definition PhaseCreated :: string where "PhaseCreated = ''created''"
definition PhaseFailed :: string where "PhaseFailed = ''failed''"
definition PhaseKilled :: string where "PhaseKilled = ''killed''"

text \<open>Reports how an operation on an agent ended.\<close>

definition reported :: "string \<Rightarrow> string \<Rightarrow> go_error option \<times> ('k, 'p) agentState \<Rightarrow> ('k, 'p) agentState" where
  "reported agentID phase r =
     (case r of
        (Some e, s) \<Rightarrow> report (NewStatus agentID PhaseFailed (errString e)) s
      | (None, s) \<Rightarrow> report (NewStatus agentID phase []) s)"

definition commandRecord :: "string \<Rightarrow> SpawnCommand \<Rightarrow> AgentRecord" where
  "commandRecord org cmd =
     \<lparr>agAgentID = scAgentID cmd, agAgentType = scAgentType cmd, agTenantID = scTenantID cmd, agUserID = scUserID cmd, agStatus = [],
      agLifecycle = scLifecycle cmd, agSupportsChat = False, agDismissed = False, agParentID = scParentID cmd, agOrgID = org,
      agPlacement = [], agConsentRequired = scConsentRequired cmd\<rparr>"

definition handleSpawn_sub :: "('k, 'p) agent \<Rightarrow> SpawnCommand \<Rightarrow> ('k, 'p) agentState \<Rightarrow> ('k, 'p) agentState" where
  "handleSpawn_sub A cmd s =
     (let s1 = report (NewStatus (scAgentID cmd) PhaseCreating []) s
      in reported (scAgentID cmd) PhaseCreated (materialize A (commandRecord (sgOrg A) cmd) (scTask cmd) s1))"

definition handleKill :: "('k, 'p) agent \<Rightarrow> string \<Rightarrow> ('k, 'p) agentState \<Rightarrow> ('k, 'p) agentState" where
  "handleKill A agentID s =
     (case wsGet (sgStore A) agentID (atCluster s) of
        Inl e \<Rightarrow> report (NewStatus agentID PhaseFailed (errString e)) s
      | Inr None \<Rightarrow> report (NewStatus agentID PhaseKilled []) s
      | Inr (Some w) \<Rightarrow> reported agentID PhaseKilled (teardown A w s))"

text \<open>A frame without its payload would be a nil dereference, here \<^const>\<open>None\<close>; a frame of another type is ignored.\<close>

definition handleDown :: "('k, 'p) agent \<Rightarrow> Down \<Rightarrow> ('k, 'p) agentState \<Rightarrow> ('k, 'p) agentState option" where
  "handleDown A d s =
     (if dnType d = TypeSpawn then map_option (\<lambda>cmd. handleSpawn_sub A cmd s) (dnSpawn d)
      else if dnType d = TypeKill then map_option (\<lambda>i. handleKill A i s) (dnKill d)
      else Some s)"

fun ensureEntries :: "('k, 'p) agent \<Rightarrow> AgentRecord list \<Rightarrow> ('k, 'p) agentState \<Rightarrow> ('k, 'p) agentState" where
  "ensureEntries A [] s = s"
| "ensureEntries A (rec # recs) s =
     ensureEntries A recs
       (case workloadSpiffeID (sgTrustDomain A) (sgOrg A) (agAgentType rec) (agAgentID rec) of
          Inl e \<Rightarrow> s
        | Inr spiffeID \<Rightarrow> snd (requestEntry A spiffeID (agAgentID rec) s))"

fun createAll :: "('k, 'p) agent \<Rightarrow> AgentRecord list \<Rightarrow> ('k, 'p) agentState \<Rightarrow> ('k, 'p) agentState" where
  "createAll A [] s = s"
| "createAll A (rec # recs) s = createAll A recs (reported (agAgentID rec) PhaseCreated (materialize A rec [] s))"

text \<open>A failed teardown is logged and not reported.\<close>

fun teardownAll :: "('k, 'p) agent \<Rightarrow> localWorkload list \<Rightarrow> ('k, 'p) agentState \<Rightarrow> ('k, 'p) agentState" where
  "teardownAll A [] s = s"
| "teardownAll A (w # ws) s =
     teardownAll A ws
       (case teardown A w s of
          (Some e, s1) \<Rightarrow> s1
        | (None, s1) \<Rightarrow> report (NewStatus (lwAgentID w) PhaseKilled []) s1)"

definition converge :: "mapOrder \<Rightarrow> ('k, 'p) agent \<Rightarrow> bool \<Rightarrow> ('k, 'p) agentState \<Rightarrow> go_error option \<times> ('k, 'p) agentState" where
  "converge ord A ensure s =
     (case cpListDesired (sgPlane A) (atPlane s) of
        (Inl e, p1) \<Rightarrow> (Some e, s\<lparr>atPlane := p1\<rparr>)
      | (Inr desired, p1) \<Rightarrow>
          (case wsList (sgStore A) (atCluster s) of
             Inl e \<Rightarrow> (Some e, s\<lparr>atPlane := p1\<rparr>)
           | Inr actual \<Rightarrow>
               (case reconcile ord desired actual of
                  (toCreate, toDelete) \<Rightarrow>
                    let s1 = s\<lparr>atPlane := p1\<rparr>;
                        s2 = (if ensure then ensureEntries A (ensureEntryFor desired actual) s1 else s1)
                    in (None, teardownAll A toDelete (createAll A toCreate s2)))))"

definition reconcileOnce :: "mapOrder \<Rightarrow> ('k, 'p) agent \<Rightarrow> ('k, 'p) agentState \<Rightarrow> go_error option \<times> ('k, 'p) agentState" where
  "reconcileOnce ord A s = converge ord A False s"

definition reconcileOnConnect :: "mapOrder \<Rightarrow> ('k, 'p) agent \<Rightarrow> ('k, 'p) agentState \<Rightarrow> go_error option \<times> ('k, 'p) agentState" where
  "reconcileOnConnect ord A s = converge ord A True s"

section \<open>The connection\<close>

record dialer =
  dlHeartbeat :: int
  dlBackoffMin :: int
  dlBackoffMax :: int
  dlReconcile :: int

definition withDefaults :: "dialer \<Rightarrow> dialer" where
  "withDefaults d =
     \<lparr>dlHeartbeat = (if dlHeartbeat d \<le> 0 then 30 * second else dlHeartbeat d),
      dlBackoffMin = (if dlBackoffMin d \<le> 0 then second else dlBackoffMin d),
      dlBackoffMax = (if dlBackoffMax d \<le> 0 then 30 * second else dlBackoffMax d),
      dlReconcile = (if dlReconcile d \<le> 0 then 60 * second else dlReconcile d)\<rparr>"

definition grownBackoff :: "dialer \<Rightarrow> int \<Rightarrow> int" where
  "grownBackoff d backoff = (let b = wrap64 (backoff * 2) in if b > dlBackoffMax d then dlBackoffMax d else b)"

text \<open>The waits of \<open>serve\<close> between the connections, given whether each of them was established.\<close>

fun serveWaits :: "dialer \<Rightarrow> int \<Rightarrow> bool list \<Rightarrow> int list" where
  "serveWaits d backoff [] = []"
| "serveWaits d backoff (isConnected # cs) =
     (let b = (if isConnected then dlBackoffMin d else backoff) in b # serveWaits d (grownBackoff d b) cs)"

definition serve :: "dialer \<Rightarrow> bool list \<Rightarrow> int list" where
  "serve d cs = (let d' = withDefaults d in serveWaits d' (dlBackoffMin d') cs)"

text \<open>
  A connection: it starts with the reconciliation, then the reader takes frames off the socket and drops malformed ones, the ticker
  reconciles, the heartbeat reports and the writer drains the queue, in any order.
\<close>

definition opened :: "mapOrder \<Rightarrow> ('k, 'p) agent \<Rightarrow> ('k, 'p) agentState \<Rightarrow> ('k, 'p) agentState" where
  "opened ord A s = snd (reconcileOnConnect ord A (setSend (Some []) s))"

inductive agentStep :: "('k, 'p) agent \<Rightarrow> ('k, 'p) agentState \<Rightarrow> ('k, 'p) agentState \<Rightarrow> bool" for A where
  dial: "agentStep A s (opened ord A s)"
| malformed: "ValidateDown d = Some e \<Longrightarrow> agentStep A s s"
| dispatch: "ValidateDown d = None \<Longrightarrow> handleDown A d s = Some s' \<Longrightarrow> agentStep A s s'"
| tick: "agentStep A s (snd (reconcileOnce ord A s))"
| beat: "agentStep A s (report NewHeartbeat s)"
| sent: "atSend s = Some (u # us) \<Longrightarrow> agentStep A s (s\<lparr>atSend := Some us\<rparr>)"
| hangup: "agentStep A s (setSend None s)"

section \<open>What the agent relies on\<close>

record clusterObject =
  obWorkload :: AgentWorkload
  obLabels :: "(string \<times> string) list"
  obDeleting :: bool

definition managed :: "clusterObject \<Rightarrow> bool" where
  "managed ob = (gget (obLabels ob) managedLabel = Some ''true'')"

definition freshObject :: "AgentRecord \<Rightarrow> string \<Rightarrow> clusterObject" where
  "freshObject rec task = \<lparr>obWorkload = workloadFor rec task, obLabels = [(managedLabel, ''true'')], obDeleting = False\<rparr>"

text \<open>
  The cluster: an object is found under its namespace and name. A create adds the object when the name is free, also possibly
  when it reports an error. A delete removes the object or, as long as it has finalizers, marks it; also this may happen under an error.
\<close>

locale kube_client =
  fixes K :: "'k clusterClient" and objs :: "'k \<Rightarrow> string \<times> string \<Rightarrow> clusterObject option"
  assumes kube_named: "objs k (ns, n) = Some ob \<Longrightarrow> awName (obWorkload ob) = n"
    and kube_create: "ccCreate K ns lbls aw k = (r, k') \<Longrightarrow>
      objs k' = objs k \<and> r \<noteq> Created \<and> (r = AlreadyExists \<longrightarrow> objs k (ns, awName aw) \<noteq> None) \<or>
      objs k (ns, awName aw) = None \<and> objs k' = (objs k)((ns, awName aw) \<mapsto> \<lparr>obWorkload = aw, obLabels = lbls, obDeleting = False\<rparr>)"
    and kube_get: "ccGet K ns n k = Inr aw' \<Longrightarrow> \<exists>ob. objs k (ns, n) = Some ob \<and> obWorkload ob = aw'"
    and kube_get_none: "ccGet K ns n k = Inl K8sNotFound \<Longrightarrow> objs k (ns, n) = None"
    and kube_delete: "ccDelete K ns n k = (q, k') \<Longrightarrow>
      objs k' = objs k \<and> (objs k (ns, n) = None \<or> (\<exists>m. q = Some (K8sError m))) \<or>
      (\<exists>ob. objs k (ns, n) = Some ob \<and>
        (objs k' = (objs k)((ns, n) := None) \<or> objs k' = (objs k)((ns, n) \<mapsto> ob\<lparr>obDeleting := True\<rparr>)))"
    and kube_list: "ccList K ns (l, v) k = Inr aws \<Longrightarrow>
      set aws = {obWorkload ob | ob n. objs k (ns, n) = Some ob \<and> gget (obLabels ob) l = Some v}"

text \<open>The store of the agent's workloads: the objects of one namespace.\<close>

locale workload_store =
  fixes S :: "'k workloadStore" and crs :: "'k \<Rightarrow> string \<Rightarrow> clusterObject option"
  assumes store_create: "wsCreate S rec task k = (e, k') \<Longrightarrow>
      crs k' = crs k \<and> (e = None \<longrightarrow> crs k (agAgentID rec) \<noteq> None) \<or>
      crs k (agAgentID rec) = None \<and> crs k' = (crs k)(agAgentID rec \<mapsto> freshObject rec task)"
    and store_delete: "wsDelete S n k = (r, k') \<Longrightarrow>
      crs k' = crs k \<and> (crs k n = None \<or> (\<exists>d. r = Inl d)) \<or>
      (\<exists>ob. crs k n = Some ob \<and> (crs k' = (crs k)(n := None) \<or> crs k' = (crs k)(n \<mapsto> ob\<lparr>obDeleting := True\<rparr>)))"
    and store_get: "wsGet S n k = Inr found \<Longrightarrow> found = map_option (\<lambda>ob. \<lparr>lwAgentID = n, lwAgentType = awAgentType (obWorkload ob)\<rparr>) (crs k n)"
    and store_list: "wsList S k = Inr ws \<Longrightarrow>
      w \<in> set ws \<longleftrightarrow> (\<exists>ob. crs k (lwAgentID w) = Some ob \<and> managed ob \<and> lwAgentType w = awAgentType (obWorkload ob))"

lemma pair_update: "f' = f((a, b) := x) \<Longrightarrow> (\<lambda>n. f' (a, n)) = (\<lambda>n. f (a, n))(b := x)"
  by (simp add: fun_eq_iff)

sublocale kube_client \<subseteq> kube: workload_store "k8sWorkloadStore K ns" "\<lambda>k n. objs k (ns, n)" for ns
proof
  fix rec task k e k'
  assume "wsCreate (k8sWorkloadStore K ns) rec task k = (e, k')"
  then obtain r where "ccCreate K ns [(managedLabel, ''true'')] (workloadFor rec task) k = (r, k')" and r: "e = None \<Longrightarrow> r = Created \<or> r = AlreadyExists"
    by (auto simp: k8sWorkloadStore_def storeCreate_def split: prod.splits createResult.splits)
  from kube_create [OF this(1)] r show "(\<lambda>n. objs k' (ns, n)) = (\<lambda>n. objs k (ns, n)) \<and> (e = None \<longrightarrow> objs k (ns, agAgentID rec) \<noteq> None) \<or>
      objs k (ns, agAgentID rec) = None \<and> (\<lambda>n. objs k' (ns, n)) = (\<lambda>n. objs k (ns, n))(agAgentID rec \<mapsto> freshObject rec task)"
    by (auto simp: workloadFor_def freshObject_def dest: pair_update)
next
  fix n k r k'
  assume "wsDelete (k8sWorkloadStore K ns) n k = (r, k')"
  then obtain q where "ccDelete K ns n k = (q, k')" and q: "\<And>m. q = Some (K8sError m) \<Longrightarrow> \<exists>d. r = Inl d"
    by (auto simp: k8sWorkloadStore_def storeDelete_def split: prod.splits option.splits k8s_error.splits)
  from kube_delete [OF this(1)] q show "(\<lambda>n. objs k' (ns, n)) = (\<lambda>n. objs k (ns, n)) \<and> (objs k (ns, n) = None \<or> (\<exists>d. r = Inl d)) \<or>
      (\<exists>ob. objs k (ns, n) = Some ob \<and> ((\<lambda>n. objs k' (ns, n)) = (\<lambda>n. objs k (ns, n))(n := None) \<or>
        (\<lambda>n. objs k' (ns, n)) = (\<lambda>n. objs k (ns, n))(n \<mapsto> ob\<lparr>obDeleting := True\<rparr>)))"
    by (auto dest: pair_update)
next
  fix n k found
  assume "wsGet (k8sWorkloadStore K ns) n k = Inr found"
  then show "found = map_option (\<lambda>ob. \<lparr>lwAgentID = n, lwAgentType = awAgentType (obWorkload ob)\<rparr>) (objs k (ns, n))"
    by (auto simp: k8sWorkloadStore_def storeGet_def kube_named split: sum.splits k8s_error.splits dest!: kube_get kube_get_none)
next
  fix k ws w
  assume "wsList (k8sWorkloadStore K ns) k = Inr ws"
  then obtain aws where l: "ccList K ns (managedLabel, ''true'') k = Inr aws" and ws: "ws = map (\<lambda>aw. \<lparr>lwAgentID = awName aw, lwAgentType = awAgentType aw\<rparr>) aws"
    by (auto simp: k8sWorkloadStore_def storeList_def split: sum.splits)
  show "w \<in> set ws \<longleftrightarrow> (\<exists>ob. objs k (ns, lwAgentID w) = Some ob \<and> managed ob \<and> lwAgentType w = awAgentType (obWorkload ob))"
    using kube_named by (cases w) (auto simp: ws kube_list [OF l] managed_def image_iff, metis)
qed

text \<open>A cluster in memory, without finalizers.\<close>

type_synonym memCluster = "(string \<times> clusterObject) list"

definition clusterView :: "memCluster \<Rightarrow> string \<times> string \<Rightarrow> clusterObject option" where
  "clusterView k = gget (map (\<lambda>(ns, ob). ((ns, awName (obWorkload ob)), ob)) k)"

definition memKube :: "memCluster clusterClient" where
  "memKube =
     \<lparr>ccCreate = (\<lambda>ns lbls aw k. if clusterView k (ns, awName aw) \<noteq> None then (AlreadyExists, k)
         else (Created, (ns, \<lparr>obWorkload = aw, obLabels = lbls, obDeleting = False\<rparr>) # k)),
      ccGet = (\<lambda>ns n k. case clusterView k (ns, n) of None \<Rightarrow> Inl K8sNotFound | Some ob \<Rightarrow> Inr (obWorkload ob)),
      ccDelete = (\<lambda>ns n k. if clusterView k (ns, n) = None then (Some K8sNotFound, k)
         else (None, filter (\<lambda>(ns', ob). ns' = ns \<longrightarrow> awName (obWorkload ob) \<noteq> n) k)),
      ccList = (\<lambda>ns sel k. Inr (map (obWorkload \<circ> snd)
         (filter (\<lambda>(ns', ob). ns' = ns \<and> clusterView k (ns, awName (obWorkload ob)) = Some ob \<and> gget (obLabels ob) (fst sel) = Some (snd sel)) k)))\<rparr>"

lemma clusterView_named: "clusterView k (ns, n) = Some ob \<Longrightarrow> awName (obWorkload ob) = n \<and> (ns, ob) \<in> set k"
  by (auto simp: clusterView_def dest!: map_of_SomeD)

lemma set_selected: "set (map (f \<circ> snd) (filter (\<lambda>(a, x). a = c \<and> P x) k)) = f ` {x. (c, x) \<in> set k \<and> P x}"
proof -
  have "set (filter (\<lambda>(a, x). a = c \<and> P x) k) = Pair c ` {x. (c, x) \<in> set k \<and> P x}" by auto
  then show ?thesis by (simp only: set_map image_comp [symmetric]) (simp add: image_image)
qed

lemma memKube_list:
  assumes "ccList memKube ns (l, v) k = Inr aws"
  shows "set aws = {obWorkload ob | ob n. clusterView k (ns, n) = Some ob \<and> gget (obLabels ob) l = Some v}"
proof -
  have "set aws = obWorkload ` {ob. (ns, ob) \<in> set k \<and> clusterView k (ns, awName (obWorkload ob)) = Some ob \<and> gget (obLabels ob) l = Some v}"
    using assms set_selected [of obWorkload ns "\<lambda>ob. clusterView k (ns, awName (obWorkload ob)) = Some ob \<and> gget (obLabels ob) l = Some v" k]
    by (simp add: memKube_def)
  also have "\<dots> = obWorkload ` {ob. \<exists>n. clusterView k (ns, n) = Some ob \<and> gget (obLabels ob) l = Some v}"
    by (intro arg_cong [where f = "image obWorkload"] Collect_cong) (auto dest: clusterView_named)
  finally show ?thesis by auto
qed

lemma clusterView_filter: "clusterView (filter (\<lambda>(ns', ob). ns' = ns \<longrightarrow> awName (obWorkload ob) \<noteq> n) k) = (clusterView k)((ns, n) := None)"
  by (induction k) (auto simp: clusterView_def fun_eq_iff)

interpretation memkube: kube_client memKube clusterView
proof
  show "ccCreate memKube ns lbls aw k = (r, k') \<Longrightarrow>
      clusterView k' = clusterView k \<and> r \<noteq> Created \<and> (r = AlreadyExists \<longrightarrow> clusterView k (ns, awName aw) \<noteq> None) \<or>
      clusterView k (ns, awName aw) = None \<and> clusterView k' = (clusterView k)((ns, awName aw) \<mapsto> \<lparr>obWorkload = aw, obLabels = lbls, obDeleting = False\<rparr>)"
    for ns lbls aw k r k' by (auto simp: memKube_def clusterView_def split: if_splits)
  show "ccDelete memKube ns n k = (q, k') \<Longrightarrow>
      clusterView k' = clusterView k \<and> (clusterView k (ns, n) = None \<or> (\<exists>m. q = Some (K8sError m))) \<or>
      (\<exists>ob. clusterView k (ns, n) = Some ob \<and>
        (clusterView k' = (clusterView k)((ns, n) := None) \<or> clusterView k' = (clusterView k)((ns, n) \<mapsto> ob\<lparr>obDeleting := True\<rparr>)))"
    for ns n k q k' by (auto simp: memKube_def clusterView_filter split: if_splits)
  show "ccList memKube ns (l, v) k = Inr aws \<Longrightarrow>
      set aws = {obWorkload ob | ob n. clusterView k (ns, n) = Some ob \<and> gget (obLabels ob) l = Some v}"
    for ns l v k aws by (rule memKube_list)
qed (auto simp: memKube_def clusterView_named split: option.splits)

section \<open>What the operations do to the cluster\<close>

text \<open>Whether an identity can be built for an agent; without one there is neither a workload nor a teardown.\<close>

definition identifiable :: "('k, 'p) agent \<Rightarrow> string \<Rightarrow> string \<Rightarrow> bool" where
  "identifiable A ty n = (case workloadSpiffeID (sgTrustDomain A) (sgOrg A) ty n of Inl _ \<Rightarrow> False | Inr _ \<Rightarrow> True)"

lemma report_keeps [simp]: "atCluster (report u s) = atCluster s" "atPlane (report u s) = atPlane s"
  by (simp_all add: report_def split: option.split)

lemma reported_keeps [simp]: "atCluster (reported i ph r) = atCluster (snd r)" "atPlane (reported i ph r) = atPlane (snd r)"
  by (cases r; simp add: reported_def split: option.split)+

lemma setSend_keeps [simp]: "atCluster (setSend q s) = atCluster s" "atPlane (setSend q s) = atPlane s"
  by (simp_all add: setSend_def)

lemma entry_calls_keep [simp]: "atCluster (snd (requestEntry A i n s)) = atCluster s" "atCluster (snd (dropEntry A i s)) = atCluster s"
  by (simp_all add: requestEntry_def dropEntry_def split: prod.split)

lemma entry_calls_cluster: "requestEntry A i n s = (e, s1) \<Longrightarrow> atCluster s1 = atCluster s" "dropEntry A i s = (e, s1) \<Longrightarrow> atCluster s1 = atCluster s"
  using entry_calls_keep(1) [of A i n s] entry_calls_keep(2) [of A i s] by simp_all

lemma ensureEntries_keeps [simp]: "atCluster (ensureEntries A recs s) = atCluster s"
  by (induction recs arbitrary: s) (simp_all split: sum.split)

lemma removal_trans:
  assumes "y = x \<or> P \<and> (\<exists>ob. x = Some ob \<and> y \<in> {None, Some (d ob)})" and "z = y \<or> Q \<and> (\<exists>ob. y = Some ob \<and> z \<in> {None, Some (d ob)})"
    and "\<And>ob. d (d ob) = d ob"
  shows "z = x \<or> (P \<or> Q) \<and> (\<exists>ob. x = Some ob \<and> z \<in> {None, Some (d ob)})"
  using assms by (cases x; cases y) auto

context workload_store
begin

lemma materialize_cluster:
  assumes "sgStore A = S" and "materialize A rec task s = (e, s')"
  shows "crs (atCluster s') = crs (atCluster s) \<and> (e = None \<longrightarrow> crs (atCluster s) (agAgentID rec) \<noteq> None) \<or>
    crs (atCluster s) (agAgentID rec) = None \<and> crs (atCluster s') = (crs (atCluster s))(agAgentID rec \<mapsto> freshObject rec task) \<and>
    identifiable A (agAgentType rec) (agAgentID rec)"
proof (cases "\<exists>i s1. workloadSpiffeID (sgTrustDomain A) (sgOrg A) (agAgentType rec) (agAgentID rec) = Inr i \<and> requestEntry A i (agAgentID rec) s = (None, s1)")
  case True
  then obtain i s1 where i: "workloadSpiffeID (sgTrustDomain A) (sgOrg A) (agAgentType rec) (agAgentID rec) = Inr i" "requestEntry A i (agAgentID rec) s = (None, s1)" by blast
  have c1: "atCluster s1 = atCluster s" using i(2) by (rule entry_calls_cluster)
  obtain e1 k1 where w: "wsCreate S rec task (atCluster s) = (e1, k1)" by force
  have "e = e1" "atCluster s' = k1" using assms i w c1 by (auto simp: materialize_def split: option.splits)
  moreover have "identifiable A (agAgentType rec) (agAgentID rec)" using i(1) by (simp add: identifiable_def)
  ultimately show ?thesis using store_create [OF w] by blast
next
  case False
  then have "atCluster s' = atCluster s \<and> e \<noteq> None" using assms(2)
    by (auto simp: materialize_def split: sum.splits prod.splits option.splits dest: entry_calls_cluster)
  then show ?thesis by auto
qed

lemma teardown_cluster:
  assumes "sgStore A = S" and "teardown A w s = (e, s')"
  shows "crs (atCluster s') = crs (atCluster s) \<and> (e = None \<longrightarrow> crs (atCluster s) (lwAgentID w) = None) \<or>
    (\<exists>ob. crs (atCluster s) (lwAgentID w) = Some ob \<and> (crs (atCluster s') = (crs (atCluster s))(lwAgentID w := None) \<or>
       crs (atCluster s') = (crs (atCluster s))(lwAgentID w \<mapsto> ob\<lparr>obDeleting := True\<rparr>)))"
proof (cases "\<exists>i s1. workloadSpiffeID (sgTrustDomain A) (sgOrg A) (lwAgentType w) (lwAgentID w) = Inr i \<and> dropEntry A i s = (None, s1)")
  case True
  then obtain i s1 where i: "workloadSpiffeID (sgTrustDomain A) (sgOrg A) (lwAgentType w) (lwAgentID w) = Inr i" "dropEntry A i s = (None, s1)" by blast
  have c1: "atCluster s1 = atCluster s" using i(2) by (rule entry_calls_cluster)
  obtain r k1 where d: "wsDelete S (lwAgentID w) (atCluster s) = (r, k1)" by force
  have "e = None \<longrightarrow> \<not> (\<exists>d. r = Inl d)" "atCluster s' = k1" using assms i d c1 by (auto simp: teardown_def split: sum.splits)
  then show ?thesis using store_delete [OF d] by blast
next
  case False
  then have "atCluster s' = atCluster s \<and> e \<noteq> None" using assms(2)
    by (auto simp: teardown_def split: sum.splits prod.splits option.splits dest: entry_calls_cluster)
  then show ?thesis by auto
qed

lemma createAll_cluster:
  assumes "sgStore A = S"
  shows "crs (atCluster (createAll A recs s)) n = crs (atCluster s) n \<or>
    crs (atCluster s) n = None \<and> (\<exists>rec \<in> set recs. agAgentID rec = n \<and> identifiable A (agAgentType rec) n \<and>
      crs (atCluster (createAll A recs s)) n = Some (freshObject rec []))"
proof (induction recs arbitrary: s)
  case (Cons rec recs)
  obtain e s1 where m: "materialize A rec [] s = (e, s1)" by force
  have "crs (atCluster s1) n = crs (atCluster s) n \<or> crs (atCluster s) n = None \<and> agAgentID rec = n \<and>
      identifiable A (agAgentType rec) n \<and> crs (atCluster s1) n = Some (freshObject rec [])"
    using materialize_cluster [OF assms m] by (elim disjE exE conjE) auto
  then show ?case using Cons [of "reported (agAgentID rec) PhaseCreated (e, s1)"] m by auto
qed simp

lemma teardownAll_cluster:
  assumes "sgStore A = S"
  shows "crs (atCluster (teardownAll A ws s)) n = crs (atCluster s) n \<or>
    (\<exists>w \<in> set ws. lwAgentID w = n) \<and> (\<exists>ob. crs (atCluster s) n = Some ob \<and> crs (atCluster (teardownAll A ws s)) n \<in> {None, Some (ob\<lparr>obDeleting := True\<rparr>)})"
proof (induction ws arbitrary: s)
  case (Cons w ws)
  obtain e s1 where t: "teardown A w s = (e, s1)" by force
  define s2 where "s2 = (case e of Some x \<Rightarrow> s1 | None \<Rightarrow> report (NewStatus (lwAgentID w) PhaseKilled []) s1)"
  have s2: "teardownAll A (w # ws) s = teardownAll A ws s2" "atCluster s2 = atCluster s1" using t by (simp_all add: s2_def split: option.split)
  have "crs (atCluster s1) n = crs (atCluster s) n \<or>
      lwAgentID w = n \<and> (\<exists>ob. crs (atCluster s) n = Some ob \<and> crs (atCluster s1) n \<in> {None, Some (ob\<lparr>obDeleting := True\<rparr>)})"
    using teardown_cluster [OF assms t] by (elim disjE exE conjE) auto
  from removal_trans [where d = "obDeleting_update (\<lambda>_. True)", OF this Cons [of s2, unfolded s2]] show ?case
    unfolding s2 by simp
qed simp

end

section \<open>Reconciliation\<close>

definition rangeOrder :: "mapOrder \<Rightarrow> bool" where
  "rangeOrder ord = (\<forall>m. gdistinct m \<longrightarrow> set (ord m) = set m \<and> gdistinct (ord m))"

lemma wantOf_snoc: "wantOf (desired @ [rec]) = (if shouldRun rec then gput (agAgentID rec) rec (wantOf desired) else wantOf desired)"
  by (simp add: wantOf_def)

lemma wantOf_distinct: "gdistinct (wantOf desired)"
proof (induction desired rule: rev_induct)
  case (snoc rec desired)
  then show ?case by (simp add: wantOf_snoc gdistinct_gput)
qed (simp add: wantOf_def)

lemma wantOf_Some: "gget (wantOf desired) n = Some rec \<Longrightarrow> rec \<in> set desired \<and> shouldRun rec \<and> agAgentID rec = n"
proof (induction desired rule: rev_induct)
  case (snoc rec' desired)
  then show ?case by (auto simp: wantOf_snoc gget_gput split: if_splits)
qed (simp add: wantOf_def)

lemma wantOf_None: "gget (wantOf desired) n = None \<longleftrightarrow> (\<forall>rec \<in> set desired. agAgentID rec = n \<longrightarrow> \<not> shouldRun rec)"
proof (induction desired rule: rev_induct)
  case (snoc rec' desired)
  then show ?case by (auto simp: wantOf_snoc gget_gput)
qed (simp add: wantOf_def)

lemma reconcile_parts:
  assumes "rangeOrder ord" and "reconcile ord desired actual = (toCreate, toDelete)"
  shows "rec \<in> set toCreate \<longleftrightarrow> gget (wantOf desired) (agAgentID rec) = Some rec \<and> agAgentID rec \<notin> lwAgentID ` set actual \<and> agStatus rec \<noteq> ''revoked''"
    and "w \<in> set toDelete \<longleftrightarrow> w \<in> set actual \<and> gget (wantOf desired) (lwAgentID w) = None"
    and "distinct (map agAgentID toCreate)"
proof -
  let ?want = "ord (wantOf desired)"
  let ?P = "\<lambda>(i, rec). i \<notin> set (map lwAgentID actual) \<and> agStatus rec \<noteq> ''revoked''"
  have o: "set ?want = set (wantOf desired)" "gdistinct ?want" using assms(1) wantOf_distinct by (simp_all add: rangeOrder_def)
  have key: "gget (wantOf desired) i = Some r" "agAgentID r = i" if "(i, r) \<in> set ?want" for i r
  proof -
    show "gget (wantOf desired) i = Some r" using that o(1) in_set_gget [OF wantOf_distinct] by simp
    then show "agAgentID r = i" using wantOf_Some by blast
  qed
  have c: "toCreate = map snd (filter ?P ?want)" "toDelete = filter (\<lambda>w. gget (wantOf desired) (lwAgentID w) = None) actual"
    using assms(2) by (simp_all add: reconcile_def Let_def)
  have mem: "gget (wantOf desired) i = Some r \<Longrightarrow> (i, r) \<in> set ?want" for i r using o(1) by (simp add: gget_in_set)
  show "rec \<in> set toCreate \<longleftrightarrow> gget (wantOf desired) (agAgentID rec) = Some rec \<and> agAgentID rec \<notin> lwAgentID ` set actual \<and> agStatus rec \<noteq> ''revoked''"
  proof
    assume "rec \<in> set toCreate"
    then obtain i where "(i, rec) \<in> set ?want" "?P (i, rec)" unfolding c by auto
    then show "gget (wantOf desired) (agAgentID rec) = Some rec \<and> agAgentID rec \<notin> lwAgentID ` set actual \<and> agStatus rec \<noteq> ''revoked''"
      using key [of i rec] by simp
  next
    assume h: "gget (wantOf desired) (agAgentID rec) = Some rec \<and> agAgentID rec \<notin> lwAgentID ` set actual \<and> agStatus rec \<noteq> ''revoked''"
    then have "(agAgentID rec, rec) \<in> set (filter ?P ?want)"
      using mem [OF conjunct1 [OF h]] conjunct2 [OF h] by (simp only: set_filter mem_Collect_eq prod.case set_map simp_thms)
    then show "rec \<in> set toCreate" unfolding c set_map by (rule image_eqI [rotated]) simp
  qed
  show "w \<in> set toDelete \<longleftrightarrow> w \<in> set actual \<and> gget (wantOf desired) (lwAgentID w) = None" by (auto simp: c)
  have "map agAgentID toCreate = map fst (filter ?P ?want)" unfolding c map_map o_def by (rule map_cong [OF refl]) (use key in auto)
  then show "distinct (map agAgentID toCreate)" using o(2) by (simp add: distinct_map_filter)
qed

text \<open>The parts of a reconciliation that got both lists.\<close>

lemma converge_listed:
  assumes "cpListDesired (sgPlane A) (atPlane s) = (Inr desired, p1)" and "wsList (sgStore A) (atCluster s) = Inr actual"
    and "reconcile ord desired actual = (toCreate, toDelete)"
  shows "converge ord A ens s = (None, teardownAll A toDelete (createAll A toCreate
    (if ens then ensureEntries A (ensureEntryFor desired actual) (s\<lparr>atPlane := p1\<rparr>) else s\<lparr>atPlane := p1\<rparr>)))"
  using assms by (simp add: converge_def Let_def)

lemma converge_unlisted:
  assumes "\<And>desired p1 actual. cpListDesired (sgPlane A) (atPlane s) = (Inr desired, p1) \<Longrightarrow> wsList (sgStore A) (atCluster s) = Inr actual \<Longrightarrow> False"
  shows "fst (converge ord A ens s) \<noteq> None \<and> atCluster (snd (converge ord A ens s)) = atCluster s"
  using assms by (auto simp: converge_def split: prod.splits sum.splits)

context workload_store
begin

lemma converge_delta:
  assumes A: "sgStore A = S" and ord: "rangeOrder ord" and "converge ord A ens s = (e, s')"
    and ch: "crs (atCluster s') n \<noteq> crs (atCluster s) n"
  shows "\<exists>desired p1. cpListDesired (sgPlane A) (atPlane s) = (Inr desired, p1) \<and>
     ((crs (atCluster s) n = None \<and> (\<exists>rec \<in> set desired. agAgentID rec = n \<and> shouldRun rec \<and> agStatus rec \<noteq> ''revoked'' \<and>
         crs (atCluster s') n = Some (freshObject rec []))) \<or>
      (\<exists>ob. crs (atCluster s) n = Some ob \<and> managed ob \<and> (\<forall>rec \<in> set desired. agAgentID rec = n \<longrightarrow> \<not> shouldRun rec) \<and>
         crs (atCluster s') n \<in> {None, Some (ob\<lparr>obDeleting := True\<rparr>)}))"
proof -
  obtain desired p1 actual where l: "cpListDesired (sgPlane A) (atPlane s) = (Inr desired, p1)" "wsList (sgStore A) (atCluster s) = Inr actual"
    using converge_unlisted [of A s ord ens] assms(3) ch by force
  obtain toCreate toDelete where r: "reconcile ord desired actual = (toCreate, toDelete)" by force
  define s2 where "s2 = (if ens then ensureEntries A (ensureEntryFor desired actual) (s\<lparr>atPlane := p1\<rparr>) else s\<lparr>atPlane := p1\<rparr>)"
  have s': "s' = teardownAll A toDelete (createAll A toCreate s2)" using converge_listed [OF l r, of ens] assms(3) by (simp add: s2_def)
  have s2: "atCluster s2 = atCluster s" by (simp add: s2_def)
  note cre = createAll_cluster [OF A, of toCreate s2 n, unfolded s2] and del = teardownAll_cluster [OF A, of toDelete "createAll A toCreate s2" n, folded s']
  have here: "\<exists>ob. crs (atCluster s) (lwAgentID w) = Some ob \<and> managed ob \<and> gget (wantOf desired) (lwAgentID w) = None" if "w \<in> set toDelete" for w
    using store_list [of "atCluster s" actual w] l(2) that reconcile_parts(2) [OF ord r, of w] A by auto
  show ?thesis
  proof (cases "crs (atCluster (createAll A toCreate s2)) n = crs (atCluster s) n")
    case True
    with del ch obtain w where w: "w \<in> set toDelete" "lwAgentID w = n" by auto
    with del ch True here [OF w(1)] l(1) show ?thesis by (auto simp: wantOf_None)
  next
    case False
    with cre obtain rec where rec: "crs (atCluster s) n = None" "rec \<in> set toCreate" "agAgentID rec = n"
      "crs (atCluster (createAll A toCreate s2)) n = Some (freshObject rec [])" by auto
    then have "crs (atCluster s') n = Some (freshObject rec [])" using del here by fastforce
    with rec reconcile_parts(1) [OF ord r, of rec] wantOf_Some [of desired n rec] l(1) show ?thesis by auto
  qed
qed

end

section \<open>With a control plane that serves it\<close>

text \<open>
  In the states \<open>Q\<close> the control plane creates the entries of the agents of the first kind and deletes those of the second kind, each given by its
  type and id, and stays in such states. In the states \<open>R\<close> the store of workloads creates those of the wanted records and deletes those of the given names, and
  stays in such states.
\<close>

definition entryRequest :: "('k, 'p) agent \<Rightarrow> string \<Rightarrow> string \<Rightarrow> 'p \<Rightarrow> go_error option \<times> 'p" where
  "entryRequest A i n p = cpCreateEntry (sgPlane A) i (sgNodeID A) (workloadSelectors (sgNamespace A) n (sgServiceAccount A)) p"

definition serves :: "('k, 'p) agent \<Rightarrow> ('p \<Rightarrow> bool) \<Rightarrow> (string \<Rightarrow> string \<Rightarrow> bool) \<Rightarrow> (string \<Rightarrow> string \<Rightarrow> bool) \<Rightarrow> bool" where
  "serves A Q creatable deletable \<longleftrightarrow>
     (\<forall>p ty n i. Q p \<longrightarrow> workloadSpiffeID (sgTrustDomain A) (sgOrg A) ty n = Inr i \<longrightarrow>
        (creatable ty n \<longrightarrow> fst (entryRequest A i n p) = None \<and> Q (snd (entryRequest A i n p))) \<and>
        (deletable ty n \<longrightarrow> fst (cpDeleteEntry (sgPlane A) i p) = None \<and> Q (snd (cpDeleteEntry (sgPlane A) i p))))"

definition reliableStore :: "'k workloadStore \<Rightarrow> ('k \<Rightarrow> bool) \<Rightarrow> (AgentRecord \<Rightarrow> bool) \<Rightarrow> (string \<Rightarrow> bool) \<Rightarrow> bool" where
  "reliableStore S R wanted named \<longleftrightarrow>
     (\<forall>rec task k. R k \<and> wanted rec \<longrightarrow> fst (wsCreate S rec task k) = None \<and> R (snd (wsCreate S rec task k))) \<and>
     (\<forall>n k. R k \<and> named n \<longrightarrow> (\<exists>found. fst (wsDelete S n k) = Inr found) \<and> R (snd (wsDelete S n k)))"

text \<open>A workload that is running: it is managed by the agent and not being deleted.\<close>

definition runs :: "(string \<Rightarrow> clusterObject option) \<Rightarrow> string \<Rightarrow> bool" where
  "runs c n = (case c n of None \<Rightarrow> False | Some ob \<Rightarrow> managed ob \<and> \<not> obDeleting ob)"

lemma requestEntry_eq: "requestEntry A i n s = (fst (entryRequest A i n (atPlane s)), s\<lparr>atPlane := snd (entryRequest A i n (atPlane s))\<rparr>)"
  by (simp add: requestEntry_def entryRequest_def split: prod.split)

lemma dropEntry_eq: "dropEntry A i s = (fst (cpDeleteEntry (sgPlane A) i (atPlane s)), s\<lparr>atPlane := snd (cpDeleteEntry (sgPlane A) i (atPlane s))\<rparr>)"
  by (simp add: dropEntry_def split: prod.split)

lemma materialize_done:
  assumes "serves A Q creatable deletable" and "reliableStore (sgStore A) R wanted named" and "Q (atPlane s)" and "creatable (agAgentType rec) (agAgentID rec)"
    and "identifiable A (agAgentType rec) (agAgentID rec)" and "R (atCluster s)" and "wanted rec"
  shows "fst (materialize A rec task s) = None \<and> Q (atPlane (snd (materialize A rec task s))) \<and> R (atCluster (snd (materialize A rec task s)))"
proof -
  obtain i where i: "workloadSpiffeID (sgTrustDomain A) (sgOrg A) (agAgentType rec) (agAgentID rec) = Inr i"
    using assms(5) by (auto simp: identifiable_def split: sum.splits)
  then have "fst (entryRequest A i (agAgentID rec) (atPlane s)) = None" "Q (snd (entryRequest A i (agAgentID rec) (atPlane s)))"
    using assms(1,3,4) unfolding serves_def by blast+
  moreover have "fst (wsCreate (sgStore A) rec task (atCluster s)) = None" "R (snd (wsCreate (sgStore A) rec task (atCluster s)))"
    using assms(2,6,7) by (simp_all add: reliableStore_def)
  ultimately show ?thesis using i by (auto simp: materialize_def requestEntry_eq split: prod.split option.split)
qed

lemma teardown_done:
  assumes "serves A Q creatable deletable" and "reliableStore (sgStore A) R wanted named" and "Q (atPlane s)" and "deletable (lwAgentType w) (lwAgentID w)"
    and "identifiable A (lwAgentType w) (lwAgentID w)" and "R (atCluster s)" and "named (lwAgentID w)"
  shows "fst (teardown A w s) = None \<and> Q (atPlane (snd (teardown A w s))) \<and> R (atCluster (snd (teardown A w s)))"
proof -
  obtain i where i: "workloadSpiffeID (sgTrustDomain A) (sgOrg A) (lwAgentType w) (lwAgentID w) = Inr i"
    using assms(5) by (auto simp: identifiable_def split: sum.splits)
  then have "fst (cpDeleteEntry (sgPlane A) i (atPlane s)) = None" "Q (snd (cpDeleteEntry (sgPlane A) i (atPlane s)))"
    using assms(1,3,4) unfolding serves_def by blast+
  moreover obtain found where "fst (wsDelete (sgStore A) (lwAgentID w) (atCluster s)) = Inr found" "R (snd (wsDelete (sgStore A) (lwAgentID w) (atCluster s)))"
    using assms(2,6,7) unfolding reliableStore_def by blast
  ultimately show ?thesis using i by (auto simp: teardown_def dropEntry_eq split: prod.split sum.split)
qed

lemma ensureEntries_done:
  assumes "serves A Q creatable deletable"
  shows "Q (atPlane s) \<Longrightarrow> (\<And>rec. rec \<in> set recs \<Longrightarrow> creatable (agAgentType rec) (agAgentID rec)) \<Longrightarrow> Q (atPlane (ensureEntries A recs s))"
proof (induction recs arbitrary: s)
  case (Cons rec recs)
  have "Q (snd (entryRequest A i (agAgentID rec) (atPlane s)))" if "workloadSpiffeID (sgTrustDomain A) (sgOrg A) (agAgentType rec) (agAgentID rec) = Inr i" for i
    using assms Cons.prems that unfolding serves_def by (meson list.set_intros(1))
  then show ?case using Cons by (auto simp: requestEntry_eq split: sum.split)
qed simp

context workload_store
begin

lemma createAll_done:
  assumes "serves A Q creatable deletable" and "reliableStore (sgStore A) R wanted named" and A: "sgStore A = S"
  shows "Q (atPlane s) \<Longrightarrow> R (atCluster s) \<Longrightarrow> (\<And>rec. rec \<in> set recs \<Longrightarrow> creatable (agAgentType rec) (agAgentID rec) \<and> identifiable A (agAgentType rec) (agAgentID rec) \<and> wanted rec) \<Longrightarrow>
    Q (atPlane (createAll A recs s)) \<and> R (atCluster (createAll A recs s)) \<and> (\<forall>rec \<in> set recs. crs (atCluster (createAll A recs s)) (agAgentID rec) \<noteq> None)"
proof (induction recs arbitrary: s)
  case (Cons rec recs)
  obtain e s1 where m: "materialize A rec [] s = (e, s1)" by force
  let ?s = "reported (agAgentID rec) PhaseCreated (e, s1)"
  have d: "e = None" "Q (atPlane s1)" "R (atCluster s1)" using materialize_done [OF assms(1,2) Cons.prems(1), of rec "[]"] Cons.prems(2,3) m by auto
  then have "crs (atCluster s1) (agAgentID rec) \<noteq> None" using materialize_cluster [OF A m] by auto
  then have "crs (atCluster (createAll A recs ?s)) (agAgentID rec) \<noteq> None"
    using createAll_cluster [OF A, of recs ?s "agAgentID rec"] by auto
  moreover have "Q (atPlane (createAll A recs ?s)) \<and> R (atCluster (createAll A recs ?s)) \<and> (\<forall>rec \<in> set recs. crs (atCluster (createAll A recs ?s)) (agAgentID rec) \<noteq> None)"
    by (rule Cons.IH) (use d Cons.prems(3) in auto)
  ultimately show ?case using m by simp
qed simp

lemma teardownAll_done:
  assumes "serves A Q creatable deletable" and "reliableStore (sgStore A) R wanted named" and A: "sgStore A = S"
  shows "Q (atPlane s) \<Longrightarrow> R (atCluster s) \<Longrightarrow> (\<And>w. w \<in> set ws \<Longrightarrow> deletable (lwAgentType w) (lwAgentID w) \<and> identifiable A (lwAgentType w) (lwAgentID w) \<and> named (lwAgentID w)) \<Longrightarrow>
    Q (atPlane (teardownAll A ws s)) \<and> (\<forall>w \<in> set ws. \<not> runs (crs (atCluster (teardownAll A ws s))) (lwAgentID w))"
proof (induction ws arbitrary: s)
  case (Cons w ws)
  obtain e s1 where t: "teardown A w s = (e, s1)" by force
  have d: "e = None" "Q (atPlane s1)" "R (atCluster s1)" using teardown_done [OF assms(1,2) Cons.prems(1), of w] Cons.prems(2,3) t by auto
  let ?s = "report (NewStatus (lwAgentID w) PhaseKilled []) s1"
  have "\<not> runs (crs (atCluster s1)) (lwAgentID w)" using teardown_cluster [OF A t] d(1) by (auto simp: runs_def)
  then have "\<not> runs (crs (atCluster (teardownAll A ws ?s))) (lwAgentID w)"
    using teardownAll_cluster [OF A, of ws ?s "lwAgentID w"] by (auto simp: runs_def)
  moreover have "Q (atPlane (teardownAll A ws ?s)) \<and> (\<forall>w \<in> set ws. \<not> runs (crs (atCluster (teardownAll A ws ?s))) (lwAgentID w))"
    by (rule Cons.IH) (use d Cons.prems(3) in auto)
  ultimately show ?case using t d(1) by simp
qed simp

lemma converge_reaches:
  assumes srv: "serves A Q creatable deletable" and rel: "reliableStore (sgStore A) R wanted named" and A: "sgStore A = S" and ord: "rangeOrder ord"
    and l: "cpListDesired (sgPlane A) (atPlane s) = (Inr desired, p1)" "wsList (sgStore A) (atCluster s) = Inr actual" and Q: "Q p1" and R: "R (atCluster s)"
    and want: "\<And>rec. rec \<in> set desired \<Longrightarrow> shouldRun rec \<Longrightarrow>
      creatable (agAgentType rec) (agAgentID rec) \<and> identifiable A (agAgentType rec) (agAgentID rec) \<and> wanted rec"
    and old: "\<And>n ob. crs (atCluster s) n = Some ob \<Longrightarrow> managed ob \<Longrightarrow> deletable (awAgentType (obWorkload ob)) n \<and> named n \<and> identifiable A (awAgentType (obWorkload ob)) n"
    and cv: "converge ord A ens s = (e, s')"
  shows "e = None \<and> Q (atPlane s') \<and> (runs (crs (atCluster s')) n \<longleftrightarrow>
    (\<exists>rec. gget (wantOf desired) n = Some rec \<and> (runs (crs (atCluster s)) n \<or> crs (atCluster s) n = None \<and> agStatus rec \<noteq> ''revoked'')))"
proof -
  obtain toCreate toDelete where r: "reconcile ord desired actual = (toCreate, toDelete)" by force
  define s2 where "s2 = (if ens then ensureEntries A (ensureEntryFor desired actual) (s\<lparr>atPlane := p1\<rparr>) else s\<lparr>atPlane := p1\<rparr>)"
  define s3 where "s3 = createAll A toCreate s2"
  have s': "e = None" "s' = teardownAll A toDelete s3" using converge_listed [OF l r, of ens] cv by (simp_all add: s2_def s3_def)
  have s2: "atCluster s2 = atCluster s" by (simp add: s2_def)
  have Q2: "Q (atPlane s2)" using ensureEntries_done [OF srv, of "s\<lparr>atPlane := p1\<rparr>" "ensureEntryFor desired actual"] Q want
    by (auto simp: s2_def ensureEntryFor_def Let_def)
  have cr: "rec \<in> set toCreate \<Longrightarrow> rec \<in> set desired \<and> shouldRun rec" for rec using reconcile_parts(1) [OF ord r] wantOf_Some by blast
  have here: "w \<in> set actual \<longleftrightarrow> (\<exists>ob. crs (atCluster s) (lwAgentID w) = Some ob \<and> managed ob \<and> lwAgentType w = awAgentType (obWorkload ob))" for w
    using store_list [of "atCluster s" actual w] l(2) A by simp
  have dl: "w \<in> set toDelete \<longleftrightarrow> w \<in> set actual \<and> gget (wantOf desired) (lwAgentID w) = None" for w by (rule reconcile_parts(2) [OF ord r])
  have c3: "Q (atPlane s3)" "R (atCluster s3)" "\<And>rec. rec \<in> set toCreate \<Longrightarrow> crs (atCluster s3) (agAgentID rec) \<noteq> None"
    using createAll_done [OF srv rel A Q2, of toCreate] cr want R by (auto simp: s3_def s2)
  have ws: "deletable (lwAgentType w) (lwAgentID w) \<and> identifiable A (lwAgentType w) (lwAgentID w) \<and> named (lwAgentID w)" if w: "w \<in> set toDelete" for w
    using here [of w] dl [of w] w old by auto
  have d: "Q (atPlane s')" "\<And>w. w \<in> set toDelete \<Longrightarrow> \<not> runs (crs (atCluster s')) (lwAgentID w)"
    using teardownAll_done [OF srv rel A c3(1,2), of toDelete] ws by (auto simp: s')
  note cre = createAll_cluster [OF A, of toCreate s2 n, folded s3_def, unfolded s2] and del = teardownAll_cluster [OF A, of toDelete s3 n, folded s'(2)]
  show ?thesis
  proof (intro conjI s'(1) d(1))
    show "runs (crs (atCluster s')) n \<longleftrightarrow>
      (\<exists>rec. gget (wantOf desired) n = Some rec \<and> (runs (crs (atCluster s)) n \<or> crs (atCluster s) n = None \<and> agStatus rec \<noteq> ''revoked''))"
    proof (cases "gget (wantOf desired) n")
      case None
      have same: "crs (atCluster s3) n = crs (atCluster s) n" using cre reconcile_parts(1) [OF ord r] None by auto
      have "\<not> runs (crs (atCluster s')) n"
      proof (cases "\<exists>ob. crs (atCluster s) n = Some ob \<and> managed ob")
        case True
        then obtain ob where "crs (atCluster s) n = Some ob" "managed ob" by blast
        then have "\<lparr>lwAgentID = n, lwAgentType = awAgentType (obWorkload ob)\<rparr> \<in> set toDelete" by (simp add: dl here None)
        from d(2) [OF this] show ?thesis by simp
      next
        case False
        then show ?thesis using del same dl here by (auto simp: runs_def split: option.splits)
      qed
      then show ?thesis using None by simp
    next
      case (Some rec)
      have keep: "crs (atCluster s') n = crs (atCluster s3) n" using del dl Some by auto
      have k: "rec' = rec" if "rec' \<in> set toCreate" "agAgentID rec' = n" for rec' using that reconcile_parts(1) [OF ord r, of rec'] Some by simp
      show ?thesis
      proof (cases "crs (atCluster s) n = None \<and> agStatus rec \<noteq> ''revoked''")
        case True
        have i: "agAgentID rec = n" using wantOf_Some [OF Some] by blast
        have "n \<notin> lwAgentID ` set actual" using here True by auto
        then have "rec \<in> set toCreate" unfolding reconcile_parts(1) [OF ord r, of rec] i using Some True by blast
        from c3(3) [OF this] have "crs (atCluster s3) n = Some (freshObject rec [])" unfolding i using cre True k by auto
        then show ?thesis using keep Some True by (simp add: runs_def freshObject_def managed_def)
      next
        case False
        have "crs (atCluster s3) n = crs (atCluster s) n" using cre k reconcile_parts(1) [OF ord r] False by auto
        then show ?thesis using keep Some False by (auto simp: runs_def)
      qed
    qed
  qed
qed

end

section \<open>Over time\<close>

text \<open>Every managed workload has a name an identity can be built for, so its teardown never fails for want of one.\<close>

definition wellNamed :: "('k, 'p) agent \<Rightarrow> (string \<Rightarrow> clusterObject option) \<Rightarrow> bool" where
  "wellNamed A c = (\<forall>n ob. c n = Some ob \<and> managed ob \<longrightarrow> identifiable A (awAgentType (obWorkload ob)) n)"

definition wellNamedObject :: "('k, 'p) agent \<Rightarrow> string \<Rightarrow> clusterObject option \<Rightarrow> bool" where
  "wellNamedObject A n x = (\<forall>ob. x = Some ob \<and> managed ob \<longrightarrow> identifiable A (awAgentType (obWorkload ob)) n)"

lemma wellNamed_each: "wellNamed A c \<longleftrightarrow> (\<forall>n. wellNamedObject A n (c n))"
  by (auto simp: wellNamed_def wellNamedObject_def)

lemma wellNamedObject_simps [simp]: "wellNamedObject A n None"
  "identifiable A (agAgentType rec) n \<Longrightarrow> wellNamedObject A n (Some (freshObject rec task))"
  "wellNamedObject A n (Some (ob\<lparr>obDeleting := b\<rparr>)) = wellNamedObject A n (Some ob)"
  by (simp_all add: wellNamedObject_def freshObject_def workloadFor_def managed_def)

context workload_store
begin

lemma materialize_named:
  assumes "sgStore A = S" and "wellNamed A (crs (atCluster s))"
  shows "wellNamed A (crs (atCluster (snd (materialize A rec task s))))"
proof -
  obtain e s' where "materialize A rec task s = (e, s')" by force
  from materialize_cluster [OF assms(1) this] assms(2) this show ?thesis unfolding wellNamed_each by (elim disjE conjE) auto
qed

lemma teardown_named:
  assumes "sgStore A = S" and "wellNamed A (crs (atCluster s))"
  shows "wellNamed A (crs (atCluster (snd (teardown A w s))))"
proof -
  obtain e s' where t: "teardown A w s = (e, s')" by force
  have "crs (atCluster s') n = crs (atCluster s) n \<or> (\<exists>ob. crs (atCluster s) n = Some ob \<and> crs (atCluster s') n \<in> {None, Some (ob\<lparr>obDeleting := True\<rparr>)})" for n
    using teardown_cluster [OF assms(1) t] by (elim disjE exE conjE) auto
  then show ?thesis using assms(2) t wellNamedObject_simps(1,3) unfolding wellNamed_each by (metis insertE singletonD snd_conv)
qed

lemma converge_named:
  assumes "sgStore A = S" and wn: "wellNamed A (crs (atCluster s))"
  shows "wellNamed A (crs (atCluster (snd (converge ord A ens s))))"
proof (cases "\<exists>desired p1 actual. cpListDesired (sgPlane A) (atPlane s) = (Inr desired, p1) \<and> wsList (sgStore A) (atCluster s) = Inr actual")
  case True
  then obtain desired p1 actual where l: "cpListDesired (sgPlane A) (atPlane s) = (Inr desired, p1)" "wsList (sgStore A) (atCluster s) = Inr actual" by blast
  obtain toCreate toDelete where r: "reconcile ord desired actual = (toCreate, toDelete)" by force
  have cr: "wellNamed A (crs (atCluster (createAll A recs t)))" if "wellNamed A (crs (atCluster t))" for recs t
    using that by (induction recs arbitrary: t) (simp_all add: materialize_named [OF assms(1)])
  have td: "wellNamed A (crs (atCluster (teardownAll A ws t)))" if "wellNamed A (crs (atCluster t))" for ws t
    using that
  proof (induction ws arbitrary: t)
    case (Cons w ws)
    have "wellNamed A (crs (atCluster (snd (teardown A w t))))" by (rule teardown_named [OF assms(1) Cons.prems])
    then show ?case by (auto split: prod.splits option.splits intro!: Cons.IH)
  qed simp
  show ?thesis unfolding converge_listed [OF l r] by (simp add: td cr wn)
next
  case False
  then show ?thesis using converge_unlisted [of A s ord ens] wn by auto
qed

lemma handle_named:
  assumes "sgStore A = S" and "wellNamed A (crs (atCluster s))"
  shows "wellNamed A (crs (atCluster (handleSpawn_sub A cmd s)))" and "wellNamed A (crs (atCluster (handleKill A n s)))"
  using materialize_named [OF assms(1)] teardown_named [OF assms] assms(2)
  by (simp_all add: handleSpawn_sub_def handleKill_def split: sum.split option.split)

lemma agentStep_named:
  assumes "agentStep A s s'" and "sgStore A = S" and "wellNamed A (crs (atCluster s))"
  shows "wellNamed A (crs (atCluster s'))"
  using assms(1)
proof cases
  case (dispatch d)
  then show ?thesis using handle_named [OF assms(2,3)] assms(3) by (auto simp: handleDown_def split: if_splits)
qed (use assms converge_named [OF assms(2)] in \<open>simp_all add: opened_def reconcileOnConnect_def reconcileOnce_def\<close>)

end

text \<open>A frame that passed validation is dispatched without a nil dereference.\<close>

lemma handleDown_valid: "ValidateDown d = None \<Longrightarrow> \<exists>s'. handleDown A d s = Some s'"
  by (auto simp: ValidateDown_def handleDown_def split: if_splits option.splits)

text \<open>The waits between connections lie within the configured bounds, also at the width of a Go duration.\<close>

lemma serveWaits_bounded:
  assumes "0 < dlBackoffMin d" and "dlBackoffMin d \<le> dlBackoffMax d" and "dlBackoffMax d < 2 ^ 62"
    and "dlBackoffMin d \<le> b" and "b \<le> dlBackoffMax d" and "wait \<in> set (serveWaits d b cs)"
  shows "dlBackoffMin d \<le> wait \<and> wait \<le> dlBackoffMax d"
  using assms(4-)
proof (induction cs arbitrary: b)
  case (Cons c cs)
  let ?b = "if c then dlBackoffMin d else b"
  have b: "dlBackoffMin d \<le> ?b" "?b \<le> dlBackoffMax d" using Cons.prems assms(2) by auto
  then have "wrap64 (?b * 2) = ?b * 2" using assms(1,3) by (simp add: wrap64_def)
  then have "dlBackoffMin d \<le> grownBackoff d ?b" "grownBackoff d ?b \<le> dlBackoffMax d" using b assms(1,2) by (auto simp: grownBackoff_def Let_def)
  then show ?case using Cons.IH [of "grownBackoff d ?b"] Cons.prems(3) b by (auto simp: Let_def split: if_splits)
qed simp

lemma serve_default_waits: "wait \<in> set (serve \<lparr>dlHeartbeat = 0, dlBackoffMin = 0, dlBackoffMax = 0, dlReconcile = 0\<rparr> cs) \<Longrightarrow> second \<le> wait \<and> wait \<le> 30 * second"
  using serveWaits_bounded [of "withDefaults \<lparr>dlHeartbeat = 0, dlBackoffMin = 0, dlBackoffMax = 0, dlReconcile = 0\<rparr>" second wait cs]
  by (simp add: serve_def withDefaults_def second_def)

end
