(* ===== verification/SubstrateConverge.thy ===== *)
theory SubstrateConverge
  imports SubstrateAgent
begin

text \<open>
  The substrate agent against the real control plane: its requests go to the Entry API of the orchestrator, which asks the registry
  and drives an entry broker.
\<close>

section \<open>The agent's requests\<close>

definition ownRecord :: "store \<Rightarrow> string \<Rightarrow> string \<Rightarrow> bool" where
  "ownRecord s org n = (case gget (stAgents s) n of None \<Rightarrow> False | Some rec \<Rightarrow> NormalizeOrgID (agOrgID rec) = Some org)"

definition foreignRecord :: "store \<Rightarrow> string \<Rightarrow> string \<Rightarrow> bool" where
  "foreignRecord s org n = (case gget (stAgents s) n of None \<Rightarrow> False | Some rec \<Rightarrow> NormalizeOrgID (agOrgID rec) \<noteq> Some org)"

text \<open>
  An agent set up as \<open>main.go\<close> does: it calls the routes of the orchestrator with credentials that the orchestrator accepts as those of the
  substrate agent of its organization, which is connected, and its node is one of the organization's.
\<close>

definition connectedAgent ::
  "((store, 'd) world, 'b) substrateAPI \<Rightarrow> 'b EntryBroker \<Rightarrow> ('k, (store, 'd) world \<times> 'b) agent \<Rightarrow> (store, 'd) world \<Rightarrow> bool" where
  "connectedAgent api B A w \<longleftrightarrow>
     (\<exists>D oddPath. saServer api = registryServer memStore D oddPath) \<and> saBroker api = Some B \<and> saTrustDomain api = sgTrustDomain A \<and>
     (\<exists>auth fetch audience. saAuth api = Some auth \<and> sgPlane A = cpClient fetch audience (entryRoutes api) \<and>
        (\<forall>p. \<exists>tok. fetch audience p = Inr tok \<and> auth (''Bearer '' @ tok) = Inr (sgOrg A))) \<and>
     NormalizeOrgID (sgOrg A) = Some (sgOrg A) \<and> nodeOf (sgTrustDomain A) (sgOrg A) (sgNodeID A) \<and> sgNamespace A \<noteq> [] \<and>
     (\<exists>r. gget (stOrgs (wStore w)) (sgOrg A) = Some r \<and> orgSubstrate r \<noteq> None) \<and> agentsWf (wStore w)"

definition entryOf :: "('k, 'p) agent \<Rightarrow> string \<Rightarrow> string \<Rightarrow> EntrySpec" where
  "entryOf A i n = \<lparr>esSPIFFEID = i, esParentID = sgNodeID A, esSelectors = workloadSelectors (sgNamespace A) n (sgServiceAccount A)\<rparr>"

lemma RecordOrg_mem:
  assumes "agentsWf (wStore w)"
  shows "RecordOrg (registryServer memStore D oddPath) n w = (Inr (map_option agOrgID (gget (stAgents (wStore w)) n)), w)"
proof (cases "gget (stAgents (wStore w)) n")
  case None
  then show ?thesis by (simp add: RecordOrg_def HTTPClient_def registryServer_def onFst_def handleGetAgent_def memStore_def getAgent_def notFound_def)
next
  case (Some rec)
  then have "agAgentID rec \<noteq> []" using assms by (auto simp: agentsWf_def dest!: gget_in_set)
  then show ?thesis using Some by (simp add: RecordOrg_def HTTPClient_def registryServer_def onFst_def handleGetAgent_def memStore_def getAgent_def)
qed

lemma workloadSelectors_valid: "namespace \<noteq> [] \<Longrightarrow> validateSelectors (workloadSelectors namespace n sa)"
  by (simp add: validateSelectors_def workloadSelectors_def bindsSelector_def selNamespace_def selPodName_def selServiceAccount_def has_prefix_def)

lemma workloadSpiffeID_parses:
  assumes "workloadSpiffeID td org ty n = Inr i"
  shows "td \<noteq> [] \<and> i \<noteq> [] \<and> org \<noteq> [] \<and> n \<noteq> [] \<and> ParsePath i = Inr \<lparr>psTrustDomain = td, psOrgID = org, psAgentID = n, psSubstrateAgent = False\<rparr>"
  using org_path_parses [of td org "[ty, n]" i] assms
  by (auto simp: workloadSpiffeID_def BuildOrgAgentPath_def validSegment_def spiffeScheme_def split: if_splits)

lemma request_authorized:
  assumes "connectedAgent api B A w" and i: "workloadSpiffeID (sgTrustDomain A) (sgOrg A) ty n = Inr i"
  shows "authorizeWorkload (saServer api) (saTrustDomain api) (sgOrg A) (entryOf A i n) w =
    (if ownRecord (wStore w) (sgOrg A) n then None else Some EntryUnauthorized, w)"
proof -
  from assms(1) obtain D oddPath where h: "saServer api = registryServer memStore D oddPath" "saTrustDomain api = sgTrustDomain A"
    "NormalizeOrgID (sgOrg A) = Some (sgOrg A)" "nodeOf (sgTrustDomain A) (sgOrg A) (sgNodeID A)" "sgNamespace A \<noteq> []" "agentsWf (wStore w)"
    unfolding connectedAgent_def by blast
  show ?thesis using workloadSpiffeID_parses [OF i] h(3-5) workloadSelectors_valid [OF h(5)]
    by (simp add: authorizeWorkload_def h(1,2) entryOf_def RecordOrg_mem [OF h(6)] ownRecord_def split: option.split)
qed

lemma caller_admitted:
  assumes "connectedAgent api B A w" and "saAuth api = Some auth" and "auth authz = Inr (sgOrg A)"
  shows "authEntryCaller api authz w = (Inr (sgOrg A, B), w)"
  using assms by (auto simp: connectedAgent_def authEntryCaller_def fetchOrg_def registryServer_def onFst_def handleGetOrg_def morg.get_org)

lemma plane_create:
  assumes "connectedAgent api B A w" and i: "workloadSpiffeID (sgTrustDomain A) (sgOrg A) ty n = Inr i"
  shows "if ownRecord (wStore w) (sgOrg A) n
    then (fst (entryRequest A i n (w, b)) = None \<longleftrightarrow> fst (ebCreate B (entryOf A i n) b) = None) \<and>
      snd (entryRequest A i n (w, b)) = (w, snd (ebCreate B (entryOf A i n) b))
    else fst (entryRequest A i n (w, b)) \<noteq> None \<and> snd (entryRequest A i n (w, b)) = (w, b)"
proof -
  from assms(1) obtain auth fetch audience tok where p: "saAuth api = Some auth" "sgPlane A = cpClient fetch audience (entryRoutes api)"
    "fetch audience (w, b) = Inr tok" "auth (''Bearer '' @ tok) = Inr (sgOrg A)"
    unfolding connectedAgent_def by meson
  have a: "(authEntryCaller api (''Bearer '' @ tok) w :: (unit http + _) \<times> _) = (Inr (sgOrg A, B), w)" by (rule caller_admitted [OF assms(1) p(1,4)])
  obtain e b' where c: "ebCreate B (entryOf A i n) b = (e, b')" by force
  have "entryRequest A i n (w, b) = onFst (\<lambda>x. checked ''POST /v1/substrate/entries'' (\<lambda>n. n = 201) (Inr x)) (createEntry api (''Bearer '' @ tok) (Inr (entryOf A i n)) (w, b))"
    using p by (simp add: entryRequest_def cpClient_def planeCreateEntry_def authed_def svid_def entryRoutes_def onFst_def entryOf_def)
  then show ?thesis using request_authorized [OF assms] a c
    by (auto simp: createEntry_def CreateWorkloadEntry_def brokered_def onFst_def checked_def split: option.split)
qed

lemma plane_delete:
  assumes "connectedAgent api B A w" and i: "workloadSpiffeID (sgTrustDomain A) (sgOrg A) ty n = Inr i"
  shows "if foreignRecord (wStore w) (sgOrg A) n
    then fst (cpDeleteEntry (sgPlane A) i (w, b)) \<noteq> None \<and> snd (cpDeleteEntry (sgPlane A) i (w, b)) = (w, b)
    else (fst (cpDeleteEntry (sgPlane A) i (w, b)) = None \<longleftrightarrow> fst (ebDelete B i b) = None) \<and>
      snd (cpDeleteEntry (sgPlane A) i (w, b)) = (w, snd (ebDelete B i b))"
proof -
  from assms(1) obtain auth fetch audience tok where p: "saAuth api = Some auth" "sgPlane A = cpClient fetch audience (entryRoutes api)"
    "fetch audience (w, b) = Inr tok" "auth (''Bearer '' @ tok) = Inr (sgOrg A)"
    unfolding connectedAgent_def by meson
  from assms(1) obtain D oddPath where h: "saServer api = registryServer memStore D oddPath" "saTrustDomain api = sgTrustDomain A"
    "NormalizeOrgID (sgOrg A) = Some (sgOrg A)" "agentsWf (wStore w)"
    unfolding connectedAgent_def by blast
  have a: "(authEntryCaller api (''Bearer '' @ tok) w :: (unit http + _) \<times> _) = (Inr (sgOrg A, B), w)" by (rule caller_admitted [OF assms(1) p(1,4)])
  obtain e b' where c: "ebDelete B i b = (e, b')" by force
  have "DeleteWorkloadEntry (saServer api) B (saTrustDomain api) (sgOrg A) i (w, b) =
      (if foreignRecord (wStore w) (sgOrg A) n then (Some EntryUnauthorized, w, b) else (map_option EntryFailed e, w, b'))"
    using workloadSpiffeID_parses [OF i] h(3) c
    by (simp add: DeleteWorkloadEntry_def h(1,2) RecordOrg_mem [OF h(4)] foreignRecord_def brokered_def split: option.split)
  moreover have "cpDeleteEntry (sgPlane A) i (w, b) = onFst (\<lambda>x. checked ''DELETE /v1/substrate/entries'' (\<lambda>n. n = 204) (Inr x)) (deleteEntry api (''Bearer '' @ tok) i (w, b))"
    using p by (simp add: cpClient_def planeDeleteEntry_def authed_def svid_def entryRoutes_def onFst_def)
  ultimately show ?thesis using a c workloadSpiffeID_parses [OF i]
    by (auto simp: deleteEntry_def onFst_def checked_def split: option.split)
qed

lemma plane_list:
  assumes "connectedAgent api B A w"
  shows "cpListDesired (sgPlane A) (w, b) =
    (Inr (filter (\<lambda>a. agPlacement a = PlacementSubstrate \<and> NormalizeOrgID (agOrgID a) = Some (sgOrg A)) (listAgents (wStore w))), w, b)"
proof -
  from assms(1) obtain auth fetch audience tok where p: "saAuth api = Some auth" "sgPlane A = cpClient fetch audience (entryRoutes api)"
    "fetch audience (w, b) = Inr tok" "auth (''Bearer '' @ tok) = Inr (sgOrg A)"
    unfolding connectedAgent_def by meson
  from assms(1) obtain D oddPath where h: "saServer api = registryServer memStore D oddPath" "NormalizeOrgID (sgOrg A) = Some (sgOrg A)"
    unfolding connectedAgent_def by blast
  have a: "(authEntryCaller api (''Bearer '' @ tok) w :: (AgentRecord list http + _) \<times> _) = (Inr (sgOrg A, B), w)" by (rule caller_admitted [OF assms(1) p(1,4)])
  show ?thesis using a h(2)
    by (simp add: p(2,3) cpClient_def planeListDesired_def authed_def svid_def entryRoutes_def listSubstrateAgents_def onFst_def h(1)
        HTTPClient_def registryServer_def handleListAgents_def memStore_def)
qed

section \<open>Reconciliation\<close>

abbreviation inNamespace :: "('k \<Rightarrow> string \<times> string \<Rightarrow> clusterObject option) \<Rightarrow> string \<Rightarrow> 'k \<Rightarrow> string \<Rightarrow> clusterObject option" where
  "inNamespace objs ns k \<equiv> \<lambda>n. objs k (ns, n)"

context kube_client
begin

lemmas namespace_delta = kube.converge_delta
lemmas namespace_reaches = kube.converge_reaches
lemmas namespace_materialize = kube.materialize_cluster

end

text \<open>
  C21: reconciliation is safe. Whatever fails at the control plane or in the cluster, and in whatever order Go ranges over its map: a
  reconciliation of a substrate agent adds to its namespace only workloads of records on the list it got that should run and are not revoked, with exactly the
  fields of the record and where there was none of that name before, and it removes, or marks for deletion, only workloads
  with its own label for which no record on the list should run. Without a list it touches nothing.
\<close>

theorem reconcile_touches_only_delta:
  assumes "kube_client K objs" and "sgStore A = k8sWorkloadStore K (sgNamespace A)" and "rangeOrder ord"
    and "converge ord A ens s = (e, s')" and "objs (atCluster s') (sgNamespace A, n) \<noteq> objs (atCluster s) (sgNamespace A, n)"
  shows "\<exists>desired p1. cpListDesired (sgPlane A) (atPlane s) = (Inr desired, p1) \<and>
     ((objs (atCluster s) (sgNamespace A, n) = None \<and> (\<exists>rec \<in> set desired. agAgentID rec = n \<and> shouldRun rec \<and> agStatus rec \<noteq> ''revoked'' \<and>
         objs (atCluster s') (sgNamespace A, n) = Some (freshObject rec []))) \<or>
      (\<exists>ob. objs (atCluster s) (sgNamespace A, n) = Some ob \<and> managed ob \<and> (\<forall>rec \<in> set desired. agAgentID rec = n \<longrightarrow> \<not> shouldRun rec) \<and>
         objs (atCluster s') (sgNamespace A, n) \<in> {None, Some (ob\<lparr>obDeleting := True\<rparr>)}))"
  by (rule kube_client.namespace_delta [OF assms])

text \<open>
  What convergence needs of the cluster and of the broker is asked for the requests of this agent only: for the records it wants and the workloads that carry its label, and from the states
  that the requests themselves lead to.
\<close>

definition reliableCluster ::
  "'k clusterClient \<Rightarrow> string \<Rightarrow> ('k \<Rightarrow> bool) \<Rightarrow> (AgentRecord \<Rightarrow> bool) \<Rightarrow> (string \<Rightarrow> bool) \<Rightarrow> bool" where
  "reliableCluster K ns R wanted named \<longleftrightarrow>
     (\<forall>rec task k. R k \<and> wanted rec \<longrightarrow> (\<forall>m. fst (ccCreate K ns [(managedLabel, ''true'')] (workloadFor rec task) k) \<noteq> CreateError m) \<and>
        R (snd (ccCreate K ns [(managedLabel, ''true'')] (workloadFor rec task) k))) \<and>
     (\<forall>n k. R k \<and> named n \<longrightarrow> (\<forall>m. fst (ccDelete K ns n k) \<noteq> Some (K8sError m)) \<and> R (snd (ccDelete K ns n k))) \<and>
     (\<forall>k. R k \<longrightarrow> (\<exists>aws. ccList K ns (managedLabel, ''true'') k = Inr aws))"

definition carriesOut :: "'b EntryBroker \<Rightarrow> ('k, 'p) agent \<Rightarrow> ('b \<Rightarrow> bool) \<Rightarrow> (string \<Rightarrow> string \<Rightarrow> bool) \<Rightarrow> bool" where
  "carriesOut B A ok known \<longleftrightarrow>
     (\<forall>ty n i b. ok b \<and> known ty n \<and> workloadSpiffeID (sgTrustDomain A) (sgOrg A) ty n = Inr i \<longrightarrow>
        fst (ebCreate B (entryOf A i n) b) = None \<and> ok (snd (ebCreate B (entryOf A i n) b)) \<and>
        fst (ebDelete B i b) = None \<and> ok (snd (ebDelete B i b)))"

lemma reliable_store:
  assumes "reliableCluster K ns R wanted named"
  shows "reliableStore (k8sWorkloadStore K ns) R wanted named" and "R k \<Longrightarrow> \<exists>ws. wsList (k8sWorkloadStore K ns) k = Inr ws"
proof -
  have "fst (storeCreate K ns rec task k) = None \<and> R (snd (storeCreate K ns rec task k))" if "R k" "wanted rec" for rec task k
  proof -
    obtain r k' where c: "ccCreate K ns [(managedLabel, ''true'')] (workloadFor rec task) k = (r, k')" by force
    then have "\<forall>m. r \<noteq> CreateError m" "R k'" using assms that unfolding reliableCluster_def by (metis fst_conv, metis snd_conv)
    then show ?thesis using c by (cases r) (auto simp: storeCreate_def)
  qed
  moreover have "(\<exists>found. fst (storeDelete K ns n k) = Inr found) \<and> R (snd (storeDelete K ns n k))" if "R k" "named n" for n k
  proof -
    obtain r k' where d: "ccDelete K ns n k = (r, k')" by force
    then have "\<forall>m. r \<noteq> Some (K8sError m)" "R k'" using assms that unfolding reliableCluster_def by (metis fst_conv, metis snd_conv)
    then show ?thesis using d by (auto simp: storeDelete_def split: option.splits k8s_error.splits)
  qed
  ultimately show "reliableStore (k8sWorkloadStore K ns) R wanted named" by (simp add: reliableStore_def k8sWorkloadStore_def)
  assume "R k"
  then obtain aws where "ccList K ns (managedLabel, ''true'') k = Inr aws" using assms unfolding reliableCluster_def by blast
  then show "\<exists>ws. wsList (k8sWorkloadStore K ns) k = Inr ws" by (simp add: k8sWorkloadStore_def storeList_def)
qed

lemma plane_serves:
  fixes A :: "('k, (store, 'd) world \<times> 'b) agent"
  assumes "connectedAgent api B A w" and "carriesOut B A ok known"
  shows "serves A (\<lambda>p. fst p = w \<and> ok (snd p)) (\<lambda>ty n. known ty n \<and> ownRecord (wStore w) (sgOrg A) n)
    (\<lambda>ty n. known ty n \<and> \<not> foreignRecord (wStore w) (sgOrg A) n)"
  unfolding serves_def
proof (intro allI impI)
  fix p :: "(store, 'd) world \<times> 'b" and ty n i
  assume p: "fst p = w \<and> ok (snd p)" and i: "workloadSpiffeID (sgTrustDomain A) (sgOrg A) ty n = Inr i"
  obtain b where b: "p = (w, b)" "ok b" using p by (cases p) simp
  have c: "fst (ebCreate B (entryOf A i n) b) = None \<and> ok (snd (ebCreate B (entryOf A i n) b)) \<and> fst (ebDelete B i b) = None \<and> ok (snd (ebDelete B i b))"
    if "known ty n" using assms(2) b(2) i that unfolding carriesOut_def by blast
  show "(known ty n \<and> ownRecord (wStore w) (sgOrg A) n \<longrightarrow>
        fst (entryRequest A i n p) = None \<and> fst (snd (entryRequest A i n p)) = w \<and> ok (snd (snd (entryRequest A i n p)))) \<and>
      (known ty n \<and> \<not> foreignRecord (wStore w) (sgOrg A) n \<longrightarrow>
        fst (cpDeleteEntry (sgPlane A) i p) = None \<and> fst (snd (cpDeleteEntry (sgPlane A) i p)) = w \<and> ok (snd (snd (cpDeleteEntry (sgPlane A) i p))))"
    using plane_create [OF assms(1) i, of b] plane_delete [OF assms(1) i, of b] c by (simp add: b(1))
qed

text \<open>The wanted records are those of the registry.\<close>

definition placedHere :: "store \<Rightarrow> string \<Rightarrow> string \<Rightarrow> AgentRecord \<Rightarrow> bool" where
  "placedHere s org n rec \<longleftrightarrow> gget (stAgents s) n = Some rec \<and> agPlacement rec = PlacementSubstrate \<and> NormalizeOrgID (agOrgID rec) = Some org \<and> shouldRun rec"

lemma wanted_records:
  assumes "agentsWf st"
  shows "gget (wantOf (filter (\<lambda>a. agPlacement a = PlacementSubstrate \<and> NormalizeOrgID (agOrgID a) = Some org) (listAgents st))) n = Some rec \<longleftrightarrow> placedHere st org n rec"
proof -
  let ?d = "filter (\<lambda>a. agPlacement a = PlacementSubstrate \<and> NormalizeOrgID (agOrgID a) = Some org) (listAgents st)"
  have mem: "r \<in> set ?d \<and> shouldRun r \<longleftrightarrow> placedHere st org (agAgentID r) r" for r
  proof -
    have "r \<in> set (gvals (stAgents st)) \<longleftrightarrow> gget (stAgents st) (agAgentID r) = Some r"
      using gvals_gget [of "stAgents st" r] assms agentsWf_id [OF assms] unfolding agentsWf_def by blast
    then show ?thesis by (auto simp: listAgents_def placedHere_def shouldRun_def split: if_splits)
  qed
  show ?thesis
  proof
    assume "gget (wantOf ?d) n = Some rec"
    then show "placedHere st org n rec" using wantOf_Some mem [of rec] by blast
  next
    assume p: "placedHere st org n rec"
    then have n: "agAgentID rec = n" using agentsWf_id [OF assms] by (auto simp: placedHere_def)
    then have "gget (wantOf ?d) n \<noteq> None" using mem [of rec] p by (auto simp: wantOf_None)
    then obtain r where r: "gget (wantOf ?d) n = Some r" by blast
    then have "placedHere st org n r" using wantOf_Some mem [of r] by blast
    then show "gget (wantOf ?d) n = Some rec" using r p by (simp add: placedHere_def)
  qed
qed

text \<open>The agents a reconciliation may name to the control plane: those of the wanted records and those of the labelled workloads.\<close>

definition heldHere :: "('k \<Rightarrow> string \<times> string \<Rightarrow> clusterObject option) \<Rightarrow> string \<Rightarrow> 'k \<Rightarrow> string \<Rightarrow> clusterObject \<Rightarrow> bool" where
  "heldHere objs ns k n ob \<longleftrightarrow> objs k (ns, n) = Some ob \<and> managed ob"

definition concerned ::
  "('k \<Rightarrow> string \<times> string \<Rightarrow> clusterObject option) \<Rightarrow> ('k, 'p) agent \<Rightarrow> store \<Rightarrow> 'k \<Rightarrow> string \<Rightarrow> string \<Rightarrow> bool" where
  "concerned objs A st k ty n \<longleftrightarrow> (\<exists>rec. placedHere st (sgOrg A) n rec \<and> agAgentType rec = ty) \<or>
     (\<exists>ob. heldHere objs (sgNamespace A) k n ob \<and> awAgentType (obWorkload ob) = ty)"

text \<open>
  C19: the records are the desired state. A substrate agent is connected to the Entry API of a registry with the in-memory store. Assume that the cluster and the
  entry broker carry out the requests of this agent, that an identity can be built for every wanted record and every labelled workload, and that no labelled workload
  has the id of another organization's record. Then one reconciliation, on connect or periodic, ends without an error, leaves the registry as it is,
  and afterwards the workloads that run are exactly those of the records of the registry that are placed on this
  organization's substrate and should run, and that ran before or for which there was no object of that name and the record is not revoked. So terminal, dismissed, removed and
  moved agents are torn down, a revoked one keeps its workload but is never materialized, and every other one runs, unless an object of its name
  that the agent does not manage or that is being deleted is in the way.
\<close>

theorem substrate_converges_to_records:
  assumes "kube_client K objs" and "sgStore A = k8sWorkloadStore K (sgNamespace A)" and "rangeOrder ord"
    and "connectedAgent api B A w" and "atPlane s = (w, b)" and "R (atCluster s)" and "ok b"
    and "reliableCluster K (sgNamespace A) R (\<lambda>rec. placedHere (wStore w) (sgOrg A) (agAgentID rec) rec) (\<lambda>n. \<exists>ob. heldHere objs (sgNamespace A) (atCluster s) n ob)"
    and "carriesOut B A ok (concerned objs A (wStore w) (atCluster s))"
    and "\<And>ty n. concerned objs A (wStore w) (atCluster s) ty n \<Longrightarrow> identifiable A ty n"
    and "\<And>n ob. heldHere objs (sgNamespace A) (atCluster s) n ob \<Longrightarrow> \<not> foreignRecord (wStore w) (sgOrg A) n"
    and "converge ord A ens s = (e, s')"
  shows "e = None \<and> fst (atPlane s') = w \<and>
    (runs (inNamespace objs (sgNamespace A) (atCluster s')) n \<longleftrightarrow>
      (\<exists>rec. placedHere (wStore w) (sgOrg A) n rec \<and>
        (runs (inNamespace objs (sgNamespace A) (atCluster s)) n \<or>
         objs (atCluster s) (sgNamespace A, n) = None \<and> agStatus rec \<noteq> ''revoked'')))"
proof -
  have wf: "agentsWf (wStore w)" using assms(4) by (simp add: connectedAgent_def)
  let ?d = "filter (\<lambda>a. agPlacement a = PlacementSubstrate \<and> NormalizeOrgID (agOrgID a) = Some (sgOrg A)) (listAgents (wStore w))"
  let ?known = "concerned objs A (wStore w) (atCluster s)"
  obtain actual where l: "wsList (sgStore A) (atCluster s) = Inr actual" using reliable_store(2) [OF assms(8,6)] assms(2) by metis
  note rel = reliable_store(1) [OF assms(8), folded assms(2)]
  have want: "(?known (agAgentType rec) (agAgentID rec) \<and> ownRecord (wStore w) (sgOrg A) (agAgentID rec)) \<and> identifiable A (agAgentType rec) (agAgentID rec) \<and>
      placedHere (wStore w) (sgOrg A) (agAgentID rec) rec" if "rec \<in> set ?d" "shouldRun rec" for rec
  proof -
    have p: "placedHere (wStore w) (sgOrg A) (agAgentID rec) rec"
      using that wf gvals_gget [of "stAgents (wStore w)" rec] agentsWf_id [OF wf] by (auto simp: placedHere_def listAgents_def agentsWf_def)
    then have "?known (agAgentType rec) (agAgentID rec)" by (auto simp: concerned_def)
    then show ?thesis using assms(10) p by (simp add: placedHere_def ownRecord_def)
  qed
  have old: "(?known (awAgentType (obWorkload ob)) n \<and> \<not> foreignRecord (wStore w) (sgOrg A) n) \<and> (\<exists>ob. heldHere objs (sgNamespace A) (atCluster s) n ob) \<and>
      identifiable A (awAgentType (obWorkload ob)) n" if "objs (atCluster s) (sgNamespace A, n) = Some ob" "managed ob" for n ob
  proof -
    have h: "heldHere objs (sgNamespace A) (atCluster s) n ob" using that by (simp add: heldHere_def)
    then have "?known (awAgentType (obWorkload ob)) n" by (auto simp: concerned_def)
    then show ?thesis using assms(10) assms(11) [OF h] h by blast
  qed
  have "fst (w, b) = w \<and> ok (snd (w, b))" using assms(7) by simp
  note reach = kube_client.namespace_reaches [OF assms(1) plane_serves [OF assms(4,9)] rel assms(2,3)
      plane_list [OF assms(4), of b, folded assms(5)] l this [folded assms(5)] assms(6) want old assms(12)]
  have "e = None \<and> (fst (atPlane s') = w \<and> ok (snd (atPlane s'))) \<and> (runs (inNamespace objs (sgNamespace A) (atCluster s')) n \<longleftrightarrow>
    (\<exists>rec. gget (wantOf ?d) n = Some rec \<and> (runs (inNamespace objs (sgNamespace A) (atCluster s)) n \<or>
       objs (atCluster s) (sgNamespace A, n) = None \<and> agStatus rec \<noteq> ''revoked'')))"
    by (rule reach)
  then show ?thesis unfolding wanted_records [OF wf] by blast
qed

text \<open>
  The production broker carries out the requests of an agent whenever the SPIRE server does not fail and the parser of SPIFFE ids accepts the node and the identities
  of the agents concerned.
\<close>

definition serverUp :: "'c EntryAPI \<Rightarrow> bool" where
  "serverUp E \<longleftrightarrow> (\<forall>e c. fst (BatchCreateEntry E [e] c) \<in> {Inr [CodeOK], Inr [CodeAlreadyExists]}) \<and>
     (\<forall>f tok c. \<exists>page. fst (ListEntries E f listPageSize tok c) = Inr page) \<and>
     (\<forall>ids c. \<exists>results. fst (BatchDeleteEntry E ids c) = Inr results \<and> firstFailure results = None)"

lemma workloadSelectors_parse: "ns \<noteq> [] \<Longrightarrow> n \<noteq> [] \<Longrightarrow> \<exists>sels. parseSelectors (workloadSelectors ns n sa) = Inr sels"
  by (simp add: parseSelectors_def workloadSelectors_def splitSelector_def Let_def)

context spire_api
begin

lemma listing_succeeds:
  assumes "serverUp E"
  shows "\<exists>ids. listEntryIDs E f keep acc tok c = Some (Inr ids, c)"
proof (induction "rank c tok" arbitrary: tok acc rule: less_induct)
  case less
  obtain es nx where p: "ListEntries E f listPageSize tok c = (Inr (es, nx), c)"
    using assms list_reads [of f listPageSize tok c] unfolding serverUp_def by (metis prod.collapse)
  show ?case
  proof (cases "nx = []")
    case True
    then show ?thesis using p by (subst listEntryIDs.simps) simp
  next
    case False
    then have "rank c nx < rank c tok" using list_ends [of f tok c es nx] p by simp
    from less [OF this] show ?thesis using p False by (subst listEntryIDs.simps) (simp add: Let_def)
  qed
qed

lemma grpc_carries_out:
  assumes "serverUp E" and "sgNamespace G \<noteq> []" and "\<exists>j. fromString (sgNodeID G) = Inr j"
    and "\<And>ty n i. known ty n \<Longrightarrow> workloadSpiffeID (sgTrustDomain G) (sgOrg G) ty n = Inr i \<Longrightarrow> \<exists>j. fromString i = Inr j"
  shows "carriesOut (grpcBroker fromString E A) G (\<lambda>_. True) known"
  unfolding carriesOut_def
proof (intro allI impI)
  fix ty n i b
  assume "True \<and> known ty n \<and> workloadSpiffeID (sgTrustDomain G) (sgOrg G) ty n = Inr i"
  then have k: "known ty n" and i: "workloadSpiffeID (sgTrustDomain G) (sgOrg G) ty n = Inr i" by auto
  obtain j where j: "fromString i = Inr j" using assms(4) [OF k i] by blast
  obtain q where q: "fromString (sgNodeID G) = Inr q" using assms(3) by blast
  obtain sels where sels: "parseSelectors (workloadSelectors (sgNamespace G) n (sgServiceAccount G)) = Inr sels"
    using workloadSelectors_parse [OF assms(2)] workloadSpiffeID_parses [OF i] by blast
  let ?e = "\<lparr>aeId = [], aeSpiffeId = j, aeParentId = q, aeSelectors = sels\<rparr>"
  obtain r b1 where c: "BatchCreateEntry E [?e] b = (r, b1)" by force
  then have "r = Inr [CodeOK] \<or> r = Inr [CodeAlreadyExists]" using assms(1) unfolding serverUp_def by (metis fst_conv insertE singletonD)
  then have "fst (ebCreate (grpcBroker fromString E A) (entryOf G i n) b) = None"
    using c j q sels by (auto simp: grpcBroker_def grpcCreateEntry_def parseSPIFFEID_def entryOf_def)
  moreover have "fst (ebDelete (grpcBroker fromString E A) i b) = None"
  proof -
    obtain ids where l: "listEntryIDs E (Some j) (\<lambda>_. True) [] [] b = Some (Inr ids, b)" using listing_succeeds [OF assms(1)] by blast
    obtain r b1 where d: "BatchDeleteEntry E ids b = (r, b1)" by force
    then obtain results where "r = Inr results" "firstFailure results = None" using assms(1) unfolding serverUp_def by (metis fst_conv)
    then show ?thesis using j l d by (simp add: grpcBroker_def grpcDeleteEntry_def parseSPIFFEID_def deleteListed_def batchDelete_def)
  qed
  ultimately show "fst (ebCreate (grpcBroker fromString E A) (entryOf G i n) b) = None \<and> True \<and> fst (ebDelete (grpcBroker fromString E A) i b) = None \<and> True"
    by simp
qed

end

lemma memapi_up: "serverUp memEntryAPI"
proof -
  have "firstFailure (map (\<lambda>i. (i, if i \<in> P then CodeOK else CodeNotFound)) ids) = None" for ids P by (induction ids) auto
  then show ?thesis by (simp add: serverUp_def memEntryAPI_def memCreateAPI_def memListAPI_def memDeleteAPI_def Let_def)
qed

section \<open>A dispatched spawn\<close>

context entry_broker
begin

lemma materialize_live:
  assumes "ok b" and "connectedAgent api B A w" and s: "atPlane s = (w, b)" and m: "materialize A rec task s = (e, s')"
  shows "fst (atPlane s') = w \<and> (\<not> ownRecord (wStore w) (sgOrg A) (agAgentID rec) \<longrightarrow> e \<noteq> None \<and> s' = s) \<and>
    (e = None \<longrightarrow> (\<exists>i. workloadSpiffeID (sgTrustDomain A) (sgOrg A) (agAgentType rec) (agAgentID rec) = Inr i \<and>
       entryOf A i (agAgentID rec) \<in> entries (snd (atPlane s'))))"
proof (cases "workloadSpiffeID (sgTrustDomain A) (sgOrg A) (agAgentType rec) (agAgentID rec)")
  case (Inl x)
  then show ?thesis using m s by (auto simp: materialize_def)
next
  case (Inr i)
  note pc = plane_create [OF assms(2) Inr, of b, folded s] and rq = requestEntry_eq [of A i "agAgentID rec" s]
  show ?thesis
  proof (cases "ownRecord (wStore w) (sgOrg A) (agAgentID rec)")
    case False
    then obtain x where "fst (entryRequest A i (agAgentID rec) (atPlane s)) = Some x" using pc by auto
    moreover have "s\<lparr>atPlane := snd (entryRequest A i (agAgentID rec) (atPlane s))\<rparr> = s" using pc s False by simp
    ultimately have "requestEntry A i (agAgentID rec) s = (Some x, s)" unfolding rq by simp
    then show ?thesis using m Inr False s by (auto simp: materialize_def)
  next
    case True
    then have f: "\<not> foreignRecord (wStore w) (sgOrg A) (agAgentID rec)" by (auto simp: ownRecord_def foreignRecord_def split: option.splits)
    define b1 where "b1 = snd (ebCreate B (entryOf A i (agAgentID rec)) b)"
    have p1: "snd (entryRequest A i (agAgentID rec) (atPlane s)) = (w, b1)" "fst (entryRequest A i (agAgentID rec) (atPlane s)) = None \<Longrightarrow> entryOf A i (agAgentID rec) \<in> entries b1"
      using pc True created [OF assms(1)] by (simp_all add: b1_def)
    show ?thesis using m Inr True f p1 plane_delete [OF assms(2) Inr, of b1]
      by (auto simp: materialize_def rq dropEntry_eq split: option.splits prod.splits)
  qed
qed

end

lemma reported_frames:
  assumes "atSend s = Some q" and "length q < sendCap"
  shows "atSend (report u s) = Some (q @ [u])" and "\<exists>ph msg. atSend (reported i phase (e, s)) = Some (q @ [NewStatus i ph msg]) \<and> (e \<noteq> None \<longrightarrow> ph = PhaseFailed)"
proof -
  show "atSend (report u s) = Some (q @ [u])" for u using assms by (simp add: report_def)
  then show "\<exists>ph msg. atSend (reported i phase (e, s)) = Some (q @ [NewStatus i ph msg]) \<and> (e \<noteq> None \<longrightarrow> ph = PhaseFailed)"
    by (cases e) (auto simp: reported_def)
qed

lemma materialize_queue: "atSend (snd (materialize A rec task s)) = atSend s"
  by (auto simp: materialize_def requestEntry_eq dropEntry_eq split: sum.split option.split prod.split)

text \<open>
  C20: a spawn is bound to a record. A substrate agent handles a spawn frame, over the Entry API with either entry broker (the one that reads printed lists while the entries fit their lines). Whatever the frame says its organization
  is: the only object of the namespace that can change is the one of the agent id in the frame, which did not exist before, and only if
  the registry holds a record of that id for the organization of the agent's own credential; then it is the workload of the frame.
  Without such a record neither the cluster nor the entries change. The registry never changes. The agent reports that it is creating and then one outcome, and
  when it reports the workload as created then the object is there and its SPIRE entry exists, for the identity of that agent in the
  agent's own organization and under its own node.
\<close>

theorem spawn_bound_to_record:
  assumes "kube_client K objs" and "sgStore A = k8sWorkloadStore K (sgNamespace A)" and "goodBroker B entries b"
    and "connectedAgent api B A w" and "atPlane s = (w, b)" and "handleSpawn_sub A cmd s = s'"
  shows "(\<forall>n. objs (atCluster s') (sgNamespace A, n) = objs (atCluster s) (sgNamespace A, n) \<or>
      n = scAgentID cmd \<and> ownRecord (wStore w) (sgOrg A) n \<and> objs (atCluster s) (sgNamespace A, n) = None \<and>
      objs (atCluster s') (sgNamespace A, n) = Some (freshObject (commandRecord (sgOrg A) cmd) (scTask cmd))) \<and>
    fst (atPlane s') = w \<and>
    (\<not> ownRecord (wStore w) (sgOrg A) (scAgentID cmd) \<longrightarrow> atCluster s' = atCluster s \<and> atPlane s' = atPlane s) \<and>
    (\<forall>q. atSend s = Some q \<and> length q + 1 < sendCap \<longrightarrow>
      (\<exists>ph msg. atSend s' = Some (q @ [NewStatus (scAgentID cmd) PhaseCreating [], NewStatus (scAgentID cmd) ph msg]) \<and>
        (ph = PhaseCreated \<longrightarrow> objs (atCluster s') (sgNamespace A, scAgentID cmd) \<noteq> None \<and>
          (\<exists>i. workloadSpiffeID (sgTrustDomain A) (sgOrg A) (scAgentType cmd) (scAgentID cmd) = Inr i \<and>
             entryOf A i (scAgentID cmd) \<in> entries (snd (atPlane s'))))))"
proof -
  let ?i = "scAgentID cmd" and ?ns = "sgNamespace A" and ?rec = "commandRecord (sgOrg A) cmd"
  let ?s1 = "report (NewStatus ?i PhaseCreating []) s"
  obtain e s2 where m: "materialize A ?rec (scTask cmd) ?s1 = (e, s2)" by force
  have s': "s' = reported ?i PhaseCreated (e, s2)" using assms(6) m by (simp add: handleSpawn_sub_def Let_def)
  have ids: "agAgentID ?rec = ?i" "agAgentType ?rec = scAgentType cmd" by (simp_all add: commandRecord_def)
  obtain ok where law: "entry_broker B ok entries" "ok b" using goodBroker_law [OF assms(3)] .
  have "atPlane ?s1 = (w, b)" using assms(5) by simp
  note live = entry_broker.materialize_live [OF law assms(4) this m, unfolded ids] and cl = kube_client.namespace_materialize [OF assms(1,2) m, unfolded ids report_keeps]
  have keep: "atCluster s' = atCluster s2" "atPlane s' = atPlane s2" by (simp_all add: s')
  have objs: "objs (atCluster s') (?ns, n) = objs (atCluster s) (?ns, n) \<or>
      n = ?i \<and> ownRecord (wStore w) (sgOrg A) n \<and> objs (atCluster s) (?ns, n) = None \<and> objs (atCluster s') (?ns, n) = Some (freshObject ?rec (scTask cmd))" for n
  proof (cases "ownRecord (wStore w) (sgOrg A) ?i")
    case True
    from cl show ?thesis unfolding keep by (elim disjE conjE) (auto simp: fun_eq_iff True)
  next
    case False
    then have "s2 = ?s1" using live by blast
    then show ?thesis by (simp add: keep)
  qed
  have frames: "\<exists>ph msg. atSend s' = Some (q @ [NewStatus ?i PhaseCreating [], NewStatus ?i ph msg]) \<and>
        (ph = PhaseCreated \<longrightarrow> objs (atCluster s') (?ns, ?i) \<noteq> None \<and>
          (\<exists>j. workloadSpiffeID (sgTrustDomain A) (sgOrg A) (scAgentType cmd) ?i = Inr j \<and> entryOf A j ?i \<in> entries (snd (atPlane s'))))"
    if q: "atSend s = Some q" "length q + 1 < sendCap" for q
  proof -
    have "atSend s2 = Some (q @ [NewStatus ?i PhaseCreating []])"
      using materialize_queue [of A ?rec "scTask cmd" ?s1] m reported_frames(1) [OF q(1)] q(2) by simp
    from reported_frames(2) [OF this, of ?i PhaseCreated e] q(2) obtain ph msg
      where f: "atSend s' = Some (q @ [NewStatus ?i PhaseCreating [], NewStatus ?i ph msg])" "e \<noteq> None \<longrightarrow> ph = PhaseFailed" by (auto simp: s')
    have "objs (atCluster s2) (?ns, ?i) \<noteq> None" if "e = None" using cl that by (auto simp: fun_eq_iff)
    then show ?thesis using f live unfolding keep by (intro exI [of _ ph] exI [of _ msg]) (auto simp: PhaseFailed_def PhaseCreated_def)
  qed
  show ?thesis using objs live frames unfolding keep by (intro conjI) auto
qed

section \<open>A concrete substrate\<close>

text \<open>Three records of the organization are placed on the substrate; the cluster holds the workload of the completed one.\<close>

definition placedRecord :: "string \<Rightarrow> string \<Rightarrow> AgentRecord" where
  "placedRecord n st = (ownedAgent n [] st)\<lparr>agOrgID := ''acme'', agPlacement := PlacementSubstrate\<rparr>"

definition placedWorld :: "(store, Mock) world" where
  "placedWorld = subStore\<lparr>wStore := (wStore subStore)\<lparr>stAgents :=
     [(''w1'', placedRecord ''w1'' ''pending''), (''w2'', placedRecord ''w2'' ''completed''), (''w3'', placedRecord ''w3'' ''revoked'')]\<rparr>\<rparr>"

definition exAgent :: "(memCluster, (store, Mock) world \<times> memEntries) agent" where
  "exAgent = \<lparr>sgTrustDomain = ''td'', sgOrg = ''acme'', sgNamespace = ''sub'', sgNodeID = ''spiffe://td/spire/agent/x509pop/org/acme/f0'',
     sgServiceAccount = [], sgStore = k8sWorkloadStore memKube ''sub'', sgPlane = cpClient (\<lambda>_ _. Inr ''T'') ''orchestrator'' (entryRoutes exAPI)\<rparr>"

definition exState :: "(memCluster, (store, Mock) world \<times> memEntries) agentState" where
  "exState = \<lparr>atCluster = [(''sub'', freshObject (placedRecord ''w2'' ''completed'') [])], atPlane = (placedWorld, exEntries), atSend = Some []\<rparr>"

abbreviation exBroker :: "memEntries EntryBroker" where
  "exBroker \<equiv> execEntryBroker memCLI []"

lemma placed_wf: "agentsWf (wStore placedWorld)"
  by (simp add: agentsWf_def placedWorld_def placedRecord_def)

lemma exAgent_node: "NormalizeOrgID ''acme'' = Some ''acme'' \<and> nodeOf ''td'' ''acme'' ''spiffe://td/spire/agent/x509pop/org/acme/f0''"
  by code_simp

lemma exAuth: "spiffeSubstrateAuth (\<lambda>tok. if tok = ''T'' then Inr ''spiffe://td/org/acme/substrate-agent'' else Inl (Err ''bad'')) ''td'' ''Bearer T'' = Inr ''acme''"
  by code_simp

lemma exAgent_connected: "connectedAgent exAPI exBroker exAgent placedWorld"
  unfolding connectedAgent_def
proof (intro conjI)
  show "\<exists>D oddPath. saServer exAPI = registryServer memStore D oddPath" by (auto simp: exAPI_def)
  show "\<exists>r. gget (stOrgs (wStore placedWorld)) (sgOrg exAgent) = Some r \<and> orgSubstrate r \<noteq> None"
    by (simp add: placedWorld_def subStore_def exAgent_def)
  show "\<exists>auth fetch audience. saAuth exAPI = Some auth \<and> sgPlane exAgent = cpClient fetch audience (entryRoutes exAPI) \<and>
      (\<forall>p. \<exists>tok. fetch audience p = Inr tok \<and> auth (''Bearer '' @ tok) = Inr (sgOrg exAgent))"
  proof (intro exI conjI allI)
    show "sgPlane exAgent = cpClient (\<lambda>_ _. Inr ''T'') ''orchestrator'' (entryRoutes exAPI)" by (simp add: exAgent_def)
    show "saAuth exAPI = Some (spiffeSubstrateAuth (\<lambda>tok. if tok = ''T'' then Inr ''spiffe://td/org/acme/substrate-agent'' else Inl (Err ''bad'')) ''td'')"
      by (simp add: exAPI_def)
  qed (use exAuth in \<open>simp_all add: exAgent_def\<close>)
qed (use placed_wf exAgent_node in \<open>simp_all add: exAPI_def exAgent_def\<close>)

lemma memcli_reliable: "carriesOut exBroker A (\<lambda>_. True) known"
proof -
  have "fst (deleteEach memCLI [] is es) = None" for "is" es
    by (induction "is" arbitrary: es) (auto simp: memCLI_delete mentions_notfound)
  moreover have "mentions ''Error: similar entry already exists'' ''already exists''" by code_simp
  ultimately show ?thesis by (simp add: carriesOut_def execEntryBroker_def execCreateEntry_def execDeleteEntry_def memCLI_create memCLI_show memCreate_def)
qed

lemma memkube_reliable: "reliableCluster memKube ns (\<lambda>_. True) wanted named"
  by (simp add: reliableCluster_def memKube_def split: if_split)

lemma rangeOrder_id: "rangeOrder (\<lambda>m. m)" and rangeOrder_rev: "rangeOrder rev"
  by (simp_all add: rangeOrder_def rev_map [symmetric])

lemma identifiable_ex: "validSegment ty \<Longrightarrow> validSegment n \<Longrightarrow> identifiable exAgent ty n"
  by (simp add: identifiable_def exAgent_def workloadSpiffeID_def BuildOrgAgentPath_def) (simp add: validSegment_def)

lemma exCluster: "clusterView (atCluster exState) (''sub'', n) = (if n = ''w2'' then Some (freshObject (placedRecord ''w2'' ''completed'') []) else None)"
  by (simp add: exState_def clusterView_def freshObject_def workloadFor_def placedRecord_def)

lemma placed_ex: "placedHere (wStore placedWorld) ''acme'' n rec \<longleftrightarrow>
  n = ''w1'' \<and> rec = placedRecord ''w1'' ''pending'' \<or> n = ''w3'' \<and> rec = placedRecord ''w3'' ''revoked''"
  using exAgent_node by (auto simp: placedHere_def placedWorld_def placedRecord_def shouldRun_def ownedAgent_def lineAgent_def zeroAgent_def split: if_splits)

lemma exAgent_parts: "sgStore exAgent = k8sWorkloadStore memKube (sgNamespace exAgent)" "sgNamespace exAgent = ''sub''" "sgOrg exAgent = ''acme''"
  "atPlane exState = (placedWorld, exEntries)" "sgTrustDomain exAgent = ''td''"
  by (simp_all add: exAgent_def exState_def)

definition emptyState :: "(memCluster, (store, Mock) world \<times> memEntries) agentState" where
  "emptyState = exState\<lparr>atCluster := []\<rparr>"

lemma ex_converged: "map (\<lambda>(ns, ob). (ns, awName (obWorkload ob))) (atCluster (snd (converge rev exAgent False emptyState))) = [(''sub'', ''w1'')]"
  by code_simp

theorem reconcile_touches_only_delta_witness:
  "\<exists>desired p1. cpListDesired (sgPlane exAgent) (atPlane emptyState) = (Inr desired, p1) \<and> (\<exists>rec \<in> set desired. agAgentID rec = ''w1'' \<and> shouldRun rec)"
proof -
  obtain e s' where c: "converge rev exAgent False emptyState = (e, s')" by force
  then obtain ob where "atCluster s' = [(''sub'', ob)]" "awName (obWorkload ob) = ''w1''" using ex_converged by (auto simp: map_eq_Cons_conv)
  then have "clusterView (atCluster s') (sgNamespace exAgent, ''w1'') \<noteq> clusterView (atCluster emptyState) (sgNamespace exAgent, ''w1'')"
    by (simp add: exAgent_parts emptyState_def clusterView_def)
  from reconcile_touches_only_delta [OF memkube.kube_client_axioms exAgent_parts(1) rangeOrder_rev c this] show ?thesis
    by (auto simp: emptyState_def clusterView_def)
qed

lemma exState_identifiable:
  assumes "concerned clusterView exAgent (wStore placedWorld) (atCluster exState) ty n"
  shows "identifiable exAgent ty n"
proof -
  have "awAgentType (obWorkload (freshObject (placedRecord ''w2'' ''completed'') [])) = ''worker''"
    by (simp add: freshObject_def workloadFor_def placedRecord_def ownedAgent_def lineAgent_def)
  then have "ty = ''worker'' \<and> n \<in> {''w1'', ''w2'', ''w3''}"
    using assms by (auto simp: concerned_def heldHere_def exAgent_parts exCluster placed_ex placedRecord_def ownedAgent_def lineAgent_def split: if_splits)
  then show ?thesis using identifiable_ex [of "''worker''" n] by (auto simp: validSegment_def)
qed

theorem substrate_converges_to_records_witness:
  "\<exists>s'. converge rev exAgent True exState = (None, s') \<and> runs (inNamespace clusterView ''sub'' (atCluster s')) ''w1'' \<and>
     \<not> runs (inNamespace clusterView ''sub'' (atCluster s')) ''w2'' \<and> \<not> runs (inNamespace clusterView ''sub'' (atCluster s')) ''w3''"
proof -
  obtain e s' where c: "converge rev exAgent True exState = (e, s')" by force
  have foreign: "\<not> foreignRecord (wStore placedWorld) (sgOrg exAgent) n" if "heldHere clusterView (sgNamespace exAgent) (atCluster exState) n ob" for n ob
    using that exAgent_node by (auto simp: heldHere_def exAgent_parts exCluster foreignRecord_def placedWorld_def placedRecord_def split: if_splits)
  note r = substrate_converges_to_records [OF memkube.kube_client_axioms exAgent_parts(1) rangeOrder_rev exAgent_connected
      exAgent_parts(4) _ _ memkube_reliable memcli_reliable exState_identifiable foreign c, simplified, unfolded exAgent_parts placed_ex]
  have "runs (inNamespace clusterView ''sub'' (atCluster s')) ''w1''" "e = None" "\<not> runs (inNamespace clusterView ''sub'' (atCluster s')) ''w2''"
    "\<not> runs (inNamespace clusterView ''sub'' (atCluster s')) ''w3''"
    using r [where n = "''w1''"] r [where n = "''w2''"] r [where n = "''w3''"] by (simp_all add: exCluster runs_def placedRecord_def)
  then show ?thesis using c by blast
qed

definition exCommand :: SpawnCommand where
  "exCommand = \<lparr>scAgentID = ''w1'', scAgentType = ''worker'', scUserID = ''alice'', scTenantID = [], scOrgID = ''globex'', scTask = ''go'',
     scParentID = [], scLifecycle = [], scConsentRequired = False, scSupportsChat = False\<rparr>"

lemma ex_spawned: "atSend (handleSpawn_sub exAgent exCommand exState) =
  Some [NewStatus ''w1'' PhaseCreating [], NewStatus ''w1'' PhaseCreated []]"
  by code_simp

theorem spawn_bound_to_record_witness:
  "clusterView (atCluster (handleSpawn_sub exAgent exCommand exState)) (''sub'', ''w1'') \<noteq> None \<and>
   (\<exists>i. workloadSpiffeID ''td'' ''acme'' ''worker'' ''w1'' = Inr i \<and>
      entryOf exAgent i ''w1'' \<in> snd ` set (snd (atPlane (handleSpawn_sub exAgent exCommand exState))))"
proof -
  have q: "atSend exState = Some [] \<and> length ([] :: Up list) + 1 < sendCap" by (simp add: exState_def sendCap_def)
  note r = spawn_bound_to_record [OF memkube.kube_client_axioms exAgent_parts(1) memcli_good [OF exEntries_legible] exAgent_connected
      exAgent_parts(4) refl, of exCommand]
  from r q ex_spawned show ?thesis
    by (auto simp: exAgent_parts exCommand_def NewStatus_def)
qed

end
