(* ===== verification/Spec2Isabelle.thy ===== *)
theory Spec2Isabelle
  imports Agents Users Anchors Templates SpawnPolicy DynamoReplicas TokenValidator Channel OrchAccount Operator SidecarConsent AgentStates ControlPlane SubstrateConverge
begin

text \<open>
  A verification development of Spawnly, a platform that runs software agents for users.

  \<^bold>\<open>The program.\<close> The \<^emph>\<open>registry\<close> (\<open>src/cmd/registry\<close>, \<open>src/internal/registry\<close>) is the one place that records who
  may do what: agent records and their lineage, agent templates with their delegation policy, user consents and consent requests,
  organizations with their members, anchors and substrates. It keeps this in a \<open>Store\<close>, mirrors authority as relationship
  tuples in SpiceDB and membership in an organization directory. The \<^emph>\<open>orchestrator\<close> (\<open>src/cmd/orchestrator\<close>) is what
  users and agents talk to: it checks tokens, spawns and deletes agents, forwards requests to the registry and dispatches work to
  the substrates of organizations over a channel. The \<^emph>\<open>operator\<close> (\<open>src/internal/operator\<close>) turns workloads into pods
  and reports their end. The \<^emph>\<open>sidecar\<close> (\<open>src/cmd/agent-sidecar\<close>) registers its agent, runs the consent flow and
  serves tokens.

  \<^bold>\<open>Conventions.\<close> A Go struct is a record with the source's field names behind a short prefix, a Go map an association
  list with distinct keys, a nilable slice a list option, a string the list of its bytes, an error value the left side of a sum. A
  handler is a function of the services it was built with (records of operations, so that every error a backend may return is
  a branch), of the decoded request and of the state, and returns its answer with the state it leaves behind. The verdict of an
  authenticator is an argument. The clock of the in-memory store is part of its state: a sequence of readings of which
  each operation consumes what it reads, so that equal readings can be expressed.

  \<^bold>\<open>The theories of the registry.\<close>
  \<^item> \<open>Prelude\<close>: Go data and the parts of its standard library that are shared, lemmas and collections. \<open>GoTime\<close>, \<open>GoURL\<close>:
    \<open>time.ParseDuration\<close>; escaping, parsing and matching of request URLs with the round trips between them.
  \<^item> \<open>RegistryTypes\<close>: \<open>internal/registry/types.go\<close>, the record types of \<open>consent.go\<close>, \<open>internal/events/types.go\<close>.
  \<^item> \<open>Consent\<close>: \<open>internal/registry/consent.go\<close>; when a stored consent covers a request, and when its key is unambiguous.
  \<^item> \<open>ObjectID\<close>: \<open>internal/spicedb/objectid.go\<close>; the encoding of ids is injective and stays in the accepted charset.
  \<^item> \<open>Schema\<close>: \<open>schema.go\<close> and \<open>schemastate.go\<close>; the reader recovers rendered schemas, the template check is exact.
  \<^item> \<open>Store\<close>, \<open>Broker\<close>: the \<open>Store\<close> interface and the in-memory store of \<open>main.go\<close> and \<open>store_adapter.go\<close>; the consent-request
    broker as a step relation, its invariant and the finality of decisions over every interleaving.
  \<^item> \<open>SpiceDB\<close>: the client interface and the in-memory mock of \<open>internal/spicedb/client.go\<close>; the laws clients rely on are
    two locales, interpreted by the mock.
  \<^item> \<open>Lineage\<close>: \<open>subtree\<close>, \<open>depth\<close> and the chain handler, over the locale of a store with parent links.
  \<^item> \<open>SpawnPolicy\<close>: the delegation and spawn policy handlers and the depth cap.
  \<^item> \<open>World\<close>: the handler state and the authorization helpers of \<open>main.go\<close>.
  \<^item> \<open>Revocation\<close>: revoke and resume of a node, the cascades, removal disposition, and the four lifecycle handlers, with
    the abstract operation on the map of records that the cascades refine.
  \<^item> \<open>Agents\<close>: preregistration, self-registration, status changes, events.
  \<^item> \<open>Templates\<close>: the template handlers and the isolation of organizations as a transition system.
  \<^item> \<open>ConsentHandlers\<close>: the consent and consent-request endpoints.
  \<^item> \<open>Directory\<close>, \<open>Orgs\<close>, \<open>Users\<close>: \<open>internal/orgdirectory/directory.go\<close>, \<open>orgs.go\<close>, \<open>users.go\<close>.
  \<^item> \<open>DynamoDB\<close>, \<open>DynamoStore\<close>: \<open>internal/registry/dynamostore/store.go\<close>, the second implementation of the \<open>Store\<close>
    interface. An operation is a program, a tree of DynamoDB calls with what the code does on each answer; \<open>run\<close> executes
    it with a client.
  \<^item> \<open>DynamoTable\<close>, \<open>DynamoRefine\<close>, \<open>DynamoBroker\<close>: an idealised table as a locale, interpreted by an executable one;
    the shape of the table and the round trips of its items; the durable store satisfies the same store locales as
    the in-memory one, so the lineage and revocation results hold over it on such a table, and both stores implement one abstract broker.
  \<^item> \<open>DynamoRace\<close>, \<open>DynamoReplicas\<close>: programs of several replicas interleaved call by call on one table, with stale reads
    and calls that fail before or after their effect; the broker invariant by a rely-guarantee argument.
  \<^item> \<open>AwsVerify\<close>, \<open>Anchors\<close>: \<open>internal/attestor/aws_verify.go\<close>, \<open>anchor.go\<close>, \<open>substrate.go\<close>; an active anchor was proved.

  \<^bold>\<open>The theories of the services around it.\<close>
  \<^item> \<open>RegistryClient\<close>: \<open>internal/registry/client.go\<close> and the registry of this development behind HTTP; what a client relies on is
    the locale \<open>registry_api\<close>, which that registry interprets.
  \<^item> \<open>TokenValidator\<close>: \<open>internal/tokenvalidator\<close>, how claims become a caller.
  \<^item> \<open>Channel\<close>: the frames and the hub of the substrate channel; the newest connection of an organization owns it.
  \<^item> \<open>OrchAuth\<close>, \<open>Orchestrator\<close>: the gates of the orchestrator and its agent handlers, with the reaper of substrate agents.
  \<^item> \<open>OrchSpawn\<close>: what an accepted and what a refused spawn leaves behind, proved in \<open>registry_api\<close>.
  \<^item> \<open>OrchTeardown\<close>: the gate of the orchestrator agrees with the registry; a delete clears its subtree although others act in
    between, or reports what is left.
  \<^item> \<open>OrchRoutes\<close>, \<open>OrchAccount\<close>: the routes that are forwarded, with their gates and URLs, and the remaining handlers.
  \<^item> \<open>Operator\<close>: reconciler, pods, identity injectors and the stale sweep.
  \<^item> \<open>Sidecar\<close>, \<open>SidecarConsent\<close>: the sidecar process; tokens of consent-gated agents in every interleaving of requests with
    the waiting goroutine.
  \<^item> \<open>AgentStates\<close>: the agent routes as a transition system; every reachable store is well formed and every request ends.
  \<^item> \<open>Spiffe\<close>: \<open>internal/spiffe/path.go\<close> and the organization ids of \<open>internal/substrate/devca\<close>: identities round trip, and node
    prefixes of two organizations do not overlap.
  \<^item> \<open>Registrant\<close>: \<open>internal/registrant\<close>, the verifiers of registrations, how the registry picks them, and what an accepted credential
    proves about the organization of the agent.
  \<^item> \<open>SubstrateEntries\<close>: \<open>internal/substrate/entry.go\<close> and the handlers of \<open>cmd/orchestrator/substrate.go\<close>, over the
    locale \<open>entry_broker\<close>.
  \<^item> \<open>ExecBroker\<close>: the broker that runs \<open>spire-server\<close> and reads its output; over a command with the laws of the locale \<open>spire_cli\<close>
    it is an \<open>entry_broker\<close>.
  \<^item> \<open>GrpcBroker\<close>: \<open>internal/substrate/spirebroker\<close>, the broker that calls the SPIRE server; over the locale \<open>spire_api\<close> it is an
    \<open>entry_broker\<close> as well, and its paged loops end.
  \<^item> \<open>SubstrateAPI\<close>: isolation, rotation and disconnection over both brokers and the registry; a command in memory interprets \<open>spire_cli\<close>; how a selector with a
    line break escapes the isolation of the broker that reads printed lists.
  \<^item> \<open>ControlPlane\<close>: \<open>internal/controlplane\<close>, the authenticators of the registry's control-plane routes and the bearer its clients send; the two
    ends agree.
  \<^item> \<open>SubstrateAgent\<close>: \<open>cmd/substrate-agent\<close>, the process in the cluster of an organization; a Kubernetes client with the laws of the locale
    \<open>kube_client\<close> gives the store of workloads the laws of \<open>workload_store\<close>.
  \<^item> \<open>SubstrateConverge\<close>: that agent together with the Entry API and the registry: it converges to the records, touches only what differs, and
    materializes only agents of its own organization.
  \<^item> This theory: the properties that span several components.

  \<^bold>\<open>Loops.\<close> The subtree and depth walks may meet a cyclic lineage. They are partial functions over an option, and that they
  return on every well-formed store is proved. The chain handler counts to 32 and the delete and reap loops to their
  number of passes as the source does. Loops that wait for others (the start of the sweep, the consent flow) are recursions over
  the list of what happens or steps of a relation. All other loops are structural recursions over the list the source
  ranges over.

  \<^bold>\<open>Assumptions.\<close> Properties about effects hold for the in-memory store, most of them for every SpiceDB client and every
  directory; those about tuples use the in-memory SpiceDB. Requests are served one at a time except where a theorem says
  otherwise: the in-memory store holds its lock for each operation, and the broker's step relation interleaves whole operations.
  Records in the store are filed under their own id (\<open>agentsWf\<close>), which every agent request preserves. For the DynamoDB
  store the concurrent theorem assumes neither success nor fresh reads, only that a generated request id is not in use; the refinement lemmas
  of \<open>DynamoRefine\<close> and \<open>DynamoBroker\<close> are about an idealised table at rest (\<open>dynamo_service\<close>: no faults, no lag of the index, no other
  writer), which DynamoDB does not promise. What the cluster and
  the identity server promise are the predicates \<open>clusterLaw\<close> and \<open>cibaLaw\<close>, hypotheses of the theorems that need them;
  what a Kubernetes client promises the substrate agent is \<open>kube_client\<close>, where a delete may only mark an object that has finalizers;
  what \<open>spire-server\<close> and the SPIRE server promise are \<open>spire_cli\<close> and \<open>spire_api\<close>, and the entries must fit the lines the
  command prints (\<open>legible\<close>), which the Entry API does not ensure. That a substrate converges assumes that the cluster and the broker carry out the requests of
  its agent (\<open>reliableCluster\<close>, \<open>carriesOut\<close>; the production broker does so over a server that does not fail).
  Marshalling does not fail, times are in UTC, and the test seam \<open>afterPivot\<close> is nil. Error texts that are only logged are
  shortened.

  \<^bold>\<open>Not modelled.\<close> Process start-up, environment variables, flags and logging; the JSON codec; the webhook call (the list of requests to
  notify is part of the answer); signatures of tokens and certificates, the gRPC SpiceDB client, the Kubernetes client and the
  identity server, which are parameters; certificates; the Keycloak adapter, the mobile gateway, the dashboard, the SDKs and the Terraform
  provider, which are clients of what is modelled.
\<close>

section \<open>Suspension across components\<close>

text \<open>The three guards that read the suspension flag, for every store and every client.\<close>

lemma disabled_org_refuses:
  assumes "orgIsDisabled S oid (wStore w) = Inr True"
  shows "agOrgID rec = oid \<Longrightarrow> \<exists>n msg. handlePreregister S D (Inr rec) w = (HttpError n msg, w)"
    and "GetAgent S (idAgentID ident) (wStore w) = Inr a \<Longrightarrow> agOrgID a = oid \<Longrightarrow>
      \<exists>n msg. handleSelfRegister S D (Inr ident) body w = (HttpError n msg, w)"
    and "GetAgent S aid (wStore w) = Inr a \<Longrightarrow> agOrgID a = oid \<Longrightarrow>
      \<exists>n msg. handleResume S D aid u w = Some (HttpError n msg, w)"
  using assms
  by (auto simp: handlePreregister_def handleSelfRegister_def handleResume_def allowedOr404_def internalError_def notFound_def
           Let_def split: sum.splits option.splits)

lemma disableOrg_flag:
  assumes "gget (stOrgs (wStore w)) oid = Some org" and "orgOrgID org = oid"
    and "handleDisableOrg memStore D G ma oid w = Some (resp, w')"
  shows "gget (stOrgs (wStore w')) oid = Some (org\<lparr>orgDisabled := True\<rparr>)"
proof -
  let ?w1 = "withDisabledOrg memStore org w"
  obtain e w2 where dm: "disableOrgMembers G oid ma ?w1 = (e, w2)" by force
  then have "wStore w2 = wStore ?w1" using disableOrgMembers_frame by (metis snd_conv)
  then have w2: "gget (stOrgs (wStore w2)) oid = Some (org\<lparr>orgDisabled := True\<rparr>)"
    using assms(2) by (simp add: withDisabledOrg_def memStore_simps putOrg_def gomap_simps)
  have run: "(case (e, w2) of (Some e, w2) \<Rightarrow> Some (HttpError 500 ''org disable failed'', w2)
      | (None, w2) \<Rightarrow> (case suspendOrgAgents memStore D oid w2 of None \<Rightarrow> None
          | Some (Some e, w3) \<Rightarrow> Some (HttpError 500 ''org disable failed'', w3)
          | Some (None, w3) \<Rightarrow> Some (HttpOK 200 (org\<lparr>orgDisabled := True\<rparr>), w3))) = Some (resp, w')"
    using assms(1,3) dm by (simp add: handleDisableOrg_def memStore_simps getOrg_def withDisabledOrg_def Let_def)
  show ?thesis
  proof (cases e)
    case None
    then obtain e3 where "suspendOrgAgents memStore D oid w2 = Some (e3, w')" using run by (auto split: option.splits)
    then have "stOrgs (wStore w') = stOrgs (wStore w2)"
      using cascade_orgs by (auto simp: suspendOrgAgents_def revokeCascadeRoots_def memStore_simps)
    then show ?thesis using w2 by simp
  next
    case (Some e')
    then show ?thesis using run w2 by simp
  qed
qed

text \<open>
  C7: a suspension closes every way back. Once the suspension of a recorded organization has been requested, and even when the
  directory failed and the answer was an error, no agent can be preregistered into the organization, no agent
  recorded in it can register itself and none can be resumed: each of these requests is answered with an error and
  changes nothing, for every directory and SpiceDB client, whoever asks.
\<close>

theorem suspended_org_is_closed:
  assumes "gget (stOrgs (wStore w)) oid = Some org" and "orgOrgID org = oid" and "oid \<noteq> []"
    and "handleDisableOrg memStore D G ma oid w = Some (resp, w')"
  shows "(\<forall>rec. agOrgID rec = oid \<longrightarrow> (\<exists>n msg. handlePreregister memStore D (Inr rec) w' = (HttpError n msg, w'))) \<and>
    (\<forall>i a. gget (stAgents (wStore w')) i = Some a \<and> agOrgID a = oid \<longrightarrow>
       (\<forall>ident body. idAgentID ident = i \<longrightarrow>
          (\<exists>n msg. handleSelfRegister memStore D (Inr ident) body w' = (HttpError n msg, w'))) \<and>
       (\<forall>u. \<exists>n msg. handleResume memStore D i u w' = Some (HttpError n msg, w')))"
proof -
  have dis: "orgIsDisabled memStore oid (wStore w') = Inr True"
    using disableOrg_flag [OF assms(1,2,4)] assms(3) by (simp add: orgIsDisabled_def memStore_simps getOrg_def)
  have get: "GetAgent memStore i (wStore w') = Inr a" if "gget (stAgents (wStore w')) i = Some a" for i a
    using that by (simp add: memStore_simps getAgent_def)
  show ?thesis
  proof (intro conjI allI impI)
    show "\<exists>n msg. handlePreregister memStore D (Inr rec) w' = (HttpError n msg, w')" if "agOrgID rec = oid" for rec
      using that by (rule disabled_org_refuses(1) [OF dis])
    show "\<exists>n msg. handleSelfRegister memStore D (Inr ident) body w' = (HttpError n msg, w')"
      if "gget (stAgents (wStore w')) i = Some a \<and> agOrgID a = oid" "idAgentID ident = i" for i a ident body
      using that get disabled_org_refuses(2) [OF dis] by simp
    show "\<exists>n msg. handleResume memStore D i u w' = Some (HttpError n msg, w')"
      if "gget (stAgents (wStore w')) i = Some a \<and> agOrgID a = oid" for i a u
      using that get disabled_org_refuses(3) [OF dis] by simp
  qed
qed

theorem suspended_org_is_closed_witness:
  "\<exists>w' n msg m msg2. handleDisableOrg memStore mockClient disabledDirectory ''root'' ''acme'' acmeWorld = Some (HttpError n msg, w') \<and>
     handlePreregister memStore mockClient (Inr (orgAgent ''new'' [] False)) w' = (HttpError m msg2, w')"
proof -
  obtain n msg w' where h: "handleDisableOrg memStore mockClient disabledDirectory ''root'' ''acme'' acmeWorld = Some (HttpError n msg, w')"
    by (simp add: handleDisableOrg_def memStore_simps getOrg_def disableOrgMembers_def disabledDirectory_def)
  have "\<forall>rec. agOrgID rec = ''acme'' \<longrightarrow> (\<exists>n msg. handlePreregister memStore mockClient (Inr rec) w' = (HttpError n msg, w'))"
    using suspended_org_is_closed [OF acmeWorld_wf(3) orgAgent_simps(7) _ h] by (rule conjunct1) simp
  then obtain m msg2 where "handlePreregister memStore mockClient (Inr (orgAgent ''new'' [] False)) w' = (HttpError m msg2, w')"
    using orgAgent_simps(3) by metis
  then show ?thesis using h by blast
qed

section \<open>Revocation before the first token\<close>

text \<open>
  C31: revoking an agent severs its next mint even before its first one. An agent that was just preregistered can be
  revoked by its owner at once; the revoke lists it, and from then on its sidecar, with a valid credential and a
  well-formed request for a known template, is refused with 409 without any effect, and the agent passes no \<open>work_on\<close> check.
\<close>

theorem revoked_before_first_registration:
  assumes "agentsWf (wStore w)" and "handlePreregister memStore mockClient (Inr rec) w = (HttpOK n (), w1)"
    and "agUserID rec \<noteq> []" and "idAgentID ident = agAgentID rec" and "validAgentID (agAgentID rec)"
    and "\<not> rejectInvalidUserID (rqUserID req)" and "gget (stTemplates (wStore w)) (rqAgentType req) \<noteq> None"
  shows "\<exists>revoked w2 msg. handleRevoke memStore mockClient (agAgentID rec) (agUserID rec) w1 = Some (HttpOK 200 revoked, w2) \<and>
    agAgentID rec \<in> set revoked \<and>
    handleSelfRegister memStore mockClient (Inr ident) (Inr req) w2 = (HttpError 409 msg, w2) \<and>
    (\<forall>resource. CheckPermission mockClient resource ''work_on'' (agentRef (agAgentID rec)) (wSdb w2) \<noteq> Inr True)"
proof -
  let ?i = "agAgentID rec"
  note pre = preregister_mem [OF assms(2)]
  have wf1: "agentsWf (wStore w1)"
    using agentsWf_put [OF assms(1), of "rec\<lparr>agStatus := ''pending''\<rparr>" ?i] pre by (simp add: agentsWf_def)
  have m1: "gget (stAgents (wStore w1)) ?i = Some (rec\<lparr>agStatus := ''pending''\<rparr>)" using pre by (simp add: gomap_simps)
  obtain revoked w2 where r: "handleRevoke memStore mockClient ?i (agUserID rec) w1 = Some (HttpOK 200 revoked, w2)"
      "agentsWf (wStore w2)"
      "gget (stAgents (wStore w2)) = revokeMap (descendants (gget (stAgents (wStore w1))) ?i) (gget (stAgents (wStore w1)))"
      "set revoked = {i \<in> descendants (gget (stAgents (wStore w1))) ?i.
         \<exists>a. gget (stAgents (wStore w1)) i = Some a \<and> revocableStatus (agStatus a)}"
    using mem_revoke [OF wf1 preregister_manage [OF assms(2,3)]] by blast
  have self: "?i \<in> descendants (gget (stAgents (wStore w1))) ?i" by (simp add: descendants_def)
  then have listed: "?i \<in> set revoked" using m1 r(4) by simp
  have "gget (stAgents (wStore w2)) (idAgentID ident) = Some (rec\<lparr>agStatus := ''revoked''\<rparr>)"
    using self m1 assms(4) by (simp add: r(3) revokeMap_def statusMap_def)
  moreover have "gget (stTemplates (wStore w2)) (rqAgentType req) \<noteq> None"
    using revoke_templates [OF r(1)] pre assms(7) by simp
  ultimately obtain msg where "handleSelfRegister memStore mockClient (Inr ident) (Inr req) w2 = (HttpError 409 msg, w2)"
    using ended_not_registered [OF r(2), of ident req "rec\<lparr>agStatus := ''revoked''\<rparr>"] assms(4,5,6) by auto
  moreover have "enabledKey ?i \<notin> set (wSdb w2)" using revoke_tuples [OF r(1)] listed by simp
  ultimately show ?thesis
    using r(1) listed mock.no_enabled_no_work by (auto simp: enabledKey_def)
qed

theorem revoked_before_first_registration_witness:
  "\<exists>w1 revoked w2 msg. handlePreregister memStore mockClient (Inr preRecord) emptyWorld = (HttpOK 201 (), w1) \<and>
     handleRevoke memStore mockClient ''w1'' ''alice'' w1 = Some (HttpOK 200 revoked, w2) \<and> ''w1'' \<in> set revoked \<and>
     handleSelfRegister memStore mockClient (Inr selfIdent) (Inr selfReq) w2 = (HttpError 409 msg, w2)"
proof -
  obtain w1 where h: "handlePreregister memStore mockClient (Inr preRecord) emptyWorld = (HttpOK 201 (), w1)"
    using emptyWorld_preregister by blast
  have wf: "agentsWf (wStore emptyWorld)" by (simp add: agentsWf_def)
  have "\<exists>revoked w2 msg. handleRevoke memStore mockClient (agAgentID preRecord) (agUserID preRecord) w1 = Some (HttpOK 200 revoked, w2) \<and>
      agAgentID preRecord \<in> set revoked \<and>
      handleSelfRegister memStore mockClient (Inr selfIdent) (Inr selfReq) w2 = (HttpError 409 msg, w2) \<and>
      (\<forall>resource. CheckPermission mockClient resource ''work_on'' (agentRef (agAgentID preRecord)) (wSdb w2) \<noteq> Inr True)"
    by (rule revoked_before_first_registration [OF wf h]) simp_all
  then show ?thesis using h unfolding preRecord_simps by blast
qed

end
